(* ===== verification/HubPrelude.thy ===== *)
theory HubPrelude
  imports Main "HOL-Library.List_Lexorder" "HOL-Library.Char_ord"
begin

text \<open>
  Shared vocabulary of the development.

  Every durable component of the program is a sequence of SQL statements issued through
  a connection pool or inside database.WithTx (src/internal/database/migrate.go).  A
  statement either succeeds or fails for a reason outside the program (lost connection,
  timeout).  The theory models such code as functions from a database value and a
  schedule of statement failures: each statement consumes one entry of the schedule, an
  entry \<open>True\<close> makes it fail, an exhausted schedule means that no further statement
  fails.  Theorems about all schedules are theorems about all points of failure.

  The theory holds the statement and transaction combinators with their inversion
  rules, the JSON values the services exchange, and the table operations (SELECT,
  UPDATE, DELETE on a list of rows) with the lemmas the components share.
\<close>

named_theorems tx_inv \<open>inversion rules for programs over a failing database\<close>
named_theorems tbl \<open>facts on tables as lists of rows\<close>

section \<open>Errors and failing statements\<close>

text \<open>
  An error is a failed statement, a violated constraint of the schema, an error text
  made at the point of return, or a sentinel of the package.
\<close>

datatype 'e err = Fault | Constraint | Msg string | Err 'e

type_synonym ('d, 'e, 'a) tx = "'d \<times> bool list \<Rightarrow> ('e err + 'a) \<times> 'd \<times> bool list"

definition faulty :: "bool list \<Rightarrow> bool" where
  "faulty fs = (case fs of [] \<Rightarrow> False | b # _ \<Rightarrow> b)"

lemma faulty_simps [simp]: "\<not> faulty []" "faulty (b # fs) = b"
  by (simp_all add: faulty_def)

definition tx_ret :: "'a \<Rightarrow> ('d, 'e, 'a) tx" where
  "tx_ret a = (\<lambda>(d, fs). (Inr a, d, fs))"

definition tx_fail :: "'e err \<Rightarrow> ('d, 'e, 'a) tx" where
  "tx_fail e = (\<lambda>(d, fs). (Inl e, d, fs))"

definition tx_bind :: "('d, 'e, 'a) tx \<Rightarrow> ('a \<Rightarrow> ('d, 'e, 'b) tx) \<Rightarrow> ('d, 'e, 'b) tx" where
  "tx_bind m k = (\<lambda>w. case m w of (Inl e, w') \<Rightarrow> (Inl e, w') | (Inr a, w') \<Rightarrow> k a w')"

abbreviation tx_seq :: "('d, 'e, 'a) tx \<Rightarrow> ('d, 'e, 'b) tx \<Rightarrow> ('d, 'e, 'b) tx" where
  "tx_seq m k \<equiv> tx_bind m (\<lambda>_. k)"

text \<open>One statement: \<open>f\<close> is its effect on the database and its result.\<close>

definition sql :: "('d \<Rightarrow> 'a \<times> 'd) \<Rightarrow> ('d, 'e, 'a) tx" where
  "sql f = (\<lambda>(d, fs). if faulty fs then (Inl Fault, d, tl fs)
     else case f d of (a, d') \<Rightarrow> (Inr a, d', tl fs))"

text \<open>A statement that the schema may reject (unique index, CHECK).\<close>

definition sql_checked :: "('d \<Rightarrow> ('a \<times> 'd) option) \<Rightarrow> ('d, 'e, 'a) tx" where
  "sql_checked f = (\<lambda>(d, fs). if faulty fs then (Inl Fault, d, tl fs)
     else case f d of None \<Rightarrow> (Inl Constraint, d, tl fs) | Some (a, d') \<Rightarrow> (Inr a, d', tl fs))"

abbreviation sql_read :: "('d \<Rightarrow> 'a) \<Rightarrow> ('d, 'e, 'a) tx" where
  "sql_read f \<equiv> sql (\<lambda>d. (f d, d))"

abbreviation sql_exec :: "('d \<Rightarrow> 'd) \<Rightarrow> ('d, 'e, unit) tx" where
  "sql_exec f \<equiv> sql (\<lambda>d. ((), f d))"

text \<open>
  database.WithTx: BEGIN, the body, COMMIT.  An error of the body, of BEGIN or of COMMIT
  leaves the database as it was.
\<close>

definition with_tx :: "('d, 'e, 'a) tx \<Rightarrow> ('d, 'e, 'a) tx" where
  "with_tx body = (\<lambda>(d, fs).
     if faulty fs then (Inl Fault, d, tl fs)
     else case body (d, tl fs) of
            (Inl e, _, fs') \<Rightarrow> (Inl e, d, fs')
          | (Inr a, d', fs') \<Rightarrow>
              (if faulty fs' then (Inl Fault, d, tl fs') else (Inr a, d', tl fs')))"

text \<open>
  A program over a part of the database, and a call whose error the caller looks at:
  \<open>tx_try\<close> returns the error as a value.
\<close>

definition tx_on :: "('d \<Rightarrow> 's) \<Rightarrow> ('s \<Rightarrow> 'd \<Rightarrow> 'd) \<Rightarrow> ('s, 'e, 'a) tx \<Rightarrow> ('d, 'e, 'a) tx" where
  "tx_on get put m = (\<lambda>(d, fs). case m (get d, fs) of (r, s, fs') \<Rightarrow> (r, put s d, fs'))"

definition tx_try :: "('d, 'f, 'a) tx \<Rightarrow> ('d, 'e, 'f err + 'a) tx" where
  "tx_try m = (\<lambda>w. case m w of (r, w') \<Rightarrow> (Inr r, w'))"

fun map_err :: "('f \<Rightarrow> 'e) \<Rightarrow> 'f err \<Rightarrow> 'e err" where
  "map_err f Fault = Fault"
| "map_err f Constraint = Constraint"
| "map_err f (Msg m) = Msg m"
| "map_err f (Err e) = Err (f e)"

text \<open>A loop over a slice that returns the first error.\<close>

fun tx_each :: "('x \<Rightarrow> ('d, 'e, unit) tx) \<Rightarrow> 'x list \<Rightarrow> ('d, 'e, unit) tx" where
  "tx_each f [] = tx_ret ()"
| "tx_each f (x # xs) = tx_seq (f x) (tx_each f xs)"

fun tx_map :: "('x \<Rightarrow> ('d, 'e, 'y) tx) \<Rightarrow> 'x list \<Rightarrow> ('d, 'e, 'y list) tx" where
  "tx_map f [] = tx_ret []"
| "tx_map f (x # xs) = tx_bind (f x) (\<lambda>y. tx_bind (tx_map f xs) (\<lambda>ys. tx_ret (y # ys)))"

subsection \<open>Inversion of a successful run\<close>

lemma tx_ret_Inr [tx_inv]: "tx_ret a w = (Inr b, w') \<longleftrightarrow> b = a \<and> w' = w"
  by (cases w) (auto simp: tx_ret_def)

lemma tx_ret_Inl [tx_inv]: "tx_ret a w \<noteq> (Inl e, w')"
  by (cases w) (auto simp: tx_ret_def)

lemma tx_fail_Inr [tx_inv]: "tx_fail e w \<noteq> (Inr b, w')"
  by (cases w) (auto simp: tx_fail_def)

lemma tx_fail_Inl [tx_inv]: "tx_fail e w = (Inl e', w') \<longleftrightarrow> e' = e \<and> w' = w"
  by (cases w) (auto simp: tx_fail_def)

lemma tx_bind_Inr [tx_inv]:
  "tx_bind m k w = (Inr b, w') \<longleftrightarrow> (\<exists>a w1. m w = (Inr a, w1) \<and> k a w1 = (Inr b, w'))"
  by (auto simp: tx_bind_def split: prod.splits sum.splits)

lemma tx_bind_Inl:
  "tx_bind m k w = (Inl e, w') \<longleftrightarrow>
     m w = (Inl e, w') \<or> (\<exists>a w1. m w = (Inr a, w1) \<and> k a w1 = (Inl e, w'))"
  by (auto simp: tx_bind_def split: prod.splits sum.splits)

lemma sql_Inr [tx_inv]:
  "sql f (d, fs) = (Inr a, d', fs') \<longleftrightarrow> \<not> faulty fs \<and> f d = (a, d') \<and> fs' = tl fs"
  by (auto simp: sql_def split: prod.splits)

lemma sql_Inl: "sql f (d, fs) = (Inl e, d', fs') \<longleftrightarrow> faulty fs \<and> e = Fault \<and> d' = d \<and> fs' = tl fs"
  by (auto simp: sql_def split: prod.splits)

lemma sql_checked_Inr [tx_inv]:
  "sql_checked f (d, fs) = (Inr a, d', fs') \<longleftrightarrow> \<not> faulty fs \<and> f d = Some (a, d') \<and> fs' = tl fs"
  by (auto simp: sql_checked_def split: prod.splits option.splits)

lemma sql_checked_Inl:
  "sql_checked f (d, fs) = (Inl e, d', fs') \<longleftrightarrow>
     d' = d \<and> fs' = tl fs \<and> (faulty fs \<and> e = Fault \<or> \<not> faulty fs \<and> f d = None \<and> e = Constraint)"
  by (auto simp: sql_checked_def split: prod.splits option.splits)

lemma with_tx_Inr:
  "with_tx body (d, fs) = (Inr a, d', fs') \<longleftrightarrow>
     \<not> faulty fs \<and> (\<exists>fs1. body (d, tl fs) = (Inr a, d', fs1) \<and> \<not> faulty fs1 \<and> fs' = tl fs1)"
  by (auto simp: with_tx_def split: prod.splits sum.splits if_splits)

lemma with_tx_rolls_back: "with_tx body (d, fs) = (Inl e, d', fs') \<Longrightarrow> d' = d"
  by (auto simp: with_tx_def split: prod.splits sum.splits if_splits)

text \<open>
  Failure-free evaluation: with an empty schedule every statement runs, so a program is
  a function of the database.
\<close>

lemma sql_no_fault [simp]: "sql f (d, []) = (case f d of (a, d') \<Rightarrow> (Inr a, d', []))"
  by (simp add: sql_def)

lemma sql_checked_no_fault [simp]:
  "sql_checked f (d, []) = (case f d of None \<Rightarrow> (Inl Constraint, d, []) | Some (a, d') \<Rightarrow> (Inr a, d', []))"
  by (simp add: sql_checked_def split: option.splits)

lemma tx_bind_no_fault:
  "tx_bind m k (d, fs) = (case m (d, fs) of (Inl e, w') \<Rightarrow> (Inl e, w') | (Inr a, w') \<Rightarrow> k a w')"
  by (simp add: tx_bind_def)

text \<open>A program that does not touch the database.\<close>

definition reads_only :: "('d, 'e, 'a) tx \<Rightarrow> bool" where
  "reads_only m \<longleftrightarrow> (\<forall>d fs. fst (snd (m (d, fs))) = d)"

lemma reads_onlyD: "reads_only m \<Longrightarrow> m (d, fs) = (r, d', fs') \<Longrightarrow> d' = d"
  by (metis fst_conv reads_only_def snd_conv)

lemma reads_only_intros [intro]:
  "reads_only (tx_ret a)" "reads_only (tx_fail e)" "reads_only (sql_read f)"
  "reads_only m \<Longrightarrow> (\<And>a. reads_only (k a)) \<Longrightarrow> reads_only (tx_bind m k)"
  by (auto simp: reads_only_def tx_ret_def tx_fail_def sql_def tx_bind_def split: prod.splits sum.splits)
    (metis fst_conv snd_conv)+

text \<open>
  Invariants of programs that any statement may interrupt: the database satisfies \<open>I\<close>
  wherever the program stops.
\<close>

definition tx_keeps :: "('d \<Rightarrow> bool) \<Rightarrow> ('d, 'e, 'a) tx \<Rightarrow> bool" where
  "tx_keeps I m \<longleftrightarrow> (\<forall>d fs. I d \<longrightarrow> I (fst (snd (m (d, fs)))))"

lemma tx_keepsD: "tx_keeps I m \<Longrightarrow> I d \<Longrightarrow> m (d, fs) = (r, d', fs') \<Longrightarrow> I d'"
  by (metis fst_conv snd_conv tx_keeps_def)

lemma keeps_run: "tx_keeps I m \<Longrightarrow> I d \<Longrightarrow> I (fst (snd (m (d, fs))))"
  by (simp add: tx_keeps_def)

named_theorems keeps \<open>introduction rules for invariants of programs\<close>

lemma keeps_ret [keeps]: "tx_keeps I (tx_ret a)"
  by (simp add: tx_keeps_def tx_ret_def)

lemma keeps_fail [keeps]: "tx_keeps I (tx_fail e)"
  by (simp add: tx_keeps_def tx_fail_def)

lemma keeps_sql [keeps]: "(\<And>d. I d \<Longrightarrow> I (snd (f d))) \<Longrightarrow> tx_keeps I (sql f)"
  by (auto simp: tx_keeps_def sql_def split: prod.split) (metis snd_conv)

lemma keeps_sql_checked [keeps]:
  "(\<And>d a d'. I d \<Longrightarrow> f d = Some (a, d') \<Longrightarrow> I d') \<Longrightarrow> tx_keeps I (sql_checked f)"
  by (auto simp: tx_keeps_def sql_checked_def split: prod.split option.split)

lemma keeps_bind [keeps]: "tx_keeps I m \<Longrightarrow> (\<And>a. tx_keeps I (k a)) \<Longrightarrow> tx_keeps I (tx_bind m k)"
  unfolding tx_keeps_def tx_bind_def
  by (auto split: prod.split sum.split) (metis fst_conv snd_conv)+

lemma keeps_with_tx [keeps]: "tx_keeps I m \<Longrightarrow> tx_keeps I (with_tx m)"
  unfolding tx_keeps_def with_tx_def
  by (auto split: prod.split sum.split) (metis fst_conv snd_conv)+

lemma keeps_each [keeps]: "(\<And>x. x \<in> set xs \<Longrightarrow> tx_keeps I (f x)) \<Longrightarrow> tx_keeps I (tx_each f xs)"
  by (induction xs) (auto intro: keeps)

lemma keeps_try [keeps]: "tx_keeps I m \<Longrightarrow> tx_keeps I (tx_try m)"
  unfolding tx_keeps_def tx_try_def by (auto split: prod.split) (metis fst_conv snd_conv)

lemma keeps_on [keeps]: "(\<And>d s. I d \<Longrightarrow> I (put s d)) \<Longrightarrow> tx_keeps I (tx_on get put m)"
  unfolding tx_keeps_def tx_on_def by (auto split: prod.split)

lemma keeps_if [keeps]: "(b \<Longrightarrow> tx_keeps I m) \<Longrightarrow> (\<not> b \<Longrightarrow> tx_keeps I m') \<Longrightarrow> tx_keeps I (if b then m else m')"
  by simp

lemma keeps_read: "(\<And>d. I d \<Longrightarrow> tx_keeps I (k (f d))) \<Longrightarrow> tx_keeps I (tx_bind (sql_read f) k)"
  unfolding tx_keeps_def tx_bind_def sql_def by (auto split: prod.split sum.split)

lemma keeps_map [keeps]: "(\<And>x. x \<in> set xs \<Longrightarrow> tx_keeps I (f x)) \<Longrightarrow> tx_keeps I (tx_map f xs)"
  by (induction xs) (auto intro!: keeps)

lemma keeps_conj: "tx_keeps I m \<Longrightarrow> tx_keeps J m \<Longrightarrow> tx_keeps (\<lambda>d. I d \<and> J d) m"
  by (simp add: tx_keeps_def)

lemma keeps_reads_only: "reads_only m \<Longrightarrow> tx_keeps I m"
  by (simp add: tx_keeps_def reads_only_def)

text \<open>
  Running a program on a concrete state by rewriting: the congruences keep the simplifier out
  of continuations and of branches not taken.
\<close>

lemma tx_bind_run: "tx_bind m k w = (case m w of (r, w') \<Rightarrow> (case r of Inl e \<Rightarrow> (Inl e, w') | Inr a \<Rightarrow> k a w'))"
  by (simp add: tx_bind_def split: prod.split sum.split)

lemma tx_bind_weak: "w = w' \<Longrightarrow> tx_bind m k w = tx_bind m k w'" by simp
lemma with_tx_weak: "w = w' \<Longrightarrow> with_tx m w = with_tx m w'" by simp

lemmas tx_run = tx_bind_run with_tx_def sql_def sql_checked_def tx_ret_def tx_fail_def Let_def
lemmas tx_congs = tx_bind_weak with_tx_weak prod.case_cong_weak sum.case_cong_weak if_weak_cong
  option.case_cong_weak list.case_cong_weak

section \<open>JSON values\<close>

datatype json = JNull | JBool bool | JInt int | JStr string | JArr "json list" | JObj "(string \<times> json) list"

text \<open>A nil \<open>*string\<close> is encoded as null.\<close>

definition json_opt :: "string option \<Rightarrow> json" where
  "json_opt v = (case v of None \<Rightarrow> JNull | Some s \<Rightarrow> JStr s)"

text \<open>The member of an object that decoding into a struct field keeps: the last one.\<close>

definition json_field :: "json \<Rightarrow> string \<Rightarrow> json option" where
  "json_field j k = (case j of JObj fs \<Rightarrow> map_of (rev fs) k | _ \<Rightarrow> None)"

section \<open>Strings\<close>

definition has_prefix :: "string \<Rightarrow> string \<Rightarrow> bool" where
  "has_prefix s p = (take (length p) s = p)"

definition trim_prefix :: "string \<Rightarrow> string \<Rightarrow> string" where
  "trim_prefix s p = (if has_prefix s p then drop (length p) s else s)"

lemma has_prefix_append [simp]: "has_prefix (p @ s) p"
  by (simp add: has_prefix_def)

lemma trim_prefix_append [simp]: "trim_prefix (p @ s) p = s"
  by (simp add: trim_prefix_def)

text \<open>ASCII white space, as \<open>strings.TrimSpace\<close> removes it.\<close>

definition is_space :: "char \<Rightarrow> bool" where
  "is_space c = (c \<in> {CHR 0x09, CHR 0x0A, CHR 0x0B, CHR 0x0C, CHR 0x0D, CHR '' ''})"

definition trim_space :: "string \<Rightarrow> string" where
  "trim_space s = rev (dropWhile is_space (rev (dropWhile is_space s)))"

text \<open>NULLIF(s, ''''), the column of a string that may be missing.\<close>

definition null_if :: "string \<Rightarrow> string option" where
  "null_if s = (if s = '''' then None else Some s)"

section \<open>Tables\<close>

text \<open>
  A table is the list of its rows.  SELECT is \<open>filter\<close>, UPDATE ... WHERE rewrites the
  rows that match, DELETE drops them.
\<close>

definition update_where :: "('r \<Rightarrow> bool) \<Rightarrow> ('r \<Rightarrow> 'r) \<Rightarrow> 'r list \<Rightarrow> 'r list" where
  "update_where P f t = map (\<lambda>r. if P r then f r else r) t"

definition delete_where :: "('r \<Rightarrow> bool) \<Rightarrow> 'r list \<Rightarrow> 'r list" where
  "delete_where P t = filter (\<lambda>r. \<not> P r) t"

lemma update_where_simps [simp]:
  "update_where P f [] = []"
  "update_where P f (r # t) = (if P r then f r else r) # update_where P f t"
  "update_where P f (t @ u) = update_where P f t @ update_where P f u"
  "length (update_where P f t) = length t"
  by (simp_all add: update_where_def)

lemma set_update_where [tbl]:
  "x \<in> set (update_where P f t) \<longleftrightarrow> (\<exists>r \<in> set t. x = (if P r then f r else r))"
  by (auto simp: update_where_def)

lemma map_update_where [tbl]:
  "(\<And>r. r \<in> set t \<Longrightarrow> P r \<Longrightarrow> key (f r) = key r) \<Longrightarrow> map key (update_where P f t) = map key t"
  by (auto simp: update_where_def)

lemma update_where_none [tbl]: "(\<And>r. r \<in> set t \<Longrightarrow> \<not> P r) \<Longrightarrow> update_where P f t = t"
  by (auto simp: update_where_def intro: map_idI)

lemma distinct_map_filter [tbl]: "distinct (map key t) \<Longrightarrow> distinct (map key (filter P t))"
  by (induction t) auto

lemma key_unique [tbl]:
  "distinct (map key t) \<Longrightarrow> r \<in> set t \<Longrightarrow> s \<in> set t \<Longrightarrow> key r = key s \<Longrightarrow> r = s"
  by (metis distinct_map inj_onD)

text \<open>UPDATE of the one row with the key of \<open>c\<close>.\<close>

lemma set_update_key:
  assumes "distinct (map key t)" "c \<in> set t"
  shows "x \<in> set (update_where (\<lambda>r. key r = key c) f t) \<longleftrightarrow> x = f c \<or> x \<in> set t \<and> key x \<noteq> key c"
proof -
  have u: "r = c" if "r \<in> set t" "key r = key c" for r by (rule key_unique [OF assms(1) that(1) assms(2) that(2)])
  show ?thesis
  proof
    assume "x \<in> set (update_where (\<lambda>r. key r = key c) f t)"
    then obtain r where r: "r \<in> set t" "x = (if key r = key c then f r else r)" by (auto simp: set_update_where)
    then show "x = f c \<or> x \<in> set t \<and> key x \<noteq> key c" using u [of r] by (cases "key r = key c") auto
  next
    assume "x = f c \<or> x \<in> set t \<and> key x \<noteq> key c"
    then show "x \<in> set (update_where (\<lambda>r. key r = key c) f t)"
      using assms(2) by (auto simp: set_update_where intro: bexI [of _ c] bexI [of _ x])
  qed
qed

text \<open>The row with a given key, as a lookup by primary key finds it.\<close>

definition lookup_key :: "('r \<Rightarrow> 'k) \<Rightarrow> 'k \<Rightarrow> 'r list \<Rightarrow> 'r option" where
  "lookup_key key k t = find (\<lambda>r. key r = k) t"

lemma lookup_key_simps [simp]:
  "lookup_key key k [] = None"
  "lookup_key key k (r # t) = (if key r = k then Some r else lookup_key key k t)"
  by (simp_all add: lookup_key_def)

lemma lookup_key_Some: "lookup_key key k t = Some r \<Longrightarrow> r \<in> set t \<and> key r = k"
  by (induction t) (auto split: if_splits)

lemma lookup_key_None: "lookup_key key k t = None \<longleftrightarrow> k \<notin> key ` set t"
  by (induction t) (auto split: if_splits)

lemma lookup_key_in:
  "distinct (map key t) \<Longrightarrow> r \<in> set t \<Longrightarrow> lookup_key key (key r) t = Some r"
  by (induction t) (auto simp: image_iff)

lemma lookup_key_update [tbl]:
  "(\<And>r. key (f r) = key r) \<Longrightarrow>
   lookup_key key k (update_where P f t) = map_option (\<lambda>r. if P r then f r else r) (lookup_key key k t)"
  by (induction t) auto

lemma lookup_key_update_eq:
  "lookup_key key k t = Some r \<Longrightarrow> (\<And>r. key (f r) = key r) \<Longrightarrow>
     lookup_key key k (update_where (\<lambda>r. key r = k) f t) = Some (f r)"
  using lookup_key_Some [of key k t r] by (simp add: lookup_key_update)

lemma lookup_key_append [tbl]:
  "lookup_key key k (t @ u) = (case lookup_key key k t of None \<Rightarrow> lookup_key key k u | Some r \<Rightarrow> Some r)"
  by (induction t) auto

section \<open>Sorting by a key\<close>

lemma sorted_map_filter_sort: "sorted (map key (sort_key key xs))"
  by simp

lemma sort_key_sorted: "sorted (map key xs) \<Longrightarrow> sort_key key xs = xs"
  by (induction xs) (auto simp: insort_is_Cons)

lemma take_sorted_map: "sorted (map key xs) \<Longrightarrow> sorted (map key (take n xs))"
  by (metis sorted_wrt_take take_map)

lemma le_last_sorted:
  fixes key :: "'a \<Rightarrow> 'b::linorder"
  shows "sorted_wrt (<) (map key xs) \<Longrightarrow> x \<in> set xs \<Longrightarrow> key x \<le> key (last xs)"
  by (induction xs) (auto intro: less_imp_le)

text \<open>The elements above the last one of a strictly sorted prefix are the rest.\<close>

lemma filter_above_mid:
  fixes key :: "'a \<Rightarrow> 'b::linorder"
  assumes "sorted_wrt (\<lambda>x y. key x < key y) (ys @ l # zs)"
  shows "filter (\<lambda>x. key l < key x) (ys @ l # zs) = zs"
proof -
  have "filter (\<lambda>x. key l < key x) ys = []"
    using assms by (auto simp: sorted_wrt_append filter_empty_conv not_less intro: less_imp_le)
  moreover have "filter (\<lambda>x. key l < key x) zs = zs"
    using assms by (auto simp: sorted_wrt_append intro: filter_True)
  ultimately show ?thesis by simp
qed

lemma filter_above_last_take:
  fixes key :: "'a \<Rightarrow> 'b::linorder"
  assumes "sorted_wrt (<) (map key xs)" "take n xs \<noteq> []"
  shows "filter (\<lambda>x. key (last (take n xs)) < key x) xs = drop n xs"
proof -
  have e: "xs = butlast (take n xs) @ last (take n xs) # drop n xs"
    using assms(2) by (metis append.assoc append_Cons append_Nil append_butlast_last_id append_take_drop_id)
  have "sorted_wrt (\<lambda>x y. key x < key y) (butlast (take n xs) @ last (take n xs) # drop n xs)"
    using assms(1) by (subst e [symmetric]) (simp add: sorted_wrt_map)
  from filter_above_mid [OF this] show ?thesis by (subst (asm) e [symmetric])
qed

end
