(* ===== verification/Events.thy ===== *)
theory Events
  imports HubPrelude
begin

text \<open>
  The workspace event log (src/internal/events/events.go with the tables of
  src/embedded/migrations/0004_events_jobs_ops.sql): allocation of the per-workspace
  sequence, Append, the reads Since, LatestSequence, ForEntity and Get, the locale
  \<open>event_source\<close> that states what the readers of the log rely on (the Go interface
  EventSource), and the interleaving of concurrent appending transactions under the row
  lock that nextSequence takes.
\<close>

section \<open>Data\<close>

text \<open>struct Event; \<open>ev_data = None\<close> is a nil Data.\<close>

record event =
  ev_workspace :: string
  ev_type :: string
  ev_entity_type :: string
  ev_entity_id :: string
  ev_actor_type :: string
  ev_actor_id :: string
  ev_data :: "json option"
  ev_causation :: string
  ev_request :: string

text \<open>
  struct Record, a row of workspace_events.  A NULL column is the empty string: every
  write goes through NULLIF and every read through coalesce.
\<close>

record event_row =
  r_id :: string
  r_workspace :: string
  r_sequence :: int
  r_type :: string
  r_entity_type :: string
  r_entity_id :: string
  r_actor_type :: string
  r_actor_id :: string
  r_causation :: string
  r_request :: string
  r_occurred :: int
  r_data :: json

text \<open>
  workspace_event_sequences, workspace_events and the notifications queued by pg_notify,
  which are delivered when the transaction commits.
\<close>

record event_db =
  db_seqs :: "string \<Rightarrow> int option"
  db_events :: "event_row list"
  db_notify :: "(string \<times> int) list"

definition conversation_created :: string where "conversation_created = ''conversation.created''"
definition message_created :: string where "message_created = ''message.created''"

definition actor_types :: "string list" where
  "actor_types = [''user'', ''customer'', ''visitor'', ''system'', ''automation'', ''api_key'']"

definition or_empty_object :: "json option \<Rightarrow> json" where
  "or_empty_object v = (case v of None \<Rightarrow> JObj [] | Some j \<Rightarrow> j)"

section \<open>Writing\<close>

text \<open>
  nextSequence: INSERT (w, 2) ON CONFLICT DO UPDATE next_sequence + 1, RETURNING
  next_sequence - 1.
\<close>

definition next_sequence :: "string \<Rightarrow> ('x event_db_scheme, 'e, int) tx" where
  "next_sequence w = sql (\<lambda>d.
     (case db_seqs d w of
        None \<Rightarrow> (1, d\<lparr>db_seqs := (db_seqs d)(w \<mapsto> 2)\<rparr>)
      | Some n \<Rightarrow> (n, d\<lparr>db_seqs := (db_seqs d)(w \<mapsto> n + 1)\<rparr>)))"

text \<open>
  INSERT INTO workspace_events.  The schema refuses a duplicate id, a duplicate
  (workspace, sequence), an unknown actor type and a causation id that names no event.
\<close>

definition insert_event :: "event_row \<Rightarrow> ('x event_db_scheme, 'e, unit) tx" where
  "insert_event row = sql_checked (\<lambda>d.
     if r_id row \<in> r_id ` set (db_events d)
        \<or> (r_workspace row, r_sequence row) \<in> (\<lambda>r. (r_workspace r, r_sequence r)) ` set (db_events d)
        \<or> r_actor_type row \<notin> set actor_types
        \<or> (r_causation row \<noteq> '''' \<and> r_causation row \<notin> r_id ` set (db_events d))
     then None
     else Some ((), d\<lparr>db_events := db_events d @ [row]\<rparr>))"

definition pg_notify :: "string \<Rightarrow> int \<Rightarrow> ('x event_db_scheme, 'e, unit) tx" where
  "pg_notify w n = sql_exec (\<lambda>d. d\<lparr>db_notify := db_notify d @ [(w, n)]\<rparr>)"

text \<open>
  Log.Append inside the caller's transaction.  \<open>rid\<close> is the identifier ids.New makes,
  \<open>ctx_causation\<close> the causation id the context carries, \<open>now\<close> the database clock.
\<close>

definition append_event ::
  "string \<Rightarrow> string \<Rightarrow> int \<Rightarrow> event \<Rightarrow> ('x event_db_scheme, 'e, event_row) tx" where
  "append_event rid ctx_causation now ev =
     (if ev_workspace ev = '''' then tx_fail (Msg ''events: workspace id is required'')
      else if ev_type ev = '''' then tx_fail (Msg ''events: type is required'')
      else
        let causation = (if ev_causation ev = '''' then ctx_causation else ev_causation ev);
            actor = (if ev_actor_type ev = '''' then ''system'' else ev_actor_type ev)
        in tx_bind (next_sequence (ev_workspace ev)) (\<lambda>sequence.
             let row = \<lparr> r_id = rid, r_workspace = ev_workspace ev, r_sequence = sequence,
                   r_type = ev_type ev, r_entity_type = ev_entity_type ev,
                   r_entity_id = ev_entity_id ev, r_actor_type = actor,
                   r_actor_id = ev_actor_id ev, r_causation = causation,
                   r_request = ev_request ev, r_occurred = now,
                   r_data = or_empty_object (ev_data ev) \<rparr>
             in tx_seq (insert_event row)
                  (tx_seq (pg_notify (ev_workspace ev) sequence) (tx_ret row))))"

section \<open>Reading\<close>

definition max_replay_limit :: int where "max_replay_limit = 500"

definition clamp_limit :: "int \<Rightarrow> int" where
  "clamp_limit limit = (if limit \<le> 0 \<or> limit > max_replay_limit then max_replay_limit else limit)"

definition since :: "'x event_db_scheme \<Rightarrow> string \<Rightarrow> int \<Rightarrow> int \<Rightarrow> event_row list" where
  "since d w after limit =
     take (nat (clamp_limit limit))
       (sort_key r_sequence (filter (\<lambda>r. r_workspace r = w \<and> r_sequence r > after) (db_events d)))"

definition latest_sequence :: "'x event_db_scheme \<Rightarrow> string \<Rightarrow> int" where
  "latest_sequence d w =
     (let ss = map r_sequence (filter (\<lambda>r. r_workspace r = w) (db_events d))
      in if ss = [] then 0 else Max (set ss))"

definition for_entity ::
  "'x event_db_scheme \<Rightarrow> string \<Rightarrow> string \<Rightarrow> string \<Rightarrow> int \<Rightarrow> event_row list" where
  "for_entity d w etype eid limit =
     take (nat (clamp_limit limit))
       (sort_key (\<lambda>r. - r_sequence r)
         (filter (\<lambda>r. r_workspace r = w \<and> r_entity_type r = etype \<and> etype \<noteq> '''' \<and>
                      r_entity_id r = eid \<and> eid \<noteq> '''') (db_events d)))"

datatype events_error = EventNotFound

definition get_event :: "'x event_db_scheme \<Rightarrow> string \<Rightarrow> string \<Rightarrow> events_error + event_row" where
  "get_event d w rid =
     (case filter (\<lambda>r. r_workspace r = w \<and> r_id r = rid) (db_events d) of
        [] \<Rightarrow> Inl EventNotFound
      | r # _ \<Rightarrow> Inr r)"

section \<open>The invariant of the log\<close>

definition rows_of :: "'x event_db_scheme \<Rightarrow> string \<Rightarrow> event_row list" where
  "rows_of d w = filter (\<lambda>r. r_workspace r = w) (db_events d)"

definition next_of :: "'x event_db_scheme \<Rightarrow> string \<Rightarrow> int" where
  "next_of d w = (case db_seqs d w of None \<Rightarrow> 1 | Some n \<Rightarrow> n)"

text \<open>
  In commit order the sequences of a workspace increase strictly, and the counter is
  above all of them.  \<open>log_dense\<close> is the stronger fact that holds until retention deletes
  rows: they are exactly 1, 2, ..., next - 1.
\<close>

definition log_inv :: "'x event_db_scheme \<Rightarrow> bool" where
  "log_inv d \<longleftrightarrow> (\<forall>w. sorted_wrt (<) (map r_sequence (rows_of d w)) \<and>
     (\<forall>r \<in> set (rows_of d w). 1 \<le> r_sequence r \<and> r_sequence r < next_of d w) \<and> 1 \<le> next_of d w)"

definition log_dense :: "'x event_db_scheme \<Rightarrow> bool" where
  "log_dense d \<longleftrightarrow> (\<forall>w. map r_sequence (rows_of d w) = [1..next_of d w - 1] \<and> 1 \<le> next_of d w)"

definition empty_log :: event_db where
  "empty_log = \<lparr>db_seqs = (\<lambda>_. None), db_events = [], db_notify = []\<rparr>"

text \<open>The effect of a successful Append: one row, one sequence, one notification.\<close>

definition apply_row :: "event_row \<Rightarrow> 'x event_db_scheme \<Rightarrow> 'x event_db_scheme" where
  "apply_row row d = d\<lparr>db_seqs := (db_seqs d)(r_workspace row \<mapsto> r_sequence row + 1),
     db_events := db_events d @ [row],
     db_notify := db_notify d @ [(r_workspace row, r_sequence row)]\<rparr>"

lemma rows_of_apply_row [simp]:
  "rows_of (apply_row row d) w = rows_of d w @ (if r_workspace row = w then [row] else [])"
  by (simp add: rows_of_def apply_row_def)

lemma next_of_apply_row [simp]:
  "next_of (apply_row row d) w = (if r_workspace row = w then r_sequence row + 1 else next_of d w)"
  by (auto simp: next_of_def apply_row_def)

lemma db_notify_apply_row [simp]:
  "db_notify (apply_row row d) = db_notify d @ [(r_workspace row, r_sequence row)]"
  by (simp add: apply_row_def)

lemma next_sequence_Inr:
  "next_sequence w (d, fs) = (Inr s, d', fs') \<Longrightarrow>
   s = next_of d w \<and> d' = d\<lparr>db_seqs := (db_seqs d)(w \<mapsto> s + 1)\<rparr>"
  by (auto simp: next_sequence_def tx_inv next_of_def split: option.splits)

lemma append_event_Inr:
  assumes "append_event rid cz now ev (d, fs) = (Inr row, d', fs')"
  shows "d' = apply_row row d" "r_workspace row = ev_workspace ev"
    "r_sequence row = next_of d (ev_workspace ev)" "r_id row = rid" "r_type row = ev_type ev"
    "r_entity_id row = ev_entity_id ev" "r_data row = or_empty_object (ev_data ev)"
    "r_entity_type row = ev_entity_type ev"
    "rid \<notin> r_id ` set (db_events d)" "ev_workspace ev \<noteq> ''''"
  using assms
  by (auto simp: append_event_def tx_inv Let_def insert_event_def pg_notify_def apply_row_def
      dest!: next_sequence_Inr split: if_splits)

lemma log_denseD_inv: "log_dense d \<Longrightarrow> log_inv d"
proof -
  assume d: "log_dense d"
  show "log_inv d"
    unfolding log_inv_def
  proof (intro allI conjI ballI)
    fix w
    have m: "map r_sequence (rows_of d w) = [1..next_of d w - 1]"
      using d by (simp add: log_dense_def)
    show "sorted_wrt (<) (map r_sequence (rows_of d w))" by (simp add: m)
    show "1 \<le> next_of d w" using d by (simp add: log_dense_def)
    fix r assume "r \<in> set (rows_of d w)"
    then have "r_sequence r \<in> set [1..next_of d w - 1]" by (metis m image_eqI set_map)
    then show "1 \<le> r_sequence r" and "r_sequence r < next_of d w" by auto
  qed
qed

lemma log_inv_apply_row:
  assumes "log_inv d" "r_sequence row = next_of d (r_workspace row)"
  shows "log_inv (apply_row row d)"
  unfolding log_inv_def
proof (intro allI conjI ballI)
  fix w
  have i: "sorted_wrt (<) (map r_sequence (rows_of d w))" "1 \<le> next_of d w"
    "\<And>r. r \<in> set (rows_of d w) \<Longrightarrow> 1 \<le> r_sequence r \<and> r_sequence r < next_of d w"
    using assms(1) by (auto simp: log_inv_def)
  show "sorted_wrt (<) (map r_sequence (rows_of (apply_row row d) w))"
    using i assms(2) by (auto simp: sorted_wrt_append)
  show "1 \<le> next_of (apply_row row d) w" using i assms(2) by auto
  fix r assume "r \<in> set (rows_of (apply_row row d) w)"
  then show "1 \<le> r_sequence r" and "r_sequence r < next_of (apply_row row d) w"
    using i assms(2) by (force split: if_splits)+
qed

lemma log_dense_apply_row:
  assumes "log_dense d" "r_sequence row = next_of d (r_workspace row)"
  shows "log_dense (apply_row row d)"
  unfolding log_dense_def
proof
  fix w
  have i: "map r_sequence (rows_of d w) = [1..next_of d w - 1]" "1 \<le> next_of d w"
    using assms(1) by (auto simp: log_dense_def)
  show "map r_sequence (rows_of (apply_row row d) w) = [1..next_of (apply_row row d) w - 1]
      \<and> 1 \<le> next_of (apply_row row d) w"
    using i assms(2) by (auto simp: upto_rec2 [of 1])
qed

lemma log_inv_counter: "log_inv d \<Longrightarrow> log_inv (d\<lparr>db_seqs := (db_seqs d)(w \<mapsto> next_of d w + 1)\<rparr>)"
proof -
  assume i: "log_inv d"
  have r: "rows_of (d\<lparr>db_seqs := s\<rparr>) v = rows_of d v" for s v by (simp add: rows_of_def)
  have n: "next_of (d\<lparr>db_seqs := (db_seqs d)(w \<mapsto> next_of d w + 1)\<rparr>) v = (if v = w then next_of d w + 1 else next_of d v)" for v
    by (simp add: next_of_def)
  have z: "0 \<le> next_of d w" using i [unfolded log_inv_def, THEN spec, of w] by linarith
  show ?thesis using i z unfolding log_inv_def r n by (auto intro: less_imp_le)
qed

lemma log_inv_notify: "log_inv (d\<lparr>db_notify := n\<rparr>) = log_inv d"
  by (simp add: log_inv_def rows_of_def next_of_def)

lemma log_inv_inserted:
  assumes "log_inv d" "r_sequence row = next_of d (r_workspace row)"
  shows "log_inv (d\<lparr>db_seqs := (db_seqs d)(r_workspace row \<mapsto> next_of d (r_workspace row) + 1), db_events := db_events d @ [row]\<rparr>)"
  using log_inv_apply_row [OF assms] assms(2) by (simp add: apply_row_def log_inv_notify)

text \<open>Wherever Append stops, it has touched the log only and the log is sound.\<close>

lemma keeps_append_log: "tx_keeps log_inv (append_event rid cz now ev :: ('x event_db_scheme, 'e, event_row) tx)"
proof -
  have "log_inv (fst (snd ((tx_bind (next_sequence w) (\<lambda>s. tx_seq (insert_event (row s)) (tx_seq (pg_notify w s) (tx_ret (row s))))
        :: ('x event_db_scheme, 'e, event_row) tx) (d, fs))))"
    if d: "log_inv d" and row: "\<And>s. r_workspace (row s) = w \<and> r_sequence (row s) = s" for d :: "'x event_db_scheme" and fs w row
  proof (cases "faulty fs")
    case True
    then show ?thesis by (simp add: tx_bind_def next_sequence_def sql_def d)
  next
    case False
    let ?n = "next_of d w" and ?d = "d\<lparr>db_seqs := (db_seqs d)(w \<mapsto> next_of d w + 1)\<rparr>"
    have n: "next_sequence w (d, fs) = (Inr ?n :: 'e err + int, ?d, tl fs)"
      using False by (auto simp: next_sequence_def sql_def next_of_def split: option.splits)
    have rest: "tx_keeps log_inv (tx_seq (pg_notify w ?n) (tx_ret (row ?n)) :: ('x event_db_scheme, 'e, event_row) tx)"
      unfolding pg_notify_def by (intro keeps_bind keeps_sql keeps_ret) (simp add: log_inv_notify)
    obtain r d1 f1 where ins: "(insert_event (row ?n) :: ('x event_db_scheme, 'e, unit) tx) (?d, tl fs) = (r, d1, f1)"
      by (metis prod_cases3)
    have "log_inv d1"
      using ins log_inv_counter [OF d, of w] log_inv_inserted [OF d, of "row ?n"] row
      by (auto simp: insert_event_def sql_checked_def split: if_splits)
    then show ?thesis
      using keeps_run [OF rest, of d1 f1] by (simp add: tx_bind_def n ins split: sum.split)
  qed
  then show ?thesis by (auto simp: tx_keeps_def append_event_def Let_def tx_fail_def)
qed

lemma keeps_append_frame:
  assumes seqs: "\<And>d s. I d \<Longrightarrow> I (d\<lparr>db_seqs := s\<rparr>)" and rows: "\<And>d e. I d \<Longrightarrow> I (d\<lparr>db_events := e\<rparr>)"
    and told: "\<And>d n. I d \<Longrightarrow> I (d\<lparr>db_notify := n\<rparr>)"
  shows "tx_keeps I (append_event rid cz now ev :: ('x event_db_scheme, 'e, event_row) tx)"
  unfolding append_event_def next_sequence_def insert_event_def pg_notify_def Let_def
  by (intro keeps_if keeps_fail keeps_bind keeps_sql keeps_sql_checked keeps_ret)
    (auto simp: assms split: option.split if_split_asm)

lemma log_dense_empty: "log_dense empty_log"
  by (simp add: log_dense_def empty_log_def rows_of_def next_of_def)

section \<open>What readers of the log rely on\<close>

text \<open>
  The Go interface EventSource: a page of at most 500 rows after a position, oldest
  first, and the newest position.  The hub, the consumers and the webhook fan-out read
  the log through these two operations only.
\<close>

locale event_source =
  fixes valid :: "'d \<Rightarrow> bool"
    and src :: "'d \<Rightarrow> string \<Rightarrow> int \<Rightarrow> int \<Rightarrow> event_row list"
    and newest :: "'d \<Rightarrow> string \<Rightarrow> int"
    and rows :: "'d \<Rightarrow> string \<Rightarrow> event_row list"
  assumes rows_sorted: "valid d \<Longrightarrow> sorted_wrt (<) (map r_sequence (rows d w))"
    and rows_pos: "valid d \<Longrightarrow> r \<in> set (rows d w) \<Longrightarrow> 1 \<le> r_sequence r"
    and page: "valid d \<Longrightarrow> 0 < n \<Longrightarrow> n \<le> 500 \<Longrightarrow>
      src d w a n = take (nat n) (filter (\<lambda>r. a < r_sequence r) (rows d w))"
    and rows_ws: "r \<in> set (rows d w) \<Longrightarrow> r_workspace r = w"
    and newest_ge: "valid d \<Longrightarrow> r \<in> set (rows d w) \<Longrightarrow> r_sequence r \<le> newest d w"
begin

abbreviation after :: "'d \<Rightarrow> string \<Rightarrow> int \<Rightarrow> event_row list" where
  "after d w a \<equiv> filter (\<lambda>r. a < r_sequence r) (rows d w)"

lemma after_sorted: "valid d \<Longrightarrow> sorted_wrt (<) (map r_sequence (after d w a))"
  using rows_sorted [of d w] by (simp add: sorted_wrt_map sorted_wrt_filter)

text \<open>Reading on from the last row of a page continues exactly after the page.\<close>

lemma next_page:
  assumes "valid d" "0 < n" "n \<le> 500" "src d w a n \<noteq> []"
  shows "after d w (r_sequence (last (src d w a n))) = drop (nat n) (after d w a)"
proof -
  let ?f = "after d w a"
  have p: "src d w a n = take (nat n) ?f" using assms by (simp add: page)
  have ne: "take (nat n) ?f \<noteq> []" using assms(4) p by metis
  have "last (take (nat n) ?f) \<in> set ?f" using last_in_set [OF ne] by (rule in_set_takeD)
  then have al: "a < r_sequence (last (take (nat n) ?f))" by simp
  have "after d w (r_sequence (last (take (nat n) ?f)))
      = filter (\<lambda>r. r_sequence (last (take (nat n) ?f)) < r_sequence r) ?f"
    using al by (simp only: filter_filter) (intro filter_cong; auto)
  also have "\<dots> = drop (nat n) ?f"
    by (rule filter_above_last_take [OF after_sorted [OF assms(1)] ne])
  finally show ?thesis by (simp only: p)
qed

lemma short_page:
  assumes "valid d" "0 < n" "n \<le> 500" "length (src d w a n) < nat n"
  shows "src d w a n = after d w a"
  using assms by (simp add: page)

lemma page_seqs:
  assumes "valid d" "0 < n" "n \<le> 500"
  shows "sorted_wrt (<) (map r_sequence (src d w a n))"
    and "r \<in> set (src d w a n) \<Longrightarrow> a < r_sequence r"
  using after_sorted [OF assms(1), where w = w and a = a] assms
  by (auto simp: page take_map [symmetric] sorted_wrt_take dest: in_set_takeD)

end

lemma filter_rows_of:
  "filter (\<lambda>r. r_workspace r = w \<and> a < r_sequence r) (db_events d)
     = filter (\<lambda>r. a < r_sequence r) (rows_of d w)"
  by (simp add: rows_of_def)

lemma since_rows:
  assumes "log_inv d" "0 < n" "n \<le> 500"
  shows "since d w a n = take (nat n) (filter (\<lambda>r. a < r_sequence r) (rows_of d w))"
proof -
  have "sorted_wrt (<) (map r_sequence (filter (\<lambda>r. a < r_sequence r) (rows_of d w)))"
    using assms(1) by (simp add: log_inv_def sorted_wrt_map sorted_wrt_filter)
  then have "sorted (map r_sequence (filter (\<lambda>r. a < r_sequence r) (rows_of d w)))"
    by (rule strict_sorted_imp_sorted)
  then show ?thesis
    using assms(2,3) by (simp add: since_def clamp_limit_def max_replay_limit_def filter_rows_of sort_key_sorted)
qed

lemma latest_sequence_ge: "r \<in> set (rows_of d w) \<Longrightarrow> r_sequence r \<le> latest_sequence d w"
  by (auto simp: latest_sequence_def rows_of_def Let_def filter_empty_conv)

interpretation elog: event_source log_inv since latest_sequence rows_of
  by unfold_locales (auto simp: log_inv_def since_rows latest_sequence_ge, simp add: rows_of_def)

section \<open>Concurrent transactions\<close>

text \<open>
  Several transactions append at the same time.  Each sees the committed log and its own
  rows; the upsert of nextSequence locks the counter row of a workspace until the
  transaction ends, so an Append to a workspace runs only while no other open
  transaction has appended to it.
\<close>

record commit_sys =
  cs_db :: event_db
  cs_open :: "nat \<Rightarrow> event_row list"

definition replay :: "event_row list \<Rightarrow> 'x event_db_scheme \<Rightarrow> 'x event_db_scheme" where
  "replay rows d = fold apply_row rows d"

inductive commit_step :: "commit_sys \<Rightarrow> commit_sys \<Rightarrow> bool" where
  append_in_tx:
    "(\<And>j. j \<noteq> i \<Longrightarrow> ev_workspace ev \<notin> r_workspace ` set (cs_open s j)) \<Longrightarrow>
     append_event rid cz now ev (replay (cs_open s i) (cs_db s), [])
       = (Inr row :: events_error err + event_row, d', fs') \<Longrightarrow>
     commit_step s (s\<lparr>cs_open := (cs_open s)(i := cs_open s i @ [row])\<rparr>)"
| commit_tx:
    "commit_step s (s\<lparr>cs_db := replay (cs_open s i) (cs_db s), cs_open := (cs_open s)(i := [])\<rparr>)"
| abort_tx:
    "commit_step s (s\<lparr>cs_open := (cs_open s)(i := [])\<rparr>)"

definition commit_init :: commit_sys where
  "commit_init = \<lparr>cs_db = empty_log, cs_open = (\<lambda>_. [])\<rparr>"

inductive commit_reach :: "commit_sys \<Rightarrow> bool" where
  start: "commit_reach commit_init"
| step: "commit_reach s \<Longrightarrow> commit_step s t \<Longrightarrow> commit_reach t"

text \<open>The rows of an open transaction carry the sequences the counter would give them.\<close>

fun alloc :: "event_row list \<Rightarrow> 'x event_db_scheme \<Rightarrow> bool" where
  "alloc [] d = True"
| "alloc (r # rs) d = (r_sequence r = next_of d (r_workspace r) \<and> alloc rs (apply_row r d))"

definition commit_inv :: "commit_sys \<Rightarrow> bool" where
  "commit_inv s \<longleftrightarrow> log_dense (cs_db s) \<and> (\<forall>i. alloc (cs_open s i) (cs_db s)) \<and>
     (\<forall>i j. i \<noteq> j \<longrightarrow> r_workspace ` set (cs_open s i) \<inter> r_workspace ` set (cs_open s j) = {})"

lemma alloc_append: "alloc (rs @ [r]) d \<longleftrightarrow>
    alloc rs d \<and> r_sequence r = next_of (replay rs d) (r_workspace r)"
  by (induction rs arbitrary: d) (auto simp: replay_def)

lemma next_of_replay: "w \<notin> r_workspace ` set rs \<Longrightarrow> next_of (replay rs d) w = next_of d w"
  by (induction rs arbitrary: d) (auto simp: replay_def)

lemma alloc_cong:
  "(\<And>w. w \<in> r_workspace ` set rs \<Longrightarrow> next_of d w = next_of d' w) \<Longrightarrow> alloc rs d = alloc rs d'"
proof (induction rs arbitrary: d d')
  case (Cons r rs)
  have "alloc rs (apply_row r d) = alloc rs (apply_row r d')"
    by (rule Cons.IH) (use Cons.prems in auto)
  then show ?case using Cons.prems by auto
qed simp

lemma log_dense_replay: "alloc rs d \<Longrightarrow> log_dense d \<Longrightarrow> log_dense (replay rs d)"
  by (induction rs arbitrary: d) (auto simp: replay_def log_dense_apply_row)

lemma rows_of_replay: "rows_of (replay rs d) w = rows_of d w @ filter (\<lambda>r. r_workspace r = w) rs"
  by (induction rs arbitrary: d) (auto simp: replay_def)

lemma commit_step_inv: "commit_step s t \<Longrightarrow> commit_inv s \<Longrightarrow> commit_inv t"
proof (induction rule: commit_step.induct)
  case (append_in_tx i ev s rid cz now row d' fs')
  note row = append_event_Inr [OF append_in_tx.hyps(2)]
  show ?case
    using append_in_tx.prems append_in_tx.hyps(1) row(2,3)
    by (auto simp: commit_inv_def alloc_append)
next
  case (commit_tx s i)
  have "alloc (cs_open s j) (replay (cs_open s i) (cs_db s))" if "j \<noteq> i" for j
  proof -
    have "alloc (cs_open s j) (replay (cs_open s i) (cs_db s)) = alloc (cs_open s j) (cs_db s)"
      by (rule alloc_cong, rule next_of_replay)
        (use commit_tx.prems that in \<open>auto simp: commit_inv_def disjoint_iff\<close>)
    then show ?thesis using commit_tx.prems by (simp add: commit_inv_def)
  qed
  then show ?case using commit_tx.prems by (auto simp: commit_inv_def log_dense_replay)
next
  case (abort_tx s i)
  then show ?case by (auto simp: commit_inv_def)
qed

lemma commit_reach_inv: "commit_reach s \<Longrightarrow> commit_inv s"
proof (induction rule: commit_reach.induct)
  case start
  show ?case by (simp add: commit_inv_def commit_init_def log_dense_empty)
next
  case (step s t)
  then show ?case by (blast intro: commit_step_inv)
qed

lemma commit_step_extends:
  "commit_step s t \<Longrightarrow> \<exists>new. rows_of (cs_db t) w = rows_of (cs_db s) w @ new"
  by (induction rule: commit_step.induct) (auto simp: rows_of_replay)

lemma commit_steps_extend:
  "commit_step\<^sup>*\<^sup>* s t \<Longrightarrow> \<exists>new. rows_of (cs_db t) w = rows_of (cs_db s) w @ new"
proof (induction rule: rtranclp_induct)
  case (step t u)
  then show ?case using commit_step_extends [OF step.hyps(2), of w] by auto
qed auto

lemma commit_steps_reach: "commit_step\<^sup>*\<^sup>* s t \<Longrightarrow> commit_reach s \<Longrightarrow> commit_reach t"
  by (induction rule: rtranclp_induct) (auto intro: commit_reach.step)

lemma later_rows_above:
  assumes "log_dense d" "rows_of d w = old @ new" "r \<in> set new" "rows_of e w = old"
  shows "latest_sequence e w < r_sequence r"
proof -
  have i: "sorted_wrt (<) (map r_sequence (rows_of d w))" "1 \<le> r_sequence r"
    using log_denseD_inv [OF assms(1), unfolded log_inv_def, THEN spec, of w] assms(2,3) by auto
  have lt: "r_sequence q < r_sequence r" if "q \<in> set old" for q
    using i(1) assms(2,3) that by (auto simp: sorted_wrt_append sorted_wrt_map)
  show ?thesis
  proof (cases "old = []")
    case True
    then show ?thesis using i(2) assms(4) by (simp add: latest_sequence_def rows_of_def)
  next
    case False
    then show ?thesis using lt assms(4)
      by (auto simp: latest_sequence_def rows_of_def [symmetric] Let_def)
  qed
qed

section \<open>Properties\<close>

text \<open>
  Append gives a dense log.  A successful Append writes exactly one row, its sequence
  is one above the newest of the workspace, the log stays gap-free, the rows and the
  counter of every other workspace are untouched, and exactly one notification for that
  row is queued.
\<close>

theorem append_allocates_next:
  assumes "log_dense d"
    and "append_event rid cz now ev (d, fs) = (Inr row, d', fs')"
  shows "log_dense d' \<and> rows_of d' (ev_workspace ev) = rows_of d (ev_workspace ev) @ [row] \<and>
    r_sequence row = latest_sequence d (ev_workspace ev) + 1 \<and>
    (w \<noteq> ev_workspace ev \<longrightarrow> rows_of d' w = rows_of d w \<and> next_of d' w = next_of d w) \<and>
    db_notify d' = db_notify d @ [(ev_workspace ev, r_sequence row)]"
proof -
  note row = append_event_Inr [OF assms(2)]
  let ?w = "ev_workspace ev"
  have m: "map r_sequence (rows_of d ?w) = [1..next_of d ?w - 1]" "1 \<le> next_of d ?w"
    using assms(1) by (auto simp: log_dense_def)
  have "set (map r_sequence (rows_of d ?w)) = {1..next_of d ?w - 1}" by (simp only: m(1) set_upto)
  moreover have "next_of d ?w = 1" if "rows_of d ?w = []" using m that by auto
  moreover have "Max {1..n} = n" if "1 \<le> n" for n :: int using that by (intro Max_eqI) auto
  ultimately have "latest_sequence d ?w = next_of d ?w - 1"
    using m by (cases "rows_of d ?w = []") (auto simp: latest_sequence_def rows_of_def [symmetric] Let_def)
  then show ?thesis
    using row log_dense_apply_row [OF assms(1), of row] by simp
qed

definition sample_event :: "string \<Rightarrow> event" where
  "sample_event w = \<lparr> ev_workspace = w, ev_type = message_created, ev_entity_type = ''conversation'',
     ev_entity_id = ''cnv_1'', ev_actor_type = '''', ev_actor_id = '''', ev_data = None,
     ev_causation = '''', ev_request = '''' \<rparr>"

definition sample_row :: "string \<Rightarrow> string \<Rightarrow> int \<Rightarrow> event_row" where
  "sample_row rid w n = \<lparr> r_id = rid, r_workspace = w, r_sequence = n,
     r_type = message_created, r_entity_type = ''conversation'', r_entity_id = ''cnv_1'',
     r_actor_type = ''system'', r_actor_id = '''', r_causation = '''', r_request = '''',
     r_occurred = 7, r_data = JObj [] \<rparr>"

lemma sample_append:
  assumes "w \<noteq> ''''" "rid \<notin> r_id ` set (db_events d)" "log_inv d"
  shows "append_event rid '''' 7 (sample_event w) (d, [])
    = (Inr (sample_row rid w (next_of d w)), apply_row (sample_row rid w (next_of d w)) d, [])"
proof -
  have "(w, next_of d w) \<notin> (\<lambda>r. (r_workspace r, r_sequence r)) ` set (db_events d)"
    using assms(3) by (force simp: log_inv_def rows_of_def)
  then show ?thesis
    using assms(1,2)
    by (auto simp: append_event_def sample_event_def message_created_def tx_bind_def next_sequence_def
        insert_event_def pg_notify_def tx_ret_def actor_types_def Let_def or_empty_object_def
        sample_row_def apply_row_def next_of_def split: option.splits)
qed

theorem append_allocates_next_witness:
  "append_event ''evt_1'' '''' 7 (sample_event ''wrk_1'') (empty_log, [])
     = (Inr (sample_row ''evt_1'' ''wrk_1'' 1), apply_row (sample_row ''evt_1'' ''wrk_1'' 1) empty_log, [])
   \<and> log_dense (apply_row (sample_row ''evt_1'' ''wrk_1'' 1) empty_log)"
proof -
  have n: "next_of empty_log ''wrk_1'' = 1" by (simp add: next_of_def empty_log_def)
  have r: "append_event ''evt_1'' '''' 7 (sample_event ''wrk_1'') (empty_log, [])
     = (Inr (sample_row ''evt_1'' ''wrk_1'' 1), apply_row (sample_row ''evt_1'' ''wrk_1'' 1) empty_log, [])"
    using sample_append [of "''wrk_1''" "''evt_1''" empty_log] log_denseD_inv [OF log_dense_empty]
    by (simp add: n) (simp add: empty_log_def)
  from append_allocates_next [OF log_dense_empty r, of "''wrk_2''"] r show ?thesis by simp
qed

text \<open>
  C19: commit order is sequence order.  Whatever transactions run concurrently, a row of a
  workspace that becomes visible after a reader has looked has a sequence above
  everything the reader saw, so resuming from the newest sequence seen misses nothing.
\<close>

theorem commit_order_is_sequence_order:
  assumes "commit_reach s" and "commit_step\<^sup>*\<^sup>* s t"
    and "r \<in> set (rows_of (cs_db t) w)" and "r \<notin> set (rows_of (cs_db s) w)"
  shows "latest_sequence (cs_db s) w < r_sequence r"
proof -
  have d: "log_dense (cs_db t)"
    using commit_reach_inv [OF commit_steps_reach [OF assms(2,1)]] by (simp add: commit_inv_def)
  obtain new where n: "rows_of (cs_db t) w = rows_of (cs_db s) w @ new"
    using commit_steps_extend [OF assms(2)] by blast
  from later_rows_above [OF d n _ refl] assms(3,4) n show ?thesis by auto
qed

theorem commit_order_is_sequence_order_witness:
  "\<exists>s t r. commit_reach s \<and> commit_step\<^sup>*\<^sup>* s t \<and> r \<in> set (rows_of (cs_db t) ''wrk_1'') \<and>
     rows_of (cs_db s) ''wrk_1'' \<noteq> [] \<and> latest_sequence (cs_db s) ''wrk_1'' < r_sequence r"
proof -
  let ?row = "\<lambda>i n. sample_row i ''wrk_1'' n"
  let ?db1 = "apply_row (?row ''evt_1'' 1) empty_log"
  let ?s1 = "commit_init\<lparr>cs_open := (cs_open commit_init)(0 := [?row ''evt_1'' 1])\<rparr>"
  let ?s2 = "\<lparr>cs_db = ?db1, cs_open = (\<lambda>_. [])\<rparr>"
  let ?s3 = "?s2\<lparr>cs_open := (cs_open ?s2)(5 := [?row ''evt_2'' 2])\<rparr>"
  let ?s4 = "\<lparr>cs_db = apply_row (?row ''evt_2'' 2) ?db1, cs_open = (\<lambda>_. [])\<rparr>"
  have l0: "log_inv empty_log" by (rule log_denseD_inv [OF log_dense_empty])
  have l1: "log_inv ?db1" by (rule log_inv_apply_row [OF l0]) (simp add: sample_row_def next_of_def empty_log_def)
  have a1: "append_event ''evt_1'' '''' 7 (sample_event ''wrk_1'') (empty_log, [])
      = (Inr (?row ''evt_1'' 1) :: events_error err + event_row, ?db1, [])"
    using sample_append [OF _ _ l0, of "''wrk_1''" "''evt_1''"] by (simp add: next_of_def) (simp add: empty_log_def)
  have a2: "append_event ''evt_2'' '''' 7 (sample_event ''wrk_1'') (?db1, [])
      = (Inr (?row ''evt_2'' 2) :: events_error err + event_row, apply_row (?row ''evt_2'' 2) ?db1, [])"
    using sample_append [OF _ _ l1, of "''wrk_1''" "''evt_2''"]
    by (simp add: sample_row_def) (simp add: apply_row_def empty_log_def)
  have "commit_step commit_init ?s1"
    using append_in_tx [of 0 "sample_event ''wrk_1''" commit_init "''evt_1''" "''''" 7 "?row ''evt_1'' 1" ?db1 "[]"] a1
    by (simp add: commit_init_def replay_def)
  moreover have "commit_step ?s1 ?s2"
    using commit_tx [of ?s1 0] by (simp add: commit_init_def replay_def fun_upd_idem)
  ultimately have r2: "commit_reach ?s2" by (blast intro: commit_reach.intros)
  have "commit_step ?s2 ?s3"
    using append_in_tx [of 5 "sample_event ''wrk_1''" ?s2 "''evt_2''" "''''" 7 "?row ''evt_2'' 2"
        "apply_row (?row ''evt_2'' 2) ?db1" "[]"] a2
    by (simp add: replay_def)
  moreover have "commit_step ?s3 ?s4"
    using commit_tx [of ?s3 5] by (simp add: replay_def fun_upd_idem)
  ultimately have st: "commit_step\<^sup>*\<^sup>* ?s2 ?s4" by (meson converse_rtranclp_into_rtranclp rtranclp.rtrancl_refl)
  have "?row ''evt_2'' 2 \<in> set (rows_of (cs_db ?s4) ''wrk_1'')"
    and "?row ''evt_2'' 2 \<notin> set (rows_of (cs_db ?s2) ''wrk_1'')"
    and "rows_of (cs_db ?s2) ''wrk_1'' \<noteq> []"
    by (simp_all add: sample_row_def rows_of_def empty_log_def apply_row_def)
  with commit_order_is_sequence_order [OF r2 st] r2 st show ?thesis by blast
qed

end
