(* ===== verification/RealtimeClient.thy ===== *)
theory RealtimeClient
  imports Events
begin

text \<open>
  One realtime connection (src/internal/realtime/client.go): its grant, its topics, its
  bounded outbound queue, its position in the event log, and the resume mode in which
  live events are held back.  The second half runs the critical sections of the
  connection's two goroutines (live delivery and resume) in every order.
\<close>

section \<open>Frames\<close>

text \<open>
  The bytes of a frame are the JSON of an events.Record.  An event frame keeps the fields
  the struct tags publish (actor and request are dropped); every other frame is a record
  with a type and data only.
\<close>

definition envelope :: "event_row \<Rightarrow> event_row" where
  "envelope r = r\<lparr>r_actor_type := '''', r_actor_id := '''', r_request := ''''\<rparr>"

datatype frame = EventFrame event_row | Control string json

lemma envelope_sel [simp]:
  "r_sequence (envelope r) = r_sequence r" "r_id (envelope r) = r_id r"
  "r_type (envelope r) = r_type r" "r_data (envelope r) = r_data r"
  "r_workspace (envelope r) = r_workspace r"
  by (simp_all add: envelope_def)

fun event_seqs :: "frame list \<Rightarrow> int list" where
  "event_seqs [] = []"
| "event_seqs (EventFrame r # fs) = r_sequence r # event_seqs fs"
| "event_seqs (Control t j # fs) = event_seqs fs"

lemma event_seqs_append [simp]: "event_seqs (xs @ ys) = event_seqs xs @ event_seqs ys"
  by (induction xs rule: event_seqs.induct) auto

section \<open>The grant\<close>

definition topic_workspace :: string where "topic_workspace = ''workspace''"

record grant =
  g_allowed :: "string list"
  g_initial :: "string list"
  g_member_id :: string
  g_member_name :: string
  g_filter :: "(event_row \<Rightarrow> event_row option) option"
  g_allow_topic :: "(string \<Rightarrow> bool) option"

definition agent_grant :: "string \<Rightarrow> string \<Rightarrow> grant" where
  "agent_grant member_id member_name = \<lparr> g_allowed = [topic_workspace], g_initial = [topic_workspace],
     g_member_id = member_id, g_member_name = member_name, g_filter = None, g_allow_topic = None \<rparr>"

definition visitor_grant :: "string list \<Rightarrow> grant" where
  "visitor_grant conversation_ids =
     (let topics = map (\<lambda>i. ''conversation:'' @ i) conversation_ids
      in \<lparr> g_allowed = topics, g_initial = topics, g_member_id = '''', g_member_name = '''',
           g_filter = None, g_allow_topic = None \<rparr>)"

text \<open>client.allows, which reads the grant only.\<close>

definition allows :: "grant \<Rightarrow> string \<Rightarrow> bool" where
  "allows g topic =
     ((case g_allow_topic g of None \<Rightarrow> True | Some f \<Rightarrow> f topic) \<and>
      list_ex (\<lambda>a. a = topic \<or> a = topic_workspace) (g_allowed g))"

section \<open>The client\<close>

text \<open>
  \<open>c_outbound\<close> is the content of the channel, \<open>c_cap\<close> its capacity, \<open>c_wire\<close> what the
  write loop has written to the socket, \<open>c_closed\<close> that the connection has been closed.
\<close>

record client =
  c_workspace :: string
  c_grant :: grant
  c_cap :: nat
  c_outbound :: "frame list"
  c_wire :: "frame list"
  c_closed :: bool
  c_topics :: "string list"
  c_last :: int
  c_syncing :: bool
  c_deferred :: "(int \<times> frame) list"

definition add_topic :: "string \<Rightarrow> string list \<Rightarrow> string list" where
  "add_topic t ts = (if t \<in> set ts then ts else ts @ [t])"

definition new_client :: "string \<Rightarrow> grant \<Rightarrow> nat \<Rightarrow> client" where
  "new_client w g qsize = \<lparr> c_workspace = w, c_grant = g, c_cap = qsize, c_outbound = [], c_wire = [],
     c_closed = False,
     c_topics = fold (\<lambda>t ts. if allows g t then add_topic t ts else ts) (g_initial g) [],
     c_last = 0, c_syncing = False, c_deferred = [] \<rparr>"

definition wants :: "client \<Rightarrow> string \<Rightarrow> bool" where
  "wants c topic =
     (topic_workspace \<in> set (c_topics c) \<or> (topic \<noteq> '''' \<and> topic \<in> set (c_topics c)))"

definition topic_list :: "client \<Rightarrow> string list" where
  "topic_list c = sort (c_topics c)"

definition set_sequence :: "int \<Rightarrow> client \<Rightarrow> client" where
  "set_sequence n c = (if n > c_last c then c\<lparr>c_last := n\<rparr> else c)"

definition rewind :: "int \<Rightarrow> client \<Rightarrow> client" where
  "rewind n c = c\<lparr>c_last := n\<rparr>"

definition advance :: "int \<Rightarrow> client \<Rightarrow> bool \<times> client" where
  "advance n c = (if n \<le> c_last c then (False, c) else (True, c\<lparr>c_last := n\<rparr>))"

text \<open>A full queue closes the connection and drops the frame.\<close>

definition enqueue :: "frame \<Rightarrow> client \<Rightarrow> client" where
  "enqueue p c = (if length (c_outbound c) < c_cap c then c\<lparr>c_outbound := c_outbound c @ [p]\<rparr>
     else c\<lparr>c_closed := True\<rparr>)"

definition send :: "int \<Rightarrow> frame \<Rightarrow> client \<Rightarrow> client" where
  "send n p c =
     (if n \<le> c_last c then c
      else if c_syncing c then c\<lparr>c_deferred := c_deferred c @ [(n, p)]\<rparr>
      else enqueue p (c\<lparr>c_last := n\<rparr>))"

definition begin_sync :: "client \<Rightarrow> client" where
  "begin_sync c = c\<lparr>c_syncing := True, c_deferred := []\<rparr>"

text \<open>The loop of endSync over the sorted deferred events.\<close>

fun keep_deferred :: "(int \<times> frame) list \<Rightarrow> int \<Rightarrow> frame list \<times> int" where
  "keep_deferred [] l = ([], l)"
| "keep_deferred ((n, p) # ds) l =
     (if n \<le> l then keep_deferred ds l
      else case keep_deferred ds n of (ps, l') \<Rightarrow> (p # ps, l'))"

definition end_sync :: "client \<Rightarrow> frame list \<times> client" where
  "end_sync c =
     (case keep_deferred (sort_key fst (c_deferred c)) (c_last c) of
        (kept, l) \<Rightarrow> (kept, c\<lparr>c_syncing := False, c_deferred := [], c_last := l\<rparr>))"

definition send_control :: "string \<Rightarrow> json \<Rightarrow> client \<Rightarrow> client" where
  "send_control frame_type j c = enqueue (Control frame_type j) c"

text \<open>One round of the write loop: the oldest queued frame goes to the socket.\<close>

definition write_one :: "client \<Rightarrow> client" where
  "write_one c = (case c_outbound c of [] \<Rightarrow> c
     | p # ps \<Rightarrow> if c_closed c then c else c\<lparr>c_outbound := ps, c_wire := c_wire c @ [p]\<rparr>)"

text \<open>The event sequences the connection has accepted, oldest first.\<close>

definition accepted :: "client \<Rightarrow> int list" where
  "accepted c = event_seqs (c_wire c @ c_outbound c)"

section \<open>Facts on single operations\<close>

lemma topics_new_client: "t \<in> set (c_topics (new_client w g qsize)) \<longleftrightarrow> t \<in> set (g_initial g) \<and> allows g t"
proof -
  have "t \<in> set (fold (\<lambda>t ts. if allows g t then add_topic t ts else ts) xs ts)
      \<longleftrightarrow> t \<in> set ts \<or> t \<in> set xs \<and> allows g t" for xs ts
    by (induction xs arbitrary: ts) (auto simp: add_topic_def)
  then show ?thesis by (simp add: new_client_def)
qed

lemma enqueue_sel [simp]:
  "c_workspace (enqueue p c) = c_workspace c" "c_grant (enqueue p c) = c_grant c"
  "c_cap (enqueue p c) = c_cap c" "c_topics (enqueue p c) = c_topics c"
  "c_last (enqueue p c) = c_last c" "c_syncing (enqueue p c) = c_syncing c"
  "c_deferred (enqueue p c) = c_deferred c" "c_wire (enqueue p c) = c_wire c"
  by (simp_all add: enqueue_def)

lemma send_sel [simp]:
  "c_workspace (send n p c) = c_workspace c" "c_grant (send n p c) = c_grant c"
  "c_cap (send n p c) = c_cap c" "c_topics (send n p c) = c_topics c"
  "c_syncing (send n p c) = c_syncing c" "c_wire (send n p c) = c_wire c"
  by (simp_all add: send_def)

lemma enqueue_outbound: "set (c_outbound (enqueue p c)) \<subseteq> insert p (set (c_outbound c))"
  by (auto simp: enqueue_def)

lemma send_outbound: "set (c_outbound (send n p c)) \<subseteq> insert p (set (c_outbound c))"
  by (auto simp: send_def enqueue_def)

lemma accepted_enqueue:
  "accepted (enqueue (EventFrame r) c) = accepted c @ [r_sequence r] \<or> accepted (enqueue (EventFrame r) c) = accepted c"
  by (auto simp: accepted_def enqueue_def)

lemma accepted_write [simp]: "accepted (write_one c) = accepted c"
proof (cases "c_outbound c")
  case (Cons p ps)
  then show ?thesis by (cases p) (simp_all add: accepted_def write_one_def)
qed (simp add: write_one_def)

text \<open>Every deferred event is held with its own sequence.\<close>

definition own_seq :: "int \<times> frame \<Rightarrow> bool" where
  "own_seq d = (case snd d of EventFrame r \<Rightarrow> r_sequence r = fst d | Control _ _ \<Rightarrow> False)"

lemma own_seq_simps [simp]:
  "own_seq (n, EventFrame r) \<longleftrightarrow> r_sequence r = n" "\<not> own_seq (n, Control t j)"
  by (simp_all add: own_seq_def)

lemma keep_deferred_mono:
  "keep_deferred ds l = (ps, l') \<Longrightarrow> list_all own_seq ds \<Longrightarrow>
     l \<le> l' \<and> sorted_wrt (<) (event_seqs ps) \<and> (\<forall>n \<in> set (event_seqs ps). l < n \<and> n \<le> l')"
proof (induction ds arbitrary: l ps l')
  case (Cons d ds)
  obtain n p where d: "d = (n, p)" by fastforce
  show ?case
  proof (cases "n \<le> l")
    case True
    with Cons.prems Cons.IH show ?thesis by (simp add: d)
  next
    case False
    obtain qs m where q: "keep_deferred ds n = (qs, m)" by fastforce
    obtain r where r: "p = EventFrame r" "r_sequence r = n"
      using Cons.prems(2) by (cases p) (auto simp: d)
    have "n \<le> m \<and> sorted_wrt (<) (event_seqs qs) \<and> (\<forall>k \<in> set (event_seqs qs). n < k \<and> k \<le> m)"
      using Cons.IH [OF q] Cons.prems(2) by simp
    moreover have "ps = EventFrame r # qs" "l' = m"
      using Cons.prems(1) False q r by (auto simp: d)
    ultimately show ?thesis using False r by auto
  qed
qed simp

section \<open>Live delivery and resume in every order\<close>

text \<open>
  The hub's goroutine calls send; the connection's read loop runs resume: beginSync,
  rewind, advance and enqueue for each replayed row, endSync, and then one enqueue per
  event that endSync returned (kept in a local variable, here \<open>rs_pending\<close>); the write
  loop drains the queue.  Each call is one critical section.  An action that is not
  enabled leaves the state as it is.
\<close>

record conn =
  rs_client :: client
  rs_pending :: "frame list"

datatype conn_action = LiveSend event_row | BeginSync | Replay event_row | EndSync | FlushOne | WriteOne

definition conn_act :: "conn_action \<Rightarrow> conn \<Rightarrow> conn" where
  "conn_act a s = (case a of
     LiveSend r \<Rightarrow> s\<lparr>rs_client := send (r_sequence r) (EventFrame (envelope r)) (rs_client s)\<rparr>
   | BeginSync \<Rightarrow> if rs_pending s = [] \<and> \<not> c_syncing (rs_client s)
       then s\<lparr>rs_client := begin_sync (rs_client s)\<rparr> else s
   | Replay r \<Rightarrow> if rs_pending s = [] \<and> c_syncing (rs_client s)
       then (case advance (r_sequence r) (rs_client s) of (ok, c) \<Rightarrow>
               if ok then s\<lparr>rs_client := enqueue (EventFrame (envelope r)) c\<rparr> else s) else s
   | EndSync \<Rightarrow> if rs_pending s = [] \<and> c_syncing (rs_client s)
       then (case end_sync (rs_client s) of (kept, c) \<Rightarrow> s\<lparr>rs_client := c, rs_pending := kept\<rparr>) else s
   | FlushOne \<Rightarrow> (case rs_pending s of [] \<Rightarrow> s
       | p # ps \<Rightarrow> s\<lparr>rs_client := enqueue p (rs_client s), rs_pending := ps\<rparr>)
   | WriteOne \<Rightarrow> s\<lparr>rs_client := write_one (rs_client s)\<rparr>)"

fun conn_run :: "conn_action list \<Rightarrow> conn \<Rightarrow> conn" where
  "conn_run [] s = s"
| "conn_run (a # as) s = conn_run as (conn_act a s)"

text \<open>
  The invariant since a position \<open>b\<close> was claimed: what was accepted after \<open>old\<close> and what is
  still pending are distinct sequences above \<open>b\<close> and at most the current position.
\<close>

definition deferred_ok :: "client \<Rightarrow> bool" where
  "deferred_ok c \<longleftrightarrow> list_all own_seq (c_deferred c)"

definition conn_inv :: "int list \<Rightarrow> int \<Rightarrow> conn \<Rightarrow> bool" where
  "conn_inv old b s \<longleftrightarrow> (\<exists>new. accepted (rs_client s) = old @ new \<and>
     distinct (new @ event_seqs (rs_pending s)) \<and> b \<le> c_last (rs_client s) \<and>
     (\<forall>n \<in> set (new @ event_seqs (rs_pending s)). b < n \<and> n \<le> c_last (rs_client s)) \<and>
     deferred_ok (rs_client s))"

lemma accepted_frame [simp]:
  "accepted (c\<lparr>c_last := l\<rparr>) = accepted c" "accepted (c\<lparr>c_deferred := ds\<rparr>) = accepted c"
  "accepted (c\<lparr>c_syncing := b\<rparr>) = accepted c"
  by (simp_all add: accepted_def)

lemma deferred_ok_simps [simp]:
  "deferred_ok (enqueue p c) = deferred_ok c" "deferred_ok (write_one c) = deferred_ok c"
  "deferred_ok (c\<lparr>c_last := l\<rparr>) = deferred_ok c" "deferred_ok (c\<lparr>c_syncing := b\<rparr>) = deferred_ok c"
  "deferred_ok (c\<lparr>c_deferred := ds\<rparr>) = list_all own_seq ds"
  by (auto simp: deferred_ok_def write_one_def split: list.splits)

lemma write_one_last [simp]: "c_last (write_one c) = c_last c"
  by (auto simp: write_one_def split: list.splits)

text \<open>Accepting one event above the position keeps the invariant.\<close>

lemma conn_inv_accept:
  assumes "conn_inv old b s" "c_last (rs_client s) < r_sequence r"
  shows "conn_inv old b (s\<lparr>rs_client := enqueue (EventFrame r) ((rs_client s)\<lparr>c_last := r_sequence r\<rparr>)\<rparr>)"
proof -
  obtain new where n: "accepted (rs_client s) = old @ new"
    "distinct (new @ event_seqs (rs_pending s))" "b \<le> c_last (rs_client s)"
    "\<forall>n \<in> set (new @ event_seqs (rs_pending s)). b < n \<and> n \<le> c_last (rs_client s)"
    "deferred_ok (rs_client s)"
    using assms(1) by (auto simp: conn_inv_def)
  let ?c = "enqueue (EventFrame r) ((rs_client s)\<lparr>c_last := r_sequence r\<rparr>)"
  obtain new' where new': "accepted ?c = old @ new'" "new' = new @ [r_sequence r] \<or> new' = new"
    using accepted_enqueue [of r "(rs_client s)\<lparr>c_last := r_sequence r\<rparr>"] n(1) by auto
  have "distinct (new' @ event_seqs (rs_pending s))"
    using new'(2)
  proof
    assume "new' = new @ [r_sequence r]"
    moreover have "r_sequence r \<notin> set (new @ event_seqs (rs_pending s))" using n(4) assms(2) by fastforce
    ultimately show ?thesis using n(2) by auto
  qed (use n(2) in simp)
  moreover have "\<forall>n \<in> set (new' @ event_seqs (rs_pending s)). b < n \<and> n \<le> r_sequence r"
    using new'(2)
  proof
    assume "new' = new @ [r_sequence r]"
    then show ?thesis using n(3,4) assms(2) by (auto dest: less_imp_le order.strict_trans1)
  next
    assume "new' = new"
    then show ?thesis using n(4) assms(2) by (auto dest: less_imp_le order.trans)
  qed
  ultimately show ?thesis
    using new'(1) n(3,5) assms(2) unfolding conn_inv_def by (intro exI [of _ new']) auto
qed

lemma conn_act_inv: "conn_inv old b s \<Longrightarrow> conn_inv old b (conn_act a s)"
proof (cases a)
  case (LiveSend r)
  assume i: "conn_inv old b s"
  consider "r_sequence r \<le> c_last (rs_client s)"
    | "c_last (rs_client s) < r_sequence r" "c_syncing (rs_client s)"
    | "c_last (rs_client s) < r_sequence r" "\<not> c_syncing (rs_client s)" by linarith
  then show ?thesis
  proof cases
    case 1 then show ?thesis using i LiveSend by (simp add: conn_act_def send_def)
  next
    case 2 then show ?thesis using i LiveSend
      by (auto simp: conn_act_def send_def conn_inv_def deferred_ok_def)
  next
    case 3 then show ?thesis using LiveSend conn_inv_accept [OF i, of "envelope r"]
      by (simp add: conn_act_def send_def)
  qed
next
  case BeginSync
  assume "conn_inv old b s"
  then show ?thesis using BeginSync by (auto simp: conn_act_def begin_sync_def conn_inv_def)
next
  case (Replay r)
  assume i: "conn_inv old b s"
  show ?thesis using Replay i conn_inv_accept [OF i, of "envelope r"]
    by (auto simp: conn_act_def advance_def)
next
  case EndSync
  assume i: "conn_inv old b s"
  obtain kept l where k: "keep_deferred (sort_key fst (c_deferred (rs_client s))) (c_last (rs_client s)) = (kept, l)"
    by fastforce
  have "list_all own_seq (sort_key fst (c_deferred (rs_client s)))"
    using i unfolding conn_inv_def deferred_ok_def list_all_iff by force
  from keep_deferred_mono [OF k this]
  have kept: "c_last (rs_client s) \<le> l" "distinct (event_seqs kept)"
      "\<forall>n \<in> set (event_seqs kept). c_last (rs_client s) < n \<and> n \<le> l"
    by (auto simp: strict_sorted_iff)
  show ?thesis
  proof (cases "rs_pending s = [] \<and> c_syncing (rs_client s)")
    case False
    then show ?thesis using EndSync i by (auto simp: conn_act_def)
  next
    case True
    then obtain new where n: "accepted (rs_client s) = old @ new" "distinct new" "b \<le> c_last (rs_client s)"
      "\<forall>n \<in> set new. b < n \<and> n \<le> c_last (rs_client s)"
      using i by (auto simp: conn_inv_def)
    have "set new \<inter> set (event_seqs kept) = {}" using n(4) kept(3) by fastforce
    moreover have "\<forall>n \<in> set (new @ event_seqs kept). b < n \<and> n \<le> l"
      using n(3,4) kept(1,3) by fastforce
    ultimately show ?thesis
      using EndSync True n kept k unfolding conn_inv_def conn_act_def end_sync_def
      by (intro exI [of _ new]) simp
  qed
next
  case FlushOne
  assume i: "conn_inv old b s"
  show ?thesis
  proof (cases "rs_pending s")
    case Nil then show ?thesis using FlushOne i by (simp add: conn_act_def)
  next
    case (Cons p ps)
    show ?thesis
    proof (cases p)
      case (EventFrame r)
      then show ?thesis using FlushOne Cons i accepted_enqueue [of r "rs_client s"]
        by (fastforce simp: conn_act_def conn_inv_def)
    next
      case (Control t j)
      have "accepted (enqueue p (rs_client s)) = accepted (rs_client s)"
        using Control by (simp add: accepted_def enqueue_def)
      then show ?thesis using FlushOne Cons i Control by (auto simp: conn_act_def conn_inv_def)
    qed
  qed
next
  case WriteOne
  assume "conn_inv old b s"
  then show ?thesis using WriteOne by (auto simp: conn_act_def conn_inv_def)
qed

lemma conn_run_inv: "conn_inv old b s \<Longrightarrow> conn_inv old b (conn_run as s)"
  by (induction as arbitrary: s) (auto simp: conn_act_inv)

text \<open>
  The order of events needs one thing more: that the frames endSync returned are queued
  before the next live event is.
\<close>

fun flush_first :: "conn_action list \<Rightarrow> conn \<Rightarrow> bool" where
  "flush_first [] s = True"
| "flush_first (a # as) s =
     ((case a of LiveSend _ \<Rightarrow> rs_pending s = [] | _ \<Rightarrow> True) \<and> flush_first as (conn_act a s))"

definition order_inv :: "int list \<Rightarrow> conn \<Rightarrow> bool" where
  "order_inv old s \<longleftrightarrow> (\<exists>new. accepted (rs_client s) = old @ new \<and>
     sorted_wrt (<) (new @ event_seqs (rs_pending s)) \<and>
     (\<forall>n \<in> set (new @ event_seqs (rs_pending s)). n \<le> c_last (rs_client s)) \<and>
     deferred_ok (rs_client s))"

lemma order_inv_accept:
  assumes "order_inv old s" "c_last (rs_client s) < r_sequence r" "rs_pending s = []"
  shows "order_inv old (s\<lparr>rs_client := enqueue (EventFrame r) ((rs_client s)\<lparr>c_last := r_sequence r\<rparr>)\<rparr>)"
proof -
  obtain new where n: "accepted (rs_client s) = old @ new" "sorted_wrt (<) new"
    "\<forall>n \<in> set new. n \<le> c_last (rs_client s)" "deferred_ok (rs_client s)"
    using assms(1,3) by (auto simp: order_inv_def)
  let ?c = "enqueue (EventFrame r) ((rs_client s)\<lparr>c_last := r_sequence r\<rparr>)"
  obtain new' where new': "accepted ?c = old @ new'" "new' = new @ [r_sequence r] \<or> new' = new"
    using accepted_enqueue [of r "(rs_client s)\<lparr>c_last := r_sequence r\<rparr>"] n(1) by auto
  have le: "n < r_sequence r" if "n \<in> set new" for n using n(3) assms(2) that by fastforce
  have "sorted_wrt (<) new' \<and> (\<forall>n \<in> set new'. n \<le> r_sequence r)"
    using new'(2)
  proof
    assume "new' = new @ [r_sequence r]"
    then show ?thesis using n(2) le by (auto simp: sorted_wrt_append dest: le)
  next
    assume "new' = new"
    then show ?thesis using n(2) by (auto dest: le)
  qed
  then show ?thesis using new'(1) n(4) assms(3) unfolding order_inv_def by auto
qed

lemma order_act_inv:
  assumes i: "order_inv old s" and g: "(case a of LiveSend _ \<Rightarrow> rs_pending s = [] | _ \<Rightarrow> True)"
  shows "order_inv old (conn_act a s)"
proof (cases a)
  case (LiveSend r)
  consider "r_sequence r \<le> c_last (rs_client s)"
    | "c_last (rs_client s) < r_sequence r" "c_syncing (rs_client s)"
    | "c_last (rs_client s) < r_sequence r" "\<not> c_syncing (rs_client s)" by linarith
  then show ?thesis
  proof cases
    case 1 then show ?thesis using i LiveSend by (simp add: conn_act_def send_def)
  next
    case 2 then show ?thesis using i LiveSend
      by (auto simp: conn_act_def send_def order_inv_def deferred_ok_def)
  next
    case 3 then show ?thesis using LiveSend g order_inv_accept [OF i, of "envelope r"]
      by (simp add: conn_act_def send_def)
  qed
next
  case BeginSync
  then show ?thesis using i by (auto simp: conn_act_def begin_sync_def order_inv_def)
next
  case (Replay r)
  then show ?thesis using i order_inv_accept [OF i, of "envelope r"]
    by (auto simp: conn_act_def advance_def)
next
  case EndSync
  obtain kept l where k: "keep_deferred (sort_key fst (c_deferred (rs_client s))) (c_last (rs_client s)) = (kept, l)"
    by fastforce
  have "list_all own_seq (sort_key fst (c_deferred (rs_client s)))"
    using i unfolding order_inv_def deferred_ok_def list_all_iff by force
  from keep_deferred_mono [OF k this]
  have kept: "c_last (rs_client s) \<le> l" "sorted_wrt (<) (event_seqs kept)"
      "\<forall>n \<in> set (event_seqs kept). c_last (rs_client s) < n \<and> n \<le> l"
    by auto
  show ?thesis
  proof (cases "rs_pending s = [] \<and> c_syncing (rs_client s)")
    case False
    then show ?thesis using EndSync i by (auto simp: conn_act_def)
  next
    case True
    then obtain new where n: "accepted (rs_client s) = old @ new" "sorted_wrt (<) new"
      "\<forall>n \<in> set new. n \<le> c_last (rs_client s)"
      using i by (auto simp: order_inv_def)
    have "sorted_wrt (<) (new @ event_seqs kept)" using n kept by (fastforce simp: sorted_wrt_append)
    moreover have "\<forall>n \<in> set (new @ event_seqs kept). n \<le> l" using n(3) kept by fastforce
    ultimately show ?thesis
      using EndSync True n k unfolding order_inv_def conn_act_def end_sync_def
      by (intro exI [of _ new]) simp
  qed
next
  case FlushOne
  show ?thesis
  proof (cases "rs_pending s")
    case Nil then show ?thesis using FlushOne i by (simp add: conn_act_def)
  next
    case (Cons p ps)
    show ?thesis
    proof (cases p)
      case (EventFrame r)
      obtain new where n: "accepted (rs_client s) = old @ new"
        "sorted_wrt (<) (new @ r_sequence r # event_seqs ps)"
        "\<forall>n \<in> set (new @ r_sequence r # event_seqs ps). n \<le> c_last (rs_client s)" "deferred_ok (rs_client s)"
        using i Cons EventFrame by (auto simp: order_inv_def)
      obtain new' where "accepted (enqueue p (rs_client s)) = old @ new'"
          "new' = new @ [r_sequence r] \<or> new' = new"
        using accepted_enqueue [of r "rs_client s"] n(1) EventFrame by auto
      then show ?thesis using FlushOne Cons n
        unfolding order_inv_def conn_act_def by (intro exI [of _ new']) (auto simp: sorted_wrt_append)
    next
      case (Control t j)
      have "accepted (enqueue p (rs_client s)) = accepted (rs_client s)"
        using Control by (simp add: accepted_def enqueue_def)
      then show ?thesis using FlushOne Cons i Control by (auto simp: conn_act_def order_inv_def)
    qed
  qed
next
  case WriteOne
  then show ?thesis using i by (auto simp: conn_act_def order_inv_def)
qed

lemma order_run_inv: "order_inv old s \<Longrightarrow> flush_first as s \<Longrightarrow> order_inv old (conn_run as s)"
  by (induction as arbitrary: s) (auto simp: order_act_inv)

section \<open>Properties\<close>


definition sample_conn :: conn where
  "sample_conn = \<lparr>rs_client = new_client ''wrk_1'' (agent_grant ''mem_1'' ''Ada'') 16, rs_pending = []\<rparr>"

definition overlap_run :: "conn_action list" where
  "overlap_run = [BeginSync, Replay (sample_row ''evt_1'' ''wrk_1'' 1), LiveSend (sample_row ''evt_3'' ''wrk_1'' 3),
     Replay (sample_row ''evt_2'' ''wrk_1'' 2), LiveSend (sample_row ''evt_2'' ''wrk_1'' 2), EndSync, FlushOne,
     LiveSend (sample_row ''evt_3'' ''wrk_1'' 3), LiveSend (sample_row ''evt_4'' ''wrk_1'' 4)]"

lemmas conn_eval = conn_act_def send_def begin_sync_def advance_def end_sync_def enqueue_def
  sample_conn_def new_client_def agent_grant_def sample_row_def accepted_def deferred_ok_def


text \<open>
  In order, when the held-back events are queued before the next live one.  If no
  live delivery comes between endSync and the last of its flushes, the event frames
  accepted since the position was set are strictly increasing.
\<close>

theorem delivered_in_order_if_flushed_first:
  assumes "deferred_ok (rs_client s)" and "rs_pending s = []" and "flush_first as s"
  shows "\<exists>new. accepted (rs_client (conn_run as s)) = accepted (rs_client s) @ new \<and> sorted_wrt (<) new"
proof -
  have "order_inv (accepted (rs_client s)) s" using assms(1,2) by (auto simp: order_inv_def)
  from order_run_inv [OF this assms(3)] show ?thesis
    unfolding order_inv_def by (auto simp: sorted_wrt_append)
qed

theorem delivered_in_order_if_flushed_first_witness:
  "flush_first overlap_run sample_conn \<and>
   (\<exists>new. accepted (rs_client (conn_run overlap_run sample_conn)) = accepted (rs_client sample_conn) @ new \<and>
     sorted_wrt (<) new)"
proof -
  have h: "deferred_ok (rs_client sample_conn)" "rs_pending sample_conn = []" "flush_first overlap_run sample_conn"
    by (simp_all add: overlap_run_def conn_eval)
  from delivered_in_order_if_flushed_first [OF h] h show ?thesis by blast
qed

text \<open>
  The order can break.  endSync releases the lock before the events it returns are
  queued, so a live event can overtake them: the connection below accepts sequence 4
  before sequence 3.
\<close>

theorem resume_can_overtake_deferred:
  "accepted (rs_client (conn_run
     [BeginSync, Replay (sample_row ''evt_1'' ''wrk_1'' 1), LiveSend (sample_row ''evt_3'' ''wrk_1'' 3),
      EndSync, LiveSend (sample_row ''evt_4'' ''wrk_1'' 4), FlushOne] sample_conn)) = [1, 4, 3]"
  by (simp add: conn_eval)

end
