(* ===== verification/RealtimeHub.thy ===== *)
theory RealtimeHub
  imports RealtimeClient
begin

text \<open>
  The hub (src/internal/realtime/hub.go, protocol.go): the registries of connections by
  workspace and by viewed entity, the broadcast cursor of each workspace, delivery of
  the event log to the connections whose topics match, presence frames, and the frames a
  browser may send.  Connections are pointers in Go; here they are numbers and the hub
  carries the store \<open>h_heap\<close> they point into.
\<close>

section \<open>State\<close>

text \<open>
  The EventSource the hub reads.  The number counts the calls, so that successive reads
  may see a log that has grown or fail.
\<close>

record event_reader =
  s_since :: "nat \<Rightarrow> string \<Rightarrow> int \<Rightarrow> int \<Rightarrow> event_row list option"
  s_latest :: "nat \<Rightarrow> string \<Rightarrow> int option"

record hub =
  h_clients :: "nat list"
  h_by_ws :: "string \<Rightarrow> nat list"
  h_viewers :: "string \<Rightarrow> nat list"
  h_cursor :: "string \<Rightarrow> int option"
  h_queue :: nat
  h_source :: "event_reader option"
  h_heap :: "nat \<Rightarrow> client"

definition drain_page_size :: int where "drain_page_size = 200"
definition resume_page_size :: int where "resume_page_size = 200"
definition max_resume_events :: int where "max_resume_events = 2000"

definition new_hub :: "int \<Rightarrow> (nat \<Rightarrow> client) \<Rightarrow> hub" where
  "new_hub outbound_queue_size heap = \<lparr> h_clients = [], h_by_ws = (\<lambda>_. []), h_viewers = (\<lambda>_. []),
     h_cursor = (\<lambda>_. None),
     h_queue = nat (if outbound_queue_size \<le> 0 then 256 else outbound_queue_size),
     h_source = None, h_heap = heap \<rparr>"

definition set_source :: "event_reader \<Rightarrow> hub \<Rightarrow> hub" where
  "set_source s h = h\<lparr>h_source := Some s\<rparr>"

text \<open>Applying a client operation to one pointer, and to each pointer of a slice.\<close>

definition upd :: "nat \<Rightarrow> (client \<Rightarrow> client) \<Rightarrow> hub \<Rightarrow> hub" where
  "upd i f h = h\<lparr>h_heap := (h_heap h)(i := f (h_heap h i))\<rparr>"

definition upd_all :: "nat list \<Rightarrow> (client \<Rightarrow> client) \<Rightarrow> hub \<Rightarrow> hub" where
  "upd_all is f h = fold (\<lambda>i. upd i f) is h"

section \<open>Cursors\<close>

definition has_clients :: "hub \<Rightarrow> string \<Rightarrow> bool" where
  "has_clients h w = (h_by_ws h w \<noteq> [])"

definition cursor_for :: "hub \<Rightarrow> string \<Rightarrow> int" where
  "cursor_for h w = (case h_cursor h w of None \<Rightarrow> 0 | Some n \<Rightarrow> n)"

definition set_cursor :: "string \<Rightarrow> int \<Rightarrow> hub \<Rightarrow> hub" where
  "set_cursor w n h = (if n > cursor_for h w then h\<lparr>h_cursor := (h_cursor h)(w \<mapsto> n)\<rparr> else h)"

definition advance_cursor_to_latest :: "event_reader \<Rightarrow> nat \<Rightarrow> string \<Rightarrow> hub \<Rightarrow> hub" where
  "advance_cursor_to_latest s k w h =
     (case s_latest s k w of None \<Rightarrow> h | Some n \<Rightarrow> set_cursor w n h)"

section \<open>Delivery\<close>

definition topic_for :: "event_row \<Rightarrow> string" where
  "topic_for r = (if r_entity_type r = '''' \<or> r_entity_id r = '''' then ''''
     else r_entity_type r @ '':'' @ r_entity_id r)"

text \<open>
  json.Unmarshal of the data into a struct with the one string field kind: keys match
  without case, null leaves the field, another type is an error that is reported at the
  end.
\<close>

definition lower_char :: "char \<Rightarrow> char" where
  "lower_char c = (if CHR ''A'' \<le> c \<and> c \<le> CHR ''Z'' then char_of (of_char c + (32::nat)) else c)"

fun decode_kind :: "(string \<times> json) list \<Rightarrow> string \<Rightarrow> bool \<Rightarrow> string option" where
  "decode_kind [] kind err = (if err then None else Some kind)"
| "decode_kind ((n, v) # fs) kind err =
     (if map lower_char n = ''kind'' then
        (case v of JStr s \<Rightarrow> decode_kind fs s err | JNull \<Rightarrow> decode_kind fs kind err
         | _ \<Rightarrow> decode_kind fs kind True)
      else decode_kind fs kind err)"

definition partial_kind :: "json \<Rightarrow> string option" where
  "partial_kind j = (case j of JObj fs \<Rightarrow> decode_kind fs '''' False | JNull \<Rightarrow> Some '''' | _ \<Rightarrow> None)"

definition visible_to :: "client \<Rightarrow> event_row \<Rightarrow> bool" where
  "visible_to c r =
     (if g_member_id (c_grant c) \<noteq> '''' then True
      else if r_type r \<noteq> message_created then True
      else case partial_kind (r_data r) of None \<Rightarrow> True | Some kind \<Rightarrow> kind \<noteq> ''note'')"

definition event_for :: "client \<Rightarrow> event_row \<Rightarrow> event_row option" where
  "event_for c r =
     (if \<not> visible_to c r then None
      else case g_filter (c_grant c) of None \<Rightarrow> Some r | Some f \<Rightarrow> f r)"

definition deliver_client :: "event_row \<Rightarrow> client \<Rightarrow> client" where
  "deliver_client r c =
     (if \<not> wants c (topic_for r) then c
      else case event_for c r of None \<Rightarrow> c
           | Some p \<Rightarrow> send (r_sequence r) (EventFrame (envelope p)) c)"

definition deliver :: "string \<Rightarrow> event_row \<Rightarrow> hub \<Rightarrow> hub" where
  "deliver w r h = upd_all (h_by_ws h w) (deliver_client r) h"

text \<open>
  The loop of drain, with one unit of fuel per page; \<open>None\<close> is out of fuel.  \<open>k\<close> is the
  number of the first read.
\<close>

fun drain_loop :: "nat \<Rightarrow> event_reader \<Rightarrow> nat \<Rightarrow> string \<Rightarrow> hub \<Rightarrow> hub option" where
  "drain_loop 0 s k w h = None"
| "drain_loop (Suc fuel) s k w h =
     (if \<not> has_clients h w then Some (advance_cursor_to_latest s k w h)
      else case s_since s k w (cursor_for h w) drain_page_size of
             None \<Rightarrow> Some h
           | Some records \<Rightarrow>
               if records = [] then Some h
               else let h1 = fold (deliver w) records h;
                        h2 = set_cursor w (r_sequence (last records)) h1
                    in if int (length records) < drain_page_size then Some h2
                       else drain_loop fuel s (Suc k) w h2)"

definition drain :: "nat \<Rightarrow> nat \<Rightarrow> string \<Rightarrow> hub \<Rightarrow> hub option" where
  "drain fuel k w h = (case h_source h of None \<Rightarrow> Some h | Some s \<Rightarrow> drain_loop fuel s k w h)"

section \<open>Presence\<close>

definition conversation_topic_prefix :: string where "conversation_topic_prefix = ''conversation:''"
definition ticket_topic_prefix :: string where "ticket_topic_prefix = ''ticket:''"

definition is_presence_topic :: "string \<Rightarrow> bool" where
  "is_presence_topic t = (has_prefix t conversation_topic_prefix \<or> has_prefix t ticket_topic_prefix)"

text \<open>The members that view a topic, each once; visitors have no member id.\<close>

fun viewer_members :: "(nat \<Rightarrow> client) \<Rightarrow> nat list \<Rightarrow> string list \<Rightarrow> string list" where
  "viewer_members heap [] seen = []"
| "viewer_members heap (i # is) seen =
     (let m = g_member_id (c_grant (heap i))
      in if m = '''' \<or> m \<in> set seen then viewer_members heap is seen
         else m # viewer_members heap is (m # seen))"

definition viewers_locked :: "hub \<Rightarrow> string \<Rightarrow> string list" where
  "viewers_locked h topic = viewer_members (h_heap h) (h_viewers h topic) []"

definition viewers :: "hub \<Rightarrow> string \<Rightarrow> string list" where
  "viewers h conversation_id = viewers_locked h (conversation_topic_prefix @ conversation_id)"

definition ticket_viewers :: "hub \<Rightarrow> string \<Rightarrow> string list" where
  "ticket_viewers h ticket_id = viewers_locked h (ticket_topic_prefix @ ticket_id)"

definition viewers_frame :: "hub \<Rightarrow> string \<Rightarrow> frame" where
  "viewers_frame h topic = Control ''presence.viewers'' (JObj
     ((if has_prefix topic conversation_topic_prefix
       then [(''conversation_id'', JStr (trim_prefix topic conversation_topic_prefix))]
       else if has_prefix topic ticket_topic_prefix
       then [(''ticket_id'', JStr (trim_prefix topic ticket_topic_prefix))] else [])
      @ [(''viewers'', JArr (map JStr (viewers_locked h topic)))]))"

definition enqueue_if_wanted :: "string \<Rightarrow> frame \<Rightarrow> client \<Rightarrow> client" where
  "enqueue_if_wanted topic p c = (if wants c topic \<and> allows (c_grant c) topic then enqueue p c else c)"

definition broadcast_viewers :: "string \<Rightarrow> string \<Rightarrow> hub \<Rightarrow> hub" where
  "broadcast_viewers w topic h =
     upd_all (h_by_ws h w) (enqueue_if_wanted topic (viewers_frame h topic)) h"

definition add_viewer :: "nat \<Rightarrow> string \<Rightarrow> hub \<Rightarrow> hub" where
  "add_viewer i topic h =
     (if \<not> is_presence_topic topic then h
      else broadcast_viewers (c_workspace (h_heap h i)) topic
        (h\<lparr>h_viewers := (h_viewers h)(topic := (if i \<in> set (h_viewers h topic) then h_viewers h topic
            else h_viewers h topic @ [i]))\<rparr>))"

definition remove_viewer_locked :: "nat \<Rightarrow> string \<Rightarrow> hub \<Rightarrow> hub" where
  "remove_viewer_locked i topic h =
     h\<lparr>h_viewers := (h_viewers h)(topic := removeAll i (h_viewers h topic))\<rparr>"

definition remove_viewer :: "nat \<Rightarrow> string \<Rightarrow> hub \<Rightarrow> hub" where
  "remove_viewer i topic h =
     (if \<not> is_presence_topic topic then h
      else broadcast_viewers (c_workspace (h_heap h i)) topic (remove_viewer_locked i topic h))"

definition typing_frame :: "client \<Rightarrow> string \<Rightarrow> bool \<Rightarrow> frame" where
  "typing_frame sender conversation_id typing =
     (let m = g_member_id (c_grant sender); n = g_member_name (c_grant sender)
      in Control ''presence.typing'' (JObj
        ([(''conversation_id'', JStr conversation_id),
          (''actor_type'', JStr (if m \<noteq> '''' then ''agent'' else ''customer''))]
         @ (if m = '''' then [] else [(''member_id'', JStr m)])
         @ (if n = '''' then [] else [(''member_name'', JStr n)])
         @ [(''typing'', JBool typing)])))"

definition broadcast_typing :: "nat \<Rightarrow> string \<Rightarrow> bool \<Rightarrow> hub \<Rightarrow> hub" where
  "broadcast_typing i conversation_id typing h =
     (let sender = h_heap h i; topic = ''conversation:'' @ conversation_id
      in if conversation_id = '''' then h
         else if \<not> allows (c_grant sender) topic then h
         else upd_all (filter (\<lambda>j. j \<noteq> i) (h_by_ws h (c_workspace sender)))
                (enqueue_if_wanted topic (typing_frame sender conversation_id typing)) h)"

section \<open>Connecting and disconnecting\<close>

definition register_client :: "nat \<Rightarrow> hub \<Rightarrow> hub" where
  "register_client i h =
     (let w = c_workspace (h_heap h i)
      in h\<lparr>h_clients := (if i \<in> set (h_clients h) then h_clients h else h_clients h @ [i]),
           h_by_ws := (h_by_ws h)(w := (if i \<in> set (h_by_ws h w) then h_by_ws h w else h_by_ws h w @ [i]))\<rparr>)"

definition drop_from_workspace :: "nat \<Rightarrow> hub \<Rightarrow> hub" where
  "drop_from_workspace i h =
     (let w = c_workspace (h_heap h i); rest = removeAll i (h_by_ws h w)
      in if h_by_ws h w = [] then h
         else h\<lparr>h_by_ws := (h_by_ws h)(w := rest),
                h_cursor := (if rest = [] then (h_cursor h)(w := None) else h_cursor h)\<rparr>)"

definition unregister_client :: "nat \<Rightarrow> hub \<Rightarrow> hub" where
  "unregister_client i h =
     (let presence = filter is_presence_topic (topic_list (h_heap h i));
          w = c_workspace (h_heap h i);
          h1 = drop_from_workspace i (h\<lparr>h_clients := removeAll i (h_clients h)\<rparr>);
          h2 = fold (remove_viewer_locked i) presence h1
      in fold (broadcast_viewers w) presence h2)"

definition ready_frame :: "client \<Rightarrow> frame" where
  "ready_frame c = Control ''hub.ready'' (JObj [(''sequence'', JInt (c_last c)),
     (''topics'', JArr (map JStr (topic_list c)))])"

text \<open>
  Serve up to its read loop: the client is made and registered, starts at the head of the
  log, moves the workspace cursor there too, and is told where it is.
\<close>

definition serve_open :: "nat \<Rightarrow> nat \<Rightarrow> string \<Rightarrow> grant \<Rightarrow> hub \<Rightarrow> hub" where
  "serve_open k i w g h =
     (let h1 = register_client i (h\<lparr>h_heap := (h_heap h)(i := new_client w g (h_queue h))\<rparr>);
          h2 = (case h_source h1 of None \<Rightarrow> h1
                | Some s \<Rightarrow> (case s_latest s k w of None \<Rightarrow> h1
                    | Some n \<Rightarrow> set_cursor w n (upd i (set_sequence n) h1)))
      in upd i (\<lambda>c. enqueue (ready_frame c) c) h2)"

definition connection_count :: "hub \<Rightarrow> nat" where
  "connection_count h = length (h_clients h)"

text \<open>The write loop's policy tick: a revoked grant closes the connection.\<close>

definition policy_tick :: "bool \<Rightarrow> client \<Rightarrow> client" where
  "policy_tick valid c = (if valid then c else c\<lparr>c_closed := True\<rparr>)"

section \<open>Frames from the browser\<close>

record client_frame =
  cf_action :: string
  cf_topics :: "string list"
  cf_after :: int
  cf_conversation :: string
  cf_typing :: bool

definition topics_frame :: "client \<Rightarrow> frame" where
  "topics_frame c = Control ''hub.topics'' (JObj [(''topics'', JArr (map JStr (topic_list c)))])"

text \<open>The locked loop of subscribeTopics: refused topics, newly added ones, the topic set.\<close>

fun subscribe_loop :: "grant \<Rightarrow> string list \<Rightarrow> string list \<Rightarrow> string list \<times> string list \<times> string list" where
  "subscribe_loop g [] ts = ([], [], ts)"
| "subscribe_loop g (t # topics) ts =
     (if \<not> allows g t then (case subscribe_loop g topics ts of (refused, added, ts') \<Rightarrow> (t # refused, added, ts'))
      else case subscribe_loop g topics (add_topic t ts) of (refused, added, ts') \<Rightarrow>
             (refused, (if t \<in> set ts then added else t # added), ts'))"

definition forbidden_frame :: "string list \<Rightarrow> frame" where
  "forbidden_frame refused = Control ''hub.error'' (JObj [(''code'', JStr ''topic_forbidden''),
     (''message'', JStr ''This connection may not subscribe to those topics.''),
     (''topics'', JArr (map JStr refused))])"

definition subscribe_topics :: "nat \<Rightarrow> string list \<Rightarrow> hub \<Rightarrow> hub" where
  "subscribe_topics i topics h =
     (case subscribe_loop (c_grant (h_heap h i)) topics (c_topics (h_heap h i)) of
        (refused, added, ts) \<Rightarrow>
          let h1 = upd i (\<lambda>c. c\<lparr>c_topics := ts\<rparr>) h;
              h2 = (if refused \<noteq> [] then upd i (enqueue (forbidden_frame refused)) h1 else h1);
              h3 = fold (add_viewer i) added h2
          in upd i (\<lambda>c. enqueue (topics_frame c) c) h3)"

fun unsubscribe_loop :: "string list \<Rightarrow> string list \<Rightarrow> string list \<times> string list" where
  "unsubscribe_loop [] ts = ([], ts)"
| "unsubscribe_loop (t # topics) ts =
     (case unsubscribe_loop topics (removeAll t ts) of (removed, ts') \<Rightarrow>
        ((if t \<in> set ts then t # removed else removed), ts'))"

definition unsubscribe_topics :: "nat \<Rightarrow> string list \<Rightarrow> hub \<Rightarrow> hub" where
  "unsubscribe_topics i topics h =
     (case unsubscribe_loop topics (c_topics (h_heap h i)) of (removed, ts) \<Rightarrow>
        let h1 = upd i (\<lambda>c. c\<lparr>c_topics := ts\<rparr>) h;
            h2 = fold (remove_viewer i) removed h1
        in upd i (\<lambda>c. enqueue (topics_frame c) c) h2)"

definition replay_record :: "event_row \<Rightarrow> int \<times> client \<Rightarrow> int \<times> client" where
  "replay_record r = (\<lambda>(delivered, c).
     if \<not> wants c (topic_for r) then (delivered, c)
     else case event_for c r of None \<Rightarrow> (delivered, c)
          | Some p \<Rightarrow> (case advance (r_sequence r) c of (ok, c') \<Rightarrow>
              if ok then (delivered + 1, enqueue (EventFrame (envelope p)) c') else (delivered, c')))"

datatype resume_outcome = ResumeFailed client | ResumeDone int bool client

fun resume_loop :: "nat \<Rightarrow> event_reader \<Rightarrow> nat \<Rightarrow> int \<Rightarrow> int \<Rightarrow> client \<Rightarrow> resume_outcome option" where
  "resume_loop 0 s k from delivered c = None"
| "resume_loop (Suc fuel) s k from delivered c =
     (case s_since s k (c_workspace c) from resume_page_size of
        None \<Rightarrow> Some (ResumeFailed c)
      | Some records \<Rightarrow>
          if records = [] then Some (ResumeDone delivered False c)
          else (case fold replay_record records (delivered, c) of (delivered', c') \<Rightarrow>
            if int (length records) < resume_page_size then Some (ResumeDone delivered' False c')
            else if delivered' \<ge> max_resume_events then Some (ResumeDone delivered' True c')
            else resume_loop fuel s (Suc k) (r_sequence (last records)) delivered' c'))"

definition error_frame :: "string \<Rightarrow> string \<Rightarrow> frame" where
  "error_frame code message = Control ''hub.error'' (JObj [(''code'', JStr code), (''message'', JStr message)])"

definition resumed_frame :: "int \<Rightarrow> int \<Rightarrow> bool \<Rightarrow> client \<Rightarrow> frame" where
  "resumed_frame from delivered truncated c = Control ''hub.resumed'' (JObj [(''delivered'', JInt delivered),
     (''from'', JInt from), (''sequence'', JInt (c_last c)), (''truncated'', JBool truncated)])"

definition resume_client :: "nat \<Rightarrow> event_reader option \<Rightarrow> nat \<Rightarrow> int \<Rightarrow> client \<Rightarrow> client option" where
  "resume_client fuel source k after_sequence c =
     (case source of
        None \<Rightarrow> Some (enqueue (error_frame ''resume_unavailable'' ''This server cannot replay events.'') c)
      | Some s \<Rightarrow>
          let from = (if after_sequence < 0 then 0 else after_sequence)
          in case resume_loop fuel s k from 0 (rewind from (begin_sync c)) of
               None \<Rightarrow> None
             | Some (ResumeFailed c1) \<Rightarrow> Some (enqueue (error_frame ''resume_failed''
                 ''Missed events could not be replayed. Reload to resynchronise.'') (snd (end_sync c1)))
             | Some (ResumeDone delivered truncated c1) \<Rightarrow>
                 (case end_sync c1 of (kept, c2) \<Rightarrow>
                    let c3 = fold enqueue kept c2
                    in Some (enqueue (resumed_frame from delivered truncated c3) c3)))"

definition resume :: "nat \<Rightarrow> nat \<Rightarrow> nat \<Rightarrow> int \<Rightarrow> hub \<Rightarrow> hub option" where
  "resume fuel k i after_sequence h =
     map_option (\<lambda>c. upd i (\<lambda>_. c) h) (resume_client fuel (h_source h) k after_sequence (h_heap h i))"

definition handle_frame :: "nat \<Rightarrow> nat \<Rightarrow> nat \<Rightarrow> client_frame \<Rightarrow> hub \<Rightarrow> hub option" where
  "handle_frame fuel k i fr h =
     (if cf_action fr = ''ping'' then
        Some (upd i (\<lambda>c. send_control ''hub.pong'' (JObj [(''sequence'', JInt (c_last c))]) c) h)
      else if cf_action fr = ''subscribe'' then Some (subscribe_topics i (cf_topics fr) h)
      else if cf_action fr = ''unsubscribe'' then Some (unsubscribe_topics i (cf_topics fr) h)
      else if cf_action fr = ''resume'' then resume fuel k i (cf_after fr) h
      else if cf_action fr = ''typing'' then Some (broadcast_typing i (cf_conversation fr) (cf_typing fr) h)
      else Some (upd i (enqueue (error_frame ''unknown_action'' (''Unsupported action: '' @ cf_action fr))) h))"

text \<open>One round of readLoop: \<open>None\<close> is a frame that does not decode.\<close>

definition read_one :: "nat \<Rightarrow> nat \<Rightarrow> nat \<Rightarrow> client_frame option \<Rightarrow> hub \<Rightarrow> hub option" where
  "read_one fuel k i data h =
     (case data of
        None \<Rightarrow> Some (upd i (enqueue (error_frame ''malformed_frame''
          ''Frames must be JSON objects with an \"action\" field.'')) h)
      | Some fr \<Rightarrow> handle_frame fuel k i fr h)"

section \<open>Everything that can happen to a hub\<close>

text \<open>
  One lock-step of the process: a connection opens or closes, the browser sends a frame,
  a NOTIFY signal arrives for a workspace, the write loop writes or checks its grant.  An
  action on a connection that is not there does nothing.
\<close>

datatype hub_action =
    SetSource event_reader
  | Open nat string grant
  | Close nat
  | Browser nat "client_frame option"
  | Signal string
  | Write nat
  | PolicyTick nat bool

definition hub_act :: "nat \<Rightarrow> nat \<Rightarrow> hub_action \<Rightarrow> hub \<Rightarrow> hub option" where
  "hub_act fuel k a h = (case a of
     SetSource s \<Rightarrow> Some (set_source s h)
   | Open i w g \<Rightarrow> Some (if i \<in> set (h_clients h) then h else serve_open k i w g h)
   | Close i \<Rightarrow> Some (if i \<in> set (h_clients h) then unregister_client i h else h)
   | Browser i data \<Rightarrow> if i \<in> set (h_clients h) then read_one fuel k i data h else Some h
   | Signal w \<Rightarrow> drain fuel k w h
   | Write i \<Rightarrow> Some (if i \<in> set (h_clients h) then upd i write_one h else h)
   | PolicyTick i v \<Rightarrow> Some (if i \<in> set (h_clients h) then upd i (policy_tick v) h else h))"

fun hub_run :: "nat \<Rightarrow> nat \<Rightarrow> hub_action list \<Rightarrow> hub \<Rightarrow> hub option" where
  "hub_run fuel k [] h = Some h"
| "hub_run fuel k (a # as) h =
     (case hub_act fuel k a h of None \<Rightarrow> None | Some h' \<Rightarrow> hub_run fuel (Suc k) as h')"

end
