(* ===== verification/RealtimeSafety.thy ===== *)
theory RealtimeSafety
  imports RealtimeHub
begin

text \<open>
  What the hub keeps true: its registries agree with the connections, a connection never
  holds a topic its grant does not allow, and no connection is ever handed an event of
  another workspace, of a topic outside its grant, or an internal note it may not see.
\<close>

section \<open>Frame rules\<close>

lemma upd_sel [simp]:
  "h_clients (upd i f h) = h_clients h" "h_by_ws (upd i f h) = h_by_ws h"
  "h_viewers (upd i f h) = h_viewers h" "h_cursor (upd i f h) = h_cursor h"
  "h_queue (upd i f h) = h_queue h" "h_source (upd i f h) = h_source h"
  "h_heap (upd i f h) j = (if j = i then f (h_heap h i) else h_heap h j)"
  by (simp_all add: upd_def)

lemma upd_all_sel [simp]:
  "h_clients (upd_all is f h) = h_clients h" "h_by_ws (upd_all is f h) = h_by_ws h"
  "h_viewers (upd_all is f h) = h_viewers h" "h_cursor (upd_all is f h) = h_cursor h"
  "h_queue (upd_all is f h) = h_queue h" "h_source (upd_all is f h) = h_source h"
  by (induction "is" arbitrary: h) (auto simp: upd_all_def)

lemma upd_all_heap:
  "distinct is \<Longrightarrow> h_heap (upd_all is f h) j = (if j \<in> set is then f (h_heap h j) else h_heap h j)"
proof (induction "is" arbitrary: h)
  case (Cons i "is")
  then show ?case by (auto simp: upd_all_def)
qed (simp add: upd_all_def)

lemma set_cursor_sel [simp]:
  "h_clients (set_cursor w n h) = h_clients h" "h_by_ws (set_cursor w n h) = h_by_ws h"
  "h_viewers (set_cursor w n h) = h_viewers h" "h_heap (set_cursor w n h) = h_heap h"
  "h_queue (set_cursor w n h) = h_queue h" "h_source (set_cursor w n h) = h_source h"
  by (simp_all add: set_cursor_def)

lemma cursor_for_set_cursor [simp]:
  "cursor_for (set_cursor w n h) v = (if v = w then max (cursor_for h w) n else cursor_for h v)"
  by (auto simp: set_cursor_def cursor_for_def)

lemma cursor_for_upd [simp]: "cursor_for (upd i f h) w = cursor_for h w"
  "cursor_for (upd_all is f h) w = cursor_for h w"
  by (simp_all add: cursor_for_def)

section \<open>The invariant\<close>

definition granted :: "grant \<Rightarrow> string \<Rightarrow> bool" where
  "granted g t \<longleftrightarrow> t \<in> set (g_allowed g) \<or> topic_workspace \<in> set (g_allowed g)"

lemma allows_granted: "allows g t \<Longrightarrow> granted g t"
  by (auto simp: allows_def granted_def list_ex_iff)

text \<open>A frame a connection of workspace \<open>w\<close> with grant \<open>g\<close> may hold.\<close>

definition frame_ok :: "client \<Rightarrow> frame \<Rightarrow> bool" where
  "frame_ok c p \<longleftrightarrow> (case p of Control _ _ \<Rightarrow> True
     | EventFrame e \<Rightarrow> (\<exists>r q. event_for c r = Some q \<and> e = envelope q \<and>
         r_workspace r = c_workspace c \<and> granted (c_grant c) (topic_for r)))"

definition held :: "client \<Rightarrow> frame set" where
  "held c = set (c_outbound c) \<union> set (c_wire c) \<union> snd ` set (c_deferred c)"

definition client_ok :: "client \<Rightarrow> bool" where
  "client_ok c \<longleftrightarrow> (\<forall>t \<in> set (c_topics c). granted (c_grant c) t) \<and> distinct (c_topics c) \<and>
     (\<forall>p \<in> held c. frame_ok c p)"

text \<open>
  \<open>hub_inv_d D\<close> allows for viewer entries that are about to be removed; the invariant of
  the hub is the case without any.
\<close>

definition hub_inv_d :: "(nat \<times> string) set \<Rightarrow> hub \<Rightarrow> bool" where
  "hub_inv_d D h \<longleftrightarrow>
     distinct (h_clients h) \<and> (\<forall>w. distinct (h_by_ws h w)) \<and> (\<forall>t. distinct (h_viewers h t)) \<and>
     (\<forall>w i. i \<in> set (h_by_ws h w) \<longleftrightarrow> i \<in> set (h_clients h) \<and> c_workspace (h_heap h i) = w) \<and>
     (\<forall>t i. i \<in> set (h_viewers h t) \<longrightarrow> i \<in> set (h_clients h) \<and> is_presence_topic t \<and>
        (t \<in> set (c_topics (h_heap h i)) \<or> (i, t) \<in> D)) \<and>
     (\<forall>i \<in> set (h_clients h). client_ok (h_heap h i))"

abbreviation hub_inv :: "hub \<Rightarrow> bool" where
  "hub_inv \<equiv> hub_inv_d {}"

text \<open>The reader returns rows of the workspace it was asked about.\<close>

definition reader_ok :: "event_reader \<Rightarrow> bool" where
  "reader_ok s \<longleftrightarrow> (\<forall>k w a n rs. s_since s k w a n = Some rs \<longrightarrow> (\<forall>r \<in> set rs. r_workspace r = w))"

definition source_ok :: "hub \<Rightarrow> bool" where
  "source_ok h \<longleftrightarrow> (case h_source h of None \<Rightarrow> True | Some s \<Rightarrow> reader_ok s)"

text \<open>An operation on a connection that leaves its identity and topics alone and adds allowed frames only.\<close>

definition safe_to :: "client \<Rightarrow> client \<Rightarrow> bool" where
  "safe_to c c' \<longleftrightarrow> c_workspace c' = c_workspace c \<and> c_grant c' = c_grant c \<and>
     c_topics c' = c_topics c \<and> (client_ok c \<longrightarrow> client_ok c')"

abbreviation safe_op :: "(client \<Rightarrow> client) \<Rightarrow> client \<Rightarrow> bool" where
  "safe_op f c \<equiv> safe_to c (f c)"

lemma safe_to_refl [simp]: "safe_to c c"
  by (simp add: safe_to_def)

lemma safe_to_trans: "safe_to c c' \<Longrightarrow> safe_to c' c'' \<Longrightarrow> safe_to c c''"
  by (simp add: safe_to_def)

lemma frame_ok_cong:
  "c_grant c = c_grant c' \<Longrightarrow> c_workspace c = c_workspace c' \<Longrightarrow> frame_ok c p = frame_ok c' p"
  by (auto simp: frame_ok_def event_for_def visible_to_def split: frame.splits option.splits)

lemma frame_ok_Control [simp]: "frame_ok c (Control t j)"
  by (simp add: frame_ok_def)

lemma client_okI:
  assumes "client_ok c" "c_grant c' = c_grant c" "c_workspace c' = c_workspace c" "c_topics c' = c_topics c"
    and "held c' \<subseteq> held c \<union> {p. frame_ok c p}"
  shows "client_ok c'"
proof -
  have "frame_ok c' p = frame_ok c p" for p using assms(2,3) by (rule frame_ok_cong)
  then show ?thesis using assms by (auto simp: client_ok_def)
qed

lemma held_enqueue: "held (enqueue p c) \<subseteq> insert p (held c)"
  by (auto simp: held_def enqueue_def)

lemma held_send: "held (send n p c) \<subseteq> insert p (held c)"
  by (auto simp: held_def send_def enqueue_def)

lemma held_write [simp]: "held (write_one c) = held c"
  by (auto simp: held_def write_one_def split: list.splits)

lemma safe_enqueue: "frame_ok c p \<Longrightarrow> safe_op (enqueue p) c"
  using held_enqueue [of p c] by (auto simp: safe_to_def intro: client_okI [of c])

lemma safe_send: "frame_ok c p \<Longrightarrow> safe_op (send n p) c"
  using held_send [of n p c] by (auto simp: safe_to_def intro: client_okI [of c])

lemma safe_write: "safe_op write_one c"
proof -
  have "c_workspace (write_one c) = c_workspace c" "c_grant (write_one c) = c_grant c"
    "c_topics (write_one c) = c_topics c"
    by (simp_all add: write_one_def split: list.splits)
  then show ?thesis by (auto simp: safe_to_def intro: client_okI [of c])
qed

lemma wants_granted: "client_ok c \<Longrightarrow> wants c t \<Longrightarrow> granted (c_grant c) t"
  by (auto simp: client_ok_def wants_def granted_def)

lemma safe_deliver_client:
  assumes "r_workspace r = c_workspace c"
  shows "safe_op (deliver_client r) c"
proof (cases "client_ok c")
  case True
  show ?thesis
  proof (cases "wants c (topic_for r) \<and> event_for c r \<noteq> None")
    case True
    then obtain q where q: "event_for c r = Some q" by blast
    have "frame_ok c (EventFrame (envelope q))"
      using q assms True wants_granted [OF \<open>client_ok c\<close>] by (auto simp: frame_ok_def)
    with True q show ?thesis using safe_send [of c "EventFrame (envelope q)" "r_sequence r"]
      by (simp add: safe_to_def deliver_client_def)
  next
    case False
    then show ?thesis by (auto simp: safe_to_def deliver_client_def)
  qed
next
  case False
  then show ?thesis by (auto simp: safe_to_def deliver_client_def split: option.splits)
qed

lemma safe_enqueue_if_wanted: "safe_op (enqueue_if_wanted t (Control u j)) c"
  using safe_enqueue [of c "Control u j"] by (auto simp: safe_to_def enqueue_if_wanted_def)

text \<open>The hub after a round of safe operations.\<close>

definition same_registry :: "hub \<Rightarrow> hub \<Rightarrow> bool" where
  "same_registry h h' \<longleftrightarrow> h_clients h' = h_clients h \<and> h_by_ws h' = h_by_ws h \<and> h_viewers h' = h_viewers h \<and>
     h_source h' = h_source h \<and>
     (\<forall>i. c_workspace (h_heap h' i) = c_workspace (h_heap h i) \<and> c_grant (h_heap h' i) = c_grant (h_heap h i) \<and>
          c_topics (h_heap h' i) = c_topics (h_heap h i)) \<and>
     (\<forall>i \<in> set (h_clients h). client_ok (h_heap h i) \<longrightarrow> client_ok (h_heap h' i))"

lemma same_registry_refl [simp]: "same_registry h h"
  by (simp add: same_registry_def)

lemma same_registry_trans: "same_registry h h' \<Longrightarrow> same_registry h' h'' \<Longrightarrow> same_registry h h''"
  by (auto simp: same_registry_def)

lemma hub_inv_same: "same_registry h h' \<Longrightarrow> hub_inv_d D h \<Longrightarrow> hub_inv_d D h'"
  unfolding same_registry_def hub_inv_d_def by auto

lemma same_registry_upd: "safe_op f (h_heap h i) \<Longrightarrow> same_registry h (upd i f h)"
  by (auto simp: same_registry_def safe_to_def)

lemma same_registry_upd_all:
  "distinct is \<Longrightarrow> (\<And>i. i \<in> set is \<Longrightarrow> safe_op f (h_heap h i)) \<Longrightarrow> same_registry h (upd_all is f h)"
  by (auto simp: same_registry_def safe_to_def upd_all_heap)

lemma same_registry_set_cursor: "same_registry h (set_cursor w n h)"
  by (simp add: same_registry_def)

lemma same_registry_broadcast_viewers:
  "hub_inv_d D h \<Longrightarrow> same_registry h (broadcast_viewers w t h)"
  unfolding broadcast_viewers_def viewers_frame_def
  by (rule same_registry_upd_all) (simp add: hub_inv_d_def, rule safe_enqueue_if_wanted)

lemma same_registry_deliver:
  assumes "hub_inv_d D h" "r_workspace r = w"
  shows "same_registry h (deliver w r h)"
  unfolding deliver_def
  using assms by (intro same_registry_upd_all safe_deliver_client) (auto simp: hub_inv_d_def)

lemma same_registry_fold:
  assumes "\<And>x h. x \<in> set xs \<Longrightarrow> hub_inv_d D h \<Longrightarrow> same_registry h (f x h)" "hub_inv_d D h"
  shows "same_registry h (fold f xs h)"
  using assms
proof (induction xs arbitrary: h)
  case (Cons x xs)
  have x: "same_registry h (f x h)" using Cons.prems by simp
  have "same_registry (f x h) (fold f xs (f x h))"
    using Cons.prems hub_inv_same [OF x] by (intro Cons.IH) auto
  with x show ?case by (auto intro: same_registry_trans)
qed simp

lemma same_registry_drain_loop:
  assumes "hub_inv_d D h" "reader_ok s" "drain_loop fuel s k w h = Some h'"
  shows "same_registry h h'"
  using assms
proof (induction fuel s k w h arbitrary: h' rule: drain_loop.induct)
  case (2 fuel s k w h)
  show ?case
  proof (cases "has_clients h w")
    case False
    then show ?thesis using "2.prems" same_registry_set_cursor
      by (auto simp: advance_cursor_to_latest_def split: option.splits)
  next
    case True
    show ?thesis
    proof (cases "s_since s k w (cursor_for h w) drain_page_size")
      case None then show ?thesis using True "2.prems" by simp
    next
      case (Some records)
      show ?thesis
      proof (cases "records = []")
        case True
        then show ?thesis using \<open>has_clients h w\<close> Some "2.prems" by simp
      next
        case False
        let ?h1 = "fold (deliver w) records h"
        let ?h2 = "set_cursor w (r_sequence (last records)) ?h1"
        have ws: "\<forall>r \<in> set records. r_workspace r = w"
          using Some "2.prems"(2) unfolding reader_ok_def by blast
        have "same_registry h ?h1"
          by (rule same_registry_fold) (use ws "2.prems"(1) same_registry_deliver in auto)
        then have h2: "same_registry h ?h2" by (auto intro: same_registry_trans same_registry_set_cursor)
        show ?thesis
        proof (cases "int (length records) < drain_page_size")
          case True
          then show ?thesis using "2.prems"(3) \<open>has_clients h w\<close> Some False h2 by simp
        next
          case nf: False
          have d: "drain_loop fuel s (Suc k) w ?h2 = Some h'"
            using "2.prems"(3) \<open>has_clients h w\<close> Some False nf by simp
          have "same_registry ?h2 h'"
            by (rule "2.IH" [OF _ Some False refl refl nf hub_inv_same [OF h2 "2.prems"(1)] "2.prems"(2) d])
              (use True in simp)
          with h2 show ?thesis by (rule same_registry_trans)
        qed
      qed
    qed
  qed
qed simp

section \<open>Resume keeps a connection safe\<close>

lemma frame_ok_safe: "safe_to c c' \<Longrightarrow> frame_ok c' p = frame_ok c p"
  by (rule frame_ok_cong) (simp_all add: safe_to_def)

lemma safe_fold_enqueue: "\<forall>p \<in> set ps. frame_ok c p \<Longrightarrow> safe_to c (fold enqueue ps c)"
proof (induction ps arbitrary: c)
  case (Cons p ps)
  have p: "safe_to c (enqueue p c)" using Cons.prems safe_enqueue by simp
  have "safe_to (enqueue p c) (fold enqueue ps (enqueue p c))"
    by (rule Cons.IH) (use Cons.prems frame_ok_safe [OF p] in auto)
  with p show ?case by (auto intro: safe_to_trans)
qed simp

lemma safe_to_last: "safe_to c (c\<lparr>c_last := n\<rparr>)"
  by (auto simp: safe_to_def held_def intro: client_okI [of c])

lemma safe_begin_sync: "safe_to c (begin_sync c)"
  by (auto simp: safe_to_def begin_sync_def held_def intro: client_okI [of c])

lemma safe_replay_record:
  assumes "r_workspace r = c_workspace c"
  shows "safe_to c (snd (replay_record r (n, c)))"
proof (cases "client_ok c \<and> wants c (topic_for r)")
  case True
  show ?thesis
  proof (cases "event_for c r")
    case (Some q)
    have ok: "frame_ok c (EventFrame (envelope q))"
      using Some assms True wants_granted by (auto simp: frame_ok_def)
    let ?c = "c\<lparr>c_last := r_sequence r\<rparr>"
    have "frame_ok ?c (EventFrame (envelope q))" using ok frame_ok_safe [OF safe_to_last] by simp
    then have "safe_to c (enqueue (EventFrame (envelope q)) ?c)"
      using safe_enqueue safe_to_last safe_to_trans by blast
    then show ?thesis using True Some by (simp add: replay_record_def advance_def)
  qed (simp add: replay_record_def)
next
  case False
  then show ?thesis
    by (auto simp: safe_to_def replay_record_def advance_def split: option.splits)
qed

lemma safe_fold_replay:
  "\<forall>r \<in> set rs. r_workspace r = c_workspace c \<Longrightarrow> safe_to c (snd (fold replay_record rs (n, c)))"
proof (induction rs arbitrary: n c)
  case (Cons r rs)
  obtain n' c' where r: "replay_record r (n, c) = (n', c')" by fastforce
  have s: "safe_to c c'" using safe_replay_record [of r c n] Cons.prems r by simp
  then have "safe_to c' (snd (fold replay_record rs (n', c')))"
    using Cons.prems by (intro Cons.IH) (auto simp: safe_to_def)
  with s r show ?case by (auto intro: safe_to_trans)
qed simp

fun outcome_client :: "resume_outcome \<Rightarrow> client" where
  "outcome_client (ResumeFailed c) = c"
| "outcome_client (ResumeDone n t c) = c"

lemma safe_resume_loop:
  assumes "reader_ok s" "resume_loop fuel s k from n c = Some res"
  shows "safe_to c (outcome_client res)"
  using assms
proof (induction fuel s k "from" n c arbitrary: res rule: resume_loop.induct)
  case (2 fuel s k "from" n c)
  show ?case
  proof (cases "s_since s k (c_workspace c) from resume_page_size")
    case None then show ?thesis using "2.prems" by auto
  next
    case (Some records)
    show ?thesis
    proof (cases "records = []")
      case True then show ?thesis using Some "2.prems" by auto
    next
      case False
      obtain n' c' where f: "fold replay_record records (n, c) = (n', c')" by fastforce
      have "\<forall>r \<in> set records. r_workspace r = c_workspace c"
        using Some "2.prems"(1) unfolding reader_ok_def by blast
      then have c': "safe_to c c'" using safe_fold_replay [of records c n] f by simp
      show ?thesis
      proof (cases "int (length records) < resume_page_size \<or> n' \<ge> max_resume_events")
        case True
        then show ?thesis using "2.prems"(2) Some False f c' by (auto split: if_splits)
      next
        case go: False
        then have nf: "\<not> int (length records) < resume_page_size" "\<not> n' \<ge> max_resume_events" by auto
        have l: "resume_loop fuel s (Suc k) (r_sequence (last records)) n' c' = Some res"
          using "2.prems"(2) Some False f go by simp
        have "safe_to c' (outcome_client res)"
          by (rule "2.IH" [OF Some False f [symmetric] nf "2.prems"(1) l])
        with c' show ?thesis by (rule safe_to_trans)
      qed
    qed
  qed
qed simp

lemma keep_deferred_subset: "keep_deferred ds l = (ps, l') \<Longrightarrow> set ps \<subseteq> snd ` set ds"
proof (induction ds l arbitrary: ps l' rule: keep_deferred.induct)
  case (2 n p ds l)
  show ?case
  proof (cases "n \<le> l")
    case True
    then have "set ps \<subseteq> snd ` set ds" using "2.prems" by (intro "2.IH"(1)) auto
    then show ?thesis by auto
  next
    case False
    obtain qs m where q: "keep_deferred ds n = (qs, m)" by fastforce
    have "set qs \<subseteq> snd ` set ds" by (rule "2.IH"(2) [OF False q])
    then show ?thesis using "2.prems" False q by auto
  qed
qed auto

lemma end_sync_safe:
  assumes "end_sync c = (kept, c')"
  shows "safe_to c c'" "client_ok c \<Longrightarrow> \<forall>p \<in> set kept. frame_ok c' p"
proof -
  obtain l where k: "keep_deferred (sort_key fst (c_deferred c)) (c_last c) = (kept, l)"
      and c': "c' = c\<lparr>c_syncing := False, c_deferred := [], c_last := l\<rparr>"
    using assms by (auto simp: end_sync_def split: prod.splits)
  show s: "safe_to c c'" unfolding c' by (auto simp: safe_to_def held_def intro: client_okI [of c])
  show "client_ok c \<Longrightarrow> \<forall>p \<in> set kept. frame_ok c' p"
    using keep_deferred_subset [OF k] frame_ok_safe [OF s] by (auto simp: client_ok_def held_def)
qed

lemma safe_resume_client:
  assumes "case src of None \<Rightarrow> True | Some s \<Rightarrow> reader_ok s" "resume_client fuel src k a c = Some c'"
    and "client_ok c"
  shows "safe_to c c'"
proof (cases src)
  case None
  then show ?thesis using assms safe_enqueue by (auto simp: resume_client_def error_frame_def)
next
  case (Some s)
  let ?from = "if a < 0 then 0 else a"
  let ?c0 = "rewind ?from (begin_sync c)"
  have c0: "safe_to c ?c0"
    unfolding rewind_def by (rule safe_to_trans [OF safe_begin_sync safe_to_last])
  obtain res where l: "resume_loop fuel s k ?from 0 ?c0 = Some res"
    using assms(2) Some by (auto simp: resume_client_def Let_def split: option.splits)
  have "reader_ok s" using assms(1) Some by simp
  then have c1: "safe_to c (outcome_client res)"
    using safe_resume_loop [OF _ l] c0 safe_to_trans by blast
  show ?thesis
  proof (cases res)
    case (ResumeFailed c1)
    obtain kept c2 where e: "end_sync c1 = (kept, c2)" by fastforce
    have "safe_to c c2" using c1 end_sync_safe(1) [OF e] ResumeFailed safe_to_trans by fastforce
    then show ?thesis
      using assms(2) Some l ResumeFailed e safe_enqueue safe_to_trans
      by (fastforce simp: resume_client_def Let_def error_frame_def)
  next
    case (ResumeDone n t c1)
    obtain kept c2 where e: "end_sync c1 = (kept, c2)" by fastforce
    have c1': "safe_to c c1" using c1 ResumeDone by simp
    have c2: "safe_to c c2" using c1' end_sync_safe(1) [OF e] safe_to_trans by blast
    have "client_ok c1" using c1' assms(3) by (simp add: safe_to_def)
    then have "safe_to c (fold enqueue kept c2)"
      using safe_fold_enqueue end_sync_safe(2) [OF e] c2 safe_to_trans by blast
    then show ?thesis
      using assms(2) Some l ResumeDone e safe_enqueue safe_to_trans
      by (fastforce simp: resume_client_def Let_def resumed_frame_def)
  qed
qed

section \<open>Every action keeps the invariant\<close>

lemma hub_inv_dD:
  assumes "hub_inv_d D h"
  shows "distinct (h_clients h)" "distinct (h_by_ws h w)" "distinct (h_viewers h t)"
    "i \<in> set (h_by_ws h w) \<longleftrightarrow> i \<in> set (h_clients h) \<and> c_workspace (h_heap h i) = w"
    "i \<in> set (h_clients h) \<Longrightarrow> client_ok (h_heap h i)"
    "i \<in> set (h_viewers h t) \<Longrightarrow> i \<in> set (h_clients h) \<and> is_presence_topic t \<and>
        (t \<in> set (c_topics (h_heap h i)) \<or> (i, t) \<in> D)"
  using assms by (auto simp: hub_inv_d_def)

lemma hub_inv_new_hub: "hub_inv (new_hub n heap)"
  by (simp add: hub_inv_d_def new_hub_def)

lemma client_ok_new_client: "client_ok (new_client w g q)"
proof -
  have "distinct (fold (\<lambda>t ts. if allows g t then add_topic t ts else ts) xs ts)" if "distinct ts" for xs ts
    using that by (induction xs arbitrary: ts) (auto simp: add_topic_def)
  then have "distinct (c_topics (new_client w g q))" by (simp add: new_client_def)
  then show ?thesis
    using topics_new_client allows_granted
    by (auto simp: client_ok_def held_def) (auto simp: new_client_def)
qed

lemma hub_inv_register:
  assumes "hub_inv h" "i \<notin> set (h_clients h)" "client_ok c"
  shows "hub_inv (register_client i (h\<lparr>h_heap := (h_heap h)(i := c)\<rparr>))"
  using assms unfolding hub_inv_d_def register_client_def Let_def by auto

lemma fold_remove_viewer_locked:
  "fold (remove_viewer_locked i) ts h =
     h\<lparr>h_viewers := (\<lambda>t. if t \<in> set ts then removeAll i (h_viewers h t) else h_viewers h t)\<rparr>"
proof (induction ts arbitrary: h)
  case (Cons t ts)
  show ?case unfolding fold.simps comp_def Cons.IH
    by (simp add: remove_viewer_locked_def fun_eq_iff removeAll_filter_not_eq)
qed simp

lemma hub_inv_detach:
  assumes "hub_inv h" "i \<in> set (h_clients h)"
  shows "hub_inv (fold (remove_viewer_locked i) (filter is_presence_topic (topic_list (h_heap h i)))
     (drop_from_workspace i (h\<lparr>h_clients := removeAll i (h_clients h)\<rparr>)))"
proof -
  have "i \<in> set (h_by_ws h (c_workspace (h_heap h i)))" using hub_inv_dD(4) [OF assms(1)] assms(2) by simp
  then have ne: "h_by_ws h (c_workspace (h_heap h i)) \<noteq> []" by auto
  have only: "j = i" if "removeAll i (h_by_ws h (c_workspace (h_heap h i))) = []"
    "j \<in> set (h_clients h)" "c_workspace (h_heap h j) = c_workspace (h_heap h i)" for j
  proof -
    have "j \<in> set (h_by_ws h (c_workspace (h_heap h i)))" using hub_inv_dD(4) [OF assms(1)] that by simp
    moreover have "set (h_by_ws h (c_workspace (h_heap h i))) - {i} = {}"
      using arg_cong [OF that(1), of set] by simp
    ultimately show ?thesis by blast
  qed
  show ?thesis
    using assms ne only unfolding hub_inv_d_def fold_remove_viewer_locked drop_from_workspace_def Let_def
    by (auto simp: topic_list_def distinct_removeAll)
qed

lemma hub_inv_unregister:
  assumes "hub_inv h" "i \<in> set (h_clients h)"
  shows "hub_inv (unregister_client i h)"
  unfolding unregister_client_def Let_def
  by (rule hub_inv_same [OF same_registry_fold hub_inv_detach [OF assms]])
    (auto intro: same_registry_broadcast_viewers hub_inv_detach [OF assms])

lemma hub_inv_add_viewer:
  assumes "hub_inv h" "i \<in> set (h_clients h)" "t \<in> set (c_topics (h_heap h i))"
  shows "hub_inv (add_viewer i t h) \<and> h_clients (add_viewer i t h) = h_clients h \<and>
    (\<forall>j. c_topics (h_heap (add_viewer i t h) j) = c_topics (h_heap h j)) \<and>
    h_source (add_viewer i t h) = h_source h"
proof (cases "is_presence_topic t")
  case True
  let ?h1 = "h\<lparr>h_viewers := (h_viewers h)(t := (if i \<in> set (h_viewers h t) then h_viewers h t
            else h_viewers h t @ [i]))\<rparr>"
  have h1: "hub_inv ?h1" using assms True unfolding hub_inv_d_def by auto
  have b: "same_registry ?h1 (broadcast_viewers (c_workspace (h_heap h i)) t ?h1)"
    by (rule same_registry_broadcast_viewers [OF h1])
  show ?thesis using hub_inv_same [OF b h1] b True by (simp add: add_viewer_def same_registry_def)
qed (use assms in \<open>simp add: add_viewer_def\<close>)

lemma hub_inv_fold_add_viewer:
  assumes "hub_inv h" "i \<in> set (h_clients h)" "set ts \<subseteq> set (c_topics (h_heap h i))"
  shows "hub_inv (fold (add_viewer i) ts h) \<and> h_clients (fold (add_viewer i) ts h) = h_clients h \<and>
    h_source (fold (add_viewer i) ts h) = h_source h"
  using assms
proof (induction ts arbitrary: h)
  case (Cons t ts)
  have a: "hub_inv (add_viewer i t h)" "h_clients (add_viewer i t h) = h_clients h"
    "\<And>j. c_topics (h_heap (add_viewer i t h) j) = c_topics (h_heap h j)" "h_source (add_viewer i t h) = h_source h"
    using hub_inv_add_viewer [of h i t] Cons.prems by auto
  have "hub_inv (fold (add_viewer i) ts (add_viewer i t h)) \<and>
      h_clients (fold (add_viewer i) ts (add_viewer i t h)) = h_clients (add_viewer i t h) \<and>
      h_source (fold (add_viewer i) ts (add_viewer i t h)) = h_source (add_viewer i t h)"
    by (rule Cons.IH) (use a Cons.prems in auto)
  then show ?case using a by simp
qed simp

lemma hub_inv_remove_viewer:
  assumes "hub_inv_d (insert (i, t) D) h" "is_presence_topic t"
  shows "hub_inv_d D (remove_viewer i t h) \<and> h_source (remove_viewer i t h) = h_source h"
proof -
  let ?h1 = "remove_viewer_locked i t h"
  have h1: "hub_inv_d D ?h1"
    using assms(1) unfolding hub_inv_d_def remove_viewer_locked_def
    by (auto simp: distinct_removeAll split: if_splits)
  have b: "same_registry ?h1 (broadcast_viewers (c_workspace (h_heap h i)) t ?h1)"
    by (rule same_registry_broadcast_viewers [OF h1])
  show ?thesis using hub_inv_same [OF b h1] b assms(2)
    by (simp add: remove_viewer_def same_registry_def remove_viewer_locked_def)
qed

lemma hub_inv_d_presence: "hub_inv_d (insert (i, t) D) h \<Longrightarrow> \<not> is_presence_topic t \<Longrightarrow> hub_inv_d D h"
  unfolding hub_inv_d_def by blast

lemma hub_inv_fold_remove_viewer:
  "hub_inv_d (Pair i ` set ts) h \<Longrightarrow> hub_inv (fold (remove_viewer i) ts h) \<and>
     h_source (fold (remove_viewer i) ts h) = h_source h"
proof (induction ts arbitrary: h)
  case (Cons t ts)
  have "hub_inv_d (insert (i, t) (Pair i ` set ts)) h" using Cons.prems by simp
  then have "hub_inv_d (Pair i ` set ts) (remove_viewer i t h) \<and> h_source (remove_viewer i t h) = h_source h"
    using hub_inv_remove_viewer hub_inv_d_presence by (cases "is_presence_topic t") (auto simp: remove_viewer_def)
  then show ?case using Cons.IH by simp
qed simp

lemma subscribe_loop_topics:
  "subscribe_loop g topics ts = (refused, added, ts') \<Longrightarrow>
     set ts' = set ts \<union> {t \<in> set topics. allows g t} \<and> set added \<subseteq> set ts' \<and>
     (distinct ts \<longrightarrow> distinct ts') \<and> set refused = {t \<in> set topics. \<not> allows g t}"
proof (induction g topics ts arbitrary: refused added ts' rule: subscribe_loop.induct)
  case (2 g t topics ts)
  show ?case
  proof (cases "allows g t")
    case False
    then show ?thesis using 2 by (auto split: prod.splits)
  next
    case True
    obtain rf ad u where l: "subscribe_loop g topics (add_topic t ts) = (rf, ad, u)"
      by (metis prod_cases3)
    have "set u = set (add_topic t ts) \<union> {t \<in> set topics. allows g t} \<and> set ad \<subseteq> set u \<and>
        (distinct (add_topic t ts) \<longrightarrow> distinct u) \<and> set rf = {t \<in> set topics. \<not> allows g t}"
      using "2.IH"(2) True l by auto
    moreover have "refused = rf" "ts' = u" "added = (if t \<in> set ts then ad else t # ad)"
      using "2.prems" True l by auto
    ultimately show ?thesis using True by (auto simp: add_topic_def split: if_splits)
  qed
qed auto

lemma same_registry_enqueue_control:
  "same_registry h (upd i (\<lambda>c. enqueue (Control (f c) (j c)) c) h)"
  by (rule same_registry_upd) (rule safe_enqueue, simp)

lemma hub_inv_subscribe:
  assumes "hub_inv h" "i \<in> set (h_clients h)"
  shows "hub_inv (subscribe_topics i topics h) \<and> h_source (subscribe_topics i topics h) = h_source h"
proof -
  let ?c = "h_heap h i"
  obtain refused added ts where l: "subscribe_loop (c_grant ?c) topics (c_topics ?c) = (refused, added, ts)"
    by (metis prod_cases3)
  note l' = subscribe_loop_topics [OF l]
  let ?h1 = "upd i (\<lambda>c. c\<lparr>c_topics := ts\<rparr>) h"
  have "client_ok (?c\<lparr>c_topics := ts\<rparr>)"
    using hub_inv_dD(5) [OF assms] l' allows_granted frame_ok_cong [of ?c "?c\<lparr>c_topics := ts\<rparr>"]
    by (auto simp: client_ok_def held_def)
  then have h1: "hub_inv ?h1" using assms l' unfolding hub_inv_d_def by auto
  let ?h2 = "if refused \<noteq> [] then upd i (enqueue (forbidden_frame refused)) ?h1 else ?h1"
  have s2: "same_registry ?h1 ?h2"
    using same_registry_enqueue_control [of ?h1 i] by (auto simp: forbidden_frame_def)
  have h2: "hub_inv ?h2" by (rule hub_inv_same [OF s2 h1])
  have "hub_inv (fold (add_viewer i) added ?h2) \<and> h_source (fold (add_viewer i) added ?h2) = h_source ?h2"
    using hub_inv_fold_add_viewer [OF h2, of i added] assms(2) l' s2 by (auto simp: same_registry_def)
  moreover have "h_source ?h2 = h_source h" by simp
  ultimately show ?thesis
    using l hub_inv_same [OF same_registry_enqueue_control]
    by (simp add: subscribe_topics_def Let_def topics_frame_def)
qed

lemma unsubscribe_loop_topics:
  "unsubscribe_loop topics ts = (removed, ts') \<Longrightarrow>
     set ts' = set ts - set topics \<and> set ts \<subseteq> set ts' \<union> set removed \<and> (distinct ts \<longrightarrow> distinct ts')"
proof (induction topics ts arbitrary: removed ts' rule: unsubscribe_loop.induct)
  case (2 t topics ts)
  obtain rm u where l: "unsubscribe_loop topics (removeAll t ts) = (rm, u)" by fastforce
  have "set u = set (removeAll t ts) - set topics \<and> set (removeAll t ts) \<subseteq> set u \<union> set rm \<and>
      (distinct (removeAll t ts) \<longrightarrow> distinct u)"
    by (rule "2.IH" [OF l])
  moreover have "ts' = u" "removed = (if t \<in> set ts then t # rm else rm)" using "2.prems" l by auto
  ultimately show ?case by (auto simp: distinct_removeAll split: if_splits)
qed auto

lemma hub_inv_unsubscribe:
  assumes "hub_inv h" "i \<in> set (h_clients h)"
  shows "hub_inv (unsubscribe_topics i topics h) \<and> h_source (unsubscribe_topics i topics h) = h_source h"
proof -
  let ?c = "h_heap h i"
  obtain removed ts where l: "unsubscribe_loop topics (c_topics ?c) = (removed, ts)" by fastforce
  note l' = unsubscribe_loop_topics [OF l]
  let ?h1 = "upd i (\<lambda>c. c\<lparr>c_topics := ts\<rparr>) h"
  have "client_ok (?c\<lparr>c_topics := ts\<rparr>)"
    using hub_inv_dD(5) [OF assms] l' frame_ok_cong [of ?c "?c\<lparr>c_topics := ts\<rparr>"]
    by (auto simp: client_ok_def held_def)
  then have "hub_inv_d (Pair i ` set removed) ?h1"
    using assms l' unfolding hub_inv_d_def by (auto 0 3 split: if_splits)
  from hub_inv_fold_remove_viewer [OF this]
  show ?thesis using l hub_inv_same [OF same_registry_enqueue_control]
    by (simp add: unsubscribe_topics_def Let_def topics_frame_def)
qed

lemma same_registry_typing:
  "hub_inv h \<Longrightarrow> same_registry h (broadcast_typing i cid typing h)"
  unfolding broadcast_typing_def Let_def typing_frame_def
  by (auto intro!: same_registry_upd_all safe_enqueue_if_wanted simp: hub_inv_d_def)

lemma same_registry_resume:
  assumes "hub_inv h" "source_ok h" "i \<in> set (h_clients h)" "resume fuel k i a h = Some h'"
  shows "same_registry h h'"
proof -
  obtain c where c: "resume_client fuel (h_source h) k a (h_heap h i) = Some c" "h' = upd i (\<lambda>_. c) h"
    using assms(4) by (auto simp: resume_def)
  have "safe_to (h_heap h i) c"
    using safe_resume_client [OF _ c(1)] assms hub_inv_dD(5) by (auto simp: source_ok_def)
  then show ?thesis unfolding c(2) by (intro same_registry_upd) simp
qed

lemma hub_inv_read_one:
  assumes "hub_inv h" "source_ok h" "i \<in> set (h_clients h)" "read_one fuel k i data h = Some h'"
  shows "hub_inv h' \<and> h_source h' = h_source h"
proof (cases data)
  case None
  then show ?thesis using assms hub_inv_same [OF same_registry_enqueue_control]
    by (auto simp: read_one_def error_frame_def)
next
  case (Some fr)
  have ctl: "hub_inv (upd i (\<lambda>c. enqueue (Control (f c) (j c)) c) h)" for f j
    by (rule hub_inv_same [OF same_registry_enqueue_control assms(1)])
  have h': "handle_frame fuel k i fr h = Some h'" using assms(4) Some by (simp add: read_one_def)
  consider "cf_action fr = ''subscribe''" | "cf_action fr = ''unsubscribe''" | "cf_action fr = ''resume''"
    | "cf_action fr = ''typing''"
    | "cf_action fr \<notin> {''subscribe'', ''unsubscribe'', ''resume'', ''typing''}" by auto
  then show ?thesis
  proof cases
    case 1 then show ?thesis using h' hub_inv_subscribe [OF assms(1,3)] by (auto simp: handle_frame_def)
  next
    case 2 then show ?thesis using h' hub_inv_unsubscribe [OF assms(1,3)] by (auto simp: handle_frame_def)
  next
    case 3
    then have s: "same_registry h h'"
      using h' same_registry_resume [OF assms(1-3)] by (simp add: handle_frame_def)
    then show ?thesis using hub_inv_same [OF s assms(1)] by (simp add: same_registry_def)
  next
    case 4
    then have s: "same_registry h h'"
      using h' same_registry_typing [OF assms(1)] by (auto simp: handle_frame_def)
    then show ?thesis using hub_inv_same [OF s assms(1)] by (simp add: same_registry_def)
  next
    case 5
    then show ?thesis using h' ctl by (auto simp: handle_frame_def send_control_def error_frame_def split: if_splits)
  qed
qed

lemma hub_inv_serve_open:
  assumes "hub_inv h" "i \<notin> set (h_clients h)"
  shows "hub_inv (serve_open k i w g h) \<and> h_source (serve_open k i w g h) = h_source h"
proof -
  let ?h1 = "register_client i (h\<lparr>h_heap := (h_heap h)(i := new_client w g (h_queue h))\<rparr>)"
  have h1: "hub_inv ?h1" by (rule hub_inv_register [OF assms client_ok_new_client])
  have s1: "h_source ?h1 = h_source h" by (simp add: register_client_def Let_def)
  have sq: "safe_op (set_sequence n) c" for n c
    using safe_to_last [of c n] by (auto simp: set_sequence_def)
  let ?h2 = "case h_source ?h1 of None \<Rightarrow> ?h1 | Some s \<Rightarrow> (case s_latest s k w of None \<Rightarrow> ?h1
                    | Some n \<Rightarrow> set_cursor w n (upd i (set_sequence n) ?h1))"
  have sc: "same_registry ?h1 (set_cursor w n (upd i (set_sequence n) ?h1))" for n
    by (rule same_registry_trans [OF same_registry_upd same_registry_set_cursor]) (rule sq)
  have s2: "same_registry ?h1 ?h2"
    by (simp add: sc split: option.split)
  have h2: "hub_inv ?h2" by (rule hub_inv_same [OF s2 h1])
  then have "hub_inv (upd i (\<lambda>c. enqueue (ready_frame c) c) ?h2)"
    using hub_inv_same [OF same_registry_enqueue_control] by (simp add: ready_frame_def)
  moreover have "h_source ?h2 = h_source h" using s1 s2 by (simp add: same_registry_def)
  ultimately show ?thesis by (simp add: serve_open_def Let_def)
qed

definition action_ok :: "hub_action \<Rightarrow> bool" where
  "action_ok a \<longleftrightarrow> (case a of SetSource s \<Rightarrow> reader_ok s | _ \<Rightarrow> True)"

lemma h_source_fold_broadcast: "h_source (fold (broadcast_viewers w) ts h) = h_source h"
  by (induction ts arbitrary: h) (auto simp: broadcast_viewers_def)

lemma safe_policy_tick: "safe_op (policy_tick v) c"
  by (auto simp: safe_to_def policy_tick_def held_def intro: client_okI [of c])

lemma source_ok_cong: "h_source h' = h_source h \<Longrightarrow> source_ok h' = source_ok h"
  by (simp add: source_ok_def)

lemma hub_inv_act_same:
  "same_registry h h' \<Longrightarrow> hub_inv h \<Longrightarrow> source_ok h \<Longrightarrow> hub_inv h' \<and> source_ok h'"
  by (metis hub_inv_same same_registry_def source_ok_def)

lemma h_source_unregister: "h_source (unregister_client i h) = h_source h"
  by (simp add: unregister_client_def Let_def h_source_fold_broadcast fold_remove_viewer_locked drop_from_workspace_def)

lemma hub_act_inv:
  assumes inv: "hub_inv h" and src: "source_ok h" and "action_ok a" and act: "hub_act fuel k a h = Some h'"
  shows "hub_inv h' \<and> source_ok h'"
proof (cases a)
  case (SetSource s)
  then have "h' = set_source s h" "reader_ok s" using assms(3) act by (simp_all add: hub_act_def action_ok_def)
  then show ?thesis using inv by (simp add: set_source_def hub_inv_d_def source_ok_def)
next
  case (Open i w g)
  show ?thesis
  proof (cases "i \<in> set (h_clients h)")
    case False
    then have "h' = serve_open k i w g h" using Open act by (simp add: hub_act_def)
    then show ?thesis using hub_inv_serve_open [OF inv False] src source_ok_cong by metis
  qed (use Open act inv src in \<open>simp add: hub_act_def\<close>)
next
  case (Close i)
  show ?thesis
  proof (cases "i \<in> set (h_clients h)")
    case True
    then have "h' = unregister_client i h" using Close act by (simp add: hub_act_def)
    then show ?thesis using hub_inv_unregister [OF inv True] src source_ok_cong h_source_unregister by metis
  qed (use Close act inv src in \<open>simp add: hub_act_def\<close>)
next
  case (Browser i data)
  show ?thesis
  proof (cases "i \<in> set (h_clients h)")
    case True
    then have "read_one fuel k i data h = Some h'" using Browser act by (simp add: hub_act_def)
    from hub_inv_read_one [OF inv src True this] show ?thesis using src source_ok_cong by metis
  qed (use Browser act inv src in \<open>simp add: hub_act_def\<close>)
next
  case (Signal w)
  show ?thesis
  proof (cases "h_source h")
    case None
    then show ?thesis using Signal act inv src by (simp add: hub_act_def drain_def)
  next
    case (Some s)
    have "drain_loop fuel s k w h = Some h'" "reader_ok s"
      using Signal act Some src by (simp_all add: hub_act_def drain_def source_ok_def)
    then have "same_registry h h'" using same_registry_drain_loop [OF inv] by blast
    then show ?thesis using inv src by (rule hub_inv_act_same)
  qed
next
  case (Write i)
  have "h' = (if i \<in> set (h_clients h) then upd i write_one h else h)" using Write act by (simp add: hub_act_def)
  then have "same_registry h h'" using same_registry_upd [where f = write_one, OF safe_write] by simp
  then show ?thesis using inv src by (rule hub_inv_act_same)
next
  case (PolicyTick i v)
  have "h' = (if i \<in> set (h_clients h) then upd i (policy_tick v) h else h)"
    using PolicyTick act by (simp add: hub_act_def)
  then have "same_registry h h'" using same_registry_upd [where f = "policy_tick v", OF safe_policy_tick] by simp
  then show ?thesis using inv src by (rule hub_inv_act_same)
qed

lemma hub_run_inv:
  "hub_inv h \<Longrightarrow> source_ok h \<Longrightarrow> list_all action_ok as \<Longrightarrow> hub_run fuel k as h = Some h' \<Longrightarrow>
     hub_inv h' \<and> source_ok h'"
proof (induction fuel k as h arbitrary: h' rule: hub_run.induct)
  case (2 fuel k a as h)
  obtain h1 where h1: "hub_act fuel k a h = Some h1" "hub_run fuel (Suc k) as h1 = Some h'"
    using "2.prems"(4) by (auto split: option.splits)
  have "hub_inv h1 \<and> source_ok h1" using hub_act_inv [OF _ _ _ h1(1)] "2.prems" by auto
  then show ?case using "2.IH" [OF h1(1)] h1(2) "2.prems"(3) by auto
qed auto

section \<open>The event log as the source\<close>

text \<open>events.Log behind the EventSource interface: reads of one database state never fail.\<close>

definition log_reader :: "'x event_db_scheme \<Rightarrow> event_reader" where
  "log_reader d = \<lparr> s_since = (\<lambda>k w a n. Some (since d w a n)), s_latest = (\<lambda>k w. Some (latest_sequence d w)) \<rparr>"

lemma since_workspace: "r \<in> set (since d w a n) \<Longrightarrow> r_workspace r = w"
  by (auto simp: since_def dest: in_set_takeD)

lemma reader_ok_log [simp]: "reader_ok (log_reader d)"
  by (auto simp: reader_ok_def log_reader_def since_workspace)

section \<open>What a connection may hold\<close>

lemma frame_ok_visitor:
  assumes "frame_ok c (EventFrame e)" "c_grant c = visitor_grant ids"
  shows "\<exists>cid \<in> set ids. r_workspace e = c_workspace c \<and>
     r_entity_type e @ '':'' @ r_entity_id e = ''conversation:'' @ cid \<and>
     \<not> (r_type e = message_created \<and> partial_kind (r_data e) = Some ''note'')"
proof -
  obtain r where r: "event_for c r = Some r" "e = envelope r" "r_workspace r = c_workspace c"
    "granted (c_grant c) (topic_for r)"
    using assms by (auto simp: frame_ok_def event_for_def visitor_grant_def Let_def split: if_splits)
  have "topic_workspace \<notin> (\<lambda>i. ''conversation:'' @ i) ` set ids"
    by (auto simp: topic_workspace_def)
  then obtain cid where c: "cid \<in> set ids" "topic_for r = ''conversation:'' @ cid"
    using r(4) assms(2) by (auto simp: granted_def visitor_grant_def Let_def)
  have "visible_to c r" using r(1) by (simp add: event_for_def split: if_splits)
  then have "\<not> (r_type r = message_created \<and> partial_kind (r_data r) = Some ''note'')"
    using assms(2) by (auto simp: visible_to_def visitor_grant_def Let_def split: if_splits)
  with r c show ?thesis
    by (intro bexI [of _ cid]) (auto simp: topic_for_def envelope_def split: if_splits)
qed

lemma hub_run_from_start:
  assumes "list_all action_ok as" "hub_run fuel k as (new_hub q heap) = Some h"
  shows "hub_inv h"
  using hub_run_inv [OF hub_inv_new_hub _ assms] by (simp add: source_ok_def new_hub_def)

section \<open>Properties\<close>

text \<open>
  The registries agree in every reachable hub.  A connection is listed once; it is in
  the broadcast set of its own workspace and of no other; it is counted as a viewer only
  of conversations and tickets it is connected and subscribed to, and it is subscribed
  only to topics its grant names (or to anything, with the workspace topic).
\<close>

theorem registries_agree:
  assumes "list_all action_ok as" and "hub_run fuel k as (new_hub q heap) = Some h"
  shows "distinct (h_clients h) \<and>
    (\<forall>w i. i \<in> set (h_by_ws h w) \<longleftrightarrow> i \<in> set (h_clients h) \<and> c_workspace (h_heap h i) = w) \<and>
    (\<forall>t i. i \<in> set (h_viewers h t) \<longrightarrow>
      i \<in> set (h_clients h) \<and> is_presence_topic t \<and> t \<in> set (c_topics (h_heap h i))) \<and>
    (\<forall>i \<in> set (h_clients h). \<forall>t \<in> set (c_topics (h_heap h i)). granted (c_grant (h_heap h i)) t)"
  using hub_run_from_start [OF assms] by (auto simp: hub_inv_d_def client_ok_def)

definition demo_log :: event_db where
  "demo_log = apply_row (sample_row ''evt_1'' ''wrk_1'' 1) empty_log"

text \<open>A visitor and an agent connect, the agent opens the conversation, an event arrives.\<close>

definition demo_actions :: "hub_action list" where
  "demo_actions = [SetSource (log_reader empty_log), Open 1 ''wrk_1'' (visitor_grant [''cnv_1'']),
     Open 2 ''wrk_1'' (agent_grant ''mem_1'' ''Ada''),
     Browser 2 (Some \<lparr>cf_action = ''subscribe'', cf_topics = [''conversation:cnv_1''], cf_after = 0,
       cf_conversation = '''', cf_typing = False\<rparr>),
     SetSource (log_reader demo_log), Signal ''wrk_1'']"

definition demo_hub :: hub where
  "demo_hub = the (hub_run 2 0 demo_actions (new_hub 8 (\<lambda>_. new_client '''' (visitor_grant []) 0)))"

lemma demo_actions_ok: "list_all action_ok demo_actions"
  by (simp add: demo_actions_def action_ok_def)

abbreviation demo_start :: hub where
  "demo_start \<equiv> new_hub 8 (\<lambda>_. new_client '''' (visitor_grant []) 0)"

lemma demo_runs: "hub_run 2 0 demo_actions demo_start = Some demo_hub"
proof -
  have "\<not> Option.is_none (hub_run 2 0 demo_actions demo_start)" by code_simp
  then show ?thesis by (auto simp: demo_hub_def Option.is_none_def)
qed

lemma demo_hub_clients: "h_clients demo_hub = [1, 2]"
  by code_simp

lemma demo_hub_viewers: "h_viewers demo_hub ''conversation:cnv_1'' = [2]"
  by code_simp

lemma demo_hub_frames:
  "map (\<lambda>i. event_seqs (c_outbound (h_heap demo_hub i))) (h_clients demo_hub) = [[1], [1]]"
  by code_simp

lemma demo_hub_visitor:
  "c_grant (h_heap demo_hub 1) = visitor_grant [''cnv_1''] \<and>
   EventFrame (envelope (sample_row ''evt_1'' ''wrk_1'' 1)) \<in> held (h_heap demo_hub 1)"
proof -
  let ?g = "c_grant (h_heap demo_hub 1)"
  have "Option.is_none (g_filter ?g)" "Option.is_none (g_allow_topic ?g)"
    and "g_allowed ?g = [''conversation:cnv_1'']" "g_initial ?g = [''conversation:cnv_1'']"
    and "g_member_id ?g = ''''" "g_member_name ?g = ''''"
    by code_simp+
  then have "?g = visitor_grant [''cnv_1'']"
    by (intro grant.equality) (simp_all add: visitor_grant_def Let_def Option.is_none_def)
  moreover have "c_outbound (h_heap demo_hub 1) ! 2 = EventFrame (envelope (sample_row ''evt_1'' ''wrk_1'' 1))"
    and "length (c_outbound (h_heap demo_hub 1)) = 3"
    by code_simp+
  then have "EventFrame (envelope (sample_row ''evt_1'' ''wrk_1'' 1)) \<in> set (c_outbound (h_heap demo_hub 1))"
    by (metis lessI nth_mem numeral_2_eq_2 numeral_3_eq_3)
  ultimately show ?thesis by (simp add: held_def)
qed

theorem registries_agree_witness:
  "list_all action_ok demo_actions \<and> h_clients demo_hub = [1, 2] \<and>
   2 \<in> set (h_viewers demo_hub ''conversation:cnv_1'') \<and>
   ''conversation:cnv_1'' \<in> set (c_topics (h_heap demo_hub 2))"
proof -
  have "2 \<in> set (h_viewers demo_hub ''conversation:cnv_1'')" by (simp add: demo_hub_viewers)
  moreover from this have "''conversation:cnv_1'' \<in> set (c_topics (h_heap demo_hub 2))"
    using registries_agree [OF demo_actions_ok demo_runs] by blast
  ultimately show ?thesis using demo_actions_ok demo_hub_clients by blast
qed

text \<open>
  C21: no leak between workspaces.  In every reachable hub each event frame a connection
  holds (queued, held back, or written) was made from a row of the connection's own
  workspace whose topic the grant covers, after the visibility rule and the grant's
  filter let it through.
\<close>

theorem no_foreign_event:
  assumes "list_all action_ok as" and "hub_run fuel k as (new_hub q heap) = Some h"
    and "i \<in> set (h_clients h)" and "EventFrame e \<in> held (h_heap h i)"
  shows "\<exists>r p. event_for (h_heap h i) r = Some p \<and> e = envelope p \<and>
    r_workspace r = c_workspace (h_heap h i) \<and> granted (c_grant (h_heap h i)) (topic_for r)"
  using hub_inv_dD(5) [OF hub_run_from_start [OF assms(1,2)] assms(3)] assms(4)
  by (fastforce simp: client_ok_def frame_ok_def)

theorem no_foreign_event_witness:
  "1 \<in> set (h_clients demo_hub) \<and>
   (\<exists>r p. event_for (h_heap demo_hub 1) r = Some p \<and>
     envelope (sample_row ''evt_1'' ''wrk_1'' 1) = envelope p \<and>
     r_workspace r = c_workspace (h_heap demo_hub 1))"
proof -
  have i: "1 \<in> set (h_clients demo_hub)" by (simp add: demo_hub_clients)
  from no_foreign_event [OF demo_actions_ok demo_runs i conjunct2 [OF demo_hub_visitor]] i
  show ?thesis by blast
qed



end
