(* ===== verification/RealtimeDelivery.thy ===== *)
theory RealtimeDelivery
  imports RealtimeSafety
begin

text \<open>
  Delivery against the contract of the event log: a drain hands every connection of the
  workspace exactly the backlog behind the cursor, a resume replays exactly the events the
  connection missed, and the one case in which the hub skips events.  The loops are
  analysed once in the locale event_source and used through its interpretation elog.
\<close>

section \<open>One page delivered to every connection\<close>

lemma fold_deliver_sel [simp]:
  "h_clients (fold (deliver w) rs h) = h_clients h" "h_by_ws (fold (deliver w) rs h) = h_by_ws h"
  "h_viewers (fold (deliver w) rs h) = h_viewers h" "h_cursor (fold (deliver w) rs h) = h_cursor h"
  by (induction rs arbitrary: h) (simp_all add: deliver_def)

lemma fold_deliver_heap:
  "distinct (h_by_ws h w) \<Longrightarrow> h_heap (fold (deliver w) rs h) i =
     (if i \<in> set (h_by_ws h w) then fold deliver_client rs (h_heap h i) else h_heap h i)"
  by (induction rs arbitrary: h) (simp_all add: deliver_def upd_all_heap)

section \<open>Rows shown to a connection\<close>

definition shown :: "client \<Rightarrow> event_row list \<Rightarrow> event_row list" where
  "shown c rs = filter (\<lambda>r. wants c (topic_for r) \<and> event_for c r \<noteq> None) rs"

definition frame_of :: "client \<Rightarrow> event_row \<Rightarrow> frame" where
  "frame_of c r = EventFrame (envelope (the (event_for c r)))"

text \<open>Two connections that answer alike: same grant and topics.\<close>

definition alike :: "client \<Rightarrow> client \<Rightarrow> bool" where
  "alike c c' \<longleftrightarrow> c_grant c' = c_grant c \<and> c_topics c' = c_topics c"

lemma alike_simps [simp]: "alike c c" "alike c (c\<lparr>c_last := n\<rparr>)" "alike c (enqueue p c)"
  "alike c (enqueue p (c\<lparr>c_last := n\<rparr>))"
  by (simp_all add: alike_def)

lemma alike_trans: "alike c c' \<Longrightarrow> alike c' c'' \<Longrightarrow> alike c c''"
  by (simp add: alike_def)

lemma alike_cong:
  assumes "alike c c'"
  shows "wants c' = wants c" "event_for c' = event_for c" "shown c' = shown c" "frame_of c' = frame_of c"
proof -
  show w: "wants c' = wants c" using assms by (auto simp: alike_def wants_def fun_eq_iff)
  show e: "event_for c' = event_for c"
    using assms by (auto simp: alike_def event_for_def visible_to_def fun_eq_iff)
  show "shown c' = shown c" "frame_of c' = frame_of c" by (simp_all add: shown_def frame_of_def w e fun_eq_iff)
qed

lemma replay_record_shown:
  "wants c (topic_for r) \<Longrightarrow> event_for c r \<noteq> None \<Longrightarrow> c_last c < r_sequence r \<Longrightarrow>
     replay_record r (n, c) = (n + 1, enqueue (frame_of c r) (c\<lparr>c_last := r_sequence r\<rparr>))"
  by (auto simp: replay_record_def advance_def frame_of_def)

lemma replay_record_hidden:
  "\<not> (wants c (topic_for r) \<and> event_for c r \<noteq> None) \<Longrightarrow> replay_record r (n, c) = (n, c)"
  by (auto simp: replay_record_def)

text \<open>Replaying ascending rows above the position queues one frame per shown row.\<close>

lemma fold_replay:
  assumes "sorted_wrt (<) (map r_sequence rs)" "\<forall>r \<in> set rs. c_last c < r_sequence r"
    and "length (c_outbound c) + length (shown c rs) \<le> c_cap c"
  shows "fold replay_record rs (n, c) = (n + int (length (shown c rs)),
      c\<lparr>c_outbound := c_outbound c @ map (frame_of c) (shown c rs),
        c_last := (if shown c rs = [] then c_last c else r_sequence (last (shown c rs)))\<rparr>)"
  using assms
proof (induction rs arbitrary: n c)
  case Nil
  then show ?case by (simp add: shown_def)
next
  case (Cons r rs)
  show ?case
  proof (cases "wants c (topic_for r) \<and> event_for c r \<noteq> None")
    case False
    then have "shown c (r # rs) = shown c rs" by (auto simp: shown_def)
    then show ?thesis using Cons False by (simp add: replay_record_hidden)
  next
    case True
    let ?c = "enqueue (frame_of c r) (c\<lparr>c_last := r_sequence r\<rparr>)"
    have al: "alike c ?c" by simp
    have sh: "shown c (r # rs) = r # shown c rs" using True by (simp add: shown_def)
    have c: "?c = c\<lparr>c_outbound := c_outbound c @ [frame_of c r], c_last := r_sequence r\<rparr>"
      using Cons.prems(3) sh by (simp add: enqueue_def)
    have "fold replay_record rs (n + 1, ?c) = (n + 1 + int (length (shown ?c rs)),
      ?c\<lparr>c_outbound := c_outbound ?c @ map (frame_of ?c) (shown ?c rs),
        c_last := (if shown ?c rs = [] then c_last ?c else r_sequence (last (shown ?c rs)))\<rparr>)"
    proof (rule Cons.IH)
      show "length (c_outbound ?c) + length (shown ?c rs) \<le> c_cap ?c"
        using Cons.prems(3) alike_cong(3) [OF al] sh by (simp add: c)
    qed (use Cons.prems in \<open>auto simp: c\<close>)
    moreover have "replay_record r (n, c) = (n + 1, ?c)"
      using Cons.prems(2) True by (simp add: replay_record_shown)
    ultimately show ?thesis
      using alike_cong(3,4) [OF al] sh by (simp add: c)
  qed
qed

lemma shown_append: "shown c (xs @ ys) = shown c xs @ shown c ys"
  by (simp add: shown_def)

lemma length_shown_le: "length (shown c rs) \<le> length rs"
  by (simp add: shown_def)

section \<open>The loops over a source that keeps the contract\<close>

definition reader_of :: "(string \<Rightarrow> int \<Rightarrow> int \<Rightarrow> event_row list) \<Rightarrow> (string \<Rightarrow> int) \<Rightarrow> event_reader" where
  "reader_of read latest = \<lparr> s_since = (\<lambda>k w a n. Some (read w a n)), s_latest = (\<lambda>k w. Some (latest w)) \<rparr>"

lemma log_reader_of: "log_reader d = reader_of (since d) (latest_sequence d)"
  by (simp add: log_reader_def reader_of_def)

context event_source begin

abbreviation reader :: "'d \<Rightarrow> event_reader" where
  "reader d \<equiv> reader_of (src d) (newest d)"

lemma page200: "valid d \<Longrightarrow> src d w a 200 = take 200 (after d w a)"
  by (simp add: page)

lemma drop_after:
  assumes "valid d" "src d w a 200 \<noteq> []"
  shows "after d w (r_sequence (last (src d w a 200))) = drop 200 (after d w a)"
  using next_page [OF assms(1), where n = 200 and a = a and w = w] assms(2) by simp

lemma last_page_above: "valid d \<Longrightarrow> src d w a 200 \<noteq> [] \<Longrightarrow> a < r_sequence (last (src d w a 200))"
  using page_seqs(2) [of d 200 _ w a] last_in_set by fastforce

lemma drain_loop_backlog:
  assumes "valid d" "has_clients h w" "distinct (h_by_ws h w)"
    and "length (after d w (cursor_for h w)) < 200 * fuel"
  shows "\<exists>h'. drain_loop fuel (reader d) k w h = Some h' \<and>
    h_by_ws h' = h_by_ws h \<and> after d w (cursor_for h' w) = [] \<and>
    (\<forall>i. h_heap h' i = (if i \<in> set (h_by_ws h w)
       then fold deliver_client (after d w (cursor_for h w)) (h_heap h i) else h_heap h i)) \<and>
    (\<forall>v. v \<noteq> w \<longrightarrow> cursor_for h' v = cursor_for h v)"
  using assms
proof (induction fuel arbitrary: h k)
  case (Suc fuel)
  let ?a = "cursor_for h w"
  let ?p = "src d w ?a 200"
  let ?h1 = "fold (deliver w) ?p h"
  let ?h2 = "set_cursor w (r_sequence (last ?p)) ?h1"
  have cf: "cursor_for ?h1 v = cursor_for h v" for v by (simp add: cursor_for_def)
  have p: "?p = take 200 (after d w ?a)" by (rule page200 [OF Suc.prems(1)])
  show ?case
  proof (cases "?p = []")
    case True
    then have "after d w ?a = []" using p by simp
    then show ?thesis using True Suc.prems by (auto simp: reader_of_def drain_page_size_def)
  next
    case False
    have c2: "cursor_for ?h2 w = r_sequence (last ?p)"
      using last_page_above [OF Suc.prems(1) False] cf by simp
    have a2: "after d w (cursor_for ?h2 w) = drop 200 (after d w ?a)"
      unfolding c2 by (rule drop_after [OF Suc.prems(1) False])
    have heap2: "h_heap ?h2 i = (if i \<in> set (h_by_ws h w) then fold deliver_client ?p (h_heap h i) else h_heap h i)" for i
      using fold_deliver_heap [OF Suc.prems(3)] by simp
    have v2: "v \<noteq> w \<Longrightarrow> cursor_for ?h2 v = cursor_for h v" for v using cf by simp
    show ?thesis
    proof (cases "length ?p < 200")
      case short: True
      then have pa: "?p = after d w ?a" "drop 200 (after d w ?a) = []" using p by (auto simp: min_def split: if_splits)
      have "drain_loop (Suc fuel) (reader d) k w h = Some ?h2"
        using Suc.prems(2) False short by (simp add: reader_of_def drain_page_size_def)
      then show ?thesis using a2 heap2 v2 pa by simp
    next
      case full: False
      have l: "length (after d w (cursor_for ?h2 w)) < 200 * fuel"
        using Suc.prems(4) full p unfolding a2 by simp
      have run: "drain_loop (Suc fuel) (reader d) k w h = drain_loop fuel (reader d) (Suc k) w ?h2"
        using Suc.prems(2) False full by (simp add: reader_of_def drain_page_size_def)
      obtain h' where h': "drain_loop fuel (reader d) (Suc k) w ?h2 = Some h'"
        "h_by_ws h' = h_by_ws ?h2" "after d w (cursor_for h' w) = []"
        "\<And>i. h_heap h' i = (if i \<in> set (h_by_ws ?h2 w)
           then fold deliver_client (after d w (cursor_for ?h2 w)) (h_heap ?h2 i) else h_heap ?h2 i)"
        "\<And>v. v \<noteq> w \<Longrightarrow> cursor_for h' v = cursor_for ?h2 v"
        using Suc.IH [OF Suc.prems(1) _ _ l, of "Suc k"] Suc.prems(2,3) by (auto simp: has_clients_def)
      have "fold deliver_client (after d w ?a) c = fold deliver_client (drop 200 (after d w ?a)) (fold deliver_client ?p c)" for c
        unfolding p by (metis append_take_drop_id comp_apply fold_append)
      then show ?thesis using run h' a2 heap2 v2 by auto
    qed
  qed
qed simp

lemma resume_loop_exact:
  assumes "valid d" "length (after d (c_workspace c) from) < 200 * fuel" "c_last c \<le> from"
    and "length (c_outbound c) + length (shown c (after d (c_workspace c) from)) \<le> c_cap c"
    and "n + int (length (shown c (after d (c_workspace c) from))) < 2000"
  shows "resume_loop fuel (reader d) k from n c = (let rs = shown c (after d (c_workspace c) from) in
    Some (ResumeDone (n + int (length rs)) False
      (c\<lparr>c_outbound := c_outbound c @ map (frame_of c) rs,
         c_last := (if rs = [] then c_last c else r_sequence (last rs))\<rparr>)))"
  using assms
proof (induction fuel arbitrary: k "from" n c)
  case (Suc fuel)
  let ?w = "c_workspace c"
  let ?af = "after d ?w from"
  let ?p = "src d ?w from 200"
  have p: "?p = take 200 ?af" by (rule page200 [OF Suc.prems(1)])
  show ?case
  proof (cases "?p = []")
    case True
    then have "?af = []" using p by simp
    then show ?thesis using True by (simp add: reader_of_def resume_page_size_def shown_def)
  next
    case False
    have sp: "shown c ?af = shown c ?p @ shown c (drop 200 ?af)"
      unfolding p by (metis append_take_drop_id shown_append)
    let ?c1 = "c\<lparr>c_outbound := c_outbound c @ map (frame_of c) (shown c ?p),
        c_last := (if shown c ?p = [] then c_last c else r_sequence (last (shown c ?p)))\<rparr>"
    let ?n1 = "n + int (length (shown c ?p))"
    have f: "fold replay_record ?p (n, c) = (?n1, ?c1)"
    proof (rule fold_replay)
      show "sorted_wrt (<) (map r_sequence ?p)" by (rule page_seqs(1) [OF Suc.prems(1)]) simp_all
      show "\<forall>r \<in> set ?p. c_last c < r_sequence r"
        using page_seqs(2) [OF Suc.prems(1), of 200 _ ?w "from"] Suc.prems(3) by fastforce
      show "length (c_outbound c) + length (shown c ?p) \<le> c_cap c" using Suc.prems(4) sp by simp
    qed
    show ?thesis
    proof (cases "length ?p < 200")
      case short: True
      then have "?p = ?af" using p by (auto simp: min_def split: if_splits)
      then show ?thesis using False short f by (simp add: reader_of_def resume_page_size_def Let_def)
    next
      case full: False
      have al: "alike c ?c1" by (simp add: alike_def)
      have a1: "after d ?w (r_sequence (last ?p)) = drop 200 ?af" by (rule drop_after [OF Suc.prems(1) False])
      have n1: "\<not> max_resume_events \<le> ?n1" using Suc.prems(5) sp by (simp add: max_resume_events_def)
      have run: "resume_loop (Suc fuel) (reader d) k from n c
          = resume_loop fuel (reader d) (Suc k) (r_sequence (last ?p)) ?n1 ?c1"
        using False full f n1 by (simp add: reader_of_def resume_page_size_def)
      have l2: "c_last ?c1 \<le> r_sequence (last ?p)"
      proof (cases "shown c ?p = []")
        case True
        then show ?thesis using Suc.prems(3) last_page_above [OF Suc.prems(1) False] by simp
      next
        case ne: False
        have "last (shown c ?p) \<in> set ?p" using last_in_set [OF ne] by (simp add: shown_def)
        moreover have "r_sequence r \<le> r_sequence (last ?p)" if "r \<in> set ?p" for r
          using le_last_sorted [OF page_seqs(1) [OF Suc.prems(1), of 200 ?w "from"] that] by simp
        ultimately show ?thesis using ne by simp
      qed
      have l1: "length (after d (c_workspace ?c1) (r_sequence (last ?p))) < 200 * fuel"
        using Suc.prems(2) full p a1 by simp
      have l3: "length (c_outbound ?c1) + length (shown ?c1 (after d (c_workspace ?c1) (r_sequence (last ?p)))) \<le> c_cap ?c1"
        using Suc.prems(4) sp a1 alike_cong(3) [OF al] by simp
      have l4: "?n1 + int (length (shown ?c1 (after d (c_workspace ?c1) (r_sequence (last ?p))))) < 2000"
        using Suc.prems(5) sp a1 alike_cong(3) [OF al] by simp
      have ih: "resume_loop fuel (reader d) (Suc k) (r_sequence (last ?p)) ?n1 ?c1 =
          (let rs = shown ?c1 (after d (c_workspace ?c1) (r_sequence (last ?p))) in
           Some (ResumeDone (?n1 + int (length rs)) False
             (?c1\<lparr>c_outbound := c_outbound ?c1 @ map (frame_of ?c1) rs,
                c_last := (if rs = [] then c_last ?c1 else r_sequence (last rs))\<rparr>)))"
        by (rule Suc.IH [where c = ?c1 and n = ?n1, OF Suc.prems(1) l1 l2 l3 l4])
      have rest: "shown ?c1 (after d (c_workspace ?c1) (r_sequence (last ?p))) = shown c (drop 200 ?af)"
        using a1 alike_cong(3) [OF al] by simp
      show ?thesis
        unfolding run ih rest alike_cong(4) [OF al] sp Let_def by simp
    qed
  qed
qed simp

end

section \<open>Properties\<close>

text \<open>
  C23: a drain delivers exactly the backlog.  For a workspace with connections, whatever
  the size of the backlog (one unit of fuel for each page of 200 is enough), the drain
  ends, hands every connection of the workspace each row behind the cursor once and in
  order, touches no other connection and no other cursor, and leaves nothing behind the
  cursor.
\<close>

theorem drain_delivers_backlog:
  assumes "log_inv d" and "hub_inv h" and "has_clients h w" and "h_source h = Some (log_reader d)"
    and "length (filter (\<lambda>r. cursor_for h w < r_sequence r) (rows_of d w)) < 200 * fuel"
  shows "\<exists>h'. drain fuel k w h = Some h' \<and>
    filter (\<lambda>r. cursor_for h' w < r_sequence r) (rows_of d w) = [] \<and>
    (\<forall>i. h_heap h' i = (if i \<in> set (h_by_ws h w)
       then fold deliver_client (filter (\<lambda>r. cursor_for h w < r_sequence r) (rows_of d w)) (h_heap h i)
       else h_heap h i)) \<and>
    (\<forall>v. v \<noteq> w \<longrightarrow> cursor_for h' v = cursor_for h v)"
  using elog.drain_loop_backlog [OF assms(1,3) hub_inv_dD(2) [OF assms(2)] assms(5), of k] assms(4)
  by (auto simp: drain_def log_reader_of)

lemma log_inv_demo: "log_inv demo_log"
  unfolding demo_log_def
  by (rule log_inv_apply_row [OF log_denseD_inv [OF log_dense_empty]])
    (simp add: sample_row_def next_of_def empty_log_def)

lemma rows_of_demo: "rows_of demo_log ''wrk_1'' = [sample_row ''evt_1'' ''wrk_1'' 1]"
  by (simp add: demo_log_def rows_of_def apply_row_def empty_log_def sample_row_def)

text \<open>An agent is connected and one event waits for its signal.\<close>

definition demo_waiting :: hub where
  "demo_waiting = set_source (log_reader demo_log) (serve_open 0 1 ''wrk_1'' (agent_grant ''mem_1'' ''Ada'') demo_start)"

lemma demo_waiting_ok:
  "hub_inv demo_waiting" "h_source demo_waiting = Some (log_reader demo_log)"
  "h_by_ws demo_waiting ''wrk_1'' = [1]" "cursor_for demo_waiting ''wrk_1'' = 0"
proof -
  have "hub_inv (serve_open 0 1 ''wrk_1'' (agent_grant ''mem_1'' ''Ada'') demo_start)"
    by (rule conjunct1 [OF hub_inv_serve_open [OF hub_inv_new_hub]]) (simp add: new_hub_def)
  then show "hub_inv demo_waiting" by (simp add: demo_waiting_def set_source_def hub_inv_d_def)
qed (simp_all add: demo_waiting_def set_source_def serve_open_def register_client_def Let_def new_hub_def
  new_client_def cursor_for_def)

theorem drain_delivers_backlog_witness:
  "h_by_ws demo_waiting ''wrk_1'' = [1] \<and>
   (\<exists>h'. drain 1 0 ''wrk_1'' demo_waiting = Some h' \<and>
     h_heap h' 1 = deliver_client (sample_row ''evt_1'' ''wrk_1'' 1) (h_heap demo_waiting 1))"
proof -
  have hc: "has_clients demo_waiting ''wrk_1''" by (simp add: has_clients_def demo_waiting_ok)
  have b: "filter (\<lambda>r. cursor_for demo_waiting ''wrk_1'' < r_sequence r) (rows_of demo_log ''wrk_1'')
      = [sample_row ''evt_1'' ''wrk_1'' 1]"
    by (simp add: rows_of_demo demo_waiting_ok sample_row_def)
  have l: "length (filter (\<lambda>r. cursor_for demo_waiting ''wrk_1'' < r_sequence r) (rows_of demo_log ''wrk_1'')) < 200 * 1"
    unfolding b by simp
  from drain_delivers_backlog [OF log_inv_demo demo_waiting_ok(1) hc demo_waiting_ok(2) l, of 0]
  show ?thesis unfolding b by (auto simp: demo_waiting_ok)
qed



definition skip_actions :: "bool \<Rightarrow> hub_action list" where
  "skip_actions second =
     [SetSource (log_reader empty_log), Open 1 ''wrk_1'' (agent_grant ''mem_1'' ''Ada''),
      SetSource (log_reader demo_log)]
     @ (if second then [Open 2 ''wrk_1'' (agent_grant ''mem_2'' ''Bo'')] else [])
     @ [Signal ''wrk_1'']"

text \<open>
  Connecting can cost the others an event.  Serve moves the broadcast cursor of the
  workspace to the head of the log, past rows whose NOTIFY signal is still to come.  Two
  runs that differ in the second connection only: without it the first connection gets
  event 1, with it the event reaches nobody, although the signal is handled.
\<close>

theorem connecting_skips_events_of_others:
  "map_option (\<lambda>h. map (\<lambda>i. accepted (h_heap h i)) (h_clients h)) (hub_run 2 0 (skip_actions False) demo_start)
     = Some [[1]] \<and>
   map_option (\<lambda>h. map (\<lambda>i. accepted (h_heap h i)) (h_clients h)) (hub_run 2 0 (skip_actions True) demo_start)
     = Some [[], []]"
  by code_simp

end
