(* ===== verification/JobQueue.thy ===== *)
theory JobQueue
  imports HubPrelude
begin

text \<open>
  The durable job queue (src/internal/jobs/jobs.go and worker.go over the tables jobs and
  job_attempts of src/embedded/migrations/0004_events_jobs_ops.sql): enqueueing with a
  deduplication key, cancel and retry, the operational reads, the claim query of the
  workers, the bookkeeping after a run, the retry delay and the reclaim of expired leases.
  Times are integers in nanoseconds; a statement gets the database clock \<open>now\<close> and, where
  the code reads time.Now(), the process clock \<open>clock\<close>.
\<close>

section \<open>Data\<close>

datatype job_state = Pending | Running | Succeeded | Failed | Dead | Cancelled

text \<open>A row of jobs.  NULL text columns are empty strings, NULL times \<open>None\<close>.\<close>

record job =
  j_id :: string
  j_workspace :: string
  j_queue :: string
  j_type :: string
  j_payload :: json
  j_state :: job_state
  j_priority :: int
  j_attempt :: int
  j_max :: int
  j_scheduled :: int
  j_leased_until :: "int option"
  j_leased_by :: string
  j_dedupe :: string
  j_error :: string
  j_started :: "int option"
  j_finished :: "int option"
  j_created :: int

datatype attempt_outcome = OSucceeded | OFailed | OTimeout

record job_attempt =
  a_id :: string
  a_job :: string
  a_attempt :: int
  a_outcome :: attempt_outcome
  a_error :: string
  a_duration :: int
  a_started :: int

record job_db =
  db_jobs :: "job list"
  db_attempts :: "job_attempt list"

datatype jobs_error = ErrDuplicate | ErrNotFound

text \<open>struct Spec; \<open>sp_run_at = None\<close> is the zero time, \<open>sp_payload = None\<close> a nil payload.\<close>

record spec =
  sp_workspace :: string
  sp_queue :: string
  sp_type :: string
  sp_payload :: "json option"
  sp_priority :: int
  sp_run_at :: "int option"
  sp_max :: int
  sp_dedupe :: string

definition default_queue :: string where "default_queue = ''default''"
definition default_max_attempts :: int where "default_max_attempts = 5"

definition live_state :: "job_state \<Rightarrow> bool" where
  "live_state s = (s = Pending \<or> s = Running)"

abbreviation live :: "job \<Rightarrow> bool" where
  "live j \<equiv> live_state (j_state j)"

text \<open>The key of the partial unique index jobs_dedupe, and the index as a check of the table.\<close>

definition indexed :: "job \<Rightarrow> bool" where
  "indexed j = (j_dedupe j \<noteq> '''' \<and> live j)"

definition dedupe_key :: "job \<Rightarrow> string \<times> string" where
  "dedupe_key j = (j_queue j, j_dedupe j)"

definition index_ok :: "job list \<Rightarrow> bool" where
  "index_ok t = distinct (map dedupe_key (filter indexed t))"

text \<open>UPDATE jobs SET ... WHERE id = $1, refused when the index would be violated.\<close>

definition update_jobs :: "(job \<Rightarrow> bool) \<Rightarrow> (job \<Rightarrow> job) \<Rightarrow> 'x job_db_scheme \<Rightarrow> (int \<times> 'x job_db_scheme) option" where
  "update_jobs P f d =
     (let t = update_where P f (db_jobs d)
      in if index_ok t then Some (int (length (filter P (db_jobs d))), d\<lparr>db_jobs := t\<rparr>) else None)"

section \<open>Client\<close>

definition payload_or_empty :: "json option \<Rightarrow> json" where
  "payload_or_empty p = (case p of None \<Rightarrow> JObj [] | Some j \<Rightarrow> j)"

text \<open>The row an INSERT of EnqueueTx makes, with the column defaults.\<close>

definition new_job :: "string \<Rightarrow> int \<Rightarrow> int \<Rightarrow> spec \<Rightarrow> job" where
  "new_job i clock now sp = \<lparr> j_id = i, j_workspace = sp_workspace sp,
     j_queue = (if sp_queue sp = '''' then default_queue else sp_queue sp), j_type = sp_type sp,
     j_payload = payload_or_empty (sp_payload sp), j_state = Pending, j_priority = sp_priority sp,
     j_attempt = 0, j_max = (if sp_max sp \<le> 0 then default_max_attempts else sp_max sp),
     j_scheduled = (case sp_run_at sp of None \<Rightarrow> clock | Some t \<Rightarrow> t),
     j_leased_until = None, j_leased_by = '''', j_dedupe = sp_dedupe sp, j_error = '''',
     j_started = None, j_finished = None, j_created = now \<rparr>"

text \<open>INSERT ... ON CONFLICT DO NOTHING RETURNING id: a clash of the key or of the index inserts nothing.\<close>

definition insert_job :: "job \<Rightarrow> 'x job_db_scheme \<Rightarrow> bool \<times> 'x job_db_scheme" where
  "insert_job j d =
     (if j_id j \<in> j_id ` set (db_jobs d) \<or> \<not> index_ok (db_jobs d @ [j]) then (False, d)
      else (True, d\<lparr>db_jobs := db_jobs d @ [j]\<rparr>))"

definition enqueue_tx :: "string \<Rightarrow> int \<Rightarrow> int \<Rightarrow> spec \<Rightarrow> ('x job_db_scheme, jobs_error, string) tx" where
  "enqueue_tx i clock now sp =
     (if sp_type sp = '''' then tx_fail (Msg ''jobs: type is required'')
      else tx_bind (sql (insert_job (new_job i clock now sp)))
        (\<lambda>inserted. if inserted then tx_ret i else tx_fail (Err ErrDuplicate)))"

definition enqueue_job :: "string \<Rightarrow> int \<Rightarrow> int \<Rightarrow> spec \<Rightarrow> ('x job_db_scheme, jobs_error, string) tx" where
  "enqueue_job i clock now sp = with_tx (enqueue_tx i clock now sp)"

text \<open>
  EnsureScheduled: the advisory lock is a statement without effect on the tables, which
  makes the check and the insert one step for all processes.
\<close>

definition ensure_scheduled :: "string \<Rightarrow> int \<Rightarrow> int \<Rightarrow> spec \<Rightarrow> ('x job_db_scheme, jobs_error, string) tx" where
  "ensure_scheduled i clock now sp =
     (if sp_type sp = '''' then tx_fail (Msg ''jobs: type is required'')
      else with_tx (tx_seq (sql_exec id)
        (tx_bind (sql_read (\<lambda>d. list_ex (\<lambda>j. j_type j = sp_type sp \<and> live j) (db_jobs d)))
          (\<lambda>found. if found then tx_fail (Err ErrDuplicate) else enqueue_tx i clock now sp))))"

definition cancel_row :: "int \<Rightarrow> job \<Rightarrow> job" where
  "cancel_row now j = j\<lparr>j_state := Cancelled, j_finished := Some now\<rparr>"

definition cancel_job :: "int \<Rightarrow> string \<Rightarrow> string \<Rightarrow> ('x job_db_scheme, jobs_error, unit) tx" where
  "cancel_job now w i =
     tx_bind (sql_checked (update_jobs (\<lambda>j. j_id j = i \<and> j_workspace j = w \<and> w \<noteq> '''' \<and> j_state j = Pending) (cancel_row now)))
       (\<lambda>n. if n = 0 then tx_fail (Err ErrNotFound) else tx_ret ())"

definition retry_row :: "int \<Rightarrow> job \<Rightarrow> job" where
  "retry_row now j = j\<lparr>j_state := Pending, j_attempt := 0, j_scheduled := now, j_leased_until := None,
     j_leased_by := '''', j_error := '''', j_finished := None\<rparr>"

definition retry_job :: "int \<Rightarrow> string \<Rightarrow> string \<Rightarrow> ('x job_db_scheme, jobs_error, unit) tx" where
  "retry_job now w i =
     tx_bind (sql_checked (update_jobs (\<lambda>j. j_id j = i \<and> j_workspace j = w \<and> w \<noteq> '''' \<and>
         (j_state j = Failed \<or> j_state j = Dead \<or> j_state j = Cancelled)) (retry_row now)))
       (\<lambda>n. if n = 0 then tx_fail (Err ErrNotFound) else tx_ret ())"

section \<open>Operational reads\<close>

record list_filter =
  lf_workspace :: string
  lf_state :: "job_state option"
  lf_queue :: string
  lf_limit :: int
  lf_before :: "(int \<times> string) option"

definition list_jobs :: "list_filter \<Rightarrow> 'x job_db_scheme \<Rightarrow> job list" where
  "list_jobs f d =
     (let limit = (if lf_limit f \<le> 0 \<or> lf_limit f > 500 then 100 else lf_limit f);
          keep = (\<lambda>j. (lf_workspace f = '''' \<or> j_workspace j = lf_workspace f) \<and>
            (case lf_state f of None \<Rightarrow> True | Some s \<Rightarrow> j_state j = s) \<and>
            (lf_queue f = '''' \<or> j_queue j = lf_queue f) \<and>
            (case lf_before f of None \<Rightarrow> True
             | Some (t, i) \<Rightarrow> j_created j < t \<or> j_created j = t \<and> j_id j < i))
      in take (nat limit) (rev (sort_key j_created (sort_key j_id (filter keep (db_jobs d))))))"

record summary =
  sm_depth :: int
  sm_running :: int
  sm_failed :: int
  sm_dead :: int

definition day :: int where "day = 86400000000000"

definition count_jobs :: "(job \<Rightarrow> bool) \<Rightarrow> job list \<Rightarrow> int" where
  "count_jobs P t = int (length (filter P t))"

definition job_summary :: "int \<Rightarrow> string \<Rightarrow> 'x job_db_scheme \<Rightarrow> summary" where
  "job_summary now w d =
     (let t = filter (\<lambda>j. j_workspace j = w \<and> w \<noteq> '''') (db_jobs d)
      in \<lparr> sm_depth = count_jobs (\<lambda>j. j_state j = Pending \<and> j_scheduled j \<le> now) t,
           sm_running = count_jobs (\<lambda>j. j_state j = Running) t,
           sm_failed = count_jobs (\<lambda>j. j_state j = Failed \<and> j_created j \<ge> now - day) t,
           sm_dead = count_jobs (\<lambda>j. j_state j = Dead) t \<rparr>)"

definition queue_depth :: "int \<Rightarrow> 'x job_db_scheme \<Rightarrow> (string \<times> int) list" where
  "queue_depth now d =
     (let t = filter (\<lambda>j. j_state j = Pending \<and> j_scheduled j \<le> now) (db_jobs d)
      in map (\<lambda>q. (q, count_jobs (\<lambda>j. j_queue j = q) t)) (remdups (map j_queue t)))"

section \<open>Retention\<close>

definition terminal :: "job_state \<Rightarrow> bool" where
  "terminal s = (s = Succeeded \<or> s = Failed \<or> s = Dead \<or> s = Cancelled)"

definition expired :: "int \<Rightarrow> job \<Rightarrow> bool" where
  "expired before j = (terminal (j_state j) \<and> (case j_finished j of None \<Rightarrow> False | Some t \<Rightarrow> t < before))"

definition finished_key :: "job \<Rightarrow> int" where
  "finished_key j = (case j_finished j of None \<Rightarrow> 0 | Some t \<Rightarrow> t)"

text \<open>The ids the CTE selects, and the delete with the cascade to job_attempts.\<close>

definition prune_ids :: "int \<Rightarrow> int \<Rightarrow> 'x job_db_scheme \<Rightarrow> string list" where
  "prune_ids before limit d =
     map j_id (take (nat limit) (sort_key finished_key (sort_key j_id (filter (expired before) (db_jobs d)))))"

definition prune_terminal_before :: "int \<Rightarrow> int \<Rightarrow> ('x job_db_scheme, jobs_error, int) tx" where
  "prune_terminal_before before limit =
     (if limit \<le> 0 then tx_fail (Msg ''jobs: prune limit must be positive'')
      else sql (\<lambda>d. let is = prune_ids before limit d;
                        gone = (\<lambda>i. i \<in> set is)
                    in (int (length (filter (\<lambda>j. gone (j_id j)) (db_jobs d))),
                        d\<lparr>db_jobs := delete_where (\<lambda>j. gone (j_id j)) (db_jobs d),
                          db_attempts := delete_where (\<lambda>a. gone (a_job a)) (db_attempts d)\<rparr>)))"

section \<open>Worker\<close>

definition eligible :: "int \<Rightarrow> (string \<Rightarrow> bool) \<Rightarrow> job \<Rightarrow> bool" where
  "eligible now locked j = (j_state j = Pending \<and> j_scheduled j \<le> now \<and> \<not> locked (j_id j))"

text \<open>ORDER BY priority DESC, scheduled_at; rows that tie come in any order.\<close>

definition claims_before :: "job \<Rightarrow> job \<Rightarrow> bool" where
  "claims_before a b = (j_priority a > j_priority b \<or> j_priority a = j_priority b \<and> j_scheduled a \<le> j_scheduled b)"

definition claim_candidates :: "int \<Rightarrow> (string \<Rightarrow> bool) \<Rightarrow> 'x job_db_scheme \<Rightarrow> job list" where
  "claim_candidates now locked d =
     (let es = filter (eligible now locked) (db_jobs d) in filter (\<lambda>a. list_all (claims_before a) es) es)"

definition claim_row :: "int \<Rightarrow> int \<Rightarrow> string \<Rightarrow> job \<Rightarrow> job" where
  "claim_row now lease wid j = j\<lparr>j_state := Running, j_attempt := j_attempt j + 1,
     j_leased_until := Some lease, j_leased_by := wid, j_started := Some now\<rparr>"

text \<open>
  The claim statement.  \<open>locked\<close> are the rows other transactions hold (SKIP LOCKED),
  \<open>tie\<close> resolves the choice among equally ranked rows.
\<close>

definition claim :: "int \<Rightarrow> int \<Rightarrow> string \<Rightarrow> (string \<Rightarrow> bool) \<Rightarrow> nat \<Rightarrow> ('x job_db_scheme, jobs_error, job option) tx" where
  "claim now lease wid locked tie = sql (\<lambda>d. case claim_candidates now locked d of
       [] \<Rightarrow> (None, d)
     | c # cs \<Rightarrow> let j = (c # cs) ! (tie mod length (c # cs))
                in (Some (claim_row now lease wid j),
                    d\<lparr>db_jobs := update_where (\<lambda>r. j_id r = j_id j) (claim_row now lease wid) (db_jobs d)\<rparr>))"

text \<open>An error a handler returned: its text, and what errors.As and errors.Is find in it.\<close>

record run_error =
  re_text :: string
  re_permanent :: bool
  re_deadline :: bool

datatype handler_result = Returned "run_error option" | Panicked string

definition permanent :: "run_error \<Rightarrow> run_error" where
  "permanent e = e\<lparr>re_permanent := True\<rparr>"

definition safe_run :: "(job \<Rightarrow> handler_result) \<Rightarrow> job \<Rightarrow> run_error option" where
  "safe_run h j = (case h j of Returned e \<Rightarrow> e
     | Panicked v \<Rightarrow> Some \<lparr>re_text = ''jobs: handler panicked: '' @ v, re_permanent = False, re_deadline = False\<rparr>)"

definition err_text :: "run_error option \<Rightarrow> string" where
  "err_text e = (case e of None \<Rightarrow> '''' | Some r \<Rightarrow> re_text r)"

definition outcome_of :: "run_error option \<Rightarrow> attempt_outcome" where
  "outcome_of e = (case e of None \<Rightarrow> OSucceeded | Some r \<Rightarrow> if re_deadline r then OTimeout else OFailed)"

text \<open>backoff, with the random draw as an argument; the jitter is in 1 .. delay.\<close>

definition backoff_base :: int where "backoff_base = 2000000000"
definition backoff_max :: int where "backoff_max = 1800000000000"

definition backoff_ceiling :: "int \<Rightarrow> int" where
  "backoff_ceiling attempt =
     (let n = (if attempt < 1 then 1 else attempt);
          delay = backoff_base * 2 ^ nat (min (n - 1) 20)
      in if delay > backoff_max \<or> delay \<le> 0 then backoff_max else delay)"

definition backoff :: "int \<Rightarrow> int \<Rightarrow> int" where
  "backoff draw attempt = draw mod backoff_ceiling attempt + 1"

definition insert_attempt :: "job_attempt \<Rightarrow> 'x job_db_scheme \<Rightarrow> (unit \<times> 'x job_db_scheme) option" where
  "insert_attempt a d =
     (if a_id a \<in> a_id ` set (db_attempts d) \<or> a_job a \<notin> j_id ` set (db_jobs d) then None
      else Some ((), d\<lparr>db_attempts := db_attempts d @ [a]\<rparr>))"

definition succeed_row :: "int \<Rightarrow> job \<Rightarrow> job" where
  "succeed_row now j = j\<lparr>j_state := Succeeded, j_finished := Some now, j_leased_until := None, j_leased_by := ''''\<rparr>"

definition bury_row :: "int \<Rightarrow> string \<Rightarrow> job \<Rightarrow> job" where
  "bury_row now e j = j\<lparr>j_state := Dead, j_finished := Some now, j_error := e,
     j_leased_until := None, j_leased_by := ''''\<rparr>"

definition requeue_row :: "int \<Rightarrow> string \<Rightarrow> job \<Rightarrow> job" where
  "requeue_row at e j = j\<lparr>j_state := Pending, j_scheduled := at, j_error := e,
     j_leased_until := None, j_leased_by := '''', j_started := None\<rparr>"

text \<open>The row finish writes for the job a worker has in hand.\<close>

definition finish_row :: "int \<Rightarrow> int \<Rightarrow> int \<Rightarrow> job \<Rightarrow> run_error option \<Rightarrow> job \<Rightarrow> job" where
  "finish_row clock now draw j e =
     (case e of None \<Rightarrow> succeed_row now
      | Some r \<Rightarrow> if re_permanent r \<or> j_attempt j \<ge> j_max j then bury_row now (re_text r)
                 else requeue_row (clock + backoff draw (j_attempt j)) (re_text r))"

definition finish :: "string \<Rightarrow> int \<Rightarrow> int \<Rightarrow> int \<Rightarrow> int \<Rightarrow> job \<Rightarrow> run_error option \<Rightarrow> ('x job_db_scheme, jobs_error, unit) tx" where
  "finish aid clock now draw duration j e =
     with_tx (tx_seq
       (sql_checked (insert_attempt \<lparr>a_id = aid, a_job = j_id j, a_attempt = j_attempt j,
          a_outcome = outcome_of e, a_error = err_text e, a_duration = duration div 1000000,
          a_started = clock - duration\<rparr>))
       (tx_seq (sql_checked (update_jobs (\<lambda>r. j_id r = j_id j) (finish_row clock now draw j e))) (tx_ret ())))"

definition run_job :: "(string \<Rightarrow> (job \<Rightarrow> handler_result) option) \<Rightarrow> string \<Rightarrow> int \<Rightarrow> int \<Rightarrow> int \<Rightarrow> int \<Rightarrow> job
    \<Rightarrow> ('x job_db_scheme, jobs_error, unit) tx" where
  "run_job handlers aid clock now draw duration j =
     (case handlers (j_type j) of
        None \<Rightarrow> finish aid clock now draw 0 j (Some (permanent \<lparr>re_text = ''no handler registered for job type \"'' @ j_type j @ ''\"'',
          re_permanent = False, re_deadline = False\<rparr>))
      | Some h \<Rightarrow> finish aid clock now draw duration j (safe_run h j))"

definition lease_expired_text :: string where
  "lease_expired_text = ''lease expired; worker did not report an outcome''"

definition reclaim_row :: "job \<Rightarrow> job" where
  "reclaim_row j = j\<lparr>j_state := Pending, j_leased_until := None, j_leased_by := '''', j_started := None,
     j_error := lease_expired_text\<rparr>"

definition lease_expired :: "int \<Rightarrow> job \<Rightarrow> bool" where
  "lease_expired now j = (j_state j = Running \<and> (case j_leased_until j of None \<Rightarrow> False | Some t \<Rightarrow> t < now))"

text \<open>One round of reclaimLoop.\<close>

definition reclaim :: "int \<Rightarrow> ('x job_db_scheme, jobs_error, int) tx" where
  "reclaim now = sql_checked (update_jobs (lease_expired now) reclaim_row)"

end
