(* ===== verification/JobWorkers.thy ===== *)
theory JobWorkers
  imports JobQueue
begin

text \<open>
  The job queue as a system: the tables, the workers with the jobs they have in hand, and
  every operation of the package as an action, with a failure schedule for its
  statements.  The invariant of the tables, the retry budget, and what happens to a job
  when a lease runs out while its worker is still busy.
\<close>

section \<open>The index as a check of the table\<close>

lemma index_keys_update:
  "(\<And>r. r \<in> set t \<Longrightarrow> P r \<Longrightarrow> indexed (f r) = indexed r \<and> dedupe_key (f r) = dedupe_key r) \<Longrightarrow>
     map dedupe_key (filter indexed (update_where P f t)) = map dedupe_key (filter indexed t)"
  by (induction t) auto

lemma index_ok_update:
  "(\<And>r. r \<in> set t \<Longrightarrow> P r \<Longrightarrow> indexed (f r) = indexed r \<and> dedupe_key (f r) = dedupe_key r) \<Longrightarrow>
     index_ok (update_where P f t) = index_ok t"
  unfolding index_ok_def by (simp only: index_keys_update)

lemma index_ok_filter: "index_ok t \<Longrightarrow> index_ok (filter P t)"
  unfolding index_ok_def
proof -
  assume "distinct (map dedupe_key (filter indexed t))"
  then have "distinct (map dedupe_key (filter P (filter indexed t)))" by (rule distinct_map_filter)
  then show "distinct (map dedupe_key (filter indexed (filter P t)))" by (simp add: conj_commute)
qed

lemma index_ok_unique:
  assumes "index_ok t" "a \<in> set t" "b \<in> set t" "indexed a" "indexed b" "dedupe_key a = dedupe_key b"
  shows "a = b"
  using assms key_unique [of dedupe_key "filter indexed t" a b] by (simp add: index_ok_def)

lemma new_job_sel [simp]:
  "j_id (new_job i clock now sp) = i" "j_state (new_job i clock now sp) = Pending"
  "j_attempt (new_job i clock now sp) = 0" "1 \<le> j_max (new_job i clock now sp)"
  "j_leased_until (new_job i clock now sp) = None" "j_leased_by (new_job i clock now sp) = ''''"
  "j_type (new_job i clock now sp) = sp_type sp" "j_dedupe (new_job i clock now sp) = sp_dedupe sp"
  "j_created (new_job i clock now sp) = now"
  by (simp_all add: new_job_def default_max_attempts_def)

section \<open>The system\<close>

text \<open>
  \<open>qs_hand\<close> is the job a worker goroutine has claimed and not yet reported; \<open>qs_now\<close> the
  time, which is the same for all processes.
\<close>

record queue_sys =
  qs_db :: job_db
  qs_hand :: "nat \<Rightarrow> job option"
  qs_now :: int

datatype queue_action =
    Enqueue string spec
  | EnsureScheduled string spec
  | Cancel string string
  | Retry string string
  | Claim nat string int "string \<Rightarrow> bool" nat
  | Finish nat string "run_error option" int int
  | Crash nat
  | Reclaim
  | Prune int int
  | Tick nat

text \<open>
  A worker that crashes forgets its job; a finish whose transaction fails is only logged,
  so the worker moves on either way.
\<close>

definition after_tx :: "queue_sys \<Rightarrow> (jobs_error err + 'a) \<times> job_db \<times> bool list \<Rightarrow> queue_sys" where
  "after_tx s r = s\<lparr>qs_db := fst (snd r)\<rparr>"

definition queue_act :: "queue_action \<Rightarrow> bool list \<Rightarrow> queue_sys \<Rightarrow> queue_sys" where
  "queue_act a fs s = (case a of
     Enqueue i sp \<Rightarrow> after_tx s (enqueue_job i (qs_now s) (qs_now s) sp (qs_db s, fs))
   | EnsureScheduled i sp \<Rightarrow> after_tx s (ensure_scheduled i (qs_now s) (qs_now s) sp (qs_db s, fs))
   | Cancel w i \<Rightarrow> after_tx s (cancel_job (qs_now s) w i (qs_db s, fs))
   | Retry w i \<Rightarrow> after_tx s (retry_job (qs_now s) w i (qs_db s, fs))
   | Claim k wid duration locked tie \<Rightarrow>
       if qs_hand s k \<noteq> None \<or> wid = '''' then s
       else (case claim (qs_now s) (qs_now s + duration) wid locked tie (qs_db s, fs) of
               (Inr (Some j), d, _) \<Rightarrow> s\<lparr>qs_db := d, qs_hand := (qs_hand s)(k \<mapsto> j)\<rparr>
             | (_, d, _) \<Rightarrow> s\<lparr>qs_db := d\<rparr>)
   | Finish k aid e draw duration \<Rightarrow>
       (case qs_hand s k of None \<Rightarrow> s
        | Some j \<Rightarrow> (after_tx s (finish aid (qs_now s) (qs_now s) draw duration j e (qs_db s, fs)))
            \<lparr>qs_hand := (qs_hand s)(k := None)\<rparr>)
   | Crash k \<Rightarrow> s\<lparr>qs_hand := (qs_hand s)(k := None)\<rparr>
   | Reclaim \<Rightarrow> after_tx s (reclaim (qs_now s) (qs_db s, fs))
   | Prune before limit \<Rightarrow> after_tx s (prune_terminal_before before limit (qs_db s, fs))
   | Tick n \<Rightarrow> s\<lparr>qs_now := qs_now s + int n\<rparr>)"

fun queue_run :: "(queue_action \<times> bool list) list \<Rightarrow> queue_sys \<Rightarrow> queue_sys" where
  "queue_run [] s = s"
| "queue_run ((a, fs) # as) s = queue_run as (queue_act a fs s)"

definition queue_init :: "int \<Rightarrow> queue_sys" where
  "queue_init t = \<lparr> qs_db = \<lparr>db_jobs = [], db_attempts = []\<rparr>, qs_hand = (\<lambda>_. None), qs_now = t \<rparr>"

section \<open>What a statement does to the tables\<close>

text \<open>
  Every operation is, on the jobs table, nothing, one insert, an update of rows that pass
  a test, or a delete.  The relation collects them with what the invariants need; \<open>t\<close> is
  the time.
\<close>

inductive client_step :: "int \<Rightarrow> job list \<Rightarrow> job list \<Rightarrow> bool" for t where
  same: "client_step t js js"
| inserted: "j_id j \<notin> j_id ` set js \<Longrightarrow> index_ok (js @ [j]) \<Longrightarrow> j = new_job i t t sp \<Longrightarrow> client_step t js (js @ [j])"
| cancelled: "index_ok (update_where P (cancel_row t) js) \<Longrightarrow> (\<And>j. P j \<Longrightarrow> j_state j = Pending) \<Longrightarrow>
    client_step t js (update_where P (cancel_row t) js)"
| retried: "index_ok (update_where P (retry_row t) js) \<Longrightarrow> (\<And>j. P j \<Longrightarrow> terminal (j_state j)) \<Longrightarrow>
    client_step t js (update_where P (retry_row t) js)"
| pruned: "(\<And>j. j \<in> set js \<Longrightarrow> P j \<Longrightarrow> terminal (j_state j)) \<Longrightarrow> client_step t js (delete_where P js)"

inductive table_step :: "int \<Rightarrow> job list \<Rightarrow> job list \<Rightarrow> bool" for t where
  client: "client_step t js js' \<Longrightarrow> table_step t js js'"
| claimed: "c \<in> set js \<Longrightarrow> j_state c = Pending \<Longrightarrow> wid \<noteq> '''' \<Longrightarrow>
    table_step t js (update_where (\<lambda>r. j_id r = j_id c) (claim_row t lease wid) js)"
| finished: "index_ok (update_where (\<lambda>r. j_id r = j_id j) (finish_row t t draw j e) js) \<Longrightarrow>
    table_step t js (update_where (\<lambda>r. j_id r = j_id j) (finish_row t t draw j e) js)"
| reclaimed: "index_ok (update_where (lease_expired t) reclaim_row js) \<Longrightarrow>
    table_step t js (update_where (lease_expired t) reclaim_row js)"

lemma table_same: "table_step t js js"
  by (rule table_step.client [OF client_step.same])

lemma table_inserted:
  "i \<notin> j_id ` set js \<Longrightarrow> index_ok (js @ [new_job i t t sp]) \<Longrightarrow> client_step t js (js @ [new_job i t t sp])"
  by (rule client_step.inserted [OF _ _ refl]) simp_all

lemma update_jobs_Some:
  "update_jobs P f d = Some (n, d') \<longleftrightarrow> index_ok (update_where P f (db_jobs d)) \<and>
     n = int (length (filter P (db_jobs d))) \<and> d' = d\<lparr>db_jobs := update_where P f (db_jobs d)\<rparr>"
  by (auto simp: update_jobs_def Let_def)

lemma sql_db: "fst (snd (sql f (d, fs))) = (if faulty fs then d else snd (f d))"
  by (auto simp: sql_def split: prod.splits)

lemma sql_checked_db:
  "fst (snd (sql_checked f (d, fs))) = (if faulty fs then d else case f d of None \<Rightarrow> d | Some (a, d') \<Rightarrow> d')"
  by (auto simp: sql_checked_def split: prod.splits option.splits)

text \<open>A continuation that does not touch the database leaves the effect of the first statement.\<close>

lemma bind_reads_db:
  assumes "\<And>a. reads_only (k a)"
  shows "fst (snd (tx_bind m k w)) = fst (snd (m w))"
proof (cases "m w")
  case (fields r d fs)
  then show ?thesis using assms by (cases r) (auto simp: tx_bind_def reads_only_def)
qed

lemma with_tx_db:
  "fst (snd (with_tx body (d, fs))) = d \<or>
     (\<exists>a fs1. body (d, tl fs) = (Inr a, fst (snd (with_tx body (d, fs))), fs1))"
  by (auto simp: with_tx_def split: prod.splits sum.splits)

lemma enqueue_tx_Inr:
  assumes "enqueue_tx i clock now sp (d, fs) = (Inr r, d', fs')"
  shows "r = i \<and> sp_type sp \<noteq> '''' \<and> d' = d\<lparr>db_jobs := db_jobs d @ [new_job i clock now sp]\<rparr> \<and>
    i \<notin> j_id ` set (db_jobs d) \<and> index_ok (db_jobs d @ [new_job i clock now sp])"
  using assms
  by (auto simp: enqueue_tx_def tx_inv insert_job_def split: if_splits)

lemma enqueue_step: "client_step t (db_jobs d) (db_jobs (fst (snd (enqueue_job i t t sp (d, fs)))))"
  using with_tx_db [of "enqueue_tx i t t sp" d fs]
  by (auto simp: enqueue_job_def dest!: enqueue_tx_Inr intro: client_step.same table_inserted)

lemma ensure_scheduled_Inr:
  assumes "ensure_scheduled i clock now sp (d, fs) = (Inr r, d', fs')"
  shows "\<not> list_ex (\<lambda>j. j_type j = sp_type sp \<and> live j) (db_jobs d) \<and> r = i \<and>
    d' = d\<lparr>db_jobs := db_jobs d @ [new_job i clock now sp]\<rparr> \<and>
    i \<notin> j_id ` set (db_jobs d) \<and> index_ok (db_jobs d @ [new_job i clock now sp])"
proof -
  let ?found = "\<lambda>d. list_ex (\<lambda>j. j_type j = sp_type sp \<and> live j) (db_jobs d)"
  have "sp_type sp \<noteq> ''''" using assms by (auto simp: ensure_scheduled_def tx_fail_def)
  then obtain fs1 where "tx_seq (sql_exec id) (tx_bind (sql_read ?found)
      (\<lambda>found. if found then tx_fail (Err ErrDuplicate) else enqueue_tx i clock now sp)) (d, tl fs) = (Inr r, d', fs1)"
    using assms unfolding ensure_scheduled_def with_tx_Inr by (simp only: if_False with_tx_Inr) blast
  then have "(if ?found d then tx_fail (Err ErrDuplicate) else enqueue_tx i clock now sp) (d, tl (tl (tl fs))) = (Inr r, d', fs1)"
    by (auto simp only: tx_bind_Inr sql_Inr prod.inject id_apply split_paired_Ex)
  then have "\<not> ?found d" "enqueue_tx i clock now sp (d, tl (tl (tl fs))) = (Inr r, d', fs1)"
    by (auto simp: tx_fail_def split: if_splits)
  then show ?thesis by (auto dest: enqueue_tx_Inr)
qed

lemma ensure_scheduled_step:
  "client_step t (db_jobs d) (db_jobs (fst (snd (ensure_scheduled i t t sp (d, fs)))))"
proof (cases "ensure_scheduled i t t sp (d, fs)")
  case (fields r d' fs')
  show ?thesis
  proof (cases r)
    case (Inl e)
    have "d' = d"
    proof (cases "sp_type sp = ''''")
      case True
      then show ?thesis using fields by (simp add: ensure_scheduled_def tx_fail_def)
    next
      case False
      then show ?thesis using fields Inl
        by (simp only: ensure_scheduled_def if_False) (rule with_tx_rolls_back)
    qed
    then show ?thesis using fields by (simp add: client_step.same)
  next
    case (Inr a)
    then show ?thesis using fields
      by (auto dest!: ensure_scheduled_Inr intro!: table_inserted)
  qed
qed

lemma cancel_step: "client_step t (db_jobs d) (db_jobs (fst (snd (cancel_job t w i (d, fs)))))"
  unfolding cancel_job_def
  by (subst bind_reads_db)
    (auto simp: sql_checked_db update_jobs_Some split: option.splits intro: client_step.intros)

lemma retry_step: "client_step t (db_jobs d) (db_jobs (fst (snd (retry_job t w i (d, fs)))))"
  unfolding retry_job_def
  by (subst bind_reads_db)
    (auto simp: sql_checked_db update_jobs_Some terminal_def split: option.splits intro: client_step.intros)

lemma reclaim_step: "table_step t (db_jobs d) (db_jobs (fst (snd (reclaim t (d, fs)))))"
  by (auto simp: reclaim_def sql_checked_db update_jobs_Some split: option.splits intro: table_same table_step.intros)

lemma prune_ids_terminal:
  assumes "distinct (map j_id (db_jobs d))" "j \<in> set (db_jobs d)" "j_id j \<in> set (prune_ids before limit d)"
  shows "expired before j"
proof -
  obtain k where "k \<in> set (db_jobs d)" "expired before k" "j_id k = j_id j"
    using assms(3) by (auto simp: prune_ids_def dest!: in_set_takeD)
  then show ?thesis using key_unique [OF assms(1)] assms(2) by metis
qed

lemma prune_step:
  assumes "distinct (map j_id (db_jobs d))"
  shows "client_step t (db_jobs d) (db_jobs (fst (snd (prune_terminal_before before limit (d, fs)))))"
  using prune_ids_terminal [OF assms]
  by (auto simp: prune_terminal_before_def tx_fail_def sql_db Let_def expired_def
      intro: client_step.same intro!: client_step.pruned)

lemma claim_candidates_in:
  "c \<in> set (claim_candidates now locked d) \<Longrightarrow> c \<in> set (db_jobs d) \<and> eligible now locked c"
  by (auto simp: claim_candidates_def Let_def)

lemma claim_Inr:
  assumes "claim now lease wid locked tie (d, fs) = (Inr r, d', fs')"
  shows "(r = None \<and> d' = d \<and> claim_candidates now locked d = []) \<or>
    (\<exists>c \<in> set (claim_candidates now locked d). r = Some (claim_row now lease wid c) \<and>
       d' = d\<lparr>db_jobs := update_where (\<lambda>j. j_id j = j_id c) (claim_row now lease wid) (db_jobs d)\<rparr>)"
proof (cases "claim_candidates now locked d")
  case Nil
  then show ?thesis using assms by (auto simp: claim_def tx_inv)
next
  case (Cons c cs)
  have "(c # cs) ! (tie mod length (c # cs)) \<in> set (c # cs)" by (rule nth_mem) simp
  then show ?thesis using assms Cons by (auto simp: claim_def tx_inv Let_def simp del: length_Cons)
qed

lemma claim_step:
  assumes "claim t lease wid locked tie (d, fs) = (r, d', fs')" "wid \<noteq> ''''"
  shows "table_step t (db_jobs d) (db_jobs d')"
proof (cases r)
  case (Inl e)
  then show ?thesis using assms by (auto simp: claim_def sql_Inl intro: table_same)
next
  case (Inr x)
  then show ?thesis using claim_Inr assms
    by (fastforce dest: claim_candidates_in simp: eligible_def intro: table_same table_step.intros)
qed

lemma finish_Inr:
  assumes "finish aid clock now draw duration j e (d, fs) = (Inr u, d', fs')"
  shows "db_jobs d' = update_where (\<lambda>r. j_id r = j_id j) (finish_row clock now draw j e) (db_jobs d) \<and>
    index_ok (db_jobs d') \<and> j_id j \<in> j_id ` set (db_jobs d) \<and>
    (\<exists>a. db_attempts d' = db_attempts d @ [a] \<and> a_job a = j_id j \<and> a_attempt a = j_attempt j \<and>
       a_outcome a = outcome_of e \<and> a_error a = err_text e)"
  using assms
  by (auto simp: finish_def with_tx_Inr tx_inv update_jobs_Some insert_attempt_def split: if_splits)

lemma finish_step:
  "table_step t (db_jobs d) (db_jobs (fst (snd (finish aid t t draw duration j e (d, fs)))))"
proof (cases "finish aid t t draw duration j e (d, fs)")
  case (fields r d' fs')
  show ?thesis
  proof (cases r)
    case (Inl x)
    then have "d' = d" using fields unfolding finish_def by (simp only:) (rule with_tx_rolls_back)
    then show ?thesis using fields by (simp add: table_same)
  next
    case (Inr u)
    then show ?thesis using fields finish_Inr [of aid t t draw duration j e d fs u d' fs']
      by (auto intro: table_same table_step.intros)
  qed
qed

section \<open>The invariant of the tables\<close>

definition row_ok :: "job \<Rightarrow> bool" where
  "row_ok j \<longleftrightarrow> (if j_state j = Running then j_leased_until j \<noteq> None \<and> j_leased_by j \<noteq> ''''
       else j_leased_until j = None \<and> j_leased_by j = '''') \<and>
     (terminal (j_state j) \<longrightarrow> j_finished j \<noteq> None) \<and> j_state j \<noteq> Failed \<and> 0 \<le> j_attempt j \<and> 1 \<le> j_max j"

definition table_inv :: "job list \<Rightarrow> bool" where
  "table_inv js \<longleftrightarrow> distinct (map j_id js) \<and> index_ok js \<and> (\<forall>j \<in> set js. row_ok j)"

text \<open>What identifies a piece of work, and no operation changes.\<close>

definition work :: "job \<Rightarrow> string \<times> string \<times> string \<times> string \<times> json \<times> int \<times> string \<times> int" where
  "work j = (j_id j, j_workspace j, j_queue j, j_type j, j_payload j, j_max j, j_dedupe j, j_created j)"

lemma finish_row_cases:
  obtains "finish_row clock now draw j e = succeed_row now" "e = None"
  | r where "finish_row clock now draw j e = bury_row now (re_text r)" "e = Some r" "re_permanent r \<or> j_max j \<le> j_attempt j"
  | r where "finish_row clock now draw j e = requeue_row (clock + backoff draw (j_attempt j)) (re_text r)"
      "e = Some r" "\<not> re_permanent r" "j_attempt j < j_max j"
proof (cases e)
  case None
  then show thesis using that(1) by (simp add: finish_row_def)
next
  case (Some r)
  then show thesis using that(2) [of r] that(3) [of r] by (cases "re_permanent r \<or> j_max j \<le> j_attempt j") (auto simp: finish_row_def)
qed

lemma rows_keep_work [simp]:
  "work (cancel_row t j) = work j" "work (retry_row t j) = work j" "work (claim_row t l w j) = work j"
  "work (reclaim_row j) = work j" "work (succeed_row t j) = work j" "work (bury_row t m j) = work j"
  "work (requeue_row t m j) = work j"
  by (simp_all add: work_def cancel_row_def retry_row_def claim_row_def reclaim_row_def succeed_row_def
      bury_row_def requeue_row_def)

lemma finish_row_work [simp]: "work (finish_row clock now draw j e r) = work r"
  by (cases rule: finish_row_cases [of clock now draw j e]) simp_all

lemma work_id: "work a = work b \<Longrightarrow> j_id a = j_id b"
  by (simp add: work_def)

lemma update_keeps_ids:
  "(\<And>r. work (f r) = work r) \<Longrightarrow> map j_id (update_where P f js) = map j_id js"
  by (rule map_update_where) (auto intro: work_id)

lemma update_table_inv:
  assumes "table_inv js" "\<And>r. work (f r) = work r" "\<And>r. r \<in> set js \<Longrightarrow> P r \<Longrightarrow> row_ok (f r)"
    and "index_ok (update_where P f js)"
  shows "table_inv (update_where P f js)"
  using assms update_keeps_ids [of f P js] by (auto simp: table_inv_def set_update_where)

lemma row_okD:
  "row_ok j \<Longrightarrow> (j_leased_until j \<noteq> None) = (j_state j = Running) \<and> (j_leased_by j \<noteq> '''') = (j_state j = Running) \<and>
     (terminal (j_state j) \<longrightarrow> j_finished j \<noteq> None) \<and> j_state j \<noteq> Failed"
  by (cases "j_state j = Running") (simp_all add: row_ok_def)

lemma rows_ok:
  "row_ok j \<Longrightarrow> j_state j = Pending \<Longrightarrow> row_ok (cancel_row t j)"
  "row_ok j \<Longrightarrow> row_ok (retry_row t j)"
  "row_ok j \<Longrightarrow> w \<noteq> '''' \<Longrightarrow> row_ok (claim_row t l w j)"
  "row_ok j \<Longrightarrow> row_ok (reclaim_row j)"
  "row_ok j \<Longrightarrow> row_ok (finish_row c n d k e j)"
proof -
  show "row_ok j \<Longrightarrow> row_ok (finish_row c n d k e j)"
    by (cases rule: finish_row_cases [of c n d k e])
      (auto simp: row_ok_def succeed_row_def bury_row_def requeue_row_def terminal_def)
qed (auto simp: row_ok_def cancel_row_def retry_row_def claim_row_def reclaim_row_def terminal_def)

lemma client_step_inv: "client_step t js js' \<Longrightarrow> table_inv js \<Longrightarrow> table_inv js'"
proof (induction rule: client_step.induct)
  case (inserted j js i sp)
  then show ?case by (auto simp: table_inv_def row_ok_def terminal_def)
next
  case (cancelled P js)
  then show ?case by (intro update_table_inv) (auto simp: table_inv_def rows_ok(1))
next
  case (retried P js)
  then show ?case
    by (intro update_table_inv) (auto simp: table_inv_def rows_ok(2))
next
  case (pruned js P)
  then show ?case by (auto simp: table_inv_def delete_where_def index_ok_filter distinct_map_filter)
qed simp

lemma table_step_inv: "table_step t js js' \<Longrightarrow> table_inv js \<Longrightarrow> table_inv js'"
proof (induction rule: table_step.induct)
  case (client js js')
  then show ?case by (rule client_step_inv)
next
  case (claimed c js wid lease)
  have c: "r = c" if "r \<in> set js" "j_id r = j_id c" for r
    using key_unique [of j_id js r c] claimed that by (simp add: table_inv_def)
  have "index_ok (update_where (\<lambda>r. j_id r = j_id c) (claim_row t lease wid) js)"
    using claimed c
    by (subst index_ok_update)
      (auto simp: table_inv_def indexed_def dedupe_key_def claim_row_def live_state_def)
  then show ?case using claimed
    by (intro update_table_inv) (auto simp: table_inv_def rows_ok(3))
next
  case (finished j draw e js)
  then show ?case by (intro update_table_inv) (auto simp: table_inv_def rows_ok(5))
next
  case (reclaimed js)
  then show ?case
    by (intro update_table_inv) (auto simp: table_inv_def rows_ok(4))
qed

lemma queue_act_jobs:
  assumes "table_inv (db_jobs (qs_db s))"
  shows "table_step (qs_now s) (db_jobs (qs_db s)) (db_jobs (qs_db (queue_act a fs s)))"
proof (cases a)
  case (Claim k wid dur locked tie)
  obtain r d fs' where c: "claim (qs_now s) (qs_now s + dur) wid locked tie (qs_db s, fs) = (r, d, fs')"
    by (metis prod_cases3)
  show ?thesis
  proof (cases "qs_hand s k \<noteq> None \<or> wid = ''''")
    case True
    then show ?thesis using Claim by (auto simp: queue_act_def intro: table_same)
  next
    case False
    have "qs_db (queue_act a fs s) = d"
      using Claim False c by (auto simp: queue_act_def split: sum.splits option.splits)
    then show ?thesis using claim_step [OF c] False by simp
  qed
next
  case (Prune before limit)
  have "distinct (map j_id (db_jobs (qs_db s)))" using assms by (simp add: table_inv_def)
  from table_step.client [OF prune_step [OF this]] show ?thesis using Prune by (simp add: queue_act_def after_tx_def)
qed (auto simp: queue_act_def after_tx_def finish_step reclaim_step table_same split: option.splits
    intro: table_step.client enqueue_step ensure_scheduled_step cancel_step retry_step)

lemma queue_act_inv: "table_inv (db_jobs (qs_db s)) \<Longrightarrow> table_inv (db_jobs (qs_db (queue_act a fs s)))"
  using table_step_inv queue_act_jobs by blast

lemma queue_run_inv: "table_inv (db_jobs (qs_db s)) \<Longrightarrow> table_inv (db_jobs (qs_db (queue_run as s)))"
  by (induction as s rule: queue_run.induct) (auto intro: queue_act_inv)

lemma table_inv_init: "table_inv (db_jobs (qs_db (queue_init t)))"
  by (simp add: queue_init_def table_inv_def index_ok_def)

lemma table_step_keeps:
  assumes "table_step t js js'" "j \<in> set js" "\<not> terminal (j_state j)"
  shows "\<exists>j' \<in> set js'. work j' = work j"
proof -
  have u: "\<exists>j' \<in> set (update_where P f js). work j' = work j" if "\<And>r. work (f r) = work r" for P f
    using assms(2) that by (intro bexI [of _ "if P j then f j else j"]) (auto simp: update_where_def)
  show ?thesis using assms(1)
  proof cases
    case client
    then show ?thesis using assms(2,3)
      by cases (auto simp: delete_where_def intro: u bexI [of _ j])
  qed (auto intro: u)
qed

section \<open>The retry budget\<close>

definition within_budget :: "job \<Rightarrow> bool" where
  "within_budget j \<longleftrightarrow> j_attempt j \<le> j_max j \<and> (j_state j = Pending \<longrightarrow> j_attempt j < j_max j)"

text \<open>A worker has in hand the very row of the table, and no other worker has it.\<close>

definition budget_inv :: "queue_sys \<Rightarrow> bool" where
  "budget_inv s \<longleftrightarrow> table_inv (db_jobs (qs_db s)) \<and> (\<forall>j \<in> set (db_jobs (qs_db s)). within_budget j) \<and>
     (\<forall>k j. qs_hand s k = Some j \<longrightarrow> j \<in> set (db_jobs (qs_db s)) \<and> j_state j = Running) \<and>
     (\<forall>k k' j j'. qs_hand s k = Some j \<and> qs_hand s k' = Some j' \<and> j_id j = j_id j' \<longrightarrow> k = k')"

lemma client_step_budget:
  assumes "client_step t js js'" "\<forall>j \<in> set js. row_ok j \<and> within_budget j"
  shows "(\<forall>j \<in> set js'. within_budget j) \<and> (\<forall>j \<in> set js. j_state j = Running \<longrightarrow> j \<in> set js')"
proof -
  have u: "(\<forall>j \<in> set js. j_state j = Running \<longrightarrow> j \<in> set (update_where P f js))"
    if "\<And>j. P j \<Longrightarrow> j_state j \<noteq> Running" for P f
    using that by (auto simp: set_update_where intro!: bexI)
  show ?thesis using assms
  proof cases
    case (inserted j i sp)
    then show ?thesis using assms(2) new_job_sel(4) [of i t t sp] by (auto simp: within_budget_def simp del: new_job_sel(4))
  next
    case (cancelled P)
    then show ?thesis using assms(2) u [of P "cancel_row t"]
      by (auto simp: set_update_where within_budget_def cancel_row_def)
  next
    case (retried P)
    have "\<And>j. P j \<Longrightarrow> j_state j \<noteq> Running" using retried(3) by (metis job_state.distinct terminal_def)
    moreover have "within_budget (retry_row t r)" if "row_ok r" for r
      using that by (auto simp: within_budget_def retry_row_def row_ok_def split: if_splits)
    ultimately show ?thesis using retried assms(2) u [of P "retry_row t"]
      by (auto simp: set_update_where)
  next
    case (pruned P)
    have "\<not> P j" if "j \<in> set js" "j_state j = Running" for j
      using pruned(2) [OF that(1)] that(2) by (auto simp: terminal_def)
    then show ?thesis using pruned(1) assms(2) by (auto simp: delete_where_def)
  qed simp
qed

lemma budget_client:
  assumes "budget_inv s" "client_step (qs_now s) (db_jobs (qs_db s)) (db_jobs d)"
  shows "budget_inv (s\<lparr>qs_db := d\<rparr>)"
  using assms client_step_budget [OF assms(2)] client_step_inv [OF assms(2)]
  unfolding budget_inv_def table_inv_def by auto

lemma budget_claim:
  assumes "budget_inv s" "qs_hand s k = None" "wid \<noteq> ''''"
    and c: "c \<in> set (db_jobs (qs_db s))" "j_state c = Pending"
    and js: "db_jobs d = update_where (\<lambda>r. j_id r = j_id c) (claim_row now lease wid) (db_jobs (qs_db s))"
  shows "budget_inv (s\<lparr>qs_db := d, qs_hand := (qs_hand s)(k \<mapsto> claim_row now lease wid c)\<rparr>)"
proof -
  have inv: "table_inv (db_jobs d)" unfolding js
    using table_step_inv [OF table_step.claimed [OF c assms(3)]] assms(1) by (simp add: budget_inv_def)
  have rows: "r \<in> set (db_jobs d) \<longleftrightarrow> r = claim_row now lease wid c \<or> r \<in> set (db_jobs (qs_db s)) \<and> j_id r \<noteq> j_id c" for r
    unfolding js by (rule set_update_key) (use assms(1) c in \<open>auto simp: budget_inv_def table_inv_def\<close>)
  have "within_budget c" using assms(1) c(1) by (simp add: budget_inv_def)
  then have "within_budget (claim_row now lease wid c)"
    using c(2) by (simp add: within_budget_def claim_row_def)
  then have b: "\<forall>j \<in> set (db_jobs d). within_budget j"
    using assms(1) by (auto simp: rows budget_inv_def)
  have other: "r \<in> set (db_jobs d) \<and> j_id r \<noteq> j_id c" if "qs_hand s k' = Some r" for k' r
  proof -
    have r: "r \<in> set (db_jobs (qs_db s))" "j_state r = Running" using assms(1) that by (auto simp: budget_inv_def)
    then have "j_id r \<noteq> j_id c"
      using key_unique [of j_id "db_jobs (qs_db s)" r c] assms(1) c by (auto simp: budget_inv_def table_inv_def)
    then show ?thesis using r(1) by (simp add: rows)
  qed
  have mine: "claim_row now lease wid c \<in> set (db_jobs d)" by (simp add: rows)
  have idc: "j_id (claim_row now lease wid c) = j_id c" "j_state (claim_row now lease wid c) = Running"
    by (simp_all add: claim_row_def)
  show ?thesis unfolding budget_inv_def
  proof (intro conjI allI impI)
    fix k1 k2 j1 j2
    assume "qs_hand (s\<lparr>qs_db := d, qs_hand := (qs_hand s)(k \<mapsto> claim_row now lease wid c)\<rparr>) k1 = Some j1 \<and>
      qs_hand (s\<lparr>qs_db := d, qs_hand := (qs_hand s)(k \<mapsto> claim_row now lease wid c)\<rparr>) k2 = Some j2 \<and> j_id j1 = j_id j2"
    then show "k1 = k2" using other idc assms(1)
      by (auto simp: budget_inv_def split: if_splits)
  qed (use inv b other mine idc assms(1) in \<open>auto simp: budget_inv_def split: if_splits\<close>)
qed

lemma budget_finish:
  assumes "budget_inv s" "qs_hand s k = Some j"
    and js: "db_jobs d = update_where (\<lambda>r. j_id r = j_id j) (finish_row t t draw j e) (db_jobs (qs_db s))"
    and ix: "index_ok (db_jobs d)"
  shows "budget_inv (s\<lparr>qs_db := d, qs_hand := (qs_hand s)(k := None)\<rparr>)"
proof -
  have inv: "table_inv (db_jobs d)" unfolding js
    using table_step_inv [OF table_step.finished] ix assms(1) js by (simp add: budget_inv_def)
  have jj: "j \<in> set (db_jobs (qs_db s))" "within_budget j" using assms(1,2) by (auto simp: budget_inv_def)
  have rows: "r \<in> set (db_jobs d) \<longleftrightarrow> r = finish_row t t draw j e j \<or> r \<in> set (db_jobs (qs_db s)) \<and> j_id r \<noteq> j_id j" for r
    unfolding js by (rule set_update_key) (use assms(1) jj in \<open>auto simp: budget_inv_def table_inv_def\<close>)
  have "within_budget (finish_row t t draw j e j)"
    using jj(2) by (cases rule: finish_row_cases [of t t draw j e])
      (auto simp: within_budget_def succeed_row_def bury_row_def requeue_row_def)
  then have b: "\<forall>r \<in> set (db_jobs d). within_budget r"
    using assms(1) by (auto simp: budget_inv_def rows)
  have other: "r \<in> set (db_jobs d)" if "qs_hand s k' = Some r" "k' \<noteq> k" for k' r
  proof -
    have "r \<in> set (db_jobs (qs_db s))" "j_id r \<noteq> j_id j"
      using assms(1,2) that unfolding budget_inv_def by metis+
    then show ?thesis by (simp add: rows)
  qed
  show ?thesis unfolding budget_inv_def
    using inv b other assms(1) by (auto simp: budget_inv_def split: if_splits)
qed

lemma budget_hand: "budget_inv s \<Longrightarrow> budget_inv (s\<lparr>qs_hand := (qs_hand s)(k := None)\<rparr>)"
  by (auto simp: budget_inv_def split: if_splits)

lemma queue_act_budget:
  assumes "budget_inv s" "a \<noteq> Reclaim"
  shows "budget_inv (queue_act a fs s)"
proof (cases a)
  case (Claim k wid dur locked tie)
  show ?thesis
  proof (cases "qs_hand s k \<noteq> None \<or> wid = ''''")
    case True
    then show ?thesis using Claim assms by (auto simp: queue_act_def)
  next
    case False
    obtain r d fs' where c: "claim (qs_now s) (qs_now s + dur) wid locked tie (qs_db s, fs) = (r, d, fs')"
      by (metis prod_cases3)
    show ?thesis
    proof (cases r)
      case (Inl e)
      then have "d = qs_db s" using c by (simp add: claim_def sql_Inl)
      then show ?thesis using Claim False c Inl assms by (simp add: queue_act_def)
    next
      case (Inr x)
      from claim_Inr [OF c [unfolded Inr]] show ?thesis
      proof (elim disjE bexE conjE)
        assume "x = None" "d = qs_db s"
        then show ?thesis using Claim False c Inr assms by (simp add: queue_act_def)
      next
        fix cand
        assume a: "cand \<in> set (claim_candidates (qs_now s) locked (qs_db s))"
          "x = Some (claim_row (qs_now s) (qs_now s + dur) wid cand)"
          "d = (qs_db s)\<lparr>db_jobs := update_where (\<lambda>j. j_id j = j_id cand)
             (claim_row (qs_now s) (qs_now s + dur) wid) (db_jobs (qs_db s))\<rparr>"
        have "cand \<in> set (db_jobs (qs_db s))" "j_state cand = Pending"
          using claim_candidates_in [OF a(1)] by (auto simp: eligible_def)
        from budget_claim [OF assms(1) _ _ this, of k wid d "qs_now s" "qs_now s + dur"] a False
        show ?thesis using Claim c Inr by (simp add: queue_act_def)
      qed
    qed
  qed
next
  case (Finish k aid e draw dur)
  show ?thesis
  proof (cases "qs_hand s k")
    case None
    then show ?thesis using Finish assms by (simp add: queue_act_def)
  next
    case (Some j)
    obtain r d fs' where f: "finish aid (qs_now s) (qs_now s) draw dur j e (qs_db s, fs) = (r, d, fs')"
      by (metis prod_cases3)
    show ?thesis
    proof (cases r)
      case (Inl x)
      then have "d = qs_db s" using f unfolding finish_def by (simp only:) (rule with_tx_rolls_back)
      then show ?thesis using Finish Some f budget_hand [OF assms(1)] by (simp add: queue_act_def after_tx_def)
    next
      case (Inr u)
      from finish_Inr [OF f [unfolded Inr]] have "budget_inv (s\<lparr>qs_db := d, qs_hand := (qs_hand s)(k := None)\<rparr>)"
        by (intro budget_finish [OF assms(1) Some]) auto
      then show ?thesis using Finish Some f by (simp add: queue_act_def after_tx_def)
    qed
  qed
next
  case (Prune before limit)
  have "distinct (map j_id (db_jobs (qs_db s)))" using assms by (simp add: budget_inv_def table_inv_def)
  from budget_client [OF assms(1) prune_step [OF this]] Prune show ?thesis by (simp add: queue_act_def after_tx_def)
next
  case (Crash k)
  then show ?thesis using budget_hand [OF assms(1)] by (simp add: queue_act_def)
next
  case (Tick n)
  then show ?thesis using assms(1) by (simp add: queue_act_def budget_inv_def)
qed (use assms in \<open>auto simp: queue_act_def after_tx_def
    intro!: budget_client enqueue_step ensure_scheduled_step cancel_step retry_step\<close>)

lemma queue_run_budget:
  "budget_inv s \<Longrightarrow> list_all (\<lambda>x. fst x \<noteq> Reclaim) as \<Longrightarrow> budget_inv (queue_run as s)"
  by (induction as s rule: queue_run.induct) (auto intro: queue_act_budget)

section \<open>The claim order\<close>

lemma best_exists: "es \<noteq> [] \<Longrightarrow> \<exists>a \<in> set es. \<forall>b \<in> set es. claims_before a b"
proof (induction es)
  case (Cons e es)
  show ?case
  proof (cases "es = []")
    case False
    then obtain a where a: "a \<in> set es" "\<forall>b \<in> set es. claims_before a b" using Cons.IH by blast
    have "claims_before e a \<or> claims_before a e" by (auto simp: claims_before_def)
    moreover have "claims_before e b" if "claims_before e a" "claims_before a b" for b
      using that by (auto simp: claims_before_def)
    moreover have "claims_before e e" by (simp add: claims_before_def)
    ultimately show ?thesis using a by (metis insert_iff list.simps(15))
  qed (simp add: claims_before_def)
qed simp

lemma claim_candidates_Nil:
  "claim_candidates now locked d = [] \<longleftrightarrow> (\<forall>j \<in> set (db_jobs d). \<not> eligible now locked j)"
proof
  assume n: "claim_candidates now locked d = []"
  show "\<forall>j \<in> set (db_jobs d). \<not> eligible now locked j"
  proof (rule ccontr)
    assume "\<not> ?thesis"
    then have "filter (eligible now locked) (db_jobs d) \<noteq> []" by (auto simp: filter_empty_conv)
    from best_exists [OF this] n show False
      by (auto simp: claim_candidates_def Let_def list_all_iff filter_empty_conv)
  qed
qed (auto simp: claim_candidates_def Let_def filter_empty_conv)

section \<open>Work with a deduplication key\<close>

text \<open>
  What the modules that enqueue with a key rely on: \<open>enq\<close> says whether it added work,
  \<open>pending\<close> counts the live work of a key.
\<close>

locale keyed_queue =
  fixes valid :: "'d \<Rightarrow> bool"
    and enq :: "'s \<Rightarrow> 'd \<Rightarrow> bool \<times> 'd"
    and key :: "'s \<Rightarrow> 'k"
    and pending :: "'k \<Rightarrow> 'd \<Rightarrow> nat"
  assumes keeps: "valid d \<Longrightarrow> valid (snd (enq s d))"
    and single: "valid d \<Longrightarrow> pending (key s) d \<le> 1"
    and added: "valid d \<Longrightarrow> enq s d = (True, d') \<Longrightarrow> pending (key s) d = 0 \<and> pending (key s) d' = 1"
    and refused: "valid d \<Longrightarrow> enq s d = (False, d') \<Longrightarrow> d' = d"
begin

text \<open>Reacting twice to the same signal leaves one piece of work, whatever the first time did.\<close>

lemma twice_adds_once:
  assumes "valid d" "enq s d = (True, d1)" "enq s' d1 = (ok, d2)" "key s' = key s"
  shows "\<not> ok \<and> d2 = d1 \<and> pending (key s) d2 = 1"
proof -
  have v: "valid d1" using keeps [OF assms(1), of s] assms(2) by simp
  have one: "pending (key s) d1 = 1" using added [OF assms(1,2)] by simp
  have "\<not> ok"
  proof
    assume "ok"
    then have "pending (key s') d1 = 0" using added [OF v, of s' d2] assms(3) by simp
    then show False using one assms(4) by simp
  qed
  moreover from this have "d2 = d1" using refused [OF v] assms(3) by simp
  ultimately show ?thesis using one by simp
qed

end

text \<open>
  The insert of EnqueueTx keeps the contract, for specs that carry a key; an item is the
  new id, the time and the spec.
\<close>

definition spec_key :: "string \<times> int \<times> spec \<Rightarrow> string \<times> string" where
  "spec_key s = (case s of (i, t, sp) \<Rightarrow> (if sp_queue sp = '''' then default_queue else sp_queue sp, sp_dedupe sp))"

definition live_with_key :: "string \<times> string \<Rightarrow> job_db \<Rightarrow> nat" where
  "live_with_key k d = length (filter (\<lambda>j. indexed j \<and> dedupe_key j = k) (db_jobs d))"

definition keyed_insert :: "string \<times> int \<times> spec \<Rightarrow> job_db \<Rightarrow> bool \<times> job_db" where
  "keyed_insert s d = (case s of (i, t, sp) \<Rightarrow>
     if sp_dedupe sp = '''' then (False, d) else insert_job (new_job i t t sp) d)"

lemma live_with_key_le:
  assumes "index_ok (db_jobs d)"
  shows "live_with_key k d \<le> 1"
proof -
  let ?t = "filter (\<lambda>j. indexed j \<and> dedupe_key j = k) (db_jobs d)"
  have "distinct (map dedupe_key (filter (\<lambda>j. dedupe_key j = k) (filter indexed (db_jobs d))))"
    using assms unfolding index_ok_def by (rule distinct_map_filter)
  then have "distinct (map dedupe_key ?t)" by simp
  moreover have "set (map dedupe_key ?t) \<subseteq> {k}" by auto
  ultimately have "length (map dedupe_key ?t) = card (set (map dedupe_key ?t))"
    and "card (set (map dedupe_key ?t)) \<le> card {k}"
    by (simp only: distinct_card, intro card_mono) simp_all
  then show ?thesis by (simp add: live_with_key_def)
qed

lemma dedupe_key_new: "dedupe_key (new_job i t u sp) = spec_key (i, t', sp)"
  by (simp add: dedupe_key_def new_job_def spec_key_def)

lemma insert_job_key:
  assumes "index_ok (db_jobs d)" "sp_dedupe sp \<noteq> ''''" "insert_job (new_job i t t sp) d = (True, d')"
  shows "live_with_key (spec_key (i, t, sp)) d = 0 \<and> live_with_key (spec_key (i, t, sp)) d' = 1"
proof -
  have ix: "index_ok (db_jobs d @ [new_job i t t sp])" and d': "d' = d\<lparr>db_jobs := db_jobs d @ [new_job i t t sp]\<rparr>"
    using assms(3) by (auto simp: insert_job_def split: if_splits)
  have "indexed (new_job i t t sp)" using assms(2) by (simp add: indexed_def live_state_def)
  then have "live_with_key (spec_key (i, t, sp)) d' = live_with_key (spec_key (i, t, sp)) d + 1"
    by (simp add: d' live_with_key_def dedupe_key_new [where t' = t])
  moreover have "live_with_key (spec_key (i, t, sp)) d' \<le> 1" by (rule live_with_key_le) (simp add: d' ix)
  ultimately show ?thesis by simp
qed

interpretation jq: keyed_queue "\<lambda>d. index_ok (db_jobs d)" keyed_insert spec_key live_with_key
proof
  fix d :: job_db and s :: "string \<times> int \<times> spec"
  assume "index_ok (db_jobs d)"
  then show "index_ok (db_jobs (snd (keyed_insert s d)))" "live_with_key (spec_key s) d \<le> 1"
    using live_with_key_le [of d "spec_key s"]
    by (auto simp: keyed_insert_def insert_job_def split: prod.splits)
next
  fix d d' :: job_db and s :: "string \<times> int \<times> spec"
  obtain i t sp where s: "s = (i, t, sp)" by (metis prod_cases3)
  assume a: "index_ok (db_jobs d)" "keyed_insert s d = (True, d')"
  then show "live_with_key (spec_key s) d = 0 \<and> live_with_key (spec_key s) d' = 1"
    using insert_job_key [of d sp i t d'] by (simp add: keyed_insert_def s split: if_splits)
next
  fix d d' :: job_db and s :: "string \<times> int \<times> spec"
  assume "keyed_insert s d = (False, d')"
  then show "d' = d" by (auto simp: keyed_insert_def insert_job_def split: if_splits prod.splits)
qed

lemma enqueue_job_keyed:
  assumes "sp_type sp \<noteq> ''''" "sp_dedupe sp \<noteq> ''''"
  shows "enqueue_job i t t sp (d, []) = (case keyed_insert (i, t, sp) d of
      (True, d') \<Rightarrow> (Inr i, d', []) | (False, _) \<Rightarrow> (Inl (Err ErrDuplicate), d, []))"
  using assms by (simp add: enqueue_job_def enqueue_tx_def with_tx_def tx_bind_def keyed_insert_def
      tx_ret_def tx_fail_def split: prod.split bool.split)

section \<open>A lease that runs out\<close>

lemma reclaim_no_fault:
  assumes "table_inv (db_jobs d)"
  shows "\<exists>n. reclaim t (d, []) = (Inr n, d\<lparr>db_jobs := update_where (lease_expired t) reclaim_row (db_jobs d)\<rparr>, [])"
proof -
  have "index_ok (update_where (lease_expired t) reclaim_row (db_jobs d))"
    using assms by (subst index_ok_update)
      (auto simp: table_inv_def indexed_def dedupe_key_def reclaim_row_def live_state_def lease_expired_def)
  then show ?thesis by (simp add: reclaim_def update_jobs_def Let_def)
qed

section \<open>Properties\<close>

text \<open>
  C25: the tables stay consistent.  Whatever the clients and workers do, in any order, with
  any statement failing at any point, job ids stay unique, no two live jobs of a queue
  carry the same deduplication key, a job has a lease exactly while it is running, and a
  job that ended has a finish time.  No operation ever writes the state failed.
\<close>

theorem queue_tables_consistent:
  "let js = db_jobs (qs_db (queue_run as (queue_init t))) in
     distinct (map j_id js) \<and>
     distinct (map dedupe_key (filter indexed js)) \<and>
     (\<forall>j \<in> set js. (j_leased_until j \<noteq> None) = (j_state j = Running) \<and> (j_leased_by j \<noteq> '''') = (j_state j = Running) \<and>
        (terminal (j_state j) \<longrightarrow> j_finished j \<noteq> None) \<and> j_state j \<noteq> Failed)"
  using queue_run_inv [OF table_inv_init [of t], of as] row_okD
  unfolding Let_def table_inv_def index_ok_def by blast

definition demo_spec :: spec where
  "demo_spec = \<lparr> sp_workspace = ''wrk_1'', sp_queue = '''', sp_type = ''webhook.deliver'', sp_payload = None,
     sp_priority = 0, sp_run_at = None, sp_max = 2, sp_dedupe = ''evt_1'' \<rparr>"

definition run_failed :: "run_error" where
  "run_failed = \<lparr>re_text = ''timeout'', re_permanent = False, re_deadline = True\<rparr>"

definition demo_claim :: "nat \<Rightarrow> queue_action \<times> bool list" where
  "demo_claim k = (Claim k ''wkr_1'' 60 (\<lambda>_. False) 0, [])"

theorem queue_tables_consistent_witness:
  "distinct (map j_id (db_jobs (qs_db (queue_run [(Enqueue ''job_1'' demo_spec, [])] (queue_init 0)))))
   \<and> map j_id (db_jobs (qs_db (queue_run [(Enqueue ''job_1'' demo_spec, [])] (queue_init 0)))) = [''job_1'']"
proof -
  have "map j_id (db_jobs (qs_db (queue_run [(Enqueue ''job_1'' demo_spec, [])] (queue_init 0)))) = [''job_1'']"
    by code_simp
  with queue_tables_consistent [of "[(Enqueue ''job_1'' demo_spec, [])]" 0] show ?thesis
    unfolding Let_def by blast
qed

text \<open>
  Live work is never lost.  From any reachable state, no action deletes a job that is
  not in a terminal state, and none changes what the job is to do (workspace, queue,
  type, payload, key, retry budget).
\<close>

theorem live_work_survives:
  assumes "j \<in> set (db_jobs (qs_db (queue_run as (queue_init t))))" and "\<not> terminal (j_state j)"
  shows "\<exists>j' \<in> set (db_jobs (qs_db (queue_act a fs (queue_run as (queue_init t))))). work j' = work j"
  using table_step_keeps [OF queue_act_jobs [OF queue_run_inv [OF table_inv_init]] assms] .

theorem live_work_survives_witness:
  "\<exists>j' \<in> set (db_jobs (qs_db (queue_act (Prune 99 10) [] (queue_run [(Enqueue ''job_1'' demo_spec, []), demo_claim 0] (queue_init 0))))).
     j_id j' = ''job_1''"
proof -
  let ?s = "queue_run [(Enqueue ''job_1'' demo_spec, []), demo_claim 0] (queue_init 0)"
  have n: "map (\<lambda>j. (j_id j, terminal (j_state j))) (db_jobs (qs_db ?s)) = [(''job_1'', False)]" by code_simp
  then obtain j where j: "j \<in> set (db_jobs (qs_db ?s))" "j_id j = ''job_1''" "\<not> terminal (j_state j)" by auto
  from live_work_survives [OF j(1,3), of "Prune 99 10" "[]"] j(2) show ?thesis using work_id by metis
qed

text \<open>
  The claim takes the best eligible job and only that.  It returns nothing exactly
  when no unlocked pending job is due; otherwise the job it returns was due, no other due
  job has a higher priority or the same priority and an earlier schedule, it is now
  running under the worker's lease with its attempt counted, and no other row changed.
\<close>

theorem claim_takes_best:
  assumes "claim now lease wid locked tie (d, fs) = (Inr r, d', fs')"
  shows "case r of
      None \<Rightarrow> d' = d \<and> (\<forall>j \<in> set (db_jobs d). \<not> eligible now locked j)
    | Some j \<Rightarrow> \<exists>c \<in> set (db_jobs d). eligible now locked c \<and>
        (\<forall>b \<in> set (db_jobs d). eligible now locked b \<longrightarrow> claims_before c b) \<and>
        j = claim_row now lease wid c \<and> db_attempts d' = db_attempts d \<and>
        db_jobs d' = map (\<lambda>b. if j_id b = j_id c then claim_row now lease wid b else b) (db_jobs d)"
proof -
  have "\<forall>b \<in> set (db_jobs d). eligible now locked b \<longrightarrow> claims_before c b"
    if "c \<in> set (claim_candidates now locked d)" for c
    using that by (auto simp: claim_candidates_def Let_def list_all_iff)
  note best = this
  from claim_Inr [OF assms] show ?thesis
  proof
    assume "r = None \<and> d' = d \<and> claim_candidates now locked d = []"
    then show ?thesis by (simp add: claim_candidates_Nil)
  next
    assume "\<exists>c \<in> set (claim_candidates now locked d). r = Some (claim_row now lease wid c) \<and>
       d' = d\<lparr>db_jobs := update_where (\<lambda>j. j_id j = j_id c) (claim_row now lease wid) (db_jobs d)\<rparr>"
    then obtain c where "c \<in> set (claim_candidates now locked d)" "r = Some (claim_row now lease wid c)"
      "d' = d\<lparr>db_jobs := update_where (\<lambda>j. j_id j = j_id c) (claim_row now lease wid) (db_jobs d)\<rparr>" by blast
    then show ?thesis using best [of c] claim_candidates_in [of c now locked d]
      by (simp add: update_where_def) blast
  qed
qed

theorem claim_takes_best_witness:
  "\<exists>d'. claim 5 65 ''wkr_1'' (\<lambda>_. False) 0 (\<lparr>db_jobs = [new_job ''job_1'' 0 0 demo_spec], db_attempts = []\<rparr>, [])
     = (Inr (Some (claim_row 5 65 ''wkr_1'' (new_job ''job_1'' 0 0 demo_spec))) :: jobs_error err + job option, d', []) \<and>
   db_jobs d' = [claim_row 5 65 ''wkr_1'' (new_job ''job_1'' 0 0 demo_spec)]"
proof -
  let ?d = "\<lparr>db_jobs = [new_job ''job_1'' 0 0 demo_spec], db_attempts = []\<rparr>"
  have s: "j_scheduled (new_job ''job_1'' 0 0 demo_spec) = 0" by (simp add: new_job_def demo_spec_def)
  have "claim_candidates 5 (\<lambda>_. False) ?d = [new_job ''job_1'' 0 0 demo_spec]"
    by (simp add: claim_candidates_def eligible_def claims_before_def s)
  then obtain d' where c: "claim 5 65 ''wkr_1'' (\<lambda>_. False) 0 (?d, [])
      = (Inr (Some (claim_row 5 65 ''wkr_1'' (new_job ''job_1'' 0 0 demo_spec))) :: jobs_error err + job option, d', [])"
    by (simp add: claim_def Let_def)
  from claim_takes_best [OF c] c show ?thesis by auto
qed

text \<open>
  C26: the bookkeeping after a run is all or nothing.  If any statement fails nothing is
  written; otherwise the attempt is recorded with its outcome and the job is succeeded,
  dead (a permanent error, or no attempts left) or pending again after the backoff.
\<close>

theorem finish_all_or_nothing:
  assumes "finish aid clock now draw duration j e (d, fs) = (r, d', fs')"
  shows "case r of
      Inl _ \<Rightarrow> d' = d
    | Inr _ \<Rightarrow> (\<exists>a. db_attempts d' = db_attempts d @ [a] \<and> a_job a = j_id j \<and> a_attempt a = j_attempt j \<and>
          a_outcome a = outcome_of e \<and> a_error a = err_text e) \<and>
        db_jobs d' = map (\<lambda>b. if j_id b = j_id j then
            (case e of None \<Rightarrow> succeed_row now b
             | Some x \<Rightarrow> if re_permanent x \<or> j_attempt j \<ge> j_max j then bury_row now (re_text x) b
                        else requeue_row (clock + backoff draw (j_attempt j)) (re_text x) b) else b) (db_jobs d)"
proof (cases r)
  case (Inl x)
  then have "d' = d" using assms unfolding finish_def by (simp only:) (rule with_tx_rolls_back)
  then show ?thesis using Inl by simp
next
  case (Inr u)
  show ?thesis using finish_Inr [OF assms [unfolded Inr]] Inr
    by (auto simp: update_where_def finish_row_def split: option.splits)
qed

theorem finish_all_or_nothing_witness:
  "\<exists>d' fs'. finish ''jba_1'' 9 9 0 0 (new_job ''job_1'' 0 0 demo_spec) (Some run_failed)
      (\<lparr>db_jobs = [new_job ''job_1'' 0 0 demo_spec], db_attempts = []\<rparr>, []) = (Inr (), d', fs') \<and>
    db_jobs d' = [requeue_row (9 + backoff 0 0) ''timeout'' (new_job ''job_1'' 0 0 demo_spec)]"
proof -
  let ?j = "new_job ''job_1'' 0 0 demo_spec"
  let ?d = "\<lparr>db_jobs = [?j], db_attempts = []\<rparr>"
  have m: "j_max ?j = 2" by (simp add: new_job_def demo_spec_def)
  have ix: "index_ok [x]" for x by (simp add: index_ok_def)
  obtain d' fs' where f: "finish ''jba_1'' 9 9 0 0 ?j (Some run_failed) (?d, []) = (Inr (), d', fs')"
    by (simp add: finish_def with_tx_def tx_bind_def insert_attempt_def update_jobs_def ix tx_ret_def)
  from finish_all_or_nothing [OF f] f m show ?thesis by (simp add: run_failed_def)
qed

text \<open>
  The retry delay.  For every attempt number and every random draw the delay is
  positive and at most the exponential ceiling min(2 s * 2^(n-1), 30 min), which never
  decreases and never overflows.
\<close>

theorem backoff_bounds:
  assumes "1 \<le> n"
  shows "1 \<le> backoff draw n \<and> backoff draw n \<le> backoff_ceiling n \<and>
    backoff_ceiling n = min (2000000000 * 2 ^ nat (n - 1)) 1800000000000 \<and> backoff_ceiling n \<le> backoff_ceiling (n + 1)"
proof -
  have c: "backoff_ceiling n = min (2000000000 * 2 ^ nat (n - 1)) 1800000000000" if "1 \<le> n" for n :: int
  proof (cases "n - 1 \<le> 20")
    case True
    then show ?thesis using that by (simp add: backoff_ceiling_def backoff_base_def backoff_max_def min_def not_less)
  next
    case False
    then have "(2::int) ^ 20 \<le> 2 ^ nat (n - 1)" by (intro power_increasing) simp_all
    then show ?thesis using that False
      by (simp add: backoff_ceiling_def backoff_base_def backoff_max_def min_def not_less)
  qed
  have "(2::int) ^ nat (n - 1) \<le> 2 ^ nat (n + 1 - 1)" by (rule power_increasing) simp_all
  then have "backoff_ceiling n \<le> backoff_ceiling (n + 1)"
    using assms c [of n] c [of "n + 1"] by linarith
  moreover have pos: "0 < backoff_ceiling n" using c [OF assms] by simp
  ultimately show ?thesis
    using c [OF assms] pos_mod_sign [OF pos, of draw] pos_mod_bound [OF pos, of draw]
    by (simp add: backoff_def)
qed

theorem backoff_bounds_witness: "1 \<le> backoff 12345 3 \<and> backoff 12345 3 \<le> 8000000000"
  using backoff_bounds [of 3 12345] by (simp add: min_def)

text \<open>
  The retry budget and exclusive execution.  As long as no lease is reclaimed, no job
  is ever attempted more often than its budget and no two workers have the same job in
  hand, whatever fails or crashes.
\<close>

theorem budget_without_reclaim:
  assumes "list_all (\<lambda>x. fst x \<noteq> Reclaim) as"
  shows "(\<forall>j \<in> set (db_jobs (qs_db (queue_run as (queue_init t)))). j_attempt j \<le> j_max j) \<and>
    (\<forall>k k' j j'. qs_hand (queue_run as (queue_init t)) k = Some j \<and>
       qs_hand (queue_run as (queue_init t)) k' = Some j' \<and> j_id j = j_id j' \<longrightarrow> k = k')"
proof -
  have "budget_inv (queue_init t)" by (simp add: budget_inv_def table_inv_init) (simp add: queue_init_def)
  from queue_run_budget [OF this assms] show ?thesis unfolding budget_inv_def within_budget_def by blast
qed

theorem budget_without_reclaim_witness:
  "\<exists>j. qs_hand (queue_run [(Enqueue ''job_1'' demo_spec, []), demo_claim 0, demo_claim 1] (queue_init 0)) 0 = Some j \<and>
     j_id j = ''job_1'' \<and> j_attempt j \<le> j_max j"
proof -
  let ?as = "[(Enqueue ''job_1'' demo_spec, []), demo_claim 0, demo_claim 1]"
  have n: "list_all (\<lambda>x. fst x \<noteq> Reclaim) ?as" by (simp add: demo_claim_def)
  have "map_option (\<lambda>j. (j_id j, j_attempt j, j_max j)) (qs_hand (queue_run ?as (queue_init 0)) 0) = Some (''job_1'', 1, 2)"
    by code_simp
  then show ?thesis using budget_without_reclaim [OF n, of 0] by auto
qed

text \<open>
  A deduplication key makes enqueueing idempotent.  After work with a key has been
  enqueued, enqueueing under the same queue and key while it is live answers
  ErrDuplicate and changes nothing: exactly one live job carries the key.
\<close>

theorem enqueue_with_key_once:
  assumes "index_ok (db_jobs d)" and "sp_type sp \<noteq> ''''" and "sp_dedupe sp \<noteq> ''''"
    and "enqueue_job i t t sp (d, []) = (Inr r, d1, [])"
  shows "enqueue_job i' t' t' sp (d1, []) = (Inl (Err ErrDuplicate), d1, []) \<and>
    live_with_key (spec_key (i, t, sp)) d1 = 1"
proof -
  have k: "keyed_insert (i, t, sp) d = (True, d1)"
    using assms(4) unfolding enqueue_job_keyed [OF assms(2,3)] by (auto split: prod.splits bool.splits)
  obtain ok d2 where k2: "keyed_insert (i', t', sp) d1 = (ok, d2)" by fastforce
  have "spec_key (i', t', sp) = spec_key (i, t, sp)" by (simp add: spec_key_def)
  from jq.twice_adds_once [OF assms(1) k k2 this] k2
  show ?thesis by (auto simp: enqueue_job_keyed [OF assms(2,3)])
qed

theorem enqueue_with_key_once_witness:
  "\<exists>d1. enqueue_job ''job_1'' 0 0 demo_spec (\<lparr>db_jobs = [], db_attempts = []\<rparr>, []) = (Inr ''job_1'', d1, []) \<and>
     enqueue_job ''job_2'' 7 7 demo_spec (d1, []) = (Inl (Err ErrDuplicate), d1, [])"
proof -
  let ?d = "\<lparr>db_jobs = [], db_attempts = []\<rparr> :: job_db"
  have ix: "index_ok (db_jobs ?d)" by (simp add: index_ok_def)
  have sp: "sp_type demo_spec \<noteq> ''''" "sp_dedupe demo_spec \<noteq> ''''" by (simp_all add: demo_spec_def)
  obtain d1 where e: "enqueue_job ''job_1'' 0 0 demo_spec (?d, []) = (Inr ''job_1'', d1, [])"
    unfolding enqueue_job_keyed [OF sp] using sp by (simp add: keyed_insert_def insert_job_def index_ok_def)
  from enqueue_with_key_once [OF ix sp e, of "''job_2''" 7] e show ?thesis by blast
qed

text \<open>
  One live copy of a recurring schedule.  EnsureScheduled adds a job exactly when no
  live job has its type and no key clashes; the tables then hold one live job of the type.
\<close>

theorem ensure_scheduled_once:
  assumes "ensure_scheduled i clock now sp (d, fs) = (Inr r, d', fs')"
  shows "filter (\<lambda>j. j_type j = sp_type sp \<and> live j) (db_jobs d) = [] \<and>
    filter (\<lambda>j. j_type j = sp_type sp \<and> live j) (db_jobs d') = [new_job i clock now sp]"
  using ensure_scheduled_Inr [OF assms] by (auto simp: list_ex_iff filter_empty_conv live_state_def)

theorem ensure_scheduled_once_witness:
  "\<exists>d'. ensure_scheduled ''job_1'' 3 3 demo_spec (\<lparr>db_jobs = [], db_attempts = []\<rparr>, []) = (Inr ''job_1'', d', []) \<and>
     filter (\<lambda>j. j_type j = ''webhook.deliver'' \<and> live j) (db_jobs d') = [new_job ''job_1'' 3 3 demo_spec]"
proof -
  have sp: "sp_type demo_spec = ''webhook.deliver''" by (simp add: demo_spec_def)
  obtain d' where e: "ensure_scheduled ''job_1'' 3 3 demo_spec (\<lparr>db_jobs = [], db_attempts = []\<rparr>, []) = (Inr ''job_1'', d', [])"
    by (simp add: ensure_scheduled_def enqueue_tx_def with_tx_def tx_bind_def insert_job_def index_ok_def sp
        tx_ret_def)
  from ensure_scheduled_once [OF e] e sp show ?thesis by auto
qed

text \<open>
  C27: a crashed worker loses no job.  In every reachable state one failure-free round of
  the reclaim loop makes each job whose lease has passed pending again and claimable by
  any worker, and leaves all other jobs as they are.
\<close>

theorem reclaim_returns_expired:
  assumes "j \<in> set (db_jobs (qs_db (queue_run as (queue_init t))))"
  shows "\<exists>n d'. reclaim now (qs_db (queue_run as (queue_init t)), []) = (Inr n, d', []) \<and>
    (if lease_expired now j then reclaim_row j else j) \<in> set (db_jobs d') \<and>
    (lease_expired now j \<longrightarrow> eligible (max now (j_scheduled j)) (\<lambda>_. False) (reclaim_row j))"
  using reclaim_no_fault [OF queue_run_inv [OF table_inv_init [of t], of as], of now] assms
  by (auto simp: update_where_def eligible_def reclaim_row_def)

theorem reclaim_returns_expired_witness:
  "\<exists>n d'. reclaim 100 (qs_db (queue_run [(Enqueue ''job_1'' demo_spec, []), demo_claim 0, (Crash 0, [])] (queue_init 0)), []) = (Inr n, d', []) \<and>
     (\<exists>j \<in> set (db_jobs d'). j_id j = ''job_1'' \<and> j_state j = Pending)"
proof -
  let ?s = "queue_run [(Enqueue ''job_1'' demo_spec, []), demo_claim 0, (Crash 0, [])] (queue_init 0)"
  have n: "map (\<lambda>j. (j_id j, lease_expired 100 j)) (db_jobs (qs_db ?s)) = [(''job_1'', True)]" by code_simp
  then obtain j where j: "j \<in> set (db_jobs (qs_db ?s))" "j_id j = ''job_1''" "lease_expired 100 j" by auto
  have r: "j_id (reclaim_row j) = j_id j" "j_state (reclaim_row j) = Pending" by (simp_all add: reclaim_row_def)
  from reclaim_returns_expired [OF j(1), of 100] j r show ?thesis by force
qed

text \<open>
  A late worker revives a cancelled job.  finish updates the job by its id alone; a
  worker whose lease was reclaimed still writes its outcome, so a job that an operator
  has cancelled in between goes back to the queue.
\<close>

theorem late_finish_revives_cancelled:
  "let s = queue_run [(Enqueue ''job_1'' demo_spec, []), demo_claim 0, (Tick 100, []), (Reclaim, []),
             (Cancel ''wrk_1'' ''job_1'', [])] (queue_init 0)
   in map j_state (db_jobs (qs_db s)) = [Cancelled] \<and>
      map j_state (db_jobs (qs_db (queue_act (Finish 0 ''jba_1'' (Some run_failed) 0 0) [] s))) = [Pending]"
  by code_simp

text \<open>
  And lets two workers run one job under valid leases.  After a reclaim the job is
  claimed again; the late report of the first worker frees it although the second one
  holds a lease, and a third worker claims it.
\<close>

theorem late_finish_breaks_exclusion:
  "let s = queue_run [(Enqueue ''job_1'' (demo_spec\<lparr>sp_max := 5\<rparr>), []), demo_claim 0, (Tick 100, []), (Reclaim, []), demo_claim 1,
             (Finish 0 ''jba_1'' (Some run_failed) 0 0, []), (Tick 1, []), demo_claim 2] (queue_init 0)
   in map_option (\<lambda>j. (j_id j, j_leased_until j)) (qs_hand s 1) = Some (''job_1'', Some 160) \<and>
      map_option (\<lambda>j. (j_id j, j_leased_until j)) (qs_hand s 2) = Some (''job_1'', Some 161) \<and> qs_now s = 101"
  by code_simp

text \<open>
  Reclaiming ignores the retry budget.  A job that kills its worker is reclaimed and
  claimed again without limit: with a budget of two attempts the third is running.
\<close>

theorem reclaim_ignores_budget:
  "let round = [demo_claim 0, (Crash 0, []), (Tick 100, []), (Reclaim, [])];
       s = queue_run ((Enqueue ''job_1'' demo_spec, []) # round @ round @ [demo_claim 0]) (queue_init 0)
   in map (\<lambda>j. (j_attempt j, j_max j, j_state j)) (db_jobs (qs_db s)) = [(3, 2, Running)]"
  by code_simp

end
