(* ===== verification/EventConsumer.thy ===== *)
theory EventConsumer
  imports Events
begin

text \<open>
  The durable consumers of the event log (src/internal/events/consumer.go over the table
  event_consumer_cursors of src/embedded/migrations/0049_durable_event_consumers.sql):
  reconciliation, one turn of a consumer over a workspace, and the at-least-once promise.
  What a consumer does with an event is the parameter \<open>handle\<close>; the locale event_handler
  states what Consume demands of it.
\<close>

section \<open>State\<close>

text \<open>event_consumer_cursors as (last_sequence, updated_at), and the running workspace imports.\<close>

record consumer_db = event_db +
  cn_cursors :: "string \<times> string \<Rightarrow> (int \<times> int) option"
  cn_importing :: "string \<Rightarrow> bool"

definition cursor_of :: "string \<Rightarrow> string \<Rightarrow> 'x consumer_db_scheme \<Rightarrow> int" where
  "cursor_of name w d = (case cn_cursors d (name, w) of None \<Rightarrow> 0 | Some (n, _) \<Rightarrow> n)"

definition insert_cursor :: "int \<Rightarrow> string \<Rightarrow> string \<Rightarrow> 'x consumer_db_scheme \<Rightarrow> 'x consumer_db_scheme" where
  "insert_cursor now name w d = (case cn_cursors d (name, w) of
     None \<Rightarrow> d\<lparr>cn_cursors := (cn_cursors d)((name, w) \<mapsto> (0, now))\<rparr> | Some _ \<Rightarrow> d)"

definition move_cursor :: "int \<Rightarrow> string \<Rightarrow> string \<Rightarrow> int \<Rightarrow> 'x consumer_db_scheme \<Rightarrow> 'x consumer_db_scheme" where
  "move_cursor now name w n d = (case cn_cursors d (name, w) of
     None \<Rightarrow> d | Some _ \<Rightarrow> d\<lparr>cn_cursors := (cn_cursors d)((name, w) \<mapsto> (n, now))\<rparr>)"

section \<open>One turn\<close>

text \<open>The inner loop: handle a record, then move the checkpoint past it.\<close>

fun consume_records :: "(event_row \<Rightarrow> ('x consumer_db_scheme, 'e, unit) tx) \<Rightarrow> int \<Rightarrow> string \<Rightarrow> string
    \<Rightarrow> event_row list \<Rightarrow> int \<Rightarrow> ('x consumer_db_scheme, 'e, int) tx" where
  "consume_records handle now name w [] after = tx_ret after"
| "consume_records handle now name w (r # rs) after =
     tx_seq (handle r) (tx_seq (sql_exec (move_cursor now name w (r_sequence r)))
       (consume_records handle now name w rs (r_sequence r)))"

definition consumer_page :: int where "consumer_page = 200"
definition consumer_turn :: nat where "consumer_turn = 5"

fun consume_pages :: "nat \<Rightarrow> (event_row \<Rightarrow> ('x consumer_db_scheme, 'e, unit) tx) \<Rightarrow> int \<Rightarrow> string \<Rightarrow> string
    \<Rightarrow> int \<Rightarrow> ('x consumer_db_scheme, 'e, unit) tx" where
  "consume_pages 0 handle now name w after = tx_ret ()"
| "consume_pages (Suc n) handle now name w after =
     tx_bind (sql_read (\<lambda>d. since d w after consumer_page)) (\<lambda>records.
       tx_bind (consume_records handle now name w records after) (\<lambda>after'.
         if int (length records) < consumer_page then tx_ret ()
         else consume_pages n handle now name w after'))"

text \<open>
  drainConsumer.  Acquiring the connection is an operation that may fail; \<open>locked\<close> is the
  answer of pg_try_advisory_lock.  An error of the handler is returned as it is.
\<close>

definition drain_consumer :: "(event_row \<Rightarrow> ('x consumer_db_scheme, 'e, unit) tx) \<Rightarrow> bool \<Rightarrow> int \<Rightarrow> string \<Rightarrow> string
    \<Rightarrow> ('x consumer_db_scheme, 'e, unit) tx" where
  "drain_consumer handle locked now name w =
     tx_bind (sql_read (\<lambda>d. cn_importing d w)) (\<lambda>importing.
       if importing then tx_ret ()
       else tx_seq (sql_exec id) (tx_bind (sql_read (\<lambda>_. locked)) (\<lambda>l.
         if \<not> l then tx_ret ()
         else tx_seq (sql_exec (insert_cursor now name w))
           (tx_bind (sql_read (\<lambda>d. cn_cursors d (name, w))) (\<lambda>c. case c of
              None \<Rightarrow> tx_fail (Msg ''no rows in result set'')
            | Some (after, _) \<Rightarrow> consume_pages consumer_turn handle now name w after)))))"

text \<open>consumeWorkspace logs the error and goes on.\<close>

definition consume_workspace :: "(event_row \<Rightarrow> ('x consumer_db_scheme, 'e, unit) tx) \<Rightarrow> bool \<Rightarrow> int \<Rightarrow> string \<Rightarrow> string
    \<Rightarrow> 'x consumer_db_scheme \<times> bool list \<Rightarrow> 'x consumer_db_scheme \<times> bool list" where
  "consume_workspace handle locked now name w s = snd (drain_consumer handle locked now name w s)"

text \<open>
  The workspaces reconcile picks: those behind their log, longest untouched first, at
  most 100.  \<open>ws\<close> are the ids in workspace_event_sequences.
\<close>

definition behind :: "string \<Rightarrow> 'x consumer_db_scheme \<Rightarrow> string \<Rightarrow> bool" where
  "behind name d w = (case db_seqs d w of None \<Rightarrow> False | Some n \<Rightarrow> n - 1 > cursor_of name w d)"

definition touched :: "string \<Rightarrow> 'x consumer_db_scheme \<Rightarrow> string \<Rightarrow> int" where
  "touched name d w = (case cn_cursors d (name, w) of None \<Rightarrow> 0 | Some (_, t) \<Rightarrow> t)"

definition reconcile_list :: "string \<Rightarrow> string list \<Rightarrow> 'x consumer_db_scheme \<Rightarrow> string list" where
  "reconcile_list name ws d = take 100 (sort_key (touched name d) (sort (filter (behind name d) ws)))"

definition reconcile :: "(event_row \<Rightarrow> ('x consumer_db_scheme, 'e, unit) tx) \<Rightarrow> (string \<Rightarrow> bool) \<Rightarrow> int \<Rightarrow> string
    \<Rightarrow> string list \<Rightarrow> 'x consumer_db_scheme \<times> bool list \<Rightarrow> 'x consumer_db_scheme \<times> bool list" where
  "reconcile handle locked now name ws s =
     (if faulty (snd s) then (fst s, tl (snd s))
      else fold (\<lambda>w. consume_workspace handle (locked w) now name w)
             (reconcile_list name ws (fst s)) (fst s, tl (snd s)))"

section \<open>Cursor facts\<close>

lemma cursor_insert [simp]: "cursor_of n v (insert_cursor now name w d) = cursor_of n v d"
  by (auto simp: cursor_of_def insert_cursor_def split: option.splits)

lemma cursor_move:
  "cursor_of n v (move_cursor now name w k d) =
     (if (n, v) = (name, w) \<and> cn_cursors d (name, w) \<noteq> None then k else cursor_of n v d)"
  by (auto simp: cursor_of_def move_cursor_def split: option.splits)

lemma cursor_sel [simp]:
  "db_events (insert_cursor now name w d) = db_events d" "db_events (move_cursor now name w k d) = db_events d"
  "db_seqs (insert_cursor now name w d) = db_seqs d" "db_seqs (move_cursor now name w k d) = db_seqs d"
  by (auto simp: insert_cursor_def move_cursor_def split: option.splits)

lemma log_cursor [simp]:
  "rows_of (insert_cursor now name w d) v = rows_of d v" "rows_of (move_cursor now name w k d) v = rows_of d v"
  "log_inv (insert_cursor now name w d) = log_inv d" "log_inv (move_cursor now name w k d) = log_inv d"
  by (simp_all add: rows_of_def log_inv_def next_of_def)

lemma log_inv_events: "db_events d' = db_events d \<Longrightarrow> db_seqs d' = db_seqs d \<Longrightarrow> log_inv d' = log_inv d"
  by (simp add: log_inv_def rows_of_def next_of_def)

lemma rows_of_events: "db_events d' = db_events d \<Longrightarrow> rows_of d' w = rows_of d w"
  by (simp add: rows_of_def)

lemma filter_above_head:
  assumes "sorted_wrt (<) (map r_sequence xs)" "filter (\<lambda>r. a < r_sequence r) xs = r # rest"
  shows "filter (\<lambda>q. r_sequence r < r_sequence q) xs = rest"
    and "\<And>q. q \<in> set xs \<Longrightarrow> r_sequence q \<le> r_sequence r \<Longrightarrow> r_sequence q \<le> a \<or> q = r"
proof -
  let ?f = "filter (\<lambda>r. a < r_sequence r) xs"
  have s: "sorted_wrt (<) (map r_sequence ?f)" using assms(1) by (simp add: sorted_wrt_map sorted_wrt_filter)
  have ar: "a < r_sequence r" using assms(2) by (metis filter_eq_ConsD)
  have "filter (\<lambda>q. r_sequence r < r_sequence q) ?f = drop 1 ?f"
    using filter_above_last_take [OF s, of 1] assms(2) by simp
  moreover have "filter (\<lambda>q. r_sequence r < r_sequence q) ?f = filter (\<lambda>q. r_sequence r < r_sequence q) xs"
    using ar by (simp only: filter_filter) (intro filter_cong; auto)
  ultimately show "filter (\<lambda>q. r_sequence r < r_sequence q) xs = rest" using assms(2) by simp
  show "r_sequence q \<le> a \<or> q = r" if "q \<in> set xs" "r_sequence q \<le> r_sequence r" for q
  proof (rule ccontr)
    assume n: "\<not> (r_sequence q \<le> a \<or> q = r)"
    then have "q \<in> set ?f" using that(1) by simp
    then have "q \<in> set rest" using assms(2) n by simp
    then show False using s assms(2) that(2) by auto
  qed
qed

section \<open>The contract of a handler\<close>

text \<open>
  Consume asks of a handler that its effects are durable and replay-safe.  Here:
  \<open>finished r d\<close> says that the effect of \<open>r\<close> is in \<open>d\<close>; a successful call finishes its
  record, no call undoes what was finished, and a handler leaves the log and the
  checkpoints alone.
\<close>

locale event_handler =
  fixes handle :: "event_row \<Rightarrow> ('x consumer_db_scheme, 'e, unit) tx"
    and ok :: "'x consumer_db_scheme \<Rightarrow> bool"
    and finished :: "event_row \<Rightarrow> 'x consumer_db_scheme \<Rightarrow> bool"
  assumes finishes: "ok d \<Longrightarrow> handle r (d, fs) = (Inr u, d', fs') \<Longrightarrow> finished r d'"
    and keeps: "ok d \<Longrightarrow> handle r (d, fs) = (res, d', fs') \<Longrightarrow> finished q d \<Longrightarrow> finished q d'"
    and keeps_ok: "ok d \<Longrightarrow> handle r (d, fs) = (res, d', fs') \<Longrightarrow> ok d'"
    and frame: "ok d \<Longrightarrow> handle r (d, fs) = (res, d', fs') \<Longrightarrow>
      db_events d' = db_events d \<and> db_seqs d' = db_seqs d \<and> cn_cursors d' = cn_cursors d"
    and checkpoint: "ok (d\<lparr>cn_cursors := c\<rparr>) = ok d" "finished r (d\<lparr>cn_cursors := c\<rparr>) = finished r d"
begin

text \<open>Everything up to the checkpoint of a consumer is finished.\<close>

definition safe :: "string \<Rightarrow> string \<Rightarrow> 'x consumer_db_scheme \<Rightarrow> bool" where
  "safe name w d \<longleftrightarrow> ok d \<and> log_inv d \<and>
     (\<forall>r \<in> set (rows_of d w). r_sequence r \<le> cursor_of name w d \<longrightarrow> finished r d)"

lemma ok_cursor: "ok (insert_cursor now name w d) = ok d" "ok (move_cursor now name w n d) = ok d"
  "finished r (insert_cursor now name w d) = finished r d" "finished r (move_cursor now name w n d) = finished r d"
  unfolding insert_cursor_def move_cursor_def by (simp_all add: checkpoint split: option.split)

lemma safe_handle:
  assumes "safe name w d" "handle r (d, fs) = (res, d', fs')"
  shows "safe name w d'" and "rows_of d' v = rows_of d v" and "cn_cursors d' = cn_cursors d"
proof -
  have f: "db_events d' = db_events d" "db_seqs d' = db_seqs d" "cn_cursors d' = cn_cursors d" "ok d'"
    using frame [OF _ assms(2)] keeps_ok [OF _ assms(2)] assms(1) by (auto simp: safe_def)
  have r: "rows_of d' v = rows_of d v" for v by (rule rows_of_events [OF f(1)])
  then show "rows_of d' v = rows_of d v" "cn_cursors d' = cn_cursors d" using f(3) by blast+
  have c: "cursor_of name w d' = cursor_of name w d" using f(3) by (simp add: cursor_of_def)
  have l: "log_inv d' = log_inv d" by (rule log_inv_events [OF f(1,2)])
  have "finished q d'" if "finished q d" for q using keeps [OF _ assms(2) that] assms(1) by (simp add: safe_def)
  then show "safe name w d'" using assms(1) f(4) unfolding safe_def r c l by blast
qed

lemma safe_move:
  assumes "safe name w d" "filter (\<lambda>q. cursor_of name w d < r_sequence q) (rows_of d w) = r # rest"
    "finished r d" "cn_cursors d (name, w) \<noteq> None"
  shows "safe name w (move_cursor now name w (r_sequence r) d)"
    and "cursor_of name w (move_cursor now name w (r_sequence r) d) = r_sequence r"
    and "filter (\<lambda>q. r_sequence r < r_sequence q) (rows_of d w) = rest"
proof -
  have s: "sorted_wrt (<) (map r_sequence (rows_of d w))" using assms(1) by (simp add: safe_def log_inv_def)
  show c: "cursor_of name w (move_cursor now name w (r_sequence r) d) = r_sequence r"
    using assms(4) by (simp add: cursor_move)
  show "filter (\<lambda>q. r_sequence r < r_sequence q) (rows_of d w) = rest" by (rule filter_above_head(1) [OF s assms(2)])
  have "finished q d" if "q \<in> set (rows_of d w)" "r_sequence q \<le> r_sequence r" for q
    using filter_above_head(2) [OF s assms(2) that] assms(1,3) that(1) by (auto simp: safe_def)
  then show "safe name w (move_cursor now name w (r_sequence r) d)"
    using assms(1) unfolding safe_def c by (simp add: ok_cursor)
qed

lemma consume_records_safe:
  assumes "safe name w d" "rs = take n (filter (\<lambda>q. cursor_of name w d < r_sequence q) (rows_of d w))"
    "after = cursor_of name w d" "cn_cursors d (name, w) \<noteq> None"
    "consume_records handle now name w rs after (d, fs) = (res, d', fs')"
  shows "safe name w d' \<and> rows_of d' w = rows_of d w \<and> cn_cursors d' (name, w) \<noteq> None \<and>
    cursor_of name w d \<le> cursor_of name w d' \<and>
    (\<forall>a. res = Inr a \<longrightarrow> a = cursor_of name w d' \<and> (rs \<noteq> [] \<longrightarrow> a = r_sequence (last rs)))"
  using assms
proof (induction rs arbitrary: d fs n after)
  case Nil
  then show ?case by (auto simp: tx_ret_def)
next
  case (Cons r rs)
  obtain rest where rest: "filter (\<lambda>q. cursor_of name w d < r_sequence q) (rows_of d w) = r # rest" "rs = take (n - 1) rest"
    using Cons.prems(2) by (cases "filter (\<lambda>q. cursor_of name w d < r_sequence q) (rows_of d w)"; cases n) auto
  have above: "cursor_of name w d < r_sequence r" using rest(1) by (metis filter_eq_ConsD)
  obtain res1 d1 fs1 where h: "handle r (d, fs) = (res1, d1, fs1)" by (metis prod_cases3)
  note h' = safe_handle [OF Cons.prems(1) h]
  have c1: "cursor_of name w d1 = cursor_of name w d" using h'(3) by (simp add: cursor_of_def)
  show ?case
  proof (cases res1)
    case (Inl e)
    then show ?thesis using Cons.prems(4,5) h h' c1 by (auto simp: tx_bind_def)
  next
    case (Inr u)
    let ?d2 = "move_cursor now name w (r_sequence r) d1"
    have fin: "finished r d1" using finishes [OF _ h [unfolded Inr]] Cons.prems(1) by (simp add: safe_def)
    have e1: "filter (\<lambda>q. cursor_of name w d1 < r_sequence q) (rows_of d1 w) = r # rest"
      using rest(1) c1 h'(2) by simp
    have n1: "cn_cursors d1 (name, w) \<noteq> None" using h'(3) Cons.prems(4) by simp
    note m = safe_move [OF h'(1) e1 fin n1]
    have n2: "cn_cursors ?d2 (name, w) \<noteq> None" using n1 by (auto simp: move_cursor_def)
    show ?thesis
    proof (cases "faulty fs1")
      case True
      then show ?thesis using Cons.prems(5) h Inr h' c1 n1 by (auto simp: tx_bind_def sql_def)
    next
      case False
      have run: "consume_records handle now name w rs (r_sequence r) (?d2, tl fs1) = (res, d', fs')"
        using Cons.prems(5) h Inr False by (simp add: tx_bind_def sql_def)
      have "rows_of ?d2 w = rows_of d w" using h'(2) by simp
      moreover have t: "rs = take (n - 1) (filter (\<lambda>q. cursor_of name w ?d2 < r_sequence q) (rows_of ?d2 w))"
        using rest(2) m(2,3) h'(2) by simp
      moreover have "rs = [] \<Longrightarrow> res = Inr (r_sequence r)" using run by (auto simp: tx_ret_def)
      moreover note Cons.IH [OF m(1) t m(2) [symmetric] n2 run] m(2) [of now] above
      ultimately show ?thesis by (cases "rs = []") simp_all
    qed
  qed
qed

lemma consume_pages_safe:
  assumes "safe name w d" "after = cursor_of name w d" "cn_cursors d (name, w) \<noteq> None"
    "consume_pages n handle now name w after (d, fs) = (res, d', fs')"
  shows "safe name w d' \<and> cursor_of name w d \<le> cursor_of name w d' \<and>
    (\<forall>u. res = Inr u \<longrightarrow> length (filter (\<lambda>q. cursor_of name w d < r_sequence q) (rows_of d w)) < 200 * n \<longrightarrow>
       filter (\<lambda>q. cursor_of name w d' < r_sequence q) (rows_of d' w) = [])"
  using assms
proof (induction n arbitrary: d fs after)
  case 0
  then show ?case by (auto simp: tx_ret_def)
next
  case (Suc n)
  let ?pending = "\<lambda>d. filter (\<lambda>q. cursor_of name w d < r_sequence q) (rows_of d w)"
  let ?rs = "since d w after consumer_page"
  show ?case
  proof (cases "faulty fs")
    case True
    then show ?thesis using Suc.prems by (auto simp: tx_bind_def sql_def)
  next
    case False
    have inv: "log_inv d" using Suc.prems(1) by (simp add: safe_def)
    have p: "?rs = take 200 (?pending d)"
      using elog.page [OF inv, of 200 w after] Suc.prems(2) by (simp add: consumer_page_def)
    obtain r1 d1 fs1 where c: "consume_records handle now name w ?rs after (d, tl fs) = (r1, d1, fs1)"
      by (metis prod_cases3)
    note c' = consume_records_safe [OF Suc.prems(1) p Suc.prems(2,3) c]
    show ?thesis
    proof (cases r1)
      case (Inl e)
      then show ?thesis using Suc.prems(4) False c c' by (auto simp: tx_bind_def sql_def)
    next
      case (Inr a)
      have a: "a = cursor_of name w d1" using c' Inr by simp
      have pend1: "?pending d1 = drop 200 (?pending d)"
      proof (cases "?rs = []")
        case True
        then have "?pending d = []" using p by simp
        moreover have "?pending d1 = []"
        proof -
          have "set (?pending d1) \<subseteq> set (?pending d)" using c' by auto
          then show ?thesis using \<open>?pending d = []\<close> by auto
        qed
        ultimately show ?thesis by simp
      next
        case ne: False
        have "cursor_of name w d1 = r_sequence (last ?rs)" using c' Inr ne a by simp
        then show ?thesis
          using elog.next_page [OF inv, of 200 w after] ne c' Suc.prems(2) by (simp add: consumer_page_def)
      qed
      show ?thesis
      proof (cases "int (length ?rs) < consumer_page")
        case True
        then have "d' = d1" "drop 200 (?pending d) = []"
          using Suc.prems(4) False c Inr p
          by (auto simp: tx_bind_def sql_def tx_ret_def consumer_page_def min_def split: if_splits)
        then show ?thesis using c' pend1 by simp
      next
        case full: False
        have run: "consume_pages n handle now name w a (d1, fs1) = (res, d', fs')"
          using Suc.prems(4) False c Inr full by (simp add: tx_bind_def sql_def)
        have "length (?pending d) < 200 * Suc n \<longrightarrow> length (?pending d1) < 200 * n"
          using pend1 full p by (auto simp: consumer_page_def min_def split: if_splits)
        then show ?thesis using Suc.IH [OF _ a _ run] c' by (auto dest: order_trans)
      qed
    qed
  qed
qed

lemma safe_insert:
  "safe name w (insert_cursor now name w d) = safe name w d"
  by (simp add: safe_def ok_cursor)

text \<open>
  One turn, whatever fails: nothing below the checkpoint is lost, the checkpoint does not
  move back, and an undisturbed turn with fewer than 1000 events to go reaches the end.
\<close>

lemma drain_consumer_safe:
  assumes "safe name w d" "drain_consumer handle locked now name w (d, fs) = (res, d', fs')"
  shows "safe name w d' \<and> cursor_of name w d \<le> cursor_of name w d' \<and>
    (\<forall>u. res = Inr u \<longrightarrow> locked \<longrightarrow> \<not> cn_importing d w \<longrightarrow>
       length (filter (\<lambda>q. cursor_of name w d < r_sequence q) (rows_of d w)) < 1000 \<longrightarrow>
       (\<forall>q \<in> set (rows_of d' w). r_sequence q \<le> cursor_of name w d' \<and> finished q d'))"
proof -
  let ?d1 = "insert_cursor now name w d"
  have n1: "cn_cursors ?d1 (name, w) \<noteq> None" by (auto simp: insert_cursor_def split: option.splits)

  obtain a t where at: "cn_cursors ?d1 (name, w) = Some (a, t)" using n1 by auto
  then have a: "a = cursor_of name w ?d1" by (simp add: cursor_of_def)
  have s1: "safe name w ?d1" using assms(1) by (simp add: safe_insert)
  show ?thesis
  proof (cases "faulty fs \<or> cn_importing d w \<or> faulty (tl fs) \<or> faulty (tl (tl fs)) \<or> \<not> locked \<or> faulty (tl (tl (tl fs)))")
    case True
    then have "d' = d" "\<And>u. res = Inr u \<Longrightarrow> locked \<Longrightarrow> cn_importing d w"
      using assms(2) by (auto simp: drain_consumer_def tx_bind_def sql_def tx_ret_def split: if_splits)
    then show ?thesis using assms(1) by auto
  next
    case False
    show ?thesis
    proof (cases "faulty (tl (tl (tl (tl fs))))")
      case True
      then have "d' = ?d1" "\<And>u. res \<noteq> Inr u"
        using assms(2) False by (auto simp: drain_consumer_def tx_bind_def sql_def tx_ret_def)
      then show ?thesis using s1 by simp
    next
      case go: False
      have run: "consume_pages consumer_turn handle now name w a (?d1, tl (tl (tl (tl (tl fs))))) = (res, d', fs')"
        using assms(2) False go at by (simp add: drain_consumer_def tx_bind_def sql_def)
      from consume_pages_safe [OF s1 a n1 run] show ?thesis
        by (auto simp: consumer_turn_def filter_empty_conv safe_def not_less)
    qed
  qed
qed

text \<open>A turn on another workspace, or of another consumer, leaves the promise alone.\<close>

lemma safe_move_other:
  "safe n v d \<Longrightarrow> (n, v) \<noteq> (name, w) \<Longrightarrow> safe n v (move_cursor now name w k d)"
  by (auto simp: safe_def cursor_move ok_cursor)

lemma consume_records_other:
  assumes "(n, v) \<noteq> (name, w)" "safe n v d" "consume_records handle now name w rs after (d, fs) = (res, d', fs')"
  shows "safe n v d'"
  using assms(2,3)
proof (induction rs arbitrary: d fs after)
  case (Cons r rs)
  obtain res1 d1 fs1 where h: "handle r (d, fs) = (res1, d1, fs1)" by (metis prod_cases3)
  have s1: "safe n v d1" by (rule safe_handle(1) [OF Cons.prems(1) h])
  show ?case
  proof (cases "\<exists>u. res1 = Inr u \<and> \<not> faulty fs1")
    case True
    then show ?thesis using Cons.prems(2) h Cons.IH [OF safe_move_other [OF s1 assms(1)]]
      by (auto simp: tx_bind_def sql_def)
  next
    case False
    then show ?thesis using Cons.prems(2) h s1 by (cases res1) (auto simp: tx_bind_def sql_def)
  qed
qed (simp add: tx_ret_def)

lemma consume_pages_other:
  assumes "(n, v) \<noteq> (name, w)" "safe n v d" "consume_pages k handle now name w after (d, fs) = (res, d', fs')"
  shows "safe n v d'"
  using assms(2,3)
proof (induction k arbitrary: d fs after)
  case (Suc k)
  obtain r1 d1 fs1 where c: "consume_records handle now name w (since d w after consumer_page) after (d, tl fs) = (r1, d1, fs1)"
    by (metis prod_cases3)
  have s1: "safe n v d1" by (rule consume_records_other [OF assms(1) Suc.prems(1) c])
  show ?case
  proof (cases "faulty fs")
    case True
    then show ?thesis using Suc.prems by (simp add: tx_bind_def sql_def)
  next
    case False
    show ?thesis
    proof (cases r1)
      case (Inl e)
      then show ?thesis using Suc.prems(2) False c s1 by (simp add: tx_bind_def sql_def)
    next
      case (Inr a)
      then show ?thesis using Suc.prems(2) False c s1 Suc.IH [OF s1]
        by (auto simp: tx_bind_def sql_def tx_ret_def split: if_splits)
    qed
  qed
qed (simp add: tx_ret_def)

lemma drain_consumer_other:
  assumes "(n, v) \<noteq> (name, w)" "safe n v d" "drain_consumer handle locked now name w (d, fs) = (res, d', fs')"
  shows "safe n v d'"
proof -
  have "safe n v (insert_cursor now name w d)" using assms(2) by (simp add: safe_def ok_cursor)
  then show ?thesis using assms(2,3) consume_pages_other [OF assms(1)]
    by (auto simp: drain_consumer_def tx_bind_def sql_def tx_ret_def tx_fail_def split: if_splits option.splits prod.splits)
qed

lemma consume_workspace_safe:
  assumes "safe n v d"
  shows "safe n v (fst (consume_workspace handle locked now name w (d, fs)))"
proof -
  obtain res d' fs' where r: "drain_consumer handle locked now name w (d, fs) = (res, d', fs')"
    by (metis prod_cases3)
  have "safe n v d'"
  proof (cases "(n, v) = (name, w)")
    case True
    then show ?thesis using drain_consumer_safe [OF _ r] assms by simp
  next
    case False
    then show ?thesis by (rule drain_consumer_other [OF _ assms r])
  qed
  then show ?thesis by (simp add: consume_workspace_def r)
qed

end

end
