(* ===== verification/Webhook.thy ===== *)
theory Webhook
  imports EventConsumer JobQueue
begin

text \<open>
  Outbound webhooks (src/internal/webhook/service.go over the tables webhook_endpoints and
  webhook_deliveries of src/embedded/migrations/0011_integrations.sql and
  automation_action_receipts): endpoints, the fan-out of one committed event, the delivery
  attempt with its bookkeeping, replay and test deliveries, and retention.  The HTTP
  exchange, the cipher, the URL parser and the JSON encoder are arguments.
\<close>

section \<open>State\<close>

record endpoint =
  ep_id :: string
  ep_workspace :: string
  ep_url :: string
  ep_description :: string
  ep_events :: "string list"
  ep_secret :: string
  ep_hint :: string
  ep_enabled :: bool
  ep_disabled_at :: "int option"
  ep_failures :: int
  ep_created_by :: string
  ep_created :: int
  ep_updated :: int

datatype delivery_status = DlPending | DlDelivered | DlFailed | DlExhausted | DlCancelled

record delivery =
  dl_id :: string
  dl_workspace :: string
  dl_endpoint :: string
  dl_event :: string
  dl_type :: string
  dl_payload :: json
  dl_status :: delivery_status
  dl_attempt :: int
  dl_max :: int
  dl_response :: int
  dl_body :: string
  dl_duration :: "int option"
  dl_error :: string
  dl_next :: "int option"
  dl_delivered :: "int option"
  dl_created :: int

record webhook_db = consumer_db +
  wh_jobs :: job_db
  wh_endpoints :: "endpoint list"
  wh_deliveries :: "delivery list"
  wh_receipts :: "(string \<times> string) list"

datatype webhook_error = ErrInvalidURL | ErrInvalidEvents | WebhookNotFound | ErrSecret | JobsError jobs_error

definition wh_max_attempts :: int where "wh_max_attempts = 6"
definition max_response_body :: nat where "max_response_body = 4096"
definition job_deliver :: string where "job_deliver = ''webhook.deliver''"

section \<open>Endpoints\<close>

fun normalize_loop :: "string list \<Rightarrow> string list \<Rightarrow> webhook_error + string list" where
  "normalize_loop [] out = Inr out"
| "normalize_loop (t # ts) out =
     (let e = trim_space t
      in if e = '''' then normalize_loop ts out
         else if CHR ''.'' \<notin> set e \<or> length e > 120 then Inl ErrInvalidEvents
         else normalize_loop ts (if e \<in> set out then out else out @ [e]))"

definition normalize_events :: "string list \<Rightarrow> webhook_error + string list" where
  "normalize_events input = normalize_loop input []"

definition secret_hint :: "string \<Rightarrow> string" where
  "secret_hint s = (if length s < 4 then s else drop (length s - 4) s)"

record endpoint_input =
  in_url :: string
  in_description :: string
  in_events :: "string list"
  in_enabled :: bool

text \<open>
  \<open>validate\<close> is validateURL of the deployment's network policy; \<open>secret\<close> the random secret
  (\<open>None\<close>: the generator failed) and \<open>encrypt\<close> the cipher.
\<close>

definition get_endpoint :: "string \<Rightarrow> string \<Rightarrow> ('x webhook_db_scheme, webhook_error, endpoint) tx" where
  "get_endpoint w i =
     tx_bind (sql_read (\<lambda>d. filter (\<lambda>e. ep_workspace e = w \<and> ep_id e = i) (wh_endpoints d)))
       (\<lambda>es. case es of [] \<Rightarrow> tx_fail (Err WebhookNotFound) | e # _ \<Rightarrow> tx_ret e)"

definition new_endpoint :: "string \<Rightarrow> int \<Rightarrow> string \<Rightarrow> string \<Rightarrow> string \<Rightarrow> string list \<Rightarrow> string \<Rightarrow> string \<Rightarrow> endpoint_input \<Rightarrow> endpoint" where
  "new_endpoint i now w member url events secret cipher inp = \<lparr> ep_id = i, ep_workspace = w, ep_url = url,
     ep_description = trim_space (in_description inp), ep_events = events, ep_secret = cipher,
     ep_hint = secret_hint secret, ep_enabled = in_enabled inp, ep_disabled_at = None, ep_failures = 0,
     ep_created_by = member, ep_created = now, ep_updated = now \<rparr>"

definition create_endpoint :: "(string \<Rightarrow> webhook_error + string) \<Rightarrow> string option \<Rightarrow> (string \<Rightarrow> string option)
    \<Rightarrow> string \<Rightarrow> int \<Rightarrow> string \<Rightarrow> string \<Rightarrow> endpoint_input \<Rightarrow> ('x webhook_db_scheme, webhook_error, endpoint \<times> string) tx" where
  "create_endpoint validate secret encrypt i now w member inp =
     (case validate (in_url inp) of Inl e \<Rightarrow> tx_fail (Err e) | Inr url \<Rightarrow>
      (case normalize_events (in_events inp) of Inl e \<Rightarrow> tx_fail (Err e) | Inr events \<Rightarrow>
       (case secret of None \<Rightarrow> tx_fail (Err ErrSecret) | Some s \<Rightarrow>
        (case encrypt s of None \<Rightarrow> tx_fail (Err ErrSecret) | Some cipher \<Rightarrow>
           tx_seq (sql_checked (\<lambda>d. if i \<in> ep_id ` set (wh_endpoints d) then None
               else Some ((), d\<lparr>wh_endpoints := wh_endpoints d @ [new_endpoint i now w member url events s cipher inp]\<rparr>)))
             (tx_bind (get_endpoint w i) (\<lambda>e. tx_ret (e, s)))))))"

definition update_row :: "int \<Rightarrow> string \<Rightarrow> string list \<Rightarrow> endpoint_input \<Rightarrow> endpoint \<Rightarrow> endpoint" where
  "update_row now url events inp e = e\<lparr>ep_url := url, ep_description := trim_space (in_description inp),
     ep_events := events, ep_enabled := in_enabled inp,
     ep_disabled_at := (if in_enabled inp then None else ep_disabled_at e),
     ep_failures := (if in_enabled inp then 0 else ep_failures e), ep_updated := now\<rparr>"

text \<open>UPDATE ... WHERE workspace_id=$1 AND id=$2 RETURNING: the row after the update, if there is one.\<close>

definition update_endpoint_row :: "string \<Rightarrow> string \<Rightarrow> (endpoint \<Rightarrow> endpoint) \<Rightarrow> 'x webhook_db_scheme
    \<Rightarrow> endpoint option \<times> 'x webhook_db_scheme" where
  "update_endpoint_row w i f d =
     (case filter (\<lambda>e. ep_workspace e = w \<and> ep_id e = i) (wh_endpoints d) of [] \<Rightarrow> (None, d)
      | e # _ \<Rightarrow> (Some (f e), d\<lparr>wh_endpoints := update_where (\<lambda>e. ep_workspace e = w \<and> ep_id e = i) f (wh_endpoints d)\<rparr>))"

definition update_endpoint :: "(string \<Rightarrow> webhook_error + string) \<Rightarrow> int \<Rightarrow> string \<Rightarrow> string \<Rightarrow> endpoint_input
    \<Rightarrow> ('x webhook_db_scheme, webhook_error, endpoint) tx" where
  "update_endpoint validate now w i inp =
     (case validate (in_url inp) of Inl e \<Rightarrow> tx_fail (Err e) | Inr url \<Rightarrow>
      (case normalize_events (in_events inp) of Inl e \<Rightarrow> tx_fail (Err e) | Inr events \<Rightarrow>
         tx_bind (sql (update_endpoint_row w i (update_row now url events inp)))
           (\<lambda>r. case r of None \<Rightarrow> tx_fail (Err WebhookNotFound) | Some e \<Rightarrow> tx_ret e)))"

text \<open>DELETE cascades to the deliveries of the endpoint.\<close>

definition delete_endpoint :: "string \<Rightarrow> string \<Rightarrow> ('x webhook_db_scheme, webhook_error, unit) tx" where
  "delete_endpoint w i =
     tx_bind (sql (\<lambda>d. let gone = filter (\<lambda>e. ep_workspace e = w \<and> ep_id e = i) (wh_endpoints d)
        in (length gone, d\<lparr>wh_endpoints := delete_where (\<lambda>e. ep_workspace e = w \<and> ep_id e = i) (wh_endpoints d),
              wh_deliveries := delete_where (\<lambda>l. dl_endpoint l \<in> ep_id ` set gone) (wh_deliveries d)\<rparr>)))
       (\<lambda>n. if n = 0 then tx_fail (Err WebhookNotFound) else tx_ret ())"

definition rotate_secret :: "string option \<Rightarrow> (string \<Rightarrow> string option) \<Rightarrow> int \<Rightarrow> string \<Rightarrow> string
    \<Rightarrow> ('x webhook_db_scheme, webhook_error, endpoint \<times> string) tx" where
  "rotate_secret secret encrypt now w i =
     (case secret of None \<Rightarrow> tx_fail (Err ErrSecret) | Some s \<Rightarrow>
      (case encrypt s of None \<Rightarrow> tx_fail (Err ErrSecret) | Some cipher \<Rightarrow>
         tx_bind (sql (update_endpoint_row w i (\<lambda>e. e\<lparr>ep_secret := cipher, ep_hint := secret_hint s, ep_updated := now\<rparr>)))
           (\<lambda>r. case r of None \<Rightarrow> tx_fail (Err WebhookNotFound) | Some e \<Rightarrow> tx_ret (e, s))))"

definition count_recent :: "int \<Rightarrow> string \<Rightarrow> delivery_status list \<Rightarrow> 'x webhook_db_scheme \<Rightarrow> int" where
  "count_recent now i ss d = int (length (filter (\<lambda>l. dl_endpoint l = i \<and> dl_status l \<in> set ss \<and> dl_created l \<ge> now - day)
     (wh_deliveries d)))"

text \<open>ListPage: each endpoint with its successes and failures of the last day.\<close>

definition list_page :: "int \<Rightarrow> string \<Rightarrow> (int \<times> string) option \<Rightarrow> int \<Rightarrow> 'x webhook_db_scheme \<Rightarrow> (endpoint \<times> int \<times> int) list" where
  "list_page now w before limit d =
     (let keep = (\<lambda>e. ep_workspace e = w \<and> (case before of None \<Rightarrow> True
            | Some (t, i) \<Rightarrow> ep_created e < t \<or> ep_created e = t \<and> ep_id e < i));
          sorted = rev (sort_key ep_created (sort_key ep_id (filter keep (wh_endpoints d))))
      in map (\<lambda>e. (e, count_recent now (ep_id e) [DlDelivered] d, count_recent now (ep_id e) [DlFailed, DlExhausted] d))
           (if limit > 0 then take (nat limit) sorted else sorted))"

definition list_endpoints :: "int \<Rightarrow> string \<Rightarrow> 'x webhook_db_scheme \<Rightarrow> (endpoint \<times> int \<times> int) list" where
  "list_endpoints now w d = list_page now w None 0 d"

section \<open>Fan-out\<close>

definition subscribes :: "event_row \<Rightarrow> endpoint \<Rightarrow> bool" where
  "subscribes r e = (ep_workspace e = r_workspace r \<and> ep_enabled e \<and> ep_disabled_at e = None \<and>
     (ep_events e = [] \<or> r_type r \<in> set (ep_events e)))"

definition record_json :: "event_row \<Rightarrow> json" where
  "record_json r = JObj ([(''id'', JStr (r_id r)), (''workspace_id'', JStr (r_workspace r)),
       (''sequence'', JInt (r_sequence r)), (''type'', JStr (r_type r))]
     @ (if r_entity_type r = '''' then [] else [(''entity_type'', JStr (r_entity_type r))])
     @ (if r_entity_id r = '''' then [] else [(''entity_id'', JStr (r_entity_id r))])
     @ (if r_causation r = '''' then [] else [(''causation_id'', JStr (r_causation r))])
     @ [(''occurred_at'', JInt (r_occurred r)), (''data'', r_data r)])"

definition new_delivery :: "string \<Rightarrow> int \<Rightarrow> string \<Rightarrow> string \<Rightarrow> string \<Rightarrow> string \<Rightarrow> json \<Rightarrow> delivery" where
  "new_delivery i now w ep ev ty payload = \<lparr> dl_id = i, dl_workspace = w, dl_endpoint = ep, dl_event = ev, dl_type = ty,
     dl_payload = payload, dl_status = DlPending, dl_attempt = 0, dl_max = wh_max_attempts, dl_response = 0,
     dl_body = '''', dl_duration = None, dl_error = '''', dl_next = Some now, dl_delivered = None, dl_created = now \<rparr>"

text \<open>
  INSERT ... ON CONFLICT (endpoint_id, event_id) DO NOTHING: false when the pair is there;
  a clash of the id or a missing parent row is an error.
\<close>

definition insert_delivery :: "delivery \<Rightarrow> 'x webhook_db_scheme \<Rightarrow> (bool \<times> 'x webhook_db_scheme) option" where
  "insert_delivery l d =
     (if dl_event l \<noteq> '''' \<and> (\<exists>k \<in> set (wh_deliveries d). dl_endpoint k = dl_endpoint l \<and> dl_event k = dl_event l) then Some (False, d)
      else if dl_id l \<in> dl_id ` set (wh_deliveries d) \<or> dl_endpoint l \<notin> ep_id ` set (wh_endpoints d)
           \<or> (dl_event l \<noteq> '''' \<and> dl_event l \<notin> r_id ` set (db_events d)) then None
      else Some (True, d\<lparr>wh_deliveries := wh_deliveries d @ [l]\<rparr>))"

definition delivery_spec :: "string \<Rightarrow> string \<Rightarrow> spec" where
  "delivery_spec w i = \<lparr> sp_workspace = w, sp_queue = ''webhooks'', sp_type = job_deliver,
     sp_payload = Some (JObj [(''delivery_id'', JStr i)]), sp_priority = 0, sp_run_at = None,
     sp_max = wh_max_attempts, sp_dedupe = ''webhook-delivery:'' @ i \<rparr>"

abbreviation on_jobs :: "(job_db, 'e, 'a) tx \<Rightarrow> ('x webhook_db_scheme, 'e, 'a) tx" where
  "on_jobs \<equiv> tx_on wh_jobs (\<lambda>j d. d\<lparr>wh_jobs := j\<rparr>)"

text \<open>One endpoint of the fan-out; \<open>ids\<close> are the new ids of the delivery and of its job.\<close>

definition dispatch_one :: "bool \<Rightarrow> int \<Rightarrow> event_row \<Rightarrow> (string \<times> string) \<times> string \<Rightarrow> ('x webhook_db_scheme, webhook_error, unit) tx" where
  "dispatch_one queue now r = (\<lambda>((i, ji), ep).
     tx_bind (sql_checked (insert_delivery (new_delivery i now (r_workspace r) ep (r_id r) (r_type r) (record_json r))))
       (\<lambda>inserted. if \<not> inserted \<or> \<not> queue then tx_ret ()
          else tx_bind (tx_try (on_jobs (enqueue_tx ji now now (delivery_spec (r_workspace r) i))))
            (\<lambda>res. case res of Inr _ \<Rightarrow> tx_ret () | Inl e \<Rightarrow>
               if e = Err ErrDuplicate then tx_ret () else tx_fail (map_err JobsError e))))"

definition dispatch_record :: "bool \<Rightarrow> int \<Rightarrow> (nat \<Rightarrow> string \<times> string) \<Rightarrow> event_row \<Rightarrow> ('x webhook_db_scheme, webhook_error, unit) tx" where
  "dispatch_record queue now ids r = with_tx
     (tx_bind (sql_read (\<lambda>d. map ep_id (filter (subscribes r) (wh_endpoints d))))
       (\<lambda>eps. tx_each (dispatch_one queue now r) (zip (map ids [0..<length eps]) eps)))"

text \<open>events.CompleteActionTx: the receipt of an automation action.\<close>

definition complete_action :: "string \<Rightarrow> string \<Rightarrow> ('x webhook_db_scheme, 'e, unit) tx" where
  "complete_action w key = (if key = '''' then tx_ret ()
     else sql_exec (\<lambda>d. if (w, key) \<in> set (wh_receipts d) then d else d\<lparr>wh_receipts := wh_receipts d @ [(w, key)]\<rparr>))"

text \<open>
  EnqueueAction; \<open>stable_id\<close> is ids.Stable for the webhook prefix, \<open>key\<close> the action key of the
  context.
\<close>

definition insert_action :: "delivery \<Rightarrow> 'x webhook_db_scheme \<Rightarrow> bool \<times> 'x webhook_db_scheme" where
  "insert_action l d =
     (if \<not> (\<exists>e \<in> set (wh_endpoints d). ep_id e = dl_endpoint l \<and> ep_workspace e = dl_workspace l \<and> ep_enabled e \<and> ep_disabled_at e = None)
         \<or> dl_id l \<in> dl_id ` set (wh_deliveries d) then (False, d)
      else (True, d\<lparr>wh_deliveries := wh_deliveries d @ [l]\<rparr>))"

definition enqueue_action :: "bool \<Rightarrow> (string \<Rightarrow> string) \<Rightarrow> string \<Rightarrow> string \<Rightarrow> int \<Rightarrow> string \<Rightarrow> string \<Rightarrow> string \<Rightarrow> json
    \<Rightarrow> ('x webhook_db_scheme, webhook_error, unit) tx" where
  "enqueue_action queue stable_id fresh ji now key w ep payload =
     (if \<not> queue then tx_fail (Msg ''webhook: job queue is unavailable'')
      else let i = (if key = '''' then fresh else stable_id (w @ '':'' @ key)) in with_tx
        (tx_bind (sql (insert_action (new_delivery i now w ep '''' ''automation.action'' payload)))
          (\<lambda>inserted.
             if \<not> inserted then
               tx_bind (sql_read (\<lambda>d. \<exists>l \<in> set (wh_deliveries d). dl_workspace l = w \<and> dl_id l = i))
                 (\<lambda>found. if found then complete_action w key else tx_fail (Err WebhookNotFound))
             else tx_bind (tx_try (on_jobs (enqueue_tx ji now now (delivery_spec w i))))
               (\<lambda>res. case res of Inl e \<Rightarrow> tx_fail (map_err JobsError e) | Inr _ \<Rightarrow> complete_action w key))))"

section \<open>Delivery\<close>

text \<open>The request Deliver builds, and what the exchange with the endpoint can come to.\<close>

record http_request =
  rq_url :: string
  rq_event :: string
  rq_delivery :: string
  rq_timestamp :: int
  rq_signature :: string
  rq_body :: string

datatype http_outcome = BadRequest string | NoResponse string | BrokenBody int string string | Response int string

text \<open>recordFailure: two statements on their own; \<open>failure\<close> is what the caller gets back.\<close>

definition failed_row :: "int \<Rightarrow> int \<Rightarrow> int \<Rightarrow> string \<Rightarrow> int \<Rightarrow> string \<Rightarrow> int \<Rightarrow> delivery \<Rightarrow> delivery" where
  "failed_row clock attempt status body duration failure mx l =
     l\<lparr>dl_status := (if attempt \<ge> mx then DlExhausted else DlFailed), dl_attempt := attempt, dl_response := status,
       dl_body := body, dl_duration := Some (duration div 1000000), dl_error := failure,
       dl_next := (if attempt \<ge> mx then None else Some (clock + 2 ^ nat (min attempt 6) * 1000000000))\<rparr>"

definition punish_row :: "int \<Rightarrow> endpoint \<Rightarrow> endpoint" where
  "punish_row now e = e\<lparr>ep_failures := ep_failures e + 1,
     ep_disabled_at := (if ep_failures e + 1 \<ge> 6 then (case ep_disabled_at e of None \<Rightarrow> Some now | Some t \<Rightarrow> Some t)
       else ep_disabled_at e), ep_updated := now\<rparr>"

definition endpoint_of :: "string \<Rightarrow> 'x webhook_db_scheme \<Rightarrow> string option" where
  "endpoint_of i d = map_option dl_endpoint (lookup_key dl_id i (wh_deliveries d))"

definition record_failure :: "int \<Rightarrow> int \<Rightarrow> string \<Rightarrow> int \<Rightarrow> int \<Rightarrow> string \<Rightarrow> int \<Rightarrow> string \<Rightarrow> int
    \<Rightarrow> ('x webhook_db_scheme, webhook_error, unit) tx" where
  "record_failure clock now i attempt status body duration failure max0 =
     (let mx = (if max0 \<le> 0 then wh_max_attempts else max0)
      in tx_seq (sql_exec (\<lambda>d. d\<lparr>wh_deliveries := update_where (\<lambda>l. dl_id l = i)
             (failed_row clock attempt status body duration failure mx) (wh_deliveries d)\<rparr>))
          (tx_seq (sql_exec (\<lambda>d. d\<lparr>wh_endpoints := update_where (\<lambda>e. Some (ep_id e) = endpoint_of i d)
               (punish_row now) (wh_endpoints d)\<rparr>))
            (if attempt \<ge> mx then tx_ret () else tx_fail (Msg failure))))"

definition delivered_row :: "int \<Rightarrow> int \<Rightarrow> int \<Rightarrow> string \<Rightarrow> int \<Rightarrow> delivery \<Rightarrow> delivery" where
  "delivered_row now attempt status body duration l =
     l\<lparr>dl_status := DlDelivered, dl_attempt := attempt, dl_response := status, dl_body := body,
       dl_duration := Some (duration div 1000000), dl_delivered := Some now, dl_next := None, dl_error := ''''\<rparr>"

definition restore_row :: "int \<Rightarrow> endpoint \<Rightarrow> endpoint" where
  "restore_row now e = e\<lparr>ep_failures := 0, ep_disabled_at := None, ep_updated := now\<rparr>"

text \<open>The claim of Deliver: count the attempt of an open delivery and read it with its endpoint.\<close>

definition claim_delivery :: "string \<Rightarrow> 'x webhook_db_scheme \<Rightarrow> (delivery \<times> endpoint) option \<times> 'x webhook_db_scheme" where
  "claim_delivery i d =
     (case lookup_key dl_id i (wh_deliveries d) of None \<Rightarrow> (None, d)
      | Some l \<Rightarrow> (case lookup_key ep_id (dl_endpoint l) (wh_endpoints d) of None \<Rightarrow> (None, d)
         | Some e \<Rightarrow>
             if dl_status l = DlPending \<or> dl_status l = DlFailed then
               (Some (l\<lparr>dl_attempt := dl_attempt l + 1\<rparr>, e),
                d\<lparr>wh_deliveries := update_where (\<lambda>k. dl_id k = i) (\<lambda>k. k\<lparr>dl_attempt := dl_attempt k + 1\<rparr>) (wh_deliveries d)\<rparr>)
             else (None, d)))"

definition build_request :: "(json \<Rightarrow> string) \<Rightarrow> (string \<Rightarrow> string \<Rightarrow> int \<Rightarrow> string) \<Rightarrow> int \<Rightarrow> string \<Rightarrow> delivery \<Rightarrow> endpoint \<Rightarrow> http_request" where
  "build_request render sign seconds secret l e = \<lparr> rq_url = ep_url e, rq_event = dl_type l, rq_delivery = dl_id l,
     rq_timestamp = seconds, rq_signature = sign secret (render (dl_payload l)) seconds, rq_body = render (dl_payload l) \<rparr>"

text \<open>
  Deliver.  The number text of an HTTP status is \<open>show\<close>; the seconds of the timestamp are
  those of \<open>clock\<close>.
\<close>

definition deliver_webhook :: "(string \<Rightarrow> string option) \<Rightarrow> (json \<Rightarrow> string) \<Rightarrow> (string \<Rightarrow> string \<Rightarrow> int \<Rightarrow> string)
    \<Rightarrow> (http_request \<Rightarrow> http_outcome) \<Rightarrow> (int \<Rightarrow> string) \<Rightarrow> int \<Rightarrow> int \<Rightarrow> int \<Rightarrow> string
    \<Rightarrow> ('x webhook_db_scheme, webhook_error, unit) tx" where
  "deliver_webhook decrypt render sign send show_int clock now duration i =
     tx_bind (sql (claim_delivery i)) (\<lambda>c. case c of None \<Rightarrow> tx_ret () | Some (l, e) \<Rightarrow>
       (case decrypt (ep_secret e) of None \<Rightarrow> tx_fail (Err ErrSecret) | Some secret \<Rightarrow>
         (let failing = (\<lambda>status body failure.
                record_failure clock now i (dl_attempt l) status body duration failure (dl_max l))
          in case send (build_request render sign (clock div 1000000000) secret l e) of
            BadRequest m \<Rightarrow> failing 0 '''' m
          | NoResponse m \<Rightarrow> failing 0 '''' m
          | BrokenBody status body m \<Rightarrow> failing status (take max_response_body body) m
          | Response status body \<Rightarrow>
              if 200 \<le> status \<and> status < 300 then
                tx_seq (sql_exec (\<lambda>d. d\<lparr>wh_deliveries := update_where (\<lambda>k. dl_id k = i)
                    (delivered_row now (dl_attempt l) status (take max_response_body body) duration) (wh_deliveries d)\<rparr>))
                  (sql_exec (\<lambda>d. d\<lparr>wh_endpoints := update_where (\<lambda>k. Some (ep_id k) = endpoint_of i d)
                    (restore_row now) (wh_endpoints d)\<rparr>))
              else failing status (take max_response_body body) (''endpoint returned HTTP '' @ show_int status))))"

section \<open>Log, replay and test\<close>

definition list_deliveries :: "string \<Rightarrow> string \<Rightarrow> (int \<times> string) option \<Rightarrow> int \<Rightarrow> 'x webhook_db_scheme \<Rightarrow> delivery list" where
  "list_deliveries w ep before limit d =
     (let n = (if limit \<le> 0 \<or> limit > 200 then 50 else limit);
          keep = (\<lambda>l. dl_workspace l = w \<and> dl_endpoint l = ep \<and> (case before of None \<Rightarrow> True
            | Some (t, i) \<Rightarrow> dl_created l < t \<or> dl_created l = t \<and> dl_id l < i))
      in take (nat n) (rev (sort_key dl_created (sort_key dl_id (filter keep (wh_deliveries d))))))"

text \<open>
  The insert and the enqueue of Replay and Test run on their own, not in one transaction;
  the delivery is returned together with the error of the enqueue.
\<close>

definition send_again :: "bool \<Rightarrow> string \<Rightarrow> string \<Rightarrow> int \<Rightarrow> string \<Rightarrow> string \<Rightarrow> string \<Rightarrow> json \<Rightarrow> ('x webhook_db_scheme, webhook_error, delivery) tx" where
  "send_again queue i ji now w ep ty payload =
     (let l = new_delivery i now w ep '''' ty payload in
      tx_bind (sql_checked (insert_delivery l)) (\<lambda>_.
        if \<not> queue then tx_ret l
        else tx_bind (tx_try (on_jobs (enqueue_job ji now now (delivery_spec w i))))
          (\<lambda>res. case res of Inl e \<Rightarrow> tx_fail (map_err JobsError e) | Inr _ \<Rightarrow> tx_ret l)))"

definition replay_delivery :: "bool \<Rightarrow> string \<Rightarrow> string \<Rightarrow> int \<Rightarrow> string \<Rightarrow> string \<Rightarrow> string \<Rightarrow> ('x webhook_db_scheme, webhook_error, delivery) tx" where
  "replay_delivery queue i ji now w ep old =
     tx_bind (sql_read (\<lambda>d. filter (\<lambda>l. dl_workspace l = w \<and> dl_endpoint l = ep \<and> dl_id l = old) (wh_deliveries d)))
       (\<lambda>ls. case ls of [] \<Rightarrow> tx_fail (Err WebhookNotFound)
         | l # _ \<Rightarrow> send_again queue i ji now w ep (dl_type l) (dl_payload l))"

definition test_payload :: json where
  "test_payload = JObj [(''type'', JStr ''webhook.test''), (''data'', JObj [(''message'', JStr ''Hubchat webhook test'')])]"

definition test_delivery :: "bool \<Rightarrow> string \<Rightarrow> string \<Rightarrow> int \<Rightarrow> string \<Rightarrow> string \<Rightarrow> ('x webhook_db_scheme, webhook_error, delivery) tx" where
  "test_delivery queue i ji now w ep = send_again queue i ji now w ep ''webhook.test'' test_payload"

text \<open>
  RetentionSweep: \<open>days\<close> is the retention setting of a workspace, \<open>held\<close> an open legal hold
  of category all or webhooks.
\<close>

definition retention_sweep :: "int \<Rightarrow> (string \<Rightarrow> int) \<Rightarrow> (string \<Rightarrow> bool) \<Rightarrow> ('x webhook_db_scheme, webhook_error, int) tx" where
  "retention_sweep now days held = sql (\<lambda>d.
     let old = (\<lambda>l. dl_status l \<noteq> DlPending \<and> days (dl_workspace l) > 0 \<and>
           dl_created l < now - days (dl_workspace l) * day \<and> \<not> held (dl_workspace l))
     in (int (length (filter old (wh_deliveries d))), d\<lparr>wh_deliveries := delete_where old (wh_deliveries d)\<rparr>))"

end
