(* ===== verification/WebhookSafety.thy ===== *)
theory WebhookSafety
  imports Webhook
begin

text \<open>
  Webhooks as a durable consumer: the fan-out keeps the contract event_handler, so every
  event below the checkpoint has a delivery for each endpoint that subscribed; one delivery
  per endpoint and event; the delivery state machine; and where the outbox can be left
  without a job.
\<close>

section \<open>Frame and monotonicity of the fan-out\<close>

text \<open>What the statements of the fan-out may do: add deliveries, change the job table.\<close>

definition grows :: "'x webhook_db_scheme \<Rightarrow> 'x webhook_db_scheme \<Rightarrow> bool" where
  "grows d d' \<longleftrightarrow> db_events d' = db_events d \<and> db_seqs d' = db_seqs d \<and> cn_cursors d' = cn_cursors d \<and>
     wh_endpoints d' = wh_endpoints d \<and> set (wh_deliveries d) \<subseteq> set (wh_deliveries d')"

lemma grows_refl [simp]: "grows d d"
  by (simp add: grows_def)

lemma grows_trans: "grows d d' \<Longrightarrow> grows d' d'' \<Longrightarrow> grows d d''"
  by (auto simp: grows_def)

lemma grows_jobs [simp]: "grows d (d\<lparr>wh_jobs := j\<rparr>)"
  by (simp add: grows_def)

lemma tx_on_Inr [tx_inv]:
  "tx_on get put m (d, fs) = (Inr a, d', fs') \<longleftrightarrow> (\<exists>s. m (get d, fs) = (Inr a, s, fs') \<and> d' = put s d)"
  by (auto simp: tx_on_def split: prod.splits)

lemma tx_try_run: "tx_try m w = (Inr (fst (m w)), snd (m w))"
  by (cases "m w") (simp add: tx_try_def)

lemma insert_delivery_grows: "insert_delivery l d = Some (b, d') \<Longrightarrow> grows d d'"
  by (auto simp: insert_delivery_def grows_def split: if_splits)

definition has_delivery :: "string \<Rightarrow> event_row \<Rightarrow> 'x webhook_db_scheme \<Rightarrow> bool" where
  "has_delivery ep r d \<longleftrightarrow> (\<exists>l \<in> set (wh_deliveries d). dl_endpoint l = ep \<and> dl_event l = r_id r)"

lemma has_delivery_grows: "grows d d' \<Longrightarrow> has_delivery ep r d \<Longrightarrow> has_delivery ep r d'"
  by (auto simp: grows_def has_delivery_def)

lemma insert_delivery_has:
  "insert_delivery (new_delivery i now w ep (r_id r) ty p) d = Some (b, d') \<Longrightarrow> has_delivery ep r d'"
  by (auto simp: insert_delivery_def has_delivery_def new_delivery_def split: if_splits)

lemma dispatch_one_Inr:
  assumes "dispatch_one queue now r ((i, ji), ep) (d, fs) = (Inr u, d', fs')"
  shows "grows d d' \<and> has_delivery ep r d'"
proof -
  obtain b d1 fs1 where ins: "insert_delivery (new_delivery i now (r_workspace r) ep (r_id r) (r_type r) (record_json r)) d = Some (b, d1)"
    and rest: "(if \<not> b \<or> \<not> queue then tx_ret ()
       else tx_bind (tx_try (on_jobs (enqueue_tx ji now now (delivery_spec (r_workspace r) i))))
            (\<lambda>res. case res of Inr _ \<Rightarrow> tx_ret () | Inl e \<Rightarrow>
               if e = Err ErrDuplicate then tx_ret () else tx_fail (map_err JobsError e))) (d1, fs1) = (Inr u, d', fs')"
    using assms by (auto simp: dispatch_one_def tx_bind_Inr sql_checked_Inr)
  have g: "grows d d1" "has_delivery ep r d1"
    using insert_delivery_grows [OF ins] insert_delivery_has [OF ins] by auto
  have "grows d1 d'"
  proof (cases "\<not> b \<or> \<not> queue")
    case True
    then show ?thesis using rest by (simp add: tx_ret_def)
  next
    case False
    obtain res j fs2 where e: "enqueue_tx ji now now (delivery_spec (r_workspace r) i) (wh_jobs d1, fs1) = (res, j, fs2)"
      by (metis prod_cases3)
    have "d' = d1\<lparr>wh_jobs := j\<rparr>"
      using rest False e by (auto simp: tx_bind_def tx_try_def tx_on_def tx_ret_def tx_fail_def split: sum.splits if_splits)
    then show ?thesis by simp
  qed
  then show ?thesis using g grows_trans has_delivery_grows by blast
qed

lemma tx_each_dispatch:
  assumes "tx_each (dispatch_one queue now r) xs (d, fs) = (Inr u, d', fs')"
  shows "grows d d' \<and> (\<forall>x \<in> set xs. has_delivery (snd x) r d')"
  using assms
proof (induction xs arbitrary: d fs)
  case Nil
  then show ?case by (simp add: tx_ret_def)
next
  case (Cons x xs)
  obtain i ji ep where x: "x = ((i, ji), ep)" by (metis surj_pair)
  obtain u1 d1 fs1 where "dispatch_one queue now r x (d, fs) = (Inr u1, d1, fs1)"
    and r: "tx_each (dispatch_one queue now r) xs (d1, fs1) = (Inr u, d', fs')"
    using Cons.prems by (auto simp: tx_bind_Inr)
  then have g: "grows d d1" "has_delivery ep r d1" using dispatch_one_Inr x by blast+
  show ?case using Cons.IH [OF r] g x grows_trans has_delivery_grows by auto blast+
qed

lemma dispatch_record_Inr:
  assumes "dispatch_record queue now ids r (d, fs) = (Inr u, d', fs')"
  shows "grows d d' \<and> (\<forall>e \<in> set (wh_endpoints d). subscribes r e \<longrightarrow> has_delivery (ep_id e) r d')"
proof -
  let ?eps = "map ep_id (filter (subscribes r) (wh_endpoints d))"
  obtain fs1 fs2 where "tx_each (dispatch_one queue now r) (zip (map ids [0..<length ?eps]) ?eps) (d, fs1) = (Inr u, d', fs2)"
    using assms by (auto simp: dispatch_record_def with_tx_Inr tx_bind_Inr sql_Inr)
  from tx_each_dispatch [OF this] have t: "grows d d'"
    "\<forall>x \<in> set (zip (map ids [0..<length ?eps]) ?eps). has_delivery (snd x) r d'" by auto
  have "set ?eps = snd ` set (zip (map ids [0..<length ?eps]) ?eps)"
    by (metis length_map length_upt map_snd_zip minus_nat.diff_0 set_map)
  then have "\<forall>ep \<in> set ?eps. has_delivery ep r d'" using t(2) by (auto simp del: set_map)
  then show ?thesis using t(1) by auto
qed

lemma dispatch_record_Inl:
  "dispatch_record queue now ids r (d, fs) = (Inl e, d', fs') \<Longrightarrow> d' = d"
  unfolding dispatch_record_def by (rule with_tx_rolls_back)

text \<open>The effect Consume waits for: a delivery for every endpoint of \<open>eps\<close> that subscribes.\<close>

definition fanned_out :: "event_row \<Rightarrow> 'x webhook_db_scheme \<Rightarrow> bool" where
  "fanned_out r d \<longleftrightarrow> (\<forall>e \<in> set (wh_endpoints d). subscribes r e \<longrightarrow> has_delivery (ep_id e) r d)"

lemma fanned_out_grows: "grows d d' \<Longrightarrow> fanned_out r d \<Longrightarrow> fanned_out r d'"
  using has_delivery_grows by (fastforce simp: fanned_out_def grows_def)

lemma dispatch_record_grows:
  assumes "dispatch_record queue now ids r (d, fs) = (res, d', fs')"
  shows "grows d d'"
proof (cases res)
  case (Inl e)
  then show ?thesis using dispatch_record_Inl assms by fastforce
next
  case (Inr u)
  then show ?thesis using dispatch_record_Inr assms by blast
qed

interpretation fan: event_handler "\<lambda>r. dispatch_record queue now (ids (r_id r)) r" "\<lambda>_. True" fanned_out
proof
  fix d :: "'a webhook_db_scheme" and r fs u d' fs'
  assume "dispatch_record queue now (ids (r_id r)) r (d, fs) = (Inr u, d', fs')"
  from dispatch_record_Inr [OF this] show "fanned_out r d'" by (auto simp: fanned_out_def grows_def)
next
  fix d :: "'a webhook_db_scheme" and r fs res d' fs' q
  assume "dispatch_record queue now (ids (r_id r)) r (d, fs) = (res, d', fs')" "fanned_out q d"
  then show "fanned_out q d'" using dispatch_record_grows fanned_out_grows by blast
next
  fix d :: "'a webhook_db_scheme" and r fs res d' fs'
  assume "dispatch_record queue now (ids (r_id r)) r (d, fs) = (res, d', fs')"
  from dispatch_record_grows [OF this]
  show "db_events d' = db_events d \<and> db_seqs d' = db_seqs d \<and> cn_cursors d' = cn_cursors d" by (simp add: grows_def)
next
  fix d :: "'a webhook_db_scheme" and c r
  show "fanned_out r (d\<lparr>cn_cursors := c\<rparr>) = fanned_out r d"
    by (simp add: fanned_out_def has_delivery_def)
qed simp_all

section \<open>The tables under every operation\<close>

text \<open>The operations of the service, each with what the outside world contributes.\<close>

datatype webhook_action =
    CreateEndpoint "string \<Rightarrow> webhook_error + string" "string option" "string \<Rightarrow> string option" string string string endpoint_input
  | UpdateEndpoint "string \<Rightarrow> webhook_error + string" string string endpoint_input
  | DeleteEndpoint string string
  | RotateSecret "string option" "string \<Rightarrow> string option" string string
  | Dispatch bool "nat \<Rightarrow> string \<times> string" event_row
  | EnqueueAction bool "string \<Rightarrow> string" string string string string string json
  | Deliver "string \<Rightarrow> string option" "json \<Rightarrow> string" "string \<Rightarrow> string \<Rightarrow> int \<Rightarrow> string"
      "http_request \<Rightarrow> http_outcome" "int \<Rightarrow> string" int string
  | Replay bool string string string string string
  | TestDelivery bool string string string string
  | Sweep "string \<Rightarrow> int" "string \<Rightarrow> bool"

definition webhook_act :: "int \<Rightarrow> webhook_action \<Rightarrow> bool list \<Rightarrow> webhook_db \<Rightarrow> webhook_db" where
  "webhook_act now a fs d = (case a of
     CreateEndpoint v s enc i w m inp \<Rightarrow> fst (snd (create_endpoint v s enc i now w m inp (d, fs)))
   | UpdateEndpoint v w i inp \<Rightarrow> fst (snd (update_endpoint v now w i inp (d, fs)))
   | DeleteEndpoint w i \<Rightarrow> fst (snd (delete_endpoint w i (d, fs)))
   | RotateSecret s enc w i \<Rightarrow> fst (snd (rotate_secret s enc now w i (d, fs)))
   | Dispatch q ids r \<Rightarrow> fst (snd (dispatch_record q now ids r (d, fs)))
   | EnqueueAction q st i ji key w ep p \<Rightarrow> fst (snd (enqueue_action q st i ji now key w ep p (d, fs)))
   | Deliver dec ren sg snd' sh dur i \<Rightarrow> fst (snd (deliver_webhook dec ren sg snd' sh now now dur i (d, fs)))
   | Replay q i ji w ep old \<Rightarrow> fst (snd (replay_delivery q i ji now w ep old (d, fs)))
   | TestDelivery q i ji w ep \<Rightarrow> fst (snd (test_delivery q i ji now w ep (d, fs)))
   | Sweep days held \<Rightarrow> fst (snd (retention_sweep now days held (d, fs))))"

definition webhook_run :: "(int \<times> webhook_action \<times> bool list) list \<Rightarrow> webhook_db \<Rightarrow> webhook_db" where
  "webhook_run as d = fold (\<lambda>(now, a, fs). webhook_act now a fs) as d"

text \<open>The unique index webhook_deliveries_once, the keys, the foreign key, and the auto-disable rule.\<close>

definition event_pairs :: "delivery list \<Rightarrow> (string \<times> string) list" where
  "event_pairs ls = map (\<lambda>l. (dl_endpoint l, dl_event l)) (filter (\<lambda>l. dl_event l \<noteq> '''') ls)"

definition strikes_ok :: "endpoint \<Rightarrow> bool" where
  "strikes_ok e \<longleftrightarrow> 0 \<le> ep_failures e \<and> (6 \<le> ep_failures e \<longrightarrow> ep_disabled_at e \<noteq> None)"

definition tables_ok :: "'x webhook_db_scheme \<Rightarrow> bool" where
  "tables_ok d \<longleftrightarrow> distinct (map dl_id (wh_deliveries d)) \<and> distinct (event_pairs (wh_deliveries d)) \<and>
     distinct (map ep_id (wh_endpoints d)) \<and>
     (\<forall>l \<in> set (wh_deliveries d). dl_endpoint l \<in> ep_id ` set (wh_endpoints d)) \<and>
     (\<forall>e \<in> set (wh_endpoints d). strikes_ok e)"

lemma tables_ok_jobs [simp]: "tables_ok (d\<lparr>wh_jobs := j\<rparr>) = tables_ok d"
  by (simp add: tables_ok_def)

lemma tables_ok_receipts [simp]: "tables_ok (d\<lparr>wh_receipts := rs\<rparr>) = tables_ok d"
  by (simp add: tables_ok_def)

lemma event_pairs_update:
  "(\<And>l. dl_endpoint (f l) = dl_endpoint l \<and> dl_event (f l) = dl_event l) \<Longrightarrow>
     event_pairs (update_where P f ls) = event_pairs ls"
  by (induction ls) (auto simp: event_pairs_def)

lemma event_pairs_filter: "distinct (event_pairs ls) \<Longrightarrow> distinct (event_pairs (filter P ls))"
proof -
  assume "distinct (event_pairs ls)"
  then have "distinct (map (\<lambda>l. (dl_endpoint l, dl_event l)) (filter P (filter (\<lambda>l. dl_event l \<noteq> '''') ls)))"
    unfolding event_pairs_def by (rule distinct_map_filter)
  then show ?thesis by (simp add: event_pairs_def conj_commute)
qed

lemma tables_ok_delivery_update:
  assumes "tables_ok d" "\<And>l. dl_id (f l) = dl_id l \<and> dl_endpoint (f l) = dl_endpoint l \<and> dl_event (f l) = dl_event l"
  shows "tables_ok (d\<lparr>wh_deliveries := update_where P f (wh_deliveries d)\<rparr>)"
proof -
  have "map dl_id (update_where P f (wh_deliveries d)) = map dl_id (wh_deliveries d)"
    by (rule map_update_where) (simp add: assms(2))
  then show ?thesis using assms(1) event_pairs_update [of f P] assms(2)
    by (auto simp: tables_ok_def set_update_where)
qed

lemma tables_ok_endpoint_update:
  assumes "tables_ok d" "\<And>e. ep_id (f e) = ep_id e" "\<And>e. strikes_ok e \<Longrightarrow> strikes_ok (f e)"
  shows "tables_ok (d\<lparr>wh_endpoints := update_where P f (wh_endpoints d)\<rparr>)"
proof -
  have m: "map ep_id (update_where P f (wh_endpoints d)) = map ep_id (wh_endpoints d)"
    by (rule map_update_where) (simp add: assms(2))
  then have "ep_id ` set (update_where P f (wh_endpoints d)) = ep_id ` set (wh_endpoints d)"
    by (metis image_set)
  then show ?thesis using assms(1,3) m by (auto simp: tables_ok_def set_update_where)
qed

lemma tables_ok_insert_delivery:
  "tables_ok d \<Longrightarrow> insert_delivery l d = Some (b, d') \<Longrightarrow> tables_ok d'"
  by (auto simp: insert_delivery_def tables_ok_def event_pairs_def split: if_splits) blast

lemma tables_ok_insert_action:
  "tables_ok d \<Longrightarrow> dl_event l = '''' \<Longrightarrow> tables_ok (snd (insert_action l d))"
  by (auto simp: insert_action_def tables_ok_def event_pairs_def intro: rev_image_eqI)

lemma new_delivery_sel [simp]:
  "dl_event (new_delivery i now w ep ev ty p) = ev" "dl_id (new_delivery i now w ep ev ty p) = i"
  by (simp_all add: new_delivery_def)

lemma keeps_dispatch: "tx_keeps tables_ok (dispatch_record q now ids r)"
  unfolding dispatch_record_def dispatch_one_def
  by (auto intro!: keeps simp: tables_ok_insert_delivery split: sum.split prod.split)

lemma keeps_enqueue_action: "tx_keeps tables_ok (enqueue_action q st i ji now key w ep p)"
  unfolding enqueue_action_def complete_action_def Let_def
  by (auto intro!: keeps simp: tables_ok_insert_action split: sum.split)

lemma keeps_send_again: "tx_keeps tables_ok (send_again q i ji now w ep ty p)"
  unfolding send_again_def Let_def
  by (auto intro!: keeps simp: tables_ok_insert_delivery split: sum.split)

lemma keeps_replay: "tx_keeps tables_ok (replay_delivery q i ji now w ep old)"
  unfolding replay_delivery_def by (auto intro!: keeps keeps_send_again split: list.split)

lemma keeps_record_failure: "tx_keeps tables_ok (record_failure c now i a s b dur f m)"
  unfolding record_failure_def Let_def
  by (auto intro!: keeps tables_ok_delivery_update tables_ok_endpoint_update
      simp: failed_row_def punish_row_def strikes_ok_def split: option.splits)

lemma tables_ok_claim: "tables_ok d \<Longrightarrow> tables_ok (snd (claim_delivery i d))"
  by (auto simp: claim_delivery_def intro!: tables_ok_delivery_update split: option.split)

lemma keeps_deliver: "tx_keeps tables_ok (deliver_webhook dec ren sg send sh c now dur i)"
  unfolding deliver_webhook_def Let_def
  by (auto intro!: keeps keeps_record_failure tables_ok_claim tables_ok_delivery_update tables_ok_endpoint_update
      simp: delivered_row_def restore_row_def strikes_ok_def split: option.split http_outcome.split)

lemma tables_ok_update_row:
  "tables_ok d \<Longrightarrow> (\<And>e. ep_id (f e) = ep_id e) \<Longrightarrow> (\<And>e. strikes_ok e \<Longrightarrow> strikes_ok (f e)) \<Longrightarrow>
     tables_ok (snd (update_endpoint_row w i f d))"
  by (auto simp: update_endpoint_row_def intro!: tables_ok_endpoint_update split: list.split)

lemma tables_ok_delete:
  assumes "tables_ok d"
  shows "tables_ok (d\<lparr>wh_endpoints := delete_where P (wh_endpoints d),
    wh_deliveries := delete_where (\<lambda>l. dl_endpoint l \<in> ep_id ` set (filter P (wh_endpoints d))) (wh_deliveries d)\<rparr>)"
proof -
  have "ep_id ` set (wh_endpoints d) \<subseteq> ep_id ` set (filter P (wh_endpoints d)) \<union> ep_id ` set (delete_where P (wh_endpoints d))"
    by (auto simp: delete_where_def)
  then have "\<forall>l \<in> set (delete_where (\<lambda>l. dl_endpoint l \<in> ep_id ` set (filter P (wh_endpoints d))) (wh_deliveries d)).
      dl_endpoint l \<in> ep_id ` set (delete_where P (wh_endpoints d))"
    using assms unfolding tables_ok_def delete_where_def set_filter by blast
  then show ?thesis using assms
    by (simp add: tables_ok_def) (simp add: delete_where_def event_pairs_filter distinct_map_filter)
qed

lemma keeps_delete: "tx_keeps tables_ok (delete_endpoint w i)"
  unfolding delete_endpoint_def Let_def
  by (intro keeps_bind keeps_sql keeps_if keeps_fail keeps_ret) (simp only: snd_conv tables_ok_delete)

lemma keeps_endpoints:
  "tx_keeps tables_ok (create_endpoint v s enc i now w m inp)"
  "tx_keeps tables_ok (update_endpoint v now w i inp)"
  "tx_keeps tables_ok (rotate_secret s enc now w i)"
  unfolding create_endpoint_def update_endpoint_def rotate_secret_def get_endpoint_def
  by (auto intro!: keeps tables_ok_update_row split: sum.split option.split list.split)
    (auto simp: tables_ok_def new_endpoint_def strikes_ok_def update_row_def split: if_splits)

lemma keeps_sweep: "tx_keeps tables_ok (retention_sweep now days held)"
  unfolding retention_sweep_def Let_def
  by (auto intro!: keeps simp: tables_ok_def delete_where_def event_pairs_filter distinct_map_filter)

lemma webhook_act_ok: "tables_ok d \<Longrightarrow> tables_ok (webhook_act now a fs d)"
  by (cases a) (auto simp: webhook_act_def test_delivery_def intro!: keeps_run [where I = tables_ok]
      keeps_delete keeps_endpoints keeps_dispatch keeps_enqueue_action keeps_deliver keeps_replay keeps_send_again keeps_sweep)

lemma webhook_run_ok: "tables_ok d \<Longrightarrow> tables_ok (webhook_run as d)"
  by (induction as arbitrary: d) (auto simp: webhook_run_def webhook_act_ok)

section \<open>Runs of the consumer\<close>

text \<open>A turn: whether the queue is there, new ids per event, the lock, the time, the workspace, failures.\<close>

record consumer_turn_input =
  ct_queue :: bool
  ct_ids :: "string \<Rightarrow> nat \<Rightarrow> string \<times> string"
  ct_locked :: bool
  ct_now :: int
  ct_workspace :: string
  ct_faults :: "bool list"

definition webhook_turn :: "consumer_turn_input \<Rightarrow> webhook_db \<Rightarrow> webhook_db" where
  "webhook_turn t d = fst (consume_workspace (\<lambda>r. dispatch_record (ct_queue t) (ct_now t) (ct_ids t (r_id r)) r)
     (ct_locked t) (ct_now t) ''webhook'' (ct_workspace t) (d, ct_faults t))"

lemma webhook_turn_safe: "fan.safe n v d \<Longrightarrow> fan.safe n v (webhook_turn t d)"
  unfolding webhook_turn_def by (rule fan.consume_workspace_safe)

lemma webhook_turns_safe: "fan.safe n v d \<Longrightarrow> fan.safe n v (fold webhook_turn ts d)"
  by (induction ts arbitrary: d) (simp_all add: webhook_turn_safe)

section \<open>Normalising event names\<close>

lemma normalize_loop_Inr:
  "normalize_loop ts out = Inr res \<Longrightarrow> distinct out \<Longrightarrow> (\<forall>e \<in> set out. e \<noteq> '''' \<and> CHR ''.'' \<in> set e \<and> length e \<le> 120) \<Longrightarrow>
     distinct res \<and> (\<forall>e \<in> set res. e \<noteq> '''' \<and> CHR ''.'' \<in> set e \<and> length e \<le> 120) \<and>
     set res = set out \<union> (trim_space ` set ts - {''''})"
proof (induction ts out rule: normalize_loop.induct)
  case (2 t ts out)
  show ?case
  proof (cases "trim_space t = ''''")
    case True
    then have "normalize_loop ts out = Inr res" using "2.prems"(1) by (simp add: Let_def)
    from "2.IH"(1) [OF refl True this "2.prems"(2,3)] True show ?thesis by auto
  next
    case False
    show ?thesis
    proof (cases "CHR ''.'' \<notin> set (trim_space t) \<or> length (trim_space t) > 120")
      case True
      then show ?thesis using "2.prems"(1) False by (simp add: Let_def)
    next
      case ok: False
      let ?out = "if trim_space t \<in> set out then out else out @ [trim_space t]"
      have run: "normalize_loop ts ?out = Inr res" using "2.prems"(1) False ok by (simp add: Let_def)
      have o1: "set ?out = insert (trim_space t) (set out)" by auto
      have o2: "distinct ?out" using "2.prems"(2) by simp
      have "\<forall>e \<in> insert (trim_space t) (set out). e \<noteq> '''' \<and> CHR ''.'' \<in> set e \<and> length e \<le> 120"
        using "2.prems"(3) False ok by (simp add: not_less)
      then have o3: "\<forall>e \<in> set ?out. e \<noteq> '''' \<and> CHR ''.'' \<in> set e \<and> length e \<le> 120" unfolding o1 .
      have eq: "insert (trim_space t) (set out) \<union> (trim_space ` set ts - {''''}) = set out \<union> (trim_space ` set (t # ts) - {''''})"
        using False by auto
      show ?thesis using "2.IH"(2) [OF refl False ok run o2 o3] unfolding o1 eq .
    qed
  qed
qed auto

section \<open>Properties\<close>

text \<open>
  C28: webhooks are delivered at least once.  Take any database in which every event up to
  the checkpoint of a workspace has been fanned out, and run any turns of the webhook
  consumer, of any workspaces, with any locks and with any statement failing: the same
  holds afterwards.  No failure makes the consumer skip an event.
\<close>

theorem webhook_never_skips_event:
  assumes "log_inv d" and "\<forall>r \<in> set (rows_of d w). r_sequence r \<le> cursor_of ''webhook'' w d \<longrightarrow> fanned_out r d"
    and "r \<in> set (rows_of (fold webhook_turn ts d) w)"
    and "r_sequence r \<le> cursor_of ''webhook'' w (fold webhook_turn ts d)"
  shows "fanned_out r (fold webhook_turn ts d)"
proof -
  have "fan.safe ''webhook'' w d" using assms(1,2) by (simp add: fan.safe_def)
  from webhook_turns_safe [OF this, of ts] show ?thesis using assms(3,4) by (simp add: fan.safe_def)
qed

definition demo_endpoint :: endpoint where
  "demo_endpoint = \<lparr> ep_id = ''whk_1'', ep_workspace = ''wrk_1'', ep_url = ''https://example.com'', ep_description = '''',
     ep_events = [''message.created''], ep_secret = ''c'', ep_hint = '''', ep_enabled = True, ep_disabled_at = None,
     ep_failures = 0, ep_created_by = '''', ep_created = 0, ep_updated = 0 \<rparr>"

definition demo_webhooks :: webhook_db where
  "demo_webhooks = \<lparr> db_seqs = (\<lambda>_. None)(''wrk_1'' \<mapsto> 2), db_events = [sample_row ''evt_1'' ''wrk_1'' 1], db_notify = [],
     cn_cursors = (\<lambda>_. None), cn_importing = (\<lambda>_. False), wh_jobs = \<lparr>db_jobs = [], db_attempts = []\<rparr>,
     wh_endpoints = [demo_endpoint], wh_deliveries = [], wh_receipts = [] \<rparr>"

definition demo_turn :: "bool list \<Rightarrow> consumer_turn_input" where
  "demo_turn fs = \<lparr> ct_queue = True, ct_ids = (\<lambda>ev k. (''whd_1'', ''job_1'')), ct_locked = True, ct_now = 9,
     ct_workspace = ''wrk_1'', ct_faults = fs \<rparr>"

lemma demo_webhooks_log: "log_inv demo_webhooks" "rows_of demo_webhooks ''wrk_1'' = [sample_row ''evt_1'' ''wrk_1'' 1]"
  by (simp_all add: demo_webhooks_def log_inv_def rows_of_def next_of_def sample_row_def)

theorem webhook_never_skips_event_witness:
  "cursor_of ''webhook'' ''wrk_1'' (fold webhook_turn [demo_turn [], demo_turn []] demo_webhooks) = 1 \<and>
   fanned_out (sample_row ''evt_1'' ''wrk_1'' 1) (fold webhook_turn [demo_turn [], demo_turn []] demo_webhooks)"
proof -
  let ?d = "fold webhook_turn [demo_turn [], demo_turn []] demo_webhooks"
  have c: "cursor_of ''webhook'' ''wrk_1'' ?d = 1" by code_simp
  have "rows_of ?d ''wrk_1'' = [sample_row ''evt_1'' ''wrk_1'' 1]" by code_simp
  then have r: "sample_row ''evt_1'' ''wrk_1'' 1 \<in> set (rows_of ?d ''wrk_1'')" by simp
  have p: "\<forall>r \<in> set (rows_of demo_webhooks ''wrk_1''). r_sequence r \<le> cursor_of ''webhook'' ''wrk_1'' demo_webhooks \<longrightarrow> fanned_out r demo_webhooks"
    unfolding demo_webhooks_log by (simp add: cursor_of_def demo_webhooks_def sample_row_def)
  have le: "r_sequence (sample_row ''evt_1'' ''wrk_1'' 1) \<le> cursor_of ''webhook'' ''wrk_1'' ?d"
    unfolding c by (simp add: sample_row_def)
  from webhook_never_skips_event [OF demo_webhooks_log(1) p r le] c show ?thesis by blast
qed

text \<open>
  And an undisturbed turn catches up.  With fewer than 1000 events behind, a turn that
  gets the lock and returns without an error has moved the checkpoint past every event,
  each with a delivery for every endpoint that subscribed.
\<close>

theorem webhook_turn_catches_up:
  assumes "log_inv d" and "\<forall>r \<in> set (rows_of d w). r_sequence r \<le> cursor_of ''webhook'' w d \<longrightarrow> fanned_out r d"
    and "\<not> cn_importing d w"
    and "length (filter (\<lambda>r. cursor_of ''webhook'' w d < r_sequence r) (rows_of d w)) < 1000"
    and "drain_consumer (\<lambda>r. dispatch_record queue now (ids (r_id r)) r) True now ''webhook'' w (d, fs) = (Inr u, d', fs')"
  shows "\<forall>r \<in> set (rows_of d' w). r_sequence r \<le> cursor_of ''webhook'' w d' \<and> fanned_out r d'"
proof -
  have "fan.safe ''webhook'' w d" using assms(1,2) by (simp add: fan.safe_def)
  from fan.drain_consumer_safe [OF this assms(5)] assms(3,4) show ?thesis by auto
qed

theorem webhook_turn_catches_up_witness:
  "list_all (\<lambda>r. fanned_out r (webhook_turn (demo_turn []) demo_webhooks))
     (rows_of (webhook_turn (demo_turn []) demo_webhooks) ''wrk_1'')"
proof -
  let ?h = "\<lambda>r. dispatch_record True 9 ((\<lambda>ev k. (''whd_1'', ''job_1'')) (r_id r)) r"
  obtain res d' fs' where run: "drain_consumer ?h True 9 ''webhook'' ''wrk_1'' (demo_webhooks, []) = (res, d', fs')"
    by (metis prod_cases3)
  have "(case fst (drain_consumer ?h True 9 ''webhook'' ''wrk_1'' (demo_webhooks, [])) of Inl _ \<Rightarrow> False | Inr _ \<Rightarrow> True)"
    by code_simp
  then obtain u where u: "res = Inr u" using run by (cases res) simp_all
  have d': "webhook_turn (demo_turn []) demo_webhooks = d'"
    using run by (simp add: webhook_turn_def demo_turn_def consume_workspace_def)
  have p: "\<forall>r \<in> set (rows_of demo_webhooks ''wrk_1''). r_sequence r \<le> cursor_of ''webhook'' ''wrk_1'' demo_webhooks \<longrightarrow> fanned_out r demo_webhooks"
    unfolding demo_webhooks_log by (simp add: cursor_of_def demo_webhooks_def sample_row_def)
  have i: "\<not> cn_importing demo_webhooks ''wrk_1''" by (simp add: demo_webhooks_def)
  have l: "length (filter (\<lambda>r. cursor_of ''webhook'' ''wrk_1'' demo_webhooks < r_sequence r) (rows_of demo_webhooks ''wrk_1'')) < 1000"
    unfolding demo_webhooks_log by simp
  from webhook_turn_catches_up [OF demo_webhooks_log(1) p i l run [unfolded u]] show ?thesis unfolding d' list_all_iff by blast
qed

text \<open>
  But at most one delivery per endpoint and event, and a disabled endpoint stays so.
  Whatever operations run, in any order, with any failures: delivery ids and endpoint ids
  are unique, no two deliveries share endpoint and event, every delivery belongs to an
  endpoint, and an endpoint with six or more failures in a row is disabled.
\<close>

theorem webhook_tables_consistent:
  assumes "tables_ok d"
  shows "let d' = webhook_run as d in
    distinct (map dl_id (wh_deliveries d')) \<and>
    distinct (map (\<lambda>l. (dl_endpoint l, dl_event l)) (filter (\<lambda>l. dl_event l \<noteq> '''') (wh_deliveries d'))) \<and>
    (\<forall>l \<in> set (wh_deliveries d'). dl_endpoint l \<in> ep_id ` set (wh_endpoints d')) \<and>
    (\<forall>e \<in> set (wh_endpoints d'). 6 \<le> ep_failures e \<longrightarrow> ep_disabled_at e \<noteq> None)"
  using webhook_run_ok [OF assms, of as] unfolding Let_def tables_ok_def event_pairs_def strikes_ok_def by blast

definition refusing :: "http_request \<Rightarrow> http_outcome" where
  "refusing rq = Response 500 ''no''"

definition demo_deliver :: "int \<Rightarrow> int \<times> webhook_action \<times> bool list" where
  "demo_deliver t = (t, Deliver Some (\<lambda>_. ''body'') (\<lambda>_ _ _. ''v1=0'') refusing (\<lambda>_. ''500'') 0 ''whd_1'', [])"

theorem webhook_tables_consistent_witness:
  "map ep_failures (wh_endpoints (webhook_run ((9, Dispatch True (\<lambda>k. (''whd_1'', ''job_1'')) (sample_row ''evt_1'' ''wrk_1'' 1), [])
       # map demo_deliver [10, 20, 30, 40, 50, 60]) demo_webhooks)) = [6] \<and>
   filter (\<lambda>e. 6 \<le> ep_failures e \<and> ep_disabled_at e = None)
     (wh_endpoints (webhook_run ((9, Dispatch True (\<lambda>k. (''whd_1'', ''job_1'')) (sample_row ''evt_1'' ''wrk_1'' 1), [])
       # map demo_deliver [10, 20, 30, 40, 50, 60]) demo_webhooks)) = []"
proof -
  let ?as = "(9, Dispatch True (\<lambda>k. (''whd_1'', ''job_1'')) (sample_row ''evt_1'' ''wrk_1'' 1), [])
       # map demo_deliver [10, 20, 30, 40, 50, 60]"
  have ok: "tables_ok demo_webhooks"
    by (simp add: tables_ok_def demo_webhooks_def event_pairs_def strikes_ok_def demo_endpoint_def)
  have "map ep_failures (wh_endpoints (webhook_run ?as demo_webhooks)) = [6]" by code_simp
  with webhook_tables_consistent [OF ok, of ?as] show ?thesis unfolding Let_def filter_empty_conv by blast
qed



text \<open>
  A failed attempt asks for another one exactly until the budget is used.  After a
  failed exchange, written without faults, the delivery has the attempt counted and is
  failed with a next attempt in 2^n seconds, n at most 6, and the job gets an error to
  retry on; or, at the budget, it is exhausted, has no next attempt and the job is done.
\<close>

theorem failed_attempt_recorded:
  assumes "lookup_key dl_id i (wh_deliveries d) = Some l" and "lookup_key ep_id (dl_endpoint l) (wh_endpoints d) = Some e"
    and "dl_status l \<in> {DlPending, DlFailed}" and "0 < dl_max l" and "0 \<le> dl_attempt l"
    and "decrypt (ep_secret e) = Some secret"
    and "send (build_request render sign (clock div 1000000000) secret (l\<lparr>dl_attempt := dl_attempt l + 1\<rparr>) e) = NoResponse m"
  shows "\<exists>d'. deliver_webhook decrypt render sign send sh clock now duration i (d, [])
        = (if dl_attempt l + 1 \<ge> dl_max l then Inr () else Inl (Msg m), d', []) \<and>
      (\<exists>l'. lookup_key dl_id i (wh_deliveries d') = Some l' \<and> dl_attempt l' = dl_attempt l + 1 \<and> dl_error l' = m \<and>
        (if dl_attempt l + 1 \<ge> dl_max l then dl_status l' = DlExhausted \<and> dl_next l' = None
         else dl_status l' = DlFailed \<and> dl_next l' = Some (clock + 2 ^ nat (min (dl_attempt l + 1) 6) * 1000000000)))"
proof -
  let ?n = "dl_attempt l + 1"
  let ?d1 = "d\<lparr>wh_deliveries := update_where (\<lambda>k. dl_id k = i) (\<lambda>k. k\<lparr>dl_attempt := dl_attempt k + 1\<rparr>) (wh_deliveries d)\<rparr>"
  let ?f = "failed_row clock ?n 0 '''' duration m (dl_max l)"
  let ?d2 = "?d1\<lparr>wh_deliveries := update_where (\<lambda>k. dl_id k = i) ?f (wh_deliveries ?d1)\<rparr>"
  let ?d3 = "?d2\<lparr>wh_endpoints := update_where (\<lambda>e. Some (ep_id e) = endpoint_of i ?d2) (punish_row now) (wh_endpoints ?d2)\<rparr>"
  have c: "claim_delivery i d = (Some (l\<lparr>dl_attempt := ?n\<rparr>, e), ?d1)"
    using assms(1-3) by (auto simp: claim_delivery_def)
  have "deliver_webhook decrypt render sign send sh clock now duration i (d, [])
      = record_failure clock now i ?n 0 '''' duration m (dl_max l) (?d1, [])"
    using assms(6,7) by (simp add: deliver_webhook_def tx_bind_def c)
  also have "\<dots> = (if ?n \<ge> dl_max l then Inr () else Inl (Msg m), ?d3, [])"
    using assms(4) by (simp add: record_failure_def tx_bind_def Let_def tx_ret_def tx_fail_def)
  finally have run: "deliver_webhook decrypt render sign send sh clock now duration i (d, [])
      = (if ?n \<ge> dl_max l then Inr () else Inl (Msg m), ?d3, [])" .
  have "lookup_key dl_id i (wh_deliveries ?d1) = Some (l\<lparr>dl_attempt := ?n\<rparr>)"
    using lookup_key_update_eq [OF assms(1), of "\<lambda>k. k\<lparr>dl_attempt := dl_attempt k + 1\<rparr>"] by simp
  then have "lookup_key dl_id i (wh_deliveries ?d2) = Some (?f (l\<lparr>dl_attempt := ?n\<rparr>))"
    using lookup_key_update_eq [of dl_id i "wh_deliveries ?d1" "l\<lparr>dl_attempt := ?n\<rparr>" ?f] by (simp add: failed_row_def)
  then have "lookup_key dl_id i (wh_deliveries ?d3) = Some (?f (l\<lparr>dl_attempt := ?n\<rparr>))" by simp
  then show ?thesis unfolding run by (simp add: failed_row_def)
qed

definition one_delivery :: webhook_db where
  "one_delivery = demo_webhooks\<lparr>wh_deliveries := [new_delivery ''whd_1'' 9 ''wrk_1'' ''whk_1'' '''' ''x.y'' JNull]\<rparr>"

theorem failed_attempt_recorded_witness:
  "\<exists>d'. deliver_webhook Some (\<lambda>_. '''') (\<lambda>_ _ _. '''') (\<lambda>_. NoResponse ''timeout'') (\<lambda>_. '''') 5 5 0 ''whd_1'' (one_delivery, [])
      = (Inl (Msg ''timeout''), d', []) \<and>
    (\<exists>l'. lookup_key dl_id ''whd_1'' (wh_deliveries d') = Some l' \<and> dl_status l' = DlFailed \<and> dl_next l' = Some 2000000005)"
proof -
  let ?l = "new_delivery ''whd_1'' 9 ''wrk_1'' ''whk_1'' '''' ''x.y'' JNull"
  have l: "lookup_key dl_id ''whd_1'' (wh_deliveries one_delivery) = Some ?l" by (simp add: one_delivery_def)
  have e: "lookup_key ep_id (dl_endpoint ?l) (wh_endpoints one_delivery) = Some demo_endpoint"
    by (simp add: one_delivery_def demo_webhooks_def new_delivery_def demo_endpoint_def)
  have s: "dl_status ?l \<in> {DlPending, DlFailed}" "0 < dl_max ?l" "0 \<le> dl_attempt ?l" "dl_attempt ?l = 0" "dl_max ?l = 6"
    by (simp_all add: new_delivery_def wh_max_attempts_def)
  have "\<exists>d'. deliver_webhook Some (\<lambda>_. '''') (\<lambda>_ _ _. '''') (\<lambda>_. NoResponse ''timeout'') (\<lambda>_. '''') 5 5 0 ''whd_1'' (one_delivery, [])
        = (if dl_attempt ?l + 1 \<ge> dl_max ?l then Inr () else Inl (Msg ''timeout''), d', []) \<and>
      (\<exists>l'. lookup_key dl_id ''whd_1'' (wh_deliveries d') = Some l' \<and> dl_attempt l' = dl_attempt ?l + 1 \<and> dl_error l' = ''timeout'' \<and>
        (if dl_attempt ?l + 1 \<ge> dl_max ?l then dl_status l' = DlExhausted \<and> dl_next l' = None
         else dl_status l' = DlFailed \<and> dl_next l' = Some (5 + 2 ^ nat (min (dl_attempt ?l + 1) 6) * 1000000000)))"
    by (rule failed_attempt_recorded [OF l e s(1-3)]) (rule refl)+
  then show ?thesis unfolding s(4,5) by auto
qed

text \<open>
  C30: the subscription list an endpoint stores is clean.  When it is accepted it has no
  duplicates, every name is trimmed, contains a dot and has at most 120 bytes, and the
  names are exactly the non-blank ones of the input.
\<close>

theorem normalized_events_clean:
  assumes "normalize_events input = Inr res"
  shows "distinct res \<and> (\<forall>e \<in> set res. CHR ''.'' \<in> set e \<and> length e \<le> 120) \<and>
    set res = trim_space ` set input - {''''}"
  using normalize_loop_Inr [OF assms [unfolded normalize_events_def]] by auto

theorem normalized_events_clean_witness:
  "normalize_events ['' ticket.created '', '''', ''ticket.created'', ''message.created''] = Inr [''ticket.created'', ''message.created''] \<and>
   distinct [''ticket.created'', ''message.created'']"
proof -
  have n: "normalize_events ['' ticket.created '', '''', ''ticket.created'', ''message.created''] = Inr [''ticket.created'', ''message.created'']"
    by code_simp
  from normalized_events_clean [OF n] n show ?thesis by blast
qed

text \<open>
  A replayed delivery can be left without a job.  Replay inserts the delivery and
  enqueues its job in separate transactions; when the enqueue fails, the caller gets an
  error but the pending delivery stays, and no job will ever send it.
\<close>

theorem replay_can_strand_delivery:
  "let (res, d, _) = replay_delivery True ''whd_2'' ''job_2'' 9 ''wrk_1'' ''whk_1'' ''whd_1'' (one_delivery, [False, False, True])
   in (case res of Inl e \<Rightarrow> e = Fault | Inr _ \<Rightarrow> False) \<and>
      map (\<lambda>l. (dl_id l, dl_status l)) (wh_deliveries d) = [(''whd_1'', DlPending), (''whd_2'', DlPending)] \<and>
      db_jobs (wh_jobs d) = []"
  by code_simp

text \<open>
  An unreadable secret is never recorded.  When the secret of an endpoint cannot be
  decrypted, Deliver counts the attempt and returns an error without recording a failure:
  after all six attempts of the job the delivery is still pending, with no error text and
  the failure count of the endpoint at zero.
\<close>

theorem unreadable_secret_stays_pending:
  "let d = fold (\<lambda>t d. fst (snd (deliver_webhook (\<lambda>_. None) (\<lambda>_. '''') (\<lambda>_ _ _. '''') refusing (\<lambda>_. '''') t t 0 ''whd_1'' (d, []))))
            [1, 2, 3, 4, 5, 6] one_delivery
   in map (\<lambda>l. (dl_status l, dl_attempt l, dl_error l)) (wh_deliveries d) = [(DlPending, 6, '''')] \<and>
      map ep_failures (wh_endpoints d) = [0]"
  by code_simp

end
