(* ===== verification/Encodings.thy ===== *)
theory Encodings
  imports HubPrelude "HOL-Library.Word"
begin

text \<open>
  The text encodings of the Go standard library the program uses: lower-case hexadecimal
  (encoding/hex and the verb %x), unpadded base32 (encoding/base32), decimal numbers.  A byte
  string is a \<open>string\<close>, as Go's string and []byte are.
\<close>

section \<open>Letters and digits\<close>

text \<open>strings.ToLower and a decimal digit.\<close>

definition lower_char :: "char \<Rightarrow> char" where
  "lower_char c = (if CHR ''A'' \<le> c \<and> c \<le> CHR ''Z'' then char_of (of_char c + 32 :: nat) else c)"

definition to_lower :: "string \<Rightarrow> string" where "to_lower = map lower_char"

definition digit_char :: "int \<Rightarrow> char" where
  "digit_char n = char_of (48 + nat (n mod 10))"

text \<open>A number without a sign, as %d and strconv print it.\<close>

fun decimal :: "nat \<Rightarrow> string" where
  "decimal n = (if n < 10 then [digit_char (int n)] else decimal (n div 10) @ [digit_char (int n)])"

declare decimal.simps [simp del]

section \<open>Hexadecimal\<close>

definition hex_digits :: string where "hex_digits = ''0123456789abcdef''"

definition hex_encode :: "string \<Rightarrow> string" where
  "hex_encode s = concat (map (\<lambda>c. [hex_digits ! (of_char c div 16), hex_digits ! (of_char c mod 16)]) s)"

definition hex_value :: "char \<Rightarrow> nat option" where
  "hex_value c = (let n = of_char c :: nat in
     if 48 \<le> n \<and> n \<le> 57 then Some (n - 48) else if 97 \<le> n \<and> n \<le> 102 then Some (n - 87)
     else if 65 \<le> n \<and> n \<le> 70 then Some (n - 55) else None)"

fun hex_decode :: "string \<Rightarrow> string option" where
  "hex_decode [] = Some []"
| "hex_decode [c] = None"
| "hex_decode (a # b # s) = (case (hex_value a, hex_value b, hex_decode s) of
     (Some x, Some y, Some t) \<Rightarrow> Some (char_of (16 * x + y) # t) | _ \<Rightarrow> None)"

lemma hex_digit_value: "n < 16 \<Longrightarrow> hex_value (hex_digits ! n) = Some n"
proof -
  have "list_all (\<lambda>n. hex_value (hex_digits ! n) = Some n) [0..<16]" by code_simp
  then show "n < 16 \<Longrightarrow> hex_value (hex_digits ! n) = Some n" by (simp add: list_all_iff)
qed

lemma of_char_256: "(of_char c :: nat) < 256"
  by (metis mod_less_divisor of_char_mod_256 zero_less_numeral)

lemma hex_round_trip: "hex_decode (hex_encode s) = Some s"
proof (induction s)
  case (Cons c s)
  have "of_char c div 16 < (16 :: nat)" using of_char_256 [of c] by (simp add: less_mult_imp_div_less)
  then show ?case using Cons by (simp add: hex_encode_def hex_digit_value)
qed (simp add: hex_encode_def)

lemma hex_encode_inj: "hex_encode s = hex_encode t \<longleftrightarrow> s = t"
  by (metis hex_round_trip option.inject)

section \<open>Numbers\<close>

text \<open>A signed number, as %d prints it.\<close>

definition show_int :: "int \<Rightarrow> string" where
  "show_int i = (if i < 0 then CHR ''-'' # decimal (nat (- i)) else decimal (nat i))"

definition digit_of :: "char \<Rightarrow> nat option" where
  "digit_of c = (if CHR ''0'' \<le> c \<and> c \<le> CHR ''9'' then Some (of_char c - 48) else None)"

fun digits :: "nat \<Rightarrow> string \<Rightarrow> nat option" where
  "digits n [] = Some n"
| "digits n (c # cs) = (case digit_of c of None \<Rightarrow> None | Some d \<Rightarrow> digits (10 * n + d) cs)"

text \<open>strconv.ParseInt with base 10 and 64 bits.\<close>

definition parse_int64 :: "string \<Rightarrow> int option" where
  "parse_int64 s =
     (let signed = s \<noteq> [] \<and> (hd s = CHR ''-'' \<or> hd s = CHR ''+''); ds = (if signed then tl s else s) in
      if ds = [] then None
      else case digits 0 ds of None \<Rightarrow> None
        | Some n \<Rightarrow> if signed \<and> hd s = CHR ''-'' then (if n \<le> 2 ^ 63 then Some (- int n) else None)
            else (if n < 2 ^ 63 then Some (int n) else None))"

lemma digits_append: "digits n (s @ t) = (case digits n s of None \<Rightarrow> None | Some m \<Rightarrow> digits m t)"
  by (induction s arbitrary: n) (auto split: option.split)

lemma digit_of_digit: "d < 10 \<Longrightarrow> digit_of (digit_char (int d)) = Some d"
proof -
  have "list_all (\<lambda>d. digit_of (digit_char (int d)) = Some d) [0..<10]" by code_simp
  then show "d < 10 \<Longrightarrow> digit_of (digit_char (int d)) = Some d" by (simp add: list_all_iff)
qed

lemma digit_char_mod: "digit_char (int n) = digit_char (int (n mod 10))"
  by (simp add: digit_char_def of_nat_mod)

lemma digits_decimal: "digits 0 (decimal n) = Some n"
proof (induction n rule: decimal.induct)
  case (1 n)
  show ?case
  proof (cases "n < 10")
    case True
    then show ?thesis using digit_of_digit [of n] by (simp add: decimal.simps [of n])
  next
    case False
    then have "digits 0 (decimal n) = digits (n div 10) [digit_char (int (n mod 10))]"
      using 1 by (subst decimal.simps) (simp add: digits_append digit_char_mod [of n])
    then show ?thesis using digit_of_digit [of "n mod 10"] by simp
  qed
qed

lemma decimal_digits: "c \<in> set (decimal n) \<Longrightarrow> CHR ''0'' \<le> c \<and> c \<le> CHR ''9''"
proof (induction n rule: decimal.induct)
  case (1 n)
  have d: "CHR ''0'' \<le> digit_char (int n) \<and> digit_char (int n) \<le> CHR ''9''"
    using digit_of_digit [of "n mod 10"] by (subst (1 2) digit_char_mod) (simp add: digit_of_def split: if_splits)
  show ?case using 1 d by (subst (asm) (2) decimal.simps) (auto split: if_splits)
qed

lemma decimal_not_empty [simp]: "decimal n \<noteq> []"
  by (subst decimal.simps) simp

lemma hd_decimal: "hd (decimal n) \<noteq> CHR ''-''" "hd (decimal n) \<noteq> CHR ''+''"
  using decimal_digits [of "hd (decimal n)" n] by (auto simp: less_eq_char_def)

lemma int64_round_trip: "- (2 ^ 63) \<le> i \<Longrightarrow> i < 2 ^ 63 \<Longrightarrow> parse_int64 (show_int i) = Some i"
  by (auto simp: parse_int64_def show_int_def digits_decimal hd_decimal Let_def nat_less_iff)

text \<open>strings.TrimSpace leaves a text without white space alone.\<close>

lemma trim_space_id: "list_all (\<lambda>c. \<not> is_space c) s \<Longrightarrow> trim_space s = s"
  unfolding trim_space_def by (subst (1 2) dropWhile_eq_self_iff [THEN iffD2]) (auto simp: list_all_iff hd_rev)

lemma digits_are_no_space: "CHR ''0'' \<le> c \<Longrightarrow> \<not> is_space c"
  by (auto simp: is_space_def less_eq_char_def)

lemma trim_show_int: "trim_space (show_int i) = show_int i"
  by (rule trim_space_id) (auto simp: show_int_def list_all_iff is_space_def less_eq_char_def dest!: decimal_digits)

section \<open>Base32\<close>

text \<open>
  base32.StdEncoding without padding.  Bytes and five-bit values are natural numbers; five
  bytes give eight values, a shorter last group gives as many as its bits need.
\<close>

definition base32_alphabet :: string where "base32_alphabet = ''ABCDEFGHIJKLMNOPQRSTUVWXYZ234567''"

fun base32_values :: "nat list \<Rightarrow> nat list" where
  "base32_values (a # b # c # d # e # s) =
     [a div 8, a mod 8 * 4 + b div 64, b div 2 mod 32, b mod 2 * 16 + c div 16, c mod 16 * 2 + d div 128, d div 4 mod 32,
      d mod 4 * 8 + e div 32, e mod 32] @ base32_values s"
| "base32_values [a, b, c, d] =
     [a div 8, a mod 8 * 4 + b div 64, b div 2 mod 32, b mod 2 * 16 + c div 16, c mod 16 * 2 + d div 128, d div 4 mod 32, d mod 4 * 8]"
| "base32_values [a, b, c] = [a div 8, a mod 8 * 4 + b div 64, b div 2 mod 32, b mod 2 * 16 + c div 16, c mod 16 * 2]"
| "base32_values [a, b] = [a div 8, a mod 8 * 4 + b div 64, b div 2 mod 32, b mod 2 * 16]"
| "base32_values [a] = [a div 8, a mod 8 * 4]"
| "base32_values [] = []"

definition base32_encode :: "string \<Rightarrow> string" where
  "base32_encode s = map ((!) base32_alphabet) (base32_values (map of_char s))"

text \<open>
  DecodeString drops line breaks, fails on any other letter, and packs groups of eight; a last
  group of one, three or six letters adds nothing of its own.
\<close>

definition base32_value :: "char \<Rightarrow> nat option" where
  "base32_value c = (let n = length (takeWhile (\<lambda>x. x \<noteq> c) base32_alphabet) in if n < 32 then Some n else None)"

fun base32_bytes :: "nat list \<Rightarrow> nat list" where
  "base32_bytes (a # b # c # d # e # f # g # h # s) =
     [a * 8 + b div 4, b mod 4 * 64 + c * 2 + d div 16, d mod 16 * 16 + e div 2, e mod 2 * 128 + f * 4 + g div 8, g mod 8 * 32 + h]
     @ base32_bytes s"
| "base32_bytes [a, b, c, d, e, f, g] =
     [a * 8 + b div 4, b mod 4 * 64 + c * 2 + d div 16, d mod 16 * 16 + e div 2, e mod 2 * 128 + f * 4 + g div 8]"
| "base32_bytes [a, b, c, d, e] = [a * 8 + b div 4, b mod 4 * 64 + c * 2 + d div 16, d mod 16 * 16 + e div 2]"
| "base32_bytes [a, b, c, d] = [a * 8 + b div 4, b mod 4 * 64 + c * 2 + d div 16]"
| "base32_bytes [a, b] = [a * 8 + b div 4]"
| "base32_bytes _ = []"

definition base32_decode :: "string \<Rightarrow> string option" where
  "base32_decode s = (let vs = map base32_value (filter (\<lambda>c. c \<noteq> CHR 0x0A \<and> c \<noteq> CHR 0x0D) s) in
     if None \<in> set vs then None else Some (map char_of (base32_bytes (map the vs))))"

lemma quotient_small: "a < 256 \<Longrightarrow> a div 64 < (4 :: nat)" "a < 256 \<Longrightarrow> a div 16 < (16 :: nat)" "a < 256 \<Longrightarrow> a div 128 < (2 :: nat)"
  "a < 256 \<Longrightarrow> a div 32 < (8 :: nat)" "a < 256 \<Longrightarrow> a div 8 < (32 :: nat)"
  by (simp_all add: less_mult_imp_div_less)

lemma joined: "b div 64 * 64 + b div 2 mod 32 * 2 + b mod 2 = (b :: nat)" "b div 128 * 128 + b div 4 mod 32 * 4 + b mod 4 = b"
proof -
  have "b div 64 * 32 + b div 2 mod 32 = b div 2" "b div 128 * 32 + b div 4 mod 32 = b div 4"
    using div_mult_mod_eq [of "b div 2" 32] div_mult_mod_eq [of "b div 4" 32] by (simp_all flip: div_mult2_eq)
  then show "b div 64 * 64 + b div 2 mod 32 * 2 + b mod 2 = b" "b div 128 * 128 + b div 4 mod 32 * 4 + b mod 4 = b"
    using div_mult_mod_eq [of b 2] div_mult_mod_eq [of b 4] by linarith+
qed

text \<open>A byte is put together again from the pieces in neighbouring values.\<close>

lemma pieces:
  fixes a b :: nat
  shows "x < 4 \<Longrightarrow> a div 8 * 8 + (a mod 8 * 4 + x) div 4 = a"
    and "x < 16 \<Longrightarrow> b < 256 \<Longrightarrow> (a mod 8 * 4 + b div 64) mod 4 * 64 + b div 2 mod 32 * 2 + (b mod 2 * 16 + x) div 16 = b"
    and "x < 2 \<Longrightarrow> a < 256 \<Longrightarrow> (b mod 2 * 16 + a div 16) mod 16 * 16 + (a mod 16 * 2 + x) div 2 = a"
    and "x < 8 \<Longrightarrow> a < 256 \<Longrightarrow> (b mod 16 * 2 + a div 128) mod 2 * 128 + a div 4 mod 32 * 4 + (a mod 4 * 8 + x) div 8 = a"
    and "a < 256 \<Longrightarrow> (b mod 4 * 8 + a div 32) mod 8 * 32 + a mod 32 = a"
proof -
  have d: "(k * y + x) div k = y" "(y * k + x) mod k = x" if "x < k" for x y k :: nat using that by simp_all
  show "x < 4 \<Longrightarrow> a div 8 * 8 + (a mod 8 * 4 + x) div 4 = a"
    using div_mult_mod_eq [of a 8] by (simp add: d(1) [of x 4, simplified mult.commute])
  show "x < 16 \<Longrightarrow> b < 256 \<Longrightarrow> (a mod 8 * 4 + b div 64) mod 4 * 64 + b div 2 mod 32 * 2 + (b mod 2 * 16 + x) div 16 = b"
    using joined(1) [of b] quotient_small(1) [of b] by (simp add: d)
  show "x < 2 \<Longrightarrow> a < 256 \<Longrightarrow> (b mod 2 * 16 + a div 16) mod 16 * 16 + (a mod 16 * 2 + x) div 2 = a"
    using div_mult_mod_eq [of a 16] quotient_small(2) [of a] by (simp add: d)
  show "x < 8 \<Longrightarrow> a < 256 \<Longrightarrow> (b mod 16 * 2 + a div 128) mod 2 * 128 + a div 4 mod 32 * 4 + (a mod 4 * 8 + x) div 8 = a"
    using joined(2) [of a] quotient_small(3) [of a] by (simp add: d)
  show "a < 256 \<Longrightarrow> (b mod 4 * 8 + a div 32) mod 8 * 32 + a mod 32 = a"
    using div_mult_mod_eq [of a 32] quotient_small(4) [of a] by (simp add: d)
qed

lemma base32_values_round_trip: "list_all (\<lambda>b. b < 256) bs \<Longrightarrow> base32_bytes (base32_values bs) = bs"
  by (induction bs rule: base32_values.induct) (simp_all add: pieces pieces [of 0, simplified] joined quotient_small)

lemma base32_values_small: "list_all (\<lambda>b. b < 256) bs \<Longrightarrow> list_all (\<lambda>v. v < 32) (base32_values bs)"
proof -
  have s: "x mod 8 * 4 + y < (32 :: nat)" if "y < 4" for x y using that mod_less_divisor [of 8 x] by linarith
  have t: "x mod 2 * 16 + y < (32 :: nat)" if "y < 16" for x y using that mod_less_divisor [of 2 x] by linarith
  have u: "x mod 16 * 2 + y < (32 :: nat)" if "y < 2" for x y using that mod_less_divisor [of 16 x] by linarith
  have v: "x mod 4 * 8 + y < (32 :: nat)" if "y < 8" for x y using that mod_less_divisor [of 4 x] by linarith
  show "list_all (\<lambda>b. b < 256) bs \<Longrightarrow> list_all (\<lambda>v. v < 32) (base32_values bs)"
    by (induction bs rule: base32_values.induct)
      (simp_all add: s t u v s [of 0, simplified] t [of 0, simplified] u [of 0, simplified] v [of 0, simplified] quotient_small)
qed

lemma base32_letter: "v < 32 \<Longrightarrow> base32_value (base32_alphabet ! v) = Some v"
    "v < 32 \<Longrightarrow> base32_alphabet ! v \<noteq> CHR 0x0A \<and> base32_alphabet ! v \<noteq> CHR 0x0D \<and> \<not> is_space (base32_alphabet ! v)"
proof -
  have "list_all (\<lambda>v. base32_value (base32_alphabet ! v) = Some v \<and> base32_alphabet ! v \<noteq> CHR 0x0A \<and>
    base32_alphabet ! v \<noteq> CHR 0x0D \<and> \<not> is_space (base32_alphabet ! v)) [0..<32]" by code_simp
  then show "v < 32 \<Longrightarrow> base32_value (base32_alphabet ! v) = Some v"
    "v < 32 \<Longrightarrow> base32_alphabet ! v \<noteq> CHR 0x0A \<and> base32_alphabet ! v \<noteq> CHR 0x0D \<and> \<not> is_space (base32_alphabet ! v)"
    by (simp_all add: list_all_iff)
qed

lemma base32_round_trip: "base32_decode (base32_encode s) = Some s"
proof -
  let ?bs = "map of_char s :: nat list" and ?vs = "base32_values (map of_char s)"
  have b: "list_all (\<lambda>b. b < 256) ?bs" by (simp add: list_all_iff of_char_256)
  have v: "v < 32" if "v \<in> set ?vs" for v using base32_values_small [OF b] that by (simp add: list_all_iff)
  have f: "filter (\<lambda>c. c \<noteq> CHR 0x0A \<and> c \<noteq> CHR 0x0D) (base32_encode s) = base32_encode s"
    using base32_letter(2) v by (intro filter_True) (auto simp: base32_encode_def)
  have m: "map base32_value (base32_encode s) = map Some ?vs"
    using base32_letter(1) v by (simp add: base32_encode_def)
  show ?thesis unfolding base32_decode_def f m using base32_values_round_trip [OF b] by (simp add: o_def)
qed

section \<open>Query strings\<close>

text \<open>net/url: QueryEscape, PathEscape and Values.Encode, the latter for distinct keys.\<close>

definition url_letter :: "char \<Rightarrow> bool" where
  "url_letter c \<longleftrightarrow> (CHR ''a'' \<le> c \<and> c \<le> CHR ''z'') \<or> (CHR ''A'' \<le> c \<and> c \<le> CHR ''Z'') \<or> (CHR ''0'' \<le> c \<and> c \<le> CHR ''9'')
     \<or> c \<in> set ''-_.~''"

definition percent :: "char \<Rightarrow> string" where
  "percent c = CHR ''%'' # map (\<lambda>n. ''0123456789ABCDEF'' ! n) [of_char c div 16, of_char c mod 16]"

definition query_escape :: "string \<Rightarrow> string" where
  "query_escape s = concat (map (\<lambda>c. if url_letter c then [c] else if c = CHR '' '' then ''+'' else percent c) s)"

definition path_escape :: "string \<Rightarrow> string" where
  "path_escape s = concat (map (\<lambda>c. if url_letter c \<or> c \<in> set ''$&+=:@'' then [c] else percent c) s)"

fun join :: "string \<Rightarrow> string list \<Rightarrow> string" where
  "join sep [] = ''''"
| "join sep [s] = s"
| "join sep (s # t # ts) = s @ sep @ join sep (t # ts)"

definition values_encode :: "(string \<times> string) list \<Rightarrow> string" where
  "values_encode kvs = join ''&'' (map (\<lambda>(k, v). query_escape k @ ''='' @ query_escape v) (sort_key fst kvs))"

end
