(* ===== verification/SlaCalendar.thy ===== *)
theory SlaCalendar
  imports Encodings
begin

text \<open>
  Business-hours arithmetic (src/internal/sla/business_hours.go): the parsing of windows and
  holidays, the working intervals of a day, Add and Elapsed.  Instants and durations are
  nanoseconds; a time zone (time.Location, data of the system) is a record of three
  functions, so that the zone database is a parameter.  The specification is \<open>worked\<close>, the
  working time between two instants; the locale \<open>working_days\<close> proves Add and Elapsed
  against it for every calendar that is \<open>orderly\<close>, and the closed theorems at the end show
  where the code leaves it.
\<close>

section \<open>Dates and times\<close>

abbreviation minute_ns :: int where "minute_ns \<equiv> 60000000000"
abbreviation day_ns :: int where "day_ns \<equiv> 86400000000000"

text \<open>
  A zone: the number of the local day of an instant (day 0 is 1970-01-01), the time of that
  day on the clock, and time.Date, the instant of a day number and a clock time.
\<close>

record location =
  local_day :: "int \<Rightarrow> int"
  local_clock :: "int \<Rightarrow> int"
  date_at :: "int \<Rightarrow> int \<Rightarrow> int"

text \<open>The zones without a transition; UTC is the one with offset 0.\<close>

definition fixed_zone :: "int \<Rightarrow> location" where
  "fixed_zone off = \<lparr> local_day = (\<lambda>t. (t + off) div day_ns), local_clock = (\<lambda>t. (t + off) mod day_ns),
     date_at = (\<lambda>d k. d * day_ns + k - off) \<rparr>"

text \<open>AddDate(0, 0, 1): the same clock time on the next local day.\<close>

definition add_one_day :: "location \<Rightarrow> int \<Rightarrow> int" where
  "add_one_day z t = date_at z (local_day z t + 1) (local_clock z t)"

definition local_midnight :: "location \<Rightarrow> int \<Rightarrow> int" where
  "local_midnight z t = date_at z (local_day z t) 0"

definition next_local_day :: "location \<Rightarrow> int \<Rightarrow> int" where
  "next_local_day z t = add_one_day z (local_midnight z t)"

text \<open>weekdayIndex: time.Weekday starts on Sunday, the schedule on Monday.\<close>

definition weekday :: "int \<Rightarrow> int" where
  "weekday d = (d + 4) mod 7"

definition weekday_index :: "int \<Rightarrow> nat" where
  "weekday_index d = (if weekday d = 0 then 6 else nat (weekday d - 1))"

text \<open>The proleptic Gregorian calendar of package time: day number to date and back.\<close>

definition civil_of_day :: "int \<Rightarrow> int \<times> int \<times> int" where
  "civil_of_day n =
     (let z = n + 719468; era = z div 146097; doe = z mod 146097;
          yoe = (doe - doe div 1460 + doe div 36524 - doe div 146096) div 365;
          doy = doe - (365 * yoe + yoe div 4 - yoe div 100);
          mp = (5 * doy + 2) div 153;
          d = doy - (153 * mp + 2) div 5 + 1;
          m = (if mp < 10 then mp + 3 else mp - 9)
      in (yoe + era * 400 + (if m \<le> 2 then 1 else 0), m, d))"

definition day_of_civil :: "int \<Rightarrow> int \<Rightarrow> int \<Rightarrow> int" where
  "day_of_civil y m d =
     (let y' = (if m \<le> 2 then y - 1 else y); era = y' div 400; yoe = y' mod 400;
          doy = (153 * (m + (if m > 2 then -3 else 9)) + 2) div 5 + d - 1
      in era * 146097 + (yoe * 365 + yoe div 4 - yoe div 100 + doy) - 719468)"

definition leap_year :: "int \<Rightarrow> bool" where
  "leap_year y \<longleftrightarrow> y mod 4 = 0 \<and> (y mod 100 \<noteq> 0 \<or> y mod 400 = 0)"

definition days_in :: "int \<Rightarrow> int \<Rightarrow> int" where
  "days_in m y = (if m = 2 then (if leap_year y then 29 else 28) else if m \<in> {4, 6, 9, 11} then 30 else 31)"

definition is_digit :: "char \<Rightarrow> bool" where
  "is_digit c = (48 \<le> (of_char c :: int) \<and> (of_char c :: int) \<le> 57)"

definition digit_val :: "char \<Rightarrow> int" where
  "digit_val c = of_char c - 48"

text \<open>Format("2006-01-02").\<close>

definition format_day :: "int \<Rightarrow> string" where
  "format_day n = (case civil_of_day n of (y, m, d) \<Rightarrow>
     [digit_char (y div 1000), digit_char (y div 100), digit_char (y div 10), digit_char y, CHR ''-'',
      digit_char (m div 10), digit_char m, CHR ''-'', digit_char (d div 10), digit_char d])"

text \<open>getnum of package time: one or two digits, exactly two when \<open>fixed\<close>.\<close>

fun getnum :: "bool \<Rightarrow> string \<Rightarrow> (int \<times> string) option" where
  "getnum fixed [] = None"
| "getnum fixed [c] = (if is_digit c \<and> \<not> fixed then Some (digit_val c, []) else None)"
| "getnum fixed (c # d # s) = (if \<not> is_digit c then None
     else if \<not> is_digit d then (if fixed then None else Some (digit_val c, d # s))
     else Some (digit_val c * 10 + digit_val d, s))"

definition skip_char :: "char \<Rightarrow> string \<Rightarrow> string option" where
  "skip_char c s = (case s of [] \<Rightarrow> None | x # r \<Rightarrow> if x = c then Some r else None)"

text \<open>time.ParseInLocation("2006-01-02"), as the number of the day.\<close>

definition parse_date :: "string \<Rightarrow> int option" where
  "parse_date s = (if length s < 4 \<or> \<not> list_all is_digit (take 4 s) then None else
     (let y = foldl (\<lambda>n c. n * 10 + digit_val c) 0 (take 4 s) in
      Option.bind (skip_char (CHR ''-'') (drop 4 s)) (\<lambda>s.
      Option.bind (getnum True s) (\<lambda>(m, s).
      if m < 1 \<or> m > 12 then None else
      Option.bind (skip_char (CHR ''-'') s) (\<lambda>s.
      Option.bind (getnum True s) (\<lambda>(d, s).
      if s \<noteq> [] \<or> d < 1 \<or> d > days_in m y then None else Some (day_of_civil y m d)))))))"

section \<open>Calendars\<close>

datatype sla_error = ErrInvalidTimezone | ErrInvalidWindow | ErrCalendarSearch
  | ErrNotFound | ErrInvalidName | ErrInvalidTarget

record window =
  wn_start :: string
  wn_end :: string

record calendar =
  c_loc :: location
  c_weekly :: "window list list"
  c_holidays :: "string list"

definition parse_minute :: "string \<Rightarrow> int option" where
  "parse_minute v = (if v = ''24:00'' then Some (24 * 60) else
     Option.bind (getnum False v) (\<lambda>(h, s).
     if h \<ge> 24 then None else
     Option.bind (skip_char (CHR '':'') s) (\<lambda>s.
     Option.bind (getnum True s) (\<lambda>(m, s).
     if m \<ge> 60 \<or> s \<noteq> [] then None else Some (h * 60 + m)))))"

definition parse_window :: "window \<Rightarrow> sla_error + int \<times> int" where
  "parse_window w =
     (case parse_minute (wn_start w) of None \<Rightarrow> Inl ErrInvalidWindow | Some a \<Rightarrow>
     (case parse_minute (wn_end w) of None \<Rightarrow> Inl ErrInvalidWindow | Some b \<Rightarrow>
      if a = b then Inl ErrInvalidWindow else Inr (a, b)))"

definition window_bad :: "window \<Rightarrow> bool" where
  "window_bad w = (case parse_window w of Inl _ \<Rightarrow> True | Inr _ \<Rightarrow> False)"

text \<open>The holiday test: the text parses and formats back to itself in the zone.\<close>

definition holiday_bad :: "location \<Rightarrow> string \<Rightarrow> bool" where
  "holiday_bad z h = (case parse_date h of None \<Rightarrow> True
     | Some n \<Rightarrow> format_day (local_day z (date_at z n 0)) \<noteq> h)"

text \<open>time.LoadLocation: the empty name and UTC are UTC, every other name is looked up.\<close>

definition load_location :: "(string \<Rightarrow> location option) \<Rightarrow> string \<Rightarrow> location option" where
  "load_location zones name = (if name = '''' \<or> name = ''UTC'' then Some (fixed_zone 0) else zones name)"

definition new_calendar :: "(string \<Rightarrow> location option) \<Rightarrow> string \<Rightarrow> window list list \<Rightarrow> string list \<Rightarrow> sla_error + calendar" where
  "new_calendar zones timezone weekly holidays =
     (case load_location zones timezone of None \<Rightarrow> Inl ErrInvalidTimezone | Some z \<Rightarrow>
       if list_ex (list_ex window_bad) weekly then Inl ErrInvalidWindow
       else if list_ex (holiday_bad z) holidays then Inl ErrInvalidWindow
       else Inr \<lparr> c_loc = z, c_weekly = weekly, c_holidays = holidays \<rparr>)"

text \<open>The minutes of a window, zero when it does not parse (its error is ignored here).\<close>

definition window_minutes :: "window \<Rightarrow> int \<times> int" where
  "window_minutes w = (case parse_window w of Inr p \<Rightarrow> p | Inl _ \<Rightarrow> (0, 0))"

definition window_interval :: "location \<Rightarrow> int \<Rightarrow> window \<Rightarrow> int \<times> int" where
  "window_interval z d w = (case window_minutes w of (a, b) \<Rightarrow>
     (date_at z d (a * minute_ns), if b \<le> a then date_at z (d + 1) (b * minute_ns) else date_at z d (b * minute_ns)))"

definition day_intervals :: "calendar \<Rightarrow> int \<Rightarrow> (int \<times> int) list" where
  "day_intervals c d = (if format_day d \<in> set (c_holidays c) then []
     else map (window_interval (c_loc c) d)
       (sort_key (\<lambda>w. fst (window_minutes w)) (c_weekly c ! weekday_index d)))"

definition intervals :: "calendar \<Rightarrow> int \<Rightarrow> (int \<times> int) list" where
  "intervals c t = day_intervals c (local_day (c_loc c) t)"

section \<open>Add\<close>

text \<open>
  The loop over the intervals of a day: the deadline, or the cursor and the time that
  remains.
\<close>

fun add_intervals :: "(int \<times> int) list \<Rightarrow> int \<Rightarrow> int \<Rightarrow> int + int \<times> int" where
  "add_intervals [] cursor remaining = Inr (cursor, remaining)"
| "add_intervals ((s, e) # rest) cursor remaining =
     (if \<not> cursor < e then add_intervals rest cursor remaining
      else let cursor' = (if cursor < s then s else cursor); available = e - cursor'
           in if available \<ge> remaining then Inl (cursor' + remaining)
              else add_intervals rest e (remaining - available))"

definition max_days :: int where "max_days = 36600"

text \<open>The loop over the days, \<open>days\<close> counting up to the bound.\<close>

function add_loop :: "calendar \<Rightarrow> int \<Rightarrow> int \<Rightarrow> int \<Rightarrow> sla_error + int" where
  "add_loop c days cursor remaining =
     (if \<not> days < max_days then Inl ErrCalendarSearch
      else (case add_intervals (intervals c cursor) cursor remaining of
          Inl t \<Rightarrow> Inr t
        | Inr (cursor', remaining') \<Rightarrow> add_loop c (days + 1) (next_local_day (c_loc c) cursor') remaining'))"
  by pat_completeness auto
termination by (relation "measure (\<lambda>(c, days, _). nat (max_days - days))") auto

declare add_loop.simps [simp del]

definition calendar_add :: "calendar \<Rightarrow> int \<Rightarrow> int \<Rightarrow> sla_error + int" where
  "calendar_add c start duration = (if duration \<le> 0 then Inr start else add_loop c 0 start duration)"

section \<open>Elapsed\<close>

text \<open>The part of an interval between two instants, as the loop body computes it.\<close>

definition overlap :: "int \<Rightarrow> int \<Rightarrow> int \<times> int \<Rightarrow> int" where
  "overlap left right = (\<lambda>(s, e).
     (let f = (if left < s then s else left); t = (if right > e then e else right)
      in if t > f then t - f else 0))"

function elapsed_loop :: "calendar \<Rightarrow> int \<Rightarrow> int \<Rightarrow> int \<Rightarrow> int \<Rightarrow> int \<times> int" where
  "elapsed_loop c days left right acc =
     (if \<not> days < max_days then (left, acc)
      else let acc' = foldl (\<lambda>n i. n + overlap left right i) acc (intervals c left)
           in if \<not> left < right \<or> add_one_day (c_loc c) left > right then (left, acc')
              else elapsed_loop c (days + 1) (next_local_day (c_loc c) left) right acc')"
  by pat_completeness auto
termination by (relation "measure (\<lambda>(c, days, _). nat (max_days - days))") auto

declare elapsed_loop.simps [simp del]

definition calendar_elapsed :: "calendar \<Rightarrow> int \<Rightarrow> int \<Rightarrow> sla_error + int" where
  "calendar_elapsed c start end_at =
     (if \<not> end_at > start then Inr 0
      else (case elapsed_loop c 0 start end_at 0 of (left, worked_ns) \<Rightarrow>
        if \<not> end_at < left \<and> worked_ns = 0 \<and> end_at - start > 36600 * day_ns then Inl ErrCalendarSearch
        else Inr worked_ns))"

section \<open>The default calendar\<close>

definition full_day_weekly :: "window list list" where
  "full_day_weekly = replicate 7 [\<lparr> wn_start = ''00:00'', wn_end = ''24:00'' \<rparr>]"

section \<open>Working time\<close>

text \<open>Intervals in order, apart, and inside a day: the last one ends before the day does.\<close>

fun chain :: "int \<Rightarrow> int \<Rightarrow> (int \<times> int) list \<Rightarrow> bool" where
  "chain lo hi [] \<longleftrightarrow> lo < hi"
| "chain lo hi ((s, e) # rest) \<longleftrightarrow> lo \<le> s \<and> s < e \<and> chain e hi rest"

definition day_work :: "calendar \<Rightarrow> int \<Rightarrow> int \<Rightarrow> int \<Rightarrow> int" where
  "day_work c d a b = sum_list (map (overlap a b) (day_intervals c d))"

text \<open>The specification: the working time between two instants.\<close>

definition worked :: "calendar \<Rightarrow> int \<Rightarrow> int \<Rightarrow> int" where
  "worked c a b = (\<Sum>d \<in> {local_day (c_loc c) a..local_day (c_loc c) b}. day_work c d a b)"

lemma overlap_simp: "overlap a b (s, e) = max 0 (min b e - max a s)"
  by (auto simp: overlap_def Let_def)

lemma overlap_nonneg: "0 \<le> overlap a b i"
  by (cases i) (simp add: overlap_simp)

lemma overlap_mono: "b \<le> b' \<Longrightarrow> overlap a b i \<le> overlap a b' i"
  by (cases i) (auto simp: overlap_simp)

lemma chain_less: "chain lo hi is \<Longrightarrow> lo < hi"
  by (induction lo hi "is" rule: chain.induct) auto

lemma work_before: "chain lo hi is \<Longrightarrow> b \<le> lo \<Longrightarrow> sum_list (map (overlap a b) is) = 0"
  by (induction lo hi "is" arbitrary: b rule: chain.induct) (auto simp: overlap_simp)

lemma work_after: "chain lo hi is \<Longrightarrow> hi \<le> a \<Longrightarrow> sum_list (map (overlap a b) is) = 0"
  by (induction lo hi "is" arbitrary: b rule: chain.induct) (auto simp: overlap_simp dest: chain_less)

lemma work_shift: "chain lo hi is \<Longrightarrow> x \<le> lo \<Longrightarrow> y \<le> lo \<Longrightarrow> sum_list (map (overlap x b) is) = sum_list (map (overlap y b) is)"
  by (induction lo hi "is" rule: chain.induct) (auto simp: overlap_simp)

lemma work_whole: "chain lo hi is \<Longrightarrow> hi \<le> b \<Longrightarrow> hi \<le> b' \<Longrightarrow> sum_list (map (overlap x b) is) = sum_list (map (overlap x b') is)"
  by (induction lo hi "is" rule: chain.induct) (auto simp: overlap_simp dest: chain_less)

lemma work_mono: "b \<le> b' \<Longrightarrow> sum_list (map (overlap x b) is) \<le> sum_list (map (overlap x b') is)"
  by (intro sum_list_mono overlap_mono)

lemma foldl_work: "foldl (\<lambda>n i. n + overlap l r i) acc is = acc + sum_list (map (overlap l r) is)"
  by (induction "is" arbitrary: acc) auto

text \<open>One day of Add: it answers inside the day, or has used up the working time of the day.\<close>

lemma add_intervals_Inl:
  "chain lo hi is \<Longrightarrow> 0 < rem \<Longrightarrow> add_intervals is x rem = Inl t \<Longrightarrow>
     x < t \<and> t < hi \<and> sum_list (map (overlap x t) is) = rem \<and>
     (\<forall>t'. t' < t \<longrightarrow> sum_list (map (overlap x t') is) < rem)"
proof (induction "is" arbitrary: lo x rem)
  case (Cons i rest)
  obtain s e where i: "i = (s, e)" by (cases i)
  from Cons.prems(1) have c: "lo \<le> s" "s < e" "chain e hi rest" by (simp_all add: i)
  have eh: "e < hi" using c(3) by (rule chain_less)
  show ?case
  proof (cases "x < e")
    case False
    then have z: "overlap x b (s, e) = 0" for b by (auto simp: overlap_simp)
    from False Cons.prems(3) have "add_intervals rest x rem = Inl t" by (simp add: i)
    from Cons.IH [OF c(3) Cons.prems(2) this] show ?thesis by (simp add: i z)
  next
    case True
    let ?x = "max x s"
    have run: "add_intervals (i # rest) x rem =
        (if e - ?x \<ge> rem then Inl (?x + rem) else add_intervals rest e (rem - (e - ?x)))"
      using True by (auto simp: i Let_def max_def)
    show ?thesis
    proof (cases "e - ?x \<ge> rem")
      case True
      then have t: "t = ?x + rem" using run Cons.prems(3) by simp
      have "sum_list (map (overlap x b) rest) = 0" if "b \<le> t" for b
        using work_before [OF c(3)] True t that by auto
      moreover have "overlap x t (s, e) = rem" using True t Cons.prems(2) \<open>x < e\<close> by (auto simp: overlap_simp)
      moreover have "overlap x b (s, e) < rem" if "b < t" for b
        using that t Cons.prems(2) by (auto simp: overlap_simp)
      ultimately show ?thesis using t True Cons.prems(2) eh by (auto simp: i)
    next
      case False
      then have "add_intervals rest e (rem - (e - ?x)) = Inl t" using run Cons.prems(3) by simp
      from Cons.IH [OF c(3) _ this] False
      have ih: "e < t" "t < hi" "sum_list (map (overlap e t) rest) = rem - (e - ?x)"
        "\<And>t'. t' < t \<Longrightarrow> sum_list (map (overlap e t') rest) < rem - (e - ?x)" by auto
      have sh: "sum_list (map (overlap x b) rest) = sum_list (map (overlap e b) rest)" for b
        using work_shift [OF c(3)] \<open>x < e\<close> by simp
      have "overlap x t (s, e) = e - ?x" using ih(1) True c(2) by (auto simp: overlap_simp)
      moreover have "overlap x b (s, e) \<le> e - ?x" for b using True c(2) by (auto simp: overlap_simp)
      ultimately show ?thesis using ih True by (auto simp: i sh intro: add_le_less_mono) (smt (verit) ih(4))
    qed
  qed
qed simp

lemma add_intervals_Inr:
  "chain lo hi is \<Longrightarrow> 0 < rem \<Longrightarrow> x < hi \<Longrightarrow> add_intervals is x rem = Inr (x', rem') \<Longrightarrow>
     x \<le> x' \<and> x' < hi \<and> 0 < rem' \<and> sum_list (map (overlap x hi) is) = rem - rem'"
proof (induction "is" arbitrary: lo x rem)
  case (Cons i rest)
  obtain s e where i: "i = (s, e)" by (cases i)
  from Cons.prems(1) have c: "lo \<le> s" "s < e" "chain e hi rest" by (simp_all add: i)
  have eh: "e < hi" using c(3) by (rule chain_less)
  show ?case
  proof (cases "x < e")
    case False
    then have "add_intervals rest x rem = Inr (x', rem')" using Cons.prems(4) by (simp add: i)
    from Cons.IH [OF c(3) Cons.prems(2,3) this] False show ?thesis by (auto simp: i overlap_simp)
  next
    case True
    let ?x = "max x s"
    have "\<not> e - ?x \<ge> rem" "add_intervals rest e (rem - (e - ?x)) = Inr (x', rem')"
      using True Cons.prems(4) by (auto simp: i Let_def max_def split: if_splits)
    from Cons.IH [OF c(3) _ eh this(2)] this(1)
    have ih: "e \<le> x'" "x' < hi" "0 < rem'" "sum_list (map (overlap e hi) rest) = rem - (e - ?x) - rem'" by auto
    moreover have "sum_list (map (overlap x hi) rest) = sum_list (map (overlap e hi) rest)"
      using work_shift [OF c(3)] True by simp
    moreover have "overlap x hi (s, e) = e - ?x" using eh True c(2) by (auto simp: overlap_simp)
    ultimately show ?thesis using True by (simp add: i)
  qed
qed simp

section \<open>Add and Elapsed against the specification\<close>

text \<open>
  What the arithmetic relies on: the zone's days are intervals that start at the local
  midnight, tomorrow's same clock time lies in tomorrow, and the working intervals of a day
  are in order, apart, and end before the day does.
\<close>

definition orderly :: "calendar \<Rightarrow> bool" where
  "orderly c \<longleftrightarrow>
     (\<forall>t d. local_day (c_loc c) t = d \<longleftrightarrow> date_at (c_loc c) d 0 \<le> t \<and> t < date_at (c_loc c) (d + 1) 0) \<and>
     (\<forall>d. local_clock (c_loc c) (date_at (c_loc c) d 0) = 0) \<and>
     (\<forall>t. local_day (c_loc c) (add_one_day (c_loc c) t) = local_day (c_loc c) t + 1) \<and>
     (\<forall>d. chain (date_at (c_loc c) d 0) (date_at (c_loc c) (d + 1) 0) (day_intervals c d))"

locale working_days =
  fixes c :: calendar
  assumes day_span: "local_day (c_loc c) t = d \<longleftrightarrow> date_at (c_loc c) d 0 \<le> t \<and> t < date_at (c_loc c) (d + 1) 0"
    and midnight_clock: "local_clock (c_loc c) (date_at (c_loc c) d 0) = 0"
    and tomorrow: "local_day (c_loc c) (add_one_day (c_loc c) t) = local_day (c_loc c) t + 1"
    and in_order: "chain (date_at (c_loc c) d 0) (date_at (c_loc c) (d + 1) 0) (day_intervals c d)"
begin

abbreviation "mid d \<equiv> date_at (c_loc c) d 0"
abbreviation "dayof \<equiv> local_day (c_loc c)"

lemma mid_less [simp]: "mid d < mid (d + 1)"
  using in_order by (rule chain_less)

lemma mid_mono: assumes "d \<le> e" shows "mid d \<le> mid e"
proof -
  have "mid d \<le> mid (d + int n)" for n
  proof (induction n)
    case (Suc n)
    then show ?case using mid_less [of "d + int n"] by (simp add: add.assoc) (smt (verit) add.commute)
  qed simp
  from this [of "nat (e - d)"] assms show ?thesis by simp
qed

lemma mid_dayof: "mid (dayof t) \<le> t" "t < mid (dayof t + 1)"
  using day_span [of t "dayof t"] by auto

lemma dayof_mid [simp]: "dayof (mid d) = d"
  using day_span [of "mid d" d] by simp

lemma dayof_mono: "s \<le> t \<Longrightarrow> dayof s \<le> dayof t"
  using mid_dayof [of s] mid_dayof [of t] mid_mono [of "dayof t + 1" "dayof s"] by fastforce

lemma dayof_eq: "mid d \<le> t \<Longrightarrow> t < mid (d + 1) \<Longrightarrow> dayof t = d"
  using day_span by blast

lemma next_day: "dayof t = d \<Longrightarrow> next_local_day (c_loc c) t = mid (d + 1)"
  by (simp add: next_local_day_def local_midnight_def add_one_day_def midnight_clock)

lemma day_work_before: "b \<le> mid d \<Longrightarrow> day_work c d a b = 0"
  unfolding day_work_def using in_order by (rule work_before)

lemma day_work_after: "mid (d + 1) \<le> a \<Longrightarrow> day_work c d a b = 0"
  unfolding day_work_def using in_order by (rule work_after)

lemma worked_range:
  assumes "D \<le> dayof a" "dayof b \<le> E"
  shows "worked c a b = (\<Sum>d \<in> {D..E}. day_work c d a b)"
  unfolding worked_def
proof (rule sum.mono_neutral_left)
  show "\<forall>d \<in> {D..E} - {dayof a..dayof b}. day_work c d a b = 0"
  proof
    fix d assume "d \<in> {D..E} - {dayof a..dayof b}"
    then consider "d + 1 \<le> dayof a" | "dayof b + 1 \<le> d" by fastforce
    then show "day_work c d a b = 0"
    proof cases
      case 1
      then show ?thesis using mid_mono [of "d + 1" "dayof a"] mid_dayof [of a] by (intro day_work_after) simp
    next
      case 2
      then show ?thesis using mid_mono [of "dayof b + 1" d] mid_dayof [of b] by (intro day_work_before) simp
    qed
  qed
qed (use assms in auto)

lemma worked_same_day: "dayof b \<le> dayof a \<Longrightarrow> worked c a b = day_work c (dayof a) a b"
  using worked_range [of "dayof a" a b "dayof a"] by simp

lemma worked_split:
  "worked c a b = day_work c (dayof a) a b + worked c (mid (dayof a + 1)) b"
proof -
  let ?E = "max (dayof a) (dayof b)"
  have shift: "day_work c d a b = day_work c d (mid (dayof a + 1)) b" if "dayof a + 1 \<le> d" for d
    unfolding day_work_def using in_order
    by (rule work_shift) (use that mid_mono [OF that] mid_dayof [of a] in auto)
  have first_day: "{dayof a..?E} = insert (dayof a) {dayof a + 1..?E}" by auto
  have "worked c a b = (\<Sum>d \<in> {dayof a..?E}. day_work c d a b)" by (rule worked_range) auto
  also have "\<dots> = day_work c (dayof a) a b + (\<Sum>d \<in> {dayof a + 1..?E}. day_work c d a b)"
    by (simp add: first_day)
  also have "(\<Sum>d \<in> {dayof a + 1..?E}. day_work c d a b) = (\<Sum>d \<in> {dayof a + 1..?E}. day_work c d (mid (dayof a + 1)) b)"
    by (rule sum.cong) (auto simp: shift)
  also have "\<dots> = worked c (mid (dayof a + 1)) b" by (rule worked_range [symmetric]) auto
  finally show ?thesis .
qed

lemma worked_nonneg: "0 \<le> worked c a b"
  unfolding worked_def day_work_def by (intro sum_nonneg sum_list_nonneg) (auto simp: overlap_nonneg)

lemma day_work_whole: "mid (d + 1) \<le> b \<Longrightarrow> day_work c d a b = day_work c d a (mid (d + 1))"
  unfolding day_work_def by (rule work_whole [OF in_order]) simp_all

lemma day_work_le: "day_work c d a b \<le> day_work c d a (mid (d + 1))"
proof (cases "mid (d + 1) \<le> b")
  case True then show ?thesis using day_work_whole [OF True] by simp
next
  case False then show ?thesis unfolding day_work_def by (intro work_mono) simp
qed

text \<open>The search of Add from any cursor.\<close>

lemma add_loop_correct:
  "0 < rem \<Longrightarrow> n \<le> max_days \<Longrightarrow>
   (case add_loop c n x rem of
      Inr t \<Rightarrow> x < t \<and> worked c x t = rem \<and> (\<forall>t' < t. worked c x t' < rem)
    | Inl e \<Rightarrow> e = ErrCalendarSearch \<and> worked c x (mid (dayof x + (max_days - n))) < rem)"
proof (induction "nat (max_days - n)" arbitrary: n x rem)
  case 0
  then have "n = max_days" by simp
  then show ?case using 0 mid_dayof [of x]
    by (simp add: add_loop.simps worked_same_day day_work_before)
next
  case (Suc k)
  let ?D = "dayof x" and ?m = "mid (dayof x + 1)"
  have n: "n < max_days" "k = nat (max_days - (n + 1))" using Suc.hyps(2) by auto
  show ?case
  proof (cases "add_intervals (day_intervals c ?D) x rem")
    case (Inl t)
    from add_intervals_Inl [OF in_order Suc.prems(1) this]
    have t: "x < t" "t < ?m" "day_work c ?D x t = rem" "\<And>t'. t' < t \<Longrightarrow> day_work c ?D x t' < rem"
      unfolding day_work_def by auto
    have same: "dayof t' \<le> ?D" if "t' \<le> t" for t'
      using dayof_mono [OF that] dayof_eq [of ?D t] t mid_dayof [of x] by fastforce
    show ?thesis using n t Inl by (simp add: add_loop.simps intervals_def worked_same_day same)
  next
    case (Inr p)
    obtain x' rem' where p: "p = (x', rem')" by (cases p)
    from add_intervals_Inr [OF in_order Suc.prems(1) mid_dayof(2) Inr [unfolded p]]
    have c: "x \<le> x'" "x' < ?m" "0 < rem'" "day_work c ?D x ?m = rem - rem'"
      unfolding day_work_def by auto
    have x': "next_local_day (c_loc c) x' = ?m"
      using dayof_eq [of ?D x'] c mid_dayof [of x] by (intro next_day) simp
    from n have rest: "(case add_loop c (n + 1) ?m rem' of
      Inr t \<Rightarrow> ?m < t \<and> worked c ?m t = rem' \<and> (\<forall>t' < t. worked c ?m t' < rem')
    | Inl e \<Rightarrow> e = ErrCalendarSearch \<and> worked c ?m (mid (dayof ?m + (max_days - (n + 1)))) < rem')"
      using Suc.hyps(1) [OF n(2) c(3)] by simp
    have step: "add_loop c n x rem = add_loop c (n + 1) ?m rem'"
      using n Inr p x' by (subst add_loop.simps) (simp add: intervals_def)
    have whole: "worked c x t = rem - rem' + worked c ?m t" if "?m \<le> t" for t
      using day_work_whole [OF that, of x] worked_split [of x t] c(4) by simp
    have part: "worked c x t \<le> rem - rem' + worked c ?m t" for t
      using worked_split [of x t] c(4) day_work_le [of ?D x t] by simp
    show ?thesis
    proof (cases "add_loop c (n + 1) ?m rem'")
      case (Inl e)
      then show ?thesis using rest part [of "mid (dayof x + (max_days - n))"] by (simp add: step algebra_simps)
    next
      case (Inr t)
      then have t: "?m < t" "worked c ?m t = rem'" "\<And>t'. t' < t \<Longrightarrow> worked c ?m t' < rem'" using rest by auto
      have "worked c x t' < rem" if "t' < t" for t' using part [of t'] t(3) [OF that] by simp
      then show ?thesis using Inr t(1) whole [of t] t(2) mid_dayof(2) [of x] by (simp add: step)
    qed
  qed
qed

lemma add_correct:
  "0 < dur \<Longrightarrow>
   (case calendar_add c x dur of
      Inr t \<Rightarrow> x < t \<and> worked c x t = dur \<and> (\<forall>t' < t. worked c x t' < dur)
    | Inl e \<Rightarrow> e = ErrCalendarSearch \<and> worked c x (mid (dayof x + max_days)) < dur)"
  using add_loop_correct [of dur 0 x] by (simp add: calendar_add_def max_days_def split: sum.splits)

text \<open>The sum of Elapsed from a midnight, and from any start.\<close>

lemma elapsed_loop_midnight:
  assumes "mid d \<le> r" "n + (dayof r - d) < max_days"
  shows "elapsed_loop c n (mid d) r acc = (mid (dayof r), acc + worked c (mid d) r)"
  using assms
proof (induction "nat (dayof r - d)" arbitrary: d n acc)
  case 0
  have d: "dayof r = d" using 0 dayof_mono [OF 0(2)] by simp
  have "r < add_one_day (c_loc c) (mid d)" using mid_dayof(2) [of r] d by (simp add: add_one_day_def midnight_clock)
  then show ?case using 0 d
    by (subst elapsed_loop.simps) (simp add: intervals_def foldl_work worked_same_day day_work_def)
next
  case (Suc k)
  have d: "d + 1 \<le> dayof r" using Suc.hyps(2) by simp
  then have r: "mid (d + 1) \<le> r" using mid_mono [OF d] mid_dayof(1) [of r] by simp
  have step: "elapsed_loop c n (mid d) r acc = elapsed_loop c (n + 1) (mid (d + 1)) r (acc + day_work c d (mid d) r)"
    using Suc.prems r less_le_trans [OF mid_less r] d
    by (subst elapsed_loop.simps)
       (simp add: intervals_def foldl_work day_work_def add_one_day_def midnight_clock next_day Let_def)
  show ?case unfolding step
    by (subst Suc.hyps(1)) (use Suc.hyps(2) Suc.prems r worked_split [of "mid d" r] in auto)
qed

lemma elapsed_exact:
  assumes "x < r" "dayof r - dayof x < max_days" "r - x \<le> 36600 * day_ns"
  shows "calendar_elapsed c x r = Inr (if r < add_one_day (c_loc c) x then day_work c (dayof x) x r else worked c x r)"
proof (cases "r < add_one_day (c_loc c) x")
  case True
  then have "elapsed_loop c 0 x r 0 = (x, day_work c (dayof x) x r)"
    by (subst elapsed_loop.simps) (simp add: intervals_def foldl_work day_work_def max_days_def)
  then show ?thesis using assms True by (simp add: calendar_elapsed_def)
next
  case False
  let ?m = "mid (dayof x + 1)"
  have m: "?m \<le> r" using False tomorrow [of x] mid_dayof(1) [of "add_one_day (c_loc c) x"] by simp
  have dr: "dayof x + 1 \<le> dayof r" using dayof_mono [OF m] by simp
  have "elapsed_loop c 0 x r 0 = elapsed_loop c 1 ?m r (day_work c (dayof x) x r)"
    using False assms(1)
    by (subst elapsed_loop.simps) (simp add: intervals_def foldl_work day_work_def max_days_def next_day)
  also have "\<dots> = (mid (dayof r), worked c x r)"
    by (subst elapsed_loop_midnight) (use m dr assms(2) worked_split [of x r] in auto)
  finally show ?thesis using assms False by (simp add: calendar_elapsed_def)
qed

end

section \<open>Calendars of daytime windows are orderly\<close>

text \<open>Windows of a day that do not touch each other and end before midnight.\<close>

definition day_schedule :: "window list list \<Rightarrow> bool" where
  "day_schedule W \<longleftrightarrow> length W = 7 \<and>
     list_all (\<lambda>ws. chain 0 1440 (map window_minutes (sort_key (\<lambda>w. fst (window_minutes w)) ws))) W"

lemma fixed_zone_simps [simp]:
  "local_day (fixed_zone off) t = (t + off) div day_ns"
  "local_clock (fixed_zone off) t = (t + off) mod day_ns"
  "date_at (fixed_zone off) d k = d * day_ns + k - off"
  by (simp_all add: fixed_zone_def)

lemma chain_image:
  "chain lo hi (map window_minutes ws) \<Longrightarrow>
   chain (date_at (fixed_zone off) d (lo * minute_ns)) (date_at (fixed_zone off) d (hi * minute_ns))
     (map (window_interval (fixed_zone off) d) ws)"
proof (induction ws arbitrary: lo)
  case (Cons w ws)
  obtain a b where ab: "window_minutes w = (a, b)" by (cases "window_minutes w")
  from Cons.prems have "chain b hi (map window_minutes ws)" "lo \<le> a" "a < b" by (simp_all add: ab)
  with Cons.IH [of b] show ?case by (simp add: ab window_interval_def)
qed simp

lemma weekday_index_less: "weekday_index d < 7"
proof -
  have "(d + 4) mod 7 < 7" by simp
  then show ?thesis unfolding weekday_index_def weekday_def by auto
qed

lemma orderly_fixed_zone:
  assumes "c_loc c = fixed_zone off" "day_schedule (c_weekly c)"
  shows "orderly c"
proof -
  have span: "((t + off) div day_ns = d) = (d * day_ns - off \<le> t \<and> t < (d + 1) * day_ns - off)" for t d
    using div_mult_mod_eq [of "t + off" day_ns] pos_mod_bound [of day_ns "t + off"] pos_mod_sign [of day_ns "t + off"]
    by (auto simp: div_int_pos_iff intro!: int_div_pos_eq [where r = "t + off - d * day_ns"])
  have in_order: "chain (date_at (fixed_zone off) d 0) (date_at (fixed_zone off) (d + 1) 0) (day_intervals c d)" for d
  proof (cases "format_day d \<in> set (c_holidays c)")
    case False
    let ?ws = "c_weekly c ! weekday_index d"
    have "?ws \<in> set (c_weekly c)" using assms(2) weekday_index_less by (simp add: day_schedule_def)
    then have "chain 0 1440 (map window_minutes (sort_key (\<lambda>w. fst (window_minutes w)) ?ws))"
      using assms(2) by (auto simp: day_schedule_def list_all_iff)
    from chain_image [OF this, of off d] False show ?thesis
      by (simp add: day_intervals_def assms(1) algebra_simps)
  qed (simp add: day_intervals_def)
  have wall: "((t + off) div day_ns + 1) * day_ns + (t + off) mod day_ns = t + off + day_ns" for t
    using div_mult_mod_eq [of "t + off" day_ns] by (simp add: algebra_simps)
  have day: "local_day (c_loc c) t = d \<longleftrightarrow> date_at (c_loc c) d 0 \<le> t \<and> t < date_at (c_loc c) (d + 1) 0" for t d
    using span [of t d] by (simp add: assms(1))
  show ?thesis unfolding orderly_def
  proof (intro conjI allI)
    show "local_day (c_loc c) t = d \<longleftrightarrow> date_at (c_loc c) d 0 \<le> t \<and> t < date_at (c_loc c) (d + 1) 0" for t d
      by (rule day)
    show "local_day (c_loc c) (add_one_day (c_loc c) t) = local_day (c_loc c) t + 1" for t
      unfolding add_one_day_def assms(1) fixed_zone_simps wall by simp
    show "chain (date_at (c_loc c) d 0) (date_at (c_loc c) (d + 1) 0) (day_intervals c d)" for d
      unfolding assms(1) by (rule in_order)
  qed (simp add: assms(1))
qed

lemma new_calendar_orderly:
  "new_calendar zones tz W H = Inr c \<Longrightarrow> load_location zones tz = Some (fixed_zone off) \<Longrightarrow> day_schedule W \<Longrightarrow> orderly c"
  by (rule orderly_fixed_zone [of c off]) (auto simp: new_calendar_def split: if_splits)

text \<open>
  The locale on every calendar of the model: the calendar itself where it is orderly, the
  calendar without working time otherwise.
\<close>

definition orderly_or_empty :: "calendar \<Rightarrow> calendar" where
  "orderly_or_empty c = (if orderly c then c
     else \<lparr> c_loc = fixed_zone 0, c_weekly = replicate 7 [], c_holidays = [] \<rparr>)"

lemma orderly_orderly_or_empty: "orderly (orderly_or_empty c)"
proof (cases "orderly c")
  case False
  have "orderly \<lparr> c_loc = fixed_zone 0, c_weekly = replicate 7 [], c_holidays = [] \<rparr>"
    by (rule orderly_fixed_zone [where off = 0]) (simp_all add: day_schedule_def list_all_iff)
  then show ?thesis using False by (simp add: orderly_or_empty_def)
qed (simp add: orderly_or_empty_def)

interpretation oc: working_days "orderly_or_empty c" for c
  using orderly_orderly_or_empty [of c] by unfold_locales (auto simp: orderly_def)

lemma orderly_id: "orderly c \<Longrightarrow> orderly_or_empty c = c"
  by (simp add: orderly_or_empty_def)

section \<open>The properties\<close>

definition demo_office :: calendar where
  "demo_office = \<lparr> c_loc = fixed_zone 0,
     c_weekly = replicate 5 [\<lparr> wn_start = ''09:00'', wn_end = ''17:00'' \<rparr>] @ [[], []], c_holidays = [''2026-08-03''] \<rparr>"

abbreviation hours :: "int \<Rightarrow> int" where "hours n \<equiv> n * 3600000000000"

lemma demo_office_orderly: "orderly demo_office"
  by (rule orderly_fixed_zone [where off = 0]) (simp add: demo_office_def, code_simp)

text \<open>
  C31: Add returns the working deadline.  On an orderly calendar the answer lies after the
  start, exactly the asked working time lies between start and answer, and no earlier
  instant has that much; the search fails only when the 36600 days after the start hold less
  working time than was asked for.
\<close>

theorem calendar_add_exact:
  assumes "orderly c" and "0 < duration"
  shows "case calendar_add c start duration of
      Inr t \<Rightarrow> start < t \<and> worked c start t = duration \<and> \<not> (\<exists>t' < t. duration \<le> worked c start t')
    | Inl e \<Rightarrow> e = ErrCalendarSearch \<and>
        worked c start (date_at (c_loc c) (local_day (c_loc c) start + max_days) 0) < duration"
  using oc.add_correct [of duration c start] assms by (fastforce simp: orderly_id split: sum.splits)

text \<open>Friday 2026-07-31 16:00 plus two hours, over a weekend and a holiday.\<close>

theorem calendar_add_exact_witness:
  "calendar_add demo_office (20665 * day_ns + hours 16) (hours 2) = Inr (20669 * day_ns + hours 10) \<and>
   worked demo_office (20665 * day_ns + hours 16) (20669 * day_ns + hours 10) = hours 2"
proof -
  have run: "calendar_add demo_office (20665 * day_ns + hours 16) (hours 2) = Inr (20669 * day_ns + hours 10)"
    by code_simp
  show ?thesis using calendar_add_exact [OF demo_office_orderly, of "hours 2" "20665 * day_ns + hours 16"] run
    by simp
qed

text \<open>
  What Elapsed computes.  On an orderly calendar Elapsed is the working time between
  the two instants, and so returns the duration that Add was given, unless the second
  instant falls on the next local day at an earlier clock time: then the working time of
  that day is left out.
\<close>

theorem calendar_elapsed_exact:
  assumes "orderly c" and "start < end_at"
    and "local_day (c_loc c) end_at - local_day (c_loc c) start < max_days" and "end_at - start \<le> 36600 * day_ns"
  shows "calendar_elapsed c start end_at = Inr (worked c start
      (if local_day (c_loc c) end_at = local_day (c_loc c) start + 1 \<and> end_at < add_one_day (c_loc c) start
       then date_at (c_loc c) (local_day (c_loc c) end_at) 0 else end_at))"
proof -
  let ?day = "local_day (c_loc c)" and ?next = "add_one_day (c_loc c) start"
  note o = orderly_id [OF assms(1)]
  have e: "calendar_elapsed c start end_at =
      Inr (if end_at < ?next then day_work c (?day start) start end_at else worked c start end_at)"
    using oc.elapsed_exact [of start end_at c] assms(2-4) unfolding o by blast
  have d: "?day start \<le> ?day end_at" using oc.dayof_mono [of start end_at c] assms(2) unfolding o by simp
  have n: "?day ?next = ?day start + 1" using oc.tomorrow [of c start] unfolding o .
  consider "end_at < ?next" "?day end_at = ?day start" | "end_at < ?next" "?day end_at = ?day start + 1" | "\<not> end_at < ?next"
    using d n oc.dayof_mono [of end_at ?next c] unfolding o by fastforce
  then show ?thesis
  proof cases
    case 1
    then show ?thesis using e oc.worked_same_day [of c end_at start] unfolding o by simp
  next
    case 2
    let ?m = "date_at (c_loc c) (?day start + 1) 0"
    have "?m \<le> end_at" using oc.mid_dayof(1) [of c end_at] 2 unfolding o by simp
    from oc.day_work_whole [of c "?day start" end_at start] this
    have "day_work c (?day start) start end_at = day_work c (?day start) start ?m" unfolding o by simp
    moreover have "worked c ?m ?m = 0"
      using oc.worked_same_day [of c ?m ?m] oc.day_work_before [of ?m c "?day ?m" ?m] oc.dayof_mid [of c "?day start + 1"]
      unfolding o by simp
    ultimately show ?thesis using e 2 oc.worked_split [of c start ?m] unfolding o by simp
  next
    case 3
    then show ?thesis using e by simp
  qed
qed

theorem calendar_elapsed_exact_witness:
  "calendar_elapsed demo_office (20665 * day_ns + hours 16) (20669 * day_ns + hours 10)
     = Inr (worked demo_office (20665 * day_ns + hours 16) (20669 * day_ns + hours 10))"
  using calendar_elapsed_exact [OF demo_office_orderly, of "20665 * day_ns + hours 16" "20669 * day_ns + hours 10"]
  by (simp add: demo_office_def max_days_def)

text \<open>
  Elapsed loses the next morning.  With office hours from 9 to 17 every weekday, from
  Monday 16:00 to Tuesday 15:00 there are seven working hours; Elapsed counts the one of
  Monday and stops.
\<close>

theorem elapsed_drops_next_morning:
  "calendar_elapsed demo_office (20671 * day_ns + hours 16) (20672 * day_ns + hours 15) = Inr (hours 1) \<and>
   worked demo_office (20671 * day_ns + hours 16) (20672 * day_ns + hours 15) = hours 7"
proof
  show "calendar_elapsed demo_office (20671 * day_ns + hours 16) (20672 * day_ns + hours 15) = Inr (hours 1)"
    by code_simp
  have "worked demo_office (20671 * day_ns + hours 16) (20672 * day_ns + hours 15)
      = (\<Sum>d \<in> {20671, 20672}. day_work demo_office d (20671 * day_ns + hours 16) (20672 * day_ns + hours 15))"
    unfolding worked_def by (rule sum.cong) (auto simp: demo_office_def)
  also have "\<dots> = hours 7" by simp code_simp
  finally show "worked demo_office (20671 * day_ns + hours 16) (20672 * day_ns + hours 15) = hours 7" .
qed

text \<open>
  Add skips every other day of a calendar whose windows end at 24:00, and the night
  after every overnight window.  The calendar used for policies without business hours is
  open all the time, yet 48 hours from 10:00 of a day end four days later at 10:00, and two
  nights from 22:00 to 06:00 end after three.
\<close>

theorem full_day_add_skips_days:
  "case new_calendar (\<lambda>_. None) ''UTC'' full_day_weekly [] of
     Inl _ \<Rightarrow> False
   | Inr c \<Rightarrow> calendar_add c (20671 * day_ns + hours 10) (hours 48) = Inr (20675 * day_ns + hours 10)
       \<and> calendar_add (c\<lparr>c_weekly := replicate 7 [\<lparr> wn_start = ''22:00'', wn_end = ''06:00'' \<rparr>]\<rparr>)
           (20671 * day_ns + hours 22) (hours 16) = Inr (20674 * day_ns + hours 6)"
  by code_simp

end
