(* ===== verification/SlaRuntime.thy ===== *)
theory SlaRuntime
  imports SlaCalendar EventConsumer
begin

text \<open>
  The live SLA timers (src/internal/sla/runtime.go over the tables of
  src/embedded/migrations/0010_automation_sla.sql and 0015_sla_runtime_guards.sql): the
  clocks started for conversations and tickets, the reaction to messages and state changes,
  pausing, the scheduled evaluation with its events, and the summary shown beside a
  conversation.  The transactions read tables the SLA service does not write; they are
  fields of the state.
\<close>

section \<open>State\<close>

datatype timer_kind = FirstResponse | NextResponse | Resolution
datatype timer_state = TActive | TPaused | TMet | TBreached | TCancelled

record timer =
  ti_id :: string
  ti_workspace :: string
  ti_policy :: string
  ti_conversation :: "string option"
  ti_ticket :: "string option"
  ti_kind :: timer_kind
  ti_state :: timer_state
  ti_target :: int
  ti_elapsed :: int
  ti_deadline :: "int option"
  ti_paused_at :: "int option"
  ti_reason :: "string option"
  ti_started :: int
  ti_satisfied :: "int option"
  ti_breached :: "int option"
  ti_warned :: "int option"
  ti_running :: "int option"

text \<open>The columns of a conversation or ticket that the queries read.\<close>

record subject =
  sj_id :: string
  sj_workspace :: string
  sj_priority :: string
  sj_state :: string
  sj_inbox :: string
  sj_policy :: "string option"
  sj_created :: int

record policy_row =
  po_id :: string
  po_workspace :: string
  po_calendar :: "string option"
  po_pause :: "string list"
  po_warning :: int
  po_enabled :: bool
  po_created :: int

record target_row =
  tg_policy :: string
  tg_priority :: string
  tg_first :: "int option"
  tg_next :: "int option"
  tg_resolution :: "int option"

text \<open>A calendar row; \<open>None\<close> stands for a weekly column that does not decode into a schedule.\<close>

record calendar_row =
  ca_id :: string
  ca_timezone :: string
  ca_weekly :: "window list list option"

record sla_db = consumer_db +
  sl_timers :: "timer list"
  sl_conversations :: "subject list"
  sl_tickets :: "subject list"
  sl_inboxes :: "(string \<times> string option) list"
  sl_policies :: "policy_row list"
  sl_targets :: "target_row list"
  sl_calendars :: "calendar_row list"
  sl_holidays :: "(string \<times> string) list"

record runtime_policy =
  rp_pause :: "string list"
  rp_warning :: int
  rp_target :: int
  rp_calendar :: calendar

section \<open>Policies\<close>

text \<open>
  COALESCE over the policy of the subject, of its inbox, and the first enabled policy of
  the workspace.
\<close>

definition default_policy :: "string \<Rightarrow> 'x sla_db_scheme \<Rightarrow> string option" where
  "default_policy w d = (case sort_key po_created (filter (\<lambda>p. po_workspace p = w \<and> po_enabled p) (sl_policies d)) of
     [] \<Rightarrow> None | p # _ \<Rightarrow> Some (po_id p))"

definition coalesce :: "'a option \<Rightarrow> 'a option \<Rightarrow> 'a option" where
  "coalesce a b = (case a of None \<Rightarrow> b | Some x \<Rightarrow> Some x)"

text \<open>The subject of an event with its policy; a conversation needs its inbox, a ticket does not.\<close>

definition conversation_subject :: "string \<Rightarrow> string \<Rightarrow> 'x sla_db_scheme \<Rightarrow> (subject \<times> string option) option" where
  "conversation_subject w i d =
     (case filter (\<lambda>s. sj_workspace s = w \<and> sj_id s = i) (sl_conversations d) of [] \<Rightarrow> None
      | s # _ \<Rightarrow> (case map_of (sl_inboxes d) (sj_inbox s) of None \<Rightarrow> None
         | Some p \<Rightarrow> Some (s, coalesce p (default_policy w d))))"

definition ticket_subject :: "string \<Rightarrow> string \<Rightarrow> 'x sla_db_scheme \<Rightarrow> (subject \<times> string option) option" where
  "ticket_subject w i d =
     (case filter (\<lambda>s. sj_workspace s = w \<and> sj_id s = i) (sl_tickets d) of [] \<Rightarrow> None
      | s # _ \<Rightarrow> Some (s, coalesce (sj_policy s)
          (coalesce (case map_of (sl_inboxes d) (sj_inbox s) of None \<Rightarrow> None | Some p \<Rightarrow> p) (default_policy w d))))"

text \<open>Scanning a NULL column into a Go string is an error of the driver.\<close>

definition scan_text :: "string option \<Rightarrow> ('d, 'e, string) tx" where
  "scan_text v = (case v of None \<Rightarrow> tx_fail (Msg ''cannot scan NULL into *string'') | Some s \<Rightarrow> tx_ret s)"

definition or_error :: "'e + 'a \<Rightarrow> ('d, 'e, 'a) tx" where
  "or_error r = (case r of Inl e \<Rightarrow> tx_fail (Err e) | Inr a \<Rightarrow> tx_ret a)"

text \<open>
  calendarFromRow on the calendar joined to the policy; without one, the calendar that is
  always open.
\<close>

definition policy_calendar :: "policy_row \<Rightarrow> 'x sla_db_scheme \<Rightarrow> calendar_row option" where
  "policy_calendar q d = (case po_calendar q of None \<Rightarrow> None | Some i \<Rightarrow> lookup_key ca_id i (sl_calendars d))"

definition calendar_from_row :: "(string \<Rightarrow> location option) \<Rightarrow> calendar_row option \<Rightarrow> ('x sla_db_scheme, sla_error, calendar) tx" where
  "calendar_from_row zones cal =
     (case cal of None \<Rightarrow> or_error (new_calendar zones ''UTC'' full_day_weekly [])
      | Some c \<Rightarrow> (case ca_weekly c of
            None \<Rightarrow> tx_fail (Msg ''sla: decode calendar'')
          | Some weekly \<Rightarrow> tx_bind (sql_read (\<lambda>d. map snd (filter (\<lambda>h. fst h = ca_id c) (sl_holidays d))))
              (\<lambda>holidays. or_error (new_calendar zones (ca_timezone c) weekly holidays))))"

definition target_of :: "timer_kind \<Rightarrow> target_row \<Rightarrow> int option" where
  "target_of k t = (case k of Resolution \<Rightarrow> tg_resolution t | NextResponse \<Rightarrow> tg_next t | FirstResponse \<Rightarrow> tg_first t)"

text \<open>
  loadRuntimePolicy: \<open>None\<close> is errNoSLATarget.  A failed query leaves the target nil as
  well, but also aborts the transaction, so it is the failure of the whole.
\<close>

definition policy_target :: "string \<Rightarrow> string \<Rightarrow> string \<Rightarrow> timer_kind \<Rightarrow> 'x sla_db_scheme
    \<Rightarrow> (policy_row \<times> calendar_row option \<times> int) option" where
  "policy_target w p priority k d =
     (case filter (\<lambda>q. po_workspace q = w \<and> po_id q = p \<and> po_enabled q) (sl_policies d) of [] \<Rightarrow> None
      | q # _ \<Rightarrow> (case filter (\<lambda>t. tg_policy t = p \<and> tg_priority t = priority) (sl_targets d) of [] \<Rightarrow> None
         | t # _ \<Rightarrow> map_option (\<lambda>n. (q, policy_calendar q d, n)) (target_of k t)))"

definition load_runtime_policy :: "(string \<Rightarrow> location option) \<Rightarrow> string \<Rightarrow> string \<Rightarrow> string \<Rightarrow> timer_kind
    \<Rightarrow> ('x sla_db_scheme, sla_error, runtime_policy option) tx" where
  "load_runtime_policy zones w p priority k =
     tx_bind (sql_read (policy_target w p priority k)) (\<lambda>row. case row of
        None \<Rightarrow> tx_ret None
      | Some (q, c, target) \<Rightarrow> tx_bind (calendar_from_row zones c)
          (\<lambda>cal. tx_ret (Some \<lparr> rp_pause = po_pause q, rp_warning = po_warning q, rp_target = target, rp_calendar = cal \<rparr>)))"

definition load_policy_for_instance :: "(string \<Rightarrow> location option) \<Rightarrow> string \<Rightarrow> string \<Rightarrow> int
    \<Rightarrow> ('x sla_db_scheme, sla_error, runtime_policy) tx" where
  "load_policy_for_instance zones w p target =
     tx_bind (sql_read (\<lambda>d. map (\<lambda>q. (q, policy_calendar q d)) (filter (\<lambda>q. po_workspace q = w \<and> po_id q = p) (sl_policies d))))
       (\<lambda>qs. case qs of
          [] \<Rightarrow> tx_fail (Msg ''no rows in result set'')
        | (q, c) # _ \<Rightarrow> tx_bind (calendar_from_row zones c)
            (\<lambda>cal. tx_ret \<lparr> rp_pause = po_pause q, rp_warning = po_warning q, rp_target = target, rp_calendar = cal \<rparr>))"

text \<open>time.Duration(n) * time.Minute, 64 bits wide.\<close>

definition minutes :: "int \<Rightarrow> int" where
  "minutes n = (n * minute_ns + 2 ^ 63) mod 2 ^ 64 - 2 ^ 63"

text \<open>mustElapsed, in whole minutes.\<close>

definition must_elapsed :: "calendar \<Rightarrow> int \<Rightarrow> int \<Rightarrow> int" where
  "must_elapsed c a b = (case calendar_elapsed c a b of Inl _ \<Rightarrow> 0 | Inr n \<Rightarrow> n)"

definition elapsed_minutes :: "calendar \<Rightarrow> int \<Rightarrow> int \<Rightarrow> int" where
  "elapsed_minutes c a b = must_elapsed c a b div minute_ns"

section \<open>Starting timers\<close>

text \<open>
  The part insertTimer and startOrResetNext share: state, deadline, running_since, paused_at
  and paused_reason of a new clock.
\<close>

definition clock_fields :: "int \<Rightarrow> int \<Rightarrow> int \<Rightarrow> bool \<Rightarrow> string \<Rightarrow> calendar
    \<Rightarrow> sla_error + timer_state \<times> int option \<times> int option \<times> int option \<times> string option" where
  "clock_fields target started now paused reason cal =
     (if paused then Inr (TPaused, None, None, Some now, Some reason)
      else (case calendar_add cal started (minutes target) of
          Inl e \<Rightarrow> Inl e
        | Inr t \<Rightarrow> Inr (TActive, Some t, Some now, None, None)))"

text \<open>NULLIF(v, '').\<close>

definition null_if_empty :: "string \<Rightarrow> string option" where
  "null_if_empty v = (if v = '''' then None else Some v)"

definition new_timer :: "string \<Rightarrow> string \<Rightarrow> string \<Rightarrow> string \<Rightarrow> string \<Rightarrow> timer_kind \<Rightarrow> int \<Rightarrow> int
    \<Rightarrow> timer_state \<times> int option \<times> int option \<times> int option \<times> string option \<Rightarrow> timer" where
  "new_timer i w p conv tick k target started = (\<lambda>(st, deadline, running, paused_at, reason).
     \<lparr> ti_id = i, ti_workspace = w, ti_policy = p, ti_conversation = null_if_empty conv, ti_ticket = null_if_empty tick,
       ti_kind = k, ti_state = st, ti_target = target, ti_elapsed = 0, ti_deadline = deadline, ti_paused_at = paused_at,
       ti_reason = reason, ti_started = started, ti_satisfied = None, ti_breached = None, ti_warned = None,
       ti_running = running \<rparr>)"

text \<open>The unique indexes: one timer per conversation and kind, one per ticket and kind.\<close>

definition same_slot :: "timer \<Rightarrow> timer \<Rightarrow> bool" where
  "same_slot t u \<longleftrightarrow> ti_kind t = ti_kind u \<and>
     (ti_conversation t \<noteq> None \<and> ti_conversation t = ti_conversation u \<or> ti_ticket t \<noteq> None \<and> ti_ticket t = ti_ticket u)"

text \<open>INSERT ... ON CONFLICT DO NOTHING; a timer needs exactly one subject.\<close>

definition insert_timer_row :: "timer \<Rightarrow> 'x sla_db_scheme \<Rightarrow> (unit \<times> 'x sla_db_scheme) option" where
  "insert_timer_row t d =
     (if (ti_conversation t = None) = (ti_ticket t = None) then None
      else if \<exists>u \<in> set (sl_timers d). ti_id u = ti_id t \<or> same_slot t u then Some ((), d)
      else Some ((), d\<lparr>sl_timers := sl_timers d @ [t]\<rparr>))"

definition insert_timer :: "string \<Rightarrow> string \<Rightarrow> string \<Rightarrow> string \<Rightarrow> string \<Rightarrow> timer_kind \<Rightarrow> int \<Rightarrow> int \<Rightarrow> int \<Rightarrow> bool
    \<Rightarrow> string \<Rightarrow> calendar \<Rightarrow> ('x sla_db_scheme, sla_error, unit) tx" where
  "insert_timer i w p conv tick k target started now paused reason cal =
     tx_bind (or_error (clock_fields target started now paused reason cal))
       (\<lambda>fields. sql_checked (insert_timer_row (new_timer i w p conv tick k target started fields)))"

text \<open>The loop over first_response and resolution of EnsureConversation and EnsureTicket.\<close>

definition start_timers :: "(string \<Rightarrow> location option) \<Rightarrow> (timer_kind \<Rightarrow> string) \<Rightarrow> string \<Rightarrow> string \<Rightarrow> string \<Rightarrow> string
    \<Rightarrow> subject \<Rightarrow> int \<Rightarrow> ('x sla_db_scheme, sla_error, unit) tx" where
  "start_timers zones ids w p conv tick s now =
     tx_each (\<lambda>k. tx_bind (load_runtime_policy zones w p (sj_priority s) k) (\<lambda>rp. case rp of
         None \<Rightarrow> tx_ret ()
       | Some q \<Rightarrow> insert_timer (ids k) w p conv tick k (rp_target q) (sj_created s) now
           (sj_state s \<in> set (rp_pause q)) (sj_state s) (rp_calendar q)))
       [FirstResponse, Resolution]"

definition ensure_conversation :: "(string \<Rightarrow> location option) \<Rightarrow> (timer_kind \<Rightarrow> string) \<Rightarrow> string \<Rightarrow> string \<Rightarrow> int
    \<Rightarrow> ('x sla_db_scheme, sla_error, unit) tx" where
  "ensure_conversation zones ids w conv now = with_tx
     (tx_bind (sql_read (conversation_subject w conv)) (\<lambda>r. case r of None \<Rightarrow> tx_ret ()
       | Some (s, pol) \<Rightarrow> tx_bind (scan_text pol) (\<lambda>p.
           if p = '''' then tx_ret () else start_timers zones ids w p conv '''' s now)))"

definition ensure_ticket :: "(string \<Rightarrow> location option) \<Rightarrow> (timer_kind \<Rightarrow> string) \<Rightarrow> string \<Rightarrow> string \<Rightarrow> int
    \<Rightarrow> ('x sla_db_scheme, sla_error, unit) tx" where
  "ensure_ticket zones ids w tick now = with_tx
     (tx_bind (sql_read (ticket_subject w tick)) (\<lambda>r. case r of None \<Rightarrow> tx_ret ()
       | Some (s, pol) \<Rightarrow> tx_bind (scan_text pol) (\<lambda>p.
           if p = '''' then tx_ret () else start_timers zones ids w p '''' tick s now)))"

section \<open>Messages and state changes\<close>

text \<open>The upsert of startOrResetNext on (conversation, kind).\<close>

definition reset_row :: "timer \<Rightarrow> timer \<Rightarrow> timer" where
  "reset_row n t = t\<lparr>ti_state := ti_state n, ti_target := ti_target n, ti_elapsed := 0, ti_deadline := ti_deadline n,
     ti_paused_at := ti_paused_at n, ti_reason := ti_reason n, ti_satisfied := None, ti_breached := None,
     ti_warned := None, ti_running := ti_running n\<rparr>"

definition upsert_timer :: "timer \<Rightarrow> 'x sla_db_scheme \<Rightarrow> (unit \<times> 'x sla_db_scheme) option" where
  "upsert_timer n d =
     (if ti_conversation n = None \<or> ti_ticket n \<noteq> None then None
      else if \<exists>u \<in> set (sl_timers d). ti_kind u = ti_kind n \<and> ti_conversation u = ti_conversation n then
        Some ((), d\<lparr>sl_timers := update_where (\<lambda>u. ti_kind u = ti_kind n \<and> ti_conversation u = ti_conversation n)
          (reset_row n) (sl_timers d)\<rparr>)
      else if ti_id n \<in> ti_id ` set (sl_timers d) then None
      else Some ((), d\<lparr>sl_timers := sl_timers d @ [n]\<rparr>))"

definition start_or_reset_next :: "string \<Rightarrow> string \<Rightarrow> string \<Rightarrow> string \<Rightarrow> int \<Rightarrow> int \<Rightarrow> bool \<Rightarrow> string \<Rightarrow> calendar
    \<Rightarrow> ('x sla_db_scheme, sla_error, unit) tx" where
  "start_or_reset_next i w p conv target now paused reason cal =
     tx_bind (or_error (clock_fields target now now paused reason cal))
       (\<lambda>fields. sql_checked (upsert_timer (new_timer i w p conv '''' NextResponse target now fields)))"

text \<open>An answer satisfies the response clocks that are still open.\<close>

definition met_row :: "int \<Rightarrow> timer \<Rightarrow> timer" where
  "met_row now t = t\<lparr>ti_state := TMet, ti_satisfied := coalesce (ti_satisfied t) (Some now), ti_elapsed := ti_target t,
     ti_running := None, ti_deadline := None\<rparr>"

definition open_timer :: "timer \<Rightarrow> bool" where
  "open_timer t \<longleftrightarrow> ti_state t = TActive \<or> ti_state t = TPaused"

definition satisfy_responses :: "string \<Rightarrow> string \<Rightarrow> int \<Rightarrow> 'x sla_db_scheme \<Rightarrow> 'x sla_db_scheme" where
  "satisfy_responses w conv now d = d\<lparr>sl_timers := update_where
     (\<lambda>t. ti_workspace t = w \<and> ti_conversation t = Some conv \<and> ti_kind t \<in> {FirstResponse, NextResponse} \<and> open_timer t)
     (met_row now) (sl_timers d)\<rparr>"

definition message_received :: "(string \<Rightarrow> location option) \<Rightarrow> (timer_kind \<Rightarrow> string) \<Rightarrow> string \<Rightarrow> string \<Rightarrow> string \<Rightarrow> int
    \<Rightarrow> ('x sla_db_scheme, sla_error, unit) tx" where
  "message_received zones ids w conv author now =
     tx_seq (ensure_conversation zones ids w conv now) (with_tx
       (if author = ''customer'' then
          tx_bind (sql_read (conversation_subject w conv)) (\<lambda>r. case r of None \<Rightarrow> tx_ret ()
            | Some (s, pol) \<Rightarrow> tx_bind (scan_text pol) (\<lambda>p.
                tx_bind (load_runtime_policy zones w p (sj_priority s) NextResponse) (\<lambda>rp. case rp of
                   None \<Rightarrow> tx_ret ()
                 | Some q \<Rightarrow> start_or_reset_next (ids NextResponse) w p conv (rp_target q) now
                     (sj_state s \<in> set (rp_pause q)) (sj_state s) (rp_calendar q))))
        else sql_exec (satisfy_responses w conv now)))"

text \<open>The subject column a query filters on.\<close>

definition about :: "string \<Rightarrow> string \<Rightarrow> timer \<Rightarrow> bool" where
  "about subject_type i t = ((if subject_type = ''ticket'' then ti_ticket t else ti_conversation t) = Some i)"

text \<open>The new elapsed value of a timer that stops now, never above its target.\<close>

definition stopped_elapsed :: "calendar \<Rightarrow> int \<Rightarrow> timer \<Rightarrow> int" where
  "stopped_elapsed c now t = (case ti_running t of None \<Rightarrow> ti_elapsed t
     | Some r \<Rightarrow> min (ti_elapsed t + elapsed_minutes c r now) (ti_target t))"

definition close_row :: "int \<Rightarrow> timer \<Rightarrow> timer" where
  "close_row now t = (met_row now t)\<lparr>ti_paused_at := None, ti_reason := None\<rparr>"

definition pause_row :: "int \<Rightarrow> int \<Rightarrow> string option \<Rightarrow> timer \<Rightarrow> timer" where
  "pause_row elapsed now reason t = t\<lparr>ti_state := TPaused, ti_elapsed := elapsed, ti_running := None, ti_deadline := None,
     ti_paused_at := Some now, ti_reason := reason\<rparr>"

definition resume_row :: "int \<Rightarrow> int \<Rightarrow> timer \<Rightarrow> timer" where
  "resume_row now deadline t = t\<lparr>ti_state := TActive, ti_running := Some now, ti_deadline := Some deadline,
     ti_paused_at := None, ti_reason := None\<rparr>"

definition update_timer :: "string \<Rightarrow> (timer \<Rightarrow> timer) \<Rightarrow> ('x sla_db_scheme, 'e, unit) tx" where
  "update_timer i f = sql_exec (\<lambda>d. d\<lparr>sl_timers := update_where (\<lambda>t. ti_id t = i) f (sl_timers d)\<rparr>)"

text \<open>One timer of SetSubjectState: settled, paused, resumed or left as it is.\<close>

definition set_timer_state :: "(string \<Rightarrow> location option) \<Rightarrow> string \<Rightarrow> string \<Rightarrow> int \<Rightarrow> timer \<Rightarrow> ('x sla_db_scheme, sla_error, unit) tx" where
  "set_timer_state zones w st now t =
     tx_bind (load_policy_for_instance zones w (ti_policy t) (ti_target t)) (\<lambda>q.
       let should_pause = st \<in> set (rp_pause q) in
       if st = ''resolved'' \<or> st = ''closed'' then update_timer (ti_id t) (close_row now)
       else if should_pause \<and> ti_state t = TActive then
         update_timer (ti_id t) (pause_row (stopped_elapsed (rp_calendar q) now t) now (Some st))
       else if \<not> should_pause \<and> ti_state t = TPaused then
         tx_bind (or_error (calendar_add (rp_calendar q) now (minutes (max 0 (ti_target t - ti_elapsed t)))))
           (\<lambda>deadline. update_timer (ti_id t) (resume_row now deadline))
       else tx_ret ())"

definition set_subject_state :: "(string \<Rightarrow> location option) \<Rightarrow> string \<Rightarrow> string \<Rightarrow> string \<Rightarrow> string \<Rightarrow> int
    \<Rightarrow> ('x sla_db_scheme, sla_error, unit) tx" where
  "set_subject_state zones w subject_type i st now = with_tx
     (tx_bind (sql_read (\<lambda>d. filter (\<lambda>t. ti_workspace t = w \<and> about subject_type i t \<and> open_timer t) (sl_timers d)))
       (tx_each (set_timer_state zones w st now)))"

text \<open>
  PauseSubject reads the policy of each timer while the rows of its query are still open;
  \<open>busy\<close> says that the driver refuses a statement on such a connection.
\<close>

definition pause_timer :: "(string \<Rightarrow> location option) \<Rightarrow> bool \<Rightarrow> string \<Rightarrow> string \<Rightarrow> int \<Rightarrow> timer \<Rightarrow> ('x sla_db_scheme, sla_error, unit) tx" where
  "pause_timer zones busy w reason now t =
     (if busy then tx_fail (Msg ''conn busy'')
      else tx_bind (load_policy_for_instance zones w (ti_policy t) (ti_target t)) (\<lambda>q.
        update_timer (ti_id t) (pause_row (stopped_elapsed (rp_calendar q) now t) now (null_if_empty reason))))"

definition pause_subject :: "(string \<Rightarrow> location option) \<Rightarrow> bool \<Rightarrow> string \<Rightarrow> string \<Rightarrow> string \<Rightarrow> string \<Rightarrow> int
    \<Rightarrow> ('x sla_db_scheme, sla_error, unit) tx" where
  "pause_subject zones busy w subject_type i reason now =
     (if subject_type \<noteq> ''conversation'' \<and> subject_type \<noteq> ''ticket'' then
        tx_fail (Msg ''sla: subject must be a conversation or ticket'')
      else with_tx
        (tx_bind (sql_read (\<lambda>d. filter (\<lambda>t. ti_workspace t = w \<and> about subject_type i t \<and> ti_state t = TActive) (sl_timers d)))
          (tx_each (pause_timer zones busy w reason now))))"

section \<open>Evaluation\<close>

definition sla_approaching :: string where "sla_approaching = ''sla.approaching''"
definition sla_breached :: string where "sla_breached = ''sla.breached''"

definition kind_text :: "timer_kind \<Rightarrow> string" where
  "kind_text k = (case k of FirstResponse \<Rightarrow> ''first_response'' | NextResponse \<Rightarrow> ''next_response'' | Resolution \<Rightarrow> ''resolution'')"

text \<open>appendRuntimeEvent; \<open>stamp\<close> is the RFC 3339 text of the time.\<close>

definition timer_event :: "(int \<Rightarrow> string) \<Rightarrow> timer \<Rightarrow> string \<Rightarrow> int \<Rightarrow> event" where
  "timer_event stamp t ty now = \<lparr> ev_workspace = ti_workspace t, ev_type = ty,
     ev_entity_type = (case ti_ticket t of None \<Rightarrow> ''conversation'' | Some _ \<Rightarrow> ''ticket''),
     ev_entity_id = (case ti_ticket t of Some i \<Rightarrow> i | None \<Rightarrow> (case ti_conversation t of None \<Rightarrow> '''' | Some i \<Rightarrow> i)),
     ev_actor_type = ''system'', ev_actor_id = '''',
     ev_data = Some (JObj [(''instance_id'', JStr (ti_id t)), (''kind'', JStr (kind_text (ti_kind t))),
       (''target_minutes'', JInt (ti_target t)), (''occurred_at'', JStr (stamp now))]),
     ev_causation = '''', ev_request = '''' \<rparr>"

definition append_runtime_event :: "bool \<Rightarrow> (int \<Rightarrow> string) \<Rightarrow> string \<Rightarrow> timer \<Rightarrow> string \<Rightarrow> int
    \<Rightarrow> ('x sla_db_scheme, 'e, unit) tx" where
  "append_runtime_event log stamp rid t ty now =
     (if \<not> log then tx_ret () else tx_seq (append_event rid '''' now (timer_event stamp t ty now)) (tx_ret ()))"

definition warned_row :: "int \<Rightarrow> int \<Rightarrow> timer \<Rightarrow> timer" where
  "warned_row now elapsed t = t\<lparr>ti_warned := Some now, ti_elapsed := elapsed\<rparr>"

definition breached_row :: "int \<Rightarrow> int \<Rightarrow> timer \<Rightarrow> timer" where
  "breached_row now elapsed t = t\<lparr>ti_state := TBreached, ti_breached := Some now, ti_elapsed := elapsed, ti_running := None\<rparr>"

definition active_timer :: "string \<Rightarrow> 'x sla_db_scheme \<Rightarrow> timer option" where
  "active_timer i d = (case lookup_key ti_id i (sl_timers d) of None \<Rightarrow> None
     | Some t \<Rightarrow> if ti_state t = TActive then Some t else None)"

text \<open>
  The elapsed value of the row that was read, and the two conditions of evaluateOne.  The
  stored value is added to the time since running_since, which evaluation does not move.
\<close>

definition evaluated_elapsed :: "calendar \<Rightarrow> int \<Rightarrow> timer \<Rightarrow> int" where
  "evaluated_elapsed c now t = min (case ti_running t of None \<Rightarrow> ti_elapsed t
     | Some r \<Rightarrow> ti_elapsed t + elapsed_minutes c r now) (ti_target t)"

definition must_warn :: "runtime_policy \<Rightarrow> int \<Rightarrow> timer \<Rightarrow> bool" where
  "must_warn q elapsed t \<longleftrightarrow> ti_warned t = None \<and> elapsed * 100 \<ge> ti_target t * rp_warning q"

definition is_due :: "int \<Rightarrow> timer \<Rightarrow> bool" where
  "is_due now t = (case ti_deadline t of None \<Rightarrow> False | Some x \<Rightarrow> \<not> x > now)"

text \<open>evaluateOne; \<open>rids\<close> are the ids of the two events it may append.\<close>

definition evaluate_one :: "(string \<Rightarrow> location option) \<Rightarrow> bool \<Rightarrow> (int \<Rightarrow> string) \<Rightarrow> string \<times> string \<Rightarrow> string \<Rightarrow> int
    \<Rightarrow> ('x sla_db_scheme, sla_error, bool \<times> bool) tx" where
  "evaluate_one zones log stamp rids i now = with_tx
     (tx_bind (sql_read (active_timer i)) (\<lambda>row. case row of None \<Rightarrow> tx_ret (False, False)
       | Some t \<Rightarrow> tx_bind (load_policy_for_instance zones (ti_workspace t) (ti_policy t) (ti_target t)) (\<lambda>q.
           let elapsed = evaluated_elapsed (rp_calendar q) now t; t' = t\<lparr>ti_elapsed := elapsed\<rparr>;
               warn = must_warn q elapsed t
           in tx_seq (if warn then tx_seq (update_timer i (warned_row now elapsed))
                  (append_runtime_event log stamp (fst rids) t' sla_approaching now) else tx_ret ())
                (if is_due now t then
                   tx_seq (update_timer i (breached_row now elapsed))
                     (tx_seq (append_runtime_event log stamp (snd rids) t' sla_breached now) (tx_ret (warn, True)))
                 else tx_seq (sql_exec (\<lambda>d. d\<lparr>sl_timers := update_where (\<lambda>u. ti_id u = i \<and> ti_state u = TActive)
                       (\<lambda>u. u\<lparr>ti_elapsed := elapsed\<rparr>) (sl_timers d)\<rparr>)) (tx_ret (warn, False))))))"

text \<open>Evaluate: up to 500 timers, earliest deadline first, until the first error.\<close>

definition to_check :: "int \<Rightarrow> 'x sla_db_scheme \<Rightarrow> string list" where
  "to_check now d =
     (let ts = filter (\<lambda>t. ti_state t = TActive \<and> (is_due now t \<or> ti_warned t = None)) (sl_timers d);
          dated = sort_key (\<lambda>t. the (ti_deadline t)) (filter (\<lambda>t. ti_deadline t \<noteq> None) ts);
          open_end = filter (\<lambda>t. ti_deadline t = None) ts
      in take 500 (map ti_id (dated @ open_end)))"

fun evaluate_each :: "(string \<Rightarrow> location option) \<Rightarrow> bool \<Rightarrow> (int \<Rightarrow> string) \<Rightarrow> (string \<Rightarrow> string \<times> string) \<Rightarrow> int \<Rightarrow> string list
    \<Rightarrow> nat \<times> nat \<Rightarrow> ('x sla_db_scheme, sla_error, nat \<times> nat) tx" where
  "evaluate_each zones log stamp rids now [] counts = tx_ret counts"
| "evaluate_each zones log stamp rids now (i # is) counts =
     tx_bind (evaluate_one zones log stamp (rids i) i now) (\<lambda>(warning, breach).
       evaluate_each zones log stamp rids now is
         (fst counts + (if warning then 1 else 0), snd counts + (if breach then 1 else 0)))"

definition evaluate :: "(string \<Rightarrow> location option) \<Rightarrow> bool \<Rightarrow> (int \<Rightarrow> string) \<Rightarrow> (string \<Rightarrow> string \<times> string) \<Rightarrow> int
    \<Rightarrow> ('x sla_db_scheme, sla_error, nat \<times> nat) tx" where
  "evaluate zones log stamp rids now =
     tx_bind (sql_read (to_check now)) (\<lambda>is. evaluate_each zones log stamp rids now is (0, 0))"

section \<open>The event consumer\<close>

text \<open>A string member of the event data; anything else leaves the Go field empty.\<close>

definition data_text :: "json \<Rightarrow> string \<Rightarrow> string" where
  "data_text j k = (case json_field j k of Some (JStr s) \<Rightarrow> s | _ \<Rightarrow> '''')"

definition process_event :: "(string \<Rightarrow> location option) \<Rightarrow> (timer_kind \<Rightarrow> string) \<Rightarrow> event_row \<Rightarrow> ('x sla_db_scheme, sla_error, unit) tx" where
  "process_event zones ids r =
     (let w = r_workspace r; e = r_entity_id r; now = r_occurred r; conv = data_text (r_data r) ''conversation_id'';
          st = data_text (r_data r) ''to''
      in if r_type r = ''conversation.created'' then ensure_conversation zones ids w e now
         else if r_type r = ''ticket.created'' then ensure_ticket zones ids w e now
         else if r_type r = ''message.created'' then
           message_received zones ids w (if conv \<noteq> '''' then conv else e) (data_text (r_data r) ''author_type'') now
         else if r_type r = ''conversation.state_changed'' \<or> r_type r = ''conversation.resolved'' then
           set_subject_state zones w ''conversation'' e
             (if st = '''' \<and> r_type r = ''conversation.resolved'' then ''resolved'' else st) now
         else if r_type r = ''ticket.state_changed'' then set_subject_state zones w ''ticket'' e st now
         else tx_ret ())"

definition sla_turn :: "(string \<Rightarrow> location option) \<Rightarrow> (event_row \<Rightarrow> timer_kind \<Rightarrow> string) \<Rightarrow> bool \<Rightarrow> int \<Rightarrow> string
    \<Rightarrow> 'x sla_db_scheme \<times> bool list \<Rightarrow> 'x sla_db_scheme \<times> bool list" where
  "sla_turn zones ids locked now w = consume_workspace (\<lambda>r. process_event zones (ids r) r) locked now ''sla'' w"

section \<open>Reading\<close>

text \<open>ListInstances: one page of the timers of a workspace, newest first.\<close>

definition list_instances :: "string \<Rightarrow> timer_state option \<Rightarrow> (int \<times> string) option \<Rightarrow> int \<Rightarrow> 'x sla_db_scheme \<Rightarrow> timer list" where
  "list_instances w st before limit d =
     (let n = (if limit \<le> 0 \<or> limit > 201 then 100 else limit);
          keep = (\<lambda>t. ti_workspace t = w \<and> (case st of None \<Rightarrow> True | Some x \<Rightarrow> ti_state t = x) \<and>
            (case before of None \<Rightarrow> True | Some (s, i) \<Rightarrow> ti_started t < s \<or> ti_started t = s \<and> ti_id t < i))
      in take (nat n) (rev (sort_key ti_started (sort_key ti_id (filter keep (sl_timers d))))))"

record subject_sla =
  ss_policy :: string
  ss_state :: string
  ss_first :: "int option"
  ss_next :: "int option"
  ss_resolution :: "int option"

definition state_text :: "timer_state \<Rightarrow> string" where
  "state_text s = (case s of TActive \<Rightarrow> ''active'' | TPaused \<Rightarrow> ''paused'' | TMet \<Rightarrow> ''met''
     | TBreached \<Rightarrow> ''breached'' | TCancelled \<Rightarrow> ''cancelled'')"

definition subject_sla_state :: "timer \<Rightarrow> string" where
  "subject_sla_state t = (if ti_state t = TActive \<and> ti_warned t \<noteq> None then ''approaching'' else state_text (ti_state t))"

text \<open>Whole seconds, truncated towards zero.\<close>

definition subject_sla_remaining :: "timer \<Rightarrow> int \<Rightarrow> int" where
  "subject_sla_remaining t now = (case ti_deadline t of
     Some x \<Rightarrow> if ti_state t \<noteq> TPaused then sgn (x - now) * (\<bar>x - now\<bar> div 1000000000)
        else (ti_target t - ti_elapsed t) * 60
   | None \<Rightarrow> (ti_target t - ti_elapsed t) * 60)"

definition sla_state_rank :: "string \<Rightarrow> int" where
  "sla_state_rank s = (if s = ''breached'' then 4 else if s = ''approaching'' then 3 else if s = ''active'' then 2
     else if s = ''paused'' then 1 else 0)"

definition set_remaining :: "timer_kind \<Rightarrow> int \<Rightarrow> subject_sla \<Rightarrow> subject_sla" where
  "set_remaining k n s = (case k of FirstResponse \<Rightarrow> s\<lparr>ss_first := Some n\<rparr> | NextResponse \<Rightarrow> s\<lparr>ss_next := Some n\<rparr>
     | Resolution \<Rightarrow> s\<lparr>ss_resolution := Some n\<rparr>)"

definition merge_subject_sla :: "string \<Rightarrow> timer \<Rightarrow> int \<Rightarrow> (string \<Rightarrow> subject_sla option) \<Rightarrow> string \<Rightarrow> subject_sla option" where
  "merge_subject_sla i t now m =
     (let st = subject_sla_state t;
          item = (case m i of
              None \<Rightarrow> \<lparr> ss_policy = ti_policy t, ss_state = st, ss_first = None, ss_next = None, ss_resolution = None \<rparr>
            | Some s \<Rightarrow> s\<lparr>ss_state := (if sla_state_rank st > sla_state_rank (ss_state s) then st else ss_state s),
                ss_policy := (if ss_policy s = '''' then ti_policy t else ss_policy s)\<rparr>)
      in m(i \<mapsto> set_remaining (ti_kind t) (subject_sla_remaining t now) item))"

text \<open>subjectSLAs over conversations or tickets.\<close>

definition subject_slas :: "(timer \<Rightarrow> string option) \<Rightarrow> string \<Rightarrow> string list \<Rightarrow> int \<Rightarrow> 'x sla_db_scheme \<Rightarrow> string \<Rightarrow> subject_sla option" where
  "subject_slas column w ids now d =
     (let rows = filter (\<lambda>t. ti_workspace t = w \<and> (case column t of None \<Rightarrow> False | Some i \<Rightarrow> i \<in> set ids) \<and>
            ti_state t \<in> {TActive, TPaused, TBreached}) (sl_timers d)
      in fold (\<lambda>t. merge_subject_sla (the (column t)) t now) (sort_key (\<lambda>t. the (column t)) (sort_key ti_id rows)) Map.empty)"

definition conversation_slas :: "string \<Rightarrow> string list \<Rightarrow> int \<Rightarrow> 'x sla_db_scheme \<Rightarrow> string \<Rightarrow> subject_sla option" where
  "conversation_slas = subject_slas ti_conversation"

definition ticket_slas :: "string \<Rightarrow> string list \<Rightarrow> int \<Rightarrow> 'x sla_db_scheme \<Rightarrow> string \<Rightarrow> subject_sla option" where
  "ticket_slas = subject_slas ti_ticket"

definition conversation_sla :: "string \<Rightarrow> string \<Rightarrow> int \<Rightarrow> 'x sla_db_scheme \<Rightarrow> subject_sla option" where
  "conversation_sla w i now d = conversation_slas w [i] now d i"

definition ticket_sla :: "string \<Rightarrow> string \<Rightarrow> int \<Rightarrow> 'x sla_db_scheme \<Rightarrow> subject_sla option" where
  "ticket_sla w i now d = ticket_slas w [i] now d i"

end
