(* ===== verification/SlaSafety.thy ===== *)
theory SlaSafety
  imports SlaRuntime
begin

text \<open>
  The promises of the SLA timers: the tables stay consistent and a settled clock stays as
  it is under every operation with any failures, the exact effect of one evaluation, and
  the places where the timers leave what they are meant to show.
\<close>

section \<open>The invariant\<close>

definition slot :: "timer \<Rightarrow> timer_kind \<times> string option \<times> string option" where
  "slot t = (ti_kind t, ti_conversation t, ti_ticket t)"

text \<open>One subject, and the columns that go with the state.\<close>

definition timer_ok :: "timer \<Rightarrow> bool" where
  "timer_ok t \<longleftrightarrow> (ti_conversation t = None) \<noteq> (ti_ticket t = None) \<and>
     (case ti_state t of
        TActive \<Rightarrow> ti_deadline t \<noteq> None \<and> ti_running t \<noteq> None
      | TPaused \<Rightarrow> ti_deadline t = None \<and> ti_running t = None \<and> ti_paused_at t \<noteq> None
      | TMet \<Rightarrow> ti_deadline t = None \<and> ti_running t = None \<and> ti_satisfied t \<noteq> None
      | TBreached \<Rightarrow> ti_running t = None \<and> ti_breached t \<noteq> None
      | TCancelled \<Rightarrow> True)"

definition timers_ok :: "timer list \<Rightarrow> bool" where
  "timers_ok ts \<longleftrightarrow> distinct (map ti_id ts) \<and> distinct (map slot ts) \<and> (\<forall>t \<in> set ts. timer_ok t)"

definition settled :: "timer \<Rightarrow> bool" where
  "settled t \<longleftrightarrow> ti_state t \<in> {TMet, TBreached} \<and> ti_kind t \<noteq> NextResponse"

text \<open>Consistent tables that still hold every timer of \<open>S\<close>.\<close>

definition book :: "timer set \<Rightarrow> 'x sla_db_scheme \<Rightarrow> bool" where
  "book S d \<longleftrightarrow> timers_ok (sl_timers d) \<and> S \<subseteq> set (sl_timers d)"

lemma book_update:
  assumes "book S d"
    and "\<And>t. t \<in> set (sl_timers d) \<Longrightarrow> P t \<Longrightarrow> t \<notin> S"
    and "\<And>t. t \<in> set (sl_timers d) \<Longrightarrow> P t \<Longrightarrow> timer_ok t \<Longrightarrow> ti_id (f t) = ti_id t \<and> slot (f t) = slot t \<and> timer_ok (f t)"
  shows "book S (d\<lparr>sl_timers := update_where P f (sl_timers d)\<rparr>)"
proof -
  have ok: "timers_ok (sl_timers d)" "S \<subseteq> set (sl_timers d)" using assms(1) by (auto simp: book_def)
  then have "map ti_id (update_where P f (sl_timers d)) = map ti_id (sl_timers d)"
    "map slot (update_where P f (sl_timers d)) = map slot (sl_timers d)"
    using assms(3) by (auto intro!: map_update_where simp: timers_ok_def)
  moreover have "timer_ok t" if "t \<in> set (update_where P f (sl_timers d))" for t
    using that ok(1) assms(3) by (auto simp: set_update_where timers_ok_def)
  moreover have "S \<subseteq> set (update_where P f (sl_timers d))"
    using ok(2) assms(2) by (fastforce simp: set_update_where)
  ultimately show ?thesis using ok(1) by (simp add: book_def timers_ok_def)
qed

lemma book_frame: "sl_timers d' = sl_timers d \<Longrightarrow> book S d' = book S d"
  by (simp add: book_def)

lemma not_settled_id:
  assumes "book S d" "\<forall>t \<in> S. settled t" "t \<in> set (sl_timers d)" "ti_state t = TActive \<or> ti_state t = TPaused"
  shows "ti_id t \<notin> ti_id ` S"
proof
  assume "ti_id t \<in> ti_id ` S"
  then obtain s where s: "s \<in> S" "ti_id t = ti_id s" by auto
  then have "t = s"
    using assms(1,3) by (intro key_unique [where key = ti_id and t = "sl_timers d"]) (auto simp: book_def timers_ok_def)
  then show False using assms(2,4) s(1) by (auto simp: settled_def)
qed

section \<open>Every operation keeps it\<close>

declare keeps_read [keeps]

lemma keeps_or_error [keeps]: "tx_keeps I (or_error r)"
  by (auto simp: or_error_def intro: keeps split: sum.split)

lemma keeps_scan_text [keeps]: "tx_keeps I (scan_text v)"
  by (auto simp: scan_text_def intro: keeps split: option.split)

lemma keeps_calendar [keeps]: "tx_keeps I (calendar_from_row zones c)"
  by (auto simp: calendar_from_row_def intro!: keeps split: option.split)

lemma keeps_load [keeps]:
  "tx_keeps I (load_runtime_policy zones w p prio k)" "tx_keeps I (load_policy_for_instance zones w p n)"
  by (auto simp: load_runtime_policy_def load_policy_for_instance_def intro!: keeps split: option.split list.split prod.split)

lemma keeps_update_timer:
  assumes "i \<notin> ti_id ` S" "\<And>t. timer_ok t \<Longrightarrow> ti_id (f t) = ti_id t \<and> slot (f t) = slot t \<and> timer_ok (f t)"
  shows "tx_keeps (book S) (update_timer i f)"
  unfolding update_timer_def using assms by (intro keeps) (auto intro!: book_update)

lemma row_ok:
  "timer_ok t \<Longrightarrow> ti_id (met_row now t) = ti_id t \<and> slot (met_row now t) = slot t \<and> timer_ok (met_row now t)"
  "timer_ok t \<Longrightarrow> ti_id (close_row now t) = ti_id t \<and> slot (close_row now t) = slot t \<and> timer_ok (close_row now t)"
  "timer_ok t \<Longrightarrow> ti_id (pause_row n now r t) = ti_id t \<and> slot (pause_row n now r t) = slot t \<and> timer_ok (pause_row n now r t)"
  "timer_ok t \<Longrightarrow> ti_id (resume_row now x t) = ti_id t \<and> slot (resume_row now x t) = slot t \<and> timer_ok (resume_row now x t)"
  "timer_ok t \<Longrightarrow> ti_id (warned_row now n t) = ti_id t \<and> slot (warned_row now n t) = slot t \<and> timer_ok (warned_row now n t)"
  "timer_ok t \<Longrightarrow> ti_id (breached_row now n t) = ti_id t \<and> slot (breached_row now n t) = slot t \<and> timer_ok (breached_row now n t)"
  by (auto simp: timer_ok_def slot_def met_row_def close_row_def pause_row_def resume_row_def warned_row_def
      breached_row_def coalesce_def split: option.split timer_state.split)

lemma clock_fields_ok:
  assumes "clock_fields target started now paused reason cal = Inr cf"
  shows "(conv = '''') \<noteq> (tick = '''') \<Longrightarrow> timer_ok (new_timer i w p conv tick k target started cf)"
    and "open_timer (new_timer i w p conv tick k target started cf)"
  using assms by (auto simp: open_timer_def clock_fields_def new_timer_def timer_ok_def null_if_empty_def split: if_splits sum.splits prod.splits)

lemma keeps_or_error_bind:
  "(\<And>a. r = Inr a \<Longrightarrow> tx_keeps I (k a)) \<Longrightarrow> tx_keeps I (tx_bind (or_error r) k)"
  by (cases r) (auto simp: or_error_def tx_keeps_def tx_bind_def tx_fail_def tx_ret_def)

lemma insert_timer_row_book:
  assumes "book S d" "insert_timer_row t d = Some (u, d')" "timer_ok t"
  shows "book S d'"
proof -
  have "slot u \<noteq> slot t" if "timer_ok u" "\<not> same_slot t u" for u
    using that by (auto simp: slot_def same_slot_def timer_ok_def)
  then have "slot t \<notin> slot ` set (sl_timers d)" if "\<not> (\<exists>u \<in> set (sl_timers d). ti_id u = ti_id t \<or> same_slot t u)"
    using that assms(1) by (auto simp: book_def timers_ok_def) (metis)
  then show ?thesis using assms
    by (auto simp: insert_timer_row_def book_def timers_ok_def image_iff split: if_splits) metis+
qed

lemma upsert_timer_book:
  assumes "book S d" "\<forall>t \<in> S. settled t" "upsert_timer n d = Some (u, d')" "timer_ok n" "ti_kind n = NextResponse"
    "open_timer n"
  shows "book S d'"
proof (cases "\<exists>u \<in> set (sl_timers d). ti_kind u = ti_kind n \<and> ti_conversation u = ti_conversation n")
  case True
  then have "d' = d\<lparr>sl_timers := update_where (\<lambda>u. ti_kind u = ti_kind n \<and> ti_conversation u = ti_conversation n)
      (reset_row n) (sl_timers d)\<rparr>" using assms(3) by (auto simp: upsert_timer_def split: if_splits)
  moreover have "timer_ok t \<Longrightarrow> ti_id (reset_row n t) = ti_id t \<and> slot (reset_row n t) = slot t \<and> timer_ok (reset_row n t)" for t
    using assms(4,6) by (auto simp: reset_row_def slot_def timer_ok_def open_timer_def)
  ultimately show ?thesis using assms(1,2,5) by (auto intro!: book_update simp: settled_def)
next
  case False
  then have "slot n \<notin> slot ` set (sl_timers d)" by (auto simp: slot_def)
  then show ?thesis using assms False by (auto simp: upsert_timer_def book_def timers_ok_def split: if_splits)
qed

lemma new_timer_sel [simp]:
  "ti_kind (new_timer i w p conv tick k target started cf) = k"
  "ti_conversation (new_timer i w p conv tick k target started cf) = null_if_empty conv"
  "ti_ticket (new_timer i w p conv tick k target started cf) = null_if_empty tick"
  by (simp_all add: new_timer_def split: prod.split)

lemma null_if_empty_None [simp]: "null_if_empty v = None \<longleftrightarrow> v = ''''"
  by (simp add: null_if_empty_def)

text \<open>The operations, one by one; the timers of \<open>S\<close> are settled.\<close>

lemma keeps_insert_timer:
  "tx_keeps (book S) (insert_timer i w p conv tick k target started now paused reason cal)"
proof (cases "(conv = '''') = (tick = '''')")
  case True
  then show ?thesis unfolding insert_timer_def
    by (intro keeps_or_error_bind keeps_sql_checked) (simp add: insert_timer_row_def)
next
  case False
  then show ?thesis unfolding insert_timer_def
    by (intro keeps_or_error_bind keeps_sql_checked) (auto intro: insert_timer_row_book clock_fields_ok)
qed

lemma keeps_start_timers: "tx_keeps (book S) (start_timers zones ids w p conv tick s now)"
  unfolding start_timers_def by (auto intro!: keeps keeps_insert_timer split: option.split)

lemma keeps_ensure:
  "tx_keeps (book S) (ensure_conversation zones ids w conv now)"
  "tx_keeps (book S) (ensure_ticket zones ids w tick now)"
  unfolding ensure_conversation_def ensure_ticket_def
  by (intro keeps_with_tx keeps_read; auto intro!: keeps keeps_start_timers split: option.split prod.split)+

lemma keeps_next:
  assumes "\<forall>t \<in> S. settled t"
  shows "tx_keeps (book S) (start_or_reset_next i w p conv target now paused reason cal)"
proof (cases "conv = ''''")
  case True
  then show ?thesis unfolding start_or_reset_next_def
    by (intro keeps_or_error_bind keeps_sql_checked) (simp add: upsert_timer_def)
next
  case False
  then show ?thesis unfolding start_or_reset_next_def using assms
    by (intro keeps_or_error_bind keeps_sql_checked) (auto intro: upsert_timer_book clock_fields_ok)
qed

lemma keeps_message:
  assumes "\<forall>t \<in> S. settled t"
  shows "tx_keeps (book S) (message_received zones ids w conv author now)"
proof -
  have "book S (satisfy_responses w conv now d)" if "book S d" for d :: "'a sla_db_scheme"
    unfolding satisfy_responses_def using assms that
    by (auto intro!: book_update simp: row_ok settled_def open_timer_def)
  then show ?thesis unfolding message_received_def
    by (auto intro!: keeps keeps_ensure keeps_next [OF assms] split: option.split prod.split)
qed

lemma keeps_set_timer:
  "ti_id t \<notin> ti_id ` S \<Longrightarrow> tx_keeps (book S) (set_timer_state zones w st now t)"
  unfolding set_timer_state_def Let_def
  by (intro keeps_bind keeps_load keeps_if keeps_update_timer keeps_or_error keeps_ret) (simp_all add: row_ok)

lemma keeps_set_state:
  assumes "\<forall>t \<in> S. settled t"
  shows "tx_keeps (book S) (set_subject_state zones w ty i st now)"
  unfolding set_subject_state_def
  by (intro keeps_with_tx keeps_read keeps_each keeps_set_timer)
    (use assms not_settled_id in \<open>fastforce simp: open_timer_def\<close>)

lemma keeps_pause:
  assumes "\<forall>t \<in> S. settled t"
  shows "tx_keeps (book S) (pause_subject zones busy w ty i reason now)"
proof -
  have "tx_keeps (book S) (pause_timer zones busy w reason now t)" if "ti_id t \<notin> ti_id ` S" for t
    unfolding pause_timer_def using that
    by (intro keeps_if keeps_fail keeps_bind keeps_load keeps_update_timer) (simp_all add: row_ok)
  then show ?thesis unfolding pause_subject_def
    by (intro keeps_if keeps_fail keeps_with_tx keeps_read keeps_each)
      (use assms not_settled_id in fastforce)
qed

lemma keeps_append_event: "tx_keeps (book S) (append_event rid cz now ev :: ('x sla_db_scheme, 'e, event_row) tx)"
  unfolding append_event_def next_sequence_def insert_event_def pg_notify_def Let_def
  by (intro keeps_if keeps_fail keeps_bind keeps_ret keeps_sql keeps_sql_checked)
    (auto simp: book_def split: option.splits if_splits)

lemma keeps_evaluate_one:
  assumes "\<forall>t \<in> S. settled t"
  shows "tx_keeps (book S) (evaluate_one zones log stamp rids i now)"
proof -
  have elapsed: "tx_keeps (book S) (sql_exec (\<lambda>d. d\<lparr>sl_timers := update_where (\<lambda>u. ti_id u = i \<and> ti_state u = TActive)
      (\<lambda>u. u\<lparr>ti_elapsed := n\<rparr>) (sl_timers d)\<rparr>))" for n
    by (intro keeps_sql) (use assms in \<open>auto intro!: book_update simp: settled_def slot_def timer_ok_def\<close>)
  have body: "tx_keeps (book S) (case row of None \<Rightarrow> tx_ret (False, False)
       | Some t \<Rightarrow> tx_bind (load_policy_for_instance zones (ti_workspace t) (ti_policy t) (ti_target t)) (\<lambda>q.
           let elapsed = evaluated_elapsed (rp_calendar q) now t; t' = t\<lparr>ti_elapsed := elapsed\<rparr>;
               warn = must_warn q elapsed t
           in tx_seq (if warn then tx_seq (update_timer i (warned_row now elapsed))
                  (append_runtime_event log stamp (fst rids) t' sla_approaching now) else tx_ret ())
                (if is_due now t then
                   tx_seq (update_timer i (breached_row now elapsed))
                     (tx_seq (append_runtime_event log stamp (snd rids) t' sla_breached now) (tx_ret (warn, True)))
                 else tx_seq (sql_exec (\<lambda>d. d\<lparr>sl_timers := update_where (\<lambda>u. ti_id u = i \<and> ti_state u = TActive)
                       (\<lambda>u. u\<lparr>ti_elapsed := elapsed\<rparr>) (sl_timers d)\<rparr>)) (tx_ret (warn, False)))))"
    if "row \<noteq> None \<Longrightarrow> i \<notin> ti_id ` S" for row
    using that unfolding Let_def append_runtime_event_def
    by (auto intro!: keeps_bind keeps_load keeps_if keeps_update_timer keeps_append_event keeps_ret elapsed row_ok
        split: option.split)
  have "i \<notin> ti_id ` S" if "book S d" "active_timer i d \<noteq> None" for d :: "'a sla_db_scheme"
  proof -
    from that(2) obtain t where "t \<in> set (sl_timers d)" "ti_id t = i" "ti_state t = TActive"
      by (auto simp: active_timer_def tbl split: option.splits if_splits dest!: lookup_key_Some)
    then show ?thesis using not_settled_id [OF that(1) assms] by blast
  qed
  then show ?thesis unfolding evaluate_one_def by (intro keeps_with_tx keeps_read body) blast
qed

lemma keeps_evaluate:
  assumes "\<forall>t \<in> S. settled t"
  shows "tx_keeps (book S) (evaluate zones log stamp rids now)"
proof -
  have "tx_keeps (book S) (evaluate_each zones log stamp rids now is c)" for "is" c
  proof (induction "is" arbitrary: c)
    case (Cons i "is")
    then show ?case by (auto intro!: keeps keeps_evaluate_one [OF assms])
  qed (simp add: keeps_ret)
  then show ?thesis unfolding evaluate_def by (intro keeps_read)
qed

lemma keeps_process:
  "\<forall>t \<in> S. settled t \<Longrightarrow> tx_keeps (book S) (process_event zones ids r)"
  unfolding process_event_def Let_def
  by (intro keeps_if keeps_ensure keeps_message keeps_set_state keeps_ret)

text \<open>A turn of the consumer keeps what its handler and the checkpoints keep.\<close>

lemma keeps_consume_records:
  "(\<And>r. tx_keeps I (handle r)) \<Longrightarrow> (\<And>d n. I d \<Longrightarrow> I (move_cursor now name w n d)) \<Longrightarrow>
   tx_keeps I (consume_records handle now name w rs after)"
  by (induction rs arbitrary: after) (auto intro!: keeps)

lemma keeps_consume_pages:
  "(\<And>r. tx_keeps I (handle r)) \<Longrightarrow> (\<And>d n. I d \<Longrightarrow> I (move_cursor now name w n d)) \<Longrightarrow>
   tx_keeps I (consume_pages k handle now name w after)"
  by (induction k arbitrary: after) (auto intro!: keeps keeps_consume_records)

lemma keeps_drain:
  "(\<And>r. tx_keeps I (handle r)) \<Longrightarrow> (\<And>d n. I d \<Longrightarrow> I (move_cursor now name w n d)) \<Longrightarrow>
   (\<And>d. I d \<Longrightarrow> I (insert_cursor now name w d)) \<Longrightarrow> tx_keeps I (drain_consumer handle locked now name w)"
  unfolding drain_consumer_def by (auto intro!: keeps keeps_consume_pages split: option.split)

lemma sl_timers_cursor [simp]:
  "sl_timers (move_cursor now name w n d) = sl_timers d" "sl_timers (insert_cursor now name w d) = sl_timers d"
  by (auto simp: move_cursor_def insert_cursor_def split: option.split)

section \<open>Runs\<close>

text \<open>
  What can happen to the timers: consumer turns, single events, pauses, evaluations, and
  changes of the tables other services write.
\<close>

datatype sla_op = Turn string int bool | Handle event_row | Pause string string string string int | Tick int
  | Others "subject list" "subject list" "(string \<times> string option) list" "policy_row list" "target_row list" "calendar_row list" "(string \<times> string) list"

record sla_env =
  sv_zones :: "string \<Rightarrow> location option"
  sv_ids :: "event_row \<Rightarrow> timer_kind \<Rightarrow> string"
  sv_rids :: "int \<Rightarrow> string \<Rightarrow> string \<times> string"
  sv_stamp :: "int \<Rightarrow> string"
  sv_log :: bool
  sv_busy :: bool

fun sla_step :: "sla_env \<Rightarrow> sla_op \<times> bool list \<Rightarrow> sla_db \<Rightarrow> sla_db" where
  "sla_step e (Turn w now locked, fs) d = fst (sla_turn (sv_zones e) (sv_ids e) locked now w (d, fs))"
| "sla_step e (Handle r, fs) d = fst (snd (process_event (sv_zones e) (sv_ids e r) r (d, fs)))"
| "sla_step e (Pause w ty i reason now, fs) d = fst (snd (pause_subject (sv_zones e) (sv_busy e) w ty i reason now (d, fs)))"
| "sla_step e (Tick now, fs) d = fst (snd (evaluate (sv_zones e) (sv_log e) (sv_stamp e) (sv_rids e now) now (d, fs)))"
| "sla_step e (Others cs ts is ps gs cas hs, fs) d = d\<lparr>sl_conversations := cs, sl_tickets := ts, sl_inboxes := is,
     sl_policies := ps, sl_targets := gs, sl_calendars := cas, sl_holidays := hs\<rparr>"

definition sla_run :: "sla_env \<Rightarrow> (sla_op \<times> bool list) list \<Rightarrow> sla_db \<Rightarrow> sla_db" where
  "sla_run e as d = fold (sla_step e) as d"

lemma book_step:
  assumes "book S d" "\<forall>t \<in> S. settled t"
  shows "book S (sla_step e a d)"
proof -
  obtain act fs where a: "a = (act, fs)" by (cases a)
  show ?thesis
  proof (cases act)
    case (Turn w now locked)
    have "tx_keeps (book S) (drain_consumer (\<lambda>r. process_event (sv_zones e) (sv_ids e r) r) locked now ''sla'' w)"
      by (intro keeps_drain keeps_process assms(2)) (simp_all add: book_def)
    from keeps_run [OF this assms(1)] show ?thesis by (simp add: a Turn sla_turn_def consume_workspace_def)
  next
    case (Handle r)
    show ?thesis using keeps_run [OF keeps_process [OF assms(2)] assms(1)] by (simp add: a Handle)
  next
    case (Pause w ty i reason now)
    show ?thesis using keeps_run [OF keeps_pause [OF assms(2)] assms(1)] by (simp add: a Pause)
  next
    case (Tick now)
    show ?thesis using keeps_run [OF keeps_evaluate [OF assms(2)] assms(1)] by (simp add: a Tick)
  next
    case (Others cs ts ins ps gs cas hs)
    show ?thesis using assms(1) by (simp add: a Others book_def)
  qed
qed

lemma book_run: "book S d \<Longrightarrow> \<forall>t \<in> S. settled t \<Longrightarrow> book S (sla_run e as d)"
  unfolding sla_run_def by (induction as arbitrary: d) (auto intro: book_step)

section \<open>The effect of one evaluation\<close>

lemma calendar_from_row_reads: "reads_only (calendar_from_row zones c)"
  by (auto simp: calendar_from_row_def or_error_def intro!: reads_only_intros split: option.split sum.split)

lemma load_instance_reads: "reads_only (load_policy_for_instance zones w p n)"
  unfolding load_policy_for_instance_def
  by (auto intro!: reads_only_intros calendar_from_row_reads split: list.split prod.split)

lemma append_runtime_Inr:
  assumes "append_runtime_event True stamp rid t ty now (d, fs) = (Inr u :: 'e err + unit, d', fs')"
  shows "sl_timers d' = sl_timers d \<and>
    (\<exists>r. db_events d' = db_events d @ [r] \<and> r_type r = ty \<and> r_workspace r = ti_workspace t \<and>
       r_data r = or_empty_object (ev_data (timer_event stamp t ty now)))"
proof -
  obtain row d1 fs1 where "append_event rid '''' now (timer_event stamp t ty now) (d, fs) = (Inr row :: 'e err + event_row, d1, fs1)" "d' = d1"
    using assms by (auto simp: append_runtime_event_def tx_inv)
  with append_event_Inr [OF this(1)] show ?thesis
    by (auto simp: apply_row_def timer_event_def)
qed

text \<open>The timer row after an evaluation with elapsed value \<open>n\<close>.\<close>

definition evaluated_row :: "int \<Rightarrow> int \<Rightarrow> bool \<Rightarrow> bool \<Rightarrow> timer \<Rightarrow> timer" where
  "evaluated_row now n warn breach t =
     (let t1 = (if warn then warned_row now n t else t)
      in if breach then breached_row now n t1 else t1\<lparr>ti_elapsed := n\<rparr>)"

lemma update_where_twice:
  "(\<And>t. t \<in> set ts \<Longrightarrow> P t \<Longrightarrow> Q (f t)) \<Longrightarrow> (\<And>t. t \<in> set ts \<Longrightarrow> \<not> P t \<Longrightarrow> \<not> Q t) \<Longrightarrow>
   update_where Q g (update_where P f ts) = update_where P (\<lambda>t. g (f t)) ts"
  by (auto simp: update_where_def)

lemma update_timer_Inr [tx_inv]:
  "update_timer i f (d, fs) = (Inr u, d', fs') \<longleftrightarrow>
     \<not> faulty fs \<and> d' = d\<lparr>sl_timers := update_where (\<lambda>t. ti_id t = i) f (sl_timers d)\<rparr> \<and> fs' = tl fs"
  by (auto simp: update_timer_def tx_inv)

lemma evaluate_body:
  fixes d :: "'x sla_db_scheme"
  assumes act: "\<And>u. u \<in> set (sl_timers d) \<Longrightarrow> ti_id u = i \<Longrightarrow> ti_state u = TActive"
    and run: "tx_seq (if warn then tx_seq (update_timer i (warned_row now n))
                  (append_runtime_event True stamp r1 t' sla_approaching now) else tx_ret ())
                (if due then
                   tx_seq (update_timer i (breached_row now n))
                     (tx_seq (append_runtime_event True stamp r2 t' sla_breached now) (tx_ret (warn, True)))
                 else tx_seq (sql_exec (\<lambda>d. d\<lparr>sl_timers := update_where (\<lambda>u. ti_id u = i \<and> ti_state u = TActive)
                       (\<lambda>u. u\<lparr>ti_elapsed := n\<rparr>) (sl_timers d)\<rparr>)) (tx_ret (warn, False))) (d, fs)
       = (Inr (w, b) :: 'e err + bool \<times> bool, d', fs')"
  shows "w = warn \<and> b = due \<and>
    sl_timers d' = update_where (\<lambda>u. ti_id u = i) (evaluated_row now n w b) (sl_timers d) \<and>
    (\<exists>rs. db_events d' = db_events d @ rs \<and>
       map r_type rs = (if w then [sla_approaching] else []) @ (if b then [sla_breached] else []))"
proof -
  let ?up = "\<lambda>P f. update_where P f (sl_timers d)"
  obtain d1 fs1 where s1: "(if warn then tx_seq (update_timer i (warned_row now n))
        (append_runtime_event True stamp r1 t' sla_approaching now) else tx_ret ()) (d, fs) = (Inr () :: 'e err + unit, d1, fs1)"
    and s2: "(if due then tx_seq (update_timer i (breached_row now n))
                     (tx_seq (append_runtime_event True stamp r2 t' sla_breached now) (tx_ret (warn, True)))
                 else tx_seq (sql_exec (\<lambda>d. d\<lparr>sl_timers := update_where (\<lambda>u. ti_id u = i \<and> ti_state u = TActive)
                       (\<lambda>u. u\<lparr>ti_elapsed := n\<rparr>) (sl_timers d)\<rparr>)) (tx_ret (warn, False))) (d1, fs1)
       = (Inr (w, b) :: 'e err + bool \<times> bool, d', fs')"
    using run by (auto simp: tx_bind_Inr)
  have d1: "sl_timers d1 = (if warn then ?up (\<lambda>u. ti_id u = i) (warned_row now n) else sl_timers d) \<and>
      (\<exists>rs. db_events d1 = db_events d @ rs \<and> map r_type rs = (if warn then [sla_approaching] else []))"
  proof (cases warn)
    case True
    then obtain d0 fs0 where "update_timer i (warned_row now n) (d, fs) = (Inr () :: 'e err + unit, d0, fs0)"
      and a: "append_runtime_event True stamp r1 t' sla_approaching now (d0, fs0) = (Inr () :: 'e err + unit, d1, fs1)"
      using s1 by (auto simp: tx_bind_Inr)
    with append_runtime_Inr [OF a] show ?thesis using True by (auto simp: tx_inv)
  next
    case False
    then show ?thesis using s1 by (auto simp: tx_inv)
  qed
  then obtain rs where rs: "db_events d1 = db_events d @ rs" "map r_type rs = (if warn then [sla_approaching] else [])" by blast
  show ?thesis
  proof (cases due)
    case True
    then obtain d0 fs0 fs2 where u: "update_timer i (breached_row now n) (d1, fs1) = (Inr () :: 'e err + unit, d0, fs0)"
      and a: "append_runtime_event True stamp r2 t' sla_breached now (d0, fs0) = (Inr () :: 'e err + unit, d', fs2)" and wb: "w = warn" "b = True"
      using s2 by (auto simp: tx_bind_Inr tx_ret_Inr)
    have "sl_timers d' = ?up (\<lambda>u. ti_id u = i) (evaluated_row now n w b)"
      using append_runtime_Inr [OF a] u d1 wb
      by (auto simp: tx_inv evaluated_row_def Let_def warned_row_def update_where_def)
    moreover have "\<exists>r. db_events d' = db_events d1 @ [r] \<and> r_type r = sla_breached"
      using append_runtime_Inr [OF a] u by (auto simp: tx_inv)
    ultimately show ?thesis using True wb rs by auto
  next
    case False
    then have wb: "w = warn" "b = False" and d': "d' = d1\<lparr>sl_timers :=
        update_where (\<lambda>u. ti_id u = i \<and> ti_state u = TActive) (\<lambda>u. u\<lparr>ti_elapsed := n\<rparr>) (sl_timers d1)\<rparr>"
      using s2 by (auto simp: tx_inv)
    have "sl_timers d' = ?up (\<lambda>u. ti_id u = i) (evaluated_row now n w b)"
      unfolding d' using d1 wb act
      by (cases warn) (auto simp: evaluated_row_def Let_def warned_row_def update_where_def)
    then show ?thesis using False wb rs d' by auto
  qed
qed

lemma active_timerD:
  "active_timer i d = Some t \<Longrightarrow> t \<in> set (sl_timers d) \<and> ti_id t = i \<and> ti_state t = TActive"
  by (auto simp: active_timer_def split: option.splits if_splits dest: lookup_key_Some)

lemma evaluate_one_Inr:
  assumes ok: "timers_ok (sl_timers d)" and t: "active_timer i d = Some t"
    and run: "evaluate_one zones True stamp rids i now (d, fs) = (Inr (w, b), d', fs')"
  shows "\<exists>q fs1 fs2. load_policy_for_instance zones (ti_workspace t) (ti_policy t) (ti_target t) (d, fs1) = (Inr q, d, fs2) \<and>
    w = must_warn q (evaluated_elapsed (rp_calendar q) now t) t \<and> b = is_due now t \<and>
    sl_timers d' = update_where (\<lambda>u. ti_id u = i)
      (evaluated_row now (evaluated_elapsed (rp_calendar q) now t) w b) (sl_timers d) \<and>
    (\<exists>rs. db_events d' = db_events d @ rs \<and>
       map r_type rs = (if w then [sla_approaching] else []) @ (if b then [sla_breached] else []))"
proof -
  have act: "ti_state u = TActive" if "u \<in> set (sl_timers d)" "ti_id u = i" for u
    using key_unique [of ti_id "sl_timers d" u t] ok active_timerD [OF t] that by (auto simp: timers_ok_def)
  from run t obtain q d1 fs1 fs2 fs3 where
      q: "load_policy_for_instance zones (ti_workspace t) (ti_policy t) (ti_target t) (d, fs1) = (Inr q, d1, fs2)"
    and body: "(let elapsed = evaluated_elapsed (rp_calendar q) now t; t' = t\<lparr>ti_elapsed := elapsed\<rparr>;
               warn = must_warn q elapsed t
           in tx_seq (if warn then tx_seq (update_timer i (warned_row now elapsed))
                  (append_runtime_event True stamp (fst rids) t' sla_approaching now) else tx_ret ())
                (if is_due now t then
                   tx_seq (update_timer i (breached_row now elapsed))
                     (tx_seq (append_runtime_event True stamp (snd rids) t' sla_breached now) (tx_ret (warn, True)))
                 else tx_seq (sql_exec (\<lambda>d. d\<lparr>sl_timers := update_where (\<lambda>u. ti_id u = i \<and> ti_state u = TActive)
                       (\<lambda>u. u\<lparr>ti_elapsed := elapsed\<rparr>) (sl_timers d)\<rparr>)) (tx_ret (warn, False)))) (d1, fs2)
       = (Inr (w, b) :: sla_error err + bool \<times> bool, d', fs3)"
    by (auto simp: evaluate_one_def with_tx_Inr tx_bind_Inr [where m = "sql _"] sql_Inr tx_bind_Inr [where m = "load_policy_for_instance _ _ _ _"])
  have d1: "d1 = d" using reads_onlyD [OF load_instance_reads q] .
  from evaluate_body [OF act body [unfolded Let_def d1]] q show ?thesis unfolding d1 by blast
qed

section \<open>A workspace with one policy\<close>

definition demo_env :: sla_env where
  "demo_env = \<lparr> sv_zones = (\<lambda>_. None),
     sv_ids = (\<lambda>r k. (case k of FirstResponse \<Rightarrow> ''sla_first'' | NextResponse \<Rightarrow> ''sla_next'' | Resolution \<Rightarrow> ''sla_resolution'')),
     sv_rids = (\<lambda>now i. (''evt_a'' @ i, ''evt_b'' @ i)), sv_stamp = (\<lambda>_. ''now''), sv_log = True, sv_busy = True \<rparr>"

definition demo_start :: int where "demo_start = 20671 * day_ns + hours 10"

definition demo_policy :: policy_row where
  "demo_policy = \<lparr> po_id = ''pol_1'', po_workspace = ''wrk_1'', po_calendar = None, po_pause = [''waiting_for_customer''],
     po_warning = 80, po_enabled = True, po_created = 0 \<rparr>"

definition demo_subject :: subject where
  "demo_subject = \<lparr> sj_id = ''cnv_1'', sj_workspace = ''wrk_1'', sj_priority = ''normal'', sj_state = ''open'',
     sj_inbox = ''inb_1'', sj_policy = None, sj_created = demo_start \<rparr>"

definition demo_event :: "string \<Rightarrow> (string \<times> json) list \<Rightarrow> int \<Rightarrow> event_row" where
  "demo_event ty fields_of at = \<lparr> r_id = ''evt_1'', r_workspace = ''wrk_1'', r_sequence = 1, r_type = ty,
     r_entity_type = ''conversation'', r_entity_id = ''cnv_1'', r_actor_type = ''system'', r_actor_id = '''',
     r_causation = '''', r_request = '''', r_occurred = at, r_data = JObj fields_of \<rparr>"

definition demo_sla :: sla_db where
  "demo_sla = \<lparr> db_seqs = (\<lambda>w. if w = ''wrk_1'' then Some 2 else None),
     db_events = [demo_event ''conversation.created'' [] demo_start], db_notify = [],
     cn_cursors = (\<lambda>_. None), cn_importing = (\<lambda>_. False), sl_timers = [], sl_conversations = [demo_subject], sl_tickets = [],
     sl_inboxes = [(''inb_1'', None)], sl_policies = [demo_policy],
     sl_targets = [\<lparr> tg_policy = ''pol_1'', tg_priority = ''normal'', tg_first = Some 60, tg_next = Some 30, tg_resolution = Some 600 \<rparr>],
     sl_calendars = [], sl_holidays = [] \<rparr>"

text \<open>The timers of the created conversation.\<close>

definition demo_running :: sla_db where
  "demo_running = sla_run demo_env [(Handle (demo_event ''conversation.created'' [] demo_start), [])] demo_sla"

text \<open>The same with the first-response timer only.\<close>

definition demo_first :: sla_db where
  "demo_first = demo_running\<lparr>sl_timers := filter (\<lambda>t. ti_kind t = FirstResponse) (sl_timers demo_running)\<rparr>"

section \<open>The properties\<close>

text \<open>
  The timer table is consistent after any operations in any order with any failures:
  ids are unique, there is at most one timer for each subject and kind, every timer has
  exactly one subject, and its columns agree with its state (a running timer has a deadline
  and a start, a paused or met one has neither, a settled one its time).
\<close>

theorem sla_tables_consistent:
  assumes "timers_ok (sl_timers d)"
  shows "timers_ok (sl_timers (sla_run e as d))"
  using book_run [of "{}" d e as] assms by (simp add: book_def)

theorem sla_tables_consistent_witness:
  "timers_ok (sl_timers demo_running) \<and> length (sl_timers demo_running) = 2"
proof
  show "timers_ok (sl_timers demo_running)" unfolding demo_running_def
    by (rule sla_tables_consistent) (simp add: demo_sla_def timers_ok_def)
  show "length (sl_timers demo_running) = 2" by code_simp
qed

text \<open>
  A settled clock is final.  A first-response or resolution timer that was met or
  breached is never changed again, whatever events, pauses, evaluations and table changes
  follow and whatever fails.
\<close>

theorem settled_timer_stays:
  assumes "timers_ok (sl_timers d)" and "t \<in> set (sl_timers d)" and "settled t"
  shows "t \<in> set (sl_timers (sla_run e as d))"
  using book_run [of "{t}" d e as] assms by (simp add: book_def)

definition demo_met :: sla_db where
  "demo_met = sla_run demo_env
     [(Handle (demo_event ''message.created'' [(''author_type'', JStr ''agent'')] (demo_start + minutes 5)), [])] demo_sla"

theorem settled_timer_stays_witness:
  "hd (sl_timers demo_met) \<in> set (sl_timers (sla_run demo_env
     [(Handle (demo_event ''conversation.resolved'' [] (demo_start + minutes 9)), []), (Tick (demo_start + hours 100), [])] demo_met))"
proof (rule settled_timer_stays)
  show "timers_ok (sl_timers demo_met)" by code_simp
  show "settled (hd (sl_timers demo_met))" by code_simp
  have "sl_timers demo_met \<noteq> []" by code_simp
  then show "hd (sl_timers demo_met) \<in> set (sl_timers demo_met)" by (rule hd_in_set)
qed



text \<open>
  Evaluation counts working time twice.  The calendar is open all the time and the
  clock started at 10:00 with a target of 60 minutes.  Evaluated at 10:10, 10:20 and 10:30
  it shows 60 minutes at 10:30 and the warning at 80 per cent has been sent: each evaluation
  adds the whole time since the start to the stored value, because running_since is not
  moved.
\<close>

theorem evaluate_counts_time_twice:
  "map (\<lambda>t. (ti_elapsed t, ti_warned t \<noteq> None)) (sl_timers (fold (\<lambda>n d. sla_step demo_env (Tick (demo_start + minutes n), []) d) [10, 20, 30] demo_first))
   = [(60, True)]"
  by code_simp

text \<open>
  An internal note stops the response clock.  The event of a note differs from that
  of a reply only in its kind, which the consumer does not read: a note of an agent marks
  the first response as met although the customer has seen no answer.
\<close>

theorem internal_note_meets_first_response:
  "map (\<lambda>t. (ti_id t, ti_state t)) (sl_timers (sla_run demo_env [(Handle (demo_event ''message.created''
       [(''conversation_id'', JStr ''cnv_1''), (''kind'', JStr ''note''), (''author_type'', JStr ''agent'')] (demo_start + minutes 5)), [])] demo_running))
   = [(''sla_first'', TMet), (''sla_resolution'', TActive)]"
  by code_simp

text \<open>
  PauseSubject never pauses anything.  With a driver that refuses a second statement
  while the rows of the first are open, pausing a subject that has an active timer fails
  and leaves the database as it was.
\<close>

theorem pause_subject_fails:
  assumes "\<exists>t \<in> set (sl_timers d). ti_workspace t = w \<and> about ty i t \<and> ti_state t = TActive"
  shows "\<exists>e fs'. pause_subject zones True w ty i reason now (d, fs) = (Inl e, d, fs')"
proof -
  let ?ts = "filter (\<lambda>t. ti_workspace t = w \<and> about ty i t \<and> ti_state t = TActive) (sl_timers d)"
  obtain t ts where ts: "?ts = t # ts" using assms by (cases ?ts) (auto simp: filter_empty_conv)
  show ?thesis using ts
    by (auto simp: pause_subject_def with_tx_def tx_bind_def sql_def pause_timer_def tx_fail_def split: if_splits)
qed

theorem pause_subject_fails_witness:
  "\<exists>e fs'. pause_subject (\<lambda>_. None) True ''wrk_1'' ''conversation'' ''cnv_1'' ''maintenance'' demo_start (demo_running, [])
     = (Inl e, demo_running, fs')"
proof (rule pause_subject_fails)
  have "list_ex (\<lambda>t. ti_workspace t = ''wrk_1'' \<and> about ''conversation'' ''cnv_1'' t \<and> ti_state t = TActive) (sl_timers demo_running)"
    by code_simp
  then show "\<exists>t \<in> set (sl_timers demo_running). ti_workspace t = ''wrk_1'' \<and> about ''conversation'' ''cnv_1'' t \<and> ti_state t = TActive"
    by (simp add: list_ex_iff)
qed

text \<open>An event the handler always refuses is never passed by the checkpoint.\<close>

lemma drain_stuck:
  fixes d :: "'x consumer_db_scheme"
  assumes "log_inv d" "filter (\<lambda>q. cursor_of name w d < r_sequence q) (rows_of d w) = r # rest"
    and "\<And>d1 fs1. P d1 \<Longrightarrow> \<exists>e fs2. handle r (d1, fs1) = (Inl e, d1, fs2)" and "P d" "P (insert_cursor now name w d)"
  shows "let d' = fst (consume_workspace handle locked now name w (d, fs)) in d' = d \<or> d' = insert_cursor now name w d"
proof -
  let ?d1 = "insert_cursor now name w d"
  obtain a t where at: "cn_cursors ?d1 (name, w) = Some (a, t)" by (cases "cn_cursors d (name, w)") (auto simp: insert_cursor_def)
  have a: "a = cursor_of name w d" using at cursor_insert [of name w now name w d] by (simp add: cursor_of_def)
  have "since ?d1 w a consumer_page = take 200 (r # rest)"
    using elog.page [of ?d1 200 w a] assms(1,2) a by (simp add: consumer_page_def)
  then obtain rs where rs: "since ?d1 w a consumer_page = r # rs" by simp
  have "fst (snd (consume_pages consumer_turn handle now name w a (?d1, gs))) = ?d1" for gs
  proof (cases "faulty gs")
    case False
    obtain e fs2 where "handle r (?d1, tl gs) = (Inl e, ?d1, fs2)" using assms(3) [OF assms(5)] by blast
    then show ?thesis using False rs by (simp add: consumer_turn_def numeral_eq_Suc tx_bind_def sql_def)
  qed (simp add: consumer_turn_def numeral_eq_Suc tx_bind_def sql_def)
  then show ?thesis using at
    by (auto simp: Let_def consume_workspace_def drain_consumer_def tx_bind_def sql_def tx_ret_def tx_fail_def
        split: option.split prod.split)
qed

text \<open>
  Without an enabled policy the SLA consumer of a workspace stands still.  When the
  next event of the log is the creation of a conversation for which no policy is found, no
  number of consumer turns, at whatever times and with whatever failures, moves the
  checkpoint past that event or starts a timer.
\<close>

theorem sla_consumer_stands_still:
  fixes d :: "'x sla_db_scheme"
  assumes "log_inv d" and "filter (\<lambda>q. cursor_of ''sla'' w d < r_sequence q) (rows_of d w) = r # rest"
    and "r_type r = ''conversation.created''" and "r_workspace r = w"
    and "conversation_subject w (r_entity_id r) d = Some (s, None)"
  shows "let d' = fold (\<lambda>(locked, now, fs) d. fst (sla_turn zones ids locked now w (d, fs))) turns d
    in cursor_of ''sla'' w d' = cursor_of ''sla'' w d \<and> sl_timers d' = sl_timers d"
proof -
  define P where "P = (\<lambda>d :: 'x sla_db_scheme. conversation_subject w (r_entity_id r) d = Some (s, None))"
  have ins: "P (insert_cursor now ''sla'' w d) = P d" for now and d :: "'x sla_db_scheme"
    by (auto simp: P_def insert_cursor_def conversation_subject_def default_policy_def split: option.splits list.splits)
  have fails: "\<exists>e fs2. process_event zones (ids r) r (d1, fs1) = (Inl e, d1, fs2)" if "P d1" for fs1 and d1 :: "'x sla_db_scheme"
    using that assms(3,4)
    by (auto simp: P_def process_event_def Let_def ensure_conversation_def with_tx_def tx_bind_def sql_def scan_text_def tx_fail_def)
  define J where "J = (\<lambda>d' :: 'x sla_db_scheme. log_inv d' \<and> P d' \<and> cursor_of ''sla'' w d' = cursor_of ''sla'' w d
    \<and> rows_of d' w = rows_of d w \<and> sl_timers d' = sl_timers d)"
  have step: "J (fst (sla_turn zones ids locked now w (d', fs)))" if "J d'" for locked now fs d'
  proof -
    have "let d2 = fst (sla_turn zones ids locked now w (d', fs)) in d2 = d' \<or> d2 = insert_cursor now ''sla'' w d'"
      unfolding sla_turn_def
      by (rule drain_stuck [where P = P and r = r and rest = rest]) (use that assms(2) fails ins in \<open>auto simp: J_def\<close>)
    then show ?thesis using that ins by (auto simp: J_def Let_def)
  qed
  have "J (fold (\<lambda>(locked, now, fs) d. fst (sla_turn zones ids locked now w (d, fs))) turns d')" if "J d'" for d'
    using that by (induction turns arbitrary: d') (auto intro: step)
  moreover have "J d" using assms(1,5) by (simp add: J_def P_def)
  ultimately show ?thesis by (auto simp: J_def Let_def)
qed

definition demo_no_policy :: sla_db where
  "demo_no_policy = demo_sla\<lparr>sl_policies := []\<rparr>"

theorem sla_consumer_stands_still_witness:
  "let d' = fold (\<lambda>(locked, now, fs) d. fst (sla_turn (\<lambda>_. None) (\<lambda>_ _. ''sla_1'') locked now ''wrk_1'' (d, fs)))
       [(True, 5, []), (True, 6, [False, True])] demo_no_policy
   in cursor_of ''sla'' ''wrk_1'' d' = cursor_of ''sla'' ''wrk_1'' demo_no_policy \<and> sl_timers d' = sl_timers demo_no_policy"
proof (rule sla_consumer_stands_still)
  show "log_inv demo_no_policy"
    by (auto simp: log_inv_def demo_no_policy_def demo_sla_def rows_of_def next_of_def demo_event_def)
  show "filter (\<lambda>q. cursor_of ''sla'' ''wrk_1'' demo_no_policy < r_sequence q) (rows_of demo_no_policy ''wrk_1'')
      = demo_event ''conversation.created'' [] demo_start # []"
    by (simp add: demo_no_policy_def demo_sla_def rows_of_def cursor_of_def demo_event_def)
  show "conversation_subject ''wrk_1'' (r_entity_id (demo_event ''conversation.created'' [] demo_start)) demo_no_policy = Some (demo_subject, None)"
    by (simp add: demo_no_policy_def demo_sla_def demo_event_def conversation_subject_def demo_subject_def default_policy_def coalesce_def)
qed (simp_all add: demo_event_def)

end
