(* ===== verification/AuditLog.thy ===== *)
theory AuditLog
  imports Events "HOL-Library.Product_Lexorder"
begin

text \<open>
  Who may act and what is written down about it: the actor of a request
  (src/internal/authorization/actor.go, inbox.go), the audit log (src/internal/audit/audit.go)
  with its writes, its pages and its retention, and the locale \<open>keyset\<close>: the contract of every
  list the program serves in pages after the key of the last row.
\<close>

section \<open>Actors\<close>

text \<open>
  struct Actor; a request without one is \<open>None\<close>.  \<open>ac_inboxes = None\<close> is a nil slice, access to
  the whole workspace.
\<close>

record actor =
  ac_user :: string
  ac_member :: string
  ac_workspace :: string
  ac_role :: string
  ac_capabilities :: "string list"
  ac_inboxes :: "string list option"

definition all_capabilities :: "string list" where
  "all_capabilities = [''conversation.read'', ''conversation.reply'', ''conversation.assign'', ''conversation.delete'',
     ''customer.read'', ''customer.read_sensitive'', ''customer.merge'', ''company.manage'', ''ticket.manage'',
     ''widget.manage'', ''portal.manage'', ''knowledgebase.manage'', ''feedback.moderate'', ''survey.manage'',
     ''automation.manage'', ''task.manage'', ''sla.manage'', ''integration.manage'', ''report.read'', ''audit.read'',
     ''member.manage'', ''workspace.manage'', ''workspace.manage_security'']"

definition can :: "actor option \<Rightarrow> string \<Rightarrow> bool" where
  "can a c = (case a of None \<Rightarrow> False | Some x \<Rightarrow> ac_role x = ''owner'' \<or> c \<in> set (ac_capabilities x))"

definition can_see_inbox :: "actor option \<Rightarrow> string \<Rightarrow> bool" where
  "can_see_inbox a i = (case a of None \<Rightarrow> True | Some x \<Rightarrow>
     (case ac_inboxes x of None \<Rightarrow> True | Some l \<Rightarrow> i \<in> set l))"

section \<open>The audit log\<close>

record audit_entry =
  ae_workspace :: string
  ae_actor_type :: string
  ae_actor_id :: string
  ae_actor_name :: string
  ae_action :: string
  ae_entity_type :: string
  ae_entity_id :: string
  ae_request :: string
  ae_ip :: string
  ae_metadata :: "json option"

text \<open>A row of audit_logs; a NULL column is the empty string.\<close>

record audit_row =
  au_id :: string
  au_entry :: audit_entry
  au_occurred :: int

record audit_db = event_db +
  au_rows :: "audit_row list"

definition audit_actors :: "string list" where
  "audit_actors = [''user'', ''customer'', ''system'', ''automation'', ''api_key'']"

text \<open>RecordTx: validation, the defaults, one INSERT.\<close>

definition record_tx :: "string \<Rightarrow> int \<Rightarrow> audit_entry \<Rightarrow> ('x audit_db_scheme, 'e, unit) tx" where
  "record_tx rid now e =
     (if ae_workspace e = '''' then tx_fail (Msg ''audit: workspace id is required'')
      else if ae_action e = '''' then tx_fail (Msg ''audit: action is required'')
      else let e' = e\<lparr>ae_actor_type := (if ae_actor_type e = '''' then ''system'' else ae_actor_type e),
             ae_metadata := Some (or_empty_object (ae_metadata e))\<rparr>
        in sql_checked (\<lambda>d. if rid \<in> au_id ` set (au_rows d) \<or> ae_actor_type e' \<notin> set audit_actors then None
             else Some ((), d\<lparr>au_rows := au_rows d @ [\<lparr> au_id = rid, au_entry = e', au_occurred = now \<rparr>]\<rparr>)))"

text \<open>Record: the same in a transaction of its own.\<close>

definition record_audit_entry :: "string \<Rightarrow> int \<Rightarrow> audit_entry \<Rightarrow> ('x audit_db_scheme, 'e, unit) tx" where
  "record_audit_entry rid now e = with_tx (record_tx rid now e)"

record audit_filter =
  fl_actor :: string
  fl_action :: string
  fl_entity_type :: string
  fl_entity_id :: string

definition matches :: "string \<Rightarrow> audit_filter \<Rightarrow> audit_row \<Rightarrow> bool" where
  "matches w f r \<longleftrightarrow> ae_workspace (au_entry r) = w \<and>
     (fl_actor f = '''' \<or> ae_actor_id (au_entry r) = fl_actor f) \<and>
     (fl_action f = '''' \<or> ae_action (au_entry r) = fl_action f) \<and>
     (fl_entity_type f = '''' \<or> ae_entity_type (au_entry r) = fl_entity_type f) \<and>
     (fl_entity_id f = '''' \<or> ae_entity_id (au_entry r) = fl_entity_id f)"

definition audit_key :: "audit_row \<Rightarrow> int \<times> string" where
  "audit_key r = (au_occurred r, au_id r)"

definition max_page_size :: int where "max_page_size = 200"

text \<open>The moment List starts from without a cursor: 9999-12-31 23:59:59.999999999.\<close>

definition far_future :: int where "far_future = 253402300799999999999"

text \<open>List: strictly below the cursor, newest first.\<close>

definition list_audit :: "'x audit_db_scheme \<Rightarrow> string \<Rightarrow> audit_filter \<Rightarrow> (int \<times> string) option \<Rightarrow> int \<Rightarrow> audit_row list" where
  "list_audit d w f before limit =
     (let n = (if limit \<le> 0 \<or> limit > max_page_size then max_page_size else limit);
          b = (case before of None \<Rightarrow> (far_future, '''') | Some k \<Rightarrow> k)
      in take (nat n) (rev (sort_key audit_key (filter (\<lambda>r. matches w f r \<and> audit_key r < b) (au_rows d)))))"

text \<open>The rows WriteCSV exports.\<close>

definition export_audit :: "'x audit_db_scheme \<Rightarrow> string \<Rightarrow> audit_filter \<Rightarrow> audit_row list" where
  "export_audit d w f = sort_key audit_key (filter (matches w f) (au_rows d))"

text \<open>RetentionSweep; \<open>days\<close> and \<open>held\<close> are the settings and legal holds of a workspace.\<close>

definition audit_retention :: "int \<Rightarrow> (string \<Rightarrow> int) \<Rightarrow> (string \<Rightarrow> bool) \<Rightarrow> ('x audit_db_scheme, 'e, int) tx" where
  "audit_retention now days held = sql (\<lambda>d.
     let old = (\<lambda>r. let w = ae_workspace (au_entry r) in days w > 0 \<and> au_occurred r < now - days w * 86400000000000 \<and> \<not> held w)
     in (int (length (filter old (au_rows d))), d\<lparr>au_rows := delete_where old (au_rows d)\<rparr>))"

section \<open>Lists in pages\<close>

text \<open>
  A list is served in pages: \<open>rows d\<close> is the whole list in the order of the pages, \<open>page d b n\<close>
  the first \<open>n\<close> rows after the key \<open>b\<close> (from the start without one).  Strict order of the keys
  is all a reader needs in order to see every row once.
\<close>

locale keyset =
  fixes valid :: "'d \<Rightarrow> bool"
    and rows :: "'d \<Rightarrow> 'r list"
    and key :: "'r \<Rightarrow> 'k"
    and before :: "'k \<Rightarrow> 'k \<Rightarrow> bool"
    and page :: "'d \<Rightarrow> 'k option \<Rightarrow> nat \<Rightarrow> 'r list"
    and biggest :: nat
  assumes strict: "before a b \<Longrightarrow> \<not> before b a"
    and trans: "before a b \<Longrightarrow> before b c \<Longrightarrow> before a c"
    and ordered: "valid d \<Longrightarrow> sorted_wrt (\<lambda>a b. before (key a) (key b)) (rows d)"
    and first_page: "valid d \<Longrightarrow> 0 < n \<Longrightarrow> n \<le> biggest \<Longrightarrow> page d None n = take n (rows d)"
    and later_page: "valid d \<Longrightarrow> 0 < n \<Longrightarrow> n \<le> biggest \<Longrightarrow> r \<in> set (rows d) \<Longrightarrow>
      page d (Some (key r)) n = take n (filter (\<lambda>q. before (key r) (key q)) (rows d))"
begin

lemma filter_after:
  "sorted_wrt (\<lambda>a b. before (key a) (key b)) (xs @ r # ys) \<Longrightarrow>
   filter (\<lambda>q. before (key r) (key q)) (xs @ r # ys) = ys"
  by (auto simp: sorted_wrt_append filter_empty_conv dest: strict)

text \<open>The page after row \<open>k\<close> starts with row \<open>k + 1\<close>.\<close>

lemma page_after:
  assumes "valid d" "0 < n" "n \<le> biggest" "k < length (rows d)"
  shows "page d (Some (key (rows d ! k))) n = take n (drop (Suc k) (rows d))"
proof -
  have "rows d = take k (rows d) @ rows d ! k # drop (Suc k) (rows d)"
    using assms(4) by (rule id_take_nth_drop)
  then have "filter (\<lambda>q. before (key (rows d ! k)) (key q)) (rows d) = drop (Suc k) (rows d)"
    using filter_after ordered [OF assms(1)] by metis
  then show ?thesis using later_page [OF assms(1-3), of "rows d ! k"] assms(4) by simp
qed

text \<open>A reader that goes on from the last row of each full page sees the list once, in order.\<close>

fun read_pages :: "nat \<Rightarrow> 'd \<Rightarrow> 'k option \<Rightarrow> nat \<Rightarrow> 'r list" where
  "read_pages 0 d b n = []"
| "read_pages (Suc m) d b n =
     (let p = page d b n in if length p < n then p else p @ read_pages m d (Some (key (last p))) n)"

lemma read_pages_from:
  assumes "valid d" "0 < n" "n \<le> biggest"
  shows "k \<le> length (rows d) \<Longrightarrow> length (rows d) - k < m * n \<Longrightarrow>
    (b = None \<and> k = 0 \<or> (\<exists>j. k = Suc j \<and> j < length (rows d) \<and> b = Some (key (rows d ! j)))) \<Longrightarrow>
    read_pages m d b n = drop k (rows d)"
proof (induction m arbitrary: k b)
  case (Suc m)
  have p: "page d b n = take n (drop k (rows d))"
    using Suc.prems(3) first_page [OF assms] page_after [OF assms] by auto
  show ?case
  proof (cases "length (rows d) - k < n")
    case True
    then show ?thesis by (simp add: p)
  next
    case False
    let ?j = "k + n - 1"
    have full: "length (take n (drop k (rows d))) = n" using False by simp
    have j: "Suc ?j = k + n" "?j < length (rows d)" using False assms(2) by auto
    have "last (take n (drop k (rows d))) = rows d ! ?j"
      using False assms(2) by (subst last_conv_nth) auto
    moreover have "read_pages m d (Some (key (rows d ! ?j))) n = drop (k + n) (rows d)"
      by (rule Suc.IH) (use False j Suc.prems in \<open>auto intro!: exI [of _ ?j]\<close>)
    moreover have "take n (drop k (rows d)) @ drop (k + n) (rows d) = drop k (rows d)"
      by (metis add.commute append_take_drop_id drop_drop)
    ultimately show ?thesis using full by (simp add: p Let_def)
  qed
qed simp

lemma read_all:
  "valid d \<Longrightarrow> 0 < n \<Longrightarrow> n \<le> biggest \<Longrightarrow> length (rows d) < m * n \<Longrightarrow> read_pages m d None n = rows d"
  using read_pages_from [where k = 0 and b = None] by simp

end

section \<open>The audit log in pages\<close>

definition audit_valid :: "'x audit_db_scheme \<Rightarrow> bool" where
  "audit_valid d \<longleftrightarrow> distinct (map au_id (au_rows d)) \<and> (\<forall>r \<in> set (au_rows d). au_occurred r < far_future)"

definition audit_list :: "string \<Rightarrow> audit_filter \<Rightarrow> 'x audit_db_scheme \<Rightarrow> audit_row list" where
  "audit_list w f d = rev (sort_key audit_key (filter (matches w f) (au_rows d)))"

lemma sorted_key_strict:
  fixes key :: "'r \<Rightarrow> 'k :: linorder"
  assumes "sorted (map key xs)" "distinct (map key xs)"
  shows "sorted_wrt (\<lambda>a b. key a < key b) xs"
  using assms by (induction xs) (auto simp: order_less_le)

lemma sorted_rev_strict:
  fixes key :: "'r \<Rightarrow> 'k :: linorder"
  assumes "sorted (map key xs)" "distinct (map key xs)"
  shows "sorted_wrt (\<lambda>a b. key b < key a) (rev xs)"
  using sorted_key_strict [OF assms] by (simp add: sorted_wrt_rev)

lemma rev_sort_filter:
  fixes key :: "'r \<Rightarrow> 'k :: linorder"
  shows "rev (sort_key key (filter P xs)) = filter P (rev (sort_key key xs))"
  by (metis filter_sort rev_filter)

lemma page_of_rest:
  fixes key :: "'r \<Rightarrow> 'k :: linorder"
  shows "rev (sort_key key (filter (\<lambda>r. P r \<and> Q r) t)) = filter Q (rev (sort_key key (filter P t)))"
  by (simp add: rev_sort_filter [symmetric] conj_commute)

interpretation audit_pages: keyset audit_valid "audit_list w f" audit_key "\<lambda>a b. b < a"
  "\<lambda>d b n. list_audit d w f b (int n)" 200 for w f
proof
  fix d :: "'x audit_db_scheme" and n :: nat and r
  assume v: "audit_valid d"
  have "inj_on au_id (set (au_rows d))" "distinct (au_rows d)"
    using v by (auto simp: audit_valid_def distinct_map)
  then have "distinct (map audit_key (sort_key audit_key (filter (matches w f) (au_rows d))))"
    by (auto simp: distinct_map audit_key_def inj_on_def)
  then show "sorted_wrt (\<lambda>a b. audit_key b < audit_key a) (audit_list w f d)"
    unfolding audit_list_def by (intro sorted_rev_strict) simp_all
  assume n: "0 < n" "n \<le> 200"
  have "filter (\<lambda>r. matches w f r \<and> audit_key r < (far_future, '''')) (au_rows d) = filter (matches w f) (au_rows d)"
    using v by (auto intro!: filter_cong simp: audit_valid_def audit_key_def less_prod_def)
  then show "list_audit d w f None (int n) = take n (audit_list w f d)"
    using n by (simp add: list_audit_def audit_list_def max_page_size_def)
  show "list_audit d w f (Some (audit_key r)) (int n) = take n (filter (\<lambda>q. audit_key q < audit_key r) (audit_list w f d))"
    using n by (simp add: list_audit_def audit_list_def max_page_size_def conj_commute
        flip: rev_sort_filter filter_filter)
qed auto

end
