(* ===== verification/Conversation.thy ===== *)
theory Conversation
  imports AuditLog "HOL-Library.Word"
begin

text \<open>
  Conversations and their messages: the tables of
  src/embedded/migrations/0002_inboxes_and_conversations.sql and the repository functions of
  src/internal/conversation (repository.go, actions_repository.go, the table part of
  editing.go).  Strings are sequences of bytes; white space is that of ASCII.  The members,
  teams, inboxes, tags and customers the functions read are fields of the state.
\<close>

section \<open>State\<close>

record conversation =
  cv_id :: string
  cv_workspace :: string
  cv_inbox :: string
  cv_channel :: string
  cv_subject :: "string option"
  cv_state :: string
  cv_priority :: string
  cv_customer :: "string option"
  cv_visitor :: "string option"
  cv_assignee :: "string option"
  cv_team :: "string option"
  cv_ticket :: "string option"
  cv_count :: int
  cv_preview :: string
  cv_last_at :: int
  cv_last_customer :: "int option"
  cv_snoozed :: "int option"
  cv_created :: int

record message =
  mg_id :: string
  mg_client :: "string option"
  mg_conversation :: string
  mg_workspace :: string
  mg_kind :: string
  mg_author_type :: string
  mg_author :: "string option"
  mg_author_name :: string
  mg_body :: string
  mg_quoted :: "string option"
  mg_delivery :: string
  mg_sequence :: int
  mg_edited :: "int option"
  mg_redacted :: "int option"
  mg_created :: int

record history =
  hs_id :: string
  hs_conversation :: string
  hs_from :: "string option"
  hs_to :: string
  hs_actor_type :: string
  hs_actor :: "string option"
  hs_at :: int

record revision =
  rv_id :: string
  rv_message :: string
  rv_body :: string
  rv_by :: "string option"

record conversation_link =
  lk_id :: string
  lk_workspace :: string
  lk_source :: string
  lk_target :: string
  lk_relation :: string
  lk_created_by :: "string option"
  lk_created :: int

record member =
  mb_id :: string
  mb_workspace :: string
  mb_name :: string
  mb_accepting :: bool

record team =
  tm_id :: string
  tm_workspace :: string
  tm_strategy :: string
  tm_config :: json
  tm_created :: int

record customer =
  cu_id :: string
  cu_workspace :: string
  cu_owner :: "string option"
  cu_language :: string
  cu_attributes :: json

record conv_db = audit_db +
  cd_conversations :: "conversation list"
  cd_messages :: "message list"
  cd_history :: "history list"
  cd_tags :: "(string \<times> string) list"
  cd_followers :: "(string \<times> string) list"
  cd_reads :: "((string \<times> string \<times> string) \<times> int) list"
  cd_revisions :: "revision list"
  cd_links :: "conversation_link list"
  cd_members :: "member list"
  cd_teams :: "team list"
  cd_inboxes :: "(string \<times> string) list"
  cd_tag_names :: "(string \<times> string) list"
  cd_customers :: "customer list"
  cd_inbox_teams :: "(string \<times> string) list"
  cd_team_members :: "(string \<times> string \<times> int) list"
  cd_cursors :: "string \<Rightarrow> int option"

datatype conv_error = ConvNotFound | ErrEmptyBody | ErrInvalidState | ErrInvalidPriority | ErrInvalidAssignee
  | ErrInvalidTeam | ErrInvalidInbox | ErrInvalidMention | ErrTagNotFound | ErrSnoozeInPast
  | ErrInvalidBulkAction | ErrBulkTooLarge | ErrMessageNotFound | ErrNotMessageAuthor | ErrCannotMergeIntoSelf
  | ErrInvalidLinkRelation | ErrLinkToSelf | ErrLinkAlreadyExists

type_synonym ('x, 'a) ctx = "('x conv_db_scheme, conv_error, 'a) tx"

definition valid_states :: "string list" where
  "valid_states = [''new'', ''open'', ''pending'', ''waiting_for_customer'', ''waiting_for_support'',
     ''resolved'', ''closed'', ''spam'']"

definition valid_priorities :: "string list" where
  "valid_priorities = [''low'', ''normal'', ''high'', ''urgent'']"

section \<open>Text\<close>

text \<open>strings.Fields and strings.Join.\<close>

fun split_fields :: "string \<Rightarrow> string \<Rightarrow> string list" where
  "split_fields word [] = (if word = [] then [] else [rev word])"
| "split_fields word (c # s) =
     (if is_space c then (if word = [] then split_fields [] s else rev word # split_fields [] s)
      else split_fields (c # word) s)"

fun join_words :: "string list \<Rightarrow> string" where
  "join_words [] = []"
| "join_words [w] = w"
| "join_words (w # ws) = w @ '' '' @ join_words ws"

text \<open>The bytes E2 80 A6 of the ellipsis.\<close>

definition ellipsis :: string where
  "ellipsis = [CHR 0xE2, CHR 0x80, CHR 0xA6]"

definition preview :: "string \<Rightarrow> string" where
  "preview body = (let b = join_words (split_fields [] body)
     in if length b \<le> 160 then b else take 160 b @ ellipsis)"

text \<open>
  Postgres refuses a text value that is not UTF-8.  A lead byte announces the number of
  continuation bytes; overlong forms and surrogates are refused as well.
\<close>

definition byte :: "char \<Rightarrow> int" where "byte c = of_char c"

definition continuation :: "char \<Rightarrow> bool" where
  "continuation c \<longleftrightarrow> 128 \<le> byte c \<and> byte c < 192"

fun utf8 :: "string \<Rightarrow> bool" where
  "utf8 [] = True"
| "utf8 (a # s) =
     (if byte a < 128 then utf8 s
      else if 194 \<le> byte a \<and> byte a < 224 then
        (case s of b # t \<Rightarrow> continuation b \<and> utf8 t | _ \<Rightarrow> False)
      else if 224 \<le> byte a \<and> byte a < 240 then
        (case s of b # c # t \<Rightarrow> continuation b \<and> continuation c \<and>
             (byte a = 224 \<longrightarrow> 160 \<le> byte b) \<and> (byte a = 237 \<longrightarrow> byte b < 160) \<and> utf8 t
         | _ \<Rightarrow> False)
      else if 240 \<le> byte a \<and> byte a < 245 then
        (case s of b # c # d # t \<Rightarrow> continuation b \<and> continuation c \<and> continuation d \<and>
             (byte a = 240 \<longrightarrow> 144 \<le> byte b) \<and> (byte a = 244 \<longrightarrow> byte b < 144) \<and> utf8 t
         | _ \<Rightarrow> False)
      else False)"

section \<open>Conversations\<close>

definition conversation_row :: "string \<Rightarrow> string \<Rightarrow> 'x conv_db_scheme \<Rightarrow> conversation option" where
  "conversation_row w i d = (case filter (\<lambda>c. cv_workspace c = w \<and> cv_id c = i) (cd_conversations d) of
     [] \<Rightarrow> None | c # _ \<Rightarrow> Some c)"

text \<open>The row of the workspace, hidden when its inbox is not the actor's to see.\<close>

definition visible_row :: "actor option \<Rightarrow> conversation option \<Rightarrow> ('x, conversation) ctx" where
  "visible_row who row = (case row of None \<Rightarrow> tx_fail (Err ConvNotFound)
     | Some c \<Rightarrow> if can_see_inbox who (cv_inbox c) then tx_ret c else tx_fail (Err ConvNotFound))"

definition by_id :: "actor option \<Rightarrow> string \<Rightarrow> string \<Rightarrow> ('x, conversation) ctx" where
  "by_id who w i = tx_bind (sql_read (conversation_row w i)) (visible_row who)"

definition lock_and_load :: "actor option \<Rightarrow> string \<Rightarrow> string \<Rightarrow> ('x, conversation) ctx" where
  "lock_and_load who w i = tx_bind (sql_read (conversation_row w i)) (visible_row who)"

definition lock_and_load_full :: "actor option \<Rightarrow> string \<Rightarrow> string \<Rightarrow> ('x, conversation) ctx" where
  "lock_and_load_full who w i = tx_bind (sql_read (conversation_row w i)) (visible_row who)"

definition lock_conversation :: "actor option \<Rightarrow> string \<Rightarrow> string \<Rightarrow> ('x, unit) ctx" where
  "lock_conversation who w i = tx_seq (tx_bind (sql_read (conversation_row w i)) (visible_row who)) (tx_ret ())"

text \<open>INSERT of a new conversation: state new, priority normal; the channel is checked.\<close>

definition channels :: "string list" where
  "channels = [''widget'', ''portal'', ''email'', ''form'', ''api'', ''manual'']"

definition insert_conversation :: "int \<Rightarrow> string \<Rightarrow> string \<Rightarrow> string \<Rightarrow> string \<Rightarrow> string option \<Rightarrow> string option
    \<Rightarrow> string option \<Rightarrow> ('x, unit) ctx" where
  "insert_conversation now i w inbox channel subj cust visitor = sql_checked (\<lambda>d.
     if i \<in> cv_id ` set (cd_conversations d) \<or> channel \<notin> set channels \<or> inbox \<notin> fst ` set (cd_inboxes d) then None
     else Some ((), d\<lparr>cd_conversations := cd_conversations d @ [\<lparr> cv_id = i, cv_workspace = w, cv_inbox = inbox,
       cv_channel = channel, cv_subject = subj, cv_state = ''new'', cv_priority = ''normal'', cv_customer = cust,
       cv_visitor = visitor, cv_assignee = None, cv_team = None, cv_ticket = None, cv_count = 0, cv_preview = '''',
       cv_last_at = now, cv_last_customer = None, cv_snoozed = None, cv_created = now \<rparr>]\<rparr>))"

definition ids_for_visitor :: "string \<Rightarrow> string \<Rightarrow> 'x conv_db_scheme \<Rightarrow> string list" where
  "ids_for_visitor w v d = map cv_id (filter (\<lambda>c. cv_workspace c = w \<and> cv_visitor c = Some v) (cd_conversations d))"

definition update_conversation :: "string \<Rightarrow> (conversation \<Rightarrow> conversation) \<Rightarrow> ('x, unit) ctx" where
  "update_conversation i f = sql_exec (\<lambda>d. d\<lparr>cd_conversations := update_where (\<lambda>c. cv_id c = i) f (cd_conversations d)\<rparr>)"

definition set_assignee_row :: "string \<Rightarrow> string option \<Rightarrow> ('x, unit) ctx" where
  "set_assignee_row i m = update_conversation i (\<lambda>c. c\<lparr>cv_assignee := m\<rparr>)"

definition set_team_row :: "string \<Rightarrow> string option \<Rightarrow> ('x, unit) ctx" where
  "set_team_row i t = update_conversation i (\<lambda>c. c\<lparr>cv_team := t\<rparr>)"

definition set_inbox_row :: "string \<Rightarrow> string \<Rightarrow> ('x, unit) ctx" where
  "set_inbox_row i inbox = update_conversation i (\<lambda>c. c\<lparr>cv_inbox := inbox\<rparr>)"

definition set_priority_row :: "string \<Rightarrow> string \<Rightarrow> ('x, unit) ctx" where
  "set_priority_row i p = update_conversation i (\<lambda>c. c\<lparr>cv_priority := p\<rparr>)"

definition set_state_row :: "string \<Rightarrow> string \<Rightarrow> ('x, unit) ctx" where
  "set_state_row i st = update_conversation i (\<lambda>c. c\<lparr>cv_state := st, cv_snoozed := None\<rparr>)"

definition snooze_row :: "string \<Rightarrow> int \<Rightarrow> ('x, unit) ctx" where
  "snooze_row i until = update_conversation i (\<lambda>c. c\<lparr>cv_state := ''snoozed'', cv_snoozed := Some until\<rparr>)"

definition snooze_over :: "int \<Rightarrow> conversation \<Rightarrow> bool" where
  "snooze_over now c \<longleftrightarrow> cv_state c = ''snoozed'' \<and> (case cv_snoozed c of None \<Rightarrow> False | Some t \<Rightarrow> t \<le> now)"

text \<open>wakeSnoozed: one UPDATE ... RETURNING id, workspace_id.\<close>

definition wake_rows :: "int \<Rightarrow> ('x, (string \<times> string) list) ctx" where
  "wake_rows now = sql (\<lambda>d.
     (map (\<lambda>c. (cv_id c, cv_workspace c)) (filter (snooze_over now) (cd_conversations d)),
      d\<lparr>cd_conversations := update_where (snooze_over now) (\<lambda>c. c\<lparr>cv_state := ''open'', cv_snoozed := None\<rparr>) (cd_conversations d)\<rparr>))"

definition insert_status_history :: "string \<Rightarrow> int \<Rightarrow> string \<Rightarrow> string \<Rightarrow> string \<Rightarrow> string \<Rightarrow> string \<Rightarrow> ('x, unit) ctx" where
  "insert_status_history i now c from_st to_st actor_type act = sql_checked (\<lambda>d.
     if i \<in> hs_id ` set (cd_history d) \<or> c \<notin> cv_id ` set (cd_conversations d) then None
     else Some ((), d\<lparr>cd_history := cd_history d @ [\<lparr> hs_id = i, hs_conversation = c, hs_from = null_if from_st,
       hs_to = to_st, hs_actor_type = actor_type, hs_actor = null_if act, hs_at = now \<rparr>]\<rparr>))"

section \<open>Messages\<close>

definition messages_of :: "string \<Rightarrow> 'x conv_db_scheme \<Rightarrow> message list" where
  "messages_of c d = filter (\<lambda>m. mg_conversation m = c) (cd_messages d)"

text \<open>coalesce(max(sequence), 0).\<close>

definition last_sequence :: "string \<Rightarrow> 'x conv_db_scheme \<Rightarrow> int" where
  "last_sequence c d = (case map mg_sequence (messages_of c d) of [] \<Rightarrow> 0 | s # ss \<Rightarrow> Max (set (s # ss)))"

definition new_message :: "int \<Rightarrow> string \<Rightarrow> string option \<Rightarrow> string \<Rightarrow> string \<Rightarrow> string \<Rightarrow> string \<Rightarrow> string option \<Rightarrow> string
    \<Rightarrow> string \<Rightarrow> int \<Rightarrow> message" where
  "new_message now i cl c w kind author_type author name body s = \<lparr> mg_id = i, mg_client = cl, mg_conversation = c,
     mg_workspace = w, mg_kind = kind, mg_author_type = author_type, mg_author = author, mg_author_name = name,
     mg_body = body, mg_quoted = None, mg_delivery = ''sent'', mg_sequence = s, mg_edited = None, mg_redacted = None,
     mg_created = now \<rparr>"

definition message_kinds :: "string list" where "message_kinds = [''reply'', ''note'', ''event'']"
definition author_types :: "string list" where "author_types = [''customer'', ''agent'', ''system'', ''automation'']"

text \<open>insertMessage: the next sequence and the INSERT in one statement, RETURNING the row.\<close>

definition insert_message :: "int \<Rightarrow> string \<Rightarrow> string option \<Rightarrow> string \<Rightarrow> string \<Rightarrow> string \<Rightarrow> string \<Rightarrow> string option
    \<Rightarrow> string \<Rightarrow> string \<Rightarrow> ('x, message) ctx" where
  "insert_message now i cl c w kind author_type author name body = sql_checked (\<lambda>d.
     let m = new_message now i cl c w kind author_type author name body (last_sequence c d + 1) in
     if i \<in> mg_id ` set (cd_messages d) \<or> c \<notin> cv_id ` set (cd_conversations d) \<or> (cl \<noteq> None \<and> cl \<in> mg_client ` set (messages_of c d))
        \<or> kind \<notin> set message_kinds \<or> author_type \<notin> set author_types then None
     else Some (m, d\<lparr>cd_messages := cd_messages d @ [m]\<rparr>))"

definition message_by_client_id :: "string \<Rightarrow> string \<Rightarrow> 'x conv_db_scheme \<Rightarrow> message option" where
  "message_by_client_id c cl d = find (\<lambda>m. mg_client m = Some cl) (messages_of c d)"

text \<open>
  touchConversation: the columns of the list view.  A customer's message also opens a new
  conversation.  The preview has to be text.
\<close>

definition touched_row :: "string \<Rightarrow> bool \<Rightarrow> int \<Rightarrow> conversation \<Rightarrow> conversation" where
  "touched_row pv is_customer at c = (if is_customer
     then c\<lparr>cv_count := cv_count c + 1, cv_preview := pv, cv_last_at := at, cv_last_customer := Some at,
        cv_state := (if cv_state c = ''new'' then ''open'' else cv_state c)\<rparr>
     else c\<lparr>cv_count := cv_count c + 1, cv_preview := pv, cv_last_at := at\<rparr>)"

definition touch_conversation :: "string \<Rightarrow> string \<Rightarrow> bool \<Rightarrow> int \<Rightarrow> ('x, unit) ctx" where
  "touch_conversation i pv is_customer at = sql_checked (\<lambda>d. if \<not> utf8 pv then None
     else Some ((), d\<lparr>cd_conversations := update_where (\<lambda>c. cv_id c = i) (touched_row pv is_customer at) (cd_conversations d)\<rparr>))"

definition member_display_name :: "string \<Rightarrow> 'x conv_db_scheme \<Rightarrow> string" where
  "member_display_name i d = (case lookup_key mb_id i (cd_members d) of None \<Rightarrow> '''' | Some m \<Rightarrow> mb_name m)"

definition list_messages :: "string \<Rightarrow> string \<Rightarrow> int \<Rightarrow> 'x conv_db_scheme \<Rightarrow> message list" where
  "list_messages w c after d = sort_key mg_sequence
     (filter (\<lambda>m. mg_workspace m = w \<and> mg_sequence m > after) (messages_of c d))"

text \<open>
  listMessagesPage: one row more than the limit tells whether there is more; a window
  towards older messages is read newest first and turned round.
\<close>

definition list_messages_page :: "string \<Rightarrow> string \<Rightarrow> int \<Rightarrow> int \<Rightarrow> int \<Rightarrow> 'x conv_db_scheme \<Rightarrow> message list \<times> bool" where
  "list_messages_page w c before after limit d =
     (let n = nat (if limit \<le> 0 \<or> limit > 200 then 100 else limit);
          descending = (after = 0);
          keep = (\<lambda>m. mg_workspace m = w \<and>
            (if before > 0 then mg_sequence m < before else if after > 0 then mg_sequence m > after else True));
          rows = sort_key mg_sequence (filter keep (messages_of c d));
          out = take (n + 1) (if descending then rev rows else rows);
          more = length out > n;
          out' = (if more then take n out else out)
      in (if descending then rev out' else out', more))"

section \<open>Tags, followers, reads\<close>

definition add_tag_row :: "string \<Rightarrow> string \<Rightarrow> ('x, unit) ctx" where
  "add_tag_row c t = sql_exec (\<lambda>d. if (c, t) \<in> set (cd_tags d) then d else d\<lparr>cd_tags := cd_tags d @ [(c, t)]\<rparr>)"

definition remove_tag_row :: "string \<Rightarrow> string \<Rightarrow> ('x, unit) ctx" where
  "remove_tag_row c t = sql_exec (\<lambda>d. d\<lparr>cd_tags := delete_where (\<lambda>r. r = (c, t)) (cd_tags d)\<rparr>)"

definition tag_ids_for_many :: "string \<Rightarrow> string list \<Rightarrow> 'x conv_db_scheme \<Rightarrow> string \<Rightarrow> string list" where
  "tag_ids_for_many w cs d c = (if c \<in> set cs \<and> conversation_row w c d \<noteq> None
     then map snd (filter (\<lambda>r. fst r = c) (cd_tags d)) else [])"

definition tag_ids :: "string \<Rightarrow> string \<Rightarrow> 'x conv_db_scheme \<Rightarrow> string list" where
  "tag_ids w c d = tag_ids_for_many w [c] d c"

definition follow_row :: "string \<Rightarrow> string \<Rightarrow> ('x, unit) ctx" where
  "follow_row c m = sql_exec (\<lambda>d. if (c, m) \<in> set (cd_followers d) then d else d\<lparr>cd_followers := cd_followers d @ [(c, m)]\<rparr>)"

definition unfollow_row :: "string \<Rightarrow> string \<Rightarrow> ('x, unit) ctx" where
  "unfollow_row c m = sql_exec (\<lambda>d. d\<lparr>cd_followers := delete_where (\<lambda>r. r = (c, m)) (cd_followers d)\<rparr>)"

text \<open>followerIDsPage, and the loop of followerIDs over pages of 201.\<close>

definition follower_ids_page :: "string \<Rightarrow> string \<Rightarrow> string \<Rightarrow> int \<Rightarrow> 'x conv_db_scheme \<Rightarrow> string list" where
  "follower_ids_page w c before limit d =
     (let n = nat (if limit \<le> 0 \<or> limit > 201 then 101 else limit)
      in if conversation_row w c d = None then []
         else take n (sort (filter (\<lambda>m. before = '''' \<or> before < m) (map snd (filter (\<lambda>r. fst r = c) (cd_followers d))))))"

partial_function (option) follower_ids_loop :: "string \<Rightarrow> string \<Rightarrow> 'x conv_db_scheme \<Rightarrow> string \<Rightarrow> string list \<Rightarrow> string list option" where
  [code]: "follower_ids_loop w c d before out =
     (let page = follower_ids_page w c before 201 d; out' = out @ page
      in if length page < 201 then Some out' else follower_ids_loop w c d (last page) out')"

definition follower_ids :: "string \<Rightarrow> string \<Rightarrow> 'x conv_db_scheme \<Rightarrow> string list option" where
  "follower_ids w c d = follower_ids_loop w c d '''' []"

text \<open>The newest message of a conversation and who has read it.\<close>

definition latest_message_id :: "string \<Rightarrow> string \<Rightarrow> 'x conv_db_scheme \<Rightarrow> string" where
  "latest_message_id w c d = (case rev (sort_key mg_sequence (filter (\<lambda>m. mg_workspace m = w) (messages_of c d))) of
     [] \<Rightarrow> '''' | m # _ \<Rightarrow> mg_id m)"

definition mark_read_row :: "int \<Rightarrow> string \<Rightarrow> string \<Rightarrow> string \<Rightarrow> ('x, unit) ctx" where
  "mark_read_row now m reader_type reader = sql_exec (\<lambda>d.
     if (m, reader_type, reader) \<in> fst ` set (cd_reads d)
     then d\<lparr>cd_reads := update_where (\<lambda>r. fst r = (m, reader_type, reader)) (\<lambda>r. (fst r, now)) (cd_reads d)\<rparr>
     else d\<lparr>cd_reads := cd_reads d @ [((m, reader_type, reader), now)]\<rparr>)"

definition is_read_for_many :: "string \<Rightarrow> string list \<Rightarrow> string \<Rightarrow> string \<Rightarrow> 'x conv_db_scheme \<Rightarrow> string \<Rightarrow> bool option" where
  "is_read_for_many w cs reader_type reader d c =
     (if c \<notin> set cs then None
      else if latest_message_id w c d = '''' then Some True
      else Some ((latest_message_id w c d, reader_type, reader) \<in> fst ` set (cd_reads d)))"

definition is_read :: "string \<Rightarrow> string \<Rightarrow> string \<Rightarrow> string \<Rightarrow> 'x conv_db_scheme \<Rightarrow> bool" where
  "is_read w c reader_type reader d = (is_read_for_many w [c] reader_type reader d c = Some True)"

section \<open>Editing and merging\<close>

definition load_message_for_edit :: "string \<Rightarrow> string \<Rightarrow> string \<Rightarrow> ('x, message) ctx" where
  "load_message_for_edit w c m = tx_bind (sql_read (\<lambda>d. find (\<lambda>r. mg_workspace r = w \<and> mg_id r = m) (messages_of c d)))
     (\<lambda>r. case r of None \<Rightarrow> tx_fail (Err ErrMessageNotFound) | Some x \<Rightarrow> tx_ret x)"

definition insert_revision :: "string \<Rightarrow> string \<Rightarrow> string \<Rightarrow> string \<Rightarrow> ('x, unit) ctx" where
  "insert_revision i m body editor = sql_checked (\<lambda>d. if i \<in> rv_id ` set (cd_revisions d) then None
     else Some ((), d\<lparr>cd_revisions := cd_revisions d @ [\<lparr> rv_id = i, rv_message = m, rv_body = body, rv_by = null_if editor \<rparr>]\<rparr>))"

definition update_message :: "string \<Rightarrow> (message \<Rightarrow> message) \<Rightarrow> ('x, unit) ctx" where
  "update_message i f = sql_exec (\<lambda>d. d\<lparr>cd_messages := update_where (\<lambda>m. mg_id m = i) f (cd_messages d)\<rparr>)"

definition update_message_body :: "int \<Rightarrow> string \<Rightarrow> string \<Rightarrow> ('x, unit) ctx" where
  "update_message_body now m body = update_message m (\<lambda>r. r\<lparr>mg_body := body, mg_edited := Some now\<rparr>)"

definition redact_message_row :: "int \<Rightarrow> string \<Rightarrow> ('x, unit) ctx" where
  "redact_message_row now m = update_message m (\<lambda>r. r\<lparr>mg_body := '''', mg_redacted := Some now\<rparr>)"

text \<open>
  moveMessages: the messages of the source, renumbered in their order onto the end of the
  target, and the preview of the latest of them.
\<close>

definition row_number :: "message list \<Rightarrow> message \<Rightarrow> int" where
  "row_number ms m = int (length (filter (\<lambda>x. mg_sequence x \<le> mg_sequence m) ms))"

definition latest_of :: "message list \<Rightarrow> string \<times> int \<Rightarrow> string \<times> int" where
  "latest_of ms = fold (\<lambda>m (pv, at). if mg_created m > at then (preview (mg_body m), mg_created m) else (pv, at)) ms"

definition moved_row :: "string \<Rightarrow> int \<Rightarrow> message list \<Rightarrow> message \<Rightarrow> message" where
  "moved_row target base ms m = m\<lparr>mg_conversation := target, mg_sequence := base + row_number ms m\<rparr>"

definition move_messages :: "int \<Rightarrow> string \<Rightarrow> string \<Rightarrow> ('x, nat \<times> string \<times> int) ctx" where
  "move_messages zero source target = sql_checked (\<lambda>d.
     let ms = messages_of source d; base = last_sequence target d;
         moved = update_where (\<lambda>m. mg_conversation m = source) (moved_row target base ms) (cd_messages d)
     in if (ms \<noteq> [] \<and> target \<notin> cv_id ` set (cd_conversations d)) \<or>
          (\<exists>a \<in> set ms. \<exists>b \<in> set (messages_of target d). mg_client a \<noteq> None \<and> mg_client a = mg_client b) then None
        else Some ((length ms, latest_of ms ('''', zero)), d\<lparr>cd_messages := moved\<rparr>))"

definition merged_row :: "nat \<Rightarrow> string \<Rightarrow> int \<Rightarrow> conversation \<Rightarrow> conversation" where
  "merged_row moved pv at c = c\<lparr>cv_count := cv_count c + int moved,
     cv_preview := (if at > cv_last_at c then pv else cv_preview c), cv_last_at := max (cv_last_at c) at\<rparr>"

definition apply_merge :: "string \<Rightarrow> nat \<Rightarrow> string \<Rightarrow> int \<Rightarrow> ('x, unit) ctx" where
  "apply_merge target moved pv at = (if moved = 0 then tx_ret () else sql_checked (\<lambda>d. if \<not> utf8 pv then None
     else Some ((), d\<lparr>cd_conversations := update_where (\<lambda>c. cv_id c = target) (merged_row moved pv at) (cd_conversations d)\<rparr>)))"

section \<open>What every operation writes down\<close>

text \<open>
  A request: its actor, the causation id of its context, the database clock, and the
  identifiers ids.New will hand out, numbered.
\<close>

record request =
  rq_actor :: "actor option"
  rq_causation :: string
  rq_now :: int
  rq_ids :: "nat \<Rightarrow> string"

definition later :: "nat \<Rightarrow> request \<Rightarrow> request" where
  "later k rq = rq\<lparr>rq_ids := (\<lambda>n. rq_ids rq (k + n))\<rparr>"

definition append_conv_event :: "request \<Rightarrow> nat \<Rightarrow> event \<Rightarrow> ('x, unit) ctx" where
  "append_conv_event rq k ev = tx_seq (append_event (rq_ids rq k) (rq_causation rq) (rq_now rq) ev) (tx_ret ())"

text \<open>
  recordAudit.  A failed name lookup is not returned by the code, but it aborts the
  transaction, so the INSERT that follows fails in its place.
\<close>

definition record_conv_audit :: "request \<Rightarrow> nat \<Rightarrow> audit_entry \<Rightarrow> ('x, unit) ctx" where
  "record_conv_audit rq k e =
     (if ae_actor_name e = '''' \<and> ae_actor_type e = ''user'' \<and> ae_actor_id e \<noteq> ''''
      then tx_bind (sql_read (member_display_name (ae_actor_id e))) (\<lambda>name.
             record_tx (rq_ids rq k) (rq_now rq) (e\<lparr>ae_actor_name := name\<rparr>))
      else record_tx (rq_ids rq k) (rq_now rq) e)"

definition conv_audit :: "string \<Rightarrow> string \<Rightarrow> string \<Rightarrow> string \<Rightarrow> string \<Rightarrow> json option \<Rightarrow> audit_entry" where
  "conv_audit w actor_type act action c meta = \<lparr> ae_workspace = w, ae_actor_type = actor_type, ae_actor_id = act,
     ae_actor_name = '''', ae_action = action, ae_entity_type = ''conversation'', ae_entity_id = c,
     ae_request = '''', ae_ip = '''', ae_metadata = meta \<rparr>"

definition conv_event :: "string \<Rightarrow> string \<Rightarrow> string \<Rightarrow> string \<Rightarrow> string \<Rightarrow> json \<Rightarrow> event" where
  "conv_event w ty c actor_type act data = \<lparr> ev_workspace = w, ev_type = ty, ev_entity_type = ''conversation'',
     ev_entity_id = c, ev_actor_type = actor_type, ev_actor_id = act, ev_data = Some data, ev_causation = '''',
     ev_request = '''' \<rparr>"

definition deref_or :: "string option \<Rightarrow> string \<Rightarrow> string" where
  "deref_or v fallback = (case v of None \<Rightarrow> fallback | Some s \<Rightarrow> s)"

end
