(* ===== verification/Routing.thy ===== *)
theory Routing
  imports Conversation Encodings
begin

text \<open>
  Assignment of a new conversation (src/internal/conversation/routing.go): the first team of
  the inbox whose rules match the customer, and the member its strategy picks.  fmt.Sprint is
  the argument \<open>sprint\<close>; comparison of languages folds the case of ASCII letters.
\<close>

section \<open>Teams and their rules\<close>

record routing_member =
  rm_id :: string
  rm_weight :: int
  rm_assigned :: int

record routing_team =
  rt_id :: string
  rt_strategy :: string
  rt_config :: "(string \<times> json) list"

text \<open>Decoding into a map: everything but an object leaves an empty one.\<close>

definition config_of :: "json \<Rightarrow> (string \<times> json) list" where
  "config_of j = (case j of JObj fs \<Rightarrow> fs | _ \<Rightarrow> [])"

definition load_routing_teams :: "string \<Rightarrow> string \<Rightarrow> 'x conv_db_scheme \<Rightarrow> routing_team list" where
  "load_routing_teams w inbox d =
     map (\<lambda>t. \<lparr> rt_id = tm_id t, rt_strategy = tm_strategy t, rt_config = config_of (tm_config t) \<rparr>)
       (sort_key (\<lambda>t. (tm_created t, tm_id t))
          (filter (\<lambda>t. tm_workspace t = w \<and> (inbox, tm_id t) \<in> set (cd_inbox_teams d)) (cd_teams d)))"

definition equal_fold :: "string \<Rightarrow> string \<Rightarrow> bool" where
  "equal_fold a b \<longleftrightarrow> to_lower a = to_lower b"

definition attribute_matches :: "(json \<Rightarrow> string) \<Rightarrow> json \<Rightarrow> json \<Rightarrow> bool" where
  "attribute_matches sprint actual expected =
     list_ex (\<lambda>v. sprint actual = sprint v) (case expected of JArr vs \<Rightarrow> vs | v \<Rightarrow> [v])"

definition languages_match :: "(string \<times> json) list \<Rightarrow> string \<Rightarrow> bool" where
  "languages_match config language = (case map_of config ''languages'' of
     Some (JArr (v # vs)) \<Rightarrow>
       list_ex (\<lambda>item. case item of JStr s \<Rightarrow> equal_fold (trim_space s) language | _ \<Rightarrow> False) (v # vs)
   | _ \<Rightarrow> True)"

definition attributes_match :: "(json \<Rightarrow> string) \<Rightarrow> (string \<times> json) list \<Rightarrow> (string \<times> json) list \<Rightarrow> bool" where
  "attributes_match sprint config attributes = (case map_of config ''attributes'' of
     Some (JObj fs) \<Rightarrow> list_all (\<lambda>(k, expected). case map_of attributes k of
       None \<Rightarrow> False | Some actual \<Rightarrow> attribute_matches sprint actual expected) fs
   | _ \<Rightarrow> True)"

definition customer_row :: "string \<Rightarrow> string \<Rightarrow> 'x conv_db_scheme \<Rightarrow> customer option" where
  "customer_row w i d = find (\<lambda>c. cu_workspace c = w \<and> cu_id c = i) (cd_customers d)"

definition routing_team_matches :: "(json \<Rightarrow> string) \<Rightarrow> string \<Rightarrow> string option \<Rightarrow> (string \<times> json) list \<Rightarrow> ('x, bool) ctx" where
  "routing_team_matches sprint w cust config = (case cust of
     None \<Rightarrow> tx_ret (config = [])
   | Some i \<Rightarrow> if config = [] then tx_ret True
       else tx_bind (sql_read (customer_row w i)) (\<lambda>row. case row of
              None \<Rightarrow> tx_ret False
            | Some c \<Rightarrow> tx_ret (languages_match config (cu_language c)
                \<and> attributes_match sprint config (config_of (cu_attributes c)))))"

section \<open>Members\<close>

definition open_load :: "string \<Rightarrow> string \<Rightarrow> 'x conv_db_scheme \<Rightarrow> int" where
  "open_load team m d = int (length (filter (\<lambda>c. cv_team c = Some team \<and> cv_assignee c = Some m \<and> cv_state c \<noteq> ''spam'')
     (cd_conversations d)))"

definition accepts :: "string \<Rightarrow> string \<Rightarrow> 'x conv_db_scheme \<Rightarrow> bool" where
  "accepts w m d = list_ex (\<lambda>r. mb_id r = m \<and> mb_workspace r = w \<and> mb_accepting r) (cd_members d)"

definition load_routing_members :: "string \<Rightarrow> string \<Rightarrow> 'x conv_db_scheme \<Rightarrow> routing_member list" where
  "load_routing_members w team d = sort_key rm_id
     (map (\<lambda>(_, m, weight). \<lparr> rm_id = m, rm_weight = max weight 1, rm_assigned = open_load team m d \<rparr>)
        (filter (\<lambda>(t, m, _). t = team \<and> accepts w m d) (cd_team_members d)))"

text \<open>sort.Slice with a comparator.\<close>

fun insert_by :: "('a \<Rightarrow> 'a \<Rightarrow> bool) \<Rightarrow> 'a \<Rightarrow> 'a list \<Rightarrow> 'a list" where
  "insert_by lt x [] = [x]"
| "insert_by lt x (y # ys) = (if lt y x then y # insert_by lt x ys else x # y # ys)"

definition sort_by :: "('a \<Rightarrow> 'a \<Rightarrow> bool) \<Rightarrow> 'a list \<Rightarrow> 'a list" where
  "sort_by lt xs = foldr (insert_by lt) xs []"

definition less_loaded :: "routing_member \<Rightarrow> routing_member \<Rightarrow> bool" where
  "less_loaded a b = (if rm_assigned a \<noteq> rm_assigned b then rm_assigned a < rm_assigned b else rm_id a < rm_id b)"

definition less_for_weight :: "routing_member \<Rightarrow> routing_member \<Rightarrow> bool" where
  "less_for_weight a b = (let left = rm_assigned a * rm_weight b; right = rm_assigned b * rm_weight a
     in if left \<noteq> right then left < right else rm_id a < rm_id b)"

text \<open>stableIndex: the FNV-1a hash in 32 bits.\<close>

definition fnv :: "string \<Rightarrow> 32 word" where
  "fnv s = foldl (\<lambda>h c. (xor h (word_of_nat (of_char c))) * 16777619) 2166136261 s"

definition stable_index :: "string \<Rightarrow> nat \<Rightarrow> nat" where
  "stable_index v n = (if n \<le> 1 then 0 else unat (fnv v mod word_of_nat n))"

text \<open>chooseRoutingMember; the caller has checked that there is a member.\<close>

definition choose_routing_member :: "string \<Rightarrow> string \<Rightarrow> routing_member list \<Rightarrow> string" where
  "choose_routing_member strategy c ms =
     (if strategy = ''round_robin'' \<or> strategy = ''least_active'' then rm_id (hd (sort_by less_loaded ms))
      else if strategy = ''weighted'' then rm_id (hd (sort_by less_for_weight ms))
      else rm_id (ms ! stable_index c (length ms)))"

text \<open>consumeRoundRobin; next_member_index is a bigint.\<close>

definition advance_cursor_row :: "string \<Rightarrow> ('x, unit) ctx" where
  "advance_cursor_row team = sql_checked (\<lambda>d. case cd_cursors d team of None \<Rightarrow> Some ((), d)
     | Some n \<Rightarrow> if n + 1 \<ge> 2 ^ 63 then None else Some ((), d\<lparr>cd_cursors := (cd_cursors d)(team \<mapsto> n + 1)\<rparr>))"

definition take_turn :: "string \<Rightarrow> nat \<Rightarrow> int \<Rightarrow> ('x, nat) ctx" where
  "take_turn team n k = tx_seq (advance_cursor_row team) (tx_ret (nat (k mod int n)))"

definition consume_round_robin :: "string \<Rightarrow> nat \<Rightarrow> ('x, nat) ctx" where
  "consume_round_robin team n = tx_bind (sql_read (\<lambda>d. cd_cursors d team)) (\<lambda>cur. case cur of
     Some k \<Rightarrow> take_turn team n k
   | None \<Rightarrow> tx_seq (sql_exec (\<lambda>d. case cd_cursors d team of None \<Rightarrow> d\<lparr>cd_cursors := (cd_cursors d)(team \<mapsto> 0)\<rparr> | Some _ \<Rightarrow> d))
       (tx_bind (sql_read (\<lambda>d. cd_cursors d team)) (\<lambda>cur'. case cur' of
          None \<Rightarrow> tx_fail (Msg ''no rows in result set'')
        | Some k \<Rightarrow> take_turn team n k)))"

section \<open>The decision\<close>

fun first_match :: "(json \<Rightarrow> string) \<Rightarrow> string \<Rightarrow> string option \<Rightarrow> routing_team \<Rightarrow> routing_team list \<Rightarrow> ('x, routing_team) ctx" where
  "first_match sprint w cust t0 [] = tx_ret t0"
| "first_match sprint w cust t0 (t # ts) = tx_bind (routing_team_matches sprint w cust (rt_config t))
     (\<lambda>m. if m then tx_ret t else first_match sprint w cust t0 ts)"

definition owner_of :: "string \<Rightarrow> string \<Rightarrow> 'x conv_db_scheme \<Rightarrow> string option" where
  "owner_of w i d = (case customer_row w i d of None \<Rightarrow> None | Some c \<Rightarrow> cu_owner c)"

definition in_team :: "string \<Rightarrow> string \<Rightarrow> 'x conv_db_scheme \<Rightarrow> bool" where
  "in_team team m d = list_ex (\<lambda>(t, x, _). t = team \<and> x = m) (cd_team_members d)"

definition pick_assignee :: "string \<Rightarrow> string \<Rightarrow> string option \<Rightarrow> routing_team \<Rightarrow> ('x, string option) ctx" where
  "pick_assignee w c cust t =
     (if rt_strategy t = ''customer_owner'' \<and> cust \<noteq> None then
        tx_bind (sql_read (owner_of w (the cust))) (\<lambda>owner. case owner of
          None \<Rightarrow> tx_ret None
        | Some m \<Rightarrow> tx_bind (sql_read (\<lambda>d. in_team (rt_id t) m d \<and> accepts w m d))
            (\<lambda>eligible. tx_ret (if eligible then Some m else None)))
      else if rt_strategy t \<noteq> ''manual'' \<and> rt_strategy t \<noteq> ''team_queue'' then
        tx_bind (sql_read (load_routing_members w (rt_id t))) (\<lambda>ms.
          if ms = [] then tx_ret None
          else if rt_strategy t = ''round_robin'' then
            tx_bind (consume_round_robin (rt_id t) (length ms)) (\<lambda>i. tx_ret (Some (rm_id (ms ! i))))
          else tx_ret (Some (choose_routing_member (rt_strategy t) c ms)))
      else tx_ret None)"

definition route_to :: "request \<Rightarrow> string \<Rightarrow> string \<Rightarrow> routing_team \<Rightarrow> string option \<Rightarrow> ('x, unit) ctx" where
  "route_to rq w c t assignee =
     tx_seq (set_team_row c (Some (rt_id t)))
     (tx_seq (if assignee = None then tx_ret () else set_assignee_row c assignee)
     (tx_seq (record_conv_audit rq 0 (conv_audit w ''system'' '''' ''conversation.assigned'' c
        (Some (JObj [(''team_id'', JStr (rt_id t)), (''assignee_id'', JStr (deref_or assignee '''')), (''strategy'', JStr (rt_strategy t))]))))
     (append_conv_event rq 1 (conv_event w ''conversation.assigned'' c ''system'' ''''
        (JObj [(''conversation_id'', JStr c), (''team_id'', JStr (rt_id t)), (''assignee_id'', json_opt assignee),
           (''strategy'', JStr (rt_strategy t))])))))"

text \<open>routeNewConversation; the row of the team is locked before the members are read.\<close>

definition route_new_conversation :: "(json \<Rightarrow> string) \<Rightarrow> request \<Rightarrow> string \<Rightarrow> string \<Rightarrow> string \<Rightarrow> string option \<Rightarrow> ('x, unit) ctx" where
  "route_new_conversation sprint rq w c inbox cust =
     tx_bind (sql_read (load_routing_teams w inbox)) (\<lambda>teams. case teams of [] \<Rightarrow> tx_ret ()
     | t0 # _ \<Rightarrow> tx_bind (first_match sprint w cust t0 teams) (\<lambda>t.
         tx_bind (sql_read (\<lambda>d. (inbox, rt_id t) \<in> set (cd_inbox_teams d))) (\<lambda>there.
           if \<not> there then tx_fail (Msg ''no rows in result set'')
           else tx_seq (sql_read (\<lambda>d. ()))
             (tx_bind (pick_assignee w c cust t) (route_to rq w c t)))))"

end
