(* ===== verification/ConversationService.thy ===== *)
theory ConversationService
  imports Routing SlaCalendar
begin

text \<open>
  The operations on conversations: src/internal/conversation/service.go (start, post, read),
  actions.go (assignment, state, snooze, tags, followers, reads), editing.go (edit, redact,
  merge, transcript) and links.go.  Event and audit log are present; the clock of the program
  and that of the database are one.
\<close>

section \<open>Times as text\<close>

definition two_digits :: "int \<Rightarrow> string" where
  "two_digits n = [digit_char (n div 10), digit_char n]"

definition clock_text :: "int \<Rightarrow> string" where
  "clock_text s = two_digits (s div 3600) @ '':'' @ two_digits (s div 60 mod 60) @ '':'' @ two_digits (s mod 60)"

text \<open>UTC().Format(time.RFC3339) and RFC3339Nano, without the trailing zeros of the fraction.\<close>

definition rfc3339_with :: "string \<Rightarrow> int \<Rightarrow> string" where
  "rfc3339_with fraction t = format_day (t div day_ns) @ ''T'' @ clock_text (t mod day_ns div 1000000000) @ fraction @ ''Z''"

definition rfc3339 :: "int \<Rightarrow> string" where
  "rfc3339 = rfc3339_with ''''"

definition nano_fraction :: "int \<Rightarrow> string" where
  "nano_fraction n = (let ds = map (\<lambda>k. digit_char (n div 10 ^ (8 - k))) [0..<9];
     kept = rev (dropWhile (\<lambda>c. c = CHR ''0'') (rev ds)) in if kept = [] then [] else CHR ''.'' # kept)"

definition rfc3339_nano :: "int \<Rightarrow> string" where
  "rfc3339_nano t = rfc3339_with (nano_fraction (t mod 1000000000)) t"

section \<open>Starting and posting\<close>

text \<open>
  Attachments: file identifiers with the store that links them, an interface value that may
  be nil.
\<close>

type_synonym 'x attachments = "(string list \<times> (string \<Rightarrow> string \<Rightarrow> string list \<Rightarrow> ('x, unit) ctx) option) list"

definition attach_message :: "string \<Rightarrow> string \<Rightarrow> 'x attachments \<Rightarrow> ('x, unit) ctx" where
  "attach_message w m sets = tx_each (\<lambda>(fids, store). if fids = [] then tx_ret () else case store of
     None \<Rightarrow> tx_fail (Msg ''conversation: attachment storage unavailable'')
   | Some f \<Rightarrow> f w m fids) sets"

definition actor_type_for :: "string \<Rightarrow> string" where
  "actor_type_for a = (if a = ''customer'' then ''customer'' else if a = ''agent'' then ''user''
     else if a = ''automation'' then ''automation'' else ''system'')"

text \<open>The JSON of MessageEvent and ConversationEvent; omitempty drops absent members.\<close>

definition opt_field :: "string \<Rightarrow> string option \<Rightarrow> (string \<times> json) list" where
  "opt_field k v = (case v of None \<Rightarrow> [] | Some s \<Rightarrow> [(k, JStr s)])"

definition message_payload :: "string \<Rightarrow> message \<Rightarrow> string list \<Rightarrow> json" where
  "message_payload inbox m mentions = JObj ([(''conversation_id'', JStr (mg_conversation m)), (''inbox_id'', JStr inbox),
     (''id'', JStr (mg_id m))] @ opt_field ''client_id'' (mg_client m) @ [(''kind'', JStr (mg_kind m)),
     (''author_type'', JStr (mg_author_type m))] @ opt_field ''author_id'' (mg_author m) @
     [(''author_name'', JStr (mg_author_name m)), (''body'', JStr (mg_body m))] @
     (if mentions = [] then [] else [(''mentioned_member_ids'', JArr (map JStr mentions))]) @
     [(''sequence'', JInt (mg_sequence m)), (''created_at'', JStr (rfc3339_nano (mg_created m)))])"

definition conversation_payload :: "string \<Rightarrow> string \<Rightarrow> string \<Rightarrow> string option \<Rightarrow> string option \<Rightarrow> json" where
  "conversation_payload c inbox channel subj cust = JObj ([(''id'', JStr c), (''inbox_id'', JStr inbox),
     (''channel'', JStr channel)] @ opt_field ''subject'' subj @ opt_field ''customer_id'' cust @ [(''state'', JStr ''new'')])"

text \<open>Identifiers: 0 the conversation, 1 and 2 the routing, 3 the message, 4 and 5 the events.\<close>

definition start_body :: "(json \<Rightarrow> string) \<Rightarrow> request \<Rightarrow> string \<Rightarrow> string \<Rightarrow> string \<Rightarrow> string option \<Rightarrow> string option
    \<Rightarrow> string option \<Rightarrow> string \<Rightarrow> string \<Rightarrow> 'x attachments \<Rightarrow> ('x, message) ctx" where
  "start_body sprint rq w inbox channel subj cust visitor author body sets =
     (let c = rq_ids rq 0;
          author_type = (if cust \<noteq> None \<or> visitor \<noteq> None then ''customer'' else ''agent'')
      in tx_seq (insert_conversation (rq_now rq) c w inbox channel subj cust visitor)
         (tx_seq (route_new_conversation sprint (later 1 rq) w c inbox cust)
         (tx_seq (lock_conversation (rq_actor rq) w c)
         (tx_bind (insert_message (rq_now rq) (rq_ids rq 3) None c w ''reply'' author_type cust author body) (\<lambda>m.
          tx_seq (attach_message w (mg_id m) sets)
         (tx_seq (touch_conversation c (preview body) (author_type = ''customer'') (mg_created m))
         (tx_seq (append_conv_event rq 4 (conv_event w conversation_created c (actor_type_for author_type)
             (deref_or cust '''') (conversation_payload c inbox channel subj cust)))
         (tx_seq (append_conv_event rq 5 (conv_event w message_created c (actor_type_for author_type)
             (deref_or cust '''') (message_payload inbox m [])))
         (tx_ret m)))))))))"

definition start_conversation :: "(json \<Rightarrow> string) \<Rightarrow> request \<Rightarrow> string \<Rightarrow> string \<Rightarrow> string \<Rightarrow> string option \<Rightarrow> string option
    \<Rightarrow> string option \<Rightarrow> string \<Rightarrow> string \<Rightarrow> 'x attachments \<Rightarrow> ('x, conversation \<times> message) ctx" where
  "start_conversation sprint rq w inbox channel subj cust visitor author body sets =
     (if \<not> can_see_inbox (rq_actor rq) inbox then tx_fail (Err ErrInvalidInbox)
      else if trim_space body = '''' then tx_fail (Err ErrEmptyBody)
      else tx_bind (with_tx (start_body sprint rq w inbox channel subj cust visitor author (trim_space body) sets)) (\<lambda>m.
        tx_bind (by_id (rq_actor rq) w (rq_ids rq 0)) (\<lambda>c. tx_ret (c, m))))"

definition member_in_workspace :: "string \<Rightarrow> string \<Rightarrow> 'x conv_db_scheme \<Rightarrow> bool" where
  "member_in_workspace w m d = list_ex (\<lambda>r. mb_id r = m \<and> mb_workspace r = w) (cd_members d)"

text \<open>validateMentionedMembers; \<open>seen\<close> is the list of mentions so far.\<close>

fun validate_mentions :: "string \<Rightarrow> string list \<Rightarrow> string list \<Rightarrow> ('x, string list) ctx" where
  "validate_mentions w seen [] = tx_ret seen"
| "validate_mentions w seen (m # ms) =
     (if trim_space m = '''' then tx_fail (Err ErrInvalidMention)
      else if trim_space m \<in> set seen then validate_mentions w seen ms
      else tx_bind (sql_read (member_in_workspace w (trim_space m))) (\<lambda>there.
        if \<not> there then tx_fail (Err ErrInvalidMention) else validate_mentions w (seen @ [trim_space m]) ms))"

definition write_message :: "request \<Rightarrow> string \<Rightarrow> conversation \<Rightarrow> string option \<Rightarrow> string \<Rightarrow> string \<Rightarrow> string option \<Rightarrow> string
    \<Rightarrow> string \<Rightarrow> string list \<Rightarrow> 'x attachments \<Rightarrow> ('x, message) ctx" where
  "write_message rq w cv cl kind author_type author name body mentions sets =
     tx_bind (validate_mentions w [] mentions) (\<lambda>ms.
     tx_bind (insert_message (rq_now rq) (rq_ids rq 0) cl (cv_id cv) w kind author_type author name body) (\<lambda>m.
     tx_seq (attach_message w (mg_id m) sets)
    (tx_seq (if kind = ''reply'' then touch_conversation (cv_id cv) (preview body) (author_type = ''customer'') (mg_created m)
       else tx_ret ())
    (tx_seq (append_conv_event rq 1 (conv_event w message_created (cv_id cv) (actor_type_for author_type)
       (deref_or author '''') (message_payload (cv_inbox cv) m ms)))
    (tx_ret m)))))"

text \<open>PostMessageWithMentions: a client id seen before returns the message it named.\<close>

definition post_message :: "request \<Rightarrow> string \<Rightarrow> string \<Rightarrow> string option \<Rightarrow> string \<Rightarrow> string \<Rightarrow> string option \<Rightarrow> string
    \<Rightarrow> string \<Rightarrow> string list \<Rightarrow> 'x attachments \<Rightarrow> ('x, message) ctx" where
  "post_message rq w c cl kind author_type author name body mentions sets =
     (let text = trim_space body; k = (if kind = '''' then ''reply'' else kind)
      in if text = '''' then tx_fail (Err ErrEmptyBody)
         else with_tx (tx_bind (lock_and_load (rq_actor rq) w c) (\<lambda>cv.
           case cl of
             None \<Rightarrow> write_message rq w cv cl k author_type author name text mentions sets
           | Some i \<Rightarrow> tx_bind (sql_read (message_by_client_id c i)) (\<lambda>known. case known of
               Some m \<Rightarrow> tx_ret m
             | None \<Rightarrow> write_message rq w cv cl k author_type author name text mentions sets))))"

section \<open>Reading\<close>

definition get_messages :: "request \<Rightarrow> string \<Rightarrow> string \<Rightarrow> int \<Rightarrow> ('x, message list) ctx" where
  "get_messages rq w c after = tx_seq (by_id (rq_actor rq) w c) (sql_read (list_messages w c after))"

definition get_messages_page :: "request \<Rightarrow> string \<Rightarrow> string \<Rightarrow> int \<Rightarrow> int \<Rightarrow> int \<Rightarrow> ('x, message list \<times> bool) ctx" where
  "get_messages_page rq w c before after limit = tx_seq (by_id (rq_actor rq) w c)
     (if before > 0 \<and> after > 0 then tx_fail (Msg ''conversation: before and after cursors are mutually exclusive'')
      else sql_read (list_messages_page w c before after limit))"

section \<open>Assignment and labels\<close>

definition team_in_workspace :: "string \<Rightarrow> string \<Rightarrow> 'x conv_db_scheme \<Rightarrow> bool" where
  "team_in_workspace w t d = list_ex (\<lambda>r. tm_id r = t \<and> tm_workspace r = w) (cd_teams d)"

definition inbox_in_workspace :: "actor option \<Rightarrow> string \<Rightarrow> string \<Rightarrow> ('x, bool) ctx" where
  "inbox_in_workspace who w i = (if \<not> can_see_inbox who i then tx_ret False
     else sql_read (\<lambda>d. (i, w) \<in> set (cd_inboxes d)))"

definition tag_in_workspace :: "string \<Rightarrow> string \<Rightarrow> 'x conv_db_scheme \<Rightarrow> bool" where
  "tag_in_workspace w t d = ((t, w) \<in> set (cd_tag_names d))"

text \<open>A check in front of an operation, unless there is nothing to check.\<close>

definition check_some :: "(string \<Rightarrow> 'x conv_db_scheme \<Rightarrow> bool) \<Rightarrow> string option \<Rightarrow> conv_error \<Rightarrow> ('x, unit) ctx" where
  "check_some p v e = (case v of None \<Rightarrow> tx_ret () | Some s \<Rightarrow>
     tx_bind (sql_read (p s)) (\<lambda>there. if there then tx_ret () else tx_fail (Err e)))"

text \<open>Every change of a conversation: the transaction, then the row as the actor sees it.\<close>

definition change_conversation :: "request \<Rightarrow> string \<Rightarrow> string \<Rightarrow> (conversation \<Rightarrow> ('x, unit) ctx) \<Rightarrow> ('x, conversation) ctx" where
  "change_conversation rq w c body = tx_seq
     (with_tx (tx_bind (lock_and_load_full (rq_actor rq) w c) body)) (by_id (rq_actor rq) w c)"

definition assign_body :: "request \<Rightarrow> string \<Rightarrow> string \<Rightarrow> string \<Rightarrow> string option \<Rightarrow> (string \<times> json) list \<Rightarrow> conversation \<Rightarrow> ('x, unit) ctx" where
  "assign_body rq w act c m extra cv =
     tx_seq (set_assignee_row c m)
     (tx_seq (record_conv_audit rq 0 (conv_audit w ''user'' act ''conversation.assigned'' c (Some (JObj
        ([(''assignee_id'', JStr (deref_or m '''')), (''previous_assignee_id'', JStr (deref_or (cv_assignee cv) ''''))] @ extra)))))
     (append_conv_event rq 1 (conv_event w ''conversation.assigned'' c ''user'' act (JObj
        ([(''conversation_id'', JStr c), (''team_id'', json_opt (cv_team cv)), (''assignee_id'', json_opt m)] @ extra)))))"

definition set_assignee :: "request \<Rightarrow> string \<Rightarrow> string \<Rightarrow> string \<Rightarrow> string option \<Rightarrow> ('x, conversation) ctx" where
  "set_assignee rq w act c m = tx_seq (check_some (member_in_workspace w) m ErrInvalidAssignee)
     (change_conversation rq w c (assign_body rq w act c m []))"

definition set_team :: "request \<Rightarrow> string \<Rightarrow> string \<Rightarrow> string \<Rightarrow> string option \<Rightarrow> ('x, conversation) ctx" where
  "set_team rq w act c t = tx_seq (check_some (team_in_workspace w) t ErrInvalidTeam)
     (change_conversation rq w c (\<lambda>cv.
       tx_seq (set_team_row c t)
      (tx_seq (record_conv_audit rq 0 (conv_audit w ''user'' act ''conversation.updated'' c
         (Some (JObj [(''team_id'', JStr (deref_or t ''''))]))))
      (append_conv_event rq 1 (conv_event w ''conversation.assigned'' c ''user'' act (JObj
         [(''conversation_id'', JStr c), (''team_id'', json_opt t), (''assignee_id'', json_opt (cv_assignee cv))]))))))"

definition set_inbox :: "request \<Rightarrow> string \<Rightarrow> string \<Rightarrow> string \<Rightarrow> string \<Rightarrow> ('x, conversation) ctx" where
  "set_inbox rq w act c i = tx_bind (inbox_in_workspace (rq_actor rq) w i) (\<lambda>there.
     if \<not> there then tx_fail (Err ErrInvalidInbox)
     else change_conversation rq w c (\<lambda>cv.
       tx_seq (set_inbox_row c i)
      (tx_seq (record_conv_audit rq 0 (conv_audit w ''user'' act ''conversation.updated'' c
         (Some (JObj [(''inbox_id'', JStr i), (''previous_inbox_id'', JStr (cv_inbox cv))]))))
      (append_conv_event rq 1 (conv_event w ''conversation.updated'' c ''user'' act (JObj
         [(''conversation_id'', JStr c), (''inbox_id'', JStr i)]))))))"

definition set_priority :: "request \<Rightarrow> string \<Rightarrow> string \<Rightarrow> string \<Rightarrow> string \<Rightarrow> ('x, conversation) ctx" where
  "set_priority rq w act c p = (if p \<notin> set valid_priorities then tx_fail (Err ErrInvalidPriority)
     else change_conversation rq w c (\<lambda>_.
       tx_seq (set_priority_row c p)
      (tx_seq (record_conv_audit rq 0 (conv_audit w ''user'' act ''conversation.updated'' c
         (Some (JObj [(''priority'', JStr p)]))))
      (append_conv_event rq 1 (conv_event w ''conversation.updated'' c ''user'' act (JObj
         [(''conversation_id'', JStr c), (''priority'', JStr p)]))))))"

section \<open>State\<close>

text \<open>The change itself: identifiers 0 for the history, 1 for the audit log, 2 for the event.\<close>

definition state_body :: "request \<Rightarrow> string \<Rightarrow> string \<Rightarrow> string \<Rightarrow> string \<Rightarrow> (string \<times> json) list \<Rightarrow> conversation \<Rightarrow> ('x, unit) ctx" where
  "state_body rq w act c st extra cv =
     (if cv_state cv = st then tx_ret ()
      else tx_seq (set_state_row c st)
       (tx_seq (insert_status_history (rq_ids rq 0) (rq_now rq) c (cv_state cv) st ''member'' act)
       (tx_seq (record_conv_audit rq 1 (conv_audit w ''user'' act ''conversation.state_changed'' c
          (Some (JObj ([(''from'', JStr (cv_state cv)), (''to'', JStr st)] @ extra)))))
       (append_conv_event rq 2 (conv_event w (if st = ''resolved'' then ''conversation.resolved'' else ''conversation.state_changed'')
          c ''user'' act (JObj ([(''conversation_id'', JStr c), (''from'', JStr (cv_state cv)), (''to'', JStr st)] @ extra)))))))"

definition set_state :: "request \<Rightarrow> string \<Rightarrow> string \<Rightarrow> string \<Rightarrow> string \<Rightarrow> ('x, conversation) ctx" where
  "set_state rq w act c st = (if st \<notin> set valid_states then tx_fail (Err ErrInvalidState)
     else change_conversation rq w c (state_body rq w act c st []))"

definition snooze :: "request \<Rightarrow> string \<Rightarrow> string \<Rightarrow> string \<Rightarrow> int \<Rightarrow> ('x, conversation) ctx" where
  "snooze rq w act c until = (if until \<le> rq_now rq then tx_fail (Err ErrSnoozeInPast)
     else change_conversation rq w c (\<lambda>cv.
       tx_seq (snooze_row c until)
      (tx_seq (insert_status_history (rq_ids rq 0) (rq_now rq) c (cv_state cv) ''snoozed'' ''member'' act)
      (tx_seq (record_conv_audit rq 1 (conv_audit w ''user'' act ''conversation.state_changed'' c
         (Some (JObj [(''from'', JStr (cv_state cv)), (''to'', JStr ''snoozed''), (''until'', JStr (rfc3339 until))]))))
      (append_conv_event rq 2 (conv_event w ''conversation.state_changed'' c ''user'' act (JObj
         [(''conversation_id'', JStr c), (''from'', JStr (cv_state cv)), (''to'', JStr ''snoozed'')])))))))"

text \<open>WakeSnoozed: one UPDATE, then a transaction for each conversation it woke.\<close>

definition log_wake :: "request \<Rightarrow> string \<times> string \<Rightarrow> ('x, unit) ctx" where
  "log_wake rq = (\<lambda>(c, w). with_tx
     (tx_seq (insert_status_history (rq_ids rq 0) (rq_now rq) c ''snoozed'' ''open'' ''system'' '''')
       (append_conv_event rq 1 (conv_event w ''conversation.state_changed'' c ''system'' ''''
          (JObj [(''conversation_id'', JStr c), (''from'', JStr ''snoozed''), (''to'', JStr ''open'')])))))"

fun log_wakes :: "request \<Rightarrow> (string \<times> string) list \<Rightarrow> ('x, unit) ctx" where
  "log_wakes rq [] = tx_ret ()"
| "log_wakes rq (r # rs) = tx_seq (log_wake rq r) (log_wakes (later 2 rq) rs)"

definition wake_snoozed :: "request \<Rightarrow> ('x, nat) ctx" where
  "wake_snoozed rq = tx_bind (wake_rows (rq_now rq)) (\<lambda>woken.
     tx_seq (log_wakes rq woken) (tx_ret (length woken)))"

section \<open>Bulk changes\<close>

datatype bulk_action = BulkAssign "string option" | BulkState string | BulkUnknown

definition max_bulk :: nat where "max_bulk = 100"

fun unique_ids :: "string list \<Rightarrow> string list \<Rightarrow> string list option" where
  "unique_ids seen [] = Some seen"
| "unique_ids seen (i # is) =
     (let t = trim_space i in if t = '''' then None
      else unique_ids (if t \<in> set seen then seen else seen @ [t]) is)"

definition check_bulk :: "string \<Rightarrow> bulk_action \<Rightarrow> ('x, unit) ctx" where
  "check_bulk w a = (case a of
     BulkAssign m \<Rightarrow> check_some (member_in_workspace w) m ErrInvalidAssignee
   | BulkState st \<Rightarrow> if st \<notin> set valid_states then tx_fail (Err ErrInvalidState) else tx_ret ()
   | BulkUnknown \<Rightarrow> tx_fail (Err ErrInvalidBulkAction))"

definition bulk_one :: "request \<Rightarrow> string \<Rightarrow> string \<Rightarrow> bulk_action \<Rightarrow> string \<Rightarrow> ('x, unit) ctx" where
  "bulk_one rq w act a c = tx_bind (lock_and_load_full (rq_actor rq) w c) (\<lambda>cv. case a of
     BulkAssign m \<Rightarrow> assign_body rq w act c m [(''bulk'', JBool True)] cv
   | BulkState st \<Rightarrow> state_body rq w act c st [(''bulk'', JBool True)] cv
   | BulkUnknown \<Rightarrow> tx_ret ())"

fun bulk_each :: "request \<Rightarrow> string \<Rightarrow> string \<Rightarrow> bulk_action \<Rightarrow> string list \<Rightarrow> ('x, unit) ctx" where
  "bulk_each rq w act a [] = tx_ret ()"
| "bulk_each rq w act a (c # cs) = tx_seq (bulk_one rq w act a c) (bulk_each (later 3 rq) w act a cs)"

definition bulk_update :: "request \<Rightarrow> string \<Rightarrow> string \<Rightarrow> string list \<Rightarrow> bulk_action \<Rightarrow> ('x, conversation list) ctx" where
  "bulk_update rq w act cs a =
     (if cs = [] then tx_fail (Err ConvNotFound)
      else if length cs > max_bulk then tx_fail (Err ErrBulkTooLarge)
      else case unique_ids [] cs of None \<Rightarrow> tx_fail (Err ConvNotFound)
        | Some us \<Rightarrow> tx_seq (check_bulk w a)
           (tx_seq (with_tx (bulk_each rq w act a (sort us)))
           (tx_map (by_id (rq_actor rq) w) (sort us))))"

section \<open>Tags, followers, reads\<close>

definition add_tag :: "request \<Rightarrow> string \<Rightarrow> string \<Rightarrow> string \<Rightarrow> string \<Rightarrow> ('x, unit) ctx" where
  "add_tag rq w act c t = tx_bind (sql_read (tag_in_workspace w t)) (\<lambda>there.
     if \<not> there then tx_fail (Err ErrTagNotFound)
     else with_tx (tx_seq (lock_and_load_full (rq_actor rq) w c) (tx_seq (add_tag_row c t)
       (append_conv_event rq 0 (conv_event w ''conversation.updated'' c ''user'' act
          (JObj [(''conversation_id'', JStr c), (''tag_added'', JStr t)]))))))"

definition remove_tag :: "request \<Rightarrow> string \<Rightarrow> string \<Rightarrow> string \<Rightarrow> string \<Rightarrow> ('x, unit) ctx" where
  "remove_tag rq w act c t = with_tx (tx_seq (lock_and_load_full (rq_actor rq) w c) (tx_seq (remove_tag_row c t)
     (append_conv_event rq 0 (conv_event w ''conversation.updated'' c ''user'' act
        (JObj [(''conversation_id'', JStr c), (''tag_removed'', JStr t)])))))"

definition follow :: "request \<Rightarrow> string \<Rightarrow> string \<Rightarrow> string \<Rightarrow> ('x, unit) ctx" where
  "follow rq w c m = tx_bind (sql_read (member_in_workspace w m)) (\<lambda>there.
     if \<not> there then tx_fail (Err ErrInvalidAssignee)
     else with_tx (tx_seq (lock_and_load_full (rq_actor rq) w c) (follow_row c m)))"

definition unfollow :: "request \<Rightarrow> string \<Rightarrow> string \<Rightarrow> string \<Rightarrow> ('x, unit) ctx" where
  "unfollow rq w c m = with_tx (tx_seq (lock_and_load_full (rq_actor rq) w c) (unfollow_row c m))"

definition mark_read :: "request \<Rightarrow> string \<Rightarrow> string \<Rightarrow> string \<Rightarrow> ('x, unit) ctx" where
  "mark_read rq w c m = tx_bind (sql_read (latest_message_id w c)) (\<lambda>latest.
     if latest = '''' then tx_ret () else with_tx (mark_read_row (rq_now rq) latest ''agent'' m))"

section \<open>Editing\<close>

definition message_event :: "string \<Rightarrow> string \<Rightarrow> string \<Rightarrow> string \<Rightarrow> (string \<times> json) list \<Rightarrow> event" where
  "message_event w ty c act extra = conv_event w ty c ''user'' act (JObj ((''conversation_id'', JStr c) # extra))"

definition edit_message :: "request \<Rightarrow> string \<Rightarrow> string \<Rightarrow> string \<Rightarrow> string \<Rightarrow> string \<Rightarrow> ('x, message) ctx" where
  "edit_message rq w act c m body =
     (let text = trim_space body in if text = '''' then tx_fail (Err ErrEmptyBody)
      else with_tx (tx_bind (load_message_for_edit w c m) (\<lambda>msg.
        if mg_kind msg = ''event'' then tx_fail (Err ErrMessageNotFound)
        else if mg_author_type msg \<noteq> ''agent'' \<or> mg_author msg \<noteq> Some act then tx_fail (Err ErrNotMessageAuthor)
        else tx_seq (insert_revision (rq_ids rq 0) m (mg_body msg) act)
         (tx_seq (update_message_body (rq_now rq) m text)
         (tx_seq (record_conv_audit rq 1 (conv_audit w ''user'' act ''message.edited'' c None))
         (tx_seq (append_conv_event rq 2 (message_event w ''message.edited'' c act
            [(''message_id'', JStr m), (''body'', JStr text)]))
         (tx_ret (msg\<lparr>mg_body := text, mg_edited := Some (rq_now rq)\<rparr>))))))))"

definition redact_message :: "request \<Rightarrow> string \<Rightarrow> string \<Rightarrow> string \<Rightarrow> string \<Rightarrow> ('x, message) ctx" where
  "redact_message rq w act c m = with_tx (tx_bind (load_message_for_edit w c m) (\<lambda>msg.
     if mg_kind msg = ''event'' then tx_fail (Err ErrMessageNotFound)
     else tx_seq (insert_revision (rq_ids rq 0) m (mg_body msg) act)
      (tx_seq (redact_message_row (rq_now rq) m)
      (tx_seq (record_conv_audit rq 1 (conv_audit w ''user'' act ''message.redacted'' c None))
      (tx_seq (append_conv_event rq 2 (message_event w ''message.redacted'' c act [(''message_id'', JStr m)]))
      (tx_ret (msg\<lparr>mg_body := '''', mg_redacted := Some (rq_now rq)\<rparr>)))))))"

text \<open>Merge; \<open>zero_time\<close> is the instant of time.Time{}, the first of January of year 1.\<close>

definition zero_time :: int where "zero_time = -62135596800000000000"

definition merge_body :: "request \<Rightarrow> string \<Rightarrow> string \<Rightarrow> string \<Rightarrow> string \<Rightarrow> ('x, unit) ctx" where
  "merge_body rq w act src tgt =
     (let lo = min src tgt; hi = max src tgt
      in tx_seq (lock_and_load_full (rq_actor rq) w lo)
        (tx_seq (lock_and_load_full (rq_actor rq) w hi)
        (tx_bind (move_messages zero_time src tgt) (\<lambda>(moved, pv, at).
         tx_seq (apply_merge tgt moved pv at)
        (tx_seq (set_state_row src ''closed'')
        (tx_seq (insert_status_history (rq_ids rq 0) (rq_now rq) src '''' ''closed'' ''member'' act)
        (tx_seq (record_conv_audit rq 1 (conv_audit w ''user'' act ''conversation.merged'' tgt
           (Some (JObj [(''source_id'', JStr src), (''messages_moved'', JInt (int moved))]))))
        (tx_seq (append_conv_event rq 2 (conv_event w ''conversation.merged'' tgt ''user'' act
           (JObj [(''target_id'', JStr tgt), (''source_id'', JStr src), (''messages_moved'', JInt (int moved))])))
        (append_conv_event rq 3 (conv_event w ''conversation.state_changed'' src ''user'' act
           (JObj [(''conversation_id'', JStr src), (''to'', JStr ''closed''), (''merged_into'', JStr tgt)]))))))))))) "

definition merge :: "request \<Rightarrow> string \<Rightarrow> string \<Rightarrow> string \<Rightarrow> string \<Rightarrow> ('x, unit) ctx" where
  "merge rq w act src tgt = (if src = tgt then tx_fail (Err ErrCannotMergeIntoSelf)
     else with_tx (merge_body rq w act src tgt))"

text \<open>Transcript.  strings.Split at every line feed.\<close>

fun split_lines :: "string \<Rightarrow> string \<Rightarrow> string list" where
  "split_lines line [] = [rev line]"
| "split_lines line (c # s) = (if c = CHR 0x0A then rev line # split_lines [] s else split_lines (c # line) s)"

definition newline :: string where "newline = [CHR 0x0A]"
definition em_dash :: string where "em_dash = [CHR 0xE2, CHR 0x80, CHR 0x94]"

definition transcript_entry :: "message \<Rightarrow> string" where
  "transcript_entry m = (if mg_kind m = ''event'' then ''''
     else ''['' @ rfc3339 (mg_created m) @ ''] '' @ mg_author_name m
        @ (if mg_kind m = ''note'' then '' (internal note)'' else '''') @ '':'' @ newline
        @ (if mg_redacted m \<noteq> None then ''  (message redacted)'' @ newline @ newline
           else concat (map (\<lambda>l. ''  '' @ l @ newline) (split_lines [] (mg_body m))) @ newline))"

definition transcript_head :: "int \<Rightarrow> conversation \<Rightarrow> string" where
  "transcript_head now c = (let title = (case cv_subject c of None \<Rightarrow> ''(no subject)''
       | Some s \<Rightarrow> if s = '''' then ''(no subject)'' else s)
     in ''Conversation '' @ cv_id c @ '' '' @ em_dash @ '' '' @ title @ newline
        @ ''Channel: '' @ cv_channel c @ '' | State: '' @ cv_state c @ '' | Exported: '' @ rfc3339 now @ newline
        @ replicate 60 (CHR ''-'') @ newline @ newline)"

definition transcript :: "request \<Rightarrow> string \<Rightarrow> string \<Rightarrow> ('x, string) ctx" where
  "transcript rq w c = tx_bind (by_id (rq_actor rq) w c) (\<lambda>cv.
     tx_bind (sql_read (list_messages w c 0)) (\<lambda>ms.
       tx_ret (transcript_head (rq_now rq) cv @ concat (map transcript_entry ms))))"

section \<open>Links\<close>

definition link_relations :: "string list" where
  "link_relations = [''related'', ''duplicate_of'', ''follow_up'']"

definition inbox_of :: "string \<Rightarrow> string \<Rightarrow> 'x conv_db_scheme \<Rightarrow> string option" where
  "inbox_of w c d = map_option cv_inbox (conversation_row w c d)"

definition both_visible :: "actor option \<Rightarrow> string \<Rightarrow> 'x conv_db_scheme \<Rightarrow> conversation_link \<Rightarrow> bool" where
  "both_visible who w d l = (case who of None \<Rightarrow> True | Some a \<Rightarrow> (case ac_inboxes a of None \<Rightarrow> True
     | Some is \<Rightarrow> list_all (\<lambda>c. case inbox_of w c d of None \<Rightarrow> False | Some i \<Rightarrow> i \<in> set is) [lk_source l, lk_target l]))"

definition link_key :: "conversation_link \<Rightarrow> int \<times> string" where
  "link_key l = (lk_created l, lk_id l)"

definition links_page_rows :: "actor option \<Rightarrow> string \<Rightarrow> string \<Rightarrow> (int \<times> string) option \<Rightarrow> int \<Rightarrow> 'x conv_db_scheme \<Rightarrow> conversation_link list" where
  "links_page_rows who w c before limit d =
     (let n = (if limit \<le> 0 \<or> limit > 500 then 100 else limit)
      in take (nat n) (rev (sort_key link_key (filter (\<lambda>l. lk_workspace l = w \<and> (lk_source l = c \<or> lk_target l = c) \<and>
           (case before of None \<Rightarrow> True | Some k \<Rightarrow> link_key l < k) \<and> both_visible who w d l) (cd_links d)))))"

definition links_page :: "request \<Rightarrow> string \<Rightarrow> string \<Rightarrow> (int \<times> string) option \<Rightarrow> int \<Rightarrow> ('x, conversation_link list) ctx" where
  "links_page rq w c before limit = tx_seq (by_id (rq_actor rq) w c) (sql_read (links_page_rows (rq_actor rq) w c before limit))"

definition ensure_in_workspace :: "string \<Rightarrow> string \<Rightarrow> ('x, unit) ctx" where
  "ensure_in_workspace w c = tx_bind (sql_read (conversation_row w c)) (\<lambda>row.
     if row = None then tx_fail (Err ConvNotFound) else tx_ret ())"

text \<open>The undirected relation is stored in the order of the identifiers.\<close>

definition link_ends :: "string \<Rightarrow> string \<Rightarrow> string \<Rightarrow> string \<times> string" where
  "link_ends rel a b = (if rel = ''related'' \<and> a > b then (b, a) else (a, b))"

definition same_link :: "string \<Rightarrow> string \<Rightarrow> string \<Rightarrow> string \<Rightarrow> conversation_link \<Rightarrow> bool" where
  "same_link w a b rel l \<longleftrightarrow> lk_workspace l = w \<and> lk_source l = a \<and> lk_target l = b \<and> lk_relation l = rel"

text \<open>INSERT ... ON CONFLICT DO NOTHING RETURNING; no row means the link was there.\<close>

definition insert_link :: "request \<Rightarrow> string \<Rightarrow> string \<Rightarrow> string \<Rightarrow> string \<Rightarrow> string \<Rightarrow> ('x, conversation_link option) ctx" where
  "insert_link rq w act a b rel = sql_checked (\<lambda>d.
     if list_ex (same_link w a b rel) (cd_links d) then Some (None, d)
     else if rq_ids rq 0 \<in> lk_id ` set (cd_links d) \<or> a = b \<or> rel \<notin> set link_relations
       \<or> a \<notin> cv_id ` set (cd_conversations d) \<or> b \<notin> cv_id ` set (cd_conversations d) then None
     else (let l = \<lparr> lk_id = rq_ids rq 0, lk_workspace = w, lk_source = a, lk_target = b, lk_relation = rel,
             lk_created_by = Some act, lk_created = rq_now rq \<rparr>
           in Some (Some l, d\<lparr>cd_links := cd_links d @ [l]\<rparr>)))"

definition link :: "request \<Rightarrow> string \<Rightarrow> string \<Rightarrow> string \<Rightarrow> string \<Rightarrow> string \<Rightarrow> ('x, conversation_link) ctx" where
  "link rq w act src tgt relation =
     (let rel = trim_space (to_lower relation) in
      if rel \<notin> set link_relations then tx_fail (Err ErrInvalidLinkRelation)
      else if src = tgt then tx_fail (Err ErrLinkToSelf)
      else case link_ends rel src tgt of (a, b) \<Rightarrow> with_tx
        (tx_seq (ensure_in_workspace w a) (tx_seq (ensure_in_workspace w b)
        (tx_bind (insert_link rq w act a b rel) (\<lambda>created. case created of
           None \<Rightarrow> tx_fail (Err ErrLinkAlreadyExists)
         | Some l \<Rightarrow>
             tx_seq (record_conv_audit rq 1 (conv_audit w ''user'' act ''conversation.linked'' a
               (Some (JObj [(''target_id'', JStr b), (''relation'', JStr rel)]))))
            (tx_seq (append_conv_event rq 2 (conv_event w ''conversation.linked'' a ''user'' act
               (JObj [(''id'', JStr (lk_id l)), (''source_id'', JStr a), (''target_id'', JStr b), (''relation'', JStr rel)])))
            (tx_ret l)))))))"

definition delete_link :: "string \<Rightarrow> string \<Rightarrow> string \<Rightarrow> string \<Rightarrow> ('x, string option) ctx" where
  "delete_link w a b rel = sql (\<lambda>d.
     (map_option lk_id (find (same_link w a b rel) (cd_links d)),
      d\<lparr>cd_links := delete_where (same_link w a b rel) (cd_links d)\<rparr>))"

definition unlink :: "request \<Rightarrow> string \<Rightarrow> string \<Rightarrow> string \<Rightarrow> string \<Rightarrow> string \<Rightarrow> ('x, unit) ctx" where
  "unlink rq w act c tgt relation =
     (let rel = trim_space (to_lower relation) in
      if rel \<notin> set link_relations then tx_fail (Err ErrInvalidLinkRelation)
      else case link_ends rel c tgt of (a, b) \<Rightarrow> with_tx
        (tx_bind (delete_link w a b rel) (\<lambda>gone. case gone of
           None \<Rightarrow> tx_fail (Err ConvNotFound)
         | Some i \<Rightarrow>
             tx_seq (record_conv_audit rq 0 (conv_audit w ''user'' act ''conversation.unlinked'' c
               (Some (JObj [(''target_id'', JStr b), (''relation'', JStr rel)]))))
            (append_conv_event rq 1 (conv_event w ''conversation.unlinked'' c ''user'' act
               (JObj [(''id'', JStr i), (''source_id'', JStr a), (''target_id'', JStr b), (''relation'', JStr rel)]))))))"

end
