(* ===== verification/ConversationSafety.thy ===== *)
theory ConversationSafety
  imports ConversationService "HOL-Library.Multiset"
begin

text \<open>
  What holds of conversations under every operation: the invariant of their tables whatever
  statement fails, the timeline as an abstract log of messages, restriction of a member to
  inboxes, and the decisions of the routing.
\<close>

section \<open>The invariant of the tables\<close>

definition conv_ok :: "conversation \<Rightarrow> bool" where
  "conv_ok c \<longleftrightarrow> cv_state c \<in> set (''snoozed'' # valid_states) \<and> (cv_state c = ''snoozed'' \<longleftrightarrow> cv_snoozed c \<noteq> None) \<and>
     cv_priority c \<in> set valid_priorities \<and> cv_channel c \<in> set channels \<and> 0 \<le> cv_count c \<and> utf8 (cv_preview c)"

text \<open>The unique indexes (conversation, sequence) and (conversation, client id).\<close>

definition slots :: "message list \<Rightarrow> (string \<times> int) list" where
  "slots ms = map (\<lambda>m. (mg_conversation m, mg_sequence m)) ms"

definition client_slots :: "message list \<Rightarrow> (string \<times> string option) list" where
  "client_slots ms = map (\<lambda>m. (mg_conversation m, mg_client m)) (filter (\<lambda>m. mg_client m \<noteq> None) ms)"

definition messages_ok :: "message list \<Rightarrow> bool" where
  "messages_ok ms \<longleftrightarrow> distinct (map mg_id ms) \<and> distinct (slots ms) \<and> distinct (client_slots ms) \<and>
     (\<forall>m \<in> set ms. 1 \<le> mg_sequence m)"

text \<open>The sequences of a conversation have no gap.\<close>

definition dense :: "message list \<Rightarrow> bool" where
  "dense ms \<longleftrightarrow> (\<forall>c. \<exists>n. mg_sequence ` {m \<in> set ms. mg_conversation m = c} = {1..n})"

definition in_workspace :: "string \<Rightarrow> string \<Rightarrow> conversation list \<Rightarrow> bool" where
  "in_workspace w c cs \<longleftrightarrow> (\<exists>r \<in> set cs. cv_id r = c \<and> cv_workspace r = w)"

definition links_ok :: "conversation_link list \<Rightarrow> bool" where
  "links_ok ls \<longleftrightarrow> distinct (map lk_id ls) \<and>
     distinct (map (\<lambda>l. (lk_workspace l, lk_source l, lk_target l, lk_relation l)) ls) \<and>
     (\<forall>l \<in> set ls. lk_source l \<noteq> lk_target l \<and> lk_relation l \<in> set link_relations \<and>
        (lk_relation l = ''related'' \<longrightarrow> lk_source l < lk_target l))"

definition conv_tables :: "'x conv_db_scheme \<Rightarrow> bool" where
  "conv_tables d \<longleftrightarrow> distinct (map cv_id (cd_conversations d)) \<and> list_all conv_ok (cd_conversations d) \<and>
     messages_ok (cd_messages d) \<and> dense (cd_messages d) \<and>
     (\<forall>m \<in> set (cd_messages d). in_workspace (mg_workspace m) (mg_conversation m) (cd_conversations d)) \<and>
     links_ok (cd_links d) \<and> distinct (cd_tags d) \<and> distinct (cd_followers d) \<and> distinct (map fst (cd_reads d))"

text \<open>The tables and the log, together with conversations and messages known to be there.\<close>

type_synonym message_tag = "string \<times> string \<times> string option"

definition tag_of :: "message \<Rightarrow> message_tag" where
  "tag_of m = (mg_id m, mg_conversation m, mg_client m)"

definition inv_with :: "(string \<times> string) set \<Rightarrow> message_tag set \<Rightarrow> 'x conv_db_scheme \<Rightarrow> bool" where
  "inv_with S T d \<longleftrightarrow> log_inv d \<and> conv_tables d \<and> (\<forall>(w, c) \<in> S. in_workspace w c (cd_conversations d)) \<and>
     T \<subseteq> tag_of ` set (cd_messages d)"

lemma log_inv_fields [simp]:
  "log_inv (a\<lparr>au_rows := r\<rparr>) = log_inv a" "log_inv (d\<lparr>cd_conversations := cs\<rparr>) = log_inv d"
  "log_inv (d\<lparr>cd_messages := ms\<rparr>) = log_inv d" "log_inv (d\<lparr>cd_history := h\<rparr>) = log_inv d"
  "log_inv (d\<lparr>cd_tags := t\<rparr>) = log_inv d" "log_inv (d\<lparr>cd_followers := f\<rparr>) = log_inv d"
  "log_inv (d\<lparr>cd_reads := rs\<rparr>) = log_inv d" "log_inv (d\<lparr>cd_revisions := v\<rparr>) = log_inv d"
  "log_inv (d\<lparr>cd_links := l\<rparr>) = log_inv d" "log_inv (d\<lparr>cd_cursors := cu\<rparr>) = log_inv d"
  by (simp_all add: log_inv_def rows_of_def next_of_def)

lemma in_workspace_update [simp]:
  assumes "\<And>r. cv_id (f r) = cv_id r \<and> cv_workspace (f r) = cv_workspace r"
  shows "in_workspace w c (update_where P f cs) = in_workspace w c cs"
  using assms by (induction cs) (auto simp: in_workspace_def)

lemma in_workspace_append [simp]:
  "in_workspace w c (cs @ ds) \<longleftrightarrow> in_workspace w c cs \<or> in_workspace w c ds"
  by (auto simp: in_workspace_def)

text \<open>Statements on the logs.\<close>

lemma keeps_append_conv_event [keeps]: "tx_keeps (inv_with S T) (append_conv_event rq k ev)"
proof -
  have "tx_keeps (\<lambda>d. log_inv d \<and> conv_tables d \<and> (\<forall>(w, c) \<in> S. in_workspace w c (cd_conversations d)) \<and> T \<subseteq> tag_of ` set (cd_messages d))
      (append_event i cz now ev :: ('a conv_db_scheme, conv_error, event_row) tx)" for i cz now
    by (intro keeps_conj keeps_append_log keeps_append_frame) (auto simp: conv_tables_def)
  then show ?thesis
    unfolding append_conv_event_def inv_with_def [abs_def] by (intro keeps_bind keeps_ret)
qed

lemma keeps_record_conv_audit [keeps]: "tx_keeps (inv_with S T) (record_conv_audit rq k e)"
proof -
  have "tx_keeps (inv_with S T) (record_tx i now a)" for i now a
    unfolding record_tx_def Let_def
    by (intro keeps_if keeps_fail keeps_sql_checked) (auto simp: inv_with_def conv_tables_def split: if_splits)
  then show ?thesis unfolding record_conv_audit_def by (intro keeps_if keeps_bind keeps_sql) auto
qed

text \<open>Statements on conversations.\<close>

lemma inv_with_rows:
  assumes "inv_with S T d" "\<And>r. cv_id (f r) = cv_id r \<and> cv_workspace (f r) = cv_workspace r"
    and "\<And>r. conv_ok r \<Longrightarrow> P r \<Longrightarrow> conv_ok (f r)"
  shows "inv_with S T (d\<lparr>cd_conversations := update_where P f (cd_conversations d)\<rparr>)"
proof -
  have "map cv_id (update_where P f (cd_conversations d)) = map cv_id (cd_conversations d)"
    by (rule map_update_where) (simp add: assms(2))
  moreover have "list_all conv_ok (update_where P f (cd_conversations d))"
    using assms(1,3) by (auto simp: inv_with_def conv_tables_def list_all_iff set_update_where)
  ultimately show ?thesis using assms(1,2) by (simp add: inv_with_def conv_tables_def)
qed

lemma keeps_rows [keeps]:
  "tx_keeps (inv_with S T) (set_assignee_row c m)" "tx_keeps (inv_with S T) (set_team_row c t)"
  "tx_keeps (inv_with S T) (set_inbox_row c i)"
  "p \<in> set valid_priorities \<Longrightarrow> tx_keeps (inv_with S T) (set_priority_row c p)"
  "st \<in> set valid_states \<Longrightarrow> tx_keeps (inv_with S T) (set_state_row c st)"
  "tx_keeps (inv_with S T) (snooze_row c until)"
  "tx_keeps (inv_with S T) (touch_conversation c pv cust at)"
  "tx_keeps (inv_with S T) (apply_merge c n pv at)"
  "tx_keeps (inv_with S T) (wake_rows now)"
  unfolding set_assignee_row_def set_team_row_def set_inbox_row_def set_priority_row_def set_state_row_def snooze_row_def
    update_conversation_def touch_conversation_def apply_merge_def wake_rows_def
  by (intro keeps_sql keeps_sql_checked keeps_if keeps_ret;
      auto simp: conv_ok_def valid_states_def touched_row_def merged_row_def split: if_splits intro!: inv_with_rows)+

text \<open>Statements on messages.\<close>

lemma last_sequence_ge: "m \<in> set (messages_of c d) \<Longrightarrow> mg_sequence m \<le> last_sequence c d"
  by (cases "messages_of c d") (auto simp: last_sequence_def intro!: Max_ge)

lemma last_sequence_cases: "last_sequence c d = 0 \<or> last_sequence c d \<in> mg_sequence ` set (messages_of c d)"
proof (cases "messages_of c d")
  case (Cons m ms)
  have "Max (set (mg_sequence m # map mg_sequence ms)) \<in> set (mg_sequence m # map mg_sequence ms)"
    by (rule Max_in) simp_all
  then show ?thesis by (auto simp: last_sequence_def Cons)
qed (simp add: last_sequence_def)

lemma messages_of_iff: "m \<in> set (messages_of c d) \<longleftrightarrow> m \<in> set (cd_messages d) \<and> mg_conversation m = c"
  by (auto simp: messages_of_def)

lemma last_sequence_nonneg: "messages_ok (cd_messages d) \<Longrightarrow> 0 \<le> last_sequence c d"
  using last_sequence_cases [of c d] by (force simp: messages_ok_def messages_of_iff)

lemma new_message_sel [simp]:
  "mg_id (new_message now i cl c w k at a n b s) = i" "mg_client (new_message now i cl c w k at a n b s) = cl"
  "mg_conversation (new_message now i cl c w k at a n b s) = c" "mg_workspace (new_message now i cl c w k at a n b s) = w"
  "mg_sequence (new_message now i cl c w k at a n b s) = s" "mg_kind (new_message now i cl c w k at a n b s) = k"
  "mg_body (new_message now i cl c w k at a n b s) = b" "mg_created (new_message now i cl c w k at a n b s) = now"
  by (simp_all add: new_message_def)

lemma messages_ok_append:
  assumes "messages_ok (cd_messages d)" "mg_id m \<notin> mg_id ` set (cd_messages d)"
    and "mg_client m = None \<or> mg_client m \<notin> mg_client ` set (messages_of (mg_conversation m) d)"
    and "mg_sequence m = last_sequence (mg_conversation m) d + 1"
  shows "messages_ok (cd_messages d @ [m])"
proof -
  have "(mg_conversation m, mg_sequence m) \<notin> set (slots (cd_messages d))"
  proof
    assume "(mg_conversation m, mg_sequence m) \<in> set (slots (cd_messages d))"
    then obtain n where n: "n \<in> set (messages_of (mg_conversation m) d)" "mg_sequence n = mg_sequence m"
      by (auto simp: slots_def messages_of_iff)
    from last_sequence_ge [OF n(1)] n(2) assms(4) show False by simp
  qed
  moreover have "(mg_conversation m, mg_client m) \<notin> set (client_slots (cd_messages d))"
    if "mg_client m \<noteq> None"
    using assms(3) that by (auto simp: client_slots_def messages_of_def)
  ultimately show ?thesis
    using assms(1,2,4) last_sequence_nonneg [OF assms(1)] by (auto simp: messages_ok_def slots_def client_slots_def)
qed

lemma dense_set:
  assumes "dense (cd_messages d)"
  shows "mg_sequence ` set (messages_of c d) = {1..last_sequence c d}"
proof -
  from assms obtain n where n: "mg_sequence ` set (messages_of c d) = {1..n}"
    unfolding dense_def messages_of_def set_filter by blast
  have "last_sequence c d = (if n \<le> 0 then 0 else n)"
  proof (cases "messages_of c d")
    case Nil
    then show ?thesis using n by (simp add: last_sequence_def)
  next
    case (Cons m ms)
    have "Max {1..k} = k" if "1 \<le> k" for k :: int using that by (intro Max_eqI) auto
    moreover have "last_sequence c d = Max {1..n}" using n Cons by (simp add: last_sequence_def)
    ultimately show ?thesis using n Cons by (cases "1 \<le> n") auto
  qed
  then show ?thesis using n by auto
qed

lemma dense_append:
  assumes "dense (cd_messages d)" "messages_ok (cd_messages d)" "mg_sequence m = last_sequence (mg_conversation m) d + 1"
  shows "dense (cd_messages d @ [m])"
proof -
  have s: "mg_sequence ` {x \<in> set (cd_messages d). mg_conversation x = c} = {1..last_sequence c d}" for c
    using dense_set [OF assms(1), of c] by (simp add: messages_of_def)
  have "mg_sequence ` {x \<in> set (cd_messages d @ [m]). mg_conversation x = c} =
      {1..last_sequence c d + (if mg_conversation m = c then 1 else 0)}" for c
  proof (cases "mg_conversation m = c")
    case True
    then have "{x \<in> set (cd_messages d @ [m]). mg_conversation x = c} = insert m {x \<in> set (cd_messages d). mg_conversation x = c}"
      by auto
    then show ?thesis using True s [of c] assms(3) last_sequence_nonneg [OF assms(2), of c] by auto
  next
    case False
    then have "{x \<in> set (cd_messages d @ [m]). mg_conversation x = c} = {x \<in> set (cd_messages d). mg_conversation x = c}" by auto
    then show ?thesis using False s by simp
  qed
  then show ?thesis unfolding dense_def by blast
qed

lemma keeps_insert_message [keeps]:
  assumes "(w, c) \<in> S"
  shows "tx_keeps (inv_with S T) (insert_message now i cl c w k at a n b)"
  unfolding insert_message_def Let_def
proof (intro keeps_sql_checked)
  fix d :: "'x conv_db_scheme" and m d'
  let ?m = "new_message now i cl c w k at a n b (last_sequence c d + 1)"
  assume d: "inv_with S T d" and s: "(if i \<in> mg_id ` set (cd_messages d) \<or> c \<notin> cv_id ` set (cd_conversations d) \<or>
      (cl \<noteq> None \<and> cl \<in> mg_client ` set (messages_of c d)) \<or> k \<notin> set message_kinds \<or> at \<notin> set author_types then None
      else Some (?m, d\<lparr>cd_messages := cd_messages d @ [?m]\<rparr>)) = Some (m, d')"
  have "messages_ok (cd_messages d @ [?m])"
    by (rule messages_ok_append) (use d s in \<open>auto simp: inv_with_def conv_tables_def split: if_splits\<close>)
  moreover have "dense (cd_messages d @ [?m])"
    by (rule dense_append) (use d in \<open>auto simp: inv_with_def conv_tables_def\<close>)
  moreover have "in_workspace w c (cd_conversations d)" using d assms by (auto simp: inv_with_def)
  moreover have "d' = d\<lparr>cd_messages := cd_messages d @ [?m]\<rparr>" using s by (auto split: if_splits)
  ultimately show "inv_with S T d'" using d by (auto simp: inv_with_def conv_tables_def)
qed

lemma messages_ok_update:
  assumes "messages_ok ms" "\<And>m. mg_id (f m) = mg_id m \<and> mg_client (f m) = mg_client m \<and>
    mg_conversation (f m) = mg_conversation m \<and> mg_sequence (f m) = mg_sequence m"
  shows "messages_ok (update_where P f ms)"
proof -
  have "map mg_id (update_where P f ms) = map mg_id ms" "slots (update_where P f ms) = slots ms"
    unfolding slots_def by (rule map_update_where; simp add: assms(2))+
  moreover have "client_slots (update_where P f ms) = client_slots ms"
    by (induction ms) (simp_all add: client_slots_def assms(2))
  ultimately show ?thesis using assms by (auto simp: messages_ok_def set_update_where)
qed

lemma dense_update:
  assumes "dense ms" "\<And>m. mg_conversation (f m) = mg_conversation m \<and> mg_sequence (f m) = mg_sequence m"
  shows "dense (update_where P f ms)"
proof -
  have "mg_sequence ` {m \<in> set (update_where P f ms). mg_conversation m = c} = mg_sequence ` {m \<in> set ms. mg_conversation m = c}" for c
    by (induction ms) (auto simp: assms(2) image_iff Collect_conv_if Collect_disj_eq conj_disj_distribR)
  then show ?thesis using assms(1) by (simp add: dense_def)
qed

lemma keeps_update_message:
  assumes "\<And>m. mg_id (f m) = mg_id m \<and> mg_client (f m) = mg_client m \<and> mg_conversation (f m) = mg_conversation m \<and>
    mg_sequence (f m) = mg_sequence m \<and> mg_workspace (f m) = mg_workspace m"
  shows "tx_keeps (inv_with S T) (update_message i f)"
  unfolding update_message_def
proof (intro keeps_sql)
  fix d :: "'x conv_db_scheme" assume d: "inv_with S T d"
  have "map tag_of (update_where (\<lambda>m. mg_id m = i) f (cd_messages d)) = map tag_of (cd_messages d)"
    by (rule map_update_where) (simp add: tag_of_def assms)
  then have "tag_of ` set (update_where (\<lambda>m. mg_id m = i) f (cd_messages d)) = tag_of ` set (cd_messages d)"
    by (metis image_set)
  then show "inv_with S T (snd ((), d\<lparr>cd_messages := update_where (\<lambda>m. mg_id m = i) f (cd_messages d)\<rparr>))"
    using d assms by (auto simp: inv_with_def conv_tables_def set_update_where intro!: messages_ok_update dense_update)
qed

lemma keeps_edits [keeps]:
  "tx_keeps (inv_with S T) (update_message_body now m b)" "tx_keeps (inv_with S T) (redact_message_row now m)"
  unfolding update_message_body_def redact_message_row_def by (simp_all add: keeps_update_message)

text \<open>Statements on the other tables.\<close>

lemma keeps_small [keeps]:
  "tx_keeps (inv_with S T) (insert_status_history i now c fr to at a)"
  "tx_keeps (inv_with S T) (insert_revision i m b e)"
  "tx_keeps (inv_with S T) (add_tag_row c t)" "tx_keeps (inv_with S T) (remove_tag_row c t)"
  "tx_keeps (inv_with S T) (follow_row c m)" "tx_keeps (inv_with S T) (unfollow_row c m)"
  "tx_keeps (inv_with S T) (advance_cursor_row t)"
  unfolding insert_status_history_def insert_revision_def add_tag_row_def remove_tag_row_def follow_row_def unfollow_row_def
    advance_cursor_row_def
  by (intro keeps_sql keeps_sql_checked; auto simp: inv_with_def conv_tables_def delete_where_def split: if_splits option.splits)+

lemma keeps_mark_read_row [keeps]: "tx_keeps (inv_with S T) (mark_read_row now m ty r)"
  unfolding mark_read_row_def
proof (intro keeps_sql)
  fix d :: "'x conv_db_scheme" assume d: "inv_with S T d"
  have "map fst (update_where (\<lambda>x. fst x = (m, ty, r)) (\<lambda>x. (fst x, now)) (cd_reads d)) = map fst (cd_reads d)"
    by (rule map_update_where) simp
  then show "inv_with S T (snd ((), if (m, ty, r) \<in> fst ` set (cd_reads d)
      then d\<lparr>cd_reads := update_where (\<lambda>x. fst x = (m, ty, r)) (\<lambda>x. (fst x, now)) (cd_reads d)\<rparr>
      else d\<lparr>cd_reads := cd_reads d @ [((m, ty, r), now)]\<rparr>))"
    using d by (auto simp: inv_with_def conv_tables_def)
qed

lemma keeps_links:
  "a \<noteq> b \<Longrightarrow> rel \<in> set link_relations \<Longrightarrow> (rel = ''related'' \<Longrightarrow> a < b) \<Longrightarrow> tx_keeps (inv_with S T) (insert_link rq w act a b rel)"
  "tx_keeps (inv_with S T) (delete_link w a b rel)"
  unfolding insert_link_def delete_link_def Let_def
  by (intro keeps_sql keeps_sql_checked;
      auto simp: inv_with_def conv_tables_def links_ok_def delete_where_def distinct_map_filter same_link_def list_ex_iff split: if_splits)+

lemma keeps_insert_conversation [keeps]:
  "tx_keeps (inv_with S T) (insert_conversation now i w inbox channel subj cust visitor)"
  unfolding insert_conversation_def
  by (intro keeps_sql_checked) (auto simp: inv_with_def conv_tables_def conv_ok_def valid_states_def valid_priorities_def split: if_splits)

text \<open>Merging: the moved rows get fresh sequences of the target in their old order.\<close>

lemma row_number_mono:
  assumes "n \<in> set ms" "mg_sequence m < mg_sequence n"
  shows "row_number ms m < row_number ms n"
proof -
  let ?A = "\<lambda>k. filter (\<lambda>x. mg_sequence x \<le> k) ms"
  have e: "?A (mg_sequence m) = filter (\<lambda>x. mg_sequence x \<le> mg_sequence m) (?A (mg_sequence n))"
    using assms(2) by (auto simp: filter_filter intro!: filter_cong)
  have "length (filter (\<lambda>x. mg_sequence x \<le> mg_sequence m) (?A (mg_sequence n))) < length (?A (mg_sequence n))"
    by (rule length_filter_less [of n]) (use assms in auto)
  then show ?thesis unfolding row_number_def by (simp only: e [symmetric] of_nat_less_iff)
qed

lemma row_number_pos: "m \<in> set ms \<Longrightarrow> 1 \<le> row_number ms m"
  by (induction ms) (auto simp: row_number_def)

lemma row_number_inj: "m \<in> set ms \<Longrightarrow> n \<in> set ms \<Longrightarrow> row_number ms m = row_number ms n \<Longrightarrow> mg_sequence m = mg_sequence n"
  by (metis linorder_less_linear order_less_irrefl row_number_mono)

lemma moved_row_sel [simp]:
  "mg_id (moved_row t b ms m) = mg_id m" "mg_client (moved_row t b ms m) = mg_client m"
  "mg_conversation (moved_row t b ms m) = t" "mg_sequence (moved_row t b ms m) = b + row_number ms m"
  "mg_workspace (moved_row t b ms m) = mg_workspace m" "mg_body (moved_row t b ms m) = mg_body m"
  "mg_kind (moved_row t b ms m) = mg_kind m" "mg_redacted (moved_row t b ms m) = mg_redacted m"
  by (simp_all add: moved_row_def)

lemma distinct_map_update:
  assumes "distinct (map key t)" "\<And>r. key (f r) = key r"
    and "\<And>r s. r \<in> set t \<Longrightarrow> s \<in> set t \<Longrightarrow>
      val (if P r then f r else r) = val (if P s then f s else s) \<Longrightarrow> r = s"
  shows "distinct (map val (update_where P f t))"
  using assms by (auto simp: update_where_def distinct_map inj_on_def)

lemma messages_ok_moved:
  assumes ok: "messages_ok (cd_messages d)" and ne: "src \<noteq> tgt"
    and clients: "\<forall>a \<in> set (messages_of src d). \<forall>b \<in> set (messages_of tgt d). mg_client a \<noteq> None \<longrightarrow> mg_client a \<noteq> mg_client b"
  shows "messages_ok (update_where (\<lambda>m. mg_conversation m = src)
    (moved_row tgt (last_sequence tgt d) (messages_of src d)) (cd_messages d))"
proof -
  let ?ms = "messages_of src d" and ?b = "last_sequence tgt d" and ?t = "cd_messages d"
  let ?f = "moved_row tgt ?b ?ms" and ?P = "\<lambda>m. mg_conversation m = src"
  let ?u = "\<lambda>m. if ?P m then ?f m else m"
  have ids: "distinct (map mg_id ?t)" and slot: "distinct (slots ?t)" and client: "distinct (client_slots ?t)"
    using ok by (auto simp: messages_ok_def)
  have src: "\<And>m. m \<in> set ?t \<Longrightarrow> mg_conversation m = src \<Longrightarrow> m \<in> set ?ms" by (simp add: messages_of_iff)
  have same: "m = n" if "m \<in> set ?t" "n \<in> set ?t" "mg_conversation m = mg_conversation n" "mg_sequence m = mg_sequence n" for m n
    using slot that by (auto simp: slots_def distinct_map inj_on_def)
  have above: "mg_sequence m \<le> ?b" if "m \<in> set ?t" "mg_conversation m = tgt" for m
    using last_sequence_ge [of m tgt d] that by (simp add: messages_of_iff)
  have "map mg_id (update_where ?P ?f ?t) = map mg_id ?t" by (rule map_update_where) simp
  moreover have "distinct (slots (update_where ?P ?f ?t))"
    unfolding slots_def
  proof (rule distinct_map_update [OF ids])
    fix m n assume mn: "m \<in> set ?t" "n \<in> set ?t"
      and eq: "(mg_conversation (?u m), mg_sequence (?u m)) = (mg_conversation (?u n), mg_sequence (?u n))"
    have apart: False if "x \<in> set ?t" "mg_conversation x = src" "y \<in> set ?t" "mg_conversation y = tgt"
      "?b + row_number ?ms x = mg_sequence y" for x y
      using above [OF that(3,4)] row_number_pos [OF src [OF that(1,2)]] that(5) by linarith
    show "m = n"
    proof (cases "mg_conversation m = src"; cases "mg_conversation n = src")
      assume "mg_conversation m = src" "mg_conversation n = src"
      with row_number_inj [of m ?ms n] eq mn src show ?thesis by (intro same) simp_all
    next
      assume "mg_conversation m = src" "mg_conversation n \<noteq> src"
      with apart [of m n] eq mn show ?thesis by auto
    next
      assume "mg_conversation m \<noteq> src" "mg_conversation n = src"
      with apart [of n m] eq mn show ?thesis by auto
    next
      assume "mg_conversation m \<noteq> src" "mg_conversation n \<noteq> src"
      with eq mn show ?thesis by (intro same) simp_all
    qed
  qed simp
  moreover have "distinct (client_slots (update_where ?P ?f ?t))"
  proof -
    have f: "filter (\<lambda>m. mg_client m \<noteq> None) (update_where ?P ?f ?t) = update_where ?P ?f (filter (\<lambda>m. mg_client m \<noteq> None) ?t)"
      by (induction ?t) (simp_all add: update_where_def filter_map o_def cong: if_cong)
    have same': "m = n" if "m \<in> set ?t" "n \<in> set ?t" "mg_conversation m = mg_conversation n" "mg_client m = mg_client n" "mg_client m \<noteq> None" for m n
      using client that by (auto simp: client_slots_def distinct_map inj_on_def)
    have clients': False if "mg_client a = Some x" "mg_client b = Some x" "a \<in> set ?t" "b \<in> set ?t"
      "mg_conversation a = src" "mg_conversation b = tgt" for a b x
      using clients [rule_format, of a b] that by (simp add: messages_of_iff)
    show ?thesis
      unfolding client_slots_def f
      by (rule distinct_map_update [where key = mg_id])
        (use ids same' ne in \<open>auto simp: distinct_map_filter split: if_splits dest: clients'\<close>)
  qed
  moreover have "1 \<le> mg_sequence m" if "m \<in> set (update_where ?P ?f ?t)" for m
    using that ok src row_number_pos [of _ ?ms] last_sequence_nonneg [OF ok, of tgt]
    by (fastforce simp: set_update_where messages_ok_def split: if_splits)
  ultimately show ?thesis using ids by (simp add: messages_ok_def)
qed

text \<open>Without gaps the row number of a message is its sequence.\<close>

lemma row_number_dense:
  assumes "distinct (map mg_sequence ms)" "mg_sequence ` set ms = {1..n}" "m \<in> set ms"
  shows "row_number ms m = mg_sequence m"
proof -
  let ?f = "filter (\<lambda>x. mg_sequence x \<le> mg_sequence m) ms"
  have "mg_sequence ` set ?f = {s \<in> mg_sequence ` set ms. s \<le> mg_sequence m}" by auto
  also have "\<dots> = {1..mg_sequence m}"
  proof -
    have "mg_sequence m \<in> {1..n}" using assms(2,3) by blast
    then show ?thesis unfolding assms(2) by auto
  qed
  finally have "card (mg_sequence ` set ?f) = nat (mg_sequence m)" by simp
  moreover have "card (set (map mg_sequence ?f)) = length (map mg_sequence ?f)"
    by (rule distinct_card) (rule distinct_map_filter [OF assms(1)])
  ultimately have "length ?f = nat (mg_sequence m)" by simp
  moreover have "1 \<le> mg_sequence m" using assms(2,3) by auto
  ultimately show ?thesis unfolding row_number_def by simp
qed

lemma distinct_sequences:
  assumes "messages_ok (cd_messages d)"
  shows "distinct (map mg_sequence (messages_of c d))"
proof -
  have "distinct (slots (cd_messages d))" "distinct (map mg_id (cd_messages d))"
    using assms by (auto simp: messages_ok_def)
  then have "distinct (cd_messages d)" "inj_on (\<lambda>m. (mg_conversation m, mg_sequence m)) (set (cd_messages d))"
    by (auto simp: slots_def distinct_map)
  then show ?thesis by (auto simp: distinct_map inj_on_def messages_of_def)
qed

lemma set_moved:
  assumes "src \<noteq> tgt" "\<And>m. mg_conversation (f m) = tgt"
  shows "{m \<in> set (update_where (\<lambda>m. mg_conversation m = src) f (cd_messages d)). mg_conversation m = c} =
    (if c = src then {} else if c = tgt then set (messages_of tgt d) \<union> f ` set (messages_of src d) else set (messages_of c d))"
  using assms by (auto simp: update_where_def messages_of_def)

lemma dense_moved:
  assumes ok: "messages_ok (cd_messages d)" and dn: "dense (cd_messages d)" and ne: "src \<noteq> tgt"
  shows "dense (update_where (\<lambda>m. mg_conversation m = src)
    (moved_row tgt (last_sequence tgt d) (messages_of src d)) (cd_messages d))"
proof -
  let ?b = "last_sequence tgt d" and ?k = "last_sequence src d" and ?ms = "messages_of src d"
  let ?f = "moved_row tgt ?b ?ms"
  have s: "mg_sequence ` set (messages_of c d) = {1..last_sequence c d}" for c by (rule dense_set [OF dn])
  have "mg_sequence ` ?f ` set ?ms = (\<lambda>x. ?b + x) ` mg_sequence ` set ?ms"
    using row_number_dense [OF distinct_sequences [OF ok] s] by (force simp: image_image)
  also have "\<dots> = {?b + 1..?b + ?k}" by (simp add: s add.commute)
  finally have t: "mg_sequence ` (set (messages_of tgt d) \<union> ?f ` set ?ms) = {1..?b + ?k}"
    unfolding image_Un s using last_sequence_nonneg [OF ok, of tgt] last_sequence_nonneg [OF ok, of src] by auto
  show ?thesis
    unfolding dense_def
  proof
    fix c
    show "\<exists>n. mg_sequence ` {m \<in> set (update_where (\<lambda>m. mg_conversation m = src) ?f (cd_messages d)). mg_conversation m = c} = {1..n}"
      by (cases "c = src"; cases "c = tgt")
        (use ne t s in \<open>auto simp: set_moved [OF ne] simp del: image_Un intro: exI [of _ 0]\<close>)
  qed
qed

lemma keeps_move_messages [keeps]:
  assumes "src \<noteq> tgt" "(w, src) \<in> S" "(w, tgt) \<in> S" and T: "\<And>i cl. (i, src, cl) \<notin> T"
  shows "tx_keeps (inv_with S T) (move_messages z src tgt)"
  unfolding move_messages_def Let_def
proof (intro keeps_sql_checked)
  fix d :: "'x conv_db_scheme" and r d'
  let ?f = "moved_row tgt (last_sequence tgt d) (messages_of src d)" and ?P = "\<lambda>m. mg_conversation m = src"
  let ?moved = "update_where ?P ?f (cd_messages d)"
  assume d: "inv_with S T d" and s: "(if (messages_of src d \<noteq> [] \<and> tgt \<notin> cv_id ` set (cd_conversations d)) \<or>
      (\<exists>a \<in> set (messages_of src d). \<exists>b \<in> set (messages_of tgt d). mg_client a \<noteq> None \<and> mg_client a = mg_client b) then None
    else Some ((length (messages_of src d), latest_of (messages_of src d) ('''', z)), d\<lparr>cd_messages := ?moved\<rparr>)) = Some (r, d')"
  have u: "a = b" if "a \<in> set (cd_conversations d)" "b \<in> set (cd_conversations d)" "cv_id a = cv_id b" for a b
    using d that by (auto simp: inv_with_def conv_tables_def distinct_map inj_on_def)
  have there: "in_workspace w src (cd_conversations d)" "in_workspace w tgt (cd_conversations d)"
    using d assms(2,3) by (auto simp: inv_with_def)
  have "messages_ok ?moved"
    by (rule messages_ok_moved) (use d s assms(1) in \<open>auto simp: inv_with_def conv_tables_def split: if_splits\<close>)
  moreover have "dense ?moved"
    by (rule dense_moved) (use d assms(1) in \<open>auto simp: inv_with_def conv_tables_def\<close>)
  moreover have "in_workspace (mg_workspace m) (mg_conversation m) (cd_conversations d)" if m: "m \<in> set ?moved" for m
  proof -
    from m [unfolded set_update_where] obtain n where n: "n \<in> set (cd_messages d)" "m = (if ?P n then ?f n else n)" by blast
    have i: "in_workspace (mg_workspace n) (mg_conversation n) (cd_conversations d)"
      using d n(1) by (auto simp: inv_with_def conv_tables_def)
    show ?thesis
    proof (cases "?P n")
      case True
      have "mg_workspace n = w" using i there(1) u True unfolding in_workspace_def by metis
      then show ?thesis using n(2) True there(2) by simp
    qed (use i n(2) in simp)
  qed
  moreover have "T \<subseteq> tag_of ` set ?moved"
  proof
    fix t assume t: "t \<in> T"
    then obtain m where m: "m \<in> set (cd_messages d)" "t = tag_of m" using d by (auto simp: inv_with_def)
    then have "mg_conversation m \<noteq> src" using T [of "mg_id m" "mg_client m"] t by (auto simp: tag_of_def)
    then have "m \<in> set ?moved" using m(1) unfolding set_update_where by (intro bexI [of _ m]) simp_all
    then show "t \<in> tag_of ` set ?moved" using m(2) by blast
  qed
  moreover have "d' = d\<lparr>cd_messages := ?moved\<rparr>" using s by (auto split: if_splits)
  ultimately show "inv_with S T d'" using d by (simp add: inv_with_def conv_tables_def)
qed

section \<open>Every operation keeps the invariant\<close>

text \<open>Rows that were read belong to the workspace of the request.\<close>

lemma conversation_row_Some: "conversation_row w c d = Some cv \<Longrightarrow> cv \<in> set (cd_conversations d) \<and> cv_id cv = c \<and> cv_workspace cv = w"
  by (auto simp: conversation_row_def filter_eq_Cons_iff split: list.splits)

lemma keeps_visible:
  assumes "\<And>cv. cv_id cv = c \<Longrightarrow> cv_workspace cv = w \<Longrightarrow> tx_keeps (inv_with (insert (w, c) S) T) (k cv)"
  shows "tx_keeps (inv_with S T) (tx_bind (tx_bind (sql_read (conversation_row w c)) (visible_row who)) k)"
proof (unfold tx_keeps_def, intro allI impI)
  fix d :: "'a conv_db_scheme" and fs
  assume d: "inv_with S T d"
  show "inv_with S T (fst (snd (tx_bind (tx_bind (sql_read (conversation_row w c)) (visible_row who)) k (d, fs))))"
  proof (cases "faulty fs \<or> conversation_row w c d = None")
    case True
    then show ?thesis using d
      by (auto simp: tx_bind_def sql_def visible_row_def tx_fail_def split: prod.splits sum.splits)
  next
    case False
    then obtain cv where cv: "conversation_row w c d = Some cv" by auto
    from conversation_row_Some [OF cv] have s: "inv_with (insert (w, c) S) T d"
      using d by (auto simp: inv_with_def in_workspace_def)
    from keeps_run [OF assms this, of cv "tl fs"] conversation_row_Some [OF cv] have "inv_with S T (fst (snd (k cv (d, tl fs))))"
      by (auto simp: inv_with_def)
    then show ?thesis using False cv d
      by (auto simp: tx_bind_def sql_def visible_row_def tx_ret_def tx_fail_def split: prod.splits sum.splits)
  qed
qed

lemmas keeps_locks = keeps_visible [folded lock_and_load_def] keeps_visible [folded lock_and_load_full_def]

lemma keeps_lock_conversation:
  assumes "tx_keeps (inv_with (insert (w, c) S) T) k"
  shows "tx_keeps (inv_with S T) (tx_seq (lock_conversation who w c) k)"
proof -
  have "tx_seq (lock_conversation who w c) k = tx_bind (tx_bind (sql_read (conversation_row w c)) (visible_row who)) (\<lambda>_. k)"
    by (rule ext) (auto simp: lock_conversation_def tx_bind_def tx_ret_def split: prod.split sum.split)
  then show ?thesis by (simp only:) (rule keeps_visible [OF assms])
qed

lemma keeps_by_id [keeps]: "tx_keeps (inv_with S T) (by_id who w c)"
  unfolding by_id_def visible_row_def by (auto intro!: keeps split: option.split)

lemma keeps_check_some [keeps]: "tx_keeps (inv_with S T) (check_some p v e)"
  unfolding check_some_def by (auto intro!: keeps split: option.split)

lemma keeps_change:
  "(\<And>cv. tx_keeps (inv_with (insert (w, c) S) T) (body cv)) \<Longrightarrow> tx_keeps (inv_with S T) (change_conversation rq w c body)"
  unfolding change_conversation_def by (intro keeps_bind keeps_with_tx keeps_by_id keeps_locks)

lemma keeps_assign_body [keeps]: "tx_keeps (inv_with S T) (assign_body rq w act c m extra cv)"
  unfolding assign_body_def by (intro keeps)

lemma keeps_state_body: "st \<in> set valid_states \<Longrightarrow> tx_keeps (inv_with S T) (state_body rq w act c st extra cv)"
  unfolding state_body_def by (intro keeps)

text \<open>The file store writes to tables of its own.\<close>

definition stores_elsewhere :: "'x attachments \<Rightarrow> bool" where
  "stores_elsewhere sets \<longleftrightarrow> (\<forall>fids f. (fids, Some f) \<in> set sets \<longrightarrow> (\<forall>w m is. reads_only (f w m is)))"

lemma keeps_attach:
  assumes "stores_elsewhere sets"
  shows "tx_keeps I (attach_message w m sets)"
  unfolding attach_message_def
  by (intro keeps_each) (use assms in \<open>auto simp: stores_elsewhere_def intro!: keeps keeps_reads_only split: option.split\<close>)

lemma keeps_validate_mentions [keeps]: "tx_keeps I (validate_mentions w seen ms)"
proof (induction ms arbitrary: seen)
  case (Cons m ms)
  show ?case
    by (simp only: validate_mentions.simps) (intro keeps_if keeps_fail keeps_bind keeps_sql Cons.IH; simp)
qed (simp add: keeps_ret)

lemma keeps_routing_matches [keeps]: "tx_keeps I (routing_team_matches sprint w cust config)"
  unfolding routing_team_matches_def by (auto intro!: keeps split: option.split)

lemma keeps_first_match [keeps]: "tx_keeps I (first_match sprint w cust t ts)"
  by (induction ts) (auto intro!: keeps)

declare first_match.simps [simp del]

lemma keeps_consume [keeps]: "tx_keeps (inv_with S T) (consume_round_robin t n)"
  unfolding consume_round_robin_def take_turn_def
  by (auto intro!: keeps simp: inv_with_def conv_tables_def split: option.split)

lemma keeps_pick [keeps]: "tx_keeps (inv_with S T) (pick_assignee w c cust t)"
  unfolding pick_assignee_def by (auto intro!: keeps split: option.split)

lemma keeps_route_to [keeps]: "tx_keeps (inv_with S T) (route_to rq w c t a)"
  unfolding route_to_def by (intro keeps)

lemma keeps_route [keeps]: "tx_keeps (inv_with S T) (route_new_conversation sprint rq w c inbox cust)"
proof -
  have "tx_keeps (inv_with S T) (tx_bind (first_match sprint w cust t0 ts) (\<lambda>t.
      tx_bind (sql_read (\<lambda>d. (inbox, rt_id t) \<in> set (cd_inbox_teams d))) (\<lambda>there.
        if \<not> there then tx_fail (Msg ''no rows in result set'')
        else tx_seq (sql_read (\<lambda>d. ())) (tx_bind (pick_assignee w c cust t) (route_to rq w c t)))))" for t0 ts
    by (intro keeps_bind keeps_first_match keeps_sql keeps_if keeps_fail keeps_pick keeps_route_to) simp_all
  then show ?thesis
    unfolding route_new_conversation_def
    by (intro keeps_bind keeps_sql) (auto intro: keeps_ret split: list.split)
qed

lemma keeps_start:
  assumes "stores_elsewhere sets"
  shows "tx_keeps (inv_with S T) (start_conversation sprint rq w inbox channel subj cust visitor author body sets)"
  unfolding start_conversation_def start_body_def Let_def
  by (intro keeps_if keeps_fail keeps_bind [OF keeps_with_tx] keeps_bind [OF keeps_by_id] keeps_ret
      keeps_bind [OF keeps_insert_conversation] keeps_bind [OF keeps_route] keeps_lock_conversation
      keeps_bind [OF keeps_insert_message] keeps_bind [OF keeps_attach] keeps_bind [OF keeps_rows(7)]
      keeps_bind [OF keeps_append_conv_event] assms) simp

lemma keeps_write_message:
  assumes "stores_elsewhere sets" "(w, cv_id cv) \<in> S"
  shows "tx_keeps (inv_with S T) (write_message rq w cv cl kind at a n body ms sets)"
  unfolding write_message_def
  by (intro keeps_bind keeps_validate_mentions keeps_insert_message keeps_attach keeps_if keeps_rows keeps_ret
      keeps_append_conv_event assms)

lemma keeps_post:
  assumes "stores_elsewhere sets"
  shows "tx_keeps (inv_with S T) (post_message rq w c cl kind at a n body ms sets)"
  unfolding post_message_def Let_def
  by (intro keeps_if keeps_fail keeps_with_tx keeps_locks)
    (auto intro!: keeps keeps_write_message assms split: option.split)

lemma keeps_changes:
  "tx_keeps (inv_with S T) (set_assignee rq w act c m)" "tx_keeps (inv_with S T) (set_team rq w act c t)"
  "tx_keeps (inv_with S T) (set_inbox rq w act c i)" "tx_keeps (inv_with S T) (set_priority rq w act c p)"
  "tx_keeps (inv_with S T) (set_state rq w act c st)" "tx_keeps (inv_with S T) (snooze rq w act c until)"
  unfolding set_assignee_def set_team_def set_inbox_def set_priority_def set_state_def snooze_def inbox_in_workspace_def
  by (auto intro!: keeps keeps_change keeps_state_body)

lemma keeps_log_wakes: "tx_keeps (inv_with S T) (log_wakes rq rs)"
  by (induction rq rs rule: log_wakes.induct) (auto simp: log_wake_def intro!: keeps split: prod.split)

lemma keeps_wake: "tx_keeps (inv_with S T) (wake_snoozed rq)"
  unfolding wake_snoozed_def by (intro keeps_bind keeps_rows keeps_log_wakes keeps_ret)

lemma keeps_bulk_each:
  assumes "\<And>st. a = BulkState st \<Longrightarrow> st \<in> set valid_states"
  shows "tx_keeps (inv_with S T) (bulk_each rq w act a cs)"
proof (induction cs arbitrary: rq)
  case (Cons c cs)
  have "tx_keeps (inv_with S T) (bulk_one rq w act a c)"
    unfolding bulk_one_def
    by (intro keeps_locks) (use assms in \<open>auto intro!: keeps keeps_state_body split: bulk_action.split\<close>)
  then show ?case using Cons.IH by (auto intro: keeps_bind)
qed (simp add: keeps_ret)

lemma keeps_bulk: "tx_keeps (inv_with S T) (bulk_update rq w act cs a)"
proof -
  have "tx_keeps (inv_with S T) (tx_seq (check_bulk w a) (tx_seq (with_tx (bulk_each rq w act a us)) (tx_map (by_id (rq_actor rq) w) us)))" for us
  proof (cases "\<exists>st. a = BulkState st \<and> st \<notin> set valid_states")
    case True
    then show ?thesis by (auto simp: check_bulk_def tx_keeps_def tx_bind_def tx_fail_def)
  next
    case False
    have "tx_keeps (inv_with S T) (check_bulk w a)"
      unfolding check_bulk_def by (auto intro!: keeps split: bulk_action.split)
    with False show ?thesis
      by (intro keeps_bind keeps_with_tx keeps_bulk_each keeps_map keeps_by_id) auto
  qed
  then show ?thesis unfolding bulk_update_def by (auto intro!: keeps_if keeps_fail split: option.split)
qed

lemma keeps_tags:
  "tx_keeps (inv_with S T) (add_tag rq w act c t)" "tx_keeps (inv_with S T) (remove_tag rq w act c t)"
  "tx_keeps (inv_with S T) (follow rq w c m)" "tx_keeps (inv_with S T) (unfollow rq w c m)"
  "tx_keeps (inv_with S T) (mark_read rq w c m)"
  unfolding add_tag_def remove_tag_def follow_def unfollow_def mark_read_def
  by (auto intro!: keeps keeps_locks)

lemma keeps_edit:
  "tx_keeps (inv_with S T) (edit_message rq w act c m body)" "tx_keeps (inv_with S T) (redact_message rq w act c m)"
  unfolding edit_message_def redact_message_def load_message_for_edit_def Let_def
  by (auto intro!: keeps split: option.split)

lemma keeps_merge:
  assumes T: "\<And>i cl. (i, src, cl) \<notin> T"
  shows "tx_keeps (inv_with S T) (merge rq w act src tgt)"
proof -
  have "tx_keeps (inv_with (insert (w, max src tgt) (insert (w, min src tgt) S)) T) (move_messages zero_time src tgt)"
    if "src \<noteq> tgt"
    by (rule keeps_move_messages [of _ _ w]) (use that T in \<open>auto simp: min_def max_def\<close>)
  moreover have "''closed'' \<in> set valid_states" by (simp add: valid_states_def)
  ultimately show ?thesis
    unfolding merge_def merge_body_def Let_def
    by (intro keeps_if keeps_fail keeps_with_tx keeps_locks keeps_bind) (auto intro!: keeps split: prod.split)
qed

lemma keeps_link:
  "tx_keeps (inv_with S T) (link rq w act src tgt rel)" "tx_keeps (inv_with S T) (unlink rq w act src tgt rel)"
proof -
  let ?r = "trim_space (to_lower rel)"
  have "tx_keeps (inv_with S T) (insert_link rq w act a b ?r)"
    if "link_ends ?r src tgt = (a, b)" "src \<noteq> tgt" "?r \<in> set link_relations" for a b
    by (rule keeps_links) (use that in \<open>auto simp: link_ends_def split: if_splits\<close>)
  then show "tx_keeps (inv_with S T) (link rq w act src tgt rel)"
    unfolding link_def ensure_in_workspace_def Let_def
    by (intro keeps_if keeps_fail) (auto intro!: keeps split: prod.split option.split)
  show "tx_keeps (inv_with S T) (unlink rq w act src tgt rel)"
    unfolding unlink_def Let_def by (auto intro!: keeps keeps_links(2) split: prod.split option.split)
qed

section \<open>Runs\<close>

datatype conv_action =
    DoStart "json \<Rightarrow> string" string string string "string option" "string option" "string option" string string "unit attachments"
  | DoPost string string "string option" string string "string option" string string "string list" "unit attachments"
  | DoAssign string string string "string option"
  | DoTeam string string string "string option"
  | DoInbox string string string string
  | DoPriority string string string string
  | DoState string string string string
  | DoSnooze string string string int
  | DoWake
  | DoBulk string string "string list" bulk_action
  | DoAddTag string string string string
  | DoRemoveTag string string string string
  | DoFollow string string string
  | DoUnfollow string string string
  | DoMarkRead string string string
  | DoEdit string string string string string
  | DoRedact string string string string
  | DoMerge string string string string
  | DoLink string string string string string
  | DoUnlink string string string string string

abbreviation run_tx :: "(unit, 'a) ctx \<Rightarrow> bool list \<Rightarrow> conv_db \<Rightarrow> conv_db" where
  "run_tx m fs d \<equiv> fst (snd (m (d, fs)))"

definition conv_act :: "request \<Rightarrow> conv_action \<Rightarrow> bool list \<Rightarrow> conv_db \<Rightarrow> conv_db" where
  "conv_act rq a fs d = (case a of
     DoStart sp w i ch sj cu v n b sets \<Rightarrow> run_tx (start_conversation sp rq w i ch sj cu v n b sets) fs d
   | DoPost w c cl k at au n b ms sets \<Rightarrow> run_tx (post_message rq w c cl k at au n b ms sets) fs d
   | DoAssign w act c m \<Rightarrow> run_tx (set_assignee rq w act c m) fs d
   | DoTeam w act c t \<Rightarrow> run_tx (set_team rq w act c t) fs d
   | DoInbox w act c i \<Rightarrow> run_tx (set_inbox rq w act c i) fs d
   | DoPriority w act c p \<Rightarrow> run_tx (set_priority rq w act c p) fs d
   | DoState w act c st \<Rightarrow> run_tx (set_state rq w act c st) fs d
   | DoSnooze w act c t \<Rightarrow> run_tx (snooze rq w act c t) fs d
   | DoWake \<Rightarrow> run_tx (wake_snoozed rq) fs d
   | DoBulk w act cs b \<Rightarrow> run_tx (bulk_update rq w act cs b) fs d
   | DoAddTag w act c t \<Rightarrow> run_tx (add_tag rq w act c t) fs d
   | DoRemoveTag w act c t \<Rightarrow> run_tx (remove_tag rq w act c t) fs d
   | DoFollow w c m \<Rightarrow> run_tx (follow rq w c m) fs d
   | DoUnfollow w c m \<Rightarrow> run_tx (unfollow rq w c m) fs d
   | DoMarkRead w c m \<Rightarrow> run_tx (mark_read rq w c m) fs d
   | DoEdit w act c m b \<Rightarrow> run_tx (edit_message rq w act c m b) fs d
   | DoRedact w act c m \<Rightarrow> run_tx (redact_message rq w act c m) fs d
   | DoMerge w act s t \<Rightarrow> run_tx (merge rq w act s t) fs d
   | DoLink w act s t r \<Rightarrow> run_tx (link rq w act s t r) fs d
   | DoUnlink w act s t r \<Rightarrow> run_tx (unlink rq w act s t r) fs d)"

definition conv_run :: "(request \<times> conv_action \<times> bool list) list \<Rightarrow> conv_db \<Rightarrow> conv_db" where
  "conv_run as d = fold (\<lambda>(rq, a, fs). conv_act rq a fs) as d"

text \<open>What a run may contain: file stores that keep to their own tables, no merge of \<open>c\<close> into another.\<close>

definition plain_action :: "conv_action \<Rightarrow> bool" where
  "plain_action a = (case a of DoStart _ _ _ _ _ _ _ _ _ sets \<Rightarrow> stores_elsewhere sets
     | DoPost _ _ _ _ _ _ _ _ _ sets \<Rightarrow> stores_elsewhere sets | _ \<Rightarrow> True)"

definition merges :: "string \<Rightarrow> conv_action \<Rightarrow> bool" where
  "merges c a = (case a of DoMerge _ _ s _ \<Rightarrow> s = c | _ \<Rightarrow> False)"

lemma conv_act_inv:
  assumes "plain_action a" "\<And>i c cl. (i, c, cl) \<in> T \<Longrightarrow> \<not> merges c a" "inv_with S T d"
  shows "inv_with S T (conv_act rq a fs d)"
  using assms
  by (cases a) (auto simp: conv_act_def plain_action_def merges_def intro!: keeps_run [where I = "inv_with S T"]
      keeps_start keeps_post keeps_changes keeps_wake keeps_bulk keeps_tags keeps_edit keeps_merge keeps_link)

lemma conv_run_inv:
  assumes "\<forall>(rq, a, fs) \<in> set as. plain_action a" "\<forall>(i, c, cl) \<in> T. \<forall>(rq, a, fs) \<in> set as. \<not> merges c a" "inv_with S T d"
  shows "inv_with S T (conv_run as d)"
  using assms
proof (induction as arbitrary: d)
  case (Cons x as)
  obtain rq a fs where x: "x = (rq, a, fs)" by (metis prod_cases3)
  have "inv_with S T (conv_act rq a fs d)"
    by (rule conv_act_inv) (use Cons.prems x in auto)
  then have "inv_with S T (conv_run as (conv_act rq a fs d))"
    by (intro Cons.IH) (use Cons.prems(1,2) x in auto)
  then show ?case by (simp add: conv_run_def x)
qed (simp add: conv_run_def)

section \<open>Posting\<close>

lemma reads_only_validate: "reads_only (validate_mentions w seen ms)"
proof (induction ms arbitrary: seen)
  case (Cons m ms)
  show ?case by (simp only: validate_mentions.simps) (auto intro!: reads_only_intros Cons.IH)
qed (simp add: reads_only_intros)

lemma attach_unchanged:
  assumes "stores_elsewhere sets" "attach_message w m sets (d, fs) = (r, d', fs')"
  shows "d' = d"
proof -
  have "tx_keeps (\<lambda>x. x = d) (attach_message w m sets)" by (rule keeps_attach [OF assms(1)])
  from tx_keepsD [OF this refl assms(2)] show ?thesis .
qed

text \<open>The effect of a message that was really written.\<close>

definition posted :: "request \<Rightarrow> conversation \<Rightarrow> message \<Rightarrow> string \<Rightarrow> 'x conv_db_scheme \<Rightarrow> 'x conv_db_scheme \<Rightarrow> bool" where
  "posted rq cv m text d d' \<longleftrightarrow>
     cd_messages d' = cd_messages d @ [m] \<and>
     mg_sequence m = last_sequence (mg_conversation m) d + 1 \<and> mg_body m = text \<and> mg_created m = rq_now rq \<and> mg_redacted m = None \<and>
     cd_conversations d' = (if mg_kind m = ''reply''
       then update_where (\<lambda>c. cv_id c = mg_conversation m)
         (touched_row (preview text) (mg_author_type m = ''customer'') (rq_now rq)) (cd_conversations d)
       else cd_conversations d) \<and>
     (\<exists>row ms. db_events d' = db_events d @ [row] \<and> r_type row = message_created \<and> r_workspace row = mg_workspace m \<and>
        r_entity_id row = mg_conversation m \<and> r_data row = message_payload (cv_inbox cv) m ms)"

lemma write_message_Inr:
  assumes "write_message rq w cv cl kind at au n body ms sets (d, fs) = (Inr m, d', fs')" "stores_elsewhere sets"
  shows "posted rq cv m body d d' \<and> mg_client m = cl \<and> mg_id m = rq_ids rq 0 \<and> mg_conversation m = cv_id cv \<and>
    mg_workspace m = w \<and> mg_kind m = kind"
proof -
  from assms(1) obtain ns d1 f1 d2 f2 d3 f3 d4 f4 where
    v: "validate_mentions w [] ms (d, fs) = (Inr ns, d1, f1)" and
    i: "insert_message (rq_now rq) (rq_ids rq 0) cl (cv_id cv) w kind at au n body (d1, f1) = (Inr m, d2, f2)" and
    a: "attach_message w (mg_id m) sets (d2, f2) = (Inr (), d3, f3)" and
    t: "(if kind = ''reply'' then touch_conversation (cv_id cv) (preview body) (at = ''customer'') (mg_created m) else tx_ret ())
        (d3, f3) = (Inr (), d4, f4)" and
    e: "append_conv_event rq 1 (conv_event w message_created (cv_id cv) (actor_type_for at) (deref_or au '''')
         (message_payload (cv_inbox cv) m ns)) (d4, f4) = (Inr (), d', fs')"
    unfolding write_message_def by (auto simp: tx_inv)
  have d1: "d1 = d" by (rule reads_onlyD [OF reads_only_validate v])
  have d3: "d3 = d2" by (rule attach_unchanged [OF assms(2) a])
  have m: "m = new_message (rq_now rq) (rq_ids rq 0) cl (cv_id cv) w kind at au n body (last_sequence (cv_id cv) d + 1)"
    "d2 = d\<lparr>cd_messages := cd_messages d @ [m]\<rparr>"
    using i by (auto simp: insert_message_def tx_inv Let_def d1 split: if_splits)
  have d4: "d4 = (if kind = ''reply'' then d2\<lparr>cd_conversations := update_where (\<lambda>c. cv_id c = cv_id cv)
      (touched_row (preview body) (at = ''customer'') (rq_now rq)) (cd_conversations d)\<rparr> else d2)"
    using t by (auto simp: touch_conversation_def tx_inv d3 m split: if_splits)
  obtain row where row: "append_event (rq_ids rq 1) (rq_causation rq) (rq_now rq)
      (conv_event w message_created (cv_id cv) (actor_type_for at) (deref_or au '''') (message_payload (cv_inbox cv) m ns)) (d4, f4)
      = (Inr row :: conv_error err + event_row, d', fs')"
    using e by (auto simp: append_conv_event_def tx_inv)
  note r = append_event_Inr [OF row]
  show ?thesis
    unfolding posted_def
    using r d4 m by (auto simp: apply_row_def conv_event_def or_empty_object_def new_message_def)
qed

lemma post_message_Inr:
  assumes "post_message rq w c cl kind at au n body ms sets (d, fs) = (Inr m, d', fs')" "stores_elsewhere sets"
  obtains i where "cl = Some i" "message_by_client_id c i d = Some m" "d' = d"
  | cv where "conversation_row w c d = Some cv" "can_see_inbox (rq_actor rq) (cv_inbox cv)" "posted rq cv m (trim_space body) d d'"
    "mg_client m = cl" "mg_id m = rq_ids rq 0" "mg_conversation m = c" "mg_workspace m = w"
    "mg_kind m = (if kind = '''' then ''reply'' else kind)" "trim_space body \<noteq> ''''" "\<And>i. cl = Some i \<Longrightarrow> message_by_client_id c i d = None"
proof -
  from assms(1) have ne: "trim_space body \<noteq> ''''"
    by (auto simp: post_message_def tx_inv split: if_splits)
  let ?k = "if kind = '''' then ''reply'' else kind"
  let ?rest = "\<lambda>cv. case cl of None \<Rightarrow> write_message rq w cv cl ?k at au n (trim_space body) ms sets
     | Some i \<Rightarrow> tx_bind (sql_read (message_by_client_id c i)) (\<lambda>known. case known of Some m \<Rightarrow> tx_ret m
         | None \<Rightarrow> write_message rq w cv cl ?k at au n (trim_space body) ms sets)"
  from assms(1) ne obtain cv f1 f2 where cv: "conversation_row w c d = Some cv" "can_see_inbox (rq_actor rq) (cv_inbox cv)"
    and rest: "?rest cv (d, f1) = (Inr m, d', f2)"
    unfolding post_message_def Let_def
    by (auto simp: with_tx_Inr lock_and_load_def visible_row_def tx_inv split: if_splits option.splits)
  note id = conversation_row_Some [OF cv(1)]
  show thesis
  proof (cases "\<exists>i. cl = Some i \<and> message_by_client_id c i d \<noteq> None")
    case True
    then show thesis using rest that(1) by (auto simp: tx_inv)
  next
    case False
    then obtain f3 where "write_message rq w cv cl ?k at au n (trim_space body) ms sets (d, f3) = (Inr m, d', f2)"
      using rest by (cases cl) (auto simp: tx_inv)
    from write_message_Inr [OF this assms(2)] id False ne show thesis by (intro that(2) [OF cv]) auto
  qed
qed

section \<open>The timeline\<close>

text \<open>
  What a conversation is to its readers: its messages in the order of their sequences, each
  with its identifier, kind, text and whether it was redacted.
\<close>

type_synonym entry = "string \<times> string \<times> string \<times> bool"

definition entry_of :: "message \<Rightarrow> entry" where
  "entry_of m = (mg_id m, mg_kind m, mg_body m, mg_redacted m \<noteq> None)"

definition timeline :: "'x conv_db_scheme \<Rightarrow> string \<Rightarrow> entry list" where
  "timeline d c = map entry_of (sort_key mg_sequence (messages_of c d))"

text \<open>The operations on timelines.\<close>

definition say :: "string \<Rightarrow> entry \<Rightarrow> (string \<Rightarrow> entry list) \<Rightarrow> string \<Rightarrow> entry list" where
  "say c e ts = ts(c := ts c @ [e])"

definition rewrite :: "string \<Rightarrow> string \<Rightarrow> (entry \<Rightarrow> entry) \<Rightarrow> (string \<Rightarrow> entry list) \<Rightarrow> string \<Rightarrow> entry list" where
  "rewrite c i f ts = ts(c := map (\<lambda>e. if fst e = i then f e else e) (ts c))"

definition pour :: "string \<Rightarrow> string \<Rightarrow> (string \<Rightarrow> entry list) \<Rightarrow> string \<Rightarrow> entry list" where
  "pour src tgt ts = ts(tgt := ts tgt @ ts src, src := [])"

text \<open>A list in the order of distinct sequences is the sorted list.\<close>

lemma sorted_unique:
  assumes "sorted (map mg_sequence ys)" "distinct (map mg_sequence ys)" "mset xs = mset ys"
  shows "sort_key mg_sequence xs = ys"
proof (rule sort_key_inj_key_eq [OF assms(3)])
  have "set xs = set ys" using assms(3) by (metis set_mset_mset)
  then show "inj_on mg_sequence (set xs)" using assms(2) by (simp add: distinct_map)
qed (rule assms(1))

lemma timeline_append:
  assumes "cd_messages d' = cd_messages d @ [m]" "mg_conversation m = c" "mg_sequence m = last_sequence c d + 1"
    and "messages_ok (cd_messages d)"
  shows "timeline d' = say c (entry_of m) (timeline d)"
proof
  fix x
  have of: "messages_of x d' = messages_of x d @ (if x = c then [m] else [])" using assms(1,2) by (simp add: messages_of_def)
  have "sort_key mg_sequence (messages_of c d @ [m]) = sort_key mg_sequence (messages_of c d) @ [m]"
  proof (rule sorted_unique)
    show "sorted (map mg_sequence (sort_key mg_sequence (messages_of c d) @ [m]))"
      using last_sequence_ge [of _ c d] assms(3) by (force simp: sorted_append)
    have "mset (map mg_sequence (sort_key mg_sequence (messages_of c d))) = mset (map mg_sequence (messages_of c d))" by simp
    then have "distinct (map mg_sequence (sort_key mg_sequence (messages_of c d)))"
      using distinct_sequences [OF assms(4)] by (metis mset_eq_imp_distinct_iff)
    then show "distinct (map mg_sequence (sort_key mg_sequence (messages_of c d) @ [m]))"
      using last_sequence_ge [of _ c d] assms(3) by force
  qed simp
  then show "timeline d' x = say c (entry_of m) (timeline d) x"
    by (simp add: timeline_def say_def of)
qed

lemma sort_key_update:
  assumes "\<And>m. mg_sequence (f m) = mg_sequence m"
  shows "sort_key mg_sequence (update_where P f ms) = update_where P f (sort_key mg_sequence ms)"
proof -
  have ins: "insort_key mg_sequence (if P x then f x else x) (update_where P f ys) = update_where P f (insort_key mg_sequence x ys)" for x ys
    by (induction ys) (auto simp: assms)
  show ?thesis by (induction ms) (simp_all add: ins)
qed

lemma timeline_update:
  assumes "cd_messages d' = update_where (\<lambda>m. mg_id m = i) f (cd_messages d)" "messages_ok (cd_messages d)"
    and "\<And>m. mg_id (f m) = mg_id m \<and> mg_conversation (f m) = mg_conversation m \<and> mg_sequence (f m) = mg_sequence m"
    and "\<And>m. entry_of (f m) = g (entry_of m)" and "m0 \<in> set (messages_of c d)" "mg_id m0 = i"
  shows "timeline d' = rewrite c i g (timeline d)"
proof
  fix x
  have of: "messages_of x d' = update_where (\<lambda>m. mg_id m = i) f (messages_of x d)"
    unfolding messages_of_def assms(1) by (induction "cd_messages d" rule: list.induct) (simp_all add: update_where_def filter_map o_def assms(3) if_distrib cong: filter_cong)
  have only: "mg_id m \<noteq> i" if "m \<in> set (messages_of x d)" "x \<noteq> c" for m
    using assms(2,5,6) that by (auto simp: messages_ok_def messages_of_iff distinct_map inj_on_def)
  have "timeline d' x = map (\<lambda>m. entry_of (if mg_id m = i then f m else m)) (sort_key mg_sequence (messages_of x d))"
    unfolding timeline_def of by (subst sort_key_update) (simp_all add: assms(3) update_where_def)
  then show "timeline d' x = rewrite c i g (timeline d) x"
    using only by (auto simp: timeline_def rewrite_def assms(4) entry_of_def [of m for m, THEN arg_cong [where f = fst], simplified])
qed

lemma sequences_sorted:
  assumes "messages_ok (cd_messages d)"
  shows "sorted_wrt (<) (map mg_sequence (sort_key mg_sequence (messages_of c d)))"
proof -
  have "mset (map mg_sequence (sort_key mg_sequence (messages_of c d))) = mset (map mg_sequence (messages_of c d))" by simp
  then have "distinct (map mg_sequence (sort_key mg_sequence (messages_of c d)))"
    using distinct_sequences [OF assms] by (metis mset_eq_imp_distinct_iff)
  then show ?thesis by (simp add: strict_sorted_iff)
qed

lemma timeline_moved:
  assumes ok: "messages_ok (cd_messages d)" and dn: "dense (cd_messages d)" and ne: "src \<noteq> tgt"
    and d': "cd_messages d' = update_where (\<lambda>m. mg_conversation m = src)
      (moved_row tgt (last_sequence tgt d) (messages_of src d)) (cd_messages d)"
  shows "timeline d' = pour src tgt (timeline d)"
proof
  fix x
  let ?b = "last_sequence tgt d" and ?ms = "messages_of src d"
  let ?f = "moved_row tgt ?b ?ms"
  let ?S = "sort_key mg_sequence"
  have entry: "entry_of (?f m) = entry_of m" for m by (simp add: entry_of_def)
  have seq: "mg_sequence (?f m) = ?b + mg_sequence m" if "m \<in> set ?ms" for m
    using row_number_dense [OF distinct_sequences [OF ok] dense_set [OF dn] that] by simp
  have into: "mset (filter (\<lambda>m. mg_conversation m = tgt) (update_where (\<lambda>m. mg_conversation m = src) ?f t)) =
      mset (filter (\<lambda>m. mg_conversation m = tgt) t) + mset (map ?f (filter (\<lambda>m. mg_conversation m = src) t))" for t
    using ne by (induction t) auto
  have other: "filter (\<lambda>m. mg_conversation m = x) (update_where (\<lambda>m. mg_conversation m = src) ?f t) =
      (if x = src then [] else filter (\<lambda>m. mg_conversation m = x) t)" if "x \<noteq> tgt" for t
    using ne that by (induction t) auto
  show "timeline d' x = pour src tgt (timeline d) x"
  proof (cases "x = tgt")
    case False
    then show ?thesis using ne other by (simp add: timeline_def pour_def messages_of_def d')
  next
    case True
    let ?ys = "?S (messages_of tgt d) @ map ?f (?S ?ms)"
    have keys: "map mg_sequence (map ?f (?S ?ms)) = map (\<lambda>m. ?b + mg_sequence m) (?S ?ms)"
      using seq by simp
    have "sorted_wrt (<) (map mg_sequence ?ys)"
      unfolding map_append keys sorted_wrt_append
    proof (intro conjI ballI)
      show "sorted_wrt (<) (map mg_sequence (?S (messages_of tgt d)))" by (rule sequences_sorted [OF ok])
      show "sorted_wrt (<) (map (\<lambda>m. ?b + mg_sequence m) (?S ?ms))"
        using sequences_sorted [OF ok, of src] by (simp add: sorted_wrt_map)
      fix a b assume a: "a \<in> set (map mg_sequence (?S (messages_of tgt d)))" and b: "b \<in> set (map (\<lambda>m. ?b + mg_sequence m) (?S ?ms))"
      then obtain m where m: "m \<in> set ?ms" "b = ?b + mg_sequence m" by auto
      have "1 \<le> mg_sequence m" using ok m(1) by (auto simp: messages_ok_def messages_of_iff)
      moreover have "a \<le> ?b" using a last_sequence_ge [of _ tgt d] by auto
      ultimately show "a < b" using m(2) by linarith
    qed
    then have "sorted (map mg_sequence ?ys)" "distinct (map mg_sequence ?ys)" by (simp_all only: strict_sorted_iff)
    moreover have "mset (messages_of tgt d') = mset (messages_of tgt d) + mset (map ?f ?ms)"
      using into [of "cd_messages d"] by (simp only: messages_of_def d')
    then have "mset (messages_of tgt d') = mset ?ys" by simp
    ultimately have "?S (messages_of tgt d') = ?ys" by (rule sorted_unique)
    then show ?thesis using True ne by (simp add: timeline_def pour_def entry)
  qed
qed

lemma timeline_same: "cd_messages d' = cd_messages d \<Longrightarrow> timeline d' = timeline d"
  by (simp add: timeline_def messages_of_def fun_eq_iff)

text \<open>The messages after a change that succeeded.\<close>

lemma append_conv_event_messages:
  "append_conv_event rq k ev (d, fs) = (Inr u, d', fs') \<Longrightarrow>
     cd_messages d' = cd_messages d \<and> cd_conversations d' = cd_conversations d \<and> cd_history d' = cd_history d"
  by (auto simp: append_conv_event_def tx_inv apply_row_def dest!: append_event_Inr(1))

lemma record_conv_audit_messages:
  "record_conv_audit rq k e (d, fs) = (Inr u, d', fs') \<Longrightarrow>
     cd_messages d' = cd_messages d \<and> cd_conversations d' = cd_conversations d \<and> cd_history d' = cd_history d"
  by (auto simp: record_conv_audit_def record_tx_def Let_def tx_inv split: if_splits)

lemma load_message_Inr:
  "load_message_for_edit w c i (d, fs) = (Inr m, d', fs') \<Longrightarrow> d' = d \<and> m \<in> set (messages_of c d) \<and> mg_id m = i \<and> mg_workspace m = w"
  by (auto simp: load_message_for_edit_def tx_inv find_Some_iff split: option.splits)

lemma edit_message_Inr:
  assumes "edit_message rq w act c i body (d, fs) = (Inr m, d', fs')"
  obtains m0 where "m0 \<in> set (messages_of c d)" "mg_id m0 = i" "mg_author_type m0 = ''agent''" "mg_author m0 = Some act"
    "mg_kind m0 \<noteq> ''event''" "trim_space body \<noteq> ''''"
    "cd_messages d' = update_where (\<lambda>m. mg_id m = i) (\<lambda>r. r\<lparr>mg_body := trim_space body, mg_edited := Some (rq_now rq)\<rparr>) (cd_messages d)"
    "cd_conversations d' = cd_conversations d"
  using assms that unfolding edit_message_def
  by (auto simp: Let_def with_tx_Inr tx_inv insert_revision_def update_message_body_def update_message_def split: if_splits
      dest!: load_message_Inr append_conv_event_messages record_conv_audit_messages)

lemma redact_message_Inr:
  assumes "redact_message rq w act c i (d, fs) = (Inr m, d', fs')"
  obtains m0 where "m0 \<in> set (messages_of c d)" "mg_id m0 = i" "mg_kind m0 \<noteq> ''event''"
    "cd_messages d' = update_where (\<lambda>m. mg_id m = i) (\<lambda>r. r\<lparr>mg_body := '''', mg_redacted := Some (rq_now rq)\<rparr>) (cd_messages d)"
    "cd_conversations d' = cd_conversations d"
  using assms that unfolding redact_message_def
  by (auto simp: with_tx_Inr tx_inv insert_revision_def redact_message_row_def update_message_def split: if_splits
      dest!: load_message_Inr append_conv_event_messages record_conv_audit_messages)

lemma lock_Inr:
  "lock_and_load_full who w c (d, fs) = (Inr cv, d', fs') \<longleftrightarrow>
     \<not> faulty fs \<and> conversation_row w c d = Some cv \<and> can_see_inbox who (cv_inbox cv) \<and> d' = d \<and> fs' = tl fs"
  by (auto simp: lock_and_load_full_def visible_row_def tx_inv split: option.splits if_splits)

lemma move_messages_Inr:
  "move_messages z src tgt (d, fs) = (Inr r, d', fs') \<Longrightarrow> cd_conversations d' = cd_conversations d \<and>
     cd_messages d' = update_where (\<lambda>m. mg_conversation m = src) (moved_row tgt (last_sequence tgt d) (messages_of src d)) (cd_messages d)"
  by (auto simp: move_messages_def tx_inv Let_def split: if_splits)

lemma apply_merge_Inr: "apply_merge c n pv at (d, fs) = (Inr u, d', fs') \<Longrightarrow> cd_messages d' = cd_messages d"
  by (auto simp: apply_merge_def tx_inv split: if_splits)

lemma updated_row:
  assumes "r \<in> set (update_where (\<lambda>c. cv_id c = i) f t)" "cv_id r = i" "\<And>c. cv_id (f c) = cv_id c"
  shows "\<exists>c \<in> set t. cv_id c = i \<and> r = f c"
  using assms(1,2) unfolding set_update_where by (metis assms(3))

lemma set_state_row_Inr:
  "set_state_row c st (d, fs) = (Inr u, d', fs') \<Longrightarrow> cd_messages d' = cd_messages d \<and>
     (\<forall>r \<in> set (cd_conversations d'). cv_id r = c \<longrightarrow> cv_state r = st)"
proof -
  assume s: "set_state_row c st (d, fs) = (Inr u, d', fs')"
  then have d': "d' = d\<lparr>cd_conversations := update_where (\<lambda>r. cv_id r = c)
      (\<lambda>r. r\<lparr>cv_state := st, cv_snoozed := None\<rparr>) (cd_conversations d)\<rparr>"
    by (simp add: set_state_row_def update_conversation_def tx_inv)
  have "cv_state r = st" if r: "r \<in> set (cd_conversations d')" "cv_id r = c" for r
  proof -
    from r(1) d' have "r \<in> set (update_where (\<lambda>r. cv_id r = c) (\<lambda>r. r\<lparr>cv_state := st, cv_snoozed := None\<rparr>) (cd_conversations d))"
      by simp
    from updated_row [OF this r(2)] show ?thesis by auto
  qed
  then show ?thesis using d' by simp
qed

lemma insert_status_history_Inr:
  "insert_status_history i now c fr to at a (d, fs) = (Inr u, d', fs') \<Longrightarrow>
     cd_messages d' = cd_messages d \<and> cd_conversations d' = cd_conversations d"
  by (auto simp: insert_status_history_def tx_inv split: if_splits)

lemma merge_Inr:
  assumes "merge rq w act src tgt (d, fs) = (Inr u, d', fs')"
  shows "src \<noteq> tgt \<and> cd_messages d' = update_where (\<lambda>m. mg_conversation m = src)
      (moved_row tgt (last_sequence tgt d) (messages_of src d)) (cd_messages d) \<and>
    (\<forall>r \<in> set (cd_conversations d'). cv_id r = src \<longrightarrow> cv_state r = ''closed'')"
proof -
  have ne: "src \<noteq> tgt" using assms by (auto simp: merge_def tx_inv split: if_splits)
  from assms ne obtain f0 f9 where "merge_body rq w act src tgt (d, f0) = (Inr (), d', f9)"
    unfolding merge_def by (auto simp: with_tx_Inr)
  then obtain moved pv at d1 f1 d2 f2 d3 f3 d4 f4 d5 f5 d6 f6 d7 f7 f8 where
    "move_messages zero_time src tgt (d, f1) = (Inr (moved, pv, at), d2, f2)"
    "apply_merge tgt moved pv at (d2, f2) = (Inr (), d3, f3)"
    "set_state_row src ''closed'' (d3, f3) = (Inr (), d4, f4)"
    "insert_status_history (rq_ids rq 0) (rq_now rq) src '''' ''closed'' ''member'' act (d4, f4) = (Inr (), d5, f5)"
    "record_conv_audit rq 1 (conv_audit w ''user'' act ''conversation.merged'' tgt
           (Some (JObj [(''source_id'', JStr src), (''messages_moved'', JInt (int moved))]))) (d5, f5) = (Inr (), d6, f6)"
    "append_conv_event rq 2 (conv_event w ''conversation.merged'' tgt ''user'' act
           (JObj [(''target_id'', JStr tgt), (''source_id'', JStr src), (''messages_moved'', JInt (int moved))])) (d6, f6) = (Inr (), d7, f7)"
    "append_conv_event rq 3 (conv_event w ''conversation.state_changed'' src ''user'' act
           (JObj [(''conversation_id'', JStr src), (''to'', JStr ''closed''), (''merged_into'', JStr tgt)])) (d7, f7) = (Inr (), d', f9)"
    unfolding merge_body_def Let_def by (auto simp: lock_Inr tx_bind_Inr)
  then show ?thesis
    using ne by (auto dest!: move_messages_Inr apply_merge_Inr set_state_row_Inr insert_status_history_Inr
        record_conv_audit_messages append_conv_event_messages)
qed

end
