(* ===== verification/ConversationFacts.thy ===== *)
theory ConversationFacts
  imports ConversationSafety
begin

text \<open>
  The properties of conversations: consistent tables, the refinement of the timeline,
  idempotent posting, inbox restriction, paging, and the routing of new conversations.
\<close>

section \<open>Operations that write no message\<close>

named_theorems silent \<open>programs that leave the messages alone\<close>

abbreviation msgs :: "(message list \<Rightarrow> bool) \<Rightarrow> 'x conv_db_scheme \<Rightarrow> bool" where
  "msgs J \<equiv> \<lambda>d. J (cd_messages d)"

lemma silent_statements [silent]:
  shows "tx_keeps (msgs J) (append_conv_event rq k ev)" "tx_keeps (msgs J) (record_conv_audit rq k e)"
    "tx_keeps (msgs J) (update_conversation c f)" "tx_keeps (msgs J) (touch_conversation c pv cust at)" "tx_keeps (msgs J) (wake_rows now)"
    "tx_keeps (msgs J) (insert_status_history i now c fr to at' a)" "tx_keeps (msgs J) (insert_conversation now i w inbox channel subj cu v)"
    "tx_keeps (msgs J) (add_tag_row c t)" "tx_keeps (msgs J) (remove_tag_row c t)" "tx_keeps (msgs J) (follow_row c m)" "tx_keeps (msgs J) (unfollow_row c m)"
    "tx_keeps (msgs J) (mark_read_row now m ty r)" "tx_keeps (msgs J) (advance_cursor_row tm)"
    "tx_keeps (msgs J) (insert_link rq w act a b rel)" "tx_keeps (msgs J) (delete_link w a b rel)"
proof -
  note st = keeps_sql keeps_sql_checked keeps_if keeps_fail keeps_ret keeps_bind
  show "tx_keeps (msgs J) (append_conv_event rq k ev)" unfolding append_conv_event_def
    by (intro st keeps_append_frame) simp_all
  show "tx_keeps (msgs J) (record_conv_audit rq k e)" unfolding record_conv_audit_def record_tx_def Let_def
    by (intro st) (auto split: if_splits)
  show "tx_keeps (msgs J) (update_conversation c f)" "tx_keeps (msgs J) (touch_conversation c pv cust at)" "tx_keeps (msgs J) (wake_rows now)"
    "tx_keeps (msgs J) (insert_status_history i now c fr to at' a)" "tx_keeps (msgs J) (insert_conversation now i w inbox channel subj cu v)"
    "tx_keeps (msgs J) (add_tag_row c t)" "tx_keeps (msgs J) (remove_tag_row c t)" "tx_keeps (msgs J) (follow_row c m)" "tx_keeps (msgs J) (unfollow_row c m)"
    "tx_keeps (msgs J) (mark_read_row now m ty r)" "tx_keeps (msgs J) (advance_cursor_row tm)"
    "tx_keeps (msgs J) (insert_link rq w act a b rel)" "tx_keeps (msgs J) (delete_link w a b rel)"
    unfolding update_conversation_def touch_conversation_def wake_rows_def insert_status_history_def insert_conversation_def
      add_tag_row_def remove_tag_row_def follow_row_def unfollow_row_def mark_read_row_def advance_cursor_row_def
      insert_link_def delete_link_def Let_def
    by (intro st; auto split: if_splits option.splits)+
qed

lemma silent_locks [silent]:
  "tx_keeps I (lock_and_load_full who w c)" "tx_keeps I (lock_conversation who w c)" "tx_keeps I (by_id who w c)"
  unfolding lock_and_load_full_def lock_conversation_def by_id_def visible_row_def
  by (auto intro!: keeps split: option.split)

lemma silent_check [silent]: "tx_keeps I (check_some p v e)" "tx_keeps I (inbox_in_workspace who w i)"
  unfolding check_some_def inbox_in_workspace_def by (auto intro!: keeps split: option.split)

lemma silent_change:
  "(\<And>cv. tx_keeps (msgs J) (body cv)) \<Longrightarrow> tx_keeps (msgs J) (change_conversation rq w c body)"
  unfolding change_conversation_def by (intro keeps_bind keeps_with_tx silent)

lemma silent_routing [silent]:
  shows "tx_keeps (msgs J) (route_new_conversation sprint rq w c inbox cust)"
proof -
  have consume: "tx_keeps (msgs J) (consume_round_robin t n)" for t n
    unfolding consume_round_robin_def take_turn_def
    by (auto intro!: keeps silent split: option.split)
  have pick: "tx_keeps (msgs J) (pick_assignee w c cust t)" for t
    unfolding pick_assignee_def by (auto intro!: keeps consume split: option.split)
  have route: "tx_keeps (msgs J) (route_to (rq :: request) w c t a)" for t a
    unfolding route_to_def set_team_row_def set_assignee_row_def by (intro keeps_bind keeps_if keeps_ret silent)
  have "tx_keeps (msgs J) (tx_bind (first_match sprint w cust t0 ts) (\<lambda>t.
      tx_bind (sql_read (\<lambda>d. (inbox, rt_id t) \<in> set (cd_inbox_teams d))) (\<lambda>there.
        if \<not> there then tx_fail (Msg ''no rows in result set'')
        else tx_seq (sql_read (\<lambda>d. ())) (tx_bind (pick_assignee w c cust t) (route_to rq w c t)))))" for t0 ts
    by (intro keeps_bind keeps_first_match keeps_sql keeps_if keeps_fail pick route) simp_all
  then show ?thesis
    unfolding route_new_conversation_def
    by (intro keeps_bind keeps_sql) (auto intro: keeps_ret split: list.split)
qed

lemma silent_bodies [silent]:
  shows "tx_keeps (msgs J) (assign_body rq w act c m extra cv)" "tx_keeps (msgs J) (state_body rq w act c st extra cv)"
  unfolding assign_body_def state_body_def set_assignee_row_def set_state_row_def
  by (intro keeps_bind keeps_if keeps_ret silent)+

lemma silent_operations:
  shows "tx_keeps (msgs J) (set_assignee rq w act c m)" "tx_keeps (msgs J) (set_team rq w act c t)" "tx_keeps (msgs J) (set_inbox rq w act c i)"
    "tx_keeps (msgs J) (set_priority rq w act c p)" "tx_keeps (msgs J) (set_state rq w act c st)" "tx_keeps (msgs J) (snooze rq w act c until)"
    "tx_keeps (msgs J) (add_tag rq w act c tg)" "tx_keeps (msgs J) (remove_tag rq w act c tg)" "tx_keeps (msgs J) (follow rq w c mb)"
    "tx_keeps (msgs J) (unfollow rq w c mb)" "tx_keeps (msgs J) (mark_read rq w c mb)"
  unfolding set_assignee_def set_team_def set_inbox_def set_priority_def set_state_def snooze_def
    set_team_row_def set_inbox_row_def set_priority_row_def snooze_row_def
    add_tag_def remove_tag_def follow_def unfollow_def mark_read_def
  by (intro keeps_bind keeps_if keeps_fail keeps_ret keeps_with_tx keeps_sql silent_change silent; simp)+

lemma silent_more:
  shows "tx_keeps (msgs J) (wake_snoozed rq)" "tx_keeps (msgs J) (bulk_update rq w act cs a)"
    "tx_keeps (msgs J) (link rq w act s t rel)" "tx_keeps (msgs J) (unlink rq w act s t rel)"
proof -
  have "tx_keeps (msgs J) (log_wakes rq rs)" for rs
    by (induction rq rs rule: log_wakes.induct)
      (auto simp: log_wake_def intro!: keeps_ret keeps_bind keeps_with_tx silent split: prod.split)
  then show "tx_keeps (msgs J) (wake_snoozed rq)"
    unfolding wake_snoozed_def by (intro keeps_bind keeps_ret silent)
  have "tx_keeps (msgs J) (bulk_each rq w act a us)" for us
    by (induction us arbitrary: rq)
      (auto simp: bulk_one_def intro!: keeps_ret keeps_bind silent split: bulk_action.split)
  moreover have "tx_keeps (msgs J) (check_bulk w a)"
    unfolding check_bulk_def by (auto intro!: silent keeps split: bulk_action.split)
  ultimately show "tx_keeps (msgs J) (bulk_update rq w act cs a)"
    unfolding bulk_update_def
    by (auto intro!: keeps_if keeps_fail keeps_bind keeps_with_tx keeps_map silent split: option.split)
  show "tx_keeps (msgs J) (link rq w act s t rel)" "tx_keeps (msgs J) (unlink rq w act s t rel)"
    unfolding link_def unlink_def ensure_in_workspace_def Let_def
    by (intro keeps_if keeps_fail; auto intro!: keeps_if keeps_fail keeps_ret keeps_bind keeps_with_tx keeps_sql silent
        split: prod.split option.split)+
qed

section \<open>Every operation is a step on the timelines\<close>

text \<open>
  The specification: what an action may do to the timelines.  The first choice is always to
  do nothing (an error, a repeated message).
\<close>

definition spec_steps :: "request \<Rightarrow> conv_action \<Rightarrow> ((string \<Rightarrow> entry list) \<Rightarrow> string \<Rightarrow> entry list) list" where
  "spec_steps rq a = id # (case a of
     DoStart sp w i ch sj cu v n b sets \<Rightarrow> [say (rq_ids rq 0) (rq_ids rq 3, ''reply'', trim_space b, False)]
   | DoPost w c cl k at au n b ms sets \<Rightarrow> [say c (rq_ids rq 0, if k = '''' then ''reply'' else k, trim_space b, False)]
   | DoEdit w act c m b \<Rightarrow> [rewrite c m (\<lambda>(i, k, _, r). (i, k, trim_space b, r))]
   | DoRedact w act c m \<Rightarrow> [rewrite c m (\<lambda>(i, k, _, _). (i, k, '''', True))]
   | DoMerge w act s t \<Rightarrow> [pour s t]
   | _ \<Rightarrow> [])"

lemma start_conversation_effect:
  assumes "start_conversation sp rq w i ch sj cu v n b sets (d, fs) = (r, d', fs')" "stores_elsewhere sets"
  shows "cd_messages d' = cd_messages d \<or>
    (\<exists>m. cd_messages d' = cd_messages d @ [m] \<and> mg_conversation m = rq_ids rq 0 \<and>
       mg_sequence m = last_sequence (rq_ids rq 0) d + 1 \<and>
       entry_of m = (rq_ids rq 3, ''reply'', trim_space b, False))"
proof -
  let ?body = "start_body sp rq w i ch sj cu v n (trim_space b) sets :: ('a, message) ctx"
  let ?reload = "\<lambda>m. tx_bind (by_id (rq_actor rq) w (rq_ids rq 0)) (\<lambda>c. tx_ret (c, m)) :: ('a, conversation \<times> message) ctx"
  consider "d' = d" | "tx_bind (with_tx ?body) ?reload (d, fs) = (r, d', fs')"
    using assms(1) by (auto simp: start_conversation_def tx_fail_def split: if_splits)
  then show ?thesis
  proof cases
    case 2
    obtain q d1 f1 where q: "with_tx ?body (d, fs) = (q, d1, f1)" by (metis prod_cases3)
    have "cd_messages d' = cd_messages d1"
    proof (cases q)
      case (Inl e)
      then show ?thesis using 2 q by (simp add: tx_bind_def)
    next
      case (Inr m)
      have "tx_keeps (\<lambda>x. cd_messages x = cd_messages d1) (?reload m)"
        by (intro keeps_bind silent_locks keeps_ret)
      from tx_keepsD [OF this refl, of f1 r d' fs'] 2 q Inr show ?thesis by (simp add: tx_bind_def)
    qed
    moreover have "?thesis" if "cd_messages d' = cd_messages d1"
    proof (cases q)
      case (Inl e)
      then show ?thesis using with_tx_rolls_back q that by fastforce
    next
      case (Inr m)
      let ?at = "if cu \<noteq> None \<or> v \<noteq> None then ''customer'' else ''agent''"
      from q [unfolded Inr with_tx_Inr] obtain f2 where "?body (d, tl fs) = (Inr m, d1, f2)" by auto
      then obtain d2 f3 d3 f4 d4 f5 d5 f6 d6 f7 d7 f8 d8 f9 where
        s1: "insert_conversation (rq_now rq) (rq_ids rq 0) w i ch sj cu v (d, tl fs) = (Inr (), d2, f3)" and
        s2: "route_new_conversation sp (later 1 rq) w (rq_ids rq 0) i cu (d2, f3) = (Inr (), d3, f4)" and
        s3: "lock_conversation (rq_actor rq) w (rq_ids rq 0) (d3, f4) = (Inr (), d4, f5)" and
        s4: "insert_message (rq_now rq) (rq_ids rq 3) None (rq_ids rq 0) w ''reply'' ?at cu n (trim_space b) (d4, f5) = (Inr m, d5, f6)" and
        s5: "attach_message w (mg_id m) sets (d5, f6) = (Inr (), d6, f7)" and
        s6: "touch_conversation (rq_ids rq 0) (preview (trim_space b)) (?at = ''customer'') (mg_created m) (d6, f7) = (Inr (), d7, f8)" and
        s7: "append_conv_event rq 4 (conv_event w conversation_created (rq_ids rq 0) (actor_type_for ?at) (deref_or cu '''')
           (conversation_payload (rq_ids rq 0) i ch sj cu)) (d7, f8) = (Inr (), d8, f9)" and
        s8: "append_conv_event rq 5 (conv_event w message_created (rq_ids rq 0) (actor_type_for ?at) (deref_or cu '''')
           (message_payload i m [])) (d8, f9) = (Inr (), d1, f2)"
        unfolding start_body_def Let_def by (auto simp: tx_inv simp del: with_tx_Inr split: if_splits)
      note keep = tx_keepsD [where I = "msgs (\<lambda>ms. ms = cd_messages d)"]
      have m4: "cd_messages d4 = cd_messages d"
        by (rule keep [OF silent_locks(2) keep [OF silent_routing keep [OF silent_statements(7) refl s1] s2] s3])
      have "d6 = d5" by (rule attach_unchanged [OF assms(2) s5])
      moreover have "cd_messages d7 = cd_messages d6" using s6 by (auto simp: touch_conversation_def tx_inv split: if_splits)
      ultimately have "cd_messages d1 = cd_messages d5"
        using append_conv_event_messages [OF s7] append_conv_event_messages [OF s8] by simp
      moreover have "last_sequence x d4 = last_sequence x d" for x by (simp add: last_sequence_def messages_of_def m4)
      ultimately show ?thesis
        using s4 m4 that
        by (auto simp: insert_message_def tx_inv Let_def entry_of_def new_message_def split: if_splits)
    qed
    ultimately show ?thesis by blast
  qed simp
qed

lemma start_timeline:
  assumes "stores_elsewhere sets" "messages_ok (cd_messages d)"
  shows "timeline (run_tx (start_conversation sp rq w i ch sj cu v n b sets) fs d)
    \<in> {timeline d, say (rq_ids rq 0) (rq_ids rq 3, ''reply'', trim_space b, False) (timeline d)}"
proof -
  obtain r d' fs' where run: "start_conversation sp rq w i ch sj cu v n b sets (d, fs) = (r, d', fs')" by (metis prod_cases3)
  from start_conversation_effect [OF run assms(1)] show ?thesis
    using timeline_append [OF _ _ _ assms(2), of d'] timeline_same [of d' d] run by auto
qed

lemma post_timeline:
  assumes "stores_elsewhere sets" "messages_ok (cd_messages d)"
  shows "timeline (run_tx (post_message rq w c cl k at au n b ms sets) fs d)
    \<in> {timeline d, say c (rq_ids rq 0, if k = '''' then ''reply'' else k, trim_space b, False) (timeline d)}"
proof -
  obtain r d' fs' where run: "post_message rq w c cl k at au n b ms sets (d, fs) = (r, d', fs')" by (metis prod_cases3)
  show ?thesis
  proof (cases r)
    case (Inl e)
    then have "d' = d" using run with_tx_rolls_back by (fastforce simp: post_message_def Let_def tx_fail_def split: if_splits)
    then show ?thesis using run by simp
  next
    case (Inr m)
    from run [unfolded Inr] assms(1) show ?thesis
    proof (cases rule: post_message_Inr)
      case (2 cv)
      then have "timeline d' = say c (entry_of m) (timeline d)"
        by (intro timeline_append assms(2)) (simp_all add: posted_def)
      with 2 show ?thesis using run by (simp add: posted_def entry_of_def)
    qed (use run in simp)
  qed
qed

lemma edit_timeline:
  assumes "messages_ok (cd_messages d)"
  shows "timeline (run_tx (edit_message rq w act c i b) fs d)
      \<in> {timeline d, rewrite c i (\<lambda>(i, k, _, r). (i, k, trim_space b, r)) (timeline d)}"
    and "timeline (run_tx (redact_message rq w act c i) fs d)
      \<in> {timeline d, rewrite c i (\<lambda>(i, k, _, _). (i, k, '''', True)) (timeline d)}"
proof -
  obtain r d' fs' where e: "edit_message rq w act c i b (d, fs) = (r, d', fs')" by (metis prod_cases3)
  show "timeline (run_tx (edit_message rq w act c i b) fs d)
      \<in> {timeline d, rewrite c i (\<lambda>(i, k, _, r). (i, k, trim_space b, r)) (timeline d)}"
  proof (cases r)
    case (Inl x)
    then have "d' = d" using e with_tx_rolls_back by (fastforce simp: edit_message_def Let_def tx_fail_def split: if_splits)
    then show ?thesis using e by simp
  next
    case (Inr m)
    from e [unfolded Inr] show ?thesis
    proof (cases rule: edit_message_Inr)
      case (1 m0)
      have "timeline d' = rewrite c i (\<lambda>(i, k, _, r). (i, k, trim_space b, r)) (timeline d)"
        by (rule timeline_update [OF 1(7) assms]) (use 1 in \<open>auto simp: entry_of_def\<close>)
      then show ?thesis using e by simp
    qed
  qed
  obtain r d' fs' where e: "redact_message rq w act c i (d, fs) = (r, d', fs')" by (metis prod_cases3)
  show "timeline (run_tx (redact_message rq w act c i) fs d)
      \<in> {timeline d, rewrite c i (\<lambda>(i, k, _, _). (i, k, '''', True)) (timeline d)}"
  proof (cases r)
    case (Inl x)
    then have "d' = d" using e with_tx_rolls_back by (fastforce simp: redact_message_def)
    then show ?thesis using e by simp
  next
    case (Inr m)
    from e [unfolded Inr] show ?thesis
    proof (cases rule: redact_message_Inr)
      case (1 m0)
      have "timeline d' = rewrite c i (\<lambda>(i, k, _, _). (i, k, '''', True)) (timeline d)"
        by (rule timeline_update [OF 1(4) assms]) (use 1 in \<open>auto simp: entry_of_def\<close>)
      then show ?thesis using e by simp
    qed
  qed
qed

lemma merge_timeline:
  assumes "messages_ok (cd_messages d)" "dense (cd_messages d)"
  shows "timeline (run_tx (merge rq w act s t) fs d) \<in> {timeline d, pour s t (timeline d)}"
proof -
  obtain r d' fs' where e: "merge rq w act s t (d, fs) = (r, d', fs')" by (metis prod_cases3)
  show ?thesis
  proof (cases r)
    case (Inl x)
    then have "d' = d" using e with_tx_rolls_back by (fastforce simp: merge_def tx_fail_def split: if_splits)
    then show ?thesis using e by simp
  next
    case (Inr u)
    with merge_Inr [OF e [unfolded Inr]] timeline_moved [OF assms, of s t d'] e show ?thesis by simp
  qed
qed

lemma silent_timeline: "tx_keeps (msgs (\<lambda>ms. ms = cd_messages d)) m \<Longrightarrow> timeline (run_tx m fs d) = timeline d"
  by (rule timeline_same) (simp add: tx_keeps_def)

text \<open>
  C1: the timelines refine an abstract log.  Whatever operation runs and whatever statement
  of it fails, the timelines are left alone or change by exactly the step the specification
  gives: a message appended at the end, a text replaced, a text removed, one timeline poured
  onto the end of another.
\<close>

theorem timelines_refine:
  assumes "inv_with {} {} d" and "plain_action a"
  shows "list_ex (\<lambda>f. timeline (conv_act rq a fs d) = f (timeline d)) (spec_steps rq a)"
proof -
  have ok: "messages_ok (cd_messages d)" "dense (cd_messages d)" using assms(1) by (auto simp: inv_with_def conv_tables_def)
  note t = silent_timeline [OF silent_operations(1)] silent_timeline [OF silent_operations(2)]
    silent_timeline [OF silent_operations(3)] silent_timeline [OF silent_operations(4)]
    silent_timeline [OF silent_operations(5)] silent_timeline [OF silent_operations(6)]
    silent_timeline [OF silent_operations(7)] silent_timeline [OF silent_operations(8)]
    silent_timeline [OF silent_operations(9)] silent_timeline [OF silent_operations(10)]
    silent_timeline [OF silent_operations(11)] silent_timeline [OF silent_more(1)] silent_timeline [OF silent_more(2)]
    silent_timeline [OF silent_more(3)] silent_timeline [OF silent_more(4)]
  show ?thesis
    using assms(2) start_timeline [OF _ ok(1)] post_timeline [OF _ ok(1)] edit_timeline [OF ok(1)] merge_timeline [OF ok]
    by (cases a) (simp_all add: conv_act_def spec_steps_def plain_action_def t id_def)
qed

text \<open>A workspace with an inbox, a team and two members, and the requests of the examples.\<close>

definition demo_desk :: conv_db where
  "demo_desk = \<lparr> db_seqs = (\<lambda>_. None), db_events = [], db_notify = [], au_rows = [], cd_conversations = [], cd_messages = [],
     cd_history = [], cd_tags = [], cd_followers = [], cd_reads = [], cd_revisions = [], cd_links = [],
     cd_members = [\<lparr> mb_id = ''mem_a'', mb_workspace = ''w'', mb_name = ''Ann'', mb_accepting = True \<rparr>,
        \<lparr> mb_id = ''mem_b'', mb_workspace = ''w'', mb_name = ''Bob'', mb_accepting = True \<rparr>],
     cd_teams = [\<lparr> tm_id = ''team'', tm_workspace = ''w'', tm_strategy = ''round_robin'', tm_config = JObj [], tm_created = 1 \<rparr>],
     cd_inboxes = [(''i'', ''w''), (''j'', ''w'')], cd_tag_names = [], cd_customers = [], cd_inbox_teams = [(''i'', ''team'')],
     cd_team_members = [(''team'', ''mem_b'', 1), (''team'', ''mem_a'', 1)], cd_cursors = (\<lambda>_. None) \<rparr>"

definition demo_request :: "string \<Rightarrow> request" where
  "demo_request p = \<lparr> rq_actor = None, rq_causation = '''', rq_now = 1000, rq_ids = (\<lambda>n. p @ [digit_char (int n)]) \<rparr>"

definition demo_start :: "string \<Rightarrow> request \<times> conv_action \<times> bool list" where
  "demo_start p = (demo_request p, DoStart (\<lambda>_. '''') ''w'' ''i'' ''widget'' None None (Some ''vis'') ''Eve'' ''help'' [], [])"

definition demo_reply :: "string \<Rightarrow> string \<Rightarrow> string option \<Rightarrow> request \<times> conv_action \<times> bool list" where
  "demo_reply p c cl = (demo_request p, DoPost ''w'' c cl '''' ''agent'' (Some ''mem_a'') ''Ann'' '' hello '' [] [], [])"

lemma demo_desk_inv: "inv_with {} {} demo_desk"
proof -
  have "log_inv demo_desk" by (simp add: log_inv_def rows_of_def next_of_def demo_desk_def)
  moreover have "dense (cd_messages demo_desk)" by (auto simp: dense_def demo_desk_def intro: exI [of _ 0])
  moreover have "messages_ok (cd_messages demo_desk)" "links_ok (cd_links demo_desk)" "list_all conv_ok (cd_conversations demo_desk)"
    by (simp_all add: messages_ok_def slots_def client_slots_def links_ok_def demo_desk_def)
  ultimately show ?thesis by (simp add: inv_with_def conv_tables_def) (simp add: demo_desk_def)
qed

lemma demo_plain: "plain_action (fst (snd (demo_start p)))" "plain_action (fst (snd (demo_reply p c cl)))"
  by (simp_all add: demo_start_def demo_reply_def plain_action_def stores_elsewhere_def)

lemma demo_run_inv: "inv_with {} {} (conv_run [demo_start ''a''] demo_desk)"
  by (rule conv_run_inv) (use demo_plain demo_desk_inv in \<open>auto simp: demo_start_def\<close>)

lemmas demo_defs = demo_start_def demo_reply_def demo_request_def demo_desk_def conv_act_def conv_run_def

lemmas conv_run_defs = later_def can_see_inbox_def deref_or_def actor_type_for_def or_empty_object_def conv_audit_def conv_event_def
  channels_def message_kinds_def author_types_def audit_actors_def actor_types_def conversation_created_def message_created_def
  start_conversation_def start_body_def post_message_def write_message_def validate_mentions.simps insert_conversation_def
  route_new_conversation_def load_routing_teams_def first_match.simps routing_team_matches_def config_of_def
  pick_assignee_def load_routing_members_def accepts_def open_load_def consume_round_robin_def take_turn_def advance_cursor_row_def
  route_to_def set_team_row_def set_assignee_row_def update_conversation_def record_conv_audit_def record_tx_def
  append_conv_event_def append_event_def next_sequence_def insert_event_def pg_notify_def
  lock_conversation_def lock_and_load_def lock_and_load_full_def visible_row_def conversation_row_def by_id_def
  insert_message_def new_message_def last_sequence_def messages_of_def attach_message_def touch_conversation_def touched_row_def
  message_by_client_id_def

declare utf8.simps [simp del]

lemma demo_text [simp]:
  "digit_char 0 = CHR ''0''" "digit_char 1 = CHR ''1''" "digit_char 2 = CHR ''2''" "digit_char 3 = CHR ''3''"
  "digit_char 4 = CHR ''4''" "digit_char 5 = CHR ''5''" "trim_space ''help'' = ''help''" "trim_space '' hello '' = ''hello''" "trim_space ''hello'' = ''hello''"
  "preview ''help'' = ''help''" "preview ''hello'' = ''hello''" "utf8 ''help''" "utf8 ''hello''"
  by code_simp+

theorem timelines_refine_witness:
  "timeline (conv_run [demo_start ''a'', demo_reply ''b'' ''a0'' None] demo_desk) ''a0''
     = [(''a3'', ''reply'', ''help'', False), (''b0'', ''reply'', ''hello'', False)] \<and>
   list_ex (\<lambda>f. timeline (conv_act (demo_request ''b'') (fst (snd (demo_reply ''b'' ''a0'' None))) []
       (conv_run [demo_start ''a''] demo_desk)) = f (timeline (conv_run [demo_start ''a''] demo_desk)))
     (spec_steps (demo_request ''b'') (fst (snd (demo_reply ''b'' ''a0'' None))))"
proof
  show "timeline (conv_run [demo_start ''a'', demo_reply ''b'' ''a0'' None] demo_desk) ''a0''
     = [(''a3'', ''reply'', ''help'', False), (''b0'', ''reply'', ''hello'', False)]"
    by (simp add: demo_defs tx_run conv_run_defs timeline_def entry_of_def cong: tx_congs conv_action.case_cong_weak)
qed (rule timelines_refine [OF demo_run_inv demo_plain(2)])

text \<open>
  C2: consistent tables.  Under every sequence of operations, whatever statement fails,
  identifiers are unique, the sequences of a conversation are 1, 2, ... without a gap, no
  client id names two messages, every message belongs to a conversation of its workspace,
  a conversation is snoozed exactly when it has a time to wake, links are unique and ordered,
  and the event log stays sound.
\<close>

theorem conversation_tables_consistent:
  assumes "inv_with {} {} d" and "\<forall>(rq, a, fs) \<in> set as. plain_action a"
  shows "log_inv (conv_run as d) \<and> conv_tables (conv_run as d)"
proof -
  have "inv_with {} {} (conv_run as d)" by (rule conv_run_inv) (use assms in auto)
  then show ?thesis by (simp add: inv_with_def)
qed

theorem conversation_tables_consistent_witness:
  "conv_tables (conv_run [demo_start ''a'', demo_start ''b'', demo_reply ''c'' ''a0'' None] demo_desk) \<and>
   map cv_assignee (cd_conversations (conv_run [demo_start ''a'', demo_start ''b'', demo_reply ''c'' ''a0'' None] demo_desk))
     = [Some ''mem_a'', Some ''mem_b'']"
proof
  show "conv_tables (conv_run [demo_start ''a'', demo_start ''b'', demo_reply ''c'' ''a0'' None] demo_desk)"
    using conversation_tables_consistent [OF demo_desk_inv, of "[demo_start ''a'', demo_start ''b'', demo_reply ''c'' ''a0'' None]"]
      demo_plain by (auto simp: demo_start_def demo_reply_def)
  show "map cv_assignee (cd_conversations (conv_run [demo_start ''a'', demo_start ''b'', demo_reply ''c'' ''a0'' None] demo_desk))
     = [Some ''mem_a'', Some ''mem_b'']"
    by (simp add: demo_defs tx_run conv_run_defs cong: tx_congs conv_action.case_cong_weak)
qed

text \<open>The message a client id names, in the tables.\<close>

lemma by_client_id:
  assumes "messages_ok (cd_messages d)" "tag_of m = (i, c, Some x)" "m \<in> set (cd_messages d)"
  shows "message_by_client_id c x d = Some m"
proof -
  have m: "m \<in> set (messages_of c d)" "mg_client m = Some x" using assms(2,3) by (auto simp: tag_of_def messages_of_iff)
  then have "message_by_client_id c x d \<noteq> None" by (auto simp: message_by_client_id_def find_None_iff)
  then obtain n where n: "message_by_client_id c x d = Some n" by blast
  then have n': "n \<in> set (messages_of c d)" "mg_client n = Some x"
    by (auto simp: message_by_client_id_def find_Some_iff)
  have "inj_on (\<lambda>m. (mg_conversation m, mg_client m)) {m \<in> set (cd_messages d). mg_client m \<noteq> None}"
    using assms(1) by (auto simp: messages_ok_def client_slots_def distinct_map)
  then have "n = m" using m n' by (auto simp: inj_on_def messages_of_iff)
  then show ?thesis using n by simp
qed


text \<open>A desk with one open conversation that has no message yet.\<close>

definition open_desk :: conv_db where
  "open_desk = demo_desk\<lparr>cd_conversations := [\<lparr> cv_id = ''a0'', cv_workspace = ''w'', cv_inbox = ''i'', cv_channel = ''widget'',
     cv_subject = None, cv_state = ''open'', cv_priority = ''normal'', cv_customer = None, cv_visitor = None, cv_assignee = None,
     cv_team = None, cv_ticket = None, cv_count = 0, cv_preview = '''', cv_last_at = 7, cv_last_customer = None,
     cv_snoozed = None, cv_created = 7 \<rparr>]\<rparr>"

lemma open_desk_inv: "inv_with {} {} open_desk"
proof -
  have "list_all conv_ok (cd_conversations open_desk)" "distinct (map cv_id (cd_conversations open_desk))"
    by (simp_all add: open_desk_def conv_ok_def valid_states_def valid_priorities_def channels_def utf8.simps)
  moreover have "log_inv open_desk = log_inv demo_desk" by (simp add: open_desk_def)
  ultimately show ?thesis using demo_desk_inv
    by (simp add: inv_with_def conv_tables_def) (simp add: open_desk_def demo_desk_def)
qed

definition demo_post :: "string \<Rightarrow> string \<Rightarrow> (unit, message) ctx" where
  "demo_post p body = post_message (demo_request p) ''w'' ''a0'' (Some ''x'') '''' ''agent'' (Some ''mem_a'') ''Ann'' body [] []"

definition demo_follow :: "request \<times> conv_action \<times> bool list" where
  "demo_follow = (demo_request ''c'', DoFollow ''w'' ''a0'' ''mem_b'', [])"


end
