(* ===== verification/InboxRestriction.thy ===== *)
theory InboxRestriction
  imports ConversationFacts
begin

text \<open>
  Members restricted to some inboxes (src/internal/authorization/inbox.go as
  src/internal/conversation uses it): no operation such a member calls changes a conversation
  of another inbox.
\<close>

section \<open>Rows out of sight\<close>

definition hidden :: "actor option \<Rightarrow> conversation list \<Rightarrow> conversation list" where
  "hidden who cs = filter (\<lambda>c. \<not> can_see_inbox who (cv_inbox c)) cs"

text \<open>The hidden rows are \<open>R\<close>, and the conversations in \<open>V\<close> are in sight.\<close>

definition veil :: "actor option \<Rightarrow> conversation list \<Rightarrow> string set \<Rightarrow> conversation list \<Rightarrow> bool" where
  "veil who R V cs \<longleftrightarrow> distinct (map cv_id cs) \<and> hidden who cs = R \<and>
     (\<forall>c \<in> set cs. cv_id c \<in> V \<longrightarrow> can_see_inbox who (cv_inbox c))"

abbreviation convs :: "(conversation list \<Rightarrow> bool) \<Rightarrow> 'x conv_db_scheme \<Rightarrow> bool" where
  "convs J \<equiv> \<lambda>d. J (cd_conversations d)"

named_theorems unseen \<open>programs that respect the veil\<close>

lemma unseen_statements [unseen]:
  shows "tx_keeps (convs J) (append_conv_event rq k ev)" "tx_keeps (convs J) (record_conv_audit rq k e)"
    "tx_keeps (convs J) (insert_status_history i now c fr to at' a)" "tx_keeps (convs J) (insert_message now i cl c w k2 at2 a2 n b)"
    "tx_keeps (convs J) (update_message i f)" "tx_keeps (convs J) (insert_revision i m b e2)" "tx_keeps (convs J) (move_messages z src tgt)"
    "tx_keeps (convs J) (add_tag_row c t)" "tx_keeps (convs J) (remove_tag_row c t)" "tx_keeps (convs J) (follow_row c m)"
    "tx_keeps (convs J) (unfollow_row c m)" "tx_keeps (convs J) (mark_read_row now m ty r)" "tx_keeps (convs J) (advance_cursor_row tm)"
    "tx_keeps (convs J) (insert_link rq w act a3 b rel)" "tx_keeps (convs J) (delete_link w a3 b rel)"
proof -
  note st = keeps_sql keeps_sql_checked keeps_if keeps_fail keeps_ret keeps_bind
  show "tx_keeps (convs J) (append_conv_event rq k ev)" unfolding append_conv_event_def
    by (intro st keeps_append_frame) simp_all
  show "tx_keeps (convs J) (record_conv_audit rq k e)" unfolding record_conv_audit_def record_tx_def Let_def
    by (intro st) (auto split: if_splits)
  show "tx_keeps (convs J) (insert_status_history i now c fr to at' a)" "tx_keeps (convs J) (insert_message now i cl c w k2 at2 a2 n b)"
    "tx_keeps (convs J) (update_message i f)" "tx_keeps (convs J) (insert_revision i m b e2)" "tx_keeps (convs J) (move_messages z src tgt)"
    "tx_keeps (convs J) (add_tag_row c t)" "tx_keeps (convs J) (remove_tag_row c t)" "tx_keeps (convs J) (follow_row c m)"
    "tx_keeps (convs J) (unfollow_row c m)" "tx_keeps (convs J) (mark_read_row now m ty r)" "tx_keeps (convs J) (advance_cursor_row tm)"
    "tx_keeps (convs J) (insert_link rq w act a3 b rel)" "tx_keeps (convs J) (delete_link w a3 b rel)"
    unfolding insert_status_history_def insert_message_def update_message_def insert_revision_def move_messages_def
      add_tag_row_def remove_tag_row_def follow_row_def unfollow_row_def mark_read_row_def advance_cursor_row_def
      insert_link_def delete_link_def Let_def
    by (intro st; auto split: if_splits option.splits)+
qed

lemma unseen_reads [unseen]:
  "tx_keeps I (by_id who w c)" "tx_keeps I (check_some p v e)" "tx_keeps I (validate_mentions w seen ms)"
  "tx_keeps I (first_match sprint w cust t0 ts)" "tx_keeps I (load_message_for_edit w c m)" "tx_keeps I (ensure_in_workspace w c)"
  unfolding load_message_for_edit_def ensure_in_workspace_def
  by (auto intro!: silent_locks silent_check keeps_validate_mentions keeps_first_match keeps split: option.split)

text \<open>A change of a row in sight that leaves it in sight.\<close>

lemma veil_update:
  assumes v: "veil who R V cs" and c: "c \<in> V"
    and f: "\<And>r. cv_id (f r) = cv_id r" "\<And>r. can_see_inbox who (cv_inbox r) \<Longrightarrow> can_see_inbox who (cv_inbox (f r))"
  shows "veil who R V (update_where (\<lambda>r. cv_id r = c) f cs)"
proof -
  have "map cv_id (update_where (\<lambda>r. cv_id r = c) f cs) = map cv_id cs" by (rule map_update_where) (simp add: f)
  moreover have "hidden who (update_where (\<lambda>r. cv_id r = c) f cs) = hidden who cs"
    if "\<forall>r \<in> set cs. cv_id r \<in> V \<longrightarrow> can_see_inbox who (cv_inbox r)" for cs
    using that c f by (induction cs) (auto simp: hidden_def)
  moreover have "can_see_inbox who (cv_inbox x)"
    if x: "x \<in> set (update_where (\<lambda>r. cv_id r = c) f cs)" "cv_id x \<in> V" for x
  proof -
    from x(1) [unfolded set_update_where] obtain r where r: "r \<in> set cs" "x = (if cv_id r = c then f r else r)" by blast
    then have "cv_id r \<in> V" using x(2) f(1) by (auto split: if_splits)
    then show ?thesis using v r f(2) by (auto simp: veil_def)
  qed
  ultimately show ?thesis using v by (auto simp: veil_def)
qed

lemma unseen_update [unseen]:
  assumes "c \<in> V" "\<And>r. cv_id (f r) = cv_id r" "\<And>r. can_see_inbox who (cv_inbox r) \<Longrightarrow> can_see_inbox who (cv_inbox (f r))"
  shows "tx_keeps (convs (veil who R V)) (update_conversation c f)"
  unfolding update_conversation_def by (intro keeps_sql) (simp add: veil_update assms)

lemma unseen_rows [unseen]:
  assumes "c \<in> V"
  shows "tx_keeps (convs (veil who R V)) (set_assignee_row c m)" "tx_keeps (convs (veil who R V)) (set_team_row c t)"
    "tx_keeps (convs (veil who R V)) (set_priority_row c p)" "tx_keeps (convs (veil who R V)) (set_state_row c st)"
    "tx_keeps (convs (veil who R V)) (snooze_row c until)" "tx_keeps (convs (veil who R V)) (touch_conversation c pv cust at)"
    "tx_keeps (convs (veil who R V)) (apply_merge c n pv at)"
  unfolding set_assignee_row_def set_team_row_def set_priority_row_def set_state_row_def snooze_row_def
    touch_conversation_def apply_merge_def
  by (intro unseen_update keeps_if keeps_ret keeps_sql_checked;
      auto simp: assms touched_row_def merged_row_def intro!: veil_update split: if_splits)+

lemma unseen_set_inbox: "c \<in> V \<Longrightarrow> can_see_inbox who i \<Longrightarrow> tx_keeps (convs (veil who R V)) (set_inbox_row c i)"
  unfolding set_inbox_row_def by (intro unseen_update) auto

text \<open>A lock brings a conversation in sight, or the operation ends there.\<close>

lemma unseen_visible:
  assumes "\<And>cv. cv_id cv = c \<Longrightarrow> tx_keeps (convs (veil who R (insert c V))) (k cv)"
  shows "tx_keeps (convs (veil who R V)) (tx_bind (tx_bind (sql_read (conversation_row w c)) (visible_row who)) k)"
proof (unfold tx_keeps_def, intro allI impI)
  fix d :: "'a conv_db_scheme" and fs
  assume d: "veil who R V (cd_conversations d)"
  let ?m = "tx_bind (tx_bind (sql_read (conversation_row w c)) (visible_row who)) k"
  show "veil who R V (cd_conversations (fst (snd (?m (d, fs)))))"
  proof (cases "\<exists>cv. \<not> faulty fs \<and> conversation_row w c d = Some cv \<and> can_see_inbox who (cv_inbox cv)")
    case False
    then have "fst (snd (?m (d, fs))) = d"
      by (auto simp: tx_bind_def sql_def visible_row_def tx_fail_def split: option.split)
    then show ?thesis using d by simp
  next
    case True
    then obtain cv where cv: "\<not> faulty fs" "conversation_row w c d = Some cv" "can_see_inbox who (cv_inbox cv)" by blast
    have "can_see_inbox who (cv_inbox r)" if "r \<in> set (cd_conversations d)" "cv_id r = c" for r
      using key_unique [of cv_id "cd_conversations d" r cv] conversation_row_Some [OF cv(2)] cv(3) d that by (auto simp: veil_def)
    then have "veil who R (insert c V) (cd_conversations d)" using d by (auto simp: veil_def)
    from keeps_run [OF assms this, of cv "tl fs"] conversation_row_Some [OF cv(2)]
    have "veil who R (insert c V) (cd_conversations (fst (snd (k cv (d, tl fs)))))" by simp
    moreover have "fst (snd (?m (d, fs))) = fst (snd (k cv (d, tl fs)))"
      using cv by (simp add: tx_bind_def sql_def visible_row_def tx_ret_def)
    ultimately show ?thesis by (auto simp: veil_def)
  qed
qed

lemmas unseen_locks = unseen_visible [folded lock_and_load_def] unseen_visible [folded lock_and_load_full_def]

lemma unseen_lock_conversation:
  assumes "tx_keeps (convs (veil who R (insert c V))) k"
  shows "tx_keeps (convs (veil who R V)) (tx_seq (lock_conversation who w c) k)"
proof -
  have "tx_seq (lock_conversation who w c) k = tx_bind (tx_bind (sql_read (conversation_row w c)) (visible_row who)) (\<lambda>_. k)"
    by (rule ext) (auto simp: lock_conversation_def tx_bind_def tx_ret_def split: prod.split sum.split)
  then show ?thesis by (simp only:) (rule unseen_visible [OF assms])
qed

lemma unseen_change:
  assumes "\<And>cv. tx_keeps (convs (veil (rq_actor rq) R (insert c V))) (body cv)"
  shows "tx_keeps (convs (veil (rq_actor rq) R V)) (change_conversation rq w c body)"
  unfolding change_conversation_def by (intro keeps_bind keeps_with_tx unseen_locks assms unseen)

lemma unseen_new_conversation:
  assumes "can_see_inbox who inbox" "tx_keeps (convs (veil who R (insert c V))) k"
  shows "tx_keeps (convs (veil who R V)) (tx_seq (insert_conversation now c w inbox channel subj cust visitor) k)"
proof (unfold tx_keeps_def, intro allI impI)
  fix d :: "'a conv_db_scheme" and fs
  assume d: "veil who R V (cd_conversations d)"
  obtain r d1 f1 where i: "(insert_conversation now c w inbox channel subj cust visitor :: ('a, unit) ctx) (d, fs) = (r, d1, f1)"
    by (metis prod_cases3)
  show "veil who R V (cd_conversations (fst (snd (tx_seq (insert_conversation now c w inbox channel subj cust visitor) k (d, fs)))))"
  proof (cases r)
    case (Inl e)
    then show ?thesis using i d
      by (auto simp: tx_bind_def) (auto simp: insert_conversation_def sql_checked_def split: if_splits)
  next
    case (Inr u)
    then obtain row where row: "d1 = d\<lparr>cd_conversations := cd_conversations d @ [row]\<rparr>" "cv_id row = c" "cv_inbox row = inbox"
        "c \<notin> cv_id ` set (cd_conversations d)"
      using i by (fastforce simp: insert_conversation_def tx_inv split: if_splits)
    have "cv_id r \<noteq> c" if "r \<in> set (cd_conversations d)" for r using row(4) that by auto
    then have "veil who R (insert c V) (cd_conversations d1)"
      using d assms(1) row(1-3) by (force simp: veil_def hidden_def)
    from keeps_run [OF assms(2) this, of f1] Inr i show ?thesis by (auto simp: tx_bind_def veil_def)
  qed
qed

section \<open>The operations\<close>

lemma unseen_routing:
  assumes "c \<in> V"
  shows "tx_keeps (convs (veil who R V)) (route_new_conversation sprint rq w c inbox cust)"
proof -
  let ?I = "convs (veil who R V) :: 'a conv_db_scheme \<Rightarrow> bool"
  have consume: "tx_keeps ?I (consume_round_robin t n)" for t n
    unfolding consume_round_robin_def take_turn_def
    by (auto intro!: keeps_ret keeps_fail keeps_bind keeps_sql unseen split: option.split)
  have pick: "tx_keeps ?I (pick_assignee w c cust t)" for t
    unfolding pick_assignee_def by (auto intro!: keeps_ret keeps_bind keeps_sql keeps_if consume split: option.split)
  have route: "tx_keeps ?I (route_to rq w c t a)" for t a
    unfolding route_to_def by (intro keeps_bind keeps_if keeps_ret unseen assms)
  have "tx_keeps ?I (tx_bind (first_match sprint w cust t0 ts) (\<lambda>t.
      tx_bind (sql_read (\<lambda>d. (inbox, rt_id t) \<in> set (cd_inbox_teams d))) (\<lambda>there.
        if \<not> there then tx_fail (Msg ''no rows in result set'')
        else tx_seq (sql_read (\<lambda>d. ())) (tx_bind (pick_assignee w c cust t) (route_to rq w c t)))))" for t0 ts
    by (intro keeps_bind keeps_first_match keeps_sql keeps_if keeps_fail pick route) simp_all
  then show ?thesis
    unfolding route_new_conversation_def
    by (intro keeps_bind keeps_sql) (auto intro: keeps_ret split: list.split)
qed

lemma unseen_start:
  assumes "stores_elsewhere sets"
  shows "tx_keeps (convs (veil (rq_actor rq) R V)) (start_conversation sp rq w i ch sj cu v n b sets)"
proof (cases "can_see_inbox (rq_actor rq) i")
  case True
  then show ?thesis
    unfolding start_conversation_def start_body_def Let_def
    by (intro keeps_if keeps_fail keeps_bind [OF keeps_with_tx] keeps_bind [OF unseen_reads(1)] keeps_ret
        unseen_new_conversation keeps_bind [OF unseen_routing] unseen_lock_conversation
        keeps_bind [OF unseen_statements(4)] keeps_bind [OF keeps_attach] keeps_bind [OF unseen_rows(6)]
        keeps_bind [OF unseen_statements(1)] assms) simp_all
qed (simp add: start_conversation_def keeps_fail)

lemma unseen_write:
  assumes "stores_elsewhere sets" "cv_id cv \<in> V"
  shows "tx_keeps (convs (veil who R V)) (write_message rq w cv cl k at a n body ms sets)"
  unfolding write_message_def
  by (intro keeps_bind keeps_if keeps_ret keeps_attach unseen assms)

lemma unseen_post:
  assumes "stores_elsewhere sets"
  shows "tx_keeps (convs (veil (rq_actor rq) R V)) (post_message rq w c cl k at a n body ms sets)"
  unfolding post_message_def Let_def
  by (intro keeps_if keeps_fail keeps_with_tx unseen_locks)
    (auto intro!: keeps_bind keeps_sql keeps_ret unseen_write assms split: option.split)

lemma unseen_bodies [unseen]:
  "c \<in> V \<Longrightarrow> tx_keeps (convs (veil who R V)) (assign_body rq w act c m extra cv)"
  "c \<in> V \<Longrightarrow> tx_keeps (convs (veil who R V)) (state_body rq w act c st extra cv)"
  unfolding assign_body_def state_body_def by (auto intro!: keeps_bind keeps_if keeps_ret unseen)

lemma unseen_changes:
  "tx_keeps (convs (veil (rq_actor rq) R V)) (set_assignee rq w act c m)"
  "tx_keeps (convs (veil (rq_actor rq) R V)) (set_team rq w act c t)"
  "tx_keeps (convs (veil (rq_actor rq) R V)) (set_priority rq w act c p)"
  "tx_keeps (convs (veil (rq_actor rq) R V)) (set_state rq w act c st)"
  "tx_keeps (convs (veil (rq_actor rq) R V)) (snooze rq w act c until)"
  "tx_keeps (convs (veil (rq_actor rq) R V)) (add_tag rq w act c tg)"
  "tx_keeps (convs (veil (rq_actor rq) R V)) (remove_tag rq w act c tg)"
  "tx_keeps (convs (veil (rq_actor rq) R V)) (follow rq w c mb)"
  "tx_keeps (convs (veil (rq_actor rq) R V)) (unfollow rq w c mb)"
  "tx_keeps (convs (veil (rq_actor rq) R V)) (mark_read rq w c mb)"
  unfolding set_assignee_def set_team_def set_priority_def set_state_def snooze_def
    add_tag_def remove_tag_def follow_def unfollow_def mark_read_def
  by (intro keeps_bind [OF unseen_reads(2)] keeps_read keeps_if keeps_fail keeps_ret keeps_with_tx unseen_change unseen_locks;
      auto intro!: keeps_bind keeps_if keeps_ret unseen)+

lemma unseen_inbox: "tx_keeps (convs (veil (rq_actor rq) R V)) (set_inbox rq w act c i)"
proof (cases "can_see_inbox (rq_actor rq) i")
  case False
  then show ?thesis by (simp add: set_inbox_def inbox_in_workspace_def tx_keeps_def tx_bind_def tx_ret_def tx_fail_def)
next
  case True
  then show ?thesis
    unfolding set_inbox_def inbox_in_workspace_def
    by (simp, intro keeps_read keeps_if keeps_fail unseen_change)
      (auto intro!: keeps_bind unseen unseen_set_inbox)
qed

lemma unseen_bulk_one: "tx_keeps (convs (veil (rq_actor rq) R V)) (bulk_one rq w act a c)"
  unfolding bulk_one_def by (intro unseen_locks) (auto intro!: keeps_ret unseen split: bulk_action.split)

lemma unseen_bulk_each: "rq_actor rq = who \<Longrightarrow> tx_keeps (convs (veil who R V)) (bulk_each rq w act a cs)"
proof (induction cs arbitrary: rq)
  case (Cons c cs)
  have "rq_actor (later 3 rq) = who" using Cons.prems by (simp add: later_def)
  from Cons.IH [OF this] Cons.prems show ?case
    by (simp only: bulk_each.simps) (intro keeps_bind, use unseen_bulk_one [of rq] in auto)
qed (simp add: keeps_ret)

lemma unseen_bulk: "tx_keeps (convs (veil (rq_actor rq) R V)) (bulk_update rq w act cs a)"
proof -
  have "tx_keeps I (check_bulk w a)" for I
    unfolding check_bulk_def by (auto intro!: unseen_reads keeps_if keeps_fail keeps_ret split: bulk_action.split)
  then show ?thesis
    unfolding bulk_update_def
    by (auto intro!: keeps_if keeps_fail keeps_bind keeps_with_tx keeps_map unseen_reads unseen_bulk_each split: option.split)
qed

lemma unseen_edit:
  "tx_keeps (convs J) (edit_message rq w act c m body)" "tx_keeps (convs J) (redact_message rq w act c m)"
  unfolding edit_message_def redact_message_def update_message_body_def redact_message_row_def Let_def
  by (intro keeps_if keeps_fail keeps_with_tx keeps_bind keeps_ret unseen)+

lemma unseen_merge: "tx_keeps (convs (veil (rq_actor rq) R V)) (merge rq w act src tgt)"
  unfolding merge_def merge_body_def Let_def
  by (intro keeps_if keeps_fail keeps_with_tx unseen_locks)
    (auto intro!: keeps_bind unseen simp: min_def max_def split: prod.split)

lemma unseen_links: "tx_keeps (convs J) (link rq w act s t rel)" "tx_keeps (convs J) (unlink rq w act s t rel)"
  unfolding link_def unlink_def Let_def
  by (intro keeps_if keeps_fail; auto intro!: keeps_if keeps_fail keeps_ret keeps_bind keeps_with_tx unseen
      split: prod.split option.split)+


definition demo_restricted :: request where
  "demo_restricted = (demo_request ''b'')\<lparr>rq_actor := Some \<lparr> ac_user = ''u'', ac_member = ''mem_b'', ac_workspace = ''w'',
     ac_role = ''agent'', ac_capabilities = [], ac_inboxes = Some [''j''] \<rparr>\<rparr>"


end
