(* ===== verification/Paging.thy ===== *)
theory Paging
  imports ConversationFacts
begin

text \<open>
  Lists of a conversation served in pages: its followers, which the service collects page by
  page, and its messages, which a client reads backwards from the newest.  Both lists meet the
  contract \<open>keyset\<close>.
\<close>

section \<open>Followers\<close>

definition follower_list :: "string \<Rightarrow> string \<Rightarrow> 'x conv_db_scheme \<Rightarrow> string list" where
  "follower_list w c d = (if conversation_row w c d = None then []
     else sort (map snd (filter (\<lambda>r. fst r = c) (cd_followers d))))"

definition followers_valid :: "'x conv_db_scheme \<Rightarrow> bool" where
  "followers_valid d \<longleftrightarrow> distinct (cd_followers d) \<and> '''' \<notin> snd ` set (cd_followers d)"

lemma follower_list_strict:
  assumes "followers_valid d"
  shows "sorted_wrt (<) (follower_list w c d)"
proof -
  have "distinct (map snd (filter (\<lambda>r. fst r = c) (cd_followers d)))"
    using assms by (auto simp: followers_valid_def distinct_map inj_on_def)
  then show ?thesis by (simp add: follower_list_def strict_sorted_iff)
qed

lemma filter_sort_plain: "filter P (sort xs) = sort (filter P (xs :: 'a :: linorder list))"
  using filter_sort [of P "\<lambda>x. x" xs] by simp

interpretation follower_pages: keyset followers_valid "follower_list w c" "\<lambda>m. m" "(<)"
  "\<lambda>d b n. follower_ids_page w c (case b of None \<Rightarrow> '''' | Some m \<Rightarrow> m) (int n) d" 201 for w c
proof
  fix d :: "'a conv_db_scheme" and n :: nat and r
  assume v: "followers_valid d"
  then show "sorted_wrt (<) (follower_list w c d)" by (rule follower_list_strict)
  assume n: "0 < n" "n \<le> 201"
  then show "follower_ids_page w c (case None of None \<Rightarrow> '''' | Some m \<Rightarrow> m) (int n) d = take n (follower_list w c d)"
    by (simp add: follower_ids_page_def follower_list_def)
  assume "r \<in> set (follower_list w c d)"
  then have "r \<noteq> ''''" using v by (force simp: follower_list_def followers_valid_def split: if_splits)
  then show "follower_ids_page w c (case Some r of None \<Rightarrow> '''' | Some m \<Rightarrow> m) (int n) d = take n (filter (\<lambda>q. r < q) (follower_list w c d))"
    using n by (simp add: follower_ids_page_def follower_list_def filter_sort_plain)
qed auto

lemma follower_loop_from:
  assumes v: "followers_valid d"
  shows "k \<le> length (follower_list w c d) \<Longrightarrow>
    b = (if k = 0 then '''' else follower_list w c d ! (k - 1)) \<Longrightarrow>
    follower_ids_loop w c d b out = Some (out @ drop k (follower_list w c d))"
proof (induction "length (follower_list w c d) - k" arbitrary: k b out rule: less_induct)
  case less
  let ?L = "follower_list w c d"
  have page: "follower_ids_page w c b 201 d = take 201 (drop k ?L)"
  proof (cases "k = 0")
    case True
    then show ?thesis using follower_pages.first_page [OF v, of 201 w c] less.prems(2) by simp
  next
    case False
    then show ?thesis
      using follower_pages.page_after [OF v, of 201 "k - 1" w c] less.prems by simp
  qed
  show ?case
  proof (cases "length ?L - k < 201")
    case True
    then show ?thesis by (subst follower_ids_loop.simps) (simp add: page Let_def)
  next
    case False
    have l: "last (take 201 (drop k ?L)) = ?L ! (k + 201 - 1)"
      using False by (subst last_conv_nth) (auto simp: add.commute)
    have "follower_ids_loop w c d (last (take 201 (drop k ?L))) (out @ take 201 (drop k ?L))
        = Some ((out @ take 201 (drop k ?L)) @ drop (k + 201) ?L)"
      by (rule less.hyps) (use False l in auto)
    moreover have "take 201 (drop k ?L) @ drop (k + 201) ?L = drop k ?L"
      by (metis add.commute append_take_drop_id drop_drop)
    ultimately show ?thesis using False by (subst follower_ids_loop.simps) (simp add: page Let_def)
  qed
qed

text \<open>
  Collecting the followers ends.  The loop over pages of 201 members always returns, with
  every follower of the conversation once, in order, however many there are.
\<close>

theorem followers_complete:
  assumes "inv_with {} {} d" and "'''' \<notin> snd ` set (cd_followers d)"
  shows "follower_ids w c d = Some (if conversation_row w c d = None then []
    else sort (map snd (filter (\<lambda>r. fst r = c) (cd_followers d))))"
proof -
  have "followers_valid d" using assms by (simp add: inv_with_def conv_tables_def followers_valid_def)
  from follower_loop_from [OF this, of 0 w c "''''" "[]"] show ?thesis
    by (simp add: follower_ids_def follower_list_def)
qed

definition followed_desk :: conv_db where
  "followed_desk = open_desk\<lparr>cd_followers := [(''a0'', ''mem_b''), (''a0'', ''mem_a'')]\<rparr>"

theorem followers_complete_witness:
  "follower_ids ''w'' ''a0'' followed_desk = Some [''mem_a'', ''mem_b'']"
proof -
  have "inv_with {} {} followed_desk"
    using open_desk_inv by (simp add: inv_with_def conv_tables_def followed_desk_def)
  moreover have "'''' \<notin> snd ` set (cd_followers followed_desk)" by (simp add: followed_desk_def)
  ultimately show ?thesis
    using followers_complete [of followed_desk "''w''" "''a0''"]
    by (simp add: conversation_row_def followed_desk_def open_desk_def)
qed

section \<open>Messages\<close>

definition newest_first :: "string \<Rightarrow> string \<Rightarrow> 'x conv_db_scheme \<Rightarrow> message list" where
  "newest_first w c d = rev (list_messages w c 0 d)"

definition pages_valid :: "'x conv_db_scheme \<Rightarrow> bool" where
  "pages_valid d \<longleftrightarrow> messages_ok (cd_messages d)"

lemma list_messages_strict:
  assumes "messages_ok (cd_messages d)"
  shows "sorted_wrt (\<lambda>a b. mg_sequence a < mg_sequence b) (list_messages w c 0 d)"
proof -
  have "distinct (map mg_sequence (filter (\<lambda>m. mg_workspace m = w \<and> mg_sequence m > 0) (messages_of c d)))"
    by (rule distinct_map_filter [OF distinct_sequences [OF assms]])
  then have "distinct (map mg_sequence (list_messages w c 0 d))"
    unfolding list_messages_def by (auto simp: distinct_map)
  then show ?thesis by (intro sorted_key_strict) (simp_all add: list_messages_def)
qed

lemma page_window:
  assumes ok: "messages_ok (cd_messages d)" and n: "0 < n" "n \<le> 200" and b: "0 \<le> b"
  shows "list_messages_page w c b 0 (int n) d =
    (let rows = filter (\<lambda>m. b = 0 \<or> mg_sequence m < b) (newest_first w c d)
     in (rev (take n rows), length rows > n))"
proof -
  let ?keep = "\<lambda>m. mg_workspace m = w \<and> (if b > 0 then mg_sequence m < b else True)"
  have pos: "0 < mg_sequence m" if "m \<in> set (messages_of c d)" for m
    using ok that by (auto simp: messages_ok_def messages_of_iff)
  have "filter ?keep (messages_of c d) =
      filter (\<lambda>m. b = 0 \<or> mg_sequence m < b) (filter (\<lambda>m. mg_workspace m = w \<and> mg_sequence m > 0) (messages_of c d))"
    unfolding filter_filter using pos b by (intro filter_cong) auto
  then have s: "rev (sort_key mg_sequence (filter ?keep (messages_of c d))) =
      filter (\<lambda>m. b = 0 \<or> mg_sequence m < b) (newest_first w c d)"
    by (simp add: newest_first_def list_messages_def rev_sort_filter)
  define S where "S = rev (sort_key mg_sequence (filter ?keep (messages_of c d)))"
  have "list_messages_page w c b 0 (int n) d =
      (rev (if length (take (n + 1) S) > n then take n (take (n + 1) S) else take (n + 1) S), length (take (n + 1) S) > n)"
    using n by (simp add: list_messages_page_def Let_def S_def)
  then show ?thesis unfolding s [symmetric] S_def [symmetric] by (auto simp: Let_def min_def)
qed

interpretation message_pages: keyset pages_valid "newest_first w c" mg_sequence "\<lambda>a b. b < a"
  "\<lambda>d b n. rev (fst (list_messages_page w c (case b of None \<Rightarrow> 0 | Some s \<Rightarrow> s) 0 (int n) d))" 200 for w c
proof
  fix d :: "'a conv_db_scheme" and n :: nat and r
  assume v: "pages_valid d"
  then show "sorted_wrt (\<lambda>a b. mg_sequence b < mg_sequence a) (newest_first w c d)"
    using list_messages_strict [of d w c] by (simp add: pages_valid_def newest_first_def sorted_wrt_rev)
  assume n: "0 < n" "n \<le> 200"
  note w = page_window [OF v [unfolded pages_valid_def] n]
  show "rev (fst (list_messages_page w c (case None of None \<Rightarrow> 0 | Some s \<Rightarrow> s) 0 (int n) d)) = take n (newest_first w c d)"
    by (simp add: w Let_def)
  assume "r \<in> set (newest_first w c d)"
  then have "0 < mg_sequence r" by (auto simp: newest_first_def list_messages_def)
  then show "rev (fst (list_messages_page w c (case Some (mg_sequence r) of None \<Rightarrow> 0 | Some s \<Rightarrow> s) 0 (int n) d))
      = take n (filter (\<lambda>q. mg_sequence q < mg_sequence r) (newest_first w c d))"
    by (simp add: w Let_def)
qed auto

text \<open>A client that goes back from the oldest message of each page while there is more.\<close>

fun read_back :: "nat \<Rightarrow> string \<Rightarrow> string \<Rightarrow> int \<Rightarrow> int \<Rightarrow> 'x conv_db_scheme \<Rightarrow> message list" where
  "read_back 0 w c before limit d = []"
| "read_back (Suc k) w c before limit d = (case list_messages_page w c before 0 limit d of (ms, further) \<Rightarrow>
     if further then read_back k w c (mg_sequence (hd ms)) limit d @ ms else ms)"

lemma read_back_from:
  assumes v: "messages_ok (cd_messages d)" and n: "0 < n" "n \<le> 200"
  shows "j \<le> length (newest_first w c d) \<Longrightarrow> b = (if j = 0 then 0 else mg_sequence (newest_first w c d ! (j - 1))) \<Longrightarrow>
    length (newest_first w c d) - j \<le> k * n \<Longrightarrow> 0 < k \<Longrightarrow>
    read_back k w c b (int n) d = rev (drop j (newest_first w c d))"
proof (induction k arbitrary: j b)
  case (Suc k)
  let ?L = "newest_first w c d"
  have pos: "0 < mg_sequence m" if "m \<in> set ?L" for m using that by (auto simp: newest_first_def list_messages_def)
  have b: "0 \<le> b" using Suc.prems(1,2) pos [of "?L ! (j - 1)"] by auto
  have rows: "filter (\<lambda>m. b = 0 \<or> mg_sequence m < b) ?L = drop j ?L"
  proof (cases "j = 0")
    case False
    have "?L = take (j - 1) ?L @ ?L ! (j - 1) # drop (Suc (j - 1)) ?L"
      by (rule id_take_nth_drop) (use False Suc.prems in auto)
    moreover have "sorted_wrt (\<lambda>a b. mg_sequence b < mg_sequence a) ?L"
      using message_pages.ordered v by (simp add: pages_valid_def)
    ultimately have "filter (\<lambda>m. mg_sequence m < b) ?L = drop (Suc (j - 1)) ?L"
      using message_pages.filter_after [of "take (j - 1) ?L" "?L ! (j - 1)" "drop (Suc (j - 1)) ?L"] Suc.prems(2) False
      by metis
    moreover have "0 < b" using pos [of "?L ! (j - 1)"] Suc.prems(1,2) False by auto
    ultimately show ?thesis using False by simp
  qed (use Suc.prems in simp)
  note p = page_window [OF v n b, of w c, unfolded rows Let_def]
  show ?case
  proof (cases "length ?L - j > n")
    case False
    then show ?thesis by (simp add: p)
  next
    case True
    have h: "hd (rev (take n (drop j ?L))) = ?L ! (j + n - 1)"
      using True n by (subst hd_rev, subst last_conv_nth) auto
    have "0 < k" using True Suc.prems(3) by (cases k) auto
    then have "read_back k w c (mg_sequence (hd (rev (take n (drop j ?L))))) (int n) d = rev (drop (j + n) ?L)"
      using True n h Suc.prems(3) by (intro Suc.IH) auto
    moreover have "rev (drop (j + n) ?L) @ rev (take n (drop j ?L)) = rev (drop j ?L)"
      by (metis add.commute append_take_drop_id drop_drop rev_append)
    ultimately show ?thesis using True by (simp add: p)
  qed
qed simp

text \<open>
  C33: pages lose no message.  A client that reads the pages of a conversation backwards, each
  before the oldest message of the last one, gets exactly the messages the service lists in
  one piece, in order, for every page size up to 200.
\<close>

theorem pages_read_everything:
  assumes "inv_with {} {} d" and "1 \<le> n" and "n \<le> 200" and "int (length (list_messages w c 0 d)) \<le> int k * n" and "1 \<le> k"
  shows "read_back k w c 0 n d = list_messages w c 0 d"
proof -
  have ok: "messages_ok (cd_messages d)" using assms(1) by (simp add: inv_with_def conv_tables_def)
  have "length (newest_first w c d) - 0 \<le> k * nat n"
    using assms(2,4) by (simp add: newest_first_def) (metis (full_types) int_nat_eq nat_int_comparison(3) of_nat_mult order_trans zero_le_one)
  from read_back_from [OF ok, of "nat n" 0 w c 0 k, OF _ _ _ _ this] assms(2,3,5) show ?thesis
    by (simp add: newest_first_def)
qed

theorem pages_read_everything_witness:
  "map mg_body (read_back 2 ''w'' ''a0'' 0 1 (conv_run [demo_start ''a'', demo_reply ''b'' ''a0'' None] demo_desk)) = [''help'', ''hello'']"
proof -
  let ?d = "conv_run [demo_start ''a'', demo_reply ''b'' ''a0'' None] demo_desk"
  have l: "map mg_body (list_messages ''w'' ''a0'' 0 ?d) = [''help'', ''hello'']"
    by (simp add: list_messages_def demo_defs tx_run conv_run_defs cong: tx_congs conv_action.case_cong_weak)
  then have "length (list_messages ''w'' ''a0'' 0 ?d) = 2" by (metis length_map length_Cons list.size(3) numeral_2_eq_2)
  moreover have "inv_with {} {} ?d"
    by (rule conv_run_inv) (use demo_plain demo_desk_inv in \<open>auto simp: demo_start_def demo_reply_def\<close>)
  ultimately have "read_back 2 ''w'' ''a0'' 0 1 ?d = list_messages ''w'' ''a0'' 0 ?d"
    by (intro pages_read_everything) simp_all
  then show ?thesis using l by simp
qed

end
