(* ===== verification/RoutingFacts.thy ===== *)
theory RoutingFacts
  imports ConversationFacts Complex_Main
begin

text \<open>
  The decisions of the routing: the member a strategy picks is the least loaded one, the
  round-robin cursor serves every member once per round, every index is in range, and a new
  conversation goes to a team of its inbox and to an accepting member of that team.
\<close>

section \<open>The smallest under a comparator\<close>

lemma hd_insert_by: "hd (insert_by lt x ys) = (if ys \<noteq> [] \<and> lt (hd ys) x then hd ys else x)"
  by (cases ys) auto

lemma sort_by_Cons: "sort_by lt (x # xs) = insert_by lt x (sort_by lt xs)"
  by (simp add: sort_by_def)

lemma set_insert_by [simp]: "set (insert_by lt x ys) = insert x (set ys)"
  by (induction ys) auto

lemma set_sort_by [simp]: "set (sort_by lt xs) = set xs"
  by (induction xs) (auto simp: sort_by_def)

lemma hd_sort_by:
  fixes key :: "'a \<Rightarrow> 'k :: linorder"
  assumes "xs \<noteq> []" "\<And>a b. a \<in> set xs \<Longrightarrow> b \<in> set xs \<Longrightarrow> lt a b \<longleftrightarrow> key a < key b"
  shows "hd (sort_by lt xs) \<in> set xs \<and> (\<forall>y \<in> set xs. key (hd (sort_by lt xs)) \<le> key y)"
  using assms
proof (induction xs)
  case (Cons x xs)
  show ?case
  proof (cases "xs = []")
    case True
    then show ?thesis by (simp add: sort_by_def)
  next
    case False
    with Cons.IH Cons.prems(2) have ih: "hd (sort_by lt xs) \<in> set xs" "\<forall>y \<in> set xs. key (hd (sort_by lt xs)) \<le> key y" by auto
    have ne: "sort_by lt xs \<noteq> []" using False by (metis set_empty set_sort_by)
    have "lt (hd (sort_by lt xs)) x \<longleftrightarrow> key (hd (sort_by lt xs)) < key x" using Cons.prems(2) ih(1) by simp
    then show ?thesis using ih ne by (auto simp: sort_by_Cons hd_insert_by)
  qed
qed simp

definition load_ratio :: "routing_member \<Rightarrow> rat" where
  "load_ratio m = of_int (rm_assigned m) / of_int (rm_weight m)"

lemma less_for_weight_key:
  assumes "1 \<le> rm_weight a" "1 \<le> rm_weight b"
  shows "less_for_weight a b \<longleftrightarrow> (load_ratio a, rm_id a) < (load_ratio b, rm_id b)"
proof -
  have w: "(0::rat) < of_int (rm_weight a)" "(0::rat) < of_int (rm_weight b)" using assms by simp_all
  have "load_ratio a = load_ratio b \<longleftrightarrow> (of_int (rm_assigned a * rm_weight b) :: rat) = of_int (rm_assigned b * rm_weight a)"
    using w by (simp add: load_ratio_def frac_eq_eq)
  then have eq: "load_ratio a = load_ratio b \<longleftrightarrow> rm_assigned a * rm_weight b = rm_assigned b * rm_weight a"
    by (simp only: of_int_eq_iff)
  have "load_ratio a < load_ratio b \<longleftrightarrow> (of_int (rm_assigned a * rm_weight b) :: rat) < of_int (rm_assigned b * rm_weight a)"
    using w by (simp add: load_ratio_def divide_less_eq less_divide_eq ac_simps)
  then have lt: "load_ratio a < load_ratio b \<longleftrightarrow> rm_assigned a * rm_weight b < rm_assigned b * rm_weight a"
    by (simp only: of_int_less_iff)
  show ?thesis by (auto simp: less_for_weight_def Let_def less_prod_def order_le_less eq lt)
qed

lemma less_loaded_key: "less_loaded a b \<longleftrightarrow> (rm_assigned a, rm_id a) < (rm_assigned b, rm_id b)"
  by (auto simp: less_loaded_def less_prod_def)

lemma stable_index_lt: "0 < n \<Longrightarrow> n < 2 ^ 32 \<Longrightarrow> stable_index v n < n"
proof (cases "n \<le> 1")
  case False
  assume n: "0 < n" "n < 2 ^ 32"
  have "unat (word_of_nat n :: 32 word) = n" using n by (simp add: unat_of_nat take_bit_nat_eq_self)
  then have "unat (fnv v mod word_of_nat n) < n"
    using n by (simp add: unat_mod_distrib)
  then show ?thesis using False by (simp add: stable_index_def)
qed (simp add: stable_index_def)

lemma routing_members_weight: "m \<in> set (load_routing_members w t d) \<Longrightarrow> 1 \<le> rm_weight m"
  by (auto simp: load_routing_members_def)

section \<open>Properties\<close>

text \<open>
  C40: the choice is fair at every moment.  Whatever the strategy, the chosen identifier is
  that of an eligible member; with least_active no eligible member has fewer conversations,
  with weighted none has fewer in proportion to its weight.
\<close>

theorem choice_is_least_loaded:
  assumes "load_routing_members w team d \<noteq> []" and "length (load_routing_members w team d) < 2 ^ 32"
  shows "\<exists>m \<in> set (load_routing_members w team d). choose_routing_member strategy c (load_routing_members w team d) = rm_id m \<and>
    (strategy = ''least_active'' \<longrightarrow> (\<forall>x \<in> set (load_routing_members w team d). rm_assigned m \<le> rm_assigned x)) \<and>
    (strategy = ''weighted'' \<longrightarrow> (\<forall>x \<in> set (load_routing_members w team d). load_ratio m \<le> load_ratio x))"
proof -
  let ?ms = "load_routing_members w team d"
  consider "strategy = ''round_robin'' \<or> strategy = ''least_active''" | "strategy = ''weighted''"
    | "strategy \<notin> {''round_robin'', ''least_active'', ''weighted''}" by blast
  then show ?thesis
  proof cases
    case 1
    have "hd (sort_by less_loaded ?ms) \<in> set ?ms \<and> (\<forall>y \<in> set ?ms.
        (rm_assigned (hd (sort_by less_loaded ?ms)), rm_id (hd (sort_by less_loaded ?ms))) \<le> (rm_assigned y, rm_id y))"
      by (rule hd_sort_by [OF assms(1)]) (rule less_loaded_key)
    then show ?thesis using 1
      by (intro bexI [of _ "hd (sort_by less_loaded ?ms)"]) (auto simp: choose_routing_member_def)
  next
    case 2
    have "hd (sort_by less_for_weight ?ms) \<in> set ?ms \<and> (\<forall>y \<in> set ?ms.
        (load_ratio (hd (sort_by less_for_weight ?ms)), rm_id (hd (sort_by less_for_weight ?ms))) \<le> (load_ratio y, rm_id y))"
      by (rule hd_sort_by [OF assms(1)]) (intro less_for_weight_key routing_members_weight)
    then show ?thesis using 2
      by (intro bexI [of _ "hd (sort_by less_for_weight ?ms)"]) (auto simp: choose_routing_member_def)
  next
    case 3
    have "?ms ! stable_index c (length ?ms) \<in> set ?ms"
      using assms by (intro nth_mem stable_index_lt) simp_all
    then show ?thesis using 3
      by (intro bexI [of _ "?ms ! stable_index c (length ?ms)"]) (auto simp: choose_routing_member_def)
  qed
qed

definition busy_desk :: conv_db where
  "busy_desk = open_desk\<lparr>cd_conversations := map (\<lambda>c. c\<lparr>cv_team := Some ''team'', cv_assignee := Some ''mem_a''\<rparr>) (cd_conversations open_desk)\<rparr>"

theorem choice_is_least_loaded_witness:
  "map rm_assigned (load_routing_members ''w'' ''team'' busy_desk) = [1, 0] \<and>
   choose_routing_member ''least_active'' ''cnv'' (load_routing_members ''w'' ''team'' busy_desk) = ''mem_b''"
proof -
  have l: "load_routing_members ''w'' ''team'' busy_desk =
      [\<lparr> rm_id = ''mem_a'', rm_weight = 1, rm_assigned = 1 \<rparr>, \<lparr> rm_id = ''mem_b'', rm_weight = 1, rm_assigned = 0 \<rparr>]"
    by (simp add: load_routing_members_def accepts_def open_load_def busy_desk_def open_desk_def demo_desk_def)
  from choice_is_least_loaded [of "''w''" "''team''" busy_desk "''least_active''" "''cnv''"] show ?thesis
    by (auto simp: l)
qed

text \<open>The members a number of starts in a row are given by one team, without failures.\<close>

fun turns :: "nat \<Rightarrow> string \<Rightarrow> nat \<Rightarrow> conv_db \<Rightarrow> nat list" where
  "turns 0 team n d = []"
| "turns (Suc j) team n d = (case consume_round_robin team n (d, []) of
     (Inr i, d', _) \<Rightarrow> i # turns j team n d' | (Inl _ :: conv_error err + nat, _, _) \<Rightarrow> [])"

definition cursor :: "string \<Rightarrow> conv_db \<Rightarrow> int" where
  "cursor team d = (case cd_cursors d team of None \<Rightarrow> 0 | Some k \<Rightarrow> k)"

lemma consume_step:
  assumes "0 \<le> cursor team d" "cursor team d + 1 < 2 ^ 63"
  shows "\<exists>d'. consume_round_robin team n (d, []) = (Inr (nat (cursor team d mod int n)) :: conv_error err + nat, d', []) \<and>
    cursor team d' = cursor team d + 1"
  using assms
  by (cases "cd_cursors d team") (auto simp: consume_round_robin_def take_turn_def advance_cursor_row_def tx_run cursor_def)

lemma turns_from:
  "0 \<le> cursor team d \<Longrightarrow> cursor team d + int j < 2 ^ 63 \<Longrightarrow>
     turns j team n d = map (\<lambda>i. nat ((cursor team d + int i) mod int n)) [0..<j]"
proof (induction j arbitrary: d)
  case (Suc j)
  obtain d' where d': "consume_round_robin team n (d, []) = (Inr (nat (cursor team d mod int n)) :: conv_error err + nat, d', [])"
    "cursor team d' = cursor team d + 1"
    using consume_step [of team d n] Suc.prems by auto
  have "turns j team n d' = map (\<lambda>i. nat ((cursor team d' + int i) mod int n)) [0..<j]"
    by (rule Suc.IH) (use Suc.prems d'(2) in auto)
  then show ?case using d'
    by (simp add: upt_rec [of 0] map_Suc_upt [symmetric] algebra_simps del: upt_Suc)
qed simp

lemma round_is_permutation:
  assumes "0 < n"
  shows "mset (map (\<lambda>i. nat ((k + int i) mod int n)) [0..<n]) = mset [0..<n]"
proof -
  let ?f = "\<lambda>i. nat ((k + int i) mod int n)"
  have "inj_on ?f {0..<n}"
  proof (rule inj_onI)
    fix i j assume ij: "i \<in> {0..<n}" "j \<in> {0..<n}" "?f i = ?f j"
    then have "(k + int i) mod int n = (k + int j) mod int n" using assms by (simp add: nat_eq_iff)
    then have "int n dvd int i - int j" by (simp add: mod_eq_dvd_iff)
    moreover have "\<bar>int i - int j\<bar> < int n" using ij by auto
    ultimately show "i = j" using dvd_imp_le_int [of "int i - int j" "int n"] by fastforce
  qed
  moreover have "?f ` {0..<n} \<subseteq> {0..<n}" using assms by (auto simp: nat_less_iff)
  ultimately have s: "?f ` {0..<n} = {0..<n}" "inj_on ?f (set [0..<n])" by (auto simp: endo_inj_surj)
  then have "distinct (map ?f [0..<n])" "set (map ?f [0..<n]) = set [0..<n]" by (simp_all add: distinct_map)
  then show ?thesis by (metis distinct_upt set_eq_iff_mset_eq_distinct)
qed

text \<open>
  Round robin is fair.  From whatever position its cursor has, a team of n members gives
  each of them exactly one of n new conversations in a row.
\<close>

theorem round_robin_serves_all:
  assumes "0 < n" and "0 \<le> cursor team d" and "cursor team d + int n < 2 ^ 63"
  shows "mset (turns n team n d) = mset [0..<n]"
  using turns_from [OF assms(2,3)] round_is_permutation [OF assms(1)] by simp

theorem round_robin_serves_all_witness:
  "mset (turns 3 ''team'' 3 (demo_desk\<lparr>cd_cursors := [''team'' \<mapsto> 7]\<rparr>)) = mset [0, 1, 2] \<and>
   turns 3 ''team'' 3 (demo_desk\<lparr>cd_cursors := [''team'' \<mapsto> 7]\<rparr>) = [1, 2, 0]"
  using round_robin_serves_all [of 3 "''team''" "demo_desk\<lparr>cd_cursors := [''team'' \<mapsto> 7]\<rparr>"]
    turns_from [of "''team''" "demo_desk\<lparr>cd_cursors := [''team'' \<mapsto> 7]\<rparr>" 3 3]
  by (simp add: cursor_def upt_rec)

section \<open>Where a new conversation goes\<close>

lemma consume_Inr:
  "consume_round_robin team n (d, fs) = (Inr i, d', fs') \<Longrightarrow> 0 < n \<Longrightarrow>
     i < n \<and> cd_conversations d' = cd_conversations d"
  by (auto simp: consume_round_robin_def take_turn_def advance_cursor_row_def tx_inv nat_less_iff split: option.splits if_splits)

lemma routing_members_eligible:
  "m \<in> set (load_routing_members w t d) \<Longrightarrow> in_team t (rm_id m) d \<and> accepts w (rm_id m) d"
  by (auto simp: load_routing_members_def in_team_def list_ex_iff)

lemma choice_is_member:
  assumes "ms \<noteq> []" "length ms < 2 ^ 32"
  shows "\<exists>m \<in> set ms. choose_routing_member s c ms = rm_id m"
proof -
  have "hd (sort_by lt ms) \<in> set ms" for lt using assms(1) by (metis hd_in_set set_empty set_sort_by)
  moreover have "ms ! stable_index c (length ms) \<in> set ms" using assms by (intro nth_mem stable_index_lt) simp_all
  ultimately show ?thesis by (auto simp: choose_routing_member_def)
qed

lemma pick_assignee_Inr:
  assumes "pick_assignee w c cust t (d, fs) = (Inr a, d', fs')" and "length (cd_team_members d) < 2 ^ 32"
  shows "cd_conversations d' = cd_conversations d \<and> (\<forall>m. a = Some m \<longrightarrow> in_team (rt_id t) m d \<and> accepts w m d)"
proof -
  let ?ms = "load_routing_members w (rt_id t) d"
  have len: "length ?ms < 2 ^ 32"
    unfolding load_routing_members_def length_sort length_map by (rule le_less_trans [OF length_filter_le assms(2)])
  note chosen = choice_is_member [OF _ len]
  have elig: "in_team (rt_id t) (rm_id m) d" "accepts w (rm_id m) d" if "m \<in> set ?ms" for m
    using routing_members_eligible that by auto
  show ?thesis
    using assms(1) chosen elig
    unfolding pick_assignee_def
    by (auto simp: tx_inv dest!: consume_Inr split: if_splits option.splits) (metis length_greater_0_conv nth_mem consume_Inr)+
qed

lemma matches_Inr: "routing_team_matches sp w cust config (d, fs) = (Inr b, d', fs') \<Longrightarrow> d' = d"
  by (auto simp: routing_team_matches_def tx_inv split: option.splits if_splits)

lemma first_match_Inr:
  "first_match sp w cust t0 ts (d, fs) = (Inr t, d', fs') \<Longrightarrow> d' = d \<and> (t = t0 \<or> t \<in> set ts)"
  by (induction ts arbitrary: fs) (auto simp: first_match.simps tx_inv dest!: matches_Inr split: if_splits)

text \<open>The row of a routed conversation.\<close>

definition routed_row :: "string \<Rightarrow> string option \<Rightarrow> conversation \<Rightarrow> conversation" where
  "routed_row team a r = r\<lparr>cv_team := Some team, cv_assignee := (if a = None then cv_assignee r else a)\<rparr>"

lemma route_to_Inr:
  assumes "route_to rq w c t a (d, fs) = (Inr u, d', fs')"
  shows "cd_conversations d' = update_where (\<lambda>r. cv_id r = c) (routed_row (rt_id t) a) (cd_conversations d)"
proof -
  from assms obtain d1 f1 d2 f2 where
    s: "set_team_row c (Some (rt_id t)) (d, fs) = (Inr (), d1, f1)"
      "(if a = None then tx_ret () else set_assignee_row c a) (d1, f1) = (Inr (), d2, f2)"
      "cd_conversations d' = cd_conversations d2"
    unfolding route_to_def by (auto simp: tx_bind_Inr dest!: record_conv_audit_messages append_conv_event_messages)
  have two: "update_where (\<lambda>r. cv_id r = c) g (update_where (\<lambda>r. cv_id r = c) f cs) = update_where (\<lambda>r. cv_id r = c) (g \<circ> f) cs"
    if "\<And>r. cv_id (f r) = cv_id r" for f g :: "conversation \<Rightarrow> conversation" and cs
    using that by (induction cs) auto
  show ?thesis
    using s two [of "\<lambda>r. r\<lparr>cv_team := Some (rt_id t)\<rparr>" "\<lambda>r. r\<lparr>cv_assignee := a\<rparr>"]
    by (auto simp: set_team_row_def set_assignee_row_def update_conversation_def tx_inv routed_row_def [abs_def] o_def split: if_splits)
qed

text \<open>
  A new conversation finds its people.  When routing succeeds the conversation has got a
  team of its inbox (unless the inbox has none), its assignee if any is a member of that team
  who accepts conversations, and no other conversation has been touched.
\<close>

theorem routed_to_team_member:
  assumes "route_new_conversation sp rq w c inbox cust (d, fs) = (Inr (), d', fs')"
    and "length (cd_team_members d) < 2 ^ 32"
  shows "load_routing_teams w inbox d = [] \<and> cd_conversations d' = cd_conversations d \<or>
    (\<exists>t \<in> set (load_routing_teams w inbox d). \<exists>a.
       cd_conversations d' = update_where (\<lambda>r. cv_id r = c) (routed_row (rt_id t) a) (cd_conversations d) \<and>
       (\<forall>m. a = Some m \<longrightarrow> in_team (rt_id t) m d \<and> accepts w m d))"
proof (cases "load_routing_teams w inbox d")
  case Nil
  then show ?thesis using assms(1) by (auto simp: route_new_conversation_def tx_inv)
next
  case (Cons t0 ts)
  let ?rest = "\<lambda>t. tx_bind (sql_read (\<lambda>d. (inbox, rt_id t) \<in> set (cd_inbox_teams d))) (\<lambda>there.
      if \<not> there then tx_fail (Msg ''no rows in result set'')
      else tx_seq (sql_read (\<lambda>d. ())) (tx_bind (pick_assignee w c cust t) (route_to rq w c t)))"
  obtain f1 where "tx_bind (first_match sp w cust t0 (t0 # ts)) ?rest (d, f1) = (Inr (), d', fs')"
    using assms(1) Cons unfolding route_new_conversation_def by (auto simp: sql_Inr tx_bind_Inr [of "sql_read _"])
  then obtain t d0 f2 where t: "first_match sp w cust t0 (t0 # ts) (d, f1) = (Inr t, d0, f2)" and rest: "?rest t (d0, f2) = (Inr (), d', fs')"
    by (auto simp only: tx_bind_Inr [of "first_match _ _ _ _ _"])
  have t': "d0 = d" "t \<in> set (t0 # ts)" using first_match_Inr [OF t] by auto
  from rest obtain f3 a d1 f4 where
    p: "pick_assignee w c cust t (d, f3) = (Inr a, d1, f4)" and r: "route_to rq w c t a (d1, f4) = (Inr (), d', fs')"
    unfolding t'(1) by (auto simp: tx_inv split: if_splits)
  show ?thesis
    using pick_assignee_Inr [OF p assms(2)] route_to_Inr [OF r] t'(2) Cons by auto
qed

theorem routed_to_team_member_witness:
  "let r = route_new_conversation (\<lambda>_. '''') (demo_request ''b'') ''w'' ''a0'' ''i'' None (open_desk, []) in
     \<not> isl (fst r) \<and> map (\<lambda>c. (cv_team c, cv_assignee c)) (cd_conversations (fst (snd r))) = [(Some ''team'', Some ''mem_a'')]
     \<and> length (load_routing_teams ''w'' ''i'' open_desk) = 1
     \<and> list_ex (\<lambda>t. list_ex (\<lambda>a. cd_conversations (fst (snd r))
          = update_where (\<lambda>r. cv_id r = ''a0'') (routed_row (rt_id t) a) (cd_conversations open_desk)
          \<and> (a = None \<or> in_team (rt_id t) (the a) open_desk \<and> accepts ''w'' (the a) open_desk)) [None, Some ''mem_a'', Some ''mem_b''])
        (load_routing_teams ''w'' ''i'' open_desk)"
proof -
  let ?r = "route_new_conversation (\<lambda>_. '''') (demo_request ''b'') ''w'' ''a0'' ''i'' None (open_desk, [])"
  have e: "\<not> isl (fst ?r)" "map (\<lambda>c. (cv_team c, cv_assignee c)) (cd_conversations (fst (snd ?r))) = [(Some ''team'', Some ''mem_a'')]"
    by (simp_all add: open_desk_def demo_defs tx_run conv_run_defs cong: tx_congs)
  have t: "load_routing_teams ''w'' ''i'' open_desk = [\<lparr> rt_id = ''team'', rt_strategy = ''round_robin'', rt_config = [] \<rparr>]"
    by (simp add: open_desk_def demo_desk_def load_routing_teams_def config_of_def)
  have members: "m = ''mem_a'' \<or> m = ''mem_b''" if "in_team ''team'' m open_desk" for m
    using that by (auto simp: in_team_def open_desk_def demo_desk_def)
  obtain d' fs' where r: "?r = (Inr (), d', fs')"
  proof (cases ?r)
    case (fields v d' fs')
    then show ?thesis using e(1) that by (cases v) auto
  qed
  have len: "length (cd_team_members open_desk) < 2 ^ 32" by (simp add: open_desk_def demo_desk_def)
  have "load_routing_teams ''w'' ''i'' open_desk \<noteq> []" by (simp only: t) simp
  with routed_to_team_member [OF r len] obtain T a where
    T: "T \<in> set (load_routing_teams ''w'' ''i'' open_desk)"
    and a': "cd_conversations d' = update_where (\<lambda>r. cv_id r = ''a0'') (routed_row (rt_id T) a) (cd_conversations open_desk)"
       "\<forall>m. a = Some m \<longrightarrow> in_team (rt_id T) m open_desk \<and> accepts ''w'' m open_desk"
    by metis
  have T: "rt_id T = ''team''" using T by (simp add: t)
  note a = a' [unfolded T]
  have a3: "a = None \<or> a = Some ''mem_a'' \<or> a = Some ''mem_b''" using a(2) members by (cases a) auto
  have "list_ex (\<lambda>a. cd_conversations d' = update_where (\<lambda>r. cv_id r = ''a0'') (routed_row ''team'' a) (cd_conversations open_desk)
          \<and> (a = None \<or> in_team ''team'' (the a) open_desk \<and> accepts ''w'' (the a) open_desk)) [None, Some ''mem_a'', Some ''mem_b'']"
    unfolding list_ex_iff by (rule bexI [of _ a]) (use a a3 in auto)
  then show ?thesis using e unfolding Let_def t r by (simp only: routing_team.simps list.size fst_conv snd_conv) simp
qed

end
