(* ===== verification/Automation.thy ===== *)
theory Automation
  imports ConversationService "HOL-Library.Word"
begin

text \<open>
  Automation rules (src/internal/automation/service.go): the rules and their versions, the
  condition language, the actions with their receipts, the execution of the rules an event of
  the log triggers with its defences against loops (causation depth) and repetition
  (executions and receipts), and the scheduled actions.

  The conversation service is the one of the theory ConversationService.  The other services
  the actions call (tickets, SLA, tasks, webhooks, the mail queue, notifications) are the
  fields of the record \<open>services\<close>: a field is \<open>None\<close> when the program runs without the
  service.  fmt.Sprint, fmt.Sscanf of a number, decoding of JSON text, ids.Stable and the
  text of an error are the fields of the record \<open>env\<close>.
\<close>

section \<open>State\<close>

record action =
  an_id :: string
  an_type :: string
  an_params :: "(string \<times> json) list"

record rule =
  ru_id :: string
  ru_workspace :: string
  ru_name :: string
  ru_description :: string
  ru_trigger :: string
  ru_conditions :: "(string \<times> json) list"
  ru_actions :: "action list"
  ru_position :: int
  ru_enabled :: bool
  ru_max :: "int option"
  ru_version :: int
  ru_last_run :: "int option"
  ru_created_by :: "string option"
  ru_created :: int
  ru_updated :: int

record rule_version =
  rn_id :: string
  rn_rule :: string
  rn_version :: int
  rn_name :: string
  rn_trigger :: string
  rn_conditions :: "(string \<times> json) list"
  rn_actions :: "action list"
  rn_changed_by :: "string option"

record execution =
  ex_id :: string
  ex_workspace :: string
  ex_rule :: string
  ex_version :: int
  ex_event :: "string option"
  ex_subject_type :: string
  ex_subject :: string
  ex_outcome :: string
  ex_depth :: nat
  ex_causation :: string
  ex_applied :: "action list"
  ex_error :: string
  ex_dry :: bool
  ex_at :: int

record scheduled =
  sc_id :: string
  sc_workspace :: string
  sc_kind :: string
  sc_subject_type :: string
  sc_subject :: string
  sc_payload :: json
  sc_for :: int
  sc_state :: string
  sc_created_by :: "string option"
  sc_executed :: "int option"
  sc_lease :: "int option"
  sc_attempts :: int

record automation_db = conv_db +
  at_rules :: "rule list"
  at_versions :: "rule_version list"
  at_executions :: "execution list"
  at_receipts :: "(string \<times> string) list"
  at_scheduled :: "scheduled list"

datatype automation_error = RuleNotFound | AutoInvalidName | AutoInvalidTrigger | AutoInvalidAction
  | AutoConversation conv_error

type_synonym ('x, 'a) actx = "('x automation_db_scheme, automation_error, 'a) tx"

definition triggers :: "string list" where
  "triggers = [''conversation.created'', ''message.received'', ''ticket.created'', ''ticket.updated'',
     ''customer.identified'', ''customer.updated'', ''event.received'', ''form.submitted'', ''feedback.submitted'',
     ''article.published'', ''changelog.published'', ''sla.approaching'', ''sla.breached'', ''conversation.idle'',
     ''business_hours.changed'', ''schedule'']"

text \<open>The triggers the CHECK constraint of automation_rules allows.\<close>

definition schema_triggers :: "string list" where
  "schema_triggers = [''conversation.created'', ''message.received'', ''ticket.created'', ''ticket.updated'',
     ''customer.identified'', ''customer.updated'', ''event.received'', ''form.submitted'', ''feedback.submitted'',
     ''sla.approaching'', ''sla.breached'', ''conversation.idle'', ''business_hours.changed'', ''schedule'']"

definition action_types :: "string list" where
  "action_types = [''assign_member'', ''assign_team'', ''add_tag'', ''remove_tag'', ''set_priority'', ''set_field'',
     ''set_state'', ''send_message'', ''send_email'', ''invoke_webhook'', ''move_inbox'', ''start_sla'', ''pause_sla'',
     ''close_after_inactivity'', ''create_task'']"

definition max_depth :: nat where "max_depth = 8"

section \<open>What the service is given\<close>

datatype ticket_call = TkAssignee string | TkTeam string | TkInbox string | TkPriority string | TkStatus string
  | TkTag string bool | TkField string json

record task_input =
  tn_title :: string
  tn_description :: string
  tn_subject_type :: string
  tn_subject :: string
  tn_assignee :: string
  tn_due_after :: int

text \<open>
  struct Options.  Every call gets the request (context), then the arguments of the Go
  method; a call that writes a receipt itself (queueEmail's EnqueueTx, EnqueueAction,
  CreateFromAutomation) gets the action key of its context too.
\<close>

record 'x services =
  sv_conversation :: bool
  sv_ticket :: "(request \<Rightarrow> string \<Rightarrow> string \<Rightarrow> string \<Rightarrow> ticket_call \<Rightarrow> ('x, unit) actx) option"
  sv_email :: "(request \<Rightarrow> string \<Rightarrow> string \<Rightarrow> string \<Rightarrow> string \<Rightarrow> string \<Rightarrow> ('x, unit) actx) option"
  sv_webhook :: "(request \<Rightarrow> string \<Rightarrow> string \<Rightarrow> string \<Rightarrow> json \<Rightarrow> ('x, unit) actx) option"
  sv_sla_ensure :: "(request \<Rightarrow> string \<Rightarrow> string \<Rightarrow> string \<Rightarrow> ('x, unit) actx) option"
  sv_sla_pause :: "(request \<Rightarrow> string \<Rightarrow> string \<Rightarrow> string \<Rightarrow> string \<Rightarrow> ('x, unit) actx) option"
  sv_tasks :: "(request \<Rightarrow> string \<Rightarrow> string \<Rightarrow> string \<Rightarrow> task_input \<Rightarrow> ('x, unit) actx) option"
  sv_notify :: "(request \<Rightarrow> string \<Rightarrow> string \<Rightarrow> string \<Rightarrow> string \<Rightarrow> string \<Rightarrow> ('x, unit) actx) option"

record env =
  en_sprint :: "json \<Rightarrow> string"
  en_scan :: "string \<Rightarrow> int option"
  en_json :: "string \<Rightarrow> json option"
  en_stable :: "string \<Rightarrow> string"
  en_text :: "automation_error err \<Rightarrow> string"

section \<open>Rules\<close>

text \<open>validateActions names the actions that have no id.\<close>

fun number_actions :: "nat \<Rightarrow> action list \<Rightarrow> action list option" where
  "number_actions n [] = Some []"
| "number_actions n (a # as) =
     (if an_type a \<notin> set action_types then None
      else map_option (\<lambda>rest. (if an_id a = '''' then a\<lparr>an_id := ''action_'' @ decimal n\<rparr> else a) # rest)
        (number_actions (Suc n) as))"

record rule_input =
  ri_name :: string
  ri_description :: string
  ri_trigger :: string
  ri_conditions :: "(string \<times> json) list"
  ri_actions :: "action list"
  ri_position :: int
  ri_enabled :: bool
  ri_max :: "int option"

definition check_rule :: "rule_input \<Rightarrow> automation_error + action list" where
  "check_rule inp =
     (if trim_space (ri_name inp) = '''' then Inl AutoInvalidName
      else if ri_trigger inp \<notin> set triggers then Inl AutoInvalidTrigger
      else case number_actions 1 (ri_actions inp) of None \<Rightarrow> Inl AutoInvalidAction | Some as \<Rightarrow> Inr as)"

text \<open>What the columns of automation_rules accept.\<close>

definition rule_storable :: "rule \<Rightarrow> bool" where
  "rule_storable r \<longleftrightarrow> ru_trigger r \<in> set schema_triggers \<and> - (2 ^ 15) \<le> ru_position r \<and> ru_position r < 2 ^ 15 \<and>
     (case ru_max r of None \<Rightarrow> True | Some n \<Rightarrow> 0 < n \<and> n < 2 ^ 31)"

definition rule_row :: "string \<Rightarrow> string \<Rightarrow> 'x automation_db_scheme \<Rightarrow> rule option" where
  "rule_row w i d = find (\<lambda>r. ru_workspace r = w \<and> ru_id r = i) (at_rules d)"

definition get_rule :: "string \<Rightarrow> string \<Rightarrow> ('x, rule) actx" where
  "get_rule w i = tx_bind (sql_read (rule_row w i)) (\<lambda>r. case r of None \<Rightarrow> tx_fail (Err RuleNotFound) | Some r \<Rightarrow> tx_ret r)"

definition insert_rule :: "rule \<Rightarrow> ('x, unit) actx" where
  "insert_rule r = sql_checked (\<lambda>d. if ru_id r \<in> ru_id ` set (at_rules d) \<or> \<not> rule_storable r
       \<or> (case ru_created_by r of None \<Rightarrow> False | Some m \<Rightarrow> m \<notin> mb_id ` set (cd_members d)) then None
     else Some ((), d\<lparr>at_rules := at_rules d @ [r]\<rparr>))"

definition create_rule :: "string \<Rightarrow> int \<Rightarrow> string \<Rightarrow> string \<Rightarrow> rule_input \<Rightarrow> ('x, rule) actx" where
  "create_rule i now w m inp = (case check_rule inp of Inl e \<Rightarrow> tx_fail (Err e)
     | Inr as \<Rightarrow> tx_seq (insert_rule \<lparr> ru_id = i, ru_workspace = w, ru_name = trim_space (ri_name inp),
           ru_description = trim_space (ri_description inp), ru_trigger = ri_trigger inp, ru_conditions = ri_conditions inp,
           ru_actions = as, ru_position = ri_position inp, ru_enabled = ri_enabled inp, ru_max = ri_max inp, ru_version = 1,
           ru_last_run = None, ru_created_by = null_if m, ru_created = now, ru_updated = now \<rparr>)
         (get_rule w i))"

definition insert_version :: "rule_version \<Rightarrow> ('x, unit) actx" where
  "insert_version v = sql_checked (\<lambda>d. if rn_id v \<in> rn_id ` set (at_versions d)
       \<or> (rn_rule v, rn_version v) \<in> (\<lambda>u. (rn_rule u, rn_version u)) ` set (at_versions d)
       \<or> rn_rule v \<notin> ru_id ` set (at_rules d)
       \<or> (case rn_changed_by v of None \<Rightarrow> False | Some m \<Rightarrow> m \<notin> mb_id ` set (cd_members d)) then None
     else Some ((), d\<lparr>at_versions := at_versions d @ [v]\<rparr>))"

definition updated_rule :: "int \<Rightarrow> int \<Rightarrow> rule_input \<Rightarrow> action list \<Rightarrow> rule \<Rightarrow> rule" where
  "updated_rule now version inp as r = r\<lparr>ru_name := trim_space (ri_name inp), ru_description := trim_space (ri_description inp),
     ru_trigger := ri_trigger inp, ru_conditions := ri_conditions inp, ru_actions := as, ru_position := ri_position inp,
     ru_enabled := ri_enabled inp, ru_max := ri_max inp, ru_version := version, ru_updated := now\<rparr>"

definition update_rule_row :: "string \<Rightarrow> string \<Rightarrow> (rule \<Rightarrow> rule) \<Rightarrow> ('x, unit) actx" where
  "update_rule_row w i f = sql_checked (\<lambda>d.
     if \<exists>r \<in> set (at_rules d). ru_workspace r = w \<and> ru_id r = i \<and> \<not> rule_storable (f r) then None
     else Some ((), d\<lparr>at_rules := update_where (\<lambda>r. ru_workspace r = w \<and> ru_id r = i) f (at_rules d)\<rparr>))"

text \<open>Update: the version row keeps the new content, the rule is read before the checks.\<close>

definition update_rule :: "string \<Rightarrow> int \<Rightarrow> string \<Rightarrow> string \<Rightarrow> string \<Rightarrow> rule_input \<Rightarrow> ('x, rule) actx" where
  "update_rule vid now w m i inp = tx_bind (get_rule w i) (\<lambda>current.
     case check_rule inp of Inl e \<Rightarrow> tx_fail (Err e)
     | Inr as \<Rightarrow> let version = ru_version current + 1 in
         tx_seq (with_tx (tx_seq
            (insert_version \<lparr> rn_id = vid, rn_rule = i, rn_version = version, rn_name = ri_name inp, rn_trigger = ri_trigger inp,
               rn_conditions = ri_conditions inp, rn_actions = as, rn_changed_by = null_if m \<rparr>)
            (update_rule_row w i (updated_rule now version inp as))))
         (get_rule w i))"

text \<open>ListPage in execution order; without a cursor and with limit 0 it is List.\<close>

definition rule_key :: "rule \<Rightarrow> int \<times> int \<times> string" where
  "rule_key r = (ru_position r, ru_created r, ru_id r)"

definition list_rules :: "string \<Rightarrow> (int \<times> int \<times> string) option \<Rightarrow> nat \<Rightarrow> 'x automation_db_scheme \<Rightarrow> rule list" where
  "list_rules w after limit d =
     (let rows = sort_key rule_key (filter (\<lambda>r. ru_workspace r = w \<and> (case after of None \<Rightarrow> True | Some k \<Rightarrow> k < rule_key r)) (at_rules d))
      in if limit = 0 then rows else take limit rows)"

section \<open>Conditions\<close>

definition text_of :: "(string \<times> json) list \<Rightarrow> string \<Rightarrow> string" where
  "text_of m k = (case map_of m k of Some (JStr s) \<Rightarrow> s | _ \<Rightarrow> '''')"

text \<open>strings.Contains.\<close>

fun contains :: "string \<Rightarrow> string \<Rightarrow> bool" where
  "contains [] t = (t = [])"
| "contains (c # s) t = (has_prefix (c # s) t \<or> contains s t)"

text \<open>\<open>actual = None\<close>: the subject has no such field; a missing value is nil.\<close>

definition compare_condition :: "(json \<Rightarrow> string) \<Rightarrow> json option \<Rightarrow> string \<Rightarrow> json option \<Rightarrow> bool" where
  "compare_condition sprint actual operator expected =
     (if operator = ''is_set'' then (case actual of None \<Rightarrow> False | Some v \<Rightarrow> v \<noteq> JNull \<and> v \<noteq> JStr '''')
      else case actual of None \<Rightarrow> operator = ''is_not''
      | Some v \<Rightarrow> let left = sprint v; right = sprint (case expected of None \<Rightarrow> JNull | Some e \<Rightarrow> e) in
          if operator = ''is'' then left = right
          else if operator = ''is_not'' then left \<noteq> right
          else if operator = ''contains'' then contains (to_lower left) (to_lower right)
          else if operator = ''in'' then (case expected of Some (JArr vs) \<Rightarrow> list_ex (\<lambda>e. left = sprint e) vs | _ \<Rightarrow> False)
          else False)"

definition condition_holds :: "(json \<Rightarrow> string) \<Rightarrow> (string \<times> json) list \<Rightarrow> json \<Rightarrow> bool" where
  "condition_holds sprint subject c = (case c of
     JObj m \<Rightarrow> compare_condition sprint (map_of subject (text_of m ''field'')) (text_of m ''operator'') (map_of m ''value'')
   | _ \<Rightarrow> False)"

definition matches_data :: "(json \<Rightarrow> string) \<Rightarrow> (string \<times> json) list \<Rightarrow> (string \<times> json) list \<Rightarrow> bool" where
  "matches_data sprint conditions subject =
     (if conditions = [] then True
      else case map_of conditions ''conditions'' of
        Some (JArr raw) \<Rightarrow> let results = map (condition_holds sprint subject) raw in
          if results = [] then True
          else if text_of conditions ''match'' = ''any'' then list_ex id results
          else list_all id results
      | _ \<Rightarrow> False)"

section \<open>Actions\<close>

fun required_string :: "(string \<times> json) list \<Rightarrow> string list \<Rightarrow> string option" where
  "required_string params [] = None"
| "required_string params (k # ks) =
     (if trim_space (text_of params k) \<noteq> '''' then Some (trim_space (text_of params k)) else required_string params ks)"

definition int_param :: "env \<Rightarrow> (string \<times> json) list \<Rightarrow> string \<Rightarrow> int \<Rightarrow> int" where
  "int_param en params k fallback = (case map_of params k of
     Some (JInt n) \<Rightarrow> n
   | Some (JStr s) \<Rightarrow> (case en_scan en s of Some n \<Rightarrow> n | None \<Rightarrow> fallback)
   | _ \<Rightarrow> fallback)"

text \<open>A call of the conversation service; its errors are errors of the action.\<close>

definition tx_lift :: "('f \<Rightarrow> 'e) \<Rightarrow> ('d, 'f, 'a) tx \<Rightarrow> ('d, 'e, 'a) tx" where
  "tx_lift f m = (\<lambda>s. case m s of (Inl e, s') \<Rightarrow> (Inl (map_err f e), s') | (Inr a, s') \<Rightarrow> (Inr a, s'))"

definition conversation_call :: "('x automation_db_scheme, conv_error, 'a) tx \<Rightarrow> ('x, unit) actx" where
  "conversation_call m = tx_seq (tx_lift AutoConversation m) (tx_ret ())"

definition missing_parameter :: "('x, 'a) actx" where
  "missing_parameter = tx_fail (Msg ''automation: action parameter is required'')"

definition need :: "(string \<times> json) list \<Rightarrow> string list \<Rightarrow> (string \<Rightarrow> ('x, unit) actx) \<Rightarrow> ('x, unit) actx" where
  "need params ks f = (case required_string params ks of None \<Rightarrow> missing_parameter | Some s \<Rightarrow> f s)"

text \<open>applyAssignee and its five siblings: a conversation, else a ticket, else an error.\<close>

definition on_subject :: "'x services \<Rightarrow> request \<Rightarrow> string \<Rightarrow> string \<Rightarrow> string \<Rightarrow> string \<Rightarrow> string
    \<Rightarrow> ('x, unit) actx \<Rightarrow> ticket_call \<Rightarrow> ('x, unit) actx" where
  "on_subject sv rq w act st sid refusal conv call =
     (if st = ''conversation'' \<and> sv_conversation sv then conv
      else case sv_ticket sv of
        Some f \<Rightarrow> if st = ''ticket'' then f rq w act sid call else tx_fail (Msg refusal)
      | None \<Rightarrow> tx_fail (Msg refusal))"

definition apply_assignee :: "'x services \<Rightarrow> request \<Rightarrow> string \<Rightarrow> string \<Rightarrow> string \<Rightarrow> string \<Rightarrow> string \<Rightarrow> ('x, unit) actx" where
  "apply_assignee sv rq w act st sid m = on_subject sv rq w act st sid
     ''automation: assign_member requires a conversation or ticket subject''
     (conversation_call (set_assignee rq w act sid (Some m))) (TkAssignee m)"

definition apply_team :: "'x services \<Rightarrow> request \<Rightarrow> string \<Rightarrow> string \<Rightarrow> string \<Rightarrow> string \<Rightarrow> string \<Rightarrow> ('x, unit) actx" where
  "apply_team sv rq w act st sid t = on_subject sv rq w act st sid
     ''automation: assign_team requires a conversation or ticket subject''
     (conversation_call (set_team rq w act sid (Some t))) (TkTeam t)"

definition apply_inbox :: "'x services \<Rightarrow> request \<Rightarrow> string \<Rightarrow> string \<Rightarrow> string \<Rightarrow> string \<Rightarrow> string \<Rightarrow> ('x, unit) actx" where
  "apply_inbox sv rq w act st sid i = on_subject sv rq w act st sid
     ''automation: move_inbox requires a conversation or ticket subject''
     (conversation_call (set_inbox rq w act sid i)) (TkInbox i)"

definition apply_priority :: "'x services \<Rightarrow> request \<Rightarrow> string \<Rightarrow> string \<Rightarrow> string \<Rightarrow> string \<Rightarrow> string \<Rightarrow> ('x, unit) actx" where
  "apply_priority sv rq w act st sid p = on_subject sv rq w act st sid
     ''automation: set_priority requires a conversation or ticket subject''
     (conversation_call (set_priority rq w act sid p)) (TkPriority p)"

definition apply_state :: "'x services \<Rightarrow> request \<Rightarrow> string \<Rightarrow> string \<Rightarrow> string \<Rightarrow> string \<Rightarrow> string \<Rightarrow> ('x, unit) actx" where
  "apply_state sv rq w act st sid s = on_subject sv rq w act st sid
     ''automation: set_state requires a conversation or ticket subject''
     (conversation_call (set_state rq w act sid s)) (TkStatus s)"

definition apply_tag :: "'x services \<Rightarrow> request \<Rightarrow> string \<Rightarrow> string \<Rightarrow> string \<Rightarrow> string \<Rightarrow> string \<Rightarrow> bool \<Rightarrow> ('x, unit) actx" where
  "apply_tag sv rq w act st sid t add = on_subject sv rq w act st sid
     ''automation: tag actions require a conversation or ticket subject''
     (conversation_call (if add then add_tag rq w act sid t else remove_tag rq w act sid t)) (TkTag t add)"

text \<open>events.CompleteActionTx.\<close>

definition complete_action_row :: "string \<Rightarrow> string \<Rightarrow> ('x, unit) actx" where
  "complete_action_row w key = sql_exec (\<lambda>d. if (w, key) \<in> set (at_receipts d) then d
     else d\<lparr>at_receipts := at_receipts d @ [(w, key)]\<rparr>)"

definition complete_key :: "string \<Rightarrow> string \<Rightarrow> ('x, unit) actx" where
  "complete_key w key = (if key = '''' then tx_ret () else complete_action_row w key)"

text \<open>queueEmail; the field of the service is EnqueueTx with ErrDuplicate let pass.\<close>

definition queue_email :: "'x services \<Rightarrow> request \<Rightarrow> string \<Rightarrow> string \<Rightarrow> (string \<times> json) list \<Rightarrow> ('x, unit) actx" where
  "queue_email sv rq key w params = (case sv_email sv of
     None \<Rightarrow> tx_fail (Msg ''automation: email queue is unavailable'')
   | Some f \<Rightarrow> need params [''to''] (\<lambda>to. need params [''subject''] (\<lambda>subject. need params [''body'', ''message''] (\<lambda>body.
       with_tx (tx_seq (f rq key w to subject body) (complete_key w key))))))"

text \<open>The payload of invokeWebhook; decoding null into the map leaves it nil.\<close>

definition webhook_payload :: "env \<Rightarrow> (string \<times> json) list \<Rightarrow> json option" where
  "webhook_payload en params = (case map_of params ''payload'' of
     Some (JObj m) \<Rightarrow> Some (JObj m)
   | other \<Rightarrow>
       if trim_space (text_of params ''payload'') \<noteq> '''' then
         (case en_json en (text_of params ''payload'') of Some (JObj m) \<Rightarrow> Some (JObj m) | Some JNull \<Rightarrow> Some JNull | _ \<Rightarrow> None)
       else Some (JObj [(''source'', JStr ''automation''), (''parameters'', JObj params)]))"

definition invoke_webhook :: "env \<Rightarrow> 'x services \<Rightarrow> request \<Rightarrow> string \<Rightarrow> string \<Rightarrow> (string \<times> json) list \<Rightarrow> ('x, unit) actx" where
  "invoke_webhook en sv rq key w params = (case sv_webhook sv of
     None \<Rightarrow> tx_fail (Msg ''automation: webhook service is unavailable'')
   | Some f \<Rightarrow> need params [''endpoint_id''] (\<lambda>endpoint. case webhook_payload en params of
       None \<Rightarrow> tx_fail (Msg ''automation: webhook payload must be valid JSON'')
     | Some p \<Rightarrow> f rq key w endpoint p))"

definition start_sla :: "'x services \<Rightarrow> request \<Rightarrow> string \<Rightarrow> string \<Rightarrow> string \<Rightarrow> ('x, unit) actx" where
  "start_sla sv rq w st sid = (case sv_sla_ensure sv of
     None \<Rightarrow> tx_fail (Msg ''automation: SLA service is unavailable'')
   | Some f \<Rightarrow> if st = ''conversation'' \<or> st = ''ticket'' then f rq w st sid
       else tx_fail (Msg ''automation: start_sla requires a conversation or ticket subject''))"

definition pause_sla :: "'x services \<Rightarrow> request \<Rightarrow> string \<Rightarrow> string \<Rightarrow> string \<Rightarrow> (string \<times> json) list \<Rightarrow> ('x, unit) actx" where
  "pause_sla sv rq w st sid params = (case sv_sla_pause sv of
     None \<Rightarrow> tx_fail (Msg ''automation: SLA service is unavailable'')
   | Some f \<Rightarrow> f rq w st sid (trim_space (text_of params ''reason'')))"

definition create_task :: "env \<Rightarrow> 'x services \<Rightarrow> request \<Rightarrow> string \<Rightarrow> string \<Rightarrow> string \<Rightarrow> string \<Rightarrow> string
    \<Rightarrow> (string \<times> json) list \<Rightarrow> ('x, unit) actx" where
  "create_task en sv rq key w st sid act params = (case sv_tasks sv of
     None \<Rightarrow> tx_fail (Msg ''automation: task service is unavailable'')
   | Some f \<Rightarrow> need params [''title'', ''name''] (\<lambda>title.
       let due = int_param en params ''due_after_minutes'' 0 in
       if due < 0 then tx_fail (Msg ''automation: task due_after_minutes cannot be negative'')
       else f rq key w act \<lparr> tn_title = title, tn_description = text_of params ''description'', tn_subject_type = st,
              tn_subject = sid, tn_assignee = text_of params ''assignee_id'', tn_due_after = due \<rparr>))"

text \<open>scheduleClose; the schema wants a member of the workspace in created_by.\<close>

definition minute :: int where "minute = 60000000000"

definition insert_scheduled :: "scheduled \<Rightarrow> ('x, unit) actx" where
  "insert_scheduled s = sql_checked (\<lambda>d.
     if sc_id s \<in> sc_id ` set (at_scheduled d) then Some ((), d)
     else if case sc_created_by s of None \<Rightarrow> False | Some m \<Rightarrow> m \<notin> mb_id ` set (cd_members d) then None
     else Some ((), d\<lparr>at_scheduled := at_scheduled d @ [s]\<rparr>))"

definition schedule_close :: "env \<Rightarrow> request \<Rightarrow> string \<Rightarrow> string \<Rightarrow> string \<Rightarrow> string \<Rightarrow> string \<Rightarrow> (string \<times> json) list \<Rightarrow> ('x, unit) actx" where
  "schedule_close en rq key w st sid act params =
     (let m = int_param en params ''after_minutes'' 60 in
      if m \<le> 0 then tx_fail (Msg ''automation: close_after_inactivity requires positive after_minutes'')
      else with_tx (tx_seq
        (insert_scheduled \<lparr> sc_id = (if key = '''' then rq_ids rq 0 else en_stable en key), sc_workspace = w,
           sc_kind = ''close_after_inactivity'', sc_subject_type = st, sc_subject = sid,
           sc_payload = JObj [(''inactive_minutes'', JInt m)], sc_for = rq_now rq + m * minute, sc_state = ''pending'',
           sc_created_by = null_if act, sc_executed = None, sc_lease = None, sc_attempts = 0 \<rparr>)
        (complete_key w key)))"

text \<open>The switch of applyActions.\<close>

definition set_field :: "'x services \<Rightarrow> request \<Rightarrow> string \<Rightarrow> string \<Rightarrow> string \<Rightarrow> string \<Rightarrow> (string \<times> json) list \<Rightarrow> ('x, unit) actx" where
  "set_field sv rq w act st sid params = need params [''key'', ''field''] (\<lambda>k. case sv_ticket sv of
     None \<Rightarrow> tx_fail (Msg ''automation: set_field requires a ticket subject'')
   | Some f \<Rightarrow> if st \<noteq> ''ticket'' then tx_fail (Msg ''automation: set_field requires a ticket subject'')
       else f rq w act sid (TkField k (case map_of params ''value'' of None \<Rightarrow> JNull | Some v \<Rightarrow> v)))"

definition send_message :: "'x services \<Rightarrow> request \<Rightarrow> string \<Rightarrow> string \<Rightarrow> string \<Rightarrow> string \<Rightarrow> string \<Rightarrow> (string \<times> json) list \<Rightarrow> ('x, unit) actx" where
  "send_message sv rq key w st sid act params = need params [''body'', ''message''] (\<lambda>body.
     if \<not> sv_conversation sv \<or> st \<noteq> ''conversation'' then tx_fail (Msg ''automation: send_message requires a conversation subject'')
     else conversation_call (post_message rq w sid (null_if key) ''reply'' ''automation'' (null_if act) ''Automation'' body [] []))"

definition apply_action :: "env \<Rightarrow> 'x services \<Rightarrow> request \<Rightarrow> string \<Rightarrow> string \<Rightarrow> string \<Rightarrow> string \<Rightarrow> string \<Rightarrow> action \<Rightarrow> ('x, unit) actx" where
  "apply_action en sv rq key w st sid act a =
     (let params = an_params a; ty = an_type a in
      if ty = ''assign_member'' then need params [''member_id'', ''assignee_id''] (apply_assignee sv rq w act st sid)
      else if ty = ''assign_team'' then need params [''team_id''] (apply_team sv rq w act st sid)
      else if ty = ''move_inbox'' then need params [''inbox_id''] (apply_inbox sv rq w act st sid)
      else if ty = ''set_priority'' then need params [''priority''] (apply_priority sv rq w act st sid)
      else if ty = ''set_state'' then need params [''state'', ''status''] (apply_state sv rq w act st sid)
      else if ty = ''add_tag'' \<or> ty = ''remove_tag'' then
        need params [''tag_id''] (\<lambda>t. apply_tag sv rq w act st sid t (ty = ''add_tag''))
      else if ty = ''set_field'' then set_field sv rq w act st sid params
      else if ty = ''send_message'' then send_message sv rq key w st sid act params
      else if ty = ''send_email'' then queue_email sv rq key w params
      else if ty = ''invoke_webhook'' then invoke_webhook en sv rq key w params
      else if ty = ''start_sla'' then start_sla sv rq w st sid
      else if ty = ''pause_sla'' then pause_sla sv rq w st sid params
      else if ty = ''close_after_inactivity'' then schedule_close en rq key w st sid act params
      else if ty = ''create_task'' then create_task en sv rq key w st sid act params
      else tx_fail (Msg (''automation: action is not executable'')))"

section \<open>Applying the actions of a rule\<close>

text \<open>
  One turn of the loop of applyActions: an action with a receipt is skipped; the receipt is
  written after the action.  An empty key stands for an execution without an event.
\<close>

definition action_key :: "string \<Rightarrow> string \<Rightarrow> nat \<Rightarrow> string" where
  "action_key event rule n = (if event = '''' then '''' else ''automation:'' @ event @ '':'' @ rule @ '':'' @ decimal n)"

definition action_step :: "env \<Rightarrow> 'x services \<Rightarrow> request \<Rightarrow> string \<Rightarrow> string \<Rightarrow> string \<Rightarrow> string \<Rightarrow> string \<Rightarrow> action \<Rightarrow> ('x, unit) actx" where
  "action_step en sv rq key w st sid act a =
     (if key = '''' then apply_action en sv rq key w st sid act a
      else tx_bind (sql_read (\<lambda>d. (w, key) \<in> set (at_receipts d))) (\<lambda>completed.
        if completed then tx_ret ()
        else tx_seq (apply_action en sv rq key w st sid act a) (complete_action_row w key)))"

text \<open>The actions applied, and the error that ended the loop.\<close>

fun apply_actions :: "env \<Rightarrow> 'x services \<Rightarrow> (nat \<Rightarrow> request) \<Rightarrow> (nat \<Rightarrow> string) \<Rightarrow> string \<Rightarrow> string \<Rightarrow> string \<Rightarrow> string
    \<Rightarrow> nat \<Rightarrow> action list \<Rightarrow> action list \<Rightarrow> ('x, action list \<times> automation_error err option) actx" where
  "apply_actions en sv ctxs keys w st sid act n applied [] = tx_ret (applied, None)"
| "apply_actions en sv ctxs keys w st sid act n applied (a # as) =
     tx_bind (tx_try (action_step en sv (ctxs n) (keys n) w st sid act a)) (\<lambda>res. case res of
       Inl e \<Rightarrow> tx_ret (applied, Some e)
     | Inr _ \<Rightarrow> apply_actions en sv ctxs keys w st sid act (Suc n) (applied @ [a]) as)"

section \<open>Execution\<close>

text \<open>What one execution is about: the arguments of executeWithActor after the context.\<close>

record call =
  cl_workspace :: string
  cl_rule :: string
  cl_event :: string
  cl_subject_type :: string
  cl_subject :: string
  cl_causation :: string
  cl_depth :: nat
  cl_dry :: bool
  cl_data :: "(string \<times> json) list"
  cl_actor :: string

definition outcomes :: "string list" where
  "outcomes = [''matched'', ''skipped'', ''failed'', ''rate_limited'', ''depth_exceeded'']"

definition insert_execution :: "execution \<Rightarrow> ('x, unit) actx" where
  "insert_execution x = sql_checked (\<lambda>d. if ex_id x \<in> ex_id ` set (at_executions d) \<or> ex_rule x \<notin> ru_id ` set (at_rules d)
       \<or> (case ex_event x of None \<Rightarrow> False | Some e \<Rightarrow> e \<notin> r_id ` set (db_events d)) \<or> ex_outcome x \<notin> set outcomes then None
     else Some ((), d\<lparr>at_executions := at_executions d @ [x]\<rparr>))"

definition touch_rule :: "string \<Rightarrow> string \<Rightarrow> int \<Rightarrow> ('x, unit) actx" where
  "touch_rule w i now = sql_exec (\<lambda>d. d\<lparr>at_rules := update_where (\<lambda>r. ru_workspace r = w \<and> ru_id r = i)
     (\<lambda>r. r\<lparr>ru_last_run := Some now\<rparr>) (at_rules d)\<rparr>)"

text \<open>recordExecution; \<open>xid\<close> and \<open>now\<close> are the new identifier and the database clock.\<close>

definition record_execution :: "string \<Rightarrow> int \<Rightarrow> call \<Rightarrow> rule \<Rightarrow> string \<Rightarrow> action list \<Rightarrow> string \<Rightarrow> bool \<Rightarrow> ('x, execution) actx" where
  "record_execution xid now c r outcome applied text dry =
     (let x = \<lparr> ex_id = xid, ex_workspace = cl_workspace c, ex_rule = ru_id r, ex_version = ru_version r,
            ex_event = null_if (cl_event c), ex_subject_type = cl_subject_type c, ex_subject = cl_subject c,
            ex_outcome = outcome, ex_depth = cl_depth c, ex_causation = cl_causation c, ex_applied = applied,
            ex_error = text, ex_dry = dry, ex_at = now \<rparr>
      in tx_seq (with_tx (tx_seq (insert_execution x)
           (if dry then tx_ret () else touch_rule (cl_workspace c) (ru_id r) now))) (tx_ret x))"

definition settled_before :: "call \<Rightarrow> 'x automation_db_scheme \<Rightarrow> bool" where
  "settled_before c d = list_ex (\<lambda>x. ex_workspace x = cl_workspace c \<and> ex_rule x = cl_rule c \<and> ex_event x = Some (cl_event c)
     \<and> \<not> ex_dry x \<and> ex_outcome x \<noteq> ''failed'') (at_executions d)"

definition hour :: int where "hour = 60 * minute"

definition runs_last_hour :: "int \<Rightarrow> call \<Rightarrow> 'x automation_db_scheme \<Rightarrow> int" where
  "runs_last_hour now c d = int (length (filter (\<lambda>x. ex_workspace x = cl_workspace c \<and> ex_rule x = cl_rule c
     \<and> ex_outcome x = ''matched'' \<and> \<not> ex_dry x \<and> ex_at x > now - hour) (at_executions d)))"

definition over_rate :: "int \<Rightarrow> call \<Rightarrow> rule \<Rightarrow> ('x, bool) actx" where
  "over_rate now c r = (case ru_max r of None \<Rightarrow> tx_ret False
     | Some n \<Rightarrow> if cl_dry c then tx_ret False else tx_bind (sql_read (runs_last_hour now c)) (\<lambda>k. tx_ret (k \<ge> n)))"

text \<open>executeWithActor after the check for an earlier execution.\<close>

definition run_rule :: "env \<Rightarrow> 'x services \<Rightarrow> (nat \<Rightarrow> request) \<Rightarrow> string \<Rightarrow> int \<Rightarrow> call \<Rightarrow> rule \<Rightarrow> ('x, execution) actx" where
  "run_rule en sv ctxs xid now c r =
     (if cl_depth c > max_depth then
        record_execution xid now c r ''depth_exceeded'' [] ''automation: causation depth exceeded'' (cl_dry c)
      else tx_bind (over_rate now c r) (\<lambda>limited.
        if limited then record_execution xid now c r ''rate_limited'' [] ''automation: rule rate limit reached'' (cl_dry c)
        else if \<not> matches_data (en_sprint en) (ru_conditions r) (cl_data c) then
          record_execution xid now c r ''skipped'' [] '''' (cl_dry c)
        else if cl_dry c then record_execution xid now c r ''matched'' (ru_actions r) '''' True
        else tx_bind (apply_actions en sv (\<lambda>n. (ctxs n)\<lparr>rq_causation := cl_event c\<rparr>) (action_key (cl_event c) (cl_rule c))
               (cl_workspace c) (cl_subject_type c) (cl_subject c) (cl_actor c) 0 [] (ru_actions r))
          (\<lambda>(applied, e). case e of
             None \<Rightarrow> record_execution xid now c r ''matched'' applied '''' False
           | Some e \<Rightarrow> record_execution xid now c r ''failed'' applied (en_text en e) False)))"

definition already_processed :: execution where
  "already_processed = \<lparr> ex_id = '''', ex_workspace = '''', ex_rule = '''', ex_version = 0, ex_event = None,
     ex_subject_type = '''', ex_subject = '''', ex_outcome = ''already_processed'', ex_depth = 0, ex_causation = '''',
     ex_applied = [], ex_error = '''', ex_dry = False, ex_at = 0 \<rparr>"

definition execute_with_actor :: "env \<Rightarrow> 'x services \<Rightarrow> (nat \<Rightarrow> request) \<Rightarrow> string \<Rightarrow> int \<Rightarrow> call \<Rightarrow> ('x, execution) actx" where
  "execute_with_actor en sv ctxs xid now c =
     tx_bind (if cl_event c \<noteq> '''' \<and> \<not> cl_dry c then sql_read (settled_before c) else tx_ret False) (\<lambda>completed.
       if completed then tx_ret already_processed
       else tx_bind (get_rule (cl_workspace c) (cl_rule c)) (run_rule en sv ctxs xid now c))"

section \<open>The consumer of the event log\<close>

definition trigger_for_event :: "string \<Rightarrow> string" where
  "trigger_for_event ty =
     (if ty = ''conversation.created'' then ''conversation.created''
      else if ty = ''message.created'' then ''message.received''
      else if ty = ''ticket.created'' then ''ticket.created''
      else if ty = ''ticket.updated'' \<or> ty = ''ticket.state_changed'' then ''ticket.updated''
      else if ty = ''customer.identified'' then ''customer.identified''
      else if ty = ''customer.updated'' then ''customer.updated''
      else if ty = ''event.received'' then ''event.received''
      else if ty = ''form.submitted'' then ''form.submitted''
      else if ty = ''feedback.created'' then ''feedback.submitted''
      else if ty = ''article.published'' then ''article.published''
      else if ty = ''changelog.published'' then ''changelog.published''
      else if ty = ''sla.approaching'' then ''sla.approaching''
      else if ty = ''sla.breached'' then ''sla.breached''
      else '''')"

text \<open>The recursive query: the ancestors of an event inside its workspace, at most \<open>n\<close>.\<close>

fun ancestry :: "nat \<Rightarrow> string \<Rightarrow> event_row list \<Rightarrow> string \<Rightarrow> nat" where
  "ancestry 0 w es i = 0"
| "ancestry (Suc n) w es i = (case find (\<lambda>r. r_workspace r = w \<and> r_id r = i) es of
     None \<Rightarrow> 0 | Some r \<Rightarrow> Suc (if r_causation r = '''' then 0 else ancestry n w es (r_causation r)))"

definition chain_limit :: nat where "chain_limit = 10"

definition causation_depth :: "event_row \<Rightarrow> ('x, nat) actx" where
  "causation_depth r = (if r_causation r = '''' then tx_ret 0
     else sql_read (\<lambda>d. ancestry chain_limit (r_workspace r) (db_events d) (r_causation r)))"

definition event_subject :: "event_row \<Rightarrow> (string \<times> json) list" where
  "event_subject r = [(''event.type'', JStr (r_type r)), (''event.entity_type'', JStr (r_entity_type r)),
     (''event.entity_id'', JStr (r_entity_id r))] @ config_of (r_data r)"

definition event_call :: "event_row \<Rightarrow> rule \<Rightarrow> nat \<Rightarrow> call" where
  "event_call r u depth = \<lparr> cl_workspace = r_workspace r, cl_rule = ru_id u, cl_event = r_id r, cl_subject_type = r_entity_type r,
     cl_subject = r_entity_id r, cl_causation = r_causation r, cl_depth = depth, cl_dry = False, cl_data = event_subject r,
     cl_actor = r_actor_id r \<rparr>"

text \<open>
  The identifiers and clocks a delivery of an event uses: \<open>dv_call i n\<close> is the context of
  action \<open>n\<close> of rule \<open>i\<close>.
\<close>

record delivery_input =
  dv_call :: "nat \<Rightarrow> nat \<Rightarrow> request"
  dv_execution :: "nat \<Rightarrow> string"
  dv_now :: "nat \<Rightarrow> int"

fun run_rules :: "env \<Rightarrow> 'x services \<Rightarrow> delivery_input \<Rightarrow> event_row \<Rightarrow> nat \<Rightarrow> rule list \<Rightarrow> ('x, unit) actx" where
  "run_rules en sv dv r i [] = tx_ret ()"
| "run_rules en sv dv r i (u # us) =
     (if \<not> ru_enabled u \<or> ru_trigger u \<noteq> trigger_for_event (r_type r) then run_rules en sv dv r (Suc i) us
      else tx_bind (causation_depth r) (\<lambda>depth.
        tx_bind (execute_with_actor en sv (dv_call dv i) (dv_execution dv i) (dv_now dv i) (event_call r u depth)) (\<lambda>x.
          if ex_outcome x = ''failed'' then tx_fail (Msg (ex_error x)) else run_rules en sv dv r (Suc i) us)))"

definition automation_event :: "env \<Rightarrow> 'x services \<Rightarrow> delivery_input \<Rightarrow> event_row \<Rightarrow> ('x, unit) actx" where
  "automation_event en sv dv r =
     (if trigger_for_event (r_type r) = '''' then tx_ret ()
      else if r_type r = message_created \<and> text_of (event_subject r) ''author_type'' \<noteq> ''customer'' then tx_ret ()
      else tx_bind (sql_read (list_rules (r_workspace r) None 0)) (run_rules en sv dv r 0))"

text \<open>ListExecutionsPage: newest first, at most 201 rows; an empty rule id means every rule.\<close>

definition list_executions :: "string \<Rightarrow> string \<Rightarrow> (int \<times> string) option \<Rightarrow> int \<Rightarrow> 'x automation_db_scheme \<Rightarrow> execution list" where
  "list_executions w rule before limit d =
     (let n = (if limit \<le> 0 \<or> limit > 201 then 100 else limit) in
      take (nat n) (rev (sort_key (\<lambda>x. (ex_at x, ex_id x)) (filter (\<lambda>x. ex_workspace x = w \<and> (rule = '''' \<or> ex_rule x = rule)
        \<and> (case before of None \<Rightarrow> True | Some k \<Rightarrow> (ex_at x, ex_id x) < k)) (at_executions d)))))"

section \<open>Scheduled actions\<close>

definition due :: "int \<Rightarrow> scheduled \<Rightarrow> bool" where
  "due now s \<longleftrightarrow> sc_state s = ''pending'' \<and> sc_for s \<le> now
     \<or> sc_state s = ''running'' \<and> (case sc_lease s of None \<Rightarrow> False | Some t \<Rightarrow> t < now)"

definition due_actions :: "int \<Rightarrow> 'x automation_db_scheme \<Rightarrow> scheduled list" where
  "due_actions now d = take 100 (sort_key (\<lambda>s. (sc_for s, sc_id s)) (filter (due now) (at_scheduled d)))"

definition update_scheduled :: "(scheduled \<Rightarrow> bool) \<Rightarrow> (scheduled \<Rightarrow> scheduled) \<Rightarrow> ('x, unit) actx" where
  "update_scheduled P f = sql_exec (\<lambda>d. d\<lparr>at_scheduled := update_where P f (at_scheduled d)\<rparr>)"

definition claim_scheduled :: "int \<Rightarrow> string \<Rightarrow> ('x, bool) actx" where
  "claim_scheduled now i = sql (\<lambda>d. (list_ex (\<lambda>s. sc_id s = i \<and> due now s) (at_scheduled d),
     d\<lparr>at_scheduled := update_where (\<lambda>s. sc_id s = i \<and> due now s)
       (\<lambda>s. s\<lparr>sc_state := ''running'', sc_lease := Some (now + 5 * minute), sc_attempts := sc_attempts s + 1\<rparr>) (at_scheduled d)\<rparr>))"

text \<open>time.Duration is a 64-bit number of nanoseconds.\<close>

definition duration :: "int \<Rightarrow> int" where
  "duration n = sint (word_of_int (n * minute) :: 64 word)"

definition execute_scheduled :: "env \<Rightarrow> 'x services \<Rightarrow> request \<Rightarrow> scheduled \<Rightarrow> ('x, unit) actx" where
  "execute_scheduled en sv rq s =
     (if sc_kind s = ''follow_up'' then (case sv_notify sv of
          None \<Rightarrow> tx_fail (Msg ''automation: notification service unavailable'')
        | Some f \<Rightarrow> (case sc_payload s of
            JObj m \<Rightarrow> (case map_of m ''body'' of
              Some (JStr b) \<Rightarrow> f rq (sc_workspace s) (deref_or (sc_created_by s) '''') (sc_subject s) b (sc_id s)
            | None \<Rightarrow> f rq (sc_workspace s) (deref_or (sc_created_by s) '''') (sc_subject s) '''' (sc_id s)
            | Some JNull \<Rightarrow> f rq (sc_workspace s) (deref_or (sc_created_by s) '''') (sc_subject s) '''' (sc_id s)
            | _ \<Rightarrow> tx_fail (Msg ''json: cannot unmarshal''))
          | JNull \<Rightarrow> f rq (sc_workspace s) (deref_or (sc_created_by s) '''') (sc_subject s) '''' (sc_id s)
          | _ \<Rightarrow> tx_fail (Msg ''json: cannot unmarshal'')))
      else if sc_kind s \<noteq> ''close_after_inactivity'' \<or> sc_subject_type s \<noteq> ''conversation'' \<or> \<not> sv_conversation sv
        then tx_fail (Msg ''automation: scheduled action is not executable'')
      else tx_bind (sql_read (conversation_row (sc_workspace s) (sc_subject s))) (\<lambda>row. case row of
          None \<Rightarrow> tx_fail (Msg ''no rows in result set'')
        | Some cv \<Rightarrow>
            if (case sc_payload s of JObj _ \<Rightarrow> False | JNull \<Rightarrow> False | _ \<Rightarrow> True) then tx_fail (Msg ''json: cannot unmarshal'')
            else let m = int_param en (config_of (sc_payload s)) ''inactive_minutes'' 60 in
              if cv_state cv = ''resolved'' \<or> cv_state cv = ''closed''
                 \<or> (case cv_last_customer cv of None \<Rightarrow> True | Some t \<Rightarrow> rq_now rq - t < duration m) then tx_ret ()
              else conversation_call (set_state rq (sc_workspace s) (deref_or (sc_created_by s) '''') (sc_subject s) ''resolved'')))"

text \<open>RunScheduledActions: the counters, and the error that ended the loop.\<close>

definition failed_scheduled :: "int \<Rightarrow> scheduled \<Rightarrow> scheduled" where
  "failed_scheduled now s = s\<lparr>sc_state := (if sc_attempts s \<ge> 5 then ''failed'' else ''pending''), sc_lease := None, sc_for := now + minute\<rparr>"

fun run_each :: "env \<Rightarrow> 'x services \<Rightarrow> (nat \<Rightarrow> request) \<Rightarrow> int \<Rightarrow> nat \<Rightarrow> nat \<times> nat \<Rightarrow> scheduled list \<Rightarrow> ('x, nat \<times> nat) actx" where
  "run_each en sv ctxs now n (done, failed) [] = tx_ret (done, failed)"
| "run_each en sv ctxs now n (done, failed) (s # ss) =
     tx_bind (claim_scheduled now (sc_id s)) (\<lambda>claimed.
       if \<not> claimed then run_each en sv ctxs now (Suc n) (done, failed) ss
       else tx_bind (tx_try (execute_scheduled en sv (ctxs n) s)) (\<lambda>res. case res of
           Inl _ \<Rightarrow> tx_seq (tx_try (update_scheduled (\<lambda>u. sc_id u = sc_id s \<and> sc_state u = ''running'') (failed_scheduled now)))
             (run_each en sv ctxs now (Suc n) (done, Suc failed) ss)
         | Inr _ \<Rightarrow> tx_seq (update_scheduled (\<lambda>u. sc_id u = sc_id s \<and> sc_state u = ''running'')
               (\<lambda>u. u\<lparr>sc_state := ''executed'', sc_executed := Some now, sc_lease := None\<rparr>))
             (run_each en sv ctxs now (Suc n) (Suc done, failed) ss)))"

definition run_scheduled :: "env \<Rightarrow> 'x services \<Rightarrow> (nat \<Rightarrow> request) \<Rightarrow> int \<Rightarrow> ('x, nat \<times> nat) actx" where
  "run_scheduled en sv ctxs now = tx_bind (sql_read (due_actions now)) (run_each en sv ctxs now 0 (0, 0))"

end
