(* ===== verification/Bystander.thy ===== *)
theory Bystander
  imports InboxRestriction
begin

text \<open>
  What the conversation service leaves alone.  The locale \<open>bystander\<close> is the interface
  between the service and the components that live beside it in the same database: a
  predicate on the database that does not look at the tables of the service and that an
  event appended to the log with the causation id of the request cannot break.  Every
  operation of src/internal/conversation keeps such a predicate, wherever it fails.
\<close>

locale bystander =
  fixes I :: "'x conv_db_scheme \<Rightarrow> bool" and cause :: string
  assumes event: "I d \<Longrightarrow> r_id row \<notin> r_id ` set (db_events d) \<Longrightarrow> r_causation row = cause
      \<Longrightarrow> cause = '''' \<or> cause \<in> r_id ` set (db_events d) \<Longrightarrow> I (d\<lparr>db_events := db_events d @ [row]\<rparr>)"
    and tables: "I d \<Longrightarrow> I (d\<lparr>db_seqs := a\<rparr>)" "I d \<Longrightarrow> I (d\<lparr>db_notify := b\<rparr>)" "I d \<Longrightarrow> I (d\<lparr>au_rows := c\<rparr>)"
      "I d \<Longrightarrow> I (d\<lparr>cd_conversations := e\<rparr>)" "I d \<Longrightarrow> I (d\<lparr>cd_messages := f\<rparr>)" "I d \<Longrightarrow> I (d\<lparr>cd_history := g\<rparr>)"
      "I d \<Longrightarrow> I (d\<lparr>cd_tags := h\<rparr>)" "I d \<Longrightarrow> I (d\<lparr>cd_followers := i\<rparr>)" "I d \<Longrightarrow> I (d\<lparr>cd_reads := j\<rparr>)"
      "I d \<Longrightarrow> I (d\<lparr>cd_revisions := k\<rparr>)" "I d \<Longrightarrow> I (d\<lparr>cd_links := l\<rparr>)" "I d \<Longrightarrow> I (d\<lparr>cd_cursors := m\<rparr>)"
begin

lemma beside_append:
  assumes "rq_causation rq = cause" "ev_causation ev = ''''"
  shows "tx_keeps I (append_conv_event rq k ev)"
  unfolding append_conv_event_def append_event_def next_sequence_def insert_event_def pg_notify_def Let_def
  by (intro keeps_bind keeps_if keeps_fail keeps_ret keeps_sql keeps_sql_checked)
    (auto simp: assms tables split: option.splits if_splits intro!: event)

lemma beside_audit: "tx_keeps I (record_conv_audit rq k e)"
  unfolding record_conv_audit_def record_tx_def Let_def
  by (intro keeps_bind keeps_if keeps_fail keeps_sql keeps_sql_checked) (auto simp: tables split: if_splits)

lemma beside_update: "tx_keeps I (update_conversation c f)"
  unfolding update_conversation_def by (intro keeps_sql) (simp add: tables)

lemma beside_statements:
  "tx_keeps I (insert_status_history i now c fr to at' a)" "tx_keeps I (insert_message now i cl c w k2 at2 a2 n b)"
  "tx_keeps I (update_message i f)" "tx_keeps I (insert_revision i m b e2)" "tx_keeps I (move_messages z src tgt)"
  "tx_keeps I (add_tag_row c t)" "tx_keeps I (remove_tag_row c t)" "tx_keeps I (follow_row c m)"
  "tx_keeps I (unfollow_row c m)" "tx_keeps I (mark_read_row now m ty r)" "tx_keeps I (advance_cursor_row tm)"
  "tx_keeps I (insert_link rq w act a3 b rel)" "tx_keeps I (delete_link w a3 b rel)"
  "tx_keeps I (insert_conversation now c w inbox channel subj cust visitor)" "tx_keeps I (wake_rows now)"
  "tx_keeps I (set_assignee_row c mb)" "tx_keeps I (set_team_row c tm2)" "tx_keeps I (set_inbox_row c inbox)"
  "tx_keeps I (set_priority_row c p)" "tx_keeps I (set_state_row c st)" "tx_keeps I (snooze_row c until)"
  "tx_keeps I (touch_conversation c pv cust' at)" "tx_keeps I (apply_merge c n2 pv at)"
  unfolding insert_status_history_def insert_message_def update_message_def insert_revision_def move_messages_def
    add_tag_row_def remove_tag_row_def follow_row_def unfollow_row_def mark_read_row_def advance_cursor_row_def
    insert_link_def delete_link_def insert_conversation_def wake_rows_def set_assignee_row_def set_team_row_def
    set_inbox_row_def set_priority_row_def set_state_row_def snooze_row_def touch_conversation_def apply_merge_def Let_def
  by (intro keeps_sql keeps_sql_checked keeps_if keeps_fail keeps_ret keeps_bind beside_update;
      auto simp: tables split: if_splits option.splits)+

lemma conv_event_causation: "ev_causation (conv_event w ty c at act j) = ''''"
  by (simp add: conv_event_def)

lemmas beside = beside_append [OF _ conv_event_causation] beside_audit beside_update beside_statements
  unseen_reads silent_locks silent_check keeps_bind keeps_if keeps_fail keeps_ret keeps_with_tx

lemma beside_change: "(\<And>cv. tx_keeps I (body cv)) \<Longrightarrow> tx_keeps I (change_conversation rq w c body)"
  unfolding change_conversation_def by (intro beside)

lemma beside_bodies:
  "rq_causation rq = cause \<Longrightarrow> tx_keeps I (assign_body rq w act c m extra cv)"
  "rq_causation rq = cause \<Longrightarrow> tx_keeps I (state_body rq w act c st extra cv)"
  unfolding assign_body_def state_body_def by (intro beside; assumption)+

lemma beside_changes:
  assumes "rq_causation rq = cause"
  shows "tx_keeps I (set_assignee rq w act c mb)" "tx_keeps I (set_team rq w act c tm2)" "tx_keeps I (set_inbox rq w act c inbox)"
    "tx_keeps I (set_priority rq w act c p)" "tx_keeps I (set_state rq w act c st)" "tx_keeps I (snooze rq w act c until)"
    "tx_keeps I (add_tag rq w act c tg)" "tx_keeps I (remove_tag rq w act c tg)" "tx_keeps I (follow rq w c m)"
    "tx_keeps I (unfollow rq w c m)" "tx_keeps I (mark_read rq w c m)"
  unfolding set_assignee_def set_team_def set_inbox_def set_priority_def set_state_def snooze_def
    add_tag_def remove_tag_def follow_def unfollow_def mark_read_def
  by (intro beside keeps_sql beside_change beside_bodies assms; simp)+

lemma beside_routing: "rq_causation rq = cause \<Longrightarrow> tx_keeps I (route_new_conversation sprint rq w c inbox cust)"
proof -
  assume rq: "rq_causation rq = cause"
  have consume: "tx_keeps I (consume_round_robin t n)" for t n
    unfolding consume_round_robin_def take_turn_def
    by (auto intro!: beside keeps_sql tables split: option.split)
  have pick: "tx_keeps I (pick_assignee w c cust t)" for t
    unfolding pick_assignee_def by (auto intro!: beside keeps_sql consume split: option.split)
  have route: "tx_keeps I (route_to rq w c t a)" for t a
    unfolding route_to_def by (intro beside rq)
  have "tx_keeps I (tx_bind (first_match sprint w cust t0 ts) (\<lambda>t.
      tx_bind (sql_read (\<lambda>d. (inbox, rt_id t) \<in> set (cd_inbox_teams d))) (\<lambda>there.
        if \<not> there then tx_fail (Msg ''no rows in result set'')
        else tx_seq (sql_read (\<lambda>d. ())) (tx_bind (pick_assignee w c cust t) (route_to rq w c t)))))" for t0 ts
    by (intro beside keeps_sql pick route) simp_all
  then show ?thesis
    unfolding route_new_conversation_def
    by (intro keeps_bind keeps_sql) (auto intro: keeps_ret split: list.split)
qed

lemma beside_attach:
  assumes "\<And>f w m fids. (fids, Some f) \<in> set sets \<Longrightarrow> tx_keeps I (f w m fids)"
  shows "tx_keeps I (attach_message w m sets)"
  unfolding attach_message_def
  by (rule keeps_each) (use assms in \<open>auto intro: keeps_ret keeps_fail split: option.split\<close>)

lemma beside_start:
  assumes "rq_causation rq = cause" "\<And>f w m fids. (fids, Some f) \<in> set sets \<Longrightarrow> tx_keeps I (f w m fids)"
  shows "tx_keeps I (start_conversation sp rq w i ch sj cu v n b sets)"
  unfolding start_conversation_def start_body_def Let_def
  by (intro beside beside_routing beside_attach) (simp_all add: assms later_def)

lemma beside_post:
  assumes "rq_causation rq = cause" "\<And>f w m fids. (fids, Some f) \<in> set sets \<Longrightarrow> tx_keeps I (f w m fids)"
  shows "tx_keeps I (post_message rq w c cl k at a n body ms sets)"
proof -
  have written: "tx_keeps I (write_message rq w cv i kd at a n t ms sets)" for cv i kd t
    unfolding write_message_def by (intro beside beside_attach; simp add: assms)
  show ?thesis
    unfolding post_message_def lock_and_load_def [folded lock_and_load_full_def] Let_def
    by (auto intro!: beside keeps_sql written split: option.split)
qed

lemma beside_wake: "rq_causation rq = cause \<Longrightarrow> tx_keeps I (wake_snoozed rq)"
proof -
  have "rq_causation rq = cause \<Longrightarrow> tx_keeps I (log_wakes rq rs)" for rq and rs :: "(string \<times> string) list"
  proof (induction rs arbitrary: rq)
    case (Cons r rs)
    have "tx_keeps I (log_wake rq r)" using Cons.prems by (cases r) (auto simp: log_wake_def intro!: beside)
    moreover have "tx_keeps I (log_wakes (later 2 rq) rs)" by (rule Cons.IH) (simp add: later_def Cons.prems)
    ultimately show ?case by (auto intro: keeps_bind)
  qed (simp add: keeps_ret)
  moreover assume "rq_causation rq = cause"
  ultimately show ?thesis unfolding wake_snoozed_def by (intro beside)
qed

lemma beside_bulk: "rq_causation rq = cause \<Longrightarrow> tx_keeps I (bulk_update rq w act cs a)"
proof -
  have each: "rq_causation rq = cause \<Longrightarrow> tx_keeps I (bulk_each rq w act a ds)" for rq ds
  proof (induction ds arbitrary: rq)
    case (Cons c ds)
    have "tx_keeps I (bulk_one rq w act a c)" using Cons.prems
      unfolding bulk_one_def by (intro beside) (auto intro!: beside beside_bodies split: bulk_action.split)
    moreover have "tx_keeps I (bulk_each (later 3 rq) w act a ds)" by (rule Cons.IH) (simp add: later_def Cons.prems)
    ultimately show ?case by (simp only: bulk_each.simps) (intro keeps_bind)
  qed (simp add: keeps_ret)
  have check: "tx_keeps I (check_bulk w a)"
    unfolding check_bulk_def by (auto intro!: beside split: bulk_action.split)
  assume "rq_causation rq = cause"
  then show ?thesis
    unfolding bulk_update_def by (auto intro!: beside keeps_map each check split: option.split)
qed

lemma beside_edit:
  assumes "rq_causation rq = cause"
  shows "tx_keeps I (edit_message rq w act c m body)" "tx_keeps I (redact_message rq w act c m)"
  unfolding edit_message_def redact_message_def update_message_body_def redact_message_row_def message_event_def Let_def
  by (intro beside assms)+

lemma beside_merge: "rq_causation rq = cause \<Longrightarrow> tx_keeps I (merge rq w act src tgt)"
  unfolding merge_def merge_body_def Let_def by (auto intro!: beside split: prod.split)

lemma beside_links:
  assumes "rq_causation rq = cause"
  shows "tx_keeps I (link rq w act s t rel)" "tx_keeps I (unlink rq w act s t rel)"
  unfolding link_def unlink_def Let_def
  by (intro keeps_if keeps_fail; auto intro!: beside assms split: prod.split option.split)+

end

end
