(* ===== verification/AutomationSafety.thy ===== *)
theory AutomationSafety
  imports Automation Bystander
begin

text \<open>
  Properties of the automation engine: the bound on chains of causes, the consistency of the
  conversation tables under the actions of rules, and the harmless redelivery of an event.
  The locale \<open>conversation_keeper\<close> is what the engine needs of the conversation service,
  \<open>rule_runner\<close> adds what it needs of the other services and of its own tables.
\<close>

section \<open>Invariants the actions of a rule keep\<close>

text \<open>What the other services promise for requests with the causation id \<open>cause\<close>.\<close>

definition services_keep :: "('x automation_db_scheme \<Rightarrow> bool) \<Rightarrow> string \<Rightarrow> 'x services \<Rightarrow> bool" where
  "services_keep I cause sv \<longleftrightarrow> (\<forall>rq. rq_causation rq = cause \<longrightarrow>
     (\<forall>f w act sid call. sv_ticket sv = Some f \<longrightarrow> tx_keeps I (f rq w act sid call)) \<and>
     (\<forall>f key w to sj b. sv_email sv = Some f \<longrightarrow> tx_keeps I (f rq key w to sj b)) \<and>
     (\<forall>f key w ep p. sv_webhook sv = Some f \<longrightarrow> tx_keeps I (f rq key w ep p)) \<and>
     (\<forall>f w st sid. sv_sla_ensure sv = Some f \<longrightarrow> tx_keeps I (f rq w st sid)) \<and>
     (\<forall>f w st sid t. sv_sla_pause sv = Some f \<longrightarrow> tx_keeps I (f rq w st sid t)) \<and>
     (\<forall>f key w act t. sv_tasks sv = Some f \<longrightarrow> tx_keeps I (f rq key w act t)) \<and>
     (\<forall>f w m sid b i. sv_notify sv = Some f \<longrightarrow> tx_keeps I (f rq w m sid b i)))"

locale conversation_keeper =
  fixes I :: "'x conv_db_scheme \<Rightarrow> bool" and cause :: string
  assumes changes: "rq_causation rq = cause \<Longrightarrow> tx_keeps I (set_assignee rq w act c m)"
      "rq_causation rq = cause \<Longrightarrow> tx_keeps I (set_team rq w act c m)"
      "rq_causation rq = cause \<Longrightarrow> tx_keeps I (set_inbox rq w act c t)"
      "rq_causation rq = cause \<Longrightarrow> tx_keeps I (set_priority rq w act c t)"
      "rq_causation rq = cause \<Longrightarrow> tx_keeps I (set_state rq w act c t)"
      "rq_causation rq = cause \<Longrightarrow> tx_keeps I (add_tag rq w act c t)"
      "rq_causation rq = cause \<Longrightarrow> tx_keeps I (remove_tag rq w act c t)"
    and posts: "rq_causation rq = cause \<Longrightarrow> tx_keeps I (post_message rq w c cl k at a n b ms [])"

sublocale bystander \<subseteq> conversation_keeper
  by unfold_locales (auto intro: beside_changes beside_post)

lemma tx_lift_keeps: "tx_keeps I m \<Longrightarrow> tx_keeps I (tx_lift f m)"
  unfolding tx_keeps_def tx_lift_def by (auto split: prod.split sum.split) (metis fst_conv snd_conv)+

lemma keeps_call: "tx_keeps I m \<Longrightarrow> tx_keeps I (conversation_call m)"
  unfolding conversation_call_def by (intro keeps_bind keeps_ret tx_lift_keeps)

lemma keeps_need: "(\<And>s. tx_keeps I (f s)) \<Longrightarrow> tx_keeps I (need params ks f)"
  by (auto simp: need_def missing_parameter_def intro: keeps_fail split: option.split)

lemma keeps_option:
  "(v = None \<Longrightarrow> tx_keeps I m) \<Longrightarrow> (\<And>f. v = Some f \<Longrightarrow> tx_keeps I (k f)) \<Longrightarrow> tx_keeps I (case v of None \<Rightarrow> m | Some f \<Rightarrow> k f)"
  by (simp split: option.split)

locale rule_runner = conversation_keeper I cause for I :: "'y automation_db_scheme \<Rightarrow> bool" and cause +
  fixes sv :: "'y services"
  assumes own: "I d \<Longrightarrow> I (d\<lparr>at_receipts := a\<rparr>)" "I d \<Longrightarrow> I (d\<lparr>at_scheduled := b\<rparr>)"
    and services: "services_keep I cause sv"
begin

lemma others:
  assumes "rq_causation rq = cause"
  shows "sv_ticket sv = Some f1 \<Longrightarrow> tx_keeps I (f1 rq w act sid call)" "sv_email sv = Some f2 \<Longrightarrow> tx_keeps I (f2 rq key w to sj b)"
    "sv_webhook sv = Some f3 \<Longrightarrow> tx_keeps I (f3 rq key w ep p)" "sv_sla_ensure sv = Some f4 \<Longrightarrow> tx_keeps I (f4 rq w st sid)"
    "sv_sla_pause sv = Some f5 \<Longrightarrow> tx_keeps I (f5 rq w st sid t)" "sv_tasks sv = Some f6 \<Longrightarrow> tx_keeps I (f6 rq key w act ti)"
    "sv_notify sv = Some f7 \<Longrightarrow> tx_keeps I (f7 rq w m sid b i)"
  using services assms unfolding services_keep_def by metis+

lemma receipt_keeps: "tx_keeps I (complete_action_row w key)" "tx_keeps I (complete_key w key)"
  unfolding complete_key_def complete_action_row_def by (auto intro!: keeps_if keeps_ret keeps_sql own)

lemma schedule_keeps: "tx_keeps I (schedule_close en rq key w st sid act params)"
  unfolding schedule_close_def insert_scheduled_def Let_def
  by (auto intro!: keeps_if keeps_fail keeps_with_tx keeps_bind receipt_keeps keeps_sql_checked own split: if_splits)

lemma on_subject_keeps:
  assumes "rq_causation rq = cause" "tx_keeps I m"
  shows "tx_keeps I (on_subject sv rq w act st sid e m call)"
  unfolding on_subject_def
  by (intro keeps_if keeps_fail keeps_option assms(2)) (drule others(1) [OF assms(1)], assumption)

lemma set_field_keeps: "rq_causation rq = cause \<Longrightarrow> tx_keeps I (set_field sv rq w act st sid params)"
  unfolding set_field_def
  by (intro keeps_need keeps_option keeps_if keeps_fail) (drule (1) others(1), assumption)

lemma send_message_keeps: "rq_causation rq = cause \<Longrightarrow> tx_keeps I (send_message sv rq key w st sid act params)"
  unfolding send_message_def by (intro keeps_need keeps_if keeps_fail keeps_call posts)

lemma queue_email_keeps: "rq_causation rq = cause \<Longrightarrow> tx_keeps I (queue_email sv rq key w params)"
  unfolding queue_email_def
  by (rule keeps_option, rule keeps_fail, (rule keeps_need)+, rule keeps_with_tx, rule keeps_bind [OF _ receipt_keeps(2)])
    (drule (1) others(2), assumption)

lemma invoke_webhook_keeps: "rq_causation rq = cause \<Longrightarrow> tx_keeps I (invoke_webhook en sv rq key w params)"
  unfolding invoke_webhook_def
  by (rule keeps_option, rule keeps_fail, rule keeps_need, rule keeps_option, rule keeps_fail)
    (drule (1) others(3), assumption)

lemma sla_keeps:
  assumes "rq_causation rq = cause"
  shows "tx_keeps I (start_sla sv rq w st sid)" "tx_keeps I (pause_sla sv rq w st sid params)"
proof -
  show "tx_keeps I (start_sla sv rq w st sid)" unfolding start_sla_def
    by (rule keeps_option, rule keeps_fail, rule keeps_if) (drule others(4) [OF assms], assumption, rule keeps_fail)
  show "tx_keeps I (pause_sla sv rq w st sid params)" unfolding pause_sla_def
    by (rule keeps_option, rule keeps_fail) (drule others(5) [OF assms], assumption)
qed

lemma create_task_keeps: "rq_causation rq = cause \<Longrightarrow> tx_keeps I (create_task en sv rq key w st sid act params)"
  unfolding create_task_def Let_def
  by (rule keeps_option, rule keeps_fail, rule keeps_need, rule keeps_if, rule keeps_fail)
    (drule (1) others(6), assumption)

lemma applied_keeps:
  assumes "rq_causation rq = cause"
  shows "tx_keeps I (apply_assignee sv rq w act st sid t)" "tx_keeps I (apply_team sv rq w act st sid t)"
    "tx_keeps I (apply_inbox sv rq w act st sid t)" "tx_keeps I (apply_priority sv rq w act st sid t)"
    "tx_keeps I (apply_state sv rq w act st sid t)" "tx_keeps I (apply_tag sv rq w act st sid t add)"
  unfolding apply_assignee_def apply_team_def apply_inbox_def apply_priority_def apply_state_def apply_tag_def
  by (intro on_subject_keeps keeps_call keeps_if changes assms)+

lemma action_keeps:
  assumes "rq_causation rq = cause"
  shows "tx_keeps I (apply_action en sv rq key w st sid act a)"
  unfolding apply_action_def Let_def
  by (intro keeps_if keeps_need keeps_fail schedule_keeps applied_keeps set_field_keeps send_message_keeps queue_email_keeps
      invoke_webhook_keeps sla_keeps create_task_keeps assms)

lemma step_keeps: "rq_causation rq = cause \<Longrightarrow> tx_keeps I (action_step en sv rq key w st sid act a)"
  unfolding action_step_def by (intro keeps_if keeps_bind keeps_sql keeps_ret action_keeps receipt_keeps) simp_all

lemma actions_keep:
  "(\<And>n. rq_causation (ctxs n) = cause) \<Longrightarrow> tx_keeps I (apply_actions en sv ctxs keys w st sid act n applied as)"
  by (induction as arbitrary: n applied)
    (auto intro!: keeps_ret keeps_bind keeps_try step_keeps split: sum.split)

lemma scheduled_keeps:
  assumes "\<And>n. rq_causation (ctxs n) = cause"
  shows "tx_keeps I (run_scheduled en sv ctxs now)"
proof -
  have notify: "tx_keeps I (f (ctxs n) w m sid b i)" if "sv_notify sv = Some f" for f n w m sid b i
    by (rule others(7) [OF assms that])
  have one: "tx_keeps I (execute_scheduled en sv (ctxs n) s)" for n s
    unfolding execute_scheduled_def Let_def
    by (intro keeps_if keeps_option keeps_fail keeps_ret keeps_bind keeps_sql keeps_call changes assms)
      (auto simp: notify keeps_fail split: json.split option.split)
  have upd: "tx_keeps I (update_scheduled P f)" "tx_keeps I (claim_scheduled now i)" for P f i
    unfolding update_scheduled_def claim_scheduled_def by (auto intro!: keeps_sql own)
  have "tx_keeps I (run_each en sv ctxs now n k ss)" for n k ss
    by (induction ss arbitrary: n k) (auto simp: split_paired_all intro!: keeps_ret keeps_if keeps_bind keeps_try one upd split: sum.split prod.split)
  then show ?thesis unfolding run_scheduled_def by (intro keeps_bind keeps_sql) simp_all
qed

end

section \<open>Chains of causes\<close>

text \<open>
  A sound log: identifiers name one event, causes are events of the log, and no event has
  ten ancestors.
\<close>

definition linked :: "event_row list \<Rightarrow> bool" where
  "linked es \<longleftrightarrow> distinct (map r_id es) \<and> (\<forall>r \<in> set es. r_causation r = '''' \<or> r_causation r \<in> r_id ` set es)"

definition shallow :: "event_row list \<Rightarrow> bool" where
  "shallow es \<longleftrightarrow> linked es \<and> (\<forall>r \<in> set es. ancestry 11 (r_workspace r) es (r_id r) \<le> 10)"

lemma chain_Suc_mono: "ancestry n w es i \<le> ancestry (Suc n) w es i"
  by (induction n arbitrary: i) (auto split: option.split)

lemma chain_mono: "m \<le> n \<Longrightarrow> ancestry m w es i \<le> ancestry n w es i"
  by (rule lift_Suc_mono_le [of "\<lambda>n. ancestry n w es i"]) (rule chain_Suc_mono)

lemma chain_le: "ancestry n w es i \<le> n"
  by (induction n arbitrary: i) (auto split: option.split)

text \<open>A chain that ends before its limit is complete.\<close>

lemma ancestry_found:
  "find (\<lambda>r. r_workspace r = w \<and> r_id r = i) es = Some r \<Longrightarrow>
     ancestry (Suc n) w es i = Suc (if r_causation r = '''' then 0 else ancestry n w es (r_causation r))"
  by simp

lemma chain_complete: "ancestry (Suc n) w es i \<le> n \<Longrightarrow> ancestry (Suc n + k) w es i = ancestry (Suc n) w es i"
proof (induction n arbitrary: i)
  case 0
  then show ?case by (auto split: option.splits)
next
  case (Suc n)
  show ?case
  proof (cases "find (\<lambda>r. r_workspace r = w \<and> r_id r = i) es")
    case (Some r)
    note f = ancestry_found [OF Some]
    have "r_causation r = '''' \<or> ancestry (Suc n) w es (r_causation r) \<le> n"
      using Suc.prems f [of "Suc n"] by (auto simp del: ancestry.simps split: if_splits)
    then have "r_causation r = '''' \<or> ancestry (Suc n + k) w es (r_causation r) = ancestry (Suc n) w es (r_causation r)"
      using Suc.IH by blast
    then show ?thesis using f [of "Suc n"] f [of "Suc n + k"] by (auto simp del: ancestry.simps)
  qed simp
qed

lemma fresh_id: "i \<notin> r_id ` set es \<Longrightarrow> r \<in> set es \<Longrightarrow> r_id r \<noteq> i"
  by (metis imageI)

lemma chain_append:
  assumes "linked es" "r_id x \<notin> r_id ` set es"
  shows "i \<noteq> r_id x \<Longrightarrow> ancestry n w (es @ [x]) i = ancestry n w es i"
proof (induction n arbitrary: i)
  case (Suc n)
  have f: "find (\<lambda>r. r_workspace r = w \<and> r_id r = i) (es @ [x]) = find (\<lambda>r. r_workspace r = w \<and> r_id r = i) es"
    using Suc.prems by (induction es) auto
  show ?case
  proof (cases "find (\<lambda>r. r_workspace r = w \<and> r_id r = i) es")
    case (Some r)
    then have "r \<in> set es" by (auto simp: find_Some_iff)
    then have "r_causation r = '''' \<or> r_causation r \<noteq> r_id x"
      using assms unfolding linked_def by metis
    then show ?thesis using Some f Suc.IH by auto
  qed (simp add: f)
qed simp

text \<open>An event may be appended for no cause, or for an event with fewer than nine ancestors.\<close>

definition cause_ok :: "string \<Rightarrow> event_row list \<Rightarrow> bool" where
  "cause_ok c es \<longleftrightarrow> c = '''' \<or> c \<in> r_id ` set es \<and> (\<forall>w. ancestry 10 w es c \<le> 9)"

lemma find_new: "r_id x \<notin> r_id ` set es \<Longrightarrow> find (\<lambda>r. r_workspace r = w \<and> r_id r = r_id x) es = None"
  by (auto simp: find_None_iff dest: fresh_id)

lemma find_last: "find P (xs @ [x]) = (case find P xs of None \<Rightarrow> if P x then Some x else None | Some y \<Rightarrow> Some y)"
  by (induction xs) auto

lemma shallow_append:
  assumes "shallow es" "r_id x \<notin> r_id ` set es" "cause_ok (r_causation x) es"
  shows "shallow (es @ [x])" and "c \<noteq> r_id x \<Longrightarrow> cause_ok c es \<Longrightarrow> cause_ok c (es @ [x])"
proof -
  have l: "linked es" using assms(1) by (simp add: shallow_def)
  note old = chain_append [OF l assms(2)]
  have "linked (es @ [x])" using l assms(2,3) by (auto simp: linked_def cause_ok_def)
  moreover have "ancestry 11 (r_workspace r) (es @ [x]) (r_id r) \<le> 10" if "r \<in> set (es @ [x])" for r
  proof (cases "r \<in> set es")
    case True
    then have "r_id r \<noteq> r_id x" by (rule fresh_id [OF assms(2)])
    then show ?thesis using old assms(1) True by (auto simp: shallow_def)
  next
    case False
    then have r: "r = x" using that by simp
    have "r_causation x = '''' \<or> ancestry 10 (r_workspace x) (es @ [x]) (r_causation x) \<le> 9"
    proof (cases "r_causation x = ''''")
      case False
      then have "r_causation x \<noteq> r_id x" "ancestry 10 (r_workspace x) es (r_causation x) \<le> 9"
        using assms(2,3) by (auto simp: cause_ok_def)
      then show ?thesis using old by simp
    qed simp
    moreover have "ancestry (Suc 10) w (es @ [x]) (r_id x) \<le> Suc (if r_causation x = '''' then 0 else ancestry 10 w (es @ [x]) (r_causation x))" for w
      by (simp only: ancestry.simps find_last find_new [OF assms(2)] option.case) (simp split: option.split)
    then have "ancestry 11 (r_workspace x) (es @ [x]) (r_id x) \<le> Suc (if r_causation x = '''' then 0 else ancestry 10 (r_workspace x) (es @ [x]) (r_causation x))"
      by (simp add: eval_nat_numeral)
    ultimately show ?thesis unfolding r by (auto split: if_splits)
  qed
  ultimately show "shallow (es @ [x])" by (simp add: shallow_def)
  show "cause_ok c (es @ [x])" if "c \<noteq> r_id x" "cause_ok c es"
    using that old by (auto simp: cause_ok_def)
qed

text \<open>The cause a delivery gives its events.\<close>

lemma cause_of_record:
  assumes "shallow es" "r \<in> set es" "r_causation r = '''' \<or> ancestry 10 (r_workspace r) es (r_causation r) \<le> 8"
  shows "cause_ok (r_id r) es"
proof -
  have "ancestry 10 w es (r_id r) \<le> 9" for w
  proof (cases "find (\<lambda>x. r_workspace x = w \<and> r_id x = r_id r) es")
    case None
    have "ancestry (Suc 9) w es (r_id r) = 0" by (simp only: ancestry.simps None option.case)
    then show ?thesis by (simp add: eval_nat_numeral)
  next
    case (Some x)
    then have "x \<in> set es" "r_workspace x = w" "r_id x = r_id r" by (auto simp: find_Some_iff)
    then have x: "x = r" "w = r_workspace r"
      using assms(1,2) key_unique [of r_id es x r] by (auto simp: shallow_def linked_def)
    have "ancestry (Suc 9) w es (r_id r) = Suc (if r_causation r = '''' then 0 else ancestry 9 w es (r_causation r))"
      by (simp only: ancestry.simps Some option.case x(1))
    moreover have "ancestry 9 w es (r_causation r) \<le> ancestry 10 w es (r_causation r)" by (rule chain_mono) simp
    ultimately show ?thesis using assms(3) x(2) by (auto simp: eval_nat_numeral split: if_splits)
  qed
  then show ?thesis using assms(2) by (auto simp: cause_ok_def)
qed

text \<open>
  The log part of a database as a bystander of the conversation service: an operation called
  for the event \<open>r\<close>, whose depth is \<open>n\<close>, keeps \<open>caused_by r n\<close>, one called from outside
  keeps \<open>sound_log\<close>.
\<close>

definition depth_of :: "event_row \<Rightarrow> event_row list \<Rightarrow> nat" where
  "depth_of r es = (if r_causation r = '''' then 0 else ancestry 10 (r_workspace r) es (r_causation r))"

lemma depth_append:
  assumes "shallow es" "r \<in> set es" "r_id x \<notin> r_id ` set es"
  shows "depth_of r (es @ [x]) = depth_of r es"
proof -
  have l: "linked es" using assms(1) by (simp add: shallow_def)
  have "r_causation r = '''' \<or> r_causation r \<noteq> r_id x" using l assms(2,3) unfolding linked_def by metis
  then show ?thesis using chain_append [OF l assms(3)] by (auto simp: depth_of_def)
qed

definition caused_by :: "event_row \<Rightarrow> nat \<Rightarrow> 'x event_db_scheme \<Rightarrow> bool" where
  "caused_by r n d \<longleftrightarrow> n \<le> 8 \<and> shallow (db_events d) \<and> r \<in> set (db_events d) \<and> depth_of r (db_events d) = n"

abbreviation sound_log :: "'x event_db_scheme \<Rightarrow> bool" where
  "sound_log d \<equiv> shallow (db_events d)"

interpretation outside: bystander sound_log "''''"
  by unfold_locales (auto intro: shallow_append(1) simp: cause_ok_def)

interpretation for_event: bystander "caused_by r n" "r_id r" for r n
proof unfold_locales
  fix d :: "'a conv_db_scheme" and row :: event_row
  assume d: "caused_by r n d" and row: "r_id row \<notin> r_id ` set (db_events d)" "r_causation row = r_id r"
  have "cause_ok (r_id r) (db_events d)"
    using d by (intro cause_of_record) (auto simp: caused_by_def depth_of_def split: if_splits)
  then show "caused_by r n (d\<lparr>db_events := db_events d @ [row]\<rparr>)"
    using d shallow_append [of "db_events d" row] depth_append [of "db_events d" r row] row by (auto simp: caused_by_def)
qed (simp_all add: caused_by_def)

interpretation tables: conversation_keeper "inv_with S T" cause for S T cause
  by unfold_locales (auto intro!: keeps_changes keeps_tags keeps_post simp: stores_elsewhere_def)

section \<open>One delivery\<close>

text \<open>An invariant of a database whose rules, executions, receipts and schedules may change.\<close>

locale delivery_keeper = rule_runner I cause sv for I :: "'y automation_db_scheme \<Rightarrow> bool" and cause and sv +
  assumes records: "I d \<Longrightarrow> I (d\<lparr>at_executions := at_executions d @ [x]\<rparr>)"
      "I d \<Longrightarrow> I (d\<lparr>at_rules := update_where P (\<lambda>u. u\<lparr>ru_last_run := Some t\<rparr>) (at_rules d)\<rparr>)"
begin

lemma record_keeps: "tx_keeps I (record_execution xid now c r outcome applied text dry)"
  unfolding record_execution_def insert_execution_def touch_rule_def Let_def
  by (auto intro!: keeps_bind keeps_ret keeps_with_tx keeps_if keeps_sql keeps_sql_checked records split: if_splits)

lemma rate_keeps: "tx_keeps I (over_rate now c r)"
  unfolding over_rate_def by (auto intro!: keeps_ret keeps_if keeps_bind keeps_sql split: option.split)

lemma run_keeps: "cl_event c = cause \<Longrightarrow> tx_keeps I (run_rule en sv ctxs xid now c r)"
  unfolding run_rule_def
  by (intro keeps_if record_keeps keeps_bind rate_keeps actions_keep) (auto intro: record_keeps split: prod.split option.split)

lemma execute_keeps: "cl_event c = cause \<Longrightarrow> tx_keeps I (execute_with_actor en sv ctxs xid now c)"
  unfolding execute_with_actor_def get_rule_def
  by (intro keeps_bind keeps_if keeps_ret keeps_sql run_keeps) (auto intro: keeps_fail keeps_ret split: option.split)

lemma depth_keeps: "tx_keeps I (causation_depth r)"
  unfolding causation_depth_def by (intro keeps_if keeps_ret keeps_sql) simp

lemma rules_keep: "r_id r = cause \<Longrightarrow> tx_keeps I (run_rules en sv dv r i us)"
proof (induction us arbitrary: i)
  case (Cons u us)
  then show ?case
    by (auto intro!: keeps_if keeps_bind depth_keeps execute_keeps keeps_fail simp: event_call_def)
qed (simp add: keeps_ret)

lemma event_keeps: "r_id r = cause \<Longrightarrow> tx_keeps I (automation_event en sv dv r)"
  unfolding automation_event_def by (intro keeps_if keeps_ret keeps_bind keeps_sql rules_keep) simp_all

end

text \<open>The program without the optional services.\<close>

definition conversation_only :: "'x services" where
  "conversation_only = \<lparr> sv_conversation = True, sv_ticket = None, sv_email = None, sv_webhook = None, sv_sla_ensure = None,
     sv_sla_pause = None, sv_tasks = None, sv_notify = None \<rparr>"

lemma conversation_only_keep: "services_keep I cause conversation_only"
  by (simp add: services_keep_def conversation_only_def)

lemma inv_with_own [simp]:
  "inv_with S T (d\<lparr>at_receipts := a\<rparr>) = inv_with S T d" "inv_with S T (d\<lparr>at_scheduled := b\<rparr>) = inv_with S T d"
  "inv_with S T (d\<lparr>at_executions := c\<rparr>) = inv_with S T d" "inv_with S T (d\<lparr>at_rules := e\<rparr>) = inv_with S T d"
  "inv_with S T (d\<lparr>at_versions := f\<rparr>) = inv_with S T d"
  by (simp_all add: inv_with_def conv_tables_def log_inv_def rows_of_def next_of_def)

interpretation quiet_tables: delivery_keeper "inv_with S T" cause conversation_only for S T cause
  by unfold_locales (simp_all add: conversation_only_keep)

interpretation quiet_log: delivery_keeper "caused_by r n" "r_id r" conversation_only for r n
  by unfold_locales (simp_all add: conversation_only_keep caused_by_def)

text \<open>What a delivery needs of the other services.\<close>

definition sound_services :: "'x services \<Rightarrow> bool" where
  "sound_services sv \<longleftrightarrow> (\<forall>r n. services_keep (caused_by r n) (r_id r) sv) \<and> services_keep sound_log '''' sv \<and>
     (\<forall>c. services_keep (inv_with {} {}) c sv)"

lemma deep_event_keeps:
  assumes "8 < n"
  shows "tx_keeps (\<lambda>d. sound_log d \<and> r \<in> set (db_events d) \<and> depth_of r (db_events d) = n) (automation_event en sv dv r)"
    (is "tx_keeps ?J _")
proof -
  have rec: "tx_keeps ?J (record_execution xid now c u outcome applied msg dry)" for xid now c u outcome applied msg dry
    unfolding record_execution_def insert_execution_def touch_rule_def Let_def
    by (auto intro!: keeps_bind keeps_ret keeps_with_tx keeps_if keeps_sql keeps_sql_checked split: if_splits)
  have exec: "tx_keeps ?J (execute_with_actor en sv ctxs xid now (event_call r u n))" for ctxs xid now u
  proof -
    have "tx_keeps ?J (run_rule en sv ctxs xid now (event_call r u n) v)" for v
      using assms unfolding run_rule_def event_call_def max_depth_def by (simp add: rec)
    then show ?thesis
      unfolding execute_with_actor_def get_rule_def
      by (intro keeps_bind keeps_if keeps_ret keeps_sql) (auto intro: keeps_fail keeps_ret split: option.split)
  qed
  have depth: "tx_keeps ?J (tx_bind (causation_depth r) k)" if "tx_keeps ?J (k n)" for k :: "nat \<Rightarrow> ('a, unit) actx"
  proof (cases "r_causation r = ''''")
    case True
    then show ?thesis using assms by (simp add: tx_keeps_def depth_of_def)
  next
    case False
    then show ?thesis
      using that unfolding causation_depth_def chain_limit_def depth_of_def by (simp, intro keeps_read) auto
  qed
  have "tx_keeps ?J (run_rules en sv dv r i us)" for i us
  proof (induction us arbitrary: i)
    case (Cons u us)
    then show ?case
      by (simp only: run_rules.simps, intro keeps_if) (auto intro!: depth keeps_bind [OF exec] keeps_fail keeps_if)
  qed (simp add: keeps_ret)
  then show ?thesis
    unfolding automation_event_def by (intro keeps_if keeps_ret keeps_bind keeps_sql) simp_all
qed

lemma delivery_keeps_log:
  assumes "sound_services sv"
  shows "tx_keeps (\<lambda>d. sound_log d \<and> r \<in> set (db_events d)) (automation_event en sv dv r)"
proof (unfold tx_keeps_def, intro allI impI)
  fix d :: "'a automation_db_scheme" and fs
  assume d: "sound_log d \<and> r \<in> set (db_events d)"
  let ?n = "depth_of r (db_events d)" and ?d' = "fst (snd (automation_event en sv dv r (d, fs)))"
  show "sound_log ?d' \<and> r \<in> set (db_events ?d')"
  proof (cases "?n \<le> 8")
    case True
    have "delivery_keeper (caused_by r ?n) (r_id r) sv"
      by unfold_locales (use assms in \<open>simp_all add: sound_services_def caused_by_def\<close>)
    from keeps_run [OF delivery_keeper.event_keeps [OF this refl, of en dv], of d fs]
    have "caused_by r ?n ?d'" using d True by (simp add: caused_by_def)
    then show ?thesis by (simp add: caused_by_def)
  next
    case False
    then have "8 < ?n" by simp
    from keeps_run [OF deep_event_keeps [OF this, of r en sv dv], of d fs] d show ?thesis by simp
  qed
qed

section \<open>The whole program around the engine\<close>

text \<open>
  What happens between the deliveries: any operation of the conversation service called
  from outside, an event another service appends, a change of a rule, a run of the
  scheduled actions.
\<close>

abbreviation forget :: "('d, 'e, 'a) tx \<Rightarrow> ('d, 'e, unit) tx" where
  "forget m \<equiv> tx_seq m (tx_ret ())"

inductive user_call :: "request \<Rightarrow> ('x conv_db_scheme, conv_error, unit) tx \<Rightarrow> bool" for rq where
  start: "stores_elsewhere sets \<Longrightarrow> user_call rq (forget (start_conversation sp rq w i ch sj cu v n b sets))"
| post: "stores_elsewhere sets \<Longrightarrow> user_call rq (forget (post_message rq w c cl k at a n b ms sets))"
| assign: "user_call rq (forget (set_assignee rq w act c m))"
| team: "user_call rq (forget (set_team rq w act c m))"
| inbox: "user_call rq (forget (set_inbox rq w act c t))"
| priority: "user_call rq (forget (set_priority rq w act c t))"
| state: "user_call rq (forget (set_state rq w act c t))"
| snooze: "user_call rq (forget (snooze rq w act c until))"
| wake: "user_call rq (forget (wake_snoozed rq))"
| bulk: "user_call rq (forget (bulk_update rq w act cs ba))"
| tag: "user_call rq (add_tag rq w act c t)"
| untag: "user_call rq (remove_tag rq w act c t)"
| follow: "user_call rq (follow rq w c t)"
| unfollow: "user_call rq (unfollow rq w c t)"
| read: "user_call rq (forget (mark_read rq w c t))"
| edit: "user_call rq (forget (edit_message rq w act c t b))"
| redact: "user_call rq (forget (redact_message rq w act c t))"
| merge: "user_call rq (forget (merge rq w act c t))"
| link: "user_call rq (forget (link rq w act c t rel))"
| unlink: "user_call rq (forget (unlink rq w act c t rel))"
| append: "ev_causation ev = '''' \<Longrightarrow> user_call rq (append_conv_event rq k ev)"

inductive_cases user_callE: "user_call rq m"

inductive automation_step :: "env \<Rightarrow> 'x services \<Rightarrow> 'x automation_db_scheme \<Rightarrow> 'x automation_db_scheme \<Rightarrow> bool" for en sv where
  deliver: "r \<in> set (db_events d) \<Longrightarrow> automation_step en sv d (fst (snd (automation_event en sv dv r (d, fs))))"
| call: "user_call rq m \<Longrightarrow> rq_causation rq = '''' \<Longrightarrow> automation_step en sv d (fst (snd (m (d, fs))))"
| create: "automation_step en sv d (fst (snd (create_rule i now w mb inp (d, fs))))"
| update: "automation_step en sv d (fst (snd (update_rule vid now w mb i inp (d, fs))))"
| timer: "(\<And>n. rq_causation (ctxs n) = '''') \<Longrightarrow> automation_step en sv d (fst (snd (run_scheduled en sv ctxs now (d, fs))))"

definition sound_db :: "'x automation_db_scheme \<Rightarrow> bool" where
  "sound_db d \<longleftrightarrow> sound_log d \<and> inv_with {} {} d"

lemma user_call_log: "user_call rq m \<Longrightarrow> rq_causation rq = '''' \<Longrightarrow> tx_keeps sound_log m"
proof (induction rule: user_call.induct)
  case (start sets sp w i ch sj cu v n b)
  then have "tx_keeps sound_log (f w m is)" if "(fids, Some f) \<in> set sets" for fids f w m "is"
    using that by (auto intro: keeps_reads_only simp: stores_elsewhere_def)
  then show ?case using start(2) by (intro keeps_bind keeps_ret outside.beside_start) auto
next
  case (post sets w c cl k at a n b ms)
  then have "tx_keeps sound_log (f w m is)" if "(fids, Some f) \<in> set sets" for fids f w m "is"
    using that by (auto intro: keeps_reads_only simp: stores_elsewhere_def)
  then show ?case using post(2) by (intro keeps_bind keeps_ret outside.beside_post) auto
qed (intro keeps_bind keeps_ret outside.beside_changes outside.beside_wake outside.beside_bulk outside.beside_edit
  outside.beside_merge outside.beside_links outside.beside_append; assumption)+

lemma user_call_tables: "user_call rq m \<Longrightarrow> tx_keeps (inv_with {} {}) m"
  by (induction rule: user_call.induct)
    (auto intro!: keeps_bind keeps_ret keeps_start keeps_post keeps_changes keeps_wake keeps_bulk keeps_tags keeps_edit
       keeps_merge keeps_link keeps_append_conv_event)

lemma rule_changes_keep:
  fixes I :: "'x automation_db_scheme \<Rightarrow> bool"
  assumes "\<And>d a. I d \<Longrightarrow> I (d\<lparr>at_rules := a\<rparr>)" "\<And>d b. I d \<Longrightarrow> I (d\<lparr>at_versions := b\<rparr>)"
  shows "tx_keeps I (create_rule i now w mb inp)" "tx_keeps I (update_rule vid now w mb i inp)"
proof -
  have get: "tx_keeps I (get_rule w i)"
    unfolding get_rule_def by (intro keeps_bind keeps_sql) (auto intro: keeps_fail keeps_ret split: option.split)
  show "tx_keeps I (create_rule i now w mb inp)"
    unfolding create_rule_def insert_rule_def
    by (auto intro!: keeps_fail keeps_bind get keeps_sql_checked assms split: sum.split if_splits)
  show "tx_keeps I (update_rule vid now w mb i inp)"
    unfolding update_rule_def insert_version_def update_rule_row_def Let_def
    by (intro keeps_bind get) (auto intro!: keeps_fail keeps_bind keeps_with_tx get keeps_sql_checked assms split: sum.split if_splits)
qed

lemma step_sound:
  assumes "sound_services sv" "automation_step en sv d d'" "sound_db d"
  shows "sound_db d'"
  using assms(2,3)
proof (cases rule: automation_step.cases)
  case (deliver r dv fs)
  have "delivery_keeper (inv_with {} {}) (r_id r) sv"
    by unfold_locales (use assms(1) in \<open>simp_all add: sound_services_def\<close>)
  from keeps_run [OF delivery_keeper.event_keeps [OF this refl, of en dv], of d fs]
    keeps_run [OF delivery_keeps_log [OF assms(1), of r en dv], of d fs] deliver assms(3)
  show ?thesis by (auto simp: sound_db_def)
next
  case (call rq m fs)
  from keeps_run [OF user_call_log [OF call(2,3)], of d fs] keeps_run [OF user_call_tables [OF call(2)], of d fs] call(1) assms(3)
  show ?thesis by (simp add: sound_db_def)
next
  case (create i now w mb inp fs)
  have "tx_keeps sound_db (create_rule i now w mb inp)" by (rule rule_changes_keep) (simp_all add: sound_db_def)
  from keeps_run [OF this assms(3), of fs] create(1) show ?thesis by simp
next
  case (update vid now w mb i inp fs)
  have "tx_keeps sound_db (update_rule vid now w mb i inp)" by (rule rule_changes_keep) (simp_all add: sound_db_def)
  from keeps_run [OF this assms(3), of fs] update(1) show ?thesis by simp
next
  case (timer ctxs now fs)
  have "rule_runner sound_log '''' sv" "rule_runner (inv_with {} {}) '''' sv"
    by unfold_locales (use assms(1) in \<open>simp_all add: sound_services_def\<close>)
  then have "tx_keeps sound_log (run_scheduled en sv ctxs now)" "tx_keeps (inv_with {} {}) (run_scheduled en sv ctxs now)"
    using timer(2) by (auto intro: rule_runner.scheduled_keeps)
  from keeps_run [OF this(1), of d fs] keeps_run [OF this(2), of d fs] timer(1) assms(3) show ?thesis
    by (simp add: sound_db_def)
qed

lemma steps_sound: "rtranclp (automation_step en sv) d d' \<Longrightarrow> sound_services sv \<Longrightarrow> sound_db d \<Longrightarrow> sound_db d'"
  by (induction rule: rtranclp_induct) (auto intro: step_sound)

lemma shallow_chains:
  assumes "shallow es" "r \<in> set es"
  shows "ancestry n (r_workspace r) es (r_id r) \<le> 10"
proof -
  have le: "ancestry (Suc 10) (r_workspace r) es (r_id r) \<le> 10" using assms by (auto simp: shallow_def eval_nat_numeral)
  have "ancestry n (r_workspace r) es (r_id r) \<le> ancestry (Suc 10 + n) (r_workspace r) es (r_id r)"
    by (rule chain_mono) simp
  then show ?thesis using chain_complete [OF le, of n] le by simp
qed

text \<open>
  C5: rules cannot feed each other for ever.  Whatever calls, deliveries, rule changes and timers run in
  whatever order, and whatever statement fails, no event of the log ever has ten ancestors,
  so every cascade of rules ends after at most nine generations; and the conversation
  tables stay consistent.
\<close>

theorem cascades_are_bounded:
  assumes "rtranclp (automation_step en sv) d d'" and "sound_services sv" and "sound_db d"
  shows "(\<forall>r \<in> set (db_events d'). \<forall>n. ancestry n (r_workspace r) (db_events d') (r_id r) \<le> 10) \<and> conv_tables d'"
  using steps_sound [OF assms] shallow_chains by (auto simp: sound_db_def inv_with_def)

text \<open>A desk with an open conversation whose creation is in the log, and a rule that makes it urgent.\<close>

definition demo_event :: event_row where
  "demo_event = \<lparr> r_id = ''e1'', r_workspace = ''w'', r_sequence = 1, r_type = ''conversation.created'',
     r_entity_type = ''conversation'', r_entity_id = ''a0'', r_actor_type = ''customer'', r_actor_id = '''', r_causation = '''',
     r_request = '''', r_occurred = 7, r_data = JObj [] \<rparr>"

definition demo_rule :: rule where
  "demo_rule = \<lparr> ru_id = ''r1'', ru_workspace = ''w'', ru_name = ''Urgent'', ru_description = '''',
     ru_trigger = ''conversation.created'', ru_conditions = [],
     ru_actions = [\<lparr> an_id = ''action_1'', an_type = ''set_priority'', an_params = [(''priority'', JStr ''urgent'')] \<rparr>],
     ru_position = 0, ru_enabled = True, ru_max = None, ru_version = 1, ru_last_run = None, ru_created_by = None,
     ru_created = 1, ru_updated = 1 \<rparr>"

definition rule_desk :: automation_db where
  "rule_desk = conv_db.extend (open_desk\<lparr>db_events := [demo_event], db_seqs := (\<lambda>_. None)(''w'' \<mapsto> 2)\<rparr>)
     (automation_db.fields [demo_rule] [] [] [] [])"

definition demo_env :: env where
  "demo_env = \<lparr> en_sprint = (\<lambda>j. case j of JStr s \<Rightarrow> s | _ \<Rightarrow> ''''), en_scan = (\<lambda>_. None), en_json = (\<lambda>_. None),
     en_stable = (\<lambda>s. s), en_text = (\<lambda>_. ''error'') \<rparr>"

definition demo_delivery :: "string \<Rightarrow> delivery_input" where
  "demo_delivery p = \<lparr> dv_call = (\<lambda>i n. demo_request p), dv_execution = (\<lambda>_. p @ ''x''), dv_now = (\<lambda>_. 1000) \<rparr>"

lemma rule_desk_sound: "sound_db rule_desk"
proof -
  have "shallow (db_events rule_desk)"
    by (simp add: rule_desk_def conv_db.defs automation_db.defs shallow_def linked_def demo_event_def eval_nat_numeral)
  moreover have "log_inv rule_desk"
    by (auto simp: rule_desk_def conv_db.defs log_inv_def rows_of_def next_of_def demo_event_def open_desk_def demo_desk_def)
  then have "inv_with {} {} rule_desk" using open_desk_inv
    by (simp add: inv_with_def conv_tables_def) (simp add: rule_desk_def conv_db.defs open_desk_def demo_desk_def)
  ultimately show ?thesis by (simp add: sound_db_def)
qed

lemma conversation_only_sound: "sound_services conversation_only"
  by (simp add: sound_services_def conversation_only_keep)

lemmas rule_run = automation_event_def trigger_for_event_def list_rules_def causation_depth_def execute_with_actor_def event_call_def
  settled_before_def get_rule_def rule_row_def run_rule_def over_rate_def max_depth_def matches_data_def action_step_def action_key_def
  apply_action_def need_def text_of_def apply_priority_def on_subject_def conversation_call_def tx_lift_def tx_try_def decimal.simps
  set_priority_def change_conversation_def set_priority_row_def valid_priorities_def by_id_def complete_action_row_def
  record_execution_def insert_execution_def touch_rule_def outcomes_def null_if_def update_where_def event_subject_def rule_key_def
  conversation_only_def demo_delivery_def demo_event_def demo_rule_def demo_env_def rule_desk_def open_desk_def conv_db.defs automation_db.defs

lemma demo_words [simp]: "trim_space ''urgent'' = ''urgent''"
  by code_simp

theorem cascades_are_bounded_witness:
  "let d = fst (snd (automation_event demo_env conversation_only (demo_delivery ''b'') demo_event (rule_desk, [])))
   in map r_causation (db_events d) = ['''', ''e1''] \<and> map cv_priority (cd_conversations d) = [''urgent''] \<and>
      list_all (\<lambda>r. ancestry 20 (r_workspace r) (db_events d) (r_id r) \<le> 10) (db_events d)"
proof -
  let ?d = "fst (snd (automation_event demo_env conversation_only (demo_delivery ''b'') demo_event (rule_desk, [])))"
  have s: "automation_step demo_env conversation_only rule_desk ?d"
    by (rule deliver) (simp add: rule_desk_def conv_db.defs)
  have "\<forall>r \<in> set (db_events ?d). \<forall>n. ancestry n (r_workspace r) (db_events ?d) (r_id r) \<le> 10"
    using cascades_are_bounded [OF r_into_rtranclp [of "automation_step demo_env conversation_only", OF s] conversation_only_sound rule_desk_sound] by blast
  moreover have "map r_causation (db_events ?d) = ['''', ''e1'']" "map cv_priority (cd_conversations ?d) = [''urgent'']"
    by (simp_all add: rule_run demo_defs conv_run_defs tx_run cong: tx_congs)
  ultimately show ?thesis by (simp add: Let_def list_all_iff)
qed

section \<open>Redelivery\<close>

text \<open>What a delivery leaves behind: executions are only added, and of a rule only the time of its last run changes.\<close>

definition undated :: "rule \<Rightarrow> rule" where
  "undated u = u\<lparr>ru_last_run := None\<rparr>"

definition grown :: "execution set \<Rightarrow> rule list \<Rightarrow> 'x automation_db_scheme \<Rightarrow> bool" where
  "grown xs us d \<longleftrightarrow> xs \<subseteq> set (at_executions d) \<and> map undated (at_rules d) = us"

definition beside_rules :: "'x services \<Rightarrow> bool" where
  "beside_rules sv \<longleftrightarrow> (\<forall>xs us c. services_keep (grown xs us) c sv)"

interpretation ledger: bystander "grown xs us" cause for xs us cause
  by unfold_locales (simp_all add: grown_def)

lemma undated_update: "map undated (update_where P (\<lambda>u. u\<lparr>ru_last_run := Some t\<rparr>) us) = map undated us"
  by (simp add: update_where_def undated_def)

lemma event_grows: "beside_rules sv \<Longrightarrow> tx_keeps (grown xs us) (automation_event en sv dv r)"
  and execute_grows: "beside_rules sv \<Longrightarrow> tx_keeps (grown xs us) (execute_with_actor en sv ctxs xid now c)"
  and rules_grow: "beside_rules sv \<Longrightarrow> tx_keeps (grown xs us) (run_rules en sv dv r i vs)"
proof -
  assume sv: "beside_rules sv"
  have k: "delivery_keeper (grown xs us) cause sv" for cause
    by unfold_locales (use sv in \<open>auto simp: grown_def beside_rules_def undated_update\<close>)
  from delivery_keeper.event_keeps [OF k refl] show "tx_keeps (grown xs us) (automation_event en sv dv r)" .
  from delivery_keeper.execute_keeps [OF k refl] show "tx_keeps (grown xs us) (execute_with_actor en sv ctxs xid now c)" .
  from delivery_keeper.rules_keep [OF k refl] show "tx_keeps (grown xs us) (run_rules en sv dv r i vs)" .
qed

definition settled :: "event_row \<Rightarrow> rule \<Rightarrow> execution set \<Rightarrow> bool" where
  "settled r u xs \<longleftrightarrow> (\<exists>x \<in> xs. ex_workspace x = r_workspace r \<and> ex_rule x = ru_id u \<and> ex_event x = Some (r_id r)
     \<and> \<not> ex_dry x \<and> ex_outcome x \<noteq> ''failed'')"

lemma settled_call: "settled_before (event_call r u n) d = settled r u (set (at_executions d))"
  by (simp add: settled_before_def event_call_def settled_def list_ex_iff)

lemma record_Inr:
  assumes "record_execution xid now c u outcome applied txt dry (d, fs) = (Inr x, d', fs')"
  shows "x \<in> set (at_executions d') \<and> ex_workspace x = cl_workspace c \<and> ex_rule x = ru_id u \<and> ex_event x = null_if (cl_event c)
     \<and> ex_outcome x = outcome \<and> ex_dry x = dry"
  using assms unfolding record_execution_def insert_execution_def touch_rule_def
  by (auto simp: tx_run split: if_splits prod.splits sum.splits)

lemma execute_settles:
  assumes "execute_with_actor en sv ctxs xid now (event_call r u n) (d, fs) = (Inr x, d', fs')"
    and "ex_outcome x \<noteq> ''failed''" "r_id r \<noteq> ''''"
  shows "settled r u (set (at_executions d'))"
proof -
  let ?c = "event_call r u n"
  have c: "cl_event ?c = r_id r" "cl_workspace ?c = r_workspace r" "cl_rule ?c = ru_id u" "\<not> cl_dry ?c"
    by (simp_all add: event_call_def)
  have recorded: "settled r u (set (at_executions e'))"
    if "record_execution xid now ?c v oc applied msg False w = (Inr x, e', gs')" "ru_id v = ru_id u" for v oc applied msg w e' gs'
    using record_Inr [of xid now ?c v oc applied msg False "fst w" "snd w" x e' gs'] that assms(2,3) c
    by (auto simp: settled_def null_if_def)
  have ran: "settled r u (set (at_executions e'))" if "run_rule en sv ctxs xid now ?c v w = (Inr x, e', gs')" "ru_id v = ru_id u" for v w e' gs'
    using that(1) recorded [OF _ that(2)] c(4)
    by (cases w) (auto simp: run_rule_def tx_bind_Inr split: if_splits prod.splits option.splits)
  from assms(1) c show ?thesis
    by (auto simp: execute_with_actor_def get_rule_def rule_row_def tx_bind_Inr tx_ret_Inr tx_fail_Inr sql_Inr settled_call find_Some_iff
        intro: ran split: if_splits option.splits)
qed

lemma rules_settle:
  assumes "beside_rules sv" "r_id r \<noteq> ''''"
  shows "run_rules en sv dv r i us (d, fs) = (Inr (), d', fs') \<Longrightarrow> u \<in> set us \<Longrightarrow> ru_enabled u
    \<Longrightarrow> ru_trigger u = trigger_for_event (r_type r) \<Longrightarrow> settled r u (set (at_executions d'))"
proof (induction us arbitrary: i d fs)
  case (Cons v us)
  show ?case
  proof (cases "ru_enabled v \<and> ru_trigger v = trigger_for_event (r_type r)")
    case True
    with Cons.prems(1) obtain n x d1 f1 d2 f2 where e: "execute_with_actor en sv (dv_call dv i) (dv_execution dv i) (dv_now dv i) (event_call r v n) (d1, f1) = (Inr x, d2, f2)"
        "ex_outcome x \<noteq> ''failed''" "run_rules en sv dv r (Suc i) us (d2, f2) = (Inr (), d', fs')"
      by (auto simp: tx_bind_Inr tx_fail_Inr split: if_splits)
    show ?thesis
    proof (cases "u = v")
      case True
      from execute_settles [OF e(1,2) assms(2)] have s: "settled r u (set (at_executions d2))" unfolding True .
      have "grown (set (at_executions d2)) (map undated (at_rules d2)) d'"
        by (rule tx_keepsD [OF rules_grow [OF assms(1)] _ e(3)]) (simp add: grown_def)
      with s show ?thesis by (auto simp: grown_def settled_def)
    next
      case False
      then show ?thesis using Cons.IH [OF e(3)] Cons.prems by simp
    qed
  next
    case False
    with Cons show ?thesis by (auto split: if_splits)
  qed
qed simp

lemma settled_skips:
  assumes "list_all (\<lambda>u. ru_enabled u \<and> ru_trigger u = trigger_for_event (r_type r) \<longrightarrow> settled r u (set (at_executions d))) us"
    and "r_id r \<noteq> ''''"
  shows "fst (snd (run_rules en sv dv r i us (d, fs))) = d" and "fst (run_rules en sv dv r i us (d, [])) = Inr ()"
proof -
  have "fst (snd (run_rules en sv dv r i us (d, fs))) = d \<and> (fs = [] \<longrightarrow> run_rules en sv dv r i us (d, fs) = (Inr (), d, []))" for fs i
    using assms(1)
  proof (induction us arbitrary: fs i)
    case (Cons u us)
    then show ?case
    proof (cases "ru_enabled u \<and> ru_trigger u = trigger_for_event (r_type r)")
      case True
      then have s: "settled_before (event_call r u n) d" for n using Cons.prems by (simp add: settled_call)
      have "\<exists>res fs'. causation_depth r (d, fs) = (res, d, fs') \<and> (fs = [] \<longrightarrow> isl res = False \<and> fs' = [])"
        by (auto simp: causation_depth_def tx_ret_def sql_def split: prod.split)
      then obtain res fs' where c: "causation_depth r (d, fs) = (res, d, fs')" "fs = [] \<longrightarrow> isl res = False \<and> fs' = []" by blast
      have x: "execute_with_actor en sv ctxs xid now (event_call r u n) (d, gs) =
          (if faulty gs then (Inl Fault, d, tl gs) else (Inr already_processed, d, tl gs))" for ctxs xid now n gs
        using s assms(2) by (simp add: execute_with_actor_def event_call_def tx_bind_run sql_def tx_ret_def)
      have "run_rules en sv dv r i (u # us) (d, fs) = (case res of Inl e \<Rightarrow> (Inl e, d, fs')
          | Inr _ \<Rightarrow> if faulty fs' then (Inl Fault, d, tl fs') else run_rules en sv dv r (Suc i) us (d, tl fs'))"
        using True by (simp add: tx_bind_run c(1) x already_processed_def split: sum.split)
      then show ?thesis using Cons c(2) by (cases res) auto
    next
      case False
      then show ?thesis using Cons by auto
    qed
  qed (simp add: tx_ret_def)
  then show "fst (snd (run_rules en sv dv r i us (d, fs))) = d" "fst (run_rules en sv dv r i us (d, [])) = Inr ()" by auto
qed

lemma undated_fields [simp]: "ru_id (undated u) = ru_id u" "ru_workspace (undated u) = ru_workspace u"
    "ru_enabled (undated u) = ru_enabled u" "ru_trigger (undated u) = ru_trigger u"
  by (simp_all add: undated_def)

text \<open>
  C6: delivering an event twice is delivering it once.  When a delivery has succeeded, any later delivery
  of the same event, with other clocks and identifiers and whatever statement of it fails,
  leaves the database as it is, however many executions were added in the meantime, as long
  as the rules are the same; without a failure it succeeds, so the consumer passes the event.
\<close>

theorem redelivery_is_harmless:
  assumes "automation_event en sv dv r (d, fs) = (Inr (), d', fs')" and "beside_rules sv" and "r_id r \<noteq> ''''"
    and "grown (set (at_executions d')) (map undated (at_rules d')) e"
  shows "fst (snd (automation_event en sv' dv' r (e, gs))) = e \<and> fst (automation_event en sv' dv' r (e, [])) = Inr ()"
proof (cases "trigger_for_event (r_type r) = '''' \<or> r_type r = message_created \<and> text_of (event_subject r) ''author_type'' \<noteq> ''customer''")
  case True
  then show ?thesis by (auto simp: automation_event_def tx_ret_def)
next
  case False
  let ?runs = "\<lambda>u. ru_enabled u \<and> ru_trigger u = trigger_for_event (r_type r)"
  from assms(1) False have run: "run_rules en sv dv r 0 (list_rules (r_workspace r) None 0 d) (d, tl fs) = (Inr (), d', fs')"
    by (auto simp: automation_event_def tx_bind_Inr sql_Inr split: if_splits)
  have g: "grown (set (at_executions d)) (map undated (at_rules d)) d'"
    by (rule tx_keepsD [OF event_grows [OF assms(2)] _ assms(1)]) (simp add: grown_def)
  have "settled r u (set (at_executions e))" if "u \<in> set (list_rules (r_workspace r) None 0 e)" "?runs u" for u
  proof -
    have "undated u \<in> undated ` set (at_rules e)" "ru_workspace u = r_workspace r" using that(1) by (auto simp: list_rules_def)
    then have "undated u \<in> undated ` set (at_rules d)" using g assms(4)
      by (metis grown_def list.set_map)
    then obtain v where v: "v \<in> set (at_rules d)" "undated v = undated u" by auto
    then have f: "ru_id v = ru_id u" "ru_workspace v = ru_workspace u" "?runs v" using that(2)
      by (metis undated_fields)+
    then have "settled r v (set (at_executions d'))"
      using v(1) \<open>ru_workspace u = r_workspace r\<close>
      by (intro rules_settle [OF assms(2,3) run]) (auto simp: list_rules_def)
    then show ?thesis using f(1) assms(4) by (auto simp: settled_def grown_def)
  qed
  then have "list_all (\<lambda>u. ?runs u \<longrightarrow> settled r u (set (at_executions e))) (list_rules (r_workspace r) None 0 e)"
    by (simp add: list_all_iff)
  note skip = settled_skips [OF this assms(3)]
  have "fst (snd (automation_event en sv' dv' r (e, gs))) = e"
    using skip(1) False by (auto simp: automation_event_def tx_bind_run sql_def)
  moreover have "fst (automation_event en sv' dv' r (e, [])) = Inr ()"
    using skip(2) False by (auto simp: automation_event_def tx_bind_run sql_def)
  ultimately show ?thesis by simp
qed

theorem redelivery_is_harmless_witness:
  "let first = automation_event demo_env conversation_only (demo_delivery ''b'') demo_event (rule_desk, []);
       again = automation_event demo_env conversation_only (demo_delivery ''c'') demo_event (fst (snd first), [False])
   in \<not> isl (fst first) \<and> map ex_outcome (at_executions (fst (snd first))) = [''matched''] \<and> fst (snd again) = fst (snd first)"
proof -
  let ?first = "automation_event demo_env conversation_only (demo_delivery ''b'') demo_event (rule_desk, [])"
  have f: "\<not> isl (fst ?first) \<and> map ex_outcome (at_executions (fst (snd ?first))) = [''matched'']"
    by (simp add: rule_run demo_defs conv_run_defs tx_run cong: tx_congs)
  show ?thesis
  proof (cases ?first)
    case (fields v d' fs')
    have sv: "beside_rules (conversation_only :: unit services)"
      by (simp add: beside_rules_def conversation_only_keep)
    have "?first = (Inr (), d', fs')" using f fields by (cases v) auto
    from redelivery_is_harmless [OF this sv, of d' conversation_only "demo_delivery ''c''" "[False]"] f fields
    show ?thesis by (simp add: Let_def grown_def) (simp add: demo_event_def)
  qed
qed

end
