(* ===== verification/Idempotency.thy ===== *)
theory Idempotency
  imports Encodings
begin

text \<open>
  Idempotent requests (src/internal/api/idempotency.go).  A request with an Idempotency-Key
  claims a row of a ledger before its handler runs and completes or releases it afterwards.
  The three middlewares differ in how they find the owner of the key; two of them share the
  table idempotency_keys, the third has user_idempotency_keys.

  Statements of concurrent requests interleave, so a request is a sequence of moves over the
  shared tables: the claim (INSERT), the look at what is there (SELECT), the handler, and the
  bookkeeping after it.  The handler, SHA-256, json.Valid and the text PostgreSQL gives back
  for a jsonb value are arguments.
\<close>

section \<open>The ledgers\<close>

record key_row =
  kr_id :: string
  kr_workspace :: string
  kr_key :: string
  kr_endpoint :: string
  kr_print :: string
  kr_status :: "int option"
  kr_body :: "string option"
  kr_expires :: int

record user_key_row =
  uk_id :: string
  uk_user :: string
  uk_key :: string
  uk_endpoint :: string
  uk_print :: string
  uk_status :: "int option"
  uk_body :: "string option"
  uk_expires :: int

record ledger_db =
  id_workspaces :: "string list"
  id_users :: "string list"
  id_keys :: "key_row list"
  id_user_keys :: "user_key_row list"

text \<open>Owner, endpoint and key: the columns of the unique indexes.\<close>

type_synonym ledger_key = "string \<times> string \<times> string"

definition of_claim :: "ledger_key \<Rightarrow> key_row \<Rightarrow> bool" where
  "of_claim c r \<longleftrightarrow> (kr_workspace r, kr_endpoint r, kr_key r) = c"

definition of_user_claim :: "ledger_key \<Rightarrow> user_key_row \<Rightarrow> bool" where
  "of_user_claim c r \<longleftrightarrow> (uk_user r, uk_endpoint r, uk_key r) = c"

definition idempotency_window :: int where
  "idempotency_window = 24 * 60 * 60 * 1000000000"

text \<open>
  The INSERT of claimIdempotencyKey: \<open>None\<close> is a violated constraint, \<open>False\<close> a conflict with
  a row that is there.
\<close>

definition insert_claim :: "string \<Rightarrow> int \<Rightarrow> ledger_key \<Rightarrow> string \<Rightarrow> 'x ledger_db_scheme \<Rightarrow> (bool \<times> 'x ledger_db_scheme) option" where
  "insert_claim i now c print d = (case c of (w, endpoint, key) \<Rightarrow>
     if w \<notin> set (id_workspaces d) \<or> i \<in> kr_id ` set (id_keys d) then None
     else if list_ex (of_claim c) (id_keys d) then Some (False, d)
     else Some (True, d\<lparr>id_keys := id_keys d @ [\<lparr> kr_id = i, kr_workspace = w, kr_key = key, kr_endpoint = endpoint,
       kr_print = print, kr_status = None, kr_body = None, kr_expires = now + idempotency_window \<rparr>]\<rparr>))"

definition insert_user_claim :: "string \<Rightarrow> int \<Rightarrow> ledger_key \<Rightarrow> string \<Rightarrow> 'x ledger_db_scheme \<Rightarrow> (bool \<times> 'x ledger_db_scheme) option" where
  "insert_user_claim i now c print d = (case c of (u, endpoint, key) \<Rightarrow>
     if u \<notin> set (id_users d) \<or> i \<in> uk_id ` set (id_user_keys d) then None
     else if list_ex (of_user_claim c) (id_user_keys d) then Some (False, d)
     else Some (True, d\<lparr>id_user_keys := id_user_keys d @ [\<lparr> uk_id = i, uk_user = u, uk_key = key, uk_endpoint = endpoint,
       uk_print = print, uk_status = None, uk_body = None, uk_expires = now + idempotency_window \<rparr>]\<rparr>))"

text \<open>The SELECT after a conflict: fingerprint and, once there is one, status and body.\<close>

definition stored_response :: "int option \<Rightarrow> string option \<Rightarrow> (int \<times> string) option" where
  "stored_response status body = (case status of None \<Rightarrow> None
     | Some s \<Rightarrow> Some (s, case body of None \<Rightarrow> '''' | Some b \<Rightarrow> b))"

definition select_claim :: "ledger_key \<Rightarrow> 'x ledger_db_scheme \<Rightarrow> (string \<times> (int \<times> string) option) option" where
  "select_claim c d = map_option (\<lambda>r. (kr_print r, stored_response (kr_status r) (kr_body r))) (find (of_claim c) (id_keys d))"

definition select_user_claim :: "ledger_key \<Rightarrow> 'x ledger_db_scheme \<Rightarrow> (string \<times> (int \<times> string) option) option" where
  "select_user_claim c d = map_option (\<lambda>r. (uk_print r, stored_response (uk_status r) (uk_body r)))
     (find (of_user_claim c) (id_user_keys d))"

text \<open>
  The body a response is stored as: null when it is not JSON, \<open>None\<close> when PostgreSQL refuses
  the value.
\<close>

record json_text =
  jt_valid :: "string \<Rightarrow> bool"
  jt_jsonb :: "string \<Rightarrow> string option"

definition stored_body :: "json_text \<Rightarrow> string \<Rightarrow> string option" where
  "stored_body jt body = jt_jsonb jt (if jt_valid jt body then body else ''null'')"

definition complete_claim :: "json_text \<Rightarrow> ledger_key \<Rightarrow> int \<Rightarrow> string \<Rightarrow> 'x ledger_db_scheme \<Rightarrow> 'x ledger_db_scheme option" where
  "complete_claim jt c status body d = map_option (\<lambda>b. d\<lparr>id_keys := update_where (of_claim c)
     (\<lambda>r. r\<lparr>kr_status := Some status, kr_body := Some b\<rparr>) (id_keys d)\<rparr>) (stored_body jt body)"

definition complete_user_claim :: "json_text \<Rightarrow> ledger_key \<Rightarrow> int \<Rightarrow> string \<Rightarrow> 'x ledger_db_scheme \<Rightarrow> 'x ledger_db_scheme option" where
  "complete_user_claim jt c status body d = map_option (\<lambda>b. d\<lparr>id_user_keys := update_where (of_user_claim c)
     (\<lambda>r. r\<lparr>uk_status := Some status, uk_body := Some b\<rparr>) (id_user_keys d)\<rparr>) (stored_body jt body)"

definition release_claim :: "ledger_key \<Rightarrow> 'x ledger_db_scheme \<Rightarrow> 'x ledger_db_scheme" where
  "release_claim c d = d\<lparr>id_keys := delete_where (\<lambda>r. of_claim c r \<and> kr_status r = None) (id_keys d)\<rparr>"

definition release_user_claim :: "ledger_key \<Rightarrow> 'x ledger_db_scheme \<Rightarrow> 'x ledger_db_scheme" where
  "release_user_claim c d = d\<lparr>id_user_keys := delete_where (\<lambda>r. of_user_claim c r \<and> uk_status r = None) (id_user_keys d)\<rparr>"

text \<open>The statements a middleware uses.\<close>

record 'd ledger_ops =
  lo_insert :: "string \<Rightarrow> int \<Rightarrow> ledger_key \<Rightarrow> string \<Rightarrow> 'd \<Rightarrow> (bool \<times> 'd) option"
  lo_select :: "ledger_key \<Rightarrow> 'd \<Rightarrow> (string \<times> (int \<times> string) option) option"
  lo_complete :: "ledger_key \<Rightarrow> int \<Rightarrow> string \<Rightarrow> 'd \<Rightarrow> 'd option"
  lo_release :: "ledger_key \<Rightarrow> 'd \<Rightarrow> 'd"

definition workspace_ledger :: "json_text \<Rightarrow> 'x ledger_db_scheme ledger_ops" where
  "workspace_ledger jt = \<lparr> lo_insert = insert_claim, lo_select = select_claim, lo_complete = complete_claim jt, lo_release = release_claim \<rparr>"

definition user_ledger :: "json_text \<Rightarrow> 'x ledger_db_scheme ledger_ops" where
  "user_ledger jt = \<lparr> lo_insert = insert_user_claim, lo_select = select_user_claim, lo_complete = complete_user_claim jt,
     lo_release = release_user_claim \<rparr>"

section \<open>The life of a request\<close>

text \<open>
  \<open>Unclaimed\<close>: the middleware lets the handler run without a claim.  \<open>Ran\<close>: the handler of a
  claimed request has answered.  \<open>Served\<close>, \<open>Kept\<close> (the row of a failed attempt could not be
  released), \<open>Passed\<close>, \<open>Replayed\<close>, \<open>Reused\<close> and \<open>Busy\<close> are the answers, \<open>Lost\<close> is a
  process or a handler that broke off.
\<close>

datatype phase = Fresh | Conflicted | Claimed | Unclaimed | Ran int string | Served int string | Kept int string
  | Passed int string | Replayed int string | Reused | Busy | Lost

text \<open>One statement or call of a request; the flags say that it fails, and how.\<close>

datatype move = MClaim string int | MClaimFails | MClaimUnheard string int | MLook | MLookFails
  | MHandle int string | MBreak | MFinish | MFinishFails

definition success :: "int \<Rightarrow> bool" where
  "success status \<longleftrightarrow> 200 \<le> status \<and> status < 300"

definition looked :: "string \<Rightarrow> (string \<times> (int \<times> string) option) option \<Rightarrow> phase" where
  "looked print found = (case found of None \<Rightarrow> Unclaimed
     | Some (print', response) \<Rightarrow> if print' \<noteq> print then Reused
         else case response of None \<Rightarrow> Busy | Some (s, b) \<Rightarrow> Replayed s b)"

definition finished :: "int \<Rightarrow> string \<Rightarrow> bool \<Rightarrow> phase" where
  "finished status body released = (if success status \<or> released then Served status body else Kept status body)"

text \<open>The next statement of a request with claim \<open>c\<close> and fingerprint \<open>p\<close>.\<close>

definition claimed :: "'d ledger_ops \<Rightarrow> ledger_key \<Rightarrow> string \<Rightarrow> string \<Rightarrow> int \<Rightarrow> 'd \<Rightarrow> phase \<times> 'd" where
  "claimed ops c p i now d = (case lo_insert ops i now c p d of None \<Rightarrow> (Unclaimed, d)
     | Some (new, d') \<Rightarrow> (if new then Claimed else Conflicted, d'))"

definition completed :: "'d ledger_ops \<Rightarrow> ledger_key \<Rightarrow> int \<Rightarrow> string \<Rightarrow> 'd \<Rightarrow> 'd" where
  "completed ops c s b d = (if success s then (case lo_complete ops c s b d of None \<Rightarrow> d | Some d' \<Rightarrow> d')
     else lo_release ops c d)"

definition request_move :: "'d ledger_ops \<Rightarrow> ledger_key \<Rightarrow> string \<Rightarrow> move \<Rightarrow> phase \<Rightarrow> 'd \<Rightarrow> phase \<times> 'd" where
  "request_move ops c p m ph d = (case m of
     MClaim i now \<Rightarrow> if ph = Fresh then claimed ops c p i now d else (ph, d)
   | MClaimFails \<Rightarrow> (if ph = Fresh then Unclaimed else ph, d)
   | MClaimUnheard i now \<Rightarrow> if ph = Fresh then (Unclaimed, snd (claimed ops c p i now d)) else (ph, d)
   | MLook \<Rightarrow> (if ph = Conflicted then looked p (lo_select ops c d) else ph, d)
   | MLookFails \<Rightarrow> (if ph = Conflicted then Unclaimed else ph, d)
   | MHandle s b \<Rightarrow> (if ph = Claimed then Ran s b else if ph = Unclaimed then Passed s b else ph, d)
   | MBreak \<Rightarrow> (case ph of Claimed \<Rightarrow> Lost | Ran _ _ \<Rightarrow> Lost | _ \<Rightarrow> ph, d)
   | MFinish \<Rightarrow> (case ph of Ran s b \<Rightarrow> (finished s b True, completed ops c s b d) | _ \<Rightarrow> (ph, d))
   | MFinishFails \<Rightarrow> (case ph of Ran s b \<Rightarrow> finished s b False | _ \<Rightarrow> ph, d))"

text \<open>Requests by number, each with its claim and fingerprint, over one database.\<close>

definition ledger_move :: "'d ledger_ops \<Rightarrow> (nat \<Rightarrow> ledger_key \<times> string) \<Rightarrow> nat \<times> move \<Rightarrow> (nat \<Rightarrow> phase) \<times> 'd \<Rightarrow> (nat \<Rightarrow> phase) \<times> 'd" where
  "ledger_move ops atts m s = (case request_move ops (fst (atts (fst m))) (snd (atts (fst m))) (snd m) (fst s (fst m)) (snd s) of
     (ph, d) \<Rightarrow> ((fst s)(fst m := ph), d))"

definition ledger_run :: "'d ledger_ops \<Rightarrow> (nat \<Rightarrow> ledger_key \<times> string) \<Rightarrow> (nat \<times> move) list \<Rightarrow> 'd \<Rightarrow> (nat \<Rightarrow> phase) \<times> 'd" where
  "ledger_run ops atts ms d = fold (ledger_move ops atts) ms ((\<lambda>_. Fresh), d)"

section \<open>Finding the claim\<close>

text \<open>
  What a middleware sees of a request; the sessions are already looked up: the workspace of
  the actor, of the portal session, the user, and the workspace of the widget.
\<close>

record http_input =
  hi_key :: string
  hi_method :: string
  hi_path :: string
  hi_body :: "string option"
  hi_actor :: "string option"
  hi_portal :: "string option"
  hi_path_workspace :: string
  hi_user :: "string option"
  hi_query_key :: string
  hi_query_url :: string
  hi_query_token :: string
  hi_origin :: string

datatype entrance = Direct | Unreadable | Keyed ledger_key string

definition usable_key :: "string \<Rightarrow> bool" where
  "usable_key k \<longleftrightarrow> k \<noteq> '''' \<and> length k \<le> 255"

definition endpoint_of_request :: "http_input \<Rightarrow> string" where
  "endpoint_of_request h = hi_method h @ '' '' @ hi_path h"

definition workspace_of_request :: "http_input \<Rightarrow> string option" where
  "workspace_of_request h = (case hi_actor h of Some w \<Rightarrow> Some w
     | None \<Rightarrow> (case hi_portal h of Some w \<Rightarrow> Some w
       | None \<Rightarrow> if trim_space (hi_path_workspace h) \<noteq> '''' then Some (trim_space (hi_path_workspace h)) else None))"

definition read_body :: "http_input \<Rightarrow> (string \<Rightarrow> entrance) \<Rightarrow> entrance" where
  "read_body h k = (case hi_body h of None \<Rightarrow> Unreadable | Some b \<Rightarrow> k b)"

definition idempotency :: "http_input \<Rightarrow> entrance" where
  "idempotency h = (if \<not> usable_key (hi_key h) then Direct
     else case workspace_of_request h of None \<Rightarrow> Direct
       | Some w \<Rightarrow> read_body h (Keyed (w, endpoint_of_request h, hi_key h)))"

definition user_idempotency :: "http_input \<Rightarrow> entrance" where
  "user_idempotency h = (if \<not> usable_key (hi_key h) then Direct
     else case hi_user h of None \<Rightarrow> Direct | Some u \<Rightarrow> read_body h (Keyed (u, endpoint_of_request h, hi_key h)))"

text \<open>
  \<open>envelope\<close>: what decoding the body leaves in public_key, url and token; \<open>widget\<close>: the
  workspace of WidgetForOrigin.
\<close>

definition or_else :: "string \<Rightarrow> string \<Rightarrow> string" where
  "or_else a b = (if a = '''' then b else a)"

definition widget_idempotency :: "(string \<Rightarrow> string) \<Rightarrow> (string \<Rightarrow> string \<times> string \<times> string)
    \<Rightarrow> (string \<Rightarrow> string \<Rightarrow> string \<Rightarrow> string option) \<Rightarrow> http_input \<Rightarrow> entrance" where
  "widget_idempotency sha envelope widget h = (if \<not> usable_key (hi_key h) then Direct
     else read_body h (\<lambda>body. case (if body = '''' then ('''', '''', '''') else envelope body) of (ek, eu, et) \<Rightarrow>
       let public_key = or_else (trim_space (hi_query_key h)) (trim_space ek);
           url = or_else (trim_space (hi_query_url h)) (trim_space eu);
           token = or_else (trim_space (hi_query_token h)) (trim_space et)
       in if public_key = '''' then Direct
          else case widget public_key url (hi_origin h) of None \<Rightarrow> Direct
            | Some w \<Rightarrow> Keyed (w, endpoint_of_request h @ (if token = '''' then '''' else '' visitor:'' @ hex_encode (sha token)), hi_key h) body))"

end
