(* ===== verification/IdempotencySafety.thy ===== *)
theory IdempotencySafety
  imports Idempotency
begin

text \<open>
  Properties of the idempotent requests.  The locale \<open>claim_ledger\<close> is the contract between
  the middleware and a ledger: what the four statements do to the claims the table holds.
  The protocol is analysed once in the locale; the tables idempotency_keys and
  user_idempotency_keys both satisfy it.
\<close>

section \<open>The contract of a ledger\<close>

locale claim_ledger =
  fixes ops :: "'d ledger_ops" and ok :: "'d \<Rightarrow> bool"
    and view :: "'d \<Rightarrow> ledger_key \<Rightarrow> (string \<times> (int \<times> string) option) option" and store :: "string \<Rightarrow> string option"
  assumes inserted: "ok d \<Longrightarrow> lo_insert ops i now c p d = Some (True, d') \<Longrightarrow>
      ok d' \<and> view d c = None \<and> view d' = (view d)(c \<mapsto> (p, None))"
    and conflict: "ok d \<Longrightarrow> lo_insert ops i now c p d = Some (False, d') \<Longrightarrow> d' = d \<and> view d c \<noteq> None"
    and select: "ok d \<Longrightarrow> lo_select ops c d = view d c"
    and complete: "ok d \<Longrightarrow> view d c = Some (p, r) \<Longrightarrow> lo_complete ops c s b d = Some d' \<Longrightarrow>
      ok d' \<and> (\<exists>t. store b = Some t \<and> view d' = (view d)(c \<mapsto> (p, Some (s, t))))"
    and release: "ok d \<Longrightarrow> view d c = Some (p, None) \<Longrightarrow> ok (lo_release ops c d) \<and> view (lo_release ops c d) = (view d)(c := None)"

text \<open>A request that holds its claim: no other request with the same claim gets past it.\<close>

fun holding :: "phase \<Rightarrow> bool" where
  "holding Claimed = True"
| "holding (Ran s b) = True"
| "holding Lost = True"
| "holding (Kept s b) = True"
| "holding (Served s b) = success s"
| "holding _ = False"

text \<open>The handler of the request succeeded under a claim, or is at work under one.\<close>

fun at_work :: "phase \<Rightarrow> bool" where
  "at_work Claimed = True"
| "at_work (Ran s b) = True"
| "at_work _ = False"

fun succeeded :: "phase \<Rightarrow> bool" where
  "succeeded (Ran s b) = success s"
| "succeeded (Served s b) = success s"
| "succeeded _ = False"

lemma at_work_holds: "at_work ph \<Longrightarrow> holding ph"
  by (cases ph) simp_all

lemma succeeded_holds: "succeeded ph \<Longrightarrow> holding ph"
  by (cases ph) simp_all

text \<open>The response of a row was served by a request with the claim and the fingerprint of the row.\<close>

definition served :: "(string \<Rightarrow> string option) \<Rightarrow> (nat \<Rightarrow> ledger_key \<times> string) \<Rightarrow> (nat \<Rightarrow> phase) \<Rightarrow> ledger_key \<Rightarrow> string \<Rightarrow> int \<Rightarrow> string \<Rightarrow> bool" where
  "served store atts ph c p s t \<longleftrightarrow> (\<exists>j b. atts j = (c, p) \<and> ph j = Served s b \<and> success s \<and> store b = Some t)"

definition never_served :: "phase \<Rightarrow> bool" where
  "never_served ph \<longleftrightarrow> (\<forall>s b. ph \<noteq> Served s b)"

lemma served_update: "served store atts ph c p s t \<Longrightarrow> never_served (ph i) \<Longrightarrow> served store atts (ph(i := x)) c p s t"
  unfolding served_def never_served_def by (metis fun_upd_other)

text \<open>No other request holds the claim of \<open>i\<close>.\<close>

definition alone :: "(nat \<Rightarrow> ledger_key \<times> string) \<Rightarrow> (nat \<Rightarrow> phase) \<Rightarrow> nat \<Rightarrow> bool" where
  "alone atts ph i \<longleftrightarrow> (\<forall>j. holding (ph j) \<longrightarrow> fst (atts j) = fst (atts i) \<longrightarrow> j = i)"

text \<open>What a holder finds in the ledger: its own row, without a response until it has served one.\<close>

definition own_row :: "phase \<Rightarrow> string \<Rightarrow> (string \<times> (int \<times> string) option) option \<Rightarrow> bool" where
  "own_row ph p row \<longleftrightarrow> (\<exists>r. row = Some (p, r) \<and> (r = None \<or> \<not> never_served ph))"

context claim_ledger
begin

definition consistent :: "(nat \<Rightarrow> ledger_key \<times> string) \<Rightarrow> (nat \<Rightarrow> phase) \<times> 'd \<Rightarrow> bool" where
  "consistent atts s \<longleftrightarrow> ok (snd s) \<and>
     (\<forall>i. holding (fst s i) \<longrightarrow> own_row (fst s i) (snd (atts i)) (view (snd s) (fst (atts i))) \<and> alone atts (fst s) i) \<and>
     (\<forall>c p st t. view (snd s) c = Some (p, Some (st, t)) \<longrightarrow> served store atts (fst s) c p st t) \<and>
     (\<forall>i st t. fst s i = Replayed st t \<longrightarrow> served store atts (fst s) (fst (atts i)) (snd (atts i)) st t)"

lemma consistentD:
  assumes "consistent atts (ph, d)"
  shows "ok d" "holding (ph i) \<Longrightarrow> own_row (ph i) (snd (atts i)) (view d (fst (atts i)))" "holding (ph i) \<Longrightarrow> alone atts ph i"
    "view d c = Some (p, Some (st, t)) \<Longrightarrow> served store atts ph c p st t"
    "ph i = Replayed st t \<Longrightarrow> served store atts ph (fst (atts i)) (snd (atts i)) st t"
proof -
  note s = assms [unfolded consistent_def fst_conv snd_conv]
  have rows: "\<forall>c p st t. view d c = Some (p, Some (st, t)) \<longrightarrow> served store atts ph c p st t" using s by (elim conjE)
  show "view d c = Some (p, Some (st, t)) \<Longrightarrow> served store atts ph c p st t" by (rule rows [rule_format])
qed (use assms in \<open>simp_all add: consistent_def\<close>)

text \<open>The request \<open>i\<close> moves to the phase \<open>x\<close> and puts \<open>v\<close> in its row.\<close>

lemma consistent_update:
  assumes s: "consistent atts (ph, d)" and i: "never_served (ph i)" "ok d'" and c: "atts i = (c, p)"
    and v: "view d' = (view d)(c := v)" "v = view d c \<or> alone atts ph i"
    and x: "holding x \<Longrightarrow> own_row x p v \<and> alone atts ph i"
    and row: "\<And>p' st t. v = Some (p', Some (st, t)) \<Longrightarrow> served store atts (ph(i := x)) c p' st t"
    and reply: "\<And>st t. x = Replayed st t \<Longrightarrow> served store atts (ph(i := x)) c p st t"
  shows "consistent atts (ph(i := x), d')"
proof -
  have "own_row ((ph(i := x)) j) (snd (atts j)) (view d' (fst (atts j))) \<and> alone atts (ph(i := x)) j"
    if h: "holding ((ph(i := x)) j)" for j
  proof (cases "j = i")
    case True
    then show ?thesis using x h c v(1) by (auto simp: alone_def)
  next
    case False
    then have j: "holding (ph j)" using h by simp
    then have o: "own_row (ph j) (snd (atts j)) (view d (fst (atts j)))" "alone atts ph j"
      using s by (auto simp: consistent_def)
    have "fst (atts j) = c \<Longrightarrow> \<not> alone atts ph i" using j False c by (auto simp: alone_def)
    moreover from this have "fst (atts j) = c \<Longrightarrow> \<not> holding x" using x by blast
    ultimately show ?thesis using o False c v by (auto simp: alone_def)
  qed
  moreover have "served store atts (ph(i := x)) c' p' st t" if "view d' c' = Some (p', Some (st, t))" for c' p' st t
    using that v(1) row served_update [OF consistentD(4) [OF s] i(1)] by (cases "c' = c") auto
  moreover have "served store atts (ph(i := x)) (fst (atts j)) (snd (atts j)) st t" if "(ph(i := x)) j = Replayed st t" for j st t
    using that reply c served_update [OF consistentD(5) [OF s] i(1)] by (cases "j = i") auto
  ultimately show ?thesis using i(2) by (simp add: consistent_def)
qed

text \<open>A move that leaves the ledger as it is.\<close>

lemma consistent_phase:
  assumes s: "consistent atts (ph, d)" and i: "never_served (ph i)"
    and x: "holding x \<Longrightarrow> holding (ph i)"
    and reply: "\<And>st t. x = Replayed st t \<Longrightarrow> served store atts ph (fst (atts i)) (snd (atts i)) st t"
  shows "consistent atts (ph(i := x), d)"
proof -
  obtain c p where c: "atts i = (c, p)" by fastforce
  show ?thesis
  proof (rule consistent_update [OF s i _ c, of d "view d c"])
    show "own_row x p (view d c) \<and> alone atts ph i" if "holding x"
      using s x [OF that] c i by (auto simp: consistent_def own_row_def)
    show "served store atts (ph(i := x)) c p' st t" if "view d c = Some (p', Some (st, t))" for p' st t
      by (rule served_update [OF consistentD(4) [OF s that] i])
    show "served store atts (ph(i := x)) c p st t" if "x = Replayed st t" for st t
      using served_update [OF reply [OF that] i] c by simp
  qed (use s in \<open>auto simp: consistent_def\<close>)
qed

lemma consistent_claim:
  assumes s: "consistent atts (ph, d)" and i: "never_served (ph i)" "\<not> holding (ph i)" and c: "atts i = (c, p)"
    and n: "lo_insert ops r now c p d = Some (True, d')" and x: "x = Claimed \<or> x = Unclaimed"
  shows "consistent atts (ph(i := x), d')"
proof -
  have d: "ok d" using s by (simp add: consistent_def)
  note I = inserted [OF d n]
  have a: "alone atts ph i"
    using s I c by (fastforce simp: alone_def consistent_def own_row_def)
  show ?thesis
    by (rule consistent_update [OF s i(1) _ c, of d' "Some (p, None)"]) (use I a x in \<open>auto simp: own_row_def\<close>)
qed

lemma consistent_finish:
  assumes s: "consistent atts (ph, d)" and i: "ph i = Ran st b" and c: "atts i = (c, p)"
  shows "consistent atts (ph(i := finished st b True), completed ops c st b d)"
proof -
  have d: "ok d" and n: "never_served (ph i)" using s i by (simp_all add: consistent_def never_served_def)
  have h: "view d c = Some (p, None)" "alone atts ph i"
    using s i c n by (auto simp: consistent_def own_row_def dest!: spec [of _ i])
  show ?thesis
  proof (cases "success st")
    case True
    show ?thesis
    proof (cases "lo_complete ops c st b d")
      case None
      then show ?thesis
        using consistent_phase [OF s n, of "Served st b"] i True by (simp add: completed_def finished_def)
    next
      case (Some d')
      from complete [OF d h(1) Some] obtain t where t: "ok d'" "store b = Some t" "view d' = (view d)(c \<mapsto> (p, Some (st, t)))" by auto
      show ?thesis
        unfolding completed_def finished_def using True Some
        by (simp, intro consistent_update [OF s n t(1) c t(3)])
          (use h(2) t(2) c True in \<open>auto simp: own_row_def never_served_def served_def\<close>)
    qed
  next
    case False
    note r = release [OF d h(1)]
    show ?thesis
      unfolding completed_def finished_def using False
      by (simp, intro consistent_update [OF s n conjunct1 [OF r] c conjunct2 [OF r]]) (use h(2) in auto)
  qed
qed

lemma move_consistent: "consistent atts s \<Longrightarrow> consistent atts (ledger_move ops atts m s)"
proof -
  assume s: "consistent atts s"
  obtain ph d i mv c p where e: "s = (ph, d)" "m = (i, mv)" "atts i = (c, p)" by (metis surj_pair)
  have s': "consistent atts (ph, d)" and d: "ok d" using s e(1) by (auto simp: consistent_def)
  have stay: "consistent atts (ph(i := ph i), d)" using s' by simp
  have un: "never_served y" if "\<And>s b. y \<noteq> Served s b" for y using that by (simp add: never_served_def)
  have claim: "consistent atts (ph(i := fst (claimed ops c p r now d)), snd (claimed ops c p r now d)) \<and>
      consistent atts (ph(i := Unclaimed), snd (claimed ops c p r now d))" if "ph i = Fresh" for r now
  proof (cases "lo_insert ops r now c p d")
    case None
    then show ?thesis using consistent_phase [OF s', of i Unclaimed] that by (simp add: claimed_def un)
  next
    case (Some q)
    then show ?thesis
    proof (cases "fst q")
      case True
      then show ?thesis using consistent_claim [OF s' _ _ e(3), of r now "snd q"] Some that
        by (cases q) (auto simp: claimed_def un)
    next
      case False
      then have "snd q = d" using conflict [OF d, of r now c p "snd q"] Some by (cases q) auto
      then show ?thesis
        using consistent_phase [OF s', of i Conflicted] consistent_phase [OF s', of i Unclaimed] Some that False
        by (cases q) (auto simp: claimed_def un)
    qed
  qed
  have look: "consistent atts (ph(i := looked p (lo_select ops c d)), d)" if "ph i = Conflicted"
  proof (rule consistent_phase [OF s'])
    show "served store atts ph (fst (atts i)) (snd (atts i)) st t" if "looked p (lo_select ops c d) = Replayed st t" for st t
      using that e(3) select [OF d, of c] consistentD(4) [OF s', of c p st t]
      by (auto simp: looked_def split: option.splits if_splits)
  qed (use that in \<open>auto simp: looked_def un split: option.splits if_splits\<close>)
  have move: "ledger_move ops atts m s = (ph(i := fst (request_move ops c p mv (ph i) d)), snd (request_move ops c p mv (ph i) d))"
    by (simp add: ledger_move_def e case_prod_beta)
  note idle = consistent_phase [OF s', of i]
  show ?thesis
  proof (cases mv)
    case (MClaim r now)
    then show ?thesis using claim [of r now] stay by (simp add: move request_move_def)
  next
    case MClaimFails
    then show ?thesis using idle [of Unclaimed] stay by (simp add: move request_move_def un)
  next
    case (MClaimUnheard r now)
    then show ?thesis using claim [of r now] stay by (simp add: move request_move_def)
  next
    case MLook
    then show ?thesis using look stay by (simp add: move request_move_def)
  next
    case MLookFails
    then show ?thesis using idle [of Unclaimed] stay by (simp add: move request_move_def un)
  next
    case (MHandle st b)
    then show ?thesis using idle [of "Ran st b"] idle [of "Passed st b"] stay by (simp add: move request_move_def un)
  next
    case MBreak
    then show ?thesis using idle [of Lost] stay by (cases "ph i") (simp_all add: move request_move_def un)
  next
    case MFinish
    then show ?thesis using consistent_finish [OF s' _ e(3)] stay by (cases "ph i") (simp_all add: move request_move_def)
  next
    case MFinishFails
    have "consistent atts (ph(i := finished st b False), d)" if "ph i = Ran st b" for st b
      using idle [of "finished st b False"] that by (cases "success st") (simp_all add: un finished_def)
    with MFinishFails show ?thesis using stay by (cases "ph i") (simp_all add: move request_move_def)
  qed
qed

lemma run_consistent:
  assumes "ok d" "\<And>c. view d c = None"
  shows "consistent atts (ledger_run ops atts ms d)"
proof -
  have "consistent atts s \<Longrightarrow> consistent atts (fold (ledger_move ops atts) ms s)" for s
    by (induction ms arbitrary: s) (simp_all add: move_consistent)
  then show ?thesis using assms by (simp add: ledger_run_def consistent_def)
qed

lemma holders_unique:
  assumes "ok d" "\<And>c. view d c = None" "fst (atts i) = fst (atts j)"
    and "holding (fst (ledger_run ops atts ms d) i)" "holding (fst (ledger_run ops atts ms d) j)"
  shows "i = j"
  using run_consistent [OF assms(1,2), of atts ms] assms(3-) by (auto simp: consistent_def alone_def)

lemma replay_is_genuine:
  assumes "ok d" "\<And>c. view d c = None" "fst (ledger_run ops atts ms d) i = Replayed st t"
  shows "served store atts (fst (ledger_run ops atts ms d)) (fst (atts i)) (snd (atts i)) st t"
  using run_consistent [OF assms(1,2), of atts ms] assms(3) by (simp add: consistent_def)

end

section \<open>The two tables\<close>

lemma lookup_key_delete:
  assumes "distinct (map key t)" "lookup_key key k t = Some r" "P r"
  shows "lookup_key key k' (delete_where (\<lambda>r. key r = k \<and> P r) t) = (if k' = k then None else lookup_key key k' t)"
proof (cases "k' = k")
  case True
  have "x = r" if "x \<in> set t" "key x = k" for x
    using key_unique [OF assms(1) that(1), of r] that(2) lookup_key_Some [OF assms(2)] by simp
  then have "k \<notin> key ` set (delete_where (\<lambda>r. key r = k \<and> P r) t)"
    using assms(3) unfolding delete_where_def by auto
  then show ?thesis using True by (simp add: lookup_key_None)
next
  case False
  then show ?thesis by (induction t) (auto simp: delete_where_def)
qed

text \<open>What a table shows under each key, after the three kinds of statement.\<close>

lemma shown_insert:
  assumes "lookup_key key c t = None" "key x = c"
  shows "(\<lambda>k. map_option out (lookup_key key k (t @ [x]))) = (\<lambda>k. map_option out (lookup_key key k t))(c \<mapsto> out x)"
  using assms by (auto simp: fun_eq_iff lookup_key_append split: option.split)

lemma shown_update:
  assumes "lookup_key key c t = Some r" "\<And>r. key (f r) = key r"
  shows "(\<lambda>k. map_option out (lookup_key key k (update_where (\<lambda>r. key r = c) f t)))
     = (\<lambda>k. map_option out (lookup_key key k t))(c \<mapsto> out (f r))"
  using assms lookup_key_Some [of key c t r]
  by (auto simp: fun_eq_iff lookup_key_update option.map_comp dest!: lookup_key_Some intro!: option.map_cong)

lemma shown_delete:
  assumes "distinct (map key t)" "lookup_key key c t = Some r" "P r"
  shows "(\<lambda>k. map_option out (lookup_key key k (delete_where (\<lambda>r. key r = c \<and> P r) t)))
     = (\<lambda>k. map_option out (lookup_key key k t))(c := None)"
  by (simp add: fun_eq_iff lookup_key_delete [OF assms(1,2), of P, OF assms(3)])

definition key_of_row :: "key_row \<Rightarrow> ledger_key" where
  "key_of_row r = (kr_workspace r, kr_endpoint r, kr_key r)"

definition key_of_user_row :: "user_key_row \<Rightarrow> ledger_key" where
  "key_of_user_row r = (uk_user r, uk_endpoint r, uk_key r)"

definition keys_ok :: "'x ledger_db_scheme \<Rightarrow> bool" where
  "keys_ok d \<longleftrightarrow> distinct (map key_of_row (id_keys d))"

definition user_keys_ok :: "'x ledger_db_scheme \<Rightarrow> bool" where
  "user_keys_ok d \<longleftrightarrow> distinct (map key_of_user_row (id_user_keys d))"

lemma claims_are_keys:
  "of_claim c = (\<lambda>r. key_of_row r = c)" "of_user_claim c = (\<lambda>r. key_of_user_row r = c)"
  by (auto simp: of_claim_def of_user_claim_def key_of_row_def key_of_user_row_def fun_eq_iff)

lemma found_is_looked_up: "find (\<lambda>r. key r = k) t = lookup_key key k t"
  by (simp add: lookup_key_def)

lemma absent_key: "\<not> list_ex (\<lambda>r. key r = k) t \<longleftrightarrow> lookup_key key k t = None"
  by (auto simp: list_ex_iff lookup_key_None)

lemma still_distinct:
  "distinct (map key t) \<Longrightarrow> distinct (map key (delete_where P t))"
  "distinct (map key t) \<Longrightarrow> lookup_key key (key x) t = None \<Longrightarrow> distinct (map key (t @ [x]))"
  by (simp_all add: delete_where_def distinct_map_filter lookup_key_None)

lemmas ledger_laws = shown_insert shown_update shown_delete claims_are_keys found_is_looked_up absent_key still_distinct

definition row_out :: "key_row \<Rightarrow> string \<times> (int \<times> string) option" where
  "row_out r = (kr_print r, stored_response (kr_status r) (kr_body r))"

definition user_row_out :: "user_key_row \<Rightarrow> string \<times> (int \<times> string) option" where
  "user_row_out r = (uk_print r, stored_response (uk_status r) (uk_body r))"

lemma selects:
  "select_claim c d = map_option row_out (lookup_key key_of_row c (id_keys d))"
  "select_user_claim c d = map_option user_row_out (lookup_key key_of_user_row c (id_user_keys d))"
  by (simp_all add: select_claim_def select_user_claim_def claims_are_keys found_is_looked_up row_out_def [abs_def] user_row_out_def [abs_def])

lemma status_of_row: "row_out r = (p, None) \<Longrightarrow> kr_status r = None" "user_row_out u = (p, None) \<Longrightarrow> uk_status u = None"
  by (auto simp: row_out_def user_row_out_def stored_response_def split: option.splits)

interpretation wl: claim_ledger "workspace_ledger jt" keys_ok "\<lambda>d c. select_claim c d" "stored_body jt" for jt
proof unfold_locales
  fix d d' :: "'a ledger_db_scheme" and i now c p s b r
  show "keys_ok d \<Longrightarrow> lo_insert (workspace_ledger jt) i now c p d = Some (True, d') \<Longrightarrow>
      keys_ok d' \<and> select_claim c d = None \<and> (\<lambda>c. select_claim c d') = (\<lambda>c. select_claim c d)(c \<mapsto> (p, None))"
  proof -
    assume d: "keys_ok d" and n: "lo_insert (workspace_ledger jt) i now c p d = Some (True, d')"
    obtain w e k where c: "c = (w, e, k)" by (cases c)
    let ?x = "\<lparr> kr_id = i, kr_workspace = w, kr_key = k, kr_endpoint = e, kr_print = p, kr_status = None, kr_body = None,
        kr_expires = now + idempotency_window \<rparr>"
    have x: "key_of_row ?x = c" "row_out ?x = (p, None)" by (simp_all add: key_of_row_def row_out_def stored_response_def c)
    have "\<not> list_ex (of_claim c) (id_keys d)" and d': "d' = d\<lparr>id_keys := id_keys d @ [?x]\<rparr>"
      using n by (auto simp: c workspace_ledger_def insert_claim_def split: if_splits)
    then have f: "lookup_key key_of_row c (id_keys d) = None" by (simp add: claims_are_keys absent_key)
    then have "keys_ok d'" using d still_distinct(2) [of key_of_row "id_keys d" ?x] by (simp add: keys_ok_def d' x)
    with shown_insert [OF f x(1), of row_out] show ?thesis by (simp add: selects f d' x)
  qed
  show "keys_ok d \<Longrightarrow> lo_insert (workspace_ledger jt) i now c p d = Some (False, d') \<Longrightarrow> d' = d \<and> select_claim c d \<noteq> None"
    by (cases c) (auto simp: workspace_ledger_def insert_claim_def selects claims_are_keys absent_key [symmetric] split: if_splits)
  show "keys_ok d \<Longrightarrow> lo_select (workspace_ledger jt) c d = select_claim c d" by (simp add: workspace_ledger_def)
  show "keys_ok d \<Longrightarrow> select_claim c d = Some (p, r) \<Longrightarrow> lo_complete (workspace_ledger jt) c s b d = Some d' \<Longrightarrow>
      keys_ok d' \<and> (\<exists>t. stored_body jt b = Some t \<and> (\<lambda>c. select_claim c d') = (\<lambda>c. select_claim c d)(c \<mapsto> (p, Some (s, t))))"
    by (auto simp: workspace_ledger_def complete_claim_def keys_ok_def selects claims_are_keys key_of_row_def [abs_def]
        shown_update map_update_where row_out_def stored_response_def)
  show "keys_ok d \<Longrightarrow> select_claim c d = Some (p, None) \<Longrightarrow>
      keys_ok (lo_release (workspace_ledger jt) c d) \<and>
      (\<lambda>c'. select_claim c' (lo_release (workspace_ledger jt) c d)) = (\<lambda>c. select_claim c d)(c := None)"
    by (auto simp: workspace_ledger_def release_claim_def keys_ok_def selects claims_are_keys shown_delete still_distinct
        status_of_row)
qed

interpretation ul: claim_ledger "user_ledger jt" user_keys_ok "\<lambda>d c. select_user_claim c d" "stored_body jt" for jt
proof unfold_locales
  fix d d' :: "'a ledger_db_scheme" and i now c p s b r
  show "user_keys_ok d \<Longrightarrow> lo_insert (user_ledger jt) i now c p d = Some (True, d') \<Longrightarrow>
      user_keys_ok d' \<and> select_user_claim c d = None \<and> (\<lambda>c. select_user_claim c d') = (\<lambda>c. select_user_claim c d)(c \<mapsto> (p, None))"
  proof -
    assume d: "user_keys_ok d" and n: "lo_insert (user_ledger jt) i now c p d = Some (True, d')"
    obtain u e k where c: "c = (u, e, k)" by (cases c)
    let ?x = "\<lparr> uk_id = i, uk_user = u, uk_key = k, uk_endpoint = e, uk_print = p, uk_status = None, uk_body = None,
        uk_expires = now + idempotency_window \<rparr>"
    have x: "key_of_user_row ?x = c" "user_row_out ?x = (p, None)"
      by (simp_all add: key_of_user_row_def user_row_out_def stored_response_def c)
    have "\<not> list_ex (of_user_claim c) (id_user_keys d)" and d': "d' = d\<lparr>id_user_keys := id_user_keys d @ [?x]\<rparr>"
      using n by (auto simp: c user_ledger_def insert_user_claim_def split: if_splits)
    then have f: "lookup_key key_of_user_row c (id_user_keys d) = None" by (simp add: claims_are_keys absent_key)
    then have "user_keys_ok d'" using d still_distinct(2) [of key_of_user_row "id_user_keys d" ?x] by (simp add: user_keys_ok_def d' x)
    with shown_insert [OF f x(1), of user_row_out] show ?thesis by (simp add: selects f d' x)
  qed
  show "user_keys_ok d \<Longrightarrow> lo_insert (user_ledger jt) i now c p d = Some (False, d') \<Longrightarrow> d' = d \<and> select_user_claim c d \<noteq> None"
    by (cases c) (auto simp: user_ledger_def insert_user_claim_def selects claims_are_keys absent_key [symmetric] split: if_splits)
  show "user_keys_ok d \<Longrightarrow> lo_select (user_ledger jt) c d = select_user_claim c d" by (simp add: user_ledger_def)
  show "user_keys_ok d \<Longrightarrow> select_user_claim c d = Some (p, r) \<Longrightarrow> lo_complete (user_ledger jt) c s b d = Some d' \<Longrightarrow>
      user_keys_ok d' \<and> (\<exists>t. stored_body jt b = Some t \<and> (\<lambda>c. select_user_claim c d') = (\<lambda>c. select_user_claim c d)(c \<mapsto> (p, Some (s, t))))"
    by (auto simp: user_ledger_def complete_user_claim_def user_keys_ok_def selects claims_are_keys key_of_user_row_def [abs_def]
        shown_update map_update_where user_row_out_def stored_response_def)
  show "user_keys_ok d \<Longrightarrow> select_user_claim c d = Some (p, None) \<Longrightarrow>
      user_keys_ok (lo_release (user_ledger jt) c d) \<and>
      (\<lambda>c'. select_user_claim c' (lo_release (user_ledger jt) c d)) = (\<lambda>c. select_user_claim c d)(c := None)"
    by (auto simp: user_ledger_def release_user_claim_def user_keys_ok_def selects claims_are_keys shown_delete still_distinct
        status_of_row)
qed

section \<open>The requests\<close>

lemma empty_ledgers:
  "id_keys d = [] \<Longrightarrow> keys_ok d" "id_keys d = [] \<Longrightarrow> select_claim c d = None"
  "id_user_keys d = [] \<Longrightarrow> user_keys_ok d" "id_user_keys d = [] \<Longrightarrow> select_user_claim c d = None"
  by (simp_all add: keys_ok_def user_keys_ok_def select_claim_def select_user_claim_def)

lemma one_holder:
  assumes "id_keys d = []" "id_user_keys d = []" "ops = workspace_ledger jt \<or> ops = user_ledger jt" "fst (atts i) = fst (atts j)"
    and "holding (fst (ledger_run ops atts ms d) i)" "holding (fst (ledger_run ops atts ms d) j)"
  shows "i = j"
  using assms wl.holders_unique [of d atts i j jt ms] ul.holders_unique [of d atts i j jt ms] empty_ledgers [of d] by metis

text \<open>
  C34: one attempt per key.  Of all the requests with the same owner, endpoint and key, in every interleaving
  of their statements and whatever statement fails or is not heard of, at most one has its
  handler at work under a claim or has seen it succeed under one.
\<close>

theorem handler_succeeds_once:
  assumes "id_keys d = []" and "id_user_keys d = []" and "ops = workspace_ledger jt \<or> ops = user_ledger jt"
    and "fst (atts i) = fst (atts j)"
    and "at_work (fst (ledger_run ops atts ms d) i) \<or> succeeded (fst (ledger_run ops atts ms d) i)"
    and "at_work (fst (ledger_run ops atts ms d) j) \<or> succeeded (fst (ledger_run ops atts ms d) j)"
  shows "i = j"
  using one_holder [OF assms(1-4)] assms(5,6) at_work_holds succeeded_holds by blast

text \<open>Three requests with one key; the first one fails and gives the key back.\<close>

definition demo_ledger :: ledger_db where
  "demo_ledger = \<lparr> id_workspaces = [''w''], id_users = [''u''], id_keys = [], id_user_keys = [] \<rparr>"

definition demo_json :: json_text where
  "demo_json = \<lparr> jt_valid = (\<lambda>s. s \<noteq> ''''), jt_jsonb = Some \<rparr>"

definition demo_attempts :: "nat \<Rightarrow> ledger_key \<times> string" where
  "demo_attempts n = ((''w'', ''POST /tickets'', ''k''), ''print'')"

definition demo_moves :: "(nat \<times> move) list" where
  "demo_moves = [(0, MClaim ''a'' 1), (1, MClaim ''b'' 1), (1, MLook), (0, MHandle 500 ''e''), (0, MFinish),
     (2, MClaim ''c'' 2), (2, MHandle 201 ''ok''), (2, MFinish), (3, MClaim ''d'' 3), (3, MLook)]"

lemmas ledger_eval = ledger_run_def ledger_move_def request_move_def claimed_def completed_def looked_def finished_def success_def
  workspace_ledger_def insert_claim_def select_claim_def complete_claim_def release_claim_def of_claim_def stored_response_def
  stored_body_def update_where_def delete_where_def demo_ledger_def demo_json_def demo_attempts_def demo_moves_def

theorem handler_succeeds_once_witness:
  "let ph = fst (ledger_run (workspace_ledger demo_json) demo_attempts demo_moves demo_ledger)
   in map ph [0, 1, 2, 3] = [Served 500 ''e'', Busy, Served 201 ''ok'', Replayed 201 ''ok''] \<and>
      filter (\<lambda>i. at_work (ph i) \<or> succeeded (ph i)) [0, 1, 2, 3] = [2]"
proof -
  let ?ph = "fst (ledger_run (workspace_ledger demo_json) demo_attempts demo_moves demo_ledger)"
  have m: "map ?ph [0, 1, 2, 3] = [Served 500 ''e'', Busy, Served 201 ''ok'', Replayed 201 ''ok'']"
    by (simp add: ledger_eval)
  have s: "succeeded (?ph 2)" using m by (simp add: success_def)
  have "i = 2" if "at_work (?ph i) \<or> succeeded (?ph i)" for i
    using handler_succeeds_once [of demo_ledger "workspace_ledger demo_json" demo_json demo_attempts i 2 demo_moves] that s
    by (simp add: demo_ledger_def demo_attempts_def)
  then have "filter (\<lambda>i. at_work (?ph i) \<or> succeeded (?ph i)) [0, 1, 2, 3] = filter (\<lambda>i. i = 2) [0, 1, 2, 3]"
    using s by (intro filter_cong) auto
  with m show ?thesis by (simp add: Let_def)
qed

text \<open>
  C35: replays are genuine.  A request that is answered from the ledger gets the status and the stored form of
  the body that another request with the same owner, endpoint, key and fingerprint was served
  with after its handler had succeeded.
\<close>

theorem replays_are_genuine:
  assumes "id_keys d = []" and "fst (ledger_run (workspace_ledger jt) atts ms d) i = Replayed st t"
  shows "\<exists>j b. j \<noteq> i \<and> atts j = atts i \<and> fst (ledger_run (workspace_ledger jt) atts ms d) j = Served st b \<and> success st \<and> stored_body jt b = Some t"
proof -
  from wl.replay_is_genuine [OF empty_ledgers(1) [OF assms(1)] empty_ledgers(2) [OF assms(1)] assms(2)]
  obtain j b where j: "atts j = atts i" "fst (ledger_run (workspace_ledger jt) atts ms d) j = Served st b" "success st"
      "stored_body jt b = Some t" by (auto simp: served_def)
  with assms(2) have "j \<noteq> i" by auto
  with j show ?thesis by blast
qed

theorem replays_are_genuine_witness:
  "let ph = fst (ledger_run (workspace_ledger demo_json) demo_attempts demo_moves demo_ledger)
   in ph 3 = Replayed 201 ''ok'' \<and> (\<exists>j b. j \<noteq> 3 \<and> ph j = Served 201 b \<and> stored_body demo_json b = Some ''ok'')"
proof -
  let ?ph = "fst (ledger_run (workspace_ledger demo_json) demo_attempts demo_moves demo_ledger)"
  have r: "?ph 3 = Replayed 201 ''ok''" by (simp add: ledger_eval)
  have "id_keys demo_ledger = []" by (simp add: demo_ledger_def)
  from replays_are_genuine [OF this r] r show ?thesis by (auto simp: Let_def)
qed

text \<open>
  Two ways past the claim.  A request that loses the race for the INSERT and looks only after
  the winner has failed and released the key finds nothing, which the middleware takes for a
  failure of the ledger: its handler runs without a claim, beside that of a request that has
  one.  And a request that breaks off (a handler that panics) keeps its key for ever.
\<close>

lemma lost_race_runs_unclaimed:
  "let ph = fst (ledger_run (workspace_ledger demo_json) demo_attempts
       [(0, MClaim ''a'' 1), (1, MClaim ''b'' 1), (0, MHandle 500 ''e''), (0, MFinish), (1, MLook), (2, MClaim ''c'' 2),
        (1, MHandle 201 ''x''), (2, MHandle 201 ''y''), (2, MFinish)] demo_ledger)
   in ph 1 = Passed 201 ''x'' \<and> ph 2 = Served 201 ''y''"
  by (simp add: ledger_eval)

lemma broken_request_blocks_key:
  assumes "id_keys d = []" "id_user_keys d = []" "ops = workspace_ledger jt \<or> ops = user_ledger jt" "fst (atts i) = fst (atts j)"
    and "fst (ledger_run ops atts ms d) i = Lost" "j \<noteq> i"
  shows "\<not> at_work (fst (ledger_run ops atts ms d) j) \<and> \<not> succeeded (fst (ledger_run ops atts ms d) j)"
  using one_holder [OF assms(1-4)] assms(5,6) at_work_holds succeeded_holds by (metis holding.simps(3))

end
