(* ===== verification/WebhookTransport.thy ===== *)
theory WebhookTransport
  imports Encodings
begin

unbundle bit_operations_syntax

text \<open>
  How a webhook leaves the deployment (src/internal/webhook/network.go and signature.go): the
  guard against destinations inside the private network, and the signature of a request.
  Name resolution, the connection itself, the parsers of net/url and HMAC-SHA256 are
  arguments; the address predicates of net/netip are modelled on words.
\<close>

section \<open>Addresses\<close>

text \<open>netip.Addr: IPv4, IPv6 with its zone, or the zero value.\<close>

datatype ip = V4 "32 word" | V6 "128 word" string | NoIP

definition v4_byte :: "nat \<Rightarrow> 32 word \<Rightarrow> 8 word" where
  "v4_byte i a = ucast (drop_bit (8 * (3 - i)) a)"

definition v6_byte :: "nat \<Rightarrow> 128 word \<Rightarrow> 8 word" where
  "v6_byte i a = ucast (drop_bit (8 * (15 - i)) a)"

definition v6_pair :: "nat \<Rightarrow> 128 word \<Rightarrow> 16 word" where
  "v6_pair i a = ucast (drop_bit (16 * (7 - i)) a)"

definition unmap :: "ip \<Rightarrow> ip" where
  "unmap ip = (case ip of V6 a z \<Rightarrow> if drop_bit 32 a = 0xffff then V4 (ucast a) else V6 a z | _ \<Rightarrow> ip)"

definition is_loopback :: "ip \<Rightarrow> bool" where
  "is_loopback ip = (case ip of V4 a \<Rightarrow> v4_byte 0 a = 127 | V6 a z \<Rightarrow> a = 1 | NoIP \<Rightarrow> False)"

definition is_multicast :: "ip \<Rightarrow> bool" where
  "is_multicast ip = (case ip of V4 a \<Rightarrow> v4_byte 0 a AND 0xf0 = 0xe0 | V6 a z \<Rightarrow> drop_bit 8 (v6_pair 0 a) = 0xff | NoIP \<Rightarrow> False)"

definition is_link_local :: "ip \<Rightarrow> bool" where
  "is_link_local ip = (case ip of V4 a \<Rightarrow> v4_byte 0 a = 169 \<and> v4_byte 1 a = 254
     | V6 a z \<Rightarrow> v6_pair 0 a AND 0xffc0 = 0xfe80 | NoIP \<Rightarrow> False)"

definition is_private :: "ip \<Rightarrow> bool" where
  "is_private ip = (case ip of
     V4 a \<Rightarrow> v4_byte 0 a = 10 \<or> v4_byte 0 a = 172 \<and> v4_byte 1 a AND 0xf0 = 16 \<or> v4_byte 0 a = 192 \<and> v4_byte 1 a = 168
   | V6 a z \<Rightarrow> v6_byte 0 a AND 0xfe = 0xfc | NoIP \<Rightarrow> False)"

definition is_global_unicast :: "ip \<Rightarrow> bool" where
  "is_global_unicast ip = (case ip of NoIP \<Rightarrow> False
     | V4 a \<Rightarrow> a \<noteq> 0 \<and> a \<noteq> 0xffffffff \<and> \<not> is_loopback ip \<and> \<not> is_multicast ip \<and> \<not> is_link_local ip
     | V6 a z \<Rightarrow> \<not> (a = 0 \<and> z = '''') \<and> \<not> is_loopback ip \<and> \<not> is_multicast ip \<and> \<not> is_link_local ip)"

definition quad :: "nat \<Rightarrow> nat \<Rightarrow> nat \<Rightarrow> nat \<Rightarrow> 32 word" where
  "quad a b c d = word_of_nat (((a * 256 + b) * 256 + c) * 256 + d)"

text \<open>netip.Prefix.Contains for an IPv4 prefix of \<open>n\<close> bits.\<close>

definition prefix_contains :: "32 word \<times> nat \<Rightarrow> ip \<Rightarrow> bool" where
  "prefix_contains p ip = (case ip of V4 a \<Rightarrow> drop_bit (32 - snd p) (a XOR fst p) = 0 | _ \<Rightarrow> False)"

definition blocked_prefixes :: "(32 word \<times> nat) list" where
  "blocked_prefixes = [(quad 0 0 0 0, 8), (quad 100 64 0 0, 10), (quad 192 0 0 0, 24), (quad 198 18 0 0, 15), (quad 240 0 0 0, 4)]"

definition restricted_ip :: "ip \<Rightarrow> bool" where
  "restricted_ip addr = (let ip = unmap addr in
     ip = NoIP \<or> \<not> is_global_unicast ip \<or> is_private ip \<or> is_loopback ip \<or> is_link_local ip
     \<or> list_ex (\<lambda>p. prefix_contains p ip) blocked_prefixes)"

section \<open>The checked dial\<close>

definition allowed_host :: "string \<Rightarrow> string option" where
  "allowed_host raw = (let h = to_lower (trim_space raw) in
     if h \<noteq> '''' \<and> \<not> list_ex (\<lambda>c. c \<in> {CHR ''/'', CHR ''*'', CHR ''@''}) h then Some h else None)"

definition network_policy :: "string list \<Rightarrow> string list" where
  "network_policy hosts = List.map_filter allowed_host hosts"

text \<open>net.SplitHostPort: the host is what is before the last colon, without its brackets.\<close>

definition last_colon :: "string \<Rightarrow> nat option" where
  "last_colon s = (if CHR '':'' \<in> set s then Some (length s - 1 - length (takeWhile (\<lambda>c. c \<noteq> CHR '':'') (rev s))) else None)"

definition split_host_port :: "string \<Rightarrow> (string \<times> string) option" where
  "split_host_port s = (case last_colon s of None \<Rightarrow> None | Some i \<Rightarrow>
     if hd s = CHR ''['' then
       (if CHR '']'' \<notin> set s then None
        else let e = length (takeWhile (\<lambda>c. c \<noteq> CHR '']'') s) in
          if e + 1 \<noteq> i then None
          else if CHR ''['' \<in> set (drop 1 s) \<or> CHR '']'' \<in> set (drop (e + 1) s) then None
          else Some (take (e - 1) (drop 1 s), drop (i + 1) s))
     else if CHR '':'' \<in> set (take i s) \<or> CHR ''['' \<in> set s \<or> CHR '']'' \<in> set s then None
     else Some (take i s, drop (i + 1) s))"

datatype dial_error = BadAddress | LookupFailed | NoAddresses | BlockedByPolicy | DialFailed

fun connect_first :: "(ip \<Rightarrow> string \<Rightarrow> 'c option) \<Rightarrow> string \<Rightarrow> ip list \<Rightarrow> (ip \<times> 'c) option" where
  "connect_first connect port [] = None"
| "connect_first connect port (a # as) =
     (case connect a port of Some c \<Rightarrow> Some (a, c) | None \<Rightarrow> connect_first connect port as)"

definition dial :: "string list \<Rightarrow> (string \<Rightarrow> ip list option) \<Rightarrow> (ip \<Rightarrow> string \<Rightarrow> 'c option) \<Rightarrow> string \<Rightarrow> dial_error + ip \<times> 'c" where
  "dial exempt lookup connect address = (case split_host_port address of None \<Rightarrow> Inl BadAddress
     | Some (h, port) \<Rightarrow> let host = to_lower h in
       (case lookup host of None \<Rightarrow> Inl LookupFailed
        | Some ips \<Rightarrow>
            if ips = [] then Inl NoAddresses
            else if list_ex restricted_ip ips \<and> host \<notin> set exempt then Inl BlockedByPolicy
            else (case connect_first connect port ips of None \<Rightarrow> Inl DialFailed | Some r \<Rightarrow> Inr r)))"

text \<open>
  Service.validateURL on what the parsers return: the normalized URL, its host name and
  fragment, and the address the host name is a literal of.
\<close>

definition validate_destination :: "string list \<Rightarrow> (string \<Rightarrow> string option) \<Rightarrow> (string \<Rightarrow> string \<times> string) \<Rightarrow> (string \<Rightarrow> ip option)
    \<Rightarrow> string \<Rightarrow> string option" where
  "validate_destination exempt tidy parts literal raw = (case tidy raw of None \<Rightarrow> None
     | Some url \<Rightarrow> (case parts url of (h, fragment) \<Rightarrow> let host = to_lower h in
         if (host \<noteq> '''' \<and> last host = CHR ''.'') \<or> fragment \<noteq> '''' then None
         else (case literal host of None \<Rightarrow> Some url
           | Some ip \<Rightarrow> if restricted_ip ip \<and> host \<notin> set exempt then None else Some url)))"

section \<open>Signatures\<close>

text \<open>\<open>mac\<close> is HMAC-SHA256; times are nanoseconds, a signature signs whole seconds.\<close>

definition signature_material :: "int \<Rightarrow> string \<Rightarrow> string" where
  "signature_material seconds payload = show_int seconds @ ''.'' @ payload"

definition signature :: "(string \<Rightarrow> string \<Rightarrow> string) \<Rightarrow> string \<Rightarrow> string \<Rightarrow> int \<Rightarrow> string" where
  "signature mac secret payload seconds = ''v1='' @ hex_encode (mac secret (signature_material seconds payload))"

text \<open>time.Unix wraps the seconds since the year 1; Time.Sub stops at the ends of a Duration.\<close>

definition unix_to_internal :: int where "unix_to_internal = 62135596800"

definition unix_time :: "int \<Rightarrow> int" where
  "unix_time seconds = (sint (word_of_int (seconds + unix_to_internal) :: 64 word) - unix_to_internal) * 1000000000"

definition time_sub :: "int \<Rightarrow> int \<Rightarrow> int" where
  "time_sub t u = max (- (2 ^ 63)) (min (2 ^ 63 - 1) (t - u))"

datatype verdict = Accepted | InvalidSignature | StaleSignature

definition verify :: "(string \<Rightarrow> string \<Rightarrow> string) \<Rightarrow> string \<Rightarrow> string \<Rightarrow> string \<Rightarrow> string \<Rightarrow> int \<Rightarrow> int \<Rightarrow> verdict" where
  "verify mac secret payload timestamp given now tolerance = (case parse_int64 (trim_space timestamp) of
     None \<Rightarrow> InvalidSignature
   | Some seconds \<Rightarrow>
       if tolerance < 0 then InvalidSignature
       else let delta = time_sub now (unix_time seconds) in
         if delta < - tolerance \<or> delta > tolerance then StaleSignature
         else if signature mac secret payload seconds \<noteq> trim_space given then InvalidSignature
         else Accepted)"

end
