(* ===== verification/TransportSafety.thy ===== *)
theory TransportSafety
  imports WebhookTransport
begin

unbundle bit_operations_syntax

text \<open>
  Properties of the webhook transport: the guard compared with a table of address prefixes, the
  dial that cannot reach a guarded address, and the signature that only its own payload and
  timestamp verify.
\<close>

section \<open>The ranges\<close>

text \<open>
  The reserved ranges as prefixes, for the comparison with the guard: IPv4 and IPv6.
\<close>

definition covers :: "'a::len word \<Rightarrow> 'a word \<times> nat \<Rightarrow> bool" where
  "covers a p \<longleftrightarrow> drop_bit (LENGTH('a) - snd p) a = drop_bit (LENGTH('a) - snd p) (fst p)"

definition reserved4 :: "(32 word \<times> nat) list" where
  "reserved4 = [(quad 0 0 0 0, 8), (quad 10 0 0 0, 8), (quad 100 64 0 0, 10), (quad 127 0 0 0, 8), (quad 169 254 0 0, 16),
     (quad 172 16 0 0, 12), (quad 192 0 0 0, 24), (quad 192 168 0 0, 16), (quad 198 18 0 0, 15), (quad 224 0 0 0, 4),
     (quad 240 0 0 0, 4)]"

text \<open>The loopback address, fc00::/7, fe80::/10 and ff00::/8.\<close>

definition reserved6 :: "(128 word \<times> nat) list" where
  "reserved6 = [(1, 128), (push_bit 120 0xfc, 7), (push_bit 112 0xfe80, 10), (push_bit 120 0xff, 8)]"

lemma masked_eq:
  fixes x y :: "'a::len word"
  assumes "y AND NOT (mask k) = y"
  shows "x AND NOT (mask k) = y \<longleftrightarrow> drop_bit k x = drop_bit k y"
proof
  assume "x AND NOT (mask k) = y"
  then have "drop_bit k (x AND NOT (mask k)) = drop_bit k y" by simp
  moreover have "drop_bit k (x AND NOT (mask k)) = drop_bit k x"
    by (rule bit_word_eqI) (auto simp: bit_simps dest: bit_imp_le_length)
  ultimately show "drop_bit k x = drop_bit k y" by simp
next
  assume e: "drop_bit k x = drop_bit k y"
  have "bit x n = bit y n" if "k \<le> n" for n
    using arg_cong [OF e, of "\<lambda>w. bit w (n - k)"] that by (simp add: bit_simps)
  then have "x AND NOT (mask k) = y AND NOT (mask k)"
    by (intro bit_word_eqI) (auto simp: bit_simps)
  with assms show "x AND NOT (mask k) = y" by simp
qed

lemma masks:
  "(0xf0 :: 8 word) = NOT (mask 4)" "(0xfe :: 8 word) = NOT (mask 1)" "(0xffc0 :: 16 word) = NOT (mask 6)"
  by code_simp+

lemma word_eq_unat: "(x :: 'a::len word) = y \<longleftrightarrow> unat x = unat y"
  by (simp add: word_unat_eq_iff)

lemma unat_drop: "unat (drop_bit k x) = unat x div 2 ^ k"
  by (simp add: unat_drop_bit_eq drop_bit_eq_div [of k "unat x"])

lemma unat_parts:
  "unat (v4_byte 0 a) = unat a div 2 ^ 24" "unat (v4_byte 1 a) = unat a div 2 ^ 16 mod 2 ^ 8"
  "unat (v6_byte 0 e) = unat e div 2 ^ 120" "unat (v6_pair 0 e) = unat e div 2 ^ 112"
proof -
  have "unat a < 2 ^ 32" "unat e < 2 ^ 128" using unsigned_less [of a, where 'a = nat] unsigned_less [of e, where 'a = nat] by simp_all
  then show "unat (v4_byte 0 a) = unat a div 2 ^ 24" "unat (v4_byte 1 a) = unat a div 2 ^ 16 mod 2 ^ 8"
    "unat (v6_byte 0 e) = unat e div 2 ^ 120" "unat (v6_pair 0 e) = unat e div 2 ^ 112"
    by (simp_all add: v4_byte_def v6_byte_def v6_pair_def unsigned_ucast_eq unat_drop take_bit_eq_mod less_mult_imp_div_less)
qed

lemma top_bits:
  "drop_bit k x = (drop_bit k y :: 'a::len word) \<longleftrightarrow> unat x div 2 ^ k = unat y div 2 ^ k"
  by (simp add: word_eq_unat unat_drop)

lemma byte_tests:
  "v4_byte i a AND 0xf0 = 0xe0 \<longleftrightarrow> unat (v4_byte i a) div 16 = 14"
  "v4_byte i a AND 0xf0 = 16 \<longleftrightarrow> unat (v4_byte i a) div 16 = 1"
  "v6_byte i e AND 0xfe = 0xfc \<longleftrightarrow> unat (v6_byte i e) div 2 = 126"
  "v6_pair i e AND 0xffc0 = 0xfe80 \<longleftrightarrow> unat (v6_pair i e) div 64 = 1018"
  "drop_bit 8 (v6_pair i e) = 0xff \<longleftrightarrow> unat (v6_pair i e) div 256 = 255"
proof -
  have m: "(0xe0 :: 8 word) AND NOT (mask 4) = 0xe0" "(16 :: 8 word) AND NOT (mask 4) = 16"
    "(0xfc :: 8 word) AND NOT (mask 1) = 0xfc" "(0xfe80 :: 16 word) AND NOT (mask 6) = 0xfe80"
    by code_simp+
  show "v4_byte i a AND 0xf0 = 0xe0 \<longleftrightarrow> unat (v4_byte i a) div 16 = 14"
    "v4_byte i a AND 0xf0 = 16 \<longleftrightarrow> unat (v4_byte i a) div 16 = 1"
    "v6_byte i e AND 0xfe = 0xfc \<longleftrightarrow> unat (v6_byte i e) div 2 = 126"
    "v6_pair i e AND 0xffc0 = 0xfe80 \<longleftrightarrow> unat (v6_pair i e) div 64 = 1018"
    unfolding masks masked_eq [OF m(1)] masked_eq [OF m(2)] masked_eq [OF m(3)] masked_eq [OF m(4)] top_bits by simp_all
  show "drop_bit 8 (v6_pair i e) = 0xff \<longleftrightarrow> unat (v6_pair i e) div 256 = 255"
    by (simp add: word_eq_unat unat_drop)
qed

lemma covers_unat: "covers a (p, n) \<longleftrightarrow> unat a div 2 ^ (LENGTH('a::len) - n) = unat (p :: 'a word) div 2 ^ (LENGTH('a) - n)"
  by (simp add: covers_def top_bits)

lemma prefix_covers: "prefix_contains p (V4 a) \<longleftrightarrow> covers a p"
proof -
  have "drop_bit k (a XOR q) = 0 \<longleftrightarrow> drop_bit k a = drop_bit k q" for k and q :: "32 word"
  proof -
    have "drop_bit k (a XOR q) = drop_bit k a XOR drop_bit k q" by (rule bit_word_eqI) (simp add: bit_simps)
    then show ?thesis by (auto simp: bit_eq_iff [of _ 0] bit_eq_iff [of "drop_bit k a"] bit_simps)
  qed
  then show ?thesis by (simp add: prefix_contains_def covers_def)
qed

lemma quads [simp]:
  "unat (quad 0 0 0 0) = 0" "unat (quad 10 0 0 0) = 167772160" "unat (quad 100 64 0 0) = 1681915904"
  "unat (quad 127 0 0 0) = 2130706432" "unat (quad 169 254 0 0) = 2851995648" "unat (quad 172 16 0 0) = 2886729728"
  "unat (quad 192 0 0 0) = 3221225472" "unat (quad 192 168 0 0) = 3232235520" "unat (quad 198 18 0 0) = 3323068416"
  "unat (quad 224 0 0 0) = 3758096384" "unat (quad 240 0 0 0) = 4026531840"
  by (simp_all add: quad_def)

lemma restricted_v4: "restricted_ip (V4 a) \<longleftrightarrow> list_ex (covers a) reserved4"
proof -
  let ?n = "unat a"
  have z: "a = 0 \<Longrightarrow> ?n div 2 ^ 24 = 0" "a = 0xffffffff \<Longrightarrow> ?n div 2 ^ 28 = 15" by simp_all
  have m: "?n div 16777216 = ?n div 65536 div 256" "?n div 1048576 = ?n div 65536 div 16" "?n div 268435456 = ?n div 65536 div 4096"
    by (simp_all flip: div_mult2_eq)
  have split: "q div k = x \<and> q mod k = y \<longleftrightarrow> q = k * x + y" if "y < k" for q k x y :: nat
    using that div_mult_mod_eq [of q k] by (auto simp: mult.commute)
  have "q mod 256 div 16 = q div 16 mod 16" for q :: nat
    using mod_mult2_eq [of q 16 16] by simp
  then have r: "q div 256 = 172 \<and> q mod 256 div 16 = 1 \<longleftrightarrow> q div 16 = 2753" "q div 256 = 192 \<and> q mod 256 = 168 \<longleftrightarrow> q = 49320"
    "q div 256 = 169 \<and> q mod 256 = 254 \<longleftrightarrow> q = 43518" "q div 256 div 16 = q div 4096" for q :: nat
    using split [of 1 16 "q div 16" 172] split [of 168 256 q 192] split [of 254 256 q 169] by (simp_all flip: div_mult2_eq)
  have loop: "is_loopback (V4 a) \<longleftrightarrow> ?n div 2 ^ 24 = 127"
    by (simp add: is_loopback_def word_eq_unat unat_parts)
  have multi: "is_multicast (V4 a) \<longleftrightarrow> ?n div 2 ^ 28 = 14"
    unfolding is_multicast_def ip.case byte_tests unat_parts by (simp add: m(1,3) r(4))
  have link: "is_link_local (V4 a) \<longleftrightarrow> ?n div 2 ^ 16 = 43518"
    unfolding is_link_local_def ip.case word_eq_unat unat_parts using r(3) [of "?n div 65536"] by (simp add: m(1))
  have priv: "is_private (V4 a) \<longleftrightarrow> ?n div 2 ^ 24 = 10 \<or> ?n div 2 ^ 20 = 2753 \<or> ?n div 2 ^ 16 = 49320"
    unfolding is_private_def ip.case byte_tests unfolding word_eq_unat unat_parts
    using r(1,2) [of "?n div 65536"] by (simp add: m(1,2))
  have block: "list_ex (\<lambda>p. prefix_contains p (V4 a)) blocked_prefixes \<longleftrightarrow> ?n div 2 ^ 24 = 0 \<or> ?n div 2 ^ 22 = 401
      \<or> ?n div 2 ^ 8 = 12582912 \<or> ?n div 2 ^ 17 = 25353 \<or> ?n div 2 ^ 28 = 15"
    by (simp add: blocked_prefixes_def prefix_covers covers_unat)
  have all: "list_ex (covers a) reserved4 \<longleftrightarrow> ?n div 2 ^ 24 = 0 \<or> ?n div 2 ^ 24 = 10 \<or> ?n div 2 ^ 22 = 401
      \<or> ?n div 2 ^ 24 = 127 \<or> ?n div 2 ^ 16 = 43518 \<or> ?n div 2 ^ 20 = 2753 \<or> ?n div 2 ^ 8 = 12582912
      \<or> ?n div 2 ^ 16 = 49320 \<or> ?n div 2 ^ 17 = 25353 \<or> ?n div 2 ^ 28 = 14 \<or> ?n div 2 ^ 28 = 15"
    by (simp add: reserved4_def covers_unat)
  have "restricted_ip (V4 a) \<longleftrightarrow> \<not> is_global_unicast (V4 a) \<or> is_private (V4 a) \<or> is_loopback (V4 a) \<or> is_link_local (V4 a)
      \<or> list_ex (\<lambda>p. prefix_contains p (V4 a)) blocked_prefixes"
    by (simp add: restricted_ip_def unmap_def Let_def)
  then show ?thesis
    unfolding is_global_unicast_def ip.case loop multi link priv block all using z by argo
qed

lemma restricted_v6:
  assumes "drop_bit 32 a \<noteq> 0xffff"
  shows "restricted_ip (V6 a z) \<longleftrightarrow> a = 0 \<and> z = [] \<or> list_ex (covers a) reserved6"
proof -
  let ?n = "unat a"
  have m: "?n div 2 ^ 112 div 64 = ?n div 2 ^ 118" "?n div 2 ^ 112 div 256 = ?n div 2 ^ 120" "?n div 2 ^ 120 div 2 = ?n div 2 ^ 121"
    by (simp_all flip: div_mult2_eq)
  have link: "is_link_local (V6 a z) \<longleftrightarrow> ?n div 2 ^ 118 = 1018"
    unfolding is_link_local_def ip.case byte_tests unat_parts m ..
  have multi: "is_multicast (V6 a z) \<longleftrightarrow> ?n div 2 ^ 120 = 255"
    unfolding is_multicast_def ip.case byte_tests unat_parts m ..
  have priv: "is_private (V6 a z) \<longleftrightarrow> ?n div 2 ^ 121 = 126"
    unfolding is_private_def ip.case byte_tests unat_parts m ..
  have u: "unat (push_bit 120 (0xfc :: 128 word)) div 2 ^ 121 = 126" "unat (push_bit 112 (0xfe80 :: 128 word)) div 2 ^ 118 = 1018"
    "unat (push_bit 120 (0xff :: 128 word)) div 2 ^ 120 = 255"
    by (simp_all add: push_bit_eq_mult)
  have one: "covers a (1, 128) \<longleftrightarrow> a = 1" by (simp add: covers_def)
  have c: "covers a (p, 7) \<longleftrightarrow> ?n div 2 ^ 121 = unat p div 2 ^ 121" "covers a (p, 10) \<longleftrightarrow> ?n div 2 ^ 118 = unat p div 2 ^ 118"
    "covers a (p, 8) \<longleftrightarrow> ?n div 2 ^ 120 = unat p div 2 ^ 120" for p
    by (simp_all add: covers_def top_bits)
  have all: "list_ex (covers a) reserved6 \<longleftrightarrow> a = 1 \<or> ?n div 2 ^ 121 = 126 \<or> ?n div 2 ^ 118 = 1018 \<or> ?n div 2 ^ 120 = 255"
    unfolding reserved6_def list_ex_Nil_iff list_ex_Cons_iff one c u by (simp only: disj_assoc simp_thms)
  have "restricted_ip (V6 a z) \<longleftrightarrow> \<not> is_global_unicast (V6 a z) \<or> is_private (V6 a z) \<or> is_loopback (V6 a z) \<or> is_link_local (V6 a z)"
    using assms by (simp add: restricted_ip_def unmap_def Let_def prefix_contains_def blocked_prefixes_def)
  then show ?thesis
    unfolding is_global_unicast_def is_loopback_def ip.case link multi priv all by argo
qed

text \<open>What the guard is meant to refuse.\<close>

definition inside :: "ip \<Rightarrow> bool" where
  "inside ip = (case ip of NoIP \<Rightarrow> True
     | V4 a \<Rightarrow> list_ex (covers a) reserved4
     | V6 a z \<Rightarrow> if drop_bit 32 a = 0xffff then list_ex (covers (ucast a)) reserved4
         else (a = 0 \<and> z = '''') \<or> list_ex (covers a) reserved6)"

lemma restricted_inside: "restricted_ip ip \<longleftrightarrow> inside ip"
proof (cases ip)
  case (V4 a)
  then show ?thesis by (simp add: inside_def restricted_v4)
next
  case (V6 a z)
  show ?thesis
  proof (cases "drop_bit 32 a = 0xffff")
    case True
    then have "restricted_ip (V6 a z) = restricted_ip (V4 (ucast a))" by (simp add: restricted_ip_def unmap_def)
    with V6 True show ?thesis by (simp add: inside_def restricted_v4)
  next
    case False
    with V6 show ?thesis by (simp add: inside_def restricted_v6)
  qed
next
  case NoIP
  then show ?thesis by (simp add: inside_def restricted_ip_def unmap_def)
qed

text \<open>
  C37: the guard covers the reserved ranges.  The chain of predicates of restrictedIP refuses exactly the
  addresses of eleven IPv4 prefixes, the same addresses mapped into IPv6, and the unspecified,
  loopback, unique-local, link-local and multicast addresses of IPv6.
\<close>

theorem guard_covers_reserved: "restricted_ip ip \<longleftrightarrow> inside ip"
  by (rule restricted_inside)

section \<open>The dial\<close>

lemma connect_first_only:
  "(\<And>a. a \<in> set as \<Longrightarrow> connect a port = connect' a port) \<Longrightarrow> connect_first connect port as = connect_first connect' port as"
  by (induction as) (auto split: option.split)

lemma connect_first_in: "connect_first connect port as = Some (a, c) \<Longrightarrow> a \<in> set as \<and> connect a port = Some c"
  by (induction as) (auto split: option.splits)

text \<open>
  C36: no connection into the private network.  For a host without an exemption the dial does not depend on
  what connecting to an address inside the reserved ranges would do: no such address is ever
  tried, whatever the resolver answers, and a connection that is made goes to an address the
  resolver gave.
\<close>

theorem dial_never_reaches_inside:
  assumes "\<And>a port. \<not> inside a \<Longrightarrow> connect a port = connect' a port"
    and "\<And>h port. split_host_port address = Some (h, port) \<Longrightarrow> to_lower h \<notin> set exempt"
  shows "dial exempt lookup connect address = dial exempt lookup connect' address \<and>
    (case dial exempt lookup connect address of Inl e \<Rightarrow> True
     | Inr (a, c) \<Rightarrow> \<not> inside a \<and> (\<exists>h port ips. split_host_port address = Some (h, port) \<and> lookup (to_lower h) = Some ips \<and> a \<in> set ips))"
proof -
  have r: "restricted_ip = inside" by (rule ext) (simp add: restricted_inside)
  have eq: "connect_first connect port ips = connect_first connect' port ips" if "\<not> list_ex inside ips" for ips port
    by (rule connect_first_only) (use assms(1) that in \<open>auto simp: list_ex_iff\<close>)
  have "dial exempt lookup connect address = dial exempt lookup connect' address"
    using assms(2) by (auto simp: dial_def r eq Let_def split: option.split prod.split)
  moreover have "\<not> inside a \<and> (\<exists>h port ips. split_host_port address = Some (h, port) \<and> lookup (to_lower h) = Some ips \<and> a \<in> set ips)"
    if "dial exempt lookup connect address = Inr (a, c)" for a c
    using that assms(2) by (auto simp: dial_def r Let_def list_ex_iff split: option.splits if_splits dest!: connect_first_in)
  ultimately show ?thesis by (auto split: sum.split)
qed

text \<open>A resolver that answers with a public and a private address, and one with a public address alone.\<close>

definition demo_lookup :: "string \<Rightarrow> ip list option" where
  "demo_lookup h = (if h = ''mixed.example'' then Some [V4 (quad 93 184 216 34), V4 (quad 10 0 0 5)]
     else if h = ''ok.example'' then Some [V4 (quad 93 184 216 34)] else None)"

definition demo_connect :: "ip \<Rightarrow> string \<Rightarrow> string option" where
  "demo_connect a port = Some port"

theorem dial_never_reaches_inside_witness:
  "dial [] demo_lookup demo_connect ''OK.example:443'' = Inr (V4 (quad 93 184 216 34), ''443'') \<and>
   dial [] demo_lookup demo_connect ''ok.example:443'' = dial [] demo_lookup (\<lambda>a port. if inside a then None else Some port) ''ok.example:443'' \<and>
   dial [] demo_lookup demo_connect ''mixed.example:443'' = Inl BlockedByPolicy"
proof -
  have h: "split_host_port ''OK.example:443'' = Some (''OK.example'', ''443'')" "split_host_port ''ok.example:443'' = Some (''ok.example'', ''443'')"
    "split_host_port ''mixed.example:443'' = Some (''mixed.example'', ''443'')"
    "to_lower ''OK.example'' = ''ok.example''" "to_lower ''ok.example'' = ''ok.example''" "to_lower ''mixed.example'' = ''mixed.example''"
    by code_simp+
  have g: "\<not> inside (V4 (quad 93 184 216 34))" "inside (V4 (quad 10 0 0 5))"
    by (simp_all add: inside_def reserved4_def covers_unat) (simp_all add: quad_def)
  have "dial [] demo_lookup demo_connect ''ok.example:443'' = dial [] demo_lookup (\<lambda>a port. if inside a then None else Some port) ''ok.example:443''"
    using dial_never_reaches_inside [of demo_connect "\<lambda>a port. if inside a then None else Some port" "''ok.example:443''" "[]" demo_lookup]
    by (simp add: demo_connect_def)
  then show ?thesis
    by (simp add: dial_def h restricted_inside demo_lookup_def demo_connect_def g)
qed

section \<open>Signatures\<close>

lemma unix_time_exact:
  assumes "\<bar>s\<bar> \<le> 2 ^ 62"
  shows "unix_time s = s * 1000000000"
proof -
  have "sint (word_of_int k :: 64 word) = k" if "\<bar>k\<bar> < 2 ^ 63" for k
    using that by (simp add: signed_of_int signed_take_bit_int_eq_self)
  from this [of "s + unix_to_internal"] show ?thesis
    using assms unfolding unix_time_def unix_to_internal_def by (auto simp del: of_int_add)
qed

lemma time_sub_exact: "\<bar>t - u\<bar> < 2 ^ 63 \<Longrightarrow> time_sub t u = t - u"
  by (simp add: time_sub_def)

lemma hex_has_no_space: "c \<in> set (hex_encode s) \<Longrightarrow> \<not> is_space c"
proof -
  have d: "hex_digits ! n \<in> set hex_digits" if "n < 16" for n using that by (intro nth_mem) (simp add: hex_digits_def)
  have "of_char x div 16 < (16 :: nat)" for x using of_char_256 [of x] by (simp add: less_mult_imp_div_less)
  then have "c \<in> set (hex_encode s) \<Longrightarrow> c \<in> set hex_digits"
    using d by (auto simp: hex_encode_def)
  then show "c \<in> set (hex_encode s) \<Longrightarrow> \<not> is_space c" by (auto simp: hex_digits_def is_space_def)
qed

lemma trim_signature: "trim_space (signature mac secret payload s) = signature mac secret payload s"
  by (rule trim_space_id) (auto simp: signature_def list_all_iff is_space_def dest: hex_has_no_space)

lemma show_int_inj: "show_int i = show_int j \<longleftrightarrow> i = j"
proof -
  have d: "decimal m = decimal n \<longleftrightarrow> m = n" for m n by (metis digits_decimal option.inject)
  have h: "decimal m \<noteq> CHR ''-'' # x" "CHR ''-'' # x \<noteq> decimal m" for m x using hd_decimal [of m] by (metis list.sel(1))+
  show ?thesis by (auto simp: show_int_def d h eq_nat_nat_iff)
qed

lemma show_int_no_dot: "CHR ''.'' \<notin> set (show_int i)"
  using decimal_digits [of "CHR ''.''"] by (auto simp: show_int_def less_eq_char_def)

lemma material_inj: "signature_material s p = signature_material s' p' \<longleftrightarrow> s = s' \<and> p = p'"
proof -
  have t: "takeWhile (\<lambda>c. c \<noteq> CHR ''.'') (show_int i @ ''.'' @ q) = show_int i" for i q
    using show_int_no_dot [of i] by (subst takeWhile_append2) auto
  have "show_int s @ ''.'' @ p = show_int s' @ ''.'' @ p' \<Longrightarrow> show_int s = show_int s'" by (metis t)
  then show ?thesis unfolding signature_material_def by (auto simp: show_int_inj)
qed

lemma signature_inj: "signature mac k p s = signature mac k' p' s' \<longleftrightarrow> mac k (signature_material s p) = mac k' (signature_material s' p')"
  by (simp add: signature_def hex_encode_inj)

text \<open>
  C38: what is signed verifies.  Verify accepts a signature of Signature for the timestamp it was made
  with exactly within the tolerance, and what it accepts carries the HMAC of the very payload
  and timestamp; outside the tolerance nothing is accepted.  What is signed tells timestamp and
  payload apart: no two pairs of them give the same material.
\<close>

theorem signature_round_trip:
  assumes "\<bar>s\<bar> \<le> 2 ^ 62" and "\<bar>now - s * 1000000000\<bar> < 2 ^ 63" and "0 \<le> tolerance"
  shows "verify mac secret payload (show_int s) given now tolerance =
    (if tolerance < \<bar>now - s * 1000000000\<bar> then StaleSignature
     else if trim_space given = signature mac secret payload s then Accepted else InvalidSignature)
   \<and> verify mac secret payload (show_int s) (signature mac secret' payload' s) now tolerance =
    (if tolerance < \<bar>now - s * 1000000000\<bar> then StaleSignature
     else if mac secret (signature_material s payload) = mac secret' (signature_material s payload') then Accepted else InvalidSignature)
   \<and> (signature_material s payload = signature_material s' payload' \<longleftrightarrow> s = s' \<and> payload = payload')"
proof -
  have t: "parse_int64 (trim_space (show_int s)) = Some s"
    using assms(1) by (simp add: trim_show_int int64_round_trip)
  show ?thesis
    using assms
    by (simp add: verify_def t unix_time_exact time_sub_exact trim_signature signature_inj material_inj Let_def eq_commute abs_if)
qed

theorem signature_round_trip_witness:
  "verify (\<lambda>k m. rev m) ''k'' ''{}'' ''1000'' (signature (\<lambda>k m. rev m) ''k'' ''{}'' 1000) 1100000000000 300000000000 = Accepted \<and>
   verify (\<lambda>k m. rev m) ''k'' ''{}'' ''1000'' (signature (\<lambda>k m. rev m) ''k'' ''[]'' 1000) 1100000000000 300000000000 = InvalidSignature \<and>
   verify (\<lambda>k m. rev m) ''k'' ''{}'' ''1000'' (signature (\<lambda>k m. rev m) ''k'' ''{}'' 1000) 1400000000000 300000000000 = StaleSignature"
proof -
  have i: "show_int 1000 = ''1000''" by (simp add: show_int_def decimal.simps digit_char_def) code_simp
  show ?thesis
    using signature_round_trip [of 1000 1100000000000 300000000000 "\<lambda>k m. rev m" "''k''" "''{}''" _ "''k''" "''{}''"]
      signature_round_trip [of 1000 1100000000000 300000000000 "\<lambda>k m. rev m" "''k''" "''{}''" _ "''k''" "''[]''"]
      signature_round_trip [of 1000 1400000000000 300000000000 "\<lambda>k m. rev m" "''k''" "''{}''" _ "''k''" "''{}''"]
    by (simp add: i signature_material_def trim_signature signature_inj)
qed

end
