(* ===== verification/Interleaving.thy ===== *)
theory Interleaving
  imports HubPrelude
begin

text \<open>
  Requests that run at the same time.  A request is a script: the statements it issues one
  after the other, each continuing according to what the statement found, and the moments it
  reads the clock.  A schedule picks the request that moves next, the time of the move and
  whether the statement runs, fails, or runs without the request hearing of it; so the
  theorems about all schedules cover every interleaving of any number of requests with
  failures anywhere.

  \<open>obeys\<close> is the program logic: from databases with the invariant \<open>I\<close> every statement makes a
  transition of the guarantee \<open>G\<close>, and every answer satisfies \<open>Q\<close>.  \<open>needs\<close> says that a script
  cannot end well without a statement that makes a given transition.  The lemmas on schedules
  draw the conclusions: what holds after every run, what has happened when a request has
  succeeded, and successes that exclude each other.
\<close>

section \<open>Scripts\<close>

datatype ('d, 'a) script = Done 'a
  | Clock "int \<Rightarrow> ('d, 'a) script"
  | Stmt "int \<Rightarrow> 'd \<Rightarrow> 'd" "int \<Rightarrow> 'd \<Rightarrow> ('d, 'a) script" "('d, 'a) script"

primrec script_bind :: "('d, 'a) script \<Rightarrow> ('a \<Rightarrow> ('d, 'b) script) \<Rightarrow> ('d, 'b) script" where
  "script_bind (Done a) k = k a"
| "script_bind (Clock f) k = Clock (\<lambda>t. script_bind (f t) k)"
| "script_bind (Stmt eff nxt fl) k = Stmt eff (\<lambda>t d. script_bind (nxt t d) k) (script_bind fl k)"

lemma script_induct [case_names Done Clock Stmt, induct type: script]:
  assumes "\<And>a. P (Done a)" and "\<And>f. (\<And>t. P (f t)) \<Longrightarrow> P (Clock f)"
    and "\<And>eff nxt fl. (\<And>t d. P (nxt t d)) \<Longrightarrow> P fl \<Longrightarrow> P (Stmt eff nxt fl)"
  shows "P s"
  by (induction s) (blast intro: assms rangeI)+

text \<open>A statement with an answer, an error of it included, and its effect.\<close>

definition statement :: "(int \<Rightarrow> 'd \<Rightarrow> ('e err + 'r) \<times> 'd) \<Rightarrow> ('d, 'e err + 'r) script" where
  "statement f = Stmt (\<lambda>t d. snd (f t d)) (\<lambda>t d. Done (fst (f t d))) (Done (Inl Fault))"

abbreviation ask :: "(int \<Rightarrow> 'd \<Rightarrow> 'e err + 'r) \<Rightarrow> ('d, 'e err + 'r) script" where
  "ask f \<equiv> statement (\<lambda>t d. (f t d, d))"

abbreviation change :: "(int \<Rightarrow> 'd \<Rightarrow> 'd) \<Rightarrow> ('d, 'e err + unit) script" where
  "change f \<equiv> statement (\<lambda>t d. (Inr (), f t d))"

text \<open>A statement the schema may reject.\<close>

definition checked :: "('d \<Rightarrow> 'd option) \<Rightarrow> ('d, 'e err + unit) script" where
  "checked f = statement (\<lambda>_ d. case f d of None \<Rightarrow> (Inl Constraint, d) | Some d' \<Rightarrow> (Inr (), d'))"

text \<open>The calls after which a Go function returns the error, and the end of a function.\<close>

definition andthen :: "('d, 'e err + 'a) script \<Rightarrow> ('a \<Rightarrow> ('d, 'e err + 'b) script) \<Rightarrow> ('d, 'e err + 'b) script" where
  "andthen m k = script_bind m (\<lambda>r. case r of Inl e \<Rightarrow> Done (Inl e) | Inr a \<Rightarrow> k a)"

abbreviation answer :: "'a \<Rightarrow> ('d, 'e err + 'a) script" where "answer a \<equiv> Done (Inr a)"
abbreviation refuse :: "'e err \<Rightarrow> ('d, 'e err + 'a) script" where "refuse e \<equiv> Done (Inl e)"

section \<open>Schedules\<close>

datatype outcome = Ran | Failed | Unheard

primrec script_move :: "('d, 'a) script \<Rightarrow> outcome \<Rightarrow> int \<Rightarrow> 'd \<Rightarrow> ('d, 'a) script \<times> 'd" where
  "script_move (Done a) out t d = (Done a, d)"
| "script_move (Clock f) out t d = (f t, d)"
| "script_move (Stmt eff nxt fl) out t d = (case out of Ran \<Rightarrow> (nxt t d, eff t d) | Failed \<Rightarrow> (fl, d) | Unheard \<Rightarrow> (fl, eff t d))"

type_synonym turn = "nat \<times> outcome \<times> int"

definition pool_move :: "turn \<Rightarrow> ('d, 'a) script list \<times> 'd \<Rightarrow> ('d, 'a) script list \<times> 'd" where
  "pool_move m c = (case m of (i, out, t) \<Rightarrow> case c of (ss, d) \<Rightarrow>
     if i < length ss then (case script_move (ss ! i) out t d of (s, d') \<Rightarrow> (ss[i := s], d')) else (ss, d))"

definition pool_run :: "turn list \<Rightarrow> ('d, 'a) script list \<times> 'd \<Rightarrow> ('d, 'a) script list \<times> 'd" where
  "pool_run ms c = fold pool_move ms c"

text \<open>The answer of a request, once it has ended.\<close>

definition reply_of :: "('d, 'a) script \<Rightarrow> 'a option" where
  "reply_of s = (case s of Done a \<Rightarrow> Some a | _ \<Rightarrow> None)"

text \<open>A request that nothing disturbs, at one time.\<close>

primrec alone :: "int \<Rightarrow> ('d, 'a) script \<Rightarrow> 'd \<Rightarrow> 'a \<times> 'd" where
  "alone t (Done a) d = (a, d)"
| "alone t (Clock f) d = alone t (f t) d"
| "alone t (Stmt eff nxt fl) d = alone t (nxt t d) (eff t d)"

lemma alone_bind: "alone t (script_bind m k) d = (case alone t m d of (a, d') \<Rightarrow> alone t (k a) d')"
  by (induction m arbitrary: d) auto

lemma alone_simps:
  "alone t (statement f) d = f t d"
  "alone t (checked g) d = (case g d of None \<Rightarrow> (Inl Constraint, d) | Some d' \<Rightarrow> (Inr (), d'))"
  "alone t (andthen m k) d = (case alone t m d of (Inl e, d') \<Rightarrow> (Inl e, d') | (Inr a, d') \<Rightarrow> alone t (k a) d')"
  by (auto simp: statement_def checked_def andthen_def alone_bind split: option.splits sum.splits prod.splits)

lemma pool_run_simps:
  "pool_run [] c = c" "pool_run (m # ms) c = pool_run ms (pool_move m c)"
  by (simp_all add: pool_run_def)

lemma alone_is_run: "\<exists>n. pool_run (replicate n (0, Ran, t)) ([s], d) = ([Done (fst (alone t s d))], snd (alone t s d))"
proof (induction s arbitrary: d)
  case (Done a)
  show ?case by (rule exI [of _ 0]) (simp add: pool_run_simps)
next
  case (Clock f)
  obtain n where "pool_run (replicate n (0, Ran, t)) ([f t], d) = ([Done (fst (alone t (f t) d))], snd (alone t (f t) d))"
    using Clock [of t d] by auto
  then show ?case by (intro exI [of _ "Suc n"]) (simp add: pool_run_simps pool_move_def)
next
  case (Stmt eff nxt fl)
  obtain n where "pool_run (replicate n (0, Ran, t)) ([nxt t d], eff t d)
      = ([Done (fst (alone t (nxt t d) (eff t d)))], snd (alone t (nxt t d) (eff t d)))"
    using Stmt(1) [of t d "eff t d"] by auto
  then show ?case by (intro exI [of _ "Suc n"]) (simp add: pool_run_simps pool_move_def)
qed

section \<open>Invariants and guarantees\<close>

primrec obeys :: "('d \<Rightarrow> bool) \<Rightarrow> ('d \<Rightarrow> 'd \<Rightarrow> bool) \<Rightarrow> ('a \<Rightarrow> bool) \<Rightarrow> ('d, 'a) script \<Rightarrow> bool" where
  "obeys I G Q (Done a) = Q a"
| "obeys I G Q (Clock f) = (\<forall>t. obeys I G Q (f t))"
| "obeys I G Q (Stmt eff nxt fl) = (obeys I G Q fl \<and> (\<forall>t d. I d \<longrightarrow> G d (eff t d) \<and> obeys I G Q (nxt t d)))"

abbreviation safe :: "('d \<Rightarrow> bool) \<Rightarrow> ('a \<Rightarrow> bool) \<Rightarrow> ('d, 'a) script \<Rightarrow> bool" where
  "safe I \<equiv> obeys I (\<lambda>_. I)"

abbreviation good :: "('a \<Rightarrow> bool) \<Rightarrow> 'e err + 'a \<Rightarrow> bool" where
  "good Q r \<equiv> (case r of Inl _ \<Rightarrow> True | Inr a \<Rightarrow> Q a)"

abbreviation is_answer :: "'e err + 'a \<Rightarrow> bool" where
  "is_answer r \<equiv> (case r of Inl _ \<Rightarrow> False | Inr _ \<Rightarrow> True)"

named_theorems scripts \<open>rules of the program logic\<close>

lemma obeys_weaken: "obeys I G Q s \<Longrightarrow> (\<And>a. Q a \<Longrightarrow> R a) \<Longrightarrow> obeys I G R s"
  by (induction s) auto

lemma obeys_mono:
  "obeys I G Q s \<Longrightarrow> (\<And>d. J d \<Longrightarrow> I d) \<Longrightarrow> (\<And>d d'. J d \<Longrightarrow> G d d' \<Longrightarrow> H d d') \<Longrightarrow> obeys J H Q s"
  by (induction s) auto

lemma obeys_conj:
  "obeys I G Q s \<Longrightarrow> obeys J H R s \<Longrightarrow> obeys (\<lambda>d. I d \<and> J d) (\<lambda>d d'. G d d' \<and> H d d') (\<lambda>a. Q a \<and> R a) s"
  by (induction s) auto

lemma obeys_bind: "obeys I G Q m \<Longrightarrow> (\<And>a. Q a \<Longrightarrow> obeys I G R (k a)) \<Longrightarrow> obeys I G R (script_bind m k)"
  by (induction m) auto

lemma obeys_statement:
  "Q (Inl Fault) \<Longrightarrow> (\<And>t d r d'. I d \<Longrightarrow> f t d = (r, d') \<Longrightarrow> G d d' \<and> Q r) \<Longrightarrow> obeys I G Q (statement f)"
  by (auto simp: statement_def) (metis prod.collapse)+

lemma obeys_andthen:
  "obeys I G (good Q) m \<Longrightarrow> (\<And>a. Q a \<Longrightarrow> obeys I G (good R) (k a)) \<Longrightarrow> obeys I G (good R) (andthen m k)"
  unfolding andthen_def by (rule obeys_bind [where Q = "good Q"]) (auto split: sum.splits)

lemma obeys_checked:
  "(\<And>d d'. I d \<Longrightarrow> f d = Some d' \<Longrightarrow> G d d') \<Longrightarrow> (\<And>d. I d \<Longrightarrow> G d d) \<Longrightarrow> obeys I G (\<lambda>_. True) (checked f)"
  unfolding checked_def by (rule obeys_statement) (auto split: option.splits)

lemma obeys_true_bind [scripts]:
  "obeys I G (\<lambda>_. True) m \<Longrightarrow> (\<And>a. obeys I G Q (k a)) \<Longrightarrow> obeys I G Q (script_bind m k)"
  by (rule obeys_bind)

lemma obeys_true_andthen [scripts]:
  "obeys I G (\<lambda>_. True) m \<Longrightarrow> (\<And>a. obeys I G (\<lambda>_. True) (k a)) \<Longrightarrow> obeys I G (\<lambda>_. True) (andthen m k)"
  unfolding andthen_def by (rule obeys_bind) (auto split: sum.splits)

lemma obeys_if [scripts]: "(b \<Longrightarrow> obeys I G Q m) \<Longrightarrow> (\<not> b \<Longrightarrow> obeys I G Q m') \<Longrightarrow> obeys I G Q (if b then m else m')"
  by simp

lemma obeys_done [scripts]: "obeys I G (\<lambda>_. True) (Done a)" by simp
lemma obeys_clock [scripts]: "(\<And>t. obeys I G Q (f t)) \<Longrightarrow> obeys I G Q (Clock f)" by simp

text \<open>Schedules: one move, one turn, a run.\<close>

lemma move_obeys:
  assumes "obeys I G Q s" "I d" "script_move s out t d = (s', d')"
  shows "obeys I G Q s' \<and> G\<^sup>=\<^sup>= d d'"
  using assms by (cases s; cases out) auto

text \<open>A database of the pool: every script obeys, and the guarantee keeps the invariant.\<close>

definition pool_ok :: "('d \<Rightarrow> bool) \<Rightarrow> ('d \<Rightarrow> 'd \<Rightarrow> bool) \<Rightarrow> ('a \<Rightarrow> bool) list \<Rightarrow> ('d, 'a) script list \<times> 'd \<Rightarrow> bool" where
  "pool_ok I G Qs c \<longleftrightarrow> list_all2 (obeys I G) Qs (fst c) \<and> I (snd c) \<and> (\<forall>d d'. I d \<longrightarrow> G d d' \<longrightarrow> I d')"

lemma pool_move_obeys:
  assumes "pool_ok I G Qs (ss, d)" "pool_move m (ss, d) = (ss', d')"
  shows "pool_ok I G Qs (ss', d') \<and> G\<^sup>=\<^sup>= d d'"
proof (cases m)
  case (fields i out t)
  show ?thesis
  proof (cases "i < length ss")
    case True
    obtain s d'' where m: "script_move (ss ! i) out t d = (s, d'')" by fastforce
    have "obeys I G (Qs ! i) (ss ! i)" using assms(1) True by (simp add: pool_ok_def list_all2_conv_all_nth)
    from move_obeys [OF this _ m] assms(1) have "obeys I G (Qs ! i) s" "G\<^sup>=\<^sup>= d d''"
      by (auto simp: pool_ok_def)
    then show ?thesis
      using assms True m fields by (auto simp: pool_ok_def pool_move_def list_all2_conv_all_nth nth_list_update)
  qed (use assms fields in \<open>simp add: pool_move_def\<close>)
qed

lemma pool_run_obeys:
  assumes "pool_ok I G Qs (ss, d)" "pool_run ms (ss, d) = (ss', d')"
  shows "pool_ok I G Qs (ss', d') \<and> G\<^sup>*\<^sup>* d d'"
  using assms
proof (induction ms arbitrary: ss d)
  case (Cons m ms)
  obtain ss1 d1 where m: "pool_move m (ss, d) = (ss1, d1)" by fastforce
  from pool_move_obeys [OF Cons.prems(1) m] have 1: "pool_ok I G Qs (ss1, d1)" "G\<^sup>=\<^sup>= d d1" by auto
  from Cons.prems(2) m have "pool_run ms (ss1, d1) = (ss', d')" by (simp add: pool_run_simps)
  from Cons.IH [OF 1(1) this] 1(2) show ?case by (auto intro: converse_rtranclp_into_rtranclp)
qed (simp add: pool_run_simps)

lemma pool_ok_all:
  assumes "\<And>s. s \<in> set ss \<Longrightarrow> obeys I G (\<lambda>_. True) s" "I d" "\<And>d d'. I d \<Longrightarrow> G d d' \<Longrightarrow> I d'"
  shows "pool_ok I G (replicate (length ss) (\<lambda>_. True)) (ss, d)"
  using assms by (auto simp: pool_ok_def list_all2_conv_all_nth)

lemma pool_ok_answers: "pool_ok I G Qs (ss, d) \<Longrightarrow> i < length ss \<Longrightarrow> reply_of (ss ! i) = Some a \<Longrightarrow> (Qs ! i) a"
  by (cases "ss ! i") (auto simp: pool_ok_def reply_of_def list_all2_conv_all_nth)

lemma pool_ok_inv: "pool_ok I G Qs (ss, d) \<Longrightarrow> I d"
  by (simp add: pool_ok_def)

section \<open>Transitions that success needs\<close>

primrec needs :: "('d \<Rightarrow> bool) \<Rightarrow> ('d \<Rightarrow> 'd \<Rightarrow> bool) \<Rightarrow> ('a \<Rightarrow> bool) \<Rightarrow> ('d, 'a) script \<Rightarrow> bool" where
  "needs I T ok (Done a) = (\<not> ok a)"
| "needs I T ok (Clock f) = (\<forall>t. needs I T ok (f t))"
| "needs I T ok (Stmt eff nxt fl) = (needs I T ok fl \<and> (\<forall>t d. I d \<longrightarrow> needs I T ok (nxt t d) \<or> T d (eff t d)))"

lemma needs_bind:
  "needs I T ok m \<Longrightarrow> (\<And>a. \<not> ok a \<Longrightarrow> needs I T ok' (k a)) \<Longrightarrow> needs I T ok' (script_bind m k)"
  by (induction m) (auto, blast)

lemma needs_later: "obeys I G Q m \<Longrightarrow> (\<And>a. Q a \<Longrightarrow> needs I T ok (k a)) \<Longrightarrow> needs I T ok (script_bind m k)"
  by (induction m) auto

lemma needs_andthen: "needs I T is_answer m \<Longrightarrow> needs I T is_answer (andthen m k)"
  unfolding andthen_def by (rule needs_bind [where ok = is_answer]) (auto split: sum.splits)

lemma needs_andthen_later:
  assumes "obeys I G (good Q) m" and "\<And>a. Q a \<Longrightarrow> needs I T is_answer (k a)"
  shows "needs I T is_answer (andthen m k)"
  unfolding andthen_def by (rule needs_later [OF assms(1)]) (use assms(2) in \<open>auto split: sum.splits\<close>)

lemma needs_statement:
  assumes "\<And>t d r d'. I d \<Longrightarrow> f t d = (r, d') \<Longrightarrow> is_answer r \<Longrightarrow> T d d'"
  shows "needs I T is_answer (statement f)"
  unfolding statement_def needs.simps
proof (intro conjI allI impI)
  fix t d assume "I d"
  with assms [of d t] show "\<not> is_answer (fst (f t d)) \<or> T d (snd (f t d))" by (metis prod.collapse)
qed simp

lemma move_needs:
  assumes "needs I T ok s" "I d" "script_move s out t d = (s', d')"
  shows "needs I T ok s' \<or> T d d'"
  using assms by (cases s; cases out) auto

lemma pool_move_needs:
  assumes "needs I T ok (ss ! i)" "I d" "pool_move m (ss, d) = (ss', d')"
  shows "needs I T ok (ss' ! i) \<or> T d d' \<and> fst m = i"
proof (cases m)
  case (fields j out t)
  show ?thesis
  proof (cases "j < length ss")
    case True
    obtain s d'' where m: "script_move (ss ! j) out t d = (s, d'')" by fastforce
    show ?thesis
      using move_needs [where s = "ss ! j" and I = I and T = T and ok = ok, OF _ assms(2) m] assms True m fields
      by (cases "i = j") (auto simp: pool_move_def)
  qed (use assms fields in \<open>simp add: pool_move_def\<close>)
qed

lemma needs_unanswered: "needs I T ok s \<Longrightarrow> reply_of s = Some a \<Longrightarrow> \<not> ok a"
  by (cases s) (auto simp: reply_of_def)

text \<open>What a successful request needed has happened and still holds.\<close>

lemma needed_happened:
  assumes "pool_ok I G Qs (ss, d)" "needs I (\<lambda>_. spent) ok (ss ! i)"
    and stable: "\<And>d d'. I d \<Longrightarrow> G d d' \<Longrightarrow> spent d \<Longrightarrow> spent d'"
    and run: "pool_run ms (ss, d) = (ss', d')" and reply: "reply_of (ss' ! i) = Some a" "ok a"
  shows "spent d'"
proof -
  have "needs I (\<lambda>_. spent) ok (ss' ! i) \<or> spent d'"
    if "pool_ok I G Qs (ss, d)" "needs I (\<lambda>_. spent) ok (ss ! i) \<or> spent d" "pool_run ms (ss, d) = (ss', d')" for ss d
    using that
  proof (induction ms arbitrary: ss d)
    case (Cons m ms)
    obtain ss1 d1 where m: "pool_move m (ss, d) = (ss1, d1)" by fastforce
    have I: "I d" by (rule pool_ok_inv [OF Cons.prems(1)])
    from pool_move_obeys [OF Cons.prems(1) m] have 1: "pool_ok I G Qs (ss1, d1)" "G\<^sup>=\<^sup>= d d1" by auto
    have "needs I (\<lambda>_. spent) ok (ss1 ! i) \<or> spent d1"
      using Cons.prems(2) pool_move_needs [where I = I and T = "\<lambda>_. spent" and ok = ok and i = i and ss = ss, OF _ I m] 1(2) stable [OF I, of d1] by auto
    from Cons.IH [OF 1(1) this] Cons.prems(3) m show ?case by (simp add: pool_run_simps)
  qed (simp add: pool_run_simps)
  from this [OF assms(1) _ run] assms(2) reply show ?thesis by (auto dest: needs_unanswered)
qed

lemma success_spends:
  assumes "pool_ok I G Qs (ss, d)" and ni: "needs I (\<lambda>d d'. \<not> spent d \<and> spent d') ok (ss ! i)"
    and stable: "\<And>d d'. I d \<Longrightarrow> G d d' \<Longrightarrow> spent d \<Longrightarrow> spent d'"
    and run: "pool_run ms (ss, d) = (ss', d')" and reply: "reply_of (ss' ! i) = Some a" "ok a"
  shows "\<not> spent d \<and> spent d'"
proof -
  let ?n = "\<lambda>s. needs I (\<lambda>d d'. \<not> spent d \<and> spent d') ok s"
  have "?n (ss' ! i) \<or> \<not> spent d0 \<and> spent d'"
    if "pool_ok I G Qs (ss, d)" "spent d0 \<longrightarrow> spent d" "?n (ss ! i) \<or> \<not> spent d0 \<and> spent d"
      "pool_run ms (ss, d) = (ss', d')" for ss d d0
    using that
  proof (induction ms arbitrary: ss d)
    case (Cons m ms)
    obtain ss1 d1 where m: "pool_move m (ss, d) = (ss1, d1)" by fastforce
    have I: "I d" by (rule pool_ok_inv [OF Cons.prems(1)])
    from pool_move_obeys [OF Cons.prems(1) m] have 1: "pool_ok I G Qs (ss1, d1)" "G\<^sup>=\<^sup>= d d1" by auto
    have s: "spent d \<Longrightarrow> spent d1" using 1(2) stable [OF I, of d1] by auto
    have "?n (ss1 ! i) \<or> \<not> spent d0 \<and> spent d1"
      using Cons.prems(2,3) s pool_move_needs [where I = I and T = "\<lambda>d d'. \<not> spent d \<and> spent d'" and ok = ok and i = i and ss = ss, OF _ I m]
      by blast
    from Cons.IH [OF 1(1) _ this] Cons.prems(2,4) s m show ?case by (simp add: pool_run_simps)
  qed (auto simp: pool_run_simps)
  from this [OF assms(1) _ _ run] ni reply show ?thesis by (auto dest: needs_unanswered)
qed

text \<open>Of the requests that need to spend the same thing at most one succeeds.\<close>

lemma successes_exclude:
  assumes "pool_ok I G Qs (ss, d)" "i \<noteq> j"
    and ni: "needs I (\<lambda>d d'. \<not> spent d \<and> spent d') ok (ss ! i)" and nj: "needs I (\<lambda>d d'. \<not> spent d \<and> spent d') ok (ss ! j)"
    and stable: "\<And>d d'. I d \<Longrightarrow> G d d' \<Longrightarrow> spent d \<Longrightarrow> spent d'"
    and run: "pool_run ms (ss, d) = (ss', d')"
    and reply: "reply_of (ss' ! i) = Some a" "ok a" "reply_of (ss' ! j) = Some b" "ok b"
  shows False
proof -
  let ?n = "\<lambda>s. needs I (\<lambda>d d'. \<not> spent d \<and> spent d') ok s"
  have "?n (ss' ! i) \<or> ?n (ss' ! j)"
    if "pool_ok I G Qs (ss, d)" "?n (ss ! i) \<and> ?n (ss ! j) \<or> spent d \<and> (?n (ss ! i) \<or> ?n (ss ! j))"
      "pool_run ms (ss, d) = (ss', d')" for ss d
    using that
  proof (induction ms arbitrary: ss d)
    case (Cons m ms)
    obtain ss1 d1 where m: "pool_move m (ss, d) = (ss1, d1)" by fastforce
    have I: "I d" by (rule pool_ok_inv [OF Cons.prems(1)])
    from pool_move_obeys [OF Cons.prems(1) m] have 1: "pool_ok I G Qs (ss1, d1)" "G\<^sup>=\<^sup>= d d1" by auto
    have s: "spent d \<Longrightarrow> spent d1" using 1(2) stable [OF I, of d1] by auto
    have n: "?n (ss ! k) \<Longrightarrow> ?n (ss1 ! k) \<or> (\<not> spent d \<and> spent d1) \<and> fst m = k" for k
      using pool_move_needs [where I = I and T = "\<lambda>d d'. \<not> spent d \<and> spent d'" and ok = ok and i = k and ss = ss, OF _ I m] by blast
    have "?n (ss1 ! i) \<and> ?n (ss1 ! j) \<or> spent d1 \<and> (?n (ss1 ! i) \<or> ?n (ss1 ! j))"
      using Cons.prems(2) s n [of i] n [of j] assms(2) by blast
    from Cons.IH [OF 1(1) this] Cons.prems(3) m show ?case by (simp add: pool_run_simps)
  qed (auto simp: pool_run_simps)
  from this [OF assms(1) _ run] ni nj reply show False by (auto dest: needs_unanswered)
qed

end
