(* ===== verification/Totp.thy ===== *)
theory Totp
  imports Encodings
begin

unbundle bit_operations_syntax

text \<open>
  Time-based one-time passwords and recovery codes (src/internal/auth/totp.go).  HMAC-SHA1 is
  an argument, a function of the key and the eight bytes of the counter; time is the number
  of seconds of time.Time.Unix.
\<close>

section \<open>Codes\<close>

definition upper_char :: "char \<Rightarrow> char" where
  "upper_char c = (if CHR ''a'' \<le> c \<and> c \<le> CHR ''z'' then char_of (of_char c - 32 :: nat) else c)"

definition to_upper :: "string \<Rightarrow> string" where "to_upper = map upper_char"

definition totp_digits :: nat where "totp_digits = 6"

definition totp_period :: "64 word" where "totp_period = 30"

text \<open>The bytes of a 64-bit counter, most significant first, and a 32-bit number from four bytes.\<close>

definition big_endian64 :: "64 word \<Rightarrow> string" where
  "big_endian64 w = map (\<lambda>i. char_of (unat (drop_bit (8 * (7 - i)) w AND 0xff))) [0..<8]"

definition big_endian32 :: "string \<Rightarrow> 32 word" where
  "big_endian32 s = foldl (\<lambda>w c. push_bit 8 w OR of_nat (of_char c)) 0 s"

definition pow10 :: "nat \<Rightarrow> 32 word" where "pow10 n = 10 ^ n"

text \<open>%0*d: at least \<open>n\<close> digits.\<close>

definition zero_padded :: "nat \<Rightarrow> nat \<Rightarrow> string" where
  "zero_padded n k = replicate (n - length (decimal k)) CHR ''0'' @ decimal k"

definition generate_code :: "(string \<Rightarrow> string \<Rightarrow> string) \<Rightarrow> string \<Rightarrow> 64 word \<Rightarrow> string" where
  "generate_code hmac key counter =
     (let digest = hmac key (big_endian64 counter);
          offset = unat ((of_nat (of_char (last digest)) :: 8 word) AND 0x0f);
          truncated = big_endian32 (take 4 (drop offset digest)) AND 0x7fffffff
      in zero_padded totp_digits (unat (truncated mod pow10 totp_digits)))"

definition totp_key :: "string \<Rightarrow> string option" where
  "totp_key secret = base32_decode (to_upper (trim_space secret))"

definition totp_counter :: "int \<Rightarrow> 64 word" where
  "totp_counter now = word_of_int now div totp_period"

definition generate_totp :: "(string \<Rightarrow> string \<Rightarrow> string) \<Rightarrow> string \<Rightarrow> int \<Rightarrow> string option" where
  "generate_totp hmac secret now = map_option (\<lambda>key. generate_code hmac key (totp_counter now)) (totp_key secret)"

text \<open>One step to either side: the offsets of the loop of VerifyTOTP.\<close>

definition totp_offsets :: "int list" where "totp_offsets = [- 1, 0, 1]"

definition verify_totp :: "(string \<Rightarrow> string \<Rightarrow> string) \<Rightarrow> string \<Rightarrow> string \<Rightarrow> int \<Rightarrow> bool" where
  "verify_totp hmac secret code now =
     (let code = trim_space code in
      if length code \<noteq> totp_digits then False
      else case totp_key secret of None \<Rightarrow> False
        | Some key \<Rightarrow> list_ex (\<lambda>k. generate_code hmac key (word_of_int (sint (totp_counter now) + k)) = code) totp_offsets)"

text \<open>NewTOTPSecret from its twenty random bytes.\<close>

definition new_totp_secret :: "string \<Rightarrow> string" where "new_totp_secret buf = base32_encode buf"

text \<open>The URI an authenticator app scans.\<close>

definition provisioning_uri :: "string \<Rightarrow> string \<Rightarrow> string \<Rightarrow> string" where
  "provisioning_uri secret email issuer = ''otpauth://totp/'' @ path_escape (issuer @ '':'' @ email) @ ''?'' @
     values_encode [(''secret'', secret), (''issuer'', issuer), (''algorithm'', ''SHA1''),
       (''digits'', decimal totp_digits), (''period'', decimal (unat totp_period))]"

section \<open>Recovery codes\<close>

text \<open>One code from ten random bytes, and the form its hash is taken of.\<close>

definition recovery_code :: "string \<Rightarrow> string" where
  "recovery_code buf = (let raw = take 10 (base32_encode buf) in to_lower (take 5 raw @ ''-'' @ drop 5 raw))"

definition normalize_recovery_code :: "string \<Rightarrow> string" where
  "normalize_recovery_code code = filter (\<lambda>c. (CHR ''a'' \<le> c \<and> c \<le> CHR ''z'') \<or> (CHR ''0'' \<le> c \<and> c \<le> CHR ''9'')) (to_lower code)"

section \<open>Round trips\<close>

lemma letters_upper:
  "c \<in> set base32_alphabet \<Longrightarrow> upper_char c = c" "c \<in> set base32_alphabet \<Longrightarrow> upper_char (lower_char c) = c"
  "c \<in> set base32_alphabet \<Longrightarrow> (CHR ''a'' \<le> lower_char c \<and> lower_char c \<le> CHR ''z'') \<or> (CHR ''0'' \<le> lower_char c \<and> lower_char c \<le> CHR ''9'')"
  "c \<in> set base32_alphabet \<Longrightarrow> \<not> is_space c \<and> \<not> is_space (lower_char c)" "lower_char (lower_char x) = lower_char x"
proof -
  have "list_all (\<lambda>c. upper_char c = c \<and> upper_char (lower_char c) = c \<and> \<not> is_space c \<and> \<not> is_space (lower_char c) \<and>
     ((CHR ''a'' \<le> lower_char c \<and> lower_char c \<le> CHR ''z'') \<or> (CHR ''0'' \<le> lower_char c \<and> lower_char c \<le> CHR ''9''))) base32_alphabet"
    by (simp add: base32_alphabet_def upper_char_def lower_char_def is_space_def less_eq_char_def char_of_def bit_0)
  then show "c \<in> set base32_alphabet \<Longrightarrow> upper_char c = c" "c \<in> set base32_alphabet \<Longrightarrow> upper_char (lower_char c) = c"
    "c \<in> set base32_alphabet \<Longrightarrow> (CHR ''a'' \<le> lower_char c \<and> lower_char c \<le> CHR ''z'') \<or> (CHR ''0'' \<le> lower_char c \<and> lower_char c \<le> CHR ''9'')"
    "c \<in> set base32_alphabet \<Longrightarrow> \<not> is_space c \<and> \<not> is_space (lower_char c)"
    by (simp_all add: list_all_iff)
  show "lower_char (lower_char x) = lower_char x"
    by (auto simp: lower_char_def less_eq_char_def of_char_of)
qed

lemma base32_letters: "c \<in> set (base32_encode s) \<Longrightarrow> c \<in> set base32_alphabet"
proof -
  have "list_all (\<lambda>v. v < 32) (base32_values (map of_char s))"
    by (rule base32_values_small) (simp add: list_all_iff of_char_256)
  moreover have "length base32_alphabet = 32" by (simp add: base32_alphabet_def)
  ultimately show "c \<in> set (base32_encode s) \<Longrightarrow> c \<in> set base32_alphabet"
    by (auto simp: base32_encode_def list_all_iff)
qed

lemma key_of_secret:
  "totp_key (new_totp_secret buf) = Some buf" "totp_key (to_lower (new_totp_secret buf)) = Some buf"
proof -
  have u: "map upper_char (base32_encode buf) = base32_encode buf" "map upper_char (map lower_char (base32_encode buf)) = base32_encode buf"
    using letters_upper(1,2) base32_letters by (auto intro!: map_idI)
  have t: "trim_space (base32_encode buf) = base32_encode buf" "trim_space (map lower_char (base32_encode buf)) = map lower_char (base32_encode buf)"
    using letters_upper(4) base32_letters by (auto intro!: trim_space_id simp: list_all_iff)
  show "totp_key (new_totp_secret buf) = Some buf" "totp_key (to_lower (new_totp_secret buf)) = Some buf"
    unfolding totp_key_def new_totp_secret_def to_lower_def to_upper_def t u by (rule base32_round_trip)+
qed

lemma decimal_length: "n < 10 ^ Suc k \<Longrightarrow> length (decimal n) \<le> Suc k"
proof (induction k arbitrary: n)
  case (Suc k)
  then show ?case by (subst decimal.simps) (simp add: less_mult_imp_div_less)
qed (subst decimal.simps, simp)

lemma padded_length: "k < 10 ^ 6 \<Longrightarrow> length (zero_padded 6 k) = 6"
  using decimal_length [of k 5] by (simp add: zero_padded_def)

lemma code_length: "length (generate_code hmac key c) = 6"
proof -
  have "unat (w mod pow10 6) < 10 ^ 6" for w :: "32 word"
    by (simp add: pow10_def unat_mod)
  then show ?thesis by (simp add: generate_code_def totp_digits_def padded_length Let_def)
qed

lemma code_digits: "c \<in> set (generate_code hmac key w) \<Longrightarrow> CHR ''0'' \<le> c \<and> c \<le> CHR ''9''"
  by (auto simp: generate_code_def zero_padded_def Let_def less_eq_char_def dest: decimal_digits)

lemma trim_code: "trim_space (generate_code hmac key w) = generate_code hmac key w"
  by (rule trim_space_id) (auto simp: list_all_iff is_space_def less_eq_char_def dest!: code_digits)

lemma counter_exact:
  assumes "0 \<le> t" "t < 2 ^ 63"
  shows "totp_counter t = word_of_int (t div 30)" "sint (totp_counter t) = t div 30"
proof -
  have u: "uint (word_of_int t :: 64 word) = t" "uint (word_of_int (t div 30) :: 64 word) = t div 30"
    using assms by (simp_all add: uint_word_of_int_eq take_bit_int_eq_self)
  then have "uint (totp_counter t) = uint (word_of_int (t div 30) :: 64 word)"
    by (simp add: totp_counter_def totp_period_def uint_div)
  then show c: "totp_counter t = word_of_int (t div 30)" by (simp add: word_uint_eq_iff)
  show "sint (totp_counter t) = t div 30"
    unfolding c using assms by (simp add: signed_of_int signed_take_bit_int_eq_self)
qed

lemma code_verifies:
  assumes "0 \<le> t" "t < 2 ^ 63"
  shows "verify_totp hmac (new_totp_secret buf) (generate_code hmac buf (totp_counter t)) t"
proof -
  have "word_of_int (sint (totp_counter t) + 0) = totp_counter t" by simp
  then have "list_ex (\<lambda>k. generate_code hmac buf (word_of_int (sint (totp_counter t) + k)) = generate_code hmac buf (totp_counter t)) totp_offsets"
    by (simp add: totp_offsets_def)
  then show ?thesis by (simp add: verify_totp_def key_of_secret Let_def trim_code code_length totp_digits_def)
qed

text \<open>
  C39: codes verify.  The code an app shows for a secret of NewTOTPSecret has six digits, and VerifyTOTP accepts
  it, with the secret typed in either case, whenever its clock is in the same or a
  neighbouring step of thirty seconds; what VerifyTOTP accepts is a code of one of those three
  steps.
\<close>

theorem totp_round_trip:
  assumes "0 \<le> t" and "t < 2 ^ 63" and "0 \<le> u" and "u < 2 ^ 63" and "\<bar>t div 30 - u div 30\<bar> \<le> 1"
    and "generate_totp hmac (new_totp_secret buf) t = Some code"
  shows "length code = 6 \<and> verify_totp hmac (new_totp_secret buf) code u \<and> verify_totp hmac (to_lower (new_totp_secret buf)) code u \<and>
    (verify_totp hmac (new_totp_secret buf) given u \<longrightarrow>
      (\<exists>k \<in> {u div 30 - 1, u div 30, u div 30 + 1}. trim_space given = generate_code hmac buf (word_of_int k)))"
proof -
  let ?k = "t div 30 - u div 30"
  have code: "code = generate_code hmac buf (word_of_int (t div 30))"
    using assms(6) by (simp add: generate_totp_def key_of_secret counter_exact(1) [OF assms(1,2)])
  have "?k = - 1 \<or> ?k = 0 \<or> ?k = 1" using assms(5) by arith
  then have k: "?k \<in> set totp_offsets" "sint (totp_counter u) + ?k = t div 30"
    by (auto simp: totp_offsets_def counter_exact(2) [OF assms(3,4)])
  then have v: "list_ex (\<lambda>k. generate_code hmac buf (word_of_int (sint (totp_counter u) + k)) = code) totp_offsets"
    unfolding list_ex_iff code by (intro bexI [of _ ?k]) simp_all
  moreover have "\<exists>k \<in> {u div 30 - 1, u div 30, u div 30 + 1}. trim_space given = generate_code hmac buf (word_of_int k)"
    if "verify_totp hmac (new_totp_secret buf) given u"
    using that by (auto simp: verify_totp_def key_of_secret Let_def totp_offsets_def counter_exact(2) [OF assms(3,4)] split: if_splits)
  ultimately show ?thesis
    by (simp add: verify_totp_def key_of_secret Let_def code trim_code code_length totp_digits_def)
qed

text \<open>An HMAC for the examples: the key and the message, cut to twenty bytes.\<close>

definition demo_hmac :: "string \<Rightarrow> string \<Rightarrow> string" where
  "demo_hmac k m = take 20 (rev m @ k @ replicate 20 CHR ''h'')"

theorem totp_round_trip_witness:
  "(let code = the (generate_totp demo_hmac (new_totp_secret ''secret'') 59)
    in length code = 6 \<and> verify_totp demo_hmac (new_totp_secret ''secret'') code 61)"
proof -
  have g: "generate_totp demo_hmac (new_totp_secret ''secret'') 59 = Some (generate_code demo_hmac ''secret'' (totp_counter 59))"
    by (simp add: generate_totp_def key_of_secret)
  from totp_round_trip [OF _ _ _ _ _ g, of 61] show ?thesis by (simp add: g Let_def)
qed

lemma normalize_recovery: "normalize_recovery_code (recovery_code buf) = take 10 (to_lower (base32_encode buf))"
proof -
  let ?r = "take 10 (base32_encode buf)"
  have l: "to_lower (take 5 ?r @ ''-'' @ drop 5 ?r) = to_lower (take 5 ?r) @ ''-'' @ to_lower (drop 5 ?r)"
    by (simp add: to_lower_def lower_char_def)
  have i: "to_lower (to_lower x) = to_lower x" for x by (simp add: to_lower_def letters_upper(5))
  have k: "filter (\<lambda>c. (CHR ''a'' \<le> c \<and> c \<le> CHR ''z'') \<or> (CHR ''0'' \<le> c \<and> c \<le> CHR ''9'')) (to_lower x) = to_lower x"
    if "set x \<subseteq> set base32_alphabet" for x
    using that letters_upper(3) by (intro filter_True) (auto simp: to_lower_def)
  have s: "set (take 5 ?r) \<subseteq> set base32_alphabet" "set (drop 5 ?r) \<subseteq> set base32_alphabet"
    using base32_letters by (meson in_set_dropD in_set_takeD subsetI)+
  have d: "to_lower ''-'' = ''-''" by (simp add: to_lower_def lower_char_def)
  show ?thesis
    unfolding normalize_recovery_code_def recovery_code_def Let_def i
    unfolding l filter_append k [OF s(1)] k [OF s(2)]
    using append_take_drop_id [of 5 ?r] by (simp add: to_lower_def take_map flip: map_append)
qed

end
