(* ===== verification/Accounts.thy ===== *)
theory Accounts
  imports Interleaving Totp "HOL-Library.Product_Lexorder"
begin

text \<open>
  The tables of accounts and credentials and the statements on them
  (src/internal/auth/repository.go, flows_repository.go, trusted_devices.go and the migrations
  0001, 0013, 0030, 0031, 0032).  Every function of the repository is one statement, except
  the two that open a transaction: those are one step, at the time of the transaction.
\<close>

section \<open>Tables\<close>

record account =
  us_id :: string
  us_name :: string
  us_email :: string
  us_verified :: "int option"
  us_password :: "string option"
  us_avatar :: "string option"
  us_secret :: "string option"
  us_enabled :: "int option"
  us_failed :: int
  us_locked :: "int option"
  us_sign_in :: "int option"
  us_created :: int
  us_updated :: int

record session_row =
  se_id :: string
  se_user :: string
  se_hash :: string
  se_agent :: string
  se_ip :: "string option"
  se_method :: string
  se_seen :: int
  se_expires :: int
  se_revoked :: "int option"
  se_created :: int

record email_token =
  et_id :: string
  et_user :: string
  et_email :: string
  et_hash :: string
  et_expires :: int
  et_used :: "int option"

record reset_token =
  pr_id :: string
  pr_user :: string
  pr_hash :: string
  pr_expires :: int
  pr_used :: "int option"

record magic_link =
  ml_id :: string
  ml_user :: string
  ml_email :: string
  ml_hash :: string
  ml_redirect :: "string option"
  ml_ip :: "string option"
  ml_expires :: int
  ml_used :: "int option"

record totp_challenge =
  tc_id :: string
  tc_user :: string
  tc_hash :: string
  tc_agent :: "string option"
  tc_ip :: "string option"
  tc_method :: string
  tc_attempts :: int
  tc_expires :: int
  tc_used :: "int option"

record recovery_row =
  rc_id :: string
  rc_user :: string
  rc_hash :: string
  rc_used :: "int option"

record device_row =
  td_id :: string
  td_user :: string
  td_hash :: string
  td_name :: string
  td_agent :: "string option"
  td_ip :: "string option"
  td_expires :: int
  td_last :: "int option"
  td_revoked :: "int option"
  td_created :: int

record oauth_account =
  oa_id :: string
  oa_user :: string
  oa_provider :: string
  oa_uid :: string

record oauth_state =
  os_id :: string
  os_hash :: string
  os_provider :: string
  os_redirect :: string
  os_expires :: int
  os_consumed :: "int option"

record auth_db =
  ad_users :: "account list"
  ad_sessions :: "session_row list"
  ad_verifications :: "email_token list"
  ad_resets :: "reset_token list"
  ad_links :: "magic_link list"
  ad_challenges :: "totp_challenge list"
  ad_recovery :: "recovery_row list"
  ad_devices :: "device_row list"
  ad_oauth :: "oauth_account list"
  ad_states :: "oauth_state list"

datatype auth_error = UnknownUser | EmailTaken | InvalidCredentials | WeakPassword | InvalidEmail | InvalidToken
  | ExpiredToken | AccountLocked | InvalidTotp | TotpNotEnabled | TotpAlreadyOn | PasswordMismatch | UnknownSession
  | UnknownDevice | OAuthDisabled | OAuthStateInvalid | OAuthRejected | OAuthEmailUnverified | OAuthDomainDenied

type_synonym 'r auth = "(auth_db, auth_error err + 'r) script"

section \<open>Users\<close>

text \<open>The struct User; a NULL password hash cannot be scanned into its string field.\<close>

record user_info =
  ui_id :: string
  ui_name :: string
  ui_email :: string
  ui_hash :: string
  ui_created :: int
  ui_method :: string

definition scan_user :: "string \<Rightarrow> account \<Rightarrow> auth_error err + user_info" where
  "scan_user m u = (case us_password u of None \<Rightarrow> Inl (Msg ''cannot scan NULL into *string'')
     | Some p \<Rightarrow> Inr \<lparr> ui_id = us_id u, ui_name = us_name u, ui_email = us_email u, ui_hash = p, ui_created = us_created u, ui_method = m \<rparr>)"

text \<open>The column email is citext.\<close>

definition same_email :: "string \<Rightarrow> string \<Rightarrow> bool" where
  "same_email a b \<longleftrightarrow> to_lower a = to_lower b"

definition set_user :: "string \<Rightarrow> (account \<Rightarrow> account) \<Rightarrow> auth_db \<Rightarrow> auth_db" where
  "set_user i f d = d\<lparr>ad_users := update_where (\<lambda>u. us_id u = i) f (ad_users d)\<rparr>"

definition new_account :: "string \<Rightarrow> string \<Rightarrow> string \<Rightarrow> string option \<Rightarrow> int \<Rightarrow> account" where
  "new_account i name email password t = \<lparr> us_id = i, us_name = name, us_email = email, us_verified = Some t,
     us_password = password, us_avatar = None, us_secret = None, us_enabled = None, us_failed = 0, us_locked = None,
     us_sign_in = None, us_created = t, us_updated = t \<rparr>"

text \<open>Any unique violation is reported as a taken address.\<close>

definition user_exists :: "string \<Rightarrow> string \<Rightarrow> auth_db \<Rightarrow> bool" where
  "user_exists i email d \<longleftrightarrow> list_ex (\<lambda>u. us_id u = i \<or> same_email (us_email u) email) (ad_users d)"

definition insert_user :: "string \<Rightarrow> string \<Rightarrow> string \<Rightarrow> string \<Rightarrow> unit auth" where
  "insert_user i name email hash = statement (\<lambda>t d.
     if user_exists i email d then (Inl (Err EmailTaken), d)
     else (Inr (), d\<lparr>ad_users := ad_users d @ [new_account i name email (Some hash) t]\<rparr>))"

definition user_by_email :: "string \<Rightarrow> user_info auth" where
  "user_by_email email = ask (\<lambda>_ d. case find (\<lambda>u. same_email (us_email u) email) (ad_users d) of
     None \<Rightarrow> Inl (Err UnknownUser) | Some u \<Rightarrow> scan_user '''' u)"

definition user_by_id :: "string \<Rightarrow> user_info auth" where
  "user_by_id i = ask (\<lambda>_ d. case lookup_key us_id i (ad_users d) of None \<Rightarrow> Inl (Err UnknownUser) | Some u \<Rightarrow> scan_user '''' u)"

definition any_user_exists :: "bool auth" where
  "any_user_exists = ask (\<lambda>_ d. Inr (ad_users d \<noteq> []))"

text \<open>lockState clears a lock that has passed and reports whether one is left.\<close>

definition lock_passed :: "int \<Rightarrow> account \<Rightarrow> bool" where
  "lock_passed t u \<longleftrightarrow> (case us_locked u of None \<Rightarrow> False | Some l \<Rightarrow> l \<le> t)"

definition unlocked :: "int \<Rightarrow> account \<Rightarrow> account" where
  "unlocked t u = (if lock_passed t u then u\<lparr>us_locked := None, us_failed := 0\<rparr> else u)"

definition is_locked :: "int \<Rightarrow> account \<Rightarrow> bool" where
  "is_locked t u \<longleftrightarrow> (case us_locked u of None \<Rightarrow> False | Some l \<Rightarrow> t < l)"

definition lock_state :: "string \<Rightarrow> bool auth" where
  "lock_state i = statement (\<lambda>t d. case lookup_key us_id i (ad_users d) of None \<Rightarrow> (Inl (Err UnknownUser), d)
     | Some u \<Rightarrow> (Inr (is_locked t (unlocked t u)), set_user i (unlocked t) d))"

definition failed_once_more :: "int \<Rightarrow> int \<Rightarrow> int \<Rightarrow> account \<Rightarrow> account" where
  "failed_once_more limit window t u = u\<lparr>us_failed := us_failed u + 1,
     us_locked := (if us_failed u + 1 \<ge> limit then Some (t + window) else us_locked u)\<rparr>"

definition record_failed_attempt :: "string \<Rightarrow> int \<Rightarrow> int \<Rightarrow> unit auth" where
  "record_failed_attempt i limit window =
     (let limit = (if limit \<le> 0 then 5 else limit) in change (\<lambda>t. set_user i (failed_once_more limit window t)))"

definition clear_failed_attempts :: "string \<Rightarrow> unit auth" where
  "clear_failed_attempts i = change (\<lambda>_. set_user i (\<lambda>u. u\<lparr>us_failed := 0, us_locked := None\<rparr>))"

definition mark_signed_in :: "string \<Rightarrow> unit auth" where
  "mark_signed_in i = change (\<lambda>t. set_user i (\<lambda>u. u\<lparr>us_sign_in := Some t\<rparr>))"

definition mark_email_verified :: "string \<Rightarrow> unit auth" where
  "mark_email_verified i = change (\<lambda>t. set_user i (\<lambda>u. u\<lparr>us_verified := (case us_verified u of None \<Rightarrow> Some t | v \<Rightarrow> v)\<rparr>))"

definition update_password :: "string \<Rightarrow> string \<Rightarrow> unit auth" where
  "update_password i hash = change (\<lambda>t. set_user i (\<lambda>u. u\<lparr>us_password := Some hash, us_updated := t\<rparr>))"

definition update_profile_row :: "string \<Rightarrow> string \<Rightarrow> string \<Rightarrow> unit auth" where
  "update_profile_row i name avatar = change (\<lambda>t. set_user i (\<lambda>u. u\<lparr>us_name := name, us_avatar := null_if avatar, us_updated := t\<rparr>))"

section \<open>Sessions\<close>

definition auth_methods :: "string list" where
  "auth_methods = [''password'', ''magic_link'', ''oauth'']"

text \<open>\<open>inet\<close> says which texts PostgreSQL takes as an address.\<close>

definition inet_ok :: "(string \<Rightarrow> bool) \<Rightarrow> string \<Rightarrow> bool" where
  "inet_ok inet ip \<longleftrightarrow> ip = '''' \<or> inet ip"

definition insert_session :: "(string \<Rightarrow> bool) \<Rightarrow> string \<Rightarrow> string \<Rightarrow> string \<Rightarrow> string \<Rightarrow> string \<Rightarrow> string \<Rightarrow> int \<Rightarrow> unit auth" where
  "insert_session inet i u h agent ip m expires = statement (\<lambda>t d.
     if i \<in> se_id ` set (ad_sessions d) \<or> h \<in> se_hash ` set (ad_sessions d) \<or> u \<notin> us_id ` set (ad_users d)
       \<or> \<not> inet_ok inet ip \<or> m \<notin> set auth_methods then (Inl Constraint, d)
     else (Inr (), d\<lparr>ad_sessions := ad_sessions d @ [\<lparr> se_id = i, se_user = u, se_hash = h, se_agent = agent, se_ip = null_if ip,
       se_method = m, se_seen = t, se_expires = expires, se_revoked = None, se_created = t \<rparr>]\<rparr>))"

definition live_session :: "int \<Rightarrow> session_row \<Rightarrow> bool" where
  "live_session t s \<longleftrightarrow> se_revoked s = None \<and> t < se_expires s"

text \<open>sessionUser: the UPDATE has happened when the row is scanned.\<close>

definition session_user :: "string \<Rightarrow> user_info auth" where
  "session_user h = statement (\<lambda>t d.
     case find (\<lambda>s. se_hash s = h \<and> live_session t s \<and> se_user s \<in> us_id ` set (ad_users d)) (ad_sessions d) of
       None \<Rightarrow> (Inl (Err UnknownUser), d)
     | Some s \<Rightarrow> (case lookup_key us_id (se_user s) (ad_users d) of None \<Rightarrow> Inl (Err UnknownUser) | Some u \<Rightarrow> scan_user (se_method s) u,
         d\<lparr>ad_sessions := update_where (\<lambda>r. se_id r = se_id s) (\<lambda>r. r\<lparr>se_seen := t\<rparr>) (ad_sessions d)\<rparr>))"

definition revoke_sessions_where :: "(session_row \<Rightarrow> bool) \<Rightarrow> int \<Rightarrow> auth_db \<Rightarrow> auth_db" where
  "revoke_sessions_where P t d = d\<lparr>ad_sessions := update_where (\<lambda>s. P s \<and> se_revoked s = None) (\<lambda>s. s\<lparr>se_revoked := Some t\<rparr>) (ad_sessions d)\<rparr>"

definition revoke_session_row :: "string \<Rightarrow> unit auth" where
  "revoke_session_row h = change (revoke_sessions_where (\<lambda>s. se_hash s = h))"

definition revoke_session_by_id :: "string \<Rightarrow> string \<Rightarrow> unit auth" where
  "revoke_session_by_id u i = statement (\<lambda>t d.
     if list_ex (\<lambda>s. se_id s = i \<and> se_user s = u \<and> se_revoked s = None) (ad_sessions d)
     then (Inr (), revoke_sessions_where (\<lambda>s. se_id s = i \<and> se_user s = u) t d) else (Inl (Err UnknownSession), d))"

text \<open>revokeAllSessions with the hash to spare, or none.\<close>

definition revoke_all_sessions :: "string \<Rightarrow> string option \<Rightarrow> unit auth" where
  "revoke_all_sessions u keep = change (revoke_sessions_where (\<lambda>s. se_user s = u \<and> (case keep of None \<Rightarrow> True | Some h \<Rightarrow> se_hash s \<noteq> h)))"

record session_info =
  si_id :: string
  si_agent :: string
  si_ip :: string
  si_seen :: int
  si_created :: int
  si_expires :: int
  si_current :: bool

definition session_key :: "session_row \<Rightarrow> int \<times> string" where
  "session_key s = (se_seen s, se_id s)"

definition show_session :: "string \<Rightarrow> session_row \<Rightarrow> session_info" where
  "show_session h s = \<lparr> si_id = se_id s, si_agent = se_agent s, si_ip = (case se_ip s of None \<Rightarrow> '''' | Some a \<Rightarrow> a),
     si_seen = se_seen s, si_created = se_created s, si_expires = se_expires s, si_current = (se_hash s = h) \<rparr>"

definition page_limit :: "int \<Rightarrow> nat" where
  "page_limit n = nat (if n \<le> 0 \<or> n > 201 then 101 else n)"

lemma page_limit_exact: "0 < n \<Longrightarrow> n \<le> 201 \<Longrightarrow> page_limit (int n) = n"
  by (simp add: page_limit_def)

definition session_page :: "string \<Rightarrow> (int \<times> string) option \<Rightarrow> int \<Rightarrow> int \<Rightarrow> auth_db \<Rightarrow> session_row list" where
  "session_page u before limit t d = take (page_limit limit) (rev (sort_key session_key
     (filter (\<lambda>s. se_user s = u \<and> live_session t s \<and> (case before of None \<Rightarrow> True | Some b \<Rightarrow> session_key s < b)) (ad_sessions d))))"

definition list_sessions_page :: "string \<Rightarrow> string \<Rightarrow> (int \<times> string) option \<Rightarrow> int \<Rightarrow> session_info list auth" where
  "list_sessions_page u h before limit = ask (\<lambda>t d. Inr (map (show_session h) (session_page u before limit t d)))"

section \<open>Verification, reset and sign-in links\<close>

definition insert_verification_token :: "string \<Rightarrow> string \<Rightarrow> string \<Rightarrow> string \<Rightarrow> int \<Rightarrow> unit auth" where
  "insert_verification_token i u email h expires = checked (\<lambda>d.
     if i \<in> et_id ` set (ad_verifications d) \<or> h \<in> et_hash ` set (ad_verifications d) \<or> u \<notin> us_id ` set (ad_users d) then None
     else Some (d\<lparr>ad_verifications := ad_verifications d @ [\<lparr> et_id = i, et_user = u, et_email = email, et_hash = h,
       et_expires = expires, et_used = None \<rparr>]\<rparr>))"

definition use_verification :: "string \<Rightarrow> (string \<times> int) auth" where
  "use_verification h = statement (\<lambda>t d.
     case find (\<lambda>r. et_hash r = h \<and> et_used r = None) (ad_verifications d) of None \<Rightarrow> (Inl (Err InvalidToken), d)
     | Some r \<Rightarrow> (Inr (et_user r, et_expires r), d\<lparr>ad_verifications := update_where (\<lambda>r. et_hash r = h \<and> et_used r = None)
         (\<lambda>r. r\<lparr>et_used := Some t\<rparr>) (ad_verifications d)\<rparr>))"

text \<open>The check of the expiry after a token has been used up.\<close>

definition unless_expired :: "int \<Rightarrow> 'r auth \<Rightarrow> 'r auth" where
  "unless_expired expires k = Clock (\<lambda>now. if expires < now then refuse (Err ExpiredToken) else k)"

definition consume_verification_token :: "string \<Rightarrow> string auth" where
  "consume_verification_token h = andthen (use_verification h) (\<lambda>(u, expires).
     unless_expired expires (andthen (mark_email_verified u) (\<lambda>_. answer u)))"

definition insert_reset_token :: "string \<Rightarrow> string \<Rightarrow> string \<Rightarrow> int \<Rightarrow> unit auth" where
  "insert_reset_token i u h expires = checked (\<lambda>d.
     if i \<in> pr_id ` set (ad_resets d) \<or> h \<in> pr_hash ` set (ad_resets d) \<or> u \<notin> us_id ` set (ad_users d) then None
     else Some (d\<lparr>ad_resets := ad_resets d @ [\<lparr> pr_id = i, pr_user = u, pr_hash = h, pr_expires = expires, pr_used = None \<rparr>]\<rparr>))"

definition use_reset :: "string \<Rightarrow> (string \<times> int) auth" where
  "use_reset h = statement (\<lambda>t d.
     case find (\<lambda>r. pr_hash r = h \<and> pr_used r = None) (ad_resets d) of None \<Rightarrow> (Inl (Err InvalidToken), d)
     | Some r \<Rightarrow> (Inr (pr_user r, pr_expires r), d\<lparr>ad_resets := update_where (\<lambda>r. pr_hash r = h \<and> pr_used r = None)
         (\<lambda>r. r\<lparr>pr_used := Some t\<rparr>) (ad_resets d)\<rparr>))"

definition consume_reset_token :: "string \<Rightarrow> string auth" where
  "consume_reset_token h = andthen (use_reset h) (\<lambda>(u, expires). unless_expired expires (answer u))"

definition insert_magic_link :: "(string \<Rightarrow> bool) \<Rightarrow> string \<Rightarrow> string \<Rightarrow> string \<Rightarrow> string \<Rightarrow> string \<Rightarrow> string \<Rightarrow> int \<Rightarrow> unit auth" where
  "insert_magic_link inet i u email h redirect ip expires = checked (\<lambda>d.
     if i \<in> ml_id ` set (ad_links d) \<or> h \<in> ml_hash ` set (ad_links d) \<or> u \<notin> us_id ` set (ad_users d) \<or> \<not> inet_ok inet ip then None
     else Some (d\<lparr>ad_links := ad_links d @ [\<lparr> ml_id = i, ml_user = u, ml_email = email, ml_hash = h, ml_redirect = null_if redirect,
       ml_ip = null_if ip, ml_expires = expires, ml_used = None \<rparr>]\<rparr>))"

text \<open>The UPDATE joins the user: owner, expiry, target and whether the address is still the same.\<close>

definition use_link :: "string \<Rightarrow> (string \<times> int \<times> string option \<times> bool) auth" where
  "use_link h = statement (\<lambda>t d.
     case find (\<lambda>r. ml_hash r = h \<and> ml_used r = None) (ad_links d) of None \<Rightarrow> (Inl (Err InvalidToken), d)
     | Some r \<Rightarrow> (case lookup_key us_id (ml_user r) (ad_users d) of None \<Rightarrow> (Inl (Err InvalidToken), d)
       | Some u \<Rightarrow> (Inr (ml_user r, ml_expires r, ml_redirect r, same_email (us_email u) (ml_email r)),
           d\<lparr>ad_links := update_where (\<lambda>r. ml_hash r = h \<and> ml_used r = None) (\<lambda>r. r\<lparr>ml_used := Some t\<rparr>) (ad_links d)\<rparr>)))"

definition consume_magic_link :: "string \<Rightarrow> (string \<times> string) auth" where
  "consume_magic_link h = andthen (use_link h) (\<lambda>(u, expires, redirect, current).
     unless_expired expires (if \<not> current then refuse (Err InvalidToken)
       else answer (u, case redirect of None \<Rightarrow> '''' | Some r \<Rightarrow> r)))"

section \<open>The second factor\<close>

definition has_totp :: "account \<Rightarrow> bool" where
  "has_totp u \<longleftrightarrow> us_enabled u \<noteq> None \<and> us_secret u \<noteq> None"

definition totp_enabled :: "string \<Rightarrow> bool auth" where
  "totp_enabled i = ask (\<lambda>_ d. case lookup_key us_id i (ad_users d) of None \<Rightarrow> Inl (Err UnknownUser) | Some u \<Rightarrow> Inr (has_totp u))"

definition totp_secret :: "string \<Rightarrow> string auth" where
  "totp_secret i = ask (\<lambda>_ d. case lookup_key us_id i (ad_users d) of None \<Rightarrow> Inl (Msg ''no rows in result set'')
     | Some u \<Rightarrow> (case us_secret u of None \<Rightarrow> Inl (Err TotpNotEnabled) | Some s \<Rightarrow> Inr s))"

text \<open>The transactions of enableTOTP and disableTOTP; \<open>codes\<close> pairs the new identifiers with the hashes.\<close>

definition recovery_rows :: "string \<Rightarrow> (string \<times> string) list \<Rightarrow> recovery_row list" where
  "recovery_rows u codes = map (\<lambda>(i, h). \<lparr> rc_id = i, rc_user = u, rc_hash = h, rc_used = None \<rparr>) codes"

definition enable_totp :: "string \<Rightarrow> string \<Rightarrow> (string \<times> string) list \<Rightarrow> unit auth" where
  "enable_totp u secret codes = statement (\<lambda>t d.
     let d1 = set_user u (\<lambda>r. r\<lparr>us_secret := Some secret, us_enabled := Some t, us_updated := t\<rparr>) d;
         rest = delete_where (\<lambda>r. rc_user r = u) (ad_recovery d1)
     in if codes \<noteq> [] \<and> u \<notin> us_id ` set (ad_users d) \<or> \<not> distinct (map fst codes) \<or> \<not> distinct (map snd codes)
           \<or> list_ex (\<lambda>c. fst c \<in> rc_id ` set rest) codes
        then (Inl Constraint, d) else (Inr (), d1\<lparr>ad_recovery := rest @ recovery_rows u codes\<rparr>))"

definition disable_totp_rows :: "string \<Rightarrow> unit auth" where
  "disable_totp_rows u = change (\<lambda>t d.
     let d1 = set_user u (\<lambda>r. r\<lparr>us_secret := None, us_enabled := None, us_updated := t\<rparr>) d
     in d1\<lparr>ad_recovery := delete_where (\<lambda>r. rc_user r = u) (ad_recovery d1)\<rparr>)"

definition insert_totp_challenge :: "(string \<Rightarrow> bool) \<Rightarrow> string \<Rightarrow> string \<Rightarrow> string \<Rightarrow> string \<Rightarrow> string \<Rightarrow> string \<Rightarrow> int \<Rightarrow> unit auth" where
  "insert_totp_challenge inet i u h agent ip m expires = checked (\<lambda>d.
     if i \<in> tc_id ` set (ad_challenges d) \<or> h \<in> tc_hash ` set (ad_challenges d) \<or> u \<notin> us_id ` set (ad_users d)
       \<or> \<not> inet_ok inet ip \<or> m \<notin> set auth_methods then None
     else Some (d\<lparr>ad_challenges := ad_challenges d @ [\<lparr> tc_id = i, tc_user = u, tc_hash = h, tc_agent = null_if agent,
       tc_ip = null_if ip, tc_method = m, tc_attempts = 0, tc_expires = expires, tc_used = None \<rparr>]\<rparr>))"

definition find_challenge :: "string \<Rightarrow> (string \<times> int \<times> string \<times> int) auth" where
  "find_challenge h = ask (\<lambda>_ d. case find (\<lambda>c. tc_hash c = h \<and> tc_used c = None) (ad_challenges d) of
     None \<Rightarrow> Inl (Err InvalidToken) | Some c \<Rightarrow> Inr (tc_user c, tc_attempts c, tc_method c, tc_expires c))"

definition load_totp_challenge :: "string \<Rightarrow> (string \<times> int \<times> string) auth" where
  "load_totp_challenge h = andthen (find_challenge h) (\<lambda>(u, attempts, m, expires). unless_expired expires (answer (u, attempts, m)))"

definition set_challenge :: "string \<Rightarrow> (totp_challenge \<Rightarrow> totp_challenge) \<Rightarrow> auth_db \<Rightarrow> auth_db" where
  "set_challenge h f d = d\<lparr>ad_challenges := update_where (\<lambda>c. tc_hash c = h) f (ad_challenges d)\<rparr>"

definition record_totp_attempt :: "string \<Rightarrow> unit auth" where
  "record_totp_attempt h = change (\<lambda>_. set_challenge h (\<lambda>c. c\<lparr>tc_attempts := tc_attempts c + 1\<rparr>))"

definition consume_totp_challenge :: "string \<Rightarrow> unit auth" where
  "consume_totp_challenge h = change (\<lambda>t. set_challenge h (\<lambda>c. c\<lparr>tc_used := Some t\<rparr>))"

definition consume_recovery_code :: "string \<Rightarrow> string \<Rightarrow> bool auth" where
  "consume_recovery_code u h = statement (\<lambda>t d. let fits = (\<lambda>r. rc_user r = u \<and> rc_hash r = h \<and> rc_used r = None) in
     (Inr (length (filter fits (ad_recovery d)) = 1),
      d\<lparr>ad_recovery := update_where fits (\<lambda>r. r\<lparr>rc_used := Some t\<rparr>) (ad_recovery d)\<rparr>))"

definition count_unused_recovery_codes :: "string \<Rightarrow> nat auth" where
  "count_unused_recovery_codes u = ask (\<lambda>_ d. Inr (length (filter (\<lambda>r. rc_user r = u \<and> rc_used r = None) (ad_recovery d))))"

section \<open>Trusted devices\<close>

definition insert_trusted_device :: "(string \<Rightarrow> bool) \<Rightarrow> string \<Rightarrow> string \<Rightarrow> string \<Rightarrow> string \<Rightarrow> string \<Rightarrow> int \<Rightarrow> unit auth" where
  "insert_trusted_device inet i u h agent ip expires = statement (\<lambda>t d.
     if i \<in> td_id ` set (ad_devices d) \<or> h \<in> td_hash ` set (ad_devices d) \<or> u \<notin> us_id ` set (ad_users d) \<or> \<not> inet_ok inet ip
     then (Inl Constraint, d)
     else (Inr (), d\<lparr>ad_devices := ad_devices d @ [\<lparr> td_id = i, td_user = u, td_hash = h, td_name = agent, td_agent = null_if agent,
       td_ip = null_if ip, td_expires = expires, td_last = None, td_revoked = None, td_created = t \<rparr>]\<rparr>))"

definition live_device :: "int \<Rightarrow> device_row \<Rightarrow> bool" where
  "live_device t r \<longleftrightarrow> td_revoked r = None \<and> t < td_expires r"

definition touch_trusted_device :: "string \<Rightarrow> string \<Rightarrow> bool auth" where
  "touch_trusted_device u h = statement (\<lambda>t d. let fits = (\<lambda>r. td_user r = u \<and> td_hash r = h \<and> live_device t r) in
     (Inr (list_ex fits (ad_devices d)), d\<lparr>ad_devices := update_where fits (\<lambda>r. r\<lparr>td_last := Some t\<rparr>) (ad_devices d)\<rparr>))"

definition revoke_devices_where :: "(device_row \<Rightarrow> bool) \<Rightarrow> int \<Rightarrow> auth_db \<Rightarrow> auth_db" where
  "revoke_devices_where P t d = d\<lparr>ad_devices := update_where (\<lambda>r. P r \<and> td_revoked r = None) (\<lambda>r. r\<lparr>td_revoked := Some t\<rparr>) (ad_devices d)\<rparr>"

definition revoke_trusted_device :: "string \<Rightarrow> string \<Rightarrow> unit auth" where
  "revoke_trusted_device u i = statement (\<lambda>t d.
     if list_ex (\<lambda>r. td_id r = i \<and> td_user r = u \<and> td_revoked r = None) (ad_devices d)
     then (Inr (), revoke_devices_where (\<lambda>r. td_id r = i \<and> td_user r = u) t d) else (Inl (Err UnknownDevice), d))"

definition revoke_all_trusted_devices :: "string \<Rightarrow> unit auth" where
  "revoke_all_trusted_devices u = change (revoke_devices_where (\<lambda>r. td_user r = u))"

definition revoke_trusted_device_by_hash :: "string \<Rightarrow> string \<Rightarrow> unit auth" where
  "revoke_trusted_device_by_hash u h = change (revoke_devices_where (\<lambda>r. td_user r = u \<and> td_hash r = h))"

record device_info =
  di_id :: string
  di_name :: string
  di_agent :: string
  di_ip :: string
  di_created :: int
  di_last :: "int option"
  di_expires :: int
  di_current :: bool

definition device_key :: "device_row \<Rightarrow> int \<times> string" where
  "device_key r = (td_created r, td_id r)"

definition show_device :: "string \<Rightarrow> device_row \<Rightarrow> device_info" where
  "show_device h r = \<lparr> di_id = td_id r, di_name = td_name r, di_agent = (case td_agent r of None \<Rightarrow> '''' | Some a \<Rightarrow> a),
     di_ip = (case td_ip r of None \<Rightarrow> '''' | Some a \<Rightarrow> a), di_created = td_created r, di_last = td_last r, di_expires = td_expires r,
     di_current = (td_hash r = h) \<rparr>"

definition device_list :: "string \<Rightarrow> int \<Rightarrow> auth_db \<Rightarrow> device_row list" where
  "device_list u t d = rev (sort_key device_key (filter (\<lambda>r. td_user r = u \<and> live_device t r) (ad_devices d)))"

definition list_trusted_devices :: "string \<Rightarrow> string \<Rightarrow> device_info list auth" where
  "list_trusted_devices u h = ask (\<lambda>t d. Inr (map (show_device h) (device_list u t d)))"

definition device_page :: "string \<Rightarrow> (int \<times> string) option \<Rightarrow> int \<Rightarrow> int \<Rightarrow> auth_db \<Rightarrow> device_row list" where
  "device_page u before limit t d = take (page_limit limit) (rev (sort_key device_key
     (filter (\<lambda>r. td_user r = u \<and> live_device t r \<and> (case before of None \<Rightarrow> True | Some b \<Rightarrow> device_key r < b)) (ad_devices d))))"

definition list_trusted_devices_page :: "string \<Rightarrow> string \<Rightarrow> (int \<times> string) option \<Rightarrow> int \<Rightarrow> device_info list auth" where
  "list_trusted_devices_page u h before limit = ask (\<lambda>t d. Inr (map (show_device h) (device_page u before limit t d)))"

section \<open>OAuth\<close>

text \<open>BeginOAuth first deletes the states that are over.\<close>

definition state_over :: "int \<Rightarrow> oauth_state \<Rightarrow> bool" where
  "state_over t s \<longleftrightarrow> os_expires s < t \<or> (case os_consumed s of None \<Rightarrow> False | Some c \<Rightarrow> c < t - 86400000000000)"

definition delete_old_states :: "unit auth" where
  "delete_old_states = change (\<lambda>t d. d\<lparr>ad_states := delete_where (state_over t) (ad_states d)\<rparr>)"

definition insert_state :: "string \<Rightarrow> string \<Rightarrow> string \<Rightarrow> string \<Rightarrow> int \<Rightarrow> unit auth" where
  "insert_state i h provider redirect expires = checked (\<lambda>d.
     if i \<in> os_id ` set (ad_states d) \<or> h \<in> os_hash ` set (ad_states d) then None
     else Some (d\<lparr>ad_states := ad_states d @ [\<lparr> os_id = i, os_hash = h, os_provider = provider, os_redirect = redirect,
       os_expires = expires, os_consumed = None \<rparr>]\<rparr>))"

definition open_state :: "string \<Rightarrow> string \<Rightarrow> int \<Rightarrow> oauth_state \<Rightarrow> bool" where
  "open_state h provider t s \<longleftrightarrow> os_hash s = h \<and> os_provider s = provider \<and> os_consumed s = None \<and> t < os_expires s"

definition use_state :: "string \<Rightarrow> string \<Rightarrow> string auth" where
  "use_state h provider = statement (\<lambda>t d.
     case find (open_state h provider t) (ad_states d) of None \<Rightarrow> (Inl (Err OAuthStateInvalid), d)
     | Some s \<Rightarrow> (Inr (os_redirect s), d\<lparr>ad_states := update_where (open_state h provider t) (\<lambda>s. s\<lparr>os_consumed := Some t\<rparr>) (ad_states d)\<rparr>))"

text \<open>
  The transaction of linkOAuthIdentity: the user of the identity, else the one with its
  address, else a new one; then the identity is linked.  The scans read COALESCE(password_hash, '').
\<close>

record oauth_identity =
  oi_subject :: string
  oi_email :: string
  oi_name :: string
  oi_verified :: bool

definition linked_account :: "string \<Rightarrow> string \<Rightarrow> auth_db \<Rightarrow> account option" where
  "linked_account provider subject d = (case find (\<lambda>a. oa_provider a = provider \<and> oa_uid a = subject) (ad_oauth d) of
     None \<Rightarrow> None | Some a \<Rightarrow> lookup_key us_id (oa_user a) (ad_users d))"

definition info_of :: "account \<Rightarrow> user_info" where
  "info_of u = \<lparr> ui_id = us_id u, ui_name = us_name u, ui_email = us_email u, ui_hash = (case us_password u of None \<Rightarrow> '''' | Some p \<Rightarrow> p),
     ui_created = us_created u, ui_method = '''' \<rparr>"

definition link_account :: "string \<Rightarrow> string \<Rightarrow> string \<Rightarrow> account \<Rightarrow> auth_db \<Rightarrow> (auth_error err + user_info) \<times> auth_db" where
  "link_account i provider subject u d =
     (if list_ex (\<lambda>a. oa_provider a = provider \<and> oa_uid a = subject) (ad_oauth d)
      then (case linked_account provider subject d of None \<Rightarrow> (Inl (Msg ''no rows in result set''), d) | Some v \<Rightarrow> (Inr (info_of v), d))
      else if i \<in> oa_id ` set (ad_oauth d) then (Inl Constraint, d)
      else (Inr (info_of u), d\<lparr>ad_oauth := ad_oauth d @ [\<lparr> oa_id = i, oa_user = us_id u, oa_provider = provider, oa_uid = subject \<rparr>]\<rparr>))"

definition link_identity :: "string \<Rightarrow> string \<Rightarrow> string \<Rightarrow> oauth_identity \<Rightarrow> int \<Rightarrow> auth_db \<Rightarrow> (auth_error err + user_info) \<times> auth_db" where
  "link_identity new_user new_link provider x t d = (case linked_account provider (oi_subject x) d of
     Some u \<Rightarrow> link_account new_link provider (oi_subject x) u d
   | None \<Rightarrow> (case find (\<lambda>u. same_email (us_email u) (oi_email x)) (ad_users d) of
       Some u \<Rightarrow> link_account new_link provider (oi_subject x) u d
     | None \<Rightarrow> if new_user \<in> us_id ` set (ad_users d) then (Inl Constraint, d)
         else let u = new_account new_user (oi_name x) (oi_email x) None t
              in link_account new_link provider (oi_subject x) u (d\<lparr>ad_users := ad_users d @ [u]\<rparr>)))"

definition link_oauth_identity :: "string \<Rightarrow> string \<Rightarrow> string \<Rightarrow> oauth_identity \<Rightarrow> user_info auth" where
  "link_oauth_identity new_user new_link provider x = statement (\<lambda>t d.
     case link_identity new_user new_link provider x t d of (Inl e, _) \<Rightarrow> (Inl e, d) | (Inr u, d') \<Rightarrow> (Inr u, d'))"

end
