(* ===== verification/Authentication.thy ===== *)
theory Authentication
  imports Accounts
begin

text \<open>
  The sign-in flows (src/internal/auth/service.go, flows.go, trusted_devices.go, oauth.go): one
  script per operation of the service, and \<open>serve\<close>, which runs the operation a request asks
  for.  Hashing, bcrypt, HMAC, the exchange with the OAuth provider and the text PostgreSQL
  takes for an address are arguments, as are the random values a request draws.
\<close>

section \<open>Configuration\<close>

record oauth_options =
  oo_provider :: string
  oo_profile :: string
  oo_client :: string
  oo_authorization_url :: string
  oo_redirect_url :: string
  oo_scopes :: "string list"
  oo_domains :: "string list"

text \<open>
  \<open>av_bcrypt\<close> is HashPassword for a salt, \<open>av_check\<close> VerifyPassword of a hash and a password,
  \<open>av_exchange\<close> the JSON value the userinfo endpoint answers for an authorization code.
\<close>

record auth_env =
  av_sha :: "string \<Rightarrow> string"
  av_bcrypt :: "string \<Rightarrow> string \<Rightarrow> string option"
  av_check :: "string \<Rightarrow> string \<Rightarrow> bool"
  av_hmac :: "string \<Rightarrow> string \<Rightarrow> string"
  av_inet :: "string \<Rightarrow> bool"
  av_exchange :: "string \<Rightarrow> json option"
  av_lifetime :: int
  av_attempts :: int
  av_window :: int
  av_oauth :: "oauth_options option"

text \<open>The defaults of New.\<close>

definition new_service :: "auth_env \<Rightarrow> auth_env" where
  "new_service e = e\<lparr>av_attempts := (if av_attempts e \<le> 0 then 5 else av_attempts e),
     av_window := (if av_window e \<le> 0 then 15 * 60 * 1000000000 else av_window e)\<rparr>"

definition seconds :: "int \<Rightarrow> int" where "seconds n = n * 1000000000"

definition verification_lifetime :: int where "verification_lifetime = seconds (24 * 3600)"
definition reset_lifetime :: int where "reset_lifetime = seconds 3600"
definition link_lifetime :: int where "link_lifetime = seconds (15 * 60)"
definition challenge_lifetime :: int where "challenge_lifetime = seconds (5 * 60)"
definition device_lifetime :: int where "device_lifetime = seconds (30 * 24 * 3600)"
definition state_lifetime :: int where "state_lifetime = seconds (10 * 60)"
definition recovery_code_count :: nat where "recovery_code_count = 10"
definition max_totp_attempts :: int where "max_totp_attempts = 5"
definition min_password_length :: nat where "min_password_length = 12"

text \<open>The identifiers and tokens a request draws, should it need them.\<close>

record draws =
  dr_session :: "string \<times> string"
  dr_challenge :: "string \<times> string"
  dr_device :: "string \<times> string"

text \<open>A token and its expiry: Session, Challenge, TrustedDeviceCredential.\<close>

type_synonym credential = "string \<times> int"

record sign_in_result =
  sr_user :: user_info
  sr_session :: "credential option"
  sr_challenge :: "credential option"
  sr_device :: "credential option"

section \<open>Addresses and passwords\<close>

definition normalize_email :: "string \<Rightarrow> string" where
  "normalize_email s = to_lower (trim_space s)"

definition looks_like_email :: "string \<Rightarrow> bool" where
  "looks_like_email s = (let at = length (takeWhile (\<lambda>c. c \<noteq> CHR ''@'') s) in
     0 < at \<and> Suc at < length s \<and> CHR ''@'' \<notin> set (drop (Suc at) s))"

text \<open>HashPassword of a password for a continuation.\<close>

definition with_hash :: "auth_env \<Rightarrow> string \<Rightarrow> string \<Rightarrow> (string \<Rightarrow> 'r auth) \<Rightarrow> 'r auth" where
  "with_hash e salt pw k = (case av_bcrypt e salt pw of None \<Rightarrow> refuse (Msg ''bcrypt: password length exceeds 72 bytes'') | Some h \<Rightarrow> k h)"

definition optional_hash :: "auth_env \<Rightarrow> string \<Rightarrow> string option" where
  "optional_hash e tok = (if tok = '''' then None else Some (av_sha e tok))"

definition sign_up :: "auth_env \<Rightarrow> string \<Rightarrow> string \<Rightarrow> string \<Rightarrow> string \<Rightarrow> string \<Rightarrow> user_info auth" where
  "sign_up e i salt name email pw = (let email = normalize_email email in
     if \<not> looks_like_email email then refuse (Err InvalidEmail)
     else if length pw < 12 then refuse (Err WeakPassword)
     else with_hash e salt pw (\<lambda>hash. andthen (insert_user i (trim_space name) email hash) (\<lambda>_.
       answer \<lparr> ui_id = i, ui_name = name, ui_email = email, ui_hash = '''', ui_created = 0, ui_method = '''' \<rparr>)))"

text \<open>A user lookup whose unknown user becomes a refused credential.\<close>

definition known_user :: "string \<Rightarrow> user_info auth" where
  "known_user email = script_bind (user_by_email (normalize_email email)) (\<lambda>r. case r of
     Inl (Err UnknownUser) \<Rightarrow> refuse (Err InvalidCredentials) | Inl x \<Rightarrow> refuse x | Inr u \<Rightarrow> answer u)"

definition authenticate :: "auth_env \<Rightarrow> string \<Rightarrow> string \<Rightarrow> user_info auth" where
  "authenticate e email pw = andthen (known_user email) (\<lambda>u.
     if \<not> av_check e (ui_hash u) pw then refuse (Err InvalidCredentials) else answer u)"

section \<open>Sessions, challenges, devices\<close>

definition known_method :: "string \<Rightarrow> string" where
  "known_method m = (if m \<notin> set auth_methods then ''password'' else m)"

definition create_session :: "auth_env \<Rightarrow> string \<Rightarrow> string \<Rightarrow> string \<Rightarrow> string \<Rightarrow> string \<times> string \<Rightarrow> credential auth" where
  "create_session e u agent ip m new = Clock (\<lambda>now. let expires = now + av_lifetime e in
     andthen (insert_session (av_inet e) (fst new) u (av_sha e (snd new)) agent ip (known_method m) expires) (\<lambda>_. answer (snd new, expires)))"

definition user_for_session :: "auth_env \<Rightarrow> string \<Rightarrow> user_info auth" where
  "user_for_session e tok = session_user (av_sha e tok)"

definition logout :: "auth_env \<Rightarrow> string \<Rightarrow> unit auth" where
  "logout e tok = revoke_session_row (av_sha e tok)"

definition issue_challenge :: "auth_env \<Rightarrow> string \<Rightarrow> string \<Rightarrow> string \<Rightarrow> string \<Rightarrow> string \<times> string \<Rightarrow> credential auth" where
  "issue_challenge e u agent ip m new = Clock (\<lambda>now. let expires = now + challenge_lifetime in
     andthen (insert_totp_challenge (av_inet e) (fst new) u (av_sha e (snd new)) agent ip m expires) (\<lambda>_. answer (snd new, expires)))"

definition issue_trusted_device :: "auth_env \<Rightarrow> string \<Rightarrow> string \<Rightarrow> string \<Rightarrow> string \<times> string \<Rightarrow> credential auth" where
  "issue_trusted_device e u agent ip new = Clock (\<lambda>now. let expires = now + device_lifetime in
     andthen (insert_trusted_device (av_inet e) (fst new) u (av_sha e (snd new)) agent ip expires) (\<lambda>_. answer (snd new, expires)))"

definition trusted_device_valid :: "auth_env \<Rightarrow> string \<Rightarrow> string \<Rightarrow> bool auth" where
  "trusted_device_valid e u tok = (if tok = '''' then answer False else touch_trusted_device u (av_sha e tok))"

section \<open>Signing in\<close>

definition create_session_result :: "auth_env \<Rightarrow> user_info \<Rightarrow> string \<Rightarrow> string \<Rightarrow> string \<Rightarrow> draws \<Rightarrow> sign_in_result auth" where
  "create_session_result e user agent ip m dr = andthen (create_session e (ui_id user) agent ip m (dr_session dr)) (\<lambda>s.
     andthen (mark_signed_in (ui_id user)) (\<lambda>_.
       answer \<lparr> sr_user = user, sr_session = Some s, sr_challenge = None, sr_device = None \<rparr>))"

definition finish_user_sign_in :: "auth_env \<Rightarrow> user_info \<Rightarrow> string \<Rightarrow> string \<Rightarrow> string \<Rightarrow> string \<Rightarrow> draws \<Rightarrow> sign_in_result auth" where
  "finish_user_sign_in e user agent ip trusted m dr = andthen (totp_enabled (ui_id user)) (\<lambda>enabled.
     if enabled then andthen (trusted_device_valid e (ui_id user) trusted) (\<lambda>ok.
         if ok then create_session_result e user agent ip m dr
         else andthen (issue_challenge e (ui_id user) agent ip m (dr_challenge dr)) (\<lambda>c.
           answer \<lparr> sr_user = user, sr_session = None, sr_challenge = Some c, sr_device = None \<rparr>))
     else create_session_result e user agent ip m dr)"

definition sign_in :: "auth_env \<Rightarrow> string \<Rightarrow> string \<Rightarrow> string \<Rightarrow> string \<Rightarrow> string \<Rightarrow> draws \<Rightarrow> sign_in_result auth" where
  "sign_in e email pw agent ip trusted dr = andthen (known_user email) (\<lambda>user.
     andthen (lock_state (ui_id user)) (\<lambda>locked.
       if locked then refuse (Err AccountLocked)
       else if \<not> av_check e (ui_hash user) pw then
         andthen (record_failed_attempt (ui_id user) (av_attempts e) (av_window e)) (\<lambda>_. refuse (Err InvalidCredentials))
       else andthen (clear_failed_attempts (ui_id user)) (\<lambda>_. finish_user_sign_in e user agent ip trusted ''password'' dr)))"

section \<open>Verification and reset\<close>

definition issue_email_verification :: "auth_env \<Rightarrow> string \<Rightarrow> string \<Rightarrow> string \<times> string \<Rightarrow> credential auth" where
  "issue_email_verification e u email new = Clock (\<lambda>now. let expires = now + verification_lifetime in
     andthen (insert_verification_token (fst new) u (normalize_email email) (av_sha e (snd new)) expires) (\<lambda>_. answer (snd new, expires)))"

definition verify_email :: "auth_env \<Rightarrow> string \<Rightarrow> user_info auth" where
  "verify_email e tok = andthen (consume_verification_token (av_sha e tok)) user_by_id"

definition issue_password_reset :: "auth_env \<Rightarrow> string \<Rightarrow> string \<times> string \<Rightarrow> (string \<times> user_info) auth" where
  "issue_password_reset e email new = andthen (user_by_email (normalize_email email)) (\<lambda>user. Clock (\<lambda>now.
     andthen (insert_reset_token (fst new) (ui_id user) (av_sha e (snd new)) (now + reset_lifetime)) (\<lambda>_. answer (snd new, user))))"

text \<open>The statements ResetPassword and ResetPasswordForAdmin share.\<close>

definition replace_credentials :: "string \<Rightarrow> string \<Rightarrow> user_info auth" where
  "replace_credentials u hash = andthen (update_password u hash) (\<lambda>_. andthen (revoke_all_sessions u None) (\<lambda>_.
     andthen (revoke_all_trusted_devices u) (\<lambda>_. andthen (clear_failed_attempts u) (\<lambda>_. user_by_id u))))"

definition reset_password :: "auth_env \<Rightarrow> string \<Rightarrow> string \<Rightarrow> string \<Rightarrow> user_info auth" where
  "reset_password e tok salt pw = (if length pw < min_password_length then refuse (Err WeakPassword)
     else andthen (consume_reset_token (av_sha e tok)) (\<lambda>u. with_hash e salt pw (replace_credentials u)))"

definition reset_password_for_admin :: "auth_env \<Rightarrow> string \<Rightarrow> string \<Rightarrow> string \<Rightarrow> user_info auth" where
  "reset_password_for_admin e email salt pw = (if length pw < min_password_length then refuse (Err WeakPassword)
     else andthen (user_by_email (normalize_email email)) (\<lambda>user. with_hash e salt pw (replace_credentials (ui_id user))))"

definition change_password :: "auth_env \<Rightarrow> string \<Rightarrow> string \<Rightarrow> string \<Rightarrow> string \<Rightarrow> string \<Rightarrow> unit auth" where
  "change_password e u current pw salt keep = andthen (user_by_id u) (\<lambda>user.
     if \<not> av_check e (ui_hash user) current then refuse (Err PasswordMismatch)
     else if length pw < min_password_length then refuse (Err WeakPassword)
     else with_hash e salt pw (\<lambda>hash. andthen (update_password u hash) (\<lambda>_.
       andthen (revoke_all_sessions u (optional_hash e keep)) (\<lambda>_. revoke_all_trusted_devices u))))"

section \<open>Magic links\<close>

definition issue_magic_link :: "auth_env \<Rightarrow> string \<Rightarrow> string \<Rightarrow> string \<Rightarrow> string \<times> string \<Rightarrow> (string \<times> user_info) auth" where
  "issue_magic_link e email redirect ip new = andthen (user_by_email (normalize_email email)) (\<lambda>user. Clock (\<lambda>now.
     andthen (insert_magic_link (av_inet e) (fst new) (ui_id user) (ui_email user) (av_sha e (snd new)) redirect ip (now + link_lifetime))
       (\<lambda>_. answer (snd new, user))))"

definition redeem_magic_link :: "auth_env \<Rightarrow> string \<Rightarrow> string \<Rightarrow> string \<Rightarrow> string \<Rightarrow> draws \<Rightarrow> sign_in_result auth" where
  "redeem_magic_link e tok agent ip trusted dr = andthen (consume_magic_link (av_sha e tok)) (\<lambda>(u, _).
     andthen (user_by_id u) (\<lambda>user. andthen (mark_email_verified u) (\<lambda>_.
       finish_user_sign_in e user agent ip trusted ''magic_link'' dr)))"

section \<open>The second factor\<close>

definition begin_totp_enrolment :: "string \<Rightarrow> string \<Rightarrow> string \<Rightarrow> (string \<times> string) auth" where
  "begin_totp_enrolment u issuer buf = andthen (totp_enabled u) (\<lambda>enabled.
     if enabled then refuse (Err TotpAlreadyOn)
     else andthen (user_by_id u) (\<lambda>user. let secret = new_totp_secret buf in
       answer (secret, provisioning_uri secret (ui_email user) issuer)))"

text \<open>\<open>new\<close>: the identifiers and random bytes of the recovery codes.\<close>

definition complete_totp_enrolment :: "auth_env \<Rightarrow> string \<Rightarrow> string \<Rightarrow> string \<Rightarrow> (string \<times> string) list \<Rightarrow> string list auth" where
  "complete_totp_enrolment e u secret code new = Clock (\<lambda>now.
     if \<not> verify_totp (av_hmac e) secret code (now div 1000000000) then refuse (Err InvalidTotp)
     else let codes = map (\<lambda>(i, buf). (i, recovery_code buf)) (take recovery_code_count new)
       in andthen (enable_totp u secret (map (\<lambda>(i, c). (i, av_sha e (normalize_recovery_code c))) codes)) (\<lambda>_. answer (map snd codes)))"

definition disable_totp :: "auth_env \<Rightarrow> string \<Rightarrow> string \<Rightarrow> unit auth" where
  "disable_totp e u pw = andthen (user_by_id u) (\<lambda>user.
     if \<not> av_check e (ui_hash user) pw then refuse (Err PasswordMismatch)
     else andthen (disable_totp_rows u) (\<lambda>_. revoke_all_trusted_devices u))"

text \<open>An authenticator code, or else an unused recovery code.\<close>

definition check_code :: "auth_env \<Rightarrow> string \<Rightarrow> string \<Rightarrow> string \<Rightarrow> bool auth" where
  "check_code e u secret code = Clock (\<lambda>now.
     if verify_totp (av_hmac e) secret code (now div 1000000000) then answer True
     else consume_recovery_code u (av_sha e (normalize_recovery_code code)))"

definition finish_challenge :: "auth_env \<Rightarrow> string \<Rightarrow> string \<Rightarrow> string \<Rightarrow> string \<Rightarrow> bool \<Rightarrow> draws \<Rightarrow> sign_in_result auth" where
  "finish_challenge e u m agent ip trust dr = andthen (user_by_id u) (\<lambda>user.
     andthen (if trust then andthen (issue_trusted_device e u agent ip (dr_device dr)) (\<lambda>c. answer (Some c)) else answer None) (\<lambda>trusted.
       script_bind (create_session e u agent ip m (dr_session dr)) (\<lambda>r. case r of
           Inl x \<Rightarrow> (case trusted of None \<Rightarrow> refuse x
             | Some c \<Rightarrow> script_bind (revoke_trusted_device_by_hash u (av_sha e (fst c))) (\<lambda>_. refuse x))
         | Inr s \<Rightarrow> andthen (mark_signed_in u) (\<lambda>_.
             answer \<lparr> sr_user = user, sr_session = Some s, sr_challenge = None, sr_device = trusted \<rparr>))))"

definition verify_totp_challenge :: "auth_env \<Rightarrow> string \<Rightarrow> string \<Rightarrow> string \<Rightarrow> string \<Rightarrow> bool \<Rightarrow> draws \<Rightarrow> sign_in_result auth" where
  "verify_totp_challenge e tok code agent ip trust dr = (let h = av_sha e tok in
     andthen (load_totp_challenge h) (\<lambda>(u, attempts, m).
       if attempts \<ge> max_totp_attempts then refuse (Err AccountLocked)
       else andthen (totp_secret u) (\<lambda>secret. andthen (check_code e u secret code) (\<lambda>ok.
         if \<not> ok then andthen (record_totp_attempt h) (\<lambda>_. refuse (Err InvalidTotp))
         else andthen (consume_totp_challenge h) (\<lambda>_. finish_challenge e u m agent ip trust dr)))))"

section \<open>Lists and revocation\<close>

text \<open>ListSessions: pages of 201 rows; \<open>None\<close> when the \<open>n\<close> pages allowed were all full.\<close>

primrec list_sessions :: "nat \<Rightarrow> string \<Rightarrow> string \<Rightarrow> (int \<times> string) option \<Rightarrow> session_info list \<Rightarrow> session_info list option auth" where
  "list_sessions 0 u h before out = answer None"
| "list_sessions (Suc n) u h before out = andthen (list_sessions_page u h before 201) (\<lambda>page.
     let out = out @ page in if length page < 201 then answer (Some out)
     else list_sessions n u h (Some (si_seen (last page), si_id (last page))) out)"

definition revoke_all_credentials :: "string \<Rightarrow> unit auth" where
  "revoke_all_credentials u = andthen (revoke_all_sessions u None) (\<lambda>_. revoke_all_trusted_devices u)"

definition update_profile :: "string \<Rightarrow> string \<Rightarrow> string \<Rightarrow> user_info auth" where
  "update_profile u name avatar = andthen (update_profile_row u name avatar) (\<lambda>_. user_by_id u)"

section \<open>OAuth\<close>

definition begin_oauth :: "auth_env \<Rightarrow> string \<Rightarrow> string \<times> string \<Rightarrow> (string \<times> string) auth" where
  "begin_oauth e next_page new = (case av_oauth e of None \<Rightarrow> refuse (Err OAuthDisabled)
     | Some o' \<Rightarrow> Clock (\<lambda>now. andthen delete_old_states (\<lambda>_.
         andthen (insert_state (fst new) (av_sha e (snd new)) (oo_provider o') next_page (now + state_lifetime)) (\<lambda>_.
           answer (oo_authorization_url o' @ ''?'' @ values_encode [(''client_id'', oo_client o'), (''redirect_uri'', oo_redirect_url o'),
               (''response_type'', ''code''), (''state'', snd new),
               (''scope'', join '' '' (if oo_scopes o' = [] then [''openid'', ''email'', ''profile''] else oo_scopes o'))], snd new)))))"

text \<open>The fields of the profile: the first key whose value has the right type.\<close>

fun first_string :: "json \<Rightarrow> string list \<Rightarrow> string" where
  "first_string raw [] = ''''"
| "first_string raw (k # ks) = (case json_field raw k of
     Some (JStr s) \<Rightarrow> if trim_space s \<noteq> '''' then s else first_string raw ks | _ \<Rightarrow> first_string raw ks)"

fun first_bool :: "json \<Rightarrow> string list \<Rightarrow> bool" where
  "first_bool raw [] = False"
| "first_bool raw (k # ks) = (case json_field raw k of
     Some (JBool b) \<Rightarrow> b | Some JNull \<Rightarrow> False
   | Some (JStr s) \<Rightarrow> if to_lower s = ''true'' then True else first_bool raw ks | _ \<Rightarrow> first_bool raw ks)"

definition parse_identity :: "json \<Rightarrow> string \<Rightarrow> oauth_identity" where
  "parse_identity raw profile = (let microsoft = (profile = ''microsoft'');
     emails = (if microsoft then [''mail'', ''userPrincipalName'', ''email''] else [''email'']);
     names = (if microsoft then [''displayName'', ''name'', ''userPrincipalName''] else [''name'', ''preferred_username''])
     in \<lparr> oi_subject = first_string raw [''sub'', ''id''], oi_email = normalize_email (first_string raw emails),
          oi_name = trim_space (first_string raw names),
          oi_verified = (if microsoft then True else first_bool raw [''email_verified'', ''verified'']) \<rparr>)"

text \<open>identity: the profile must be a JSON object (or null) with a subject and an address.\<close>

definition identity :: "auth_env \<Rightarrow> string \<Rightarrow> string \<Rightarrow> oauth_identity option" where
  "identity e profile code = (if code = '''' then None
     else case av_exchange e code of None \<Rightarrow> None
       | Some raw \<Rightarrow> if (case raw of JObj _ \<Rightarrow> False | JNull \<Rightarrow> False | _ \<Rightarrow> True) then None
           else let x = parse_identity raw profile in
             if oi_subject x = '''' \<or> \<not> looks_like_email (oi_email x) then None
             else Some (if oi_name x = '''' then x\<lparr>oi_name := oi_email x\<rparr> else x))"

definition allowed_domain :: "string \<Rightarrow> string list \<Rightarrow> bool" where
  "allowed_domain email allowed = (if allowed = [] then True
     else let s = normalize_email email; domain = drop 1 (dropWhile (\<lambda>c. c \<noteq> CHR ''@'') s)
       in CHR ''@'' \<in> set s \<and> domain \<noteq> '''' \<and> list_ex (\<lambda>c. to_lower (trim_prefix (to_lower c) ''@'') = to_lower domain) allowed)"

definition consume_state :: "auth_env \<Rightarrow> string \<Rightarrow> string \<Rightarrow> string auth" where
  "consume_state e st provider = (if st = '''' then refuse (Err OAuthStateInvalid) else use_state (av_sha e st) provider)"

definition complete_oauth :: "auth_env \<Rightarrow> string \<Rightarrow> string \<Rightarrow> string \<Rightarrow> string \<Rightarrow> string \<Rightarrow> draws \<Rightarrow> string \<Rightarrow> string
    \<Rightarrow> (sign_in_result \<times> string) auth" where
  "complete_oauth e st code agent ip trusted dr new_user new_link = (case av_oauth e of None \<Rightarrow> refuse (Err OAuthDisabled)
     | Some o' \<Rightarrow> andthen (consume_state e st (oo_provider o')) (\<lambda>redirect. case identity e (oo_profile o') code of
         None \<Rightarrow> refuse (Err OAuthRejected)
       | Some x \<Rightarrow> if \<not> oi_verified x then refuse (Err OAuthEmailUnverified)
           else if \<not> allowed_domain (oi_email x) (oo_domains o') then refuse (Err OAuthDomainDenied)
           else andthen (link_oauth_identity new_user new_link (oo_provider o') x) (\<lambda>user.
             andthen (finish_user_sign_in e user agent ip trusted ''oauth'' dr) (\<lambda>result.
               answer (result\<lparr>sr_user := user\<rparr>, redirect)))))"

section \<open>Requests\<close>

text \<open>The operations of the service with the values they draw, and what they answer.\<close>

datatype auth_request =
    SignUp string string string string string
  | Authenticate string string
  | UserForSession string
  | Logout string
  | SignIn string string string string string draws
  | IssueVerification string string "string \<times> string"
  | VerifyEmail string
  | IssueReset string "string \<times> string"
  | ResetPassword string string string
  | AdminReset string string string
  | ChangePassword string string string string string
  | IssueLink string string string "string \<times> string"
  | RedeemLink string string string string draws
  | BeginTotp string string string
  | CompleteTotp string string string "(string \<times> string) list"
  | DisableTotp string string
  | VerifyTotp string string string string bool draws
  | TotpEnabled string
  | RemainingCodes string
  | ListSessions nat string string
  | ListSessionsPage string string "(int \<times> string) option" int
  | RevokeSession string string
  | RevokeOthers string string
  | RevokeAll string
  | UpdateProfile string string string
  | UserById string
  | AnyUser
  | ListDevices string string
  | ListDevicesPage string string "(int \<times> string) option" int
  | RevokeDevice string string
  | RevokeDevices string
  | BeginOAuth string "string \<times> string"
  | CompleteOAuth string string string string string draws string string

datatype auth_reply = Empty | Flag bool | Count nat | Who user_info | Issued credential | Mailed "string \<times> user_info"
  | SignedIn sign_in_result | Enrolment "string \<times> string" | Codes "string list" | Sessions "session_info list"
  | SessionsUpTo "session_info list option" | Devices "device_info list" | Redirected "string \<times> string"
  | OAuthDone "sign_in_result \<times> string"

definition reply :: "('a \<Rightarrow> auth_reply) \<Rightarrow> 'a auth \<Rightarrow> auth_reply auth" where
  "reply f m = andthen m (\<lambda>a. answer (f a))"

primrec serve :: "auth_env \<Rightarrow> auth_request \<Rightarrow> auth_reply auth" where
  "serve e (SignUp i salt name email pw) = reply Who (sign_up e i salt name email pw)"
| "serve e (Authenticate email pw) = reply Who (authenticate e email pw)"
| "serve e (UserForSession tok) = reply Who (user_for_session e tok)"
| "serve e (Logout tok) = reply (\<lambda>_. Empty) (logout e tok)"
| "serve e (SignIn email pw agent ip trusted dr) = reply SignedIn (sign_in e email pw agent ip trusted dr)"
| "serve e (IssueVerification u email new) = reply Issued (issue_email_verification e u email new)"
| "serve e (VerifyEmail tok) = reply Who (verify_email e tok)"
| "serve e (IssueReset email new) = reply Mailed (issue_password_reset e email new)"
| "serve e (ResetPassword tok salt pw) = reply Who (reset_password e tok salt pw)"
| "serve e (AdminReset email salt pw) = reply Who (reset_password_for_admin e email salt pw)"
| "serve e (ChangePassword u current pw salt keep) = reply (\<lambda>_. Empty) (change_password e u current pw salt keep)"
| "serve e (IssueLink email redirect ip new) = reply Mailed (issue_magic_link e email redirect ip new)"
| "serve e (RedeemLink tok agent ip trusted dr) = reply SignedIn (redeem_magic_link e tok agent ip trusted dr)"
| "serve e (BeginTotp u issuer buf) = reply Enrolment (begin_totp_enrolment u issuer buf)"
| "serve e (CompleteTotp u secret code new) = reply Codes (complete_totp_enrolment e u secret code new)"
| "serve e (DisableTotp u pw) = reply (\<lambda>_. Empty) (disable_totp e u pw)"
| "serve e (VerifyTotp tok code agent ip trust dr) = reply SignedIn (verify_totp_challenge e tok code agent ip trust dr)"
| "serve e (TotpEnabled u) = reply Flag (totp_enabled u)"
| "serve e (RemainingCodes u) = reply Count (count_unused_recovery_codes u)"
| "serve e (ListSessions n u tok) = reply SessionsUpTo (list_sessions n u (av_sha e tok) None [])"
| "serve e (ListSessionsPage u tok before limit) = reply Sessions (list_sessions_page u (av_sha e tok) before limit)"
| "serve e (RevokeSession u i) = reply (\<lambda>_. Empty) (revoke_session_by_id u i)"
| "serve e (RevokeOthers u keep) = reply (\<lambda>_. Empty) (revoke_all_sessions u (optional_hash e keep))"
| "serve e (RevokeAll u) = reply (\<lambda>_. Empty) (revoke_all_credentials u)"
| "serve e (UpdateProfile u name avatar) = reply Who (update_profile u name avatar)"
| "serve e (UserById u) = reply Who (user_by_id u)"
| "serve e AnyUser = reply Flag any_user_exists"
| "serve e (ListDevices u tok) = reply Devices (list_trusted_devices u (av_sha e tok))"
| "serve e (ListDevicesPage u tok before limit) = reply Devices (list_trusted_devices_page u (av_sha e tok) before limit)"
| "serve e (RevokeDevice u i) = reply (\<lambda>_. Empty) (revoke_trusted_device u i)"
| "serve e (RevokeDevices u) = reply (\<lambda>_. Empty) (revoke_all_trusted_devices u)"
| "serve e (BeginOAuth next_page new) = reply Redirected (begin_oauth e next_page new)"
| "serve e (CompleteOAuth st code agent ip trusted dr new_user new_link) =
     reply OAuthDone (complete_oauth e st code agent ip trusted dr new_user new_link)"

end
