(* ===== verification/AuthSafety.thy ===== *)
theory AuthSafety
  imports Authentication
begin

text \<open>
  What every statement of the authentication service keeps: the constraints of the tables
  (\<open>auth_ok\<close>) and that nothing spent or revoked comes back (\<open>tables_grow\<close>).  One lemma per statement
  of the repository, one for all requests.
\<close>

section \<open>The invariant and the guarantee\<close>

definition rows_ok :: "('r \<Rightarrow> string) \<Rightarrow> ('r \<Rightarrow> 'k) \<Rightarrow> ('r \<Rightarrow> string) \<Rightarrow> string set \<Rightarrow> 'r list \<Rightarrow> bool" where
  "rows_ok i k own us t \<longleftrightarrow> distinct (map i t) \<and> distinct (map k t) \<and> own ` set t \<subseteq> us"

definition auth_ok :: "auth_db \<Rightarrow> bool" where
  "auth_ok d \<longleftrightarrow> (let us = us_id ` set (ad_users d) in
     distinct (map us_id (ad_users d)) \<and> distinct (map (\<lambda>u. to_lower (us_email u)) (ad_users d)) \<and>
     rows_ok se_id se_hash se_user us (ad_sessions d) \<and> list_all (\<lambda>s. se_method s \<in> set auth_methods) (ad_sessions d) \<and>
     rows_ok et_id et_hash et_user us (ad_verifications d) \<and> rows_ok pr_id pr_hash pr_user us (ad_resets d) \<and>
     rows_ok ml_id ml_hash ml_user us (ad_links d) \<and>
     rows_ok tc_id tc_hash tc_user us (ad_challenges d) \<and> list_all (\<lambda>c. tc_method c \<in> set auth_methods) (ad_challenges d) \<and>
     rows_ok rc_id (\<lambda>r. (rc_user r, rc_hash r)) rc_user us (ad_recovery d) \<and>
     rows_ok td_id td_hash td_user us (ad_devices d) \<and>
     rows_ok oa_id (\<lambda>a. (oa_provider a, oa_uid a)) oa_user us (ad_oauth d) \<and>
     distinct (map os_id (ad_states d)) \<and> distinct (map os_hash (ad_states d)))"

text \<open>Every row is still there, and spent if it was.\<close>

definition kept :: "('r \<Rightarrow> 'k) \<Rightarrow> ('r \<Rightarrow> bool) \<Rightarrow> 'r list \<Rightarrow> 'r list \<Rightarrow> bool" where
  "kept key spent t t' \<longleftrightarrow> (\<forall>r \<in> set t. \<exists>r' \<in> set t'. key r' = key r \<and> (spent r \<longrightarrow> spent r'))"

text \<open>No state for the OAuth provider whose hash is in \<open>H\<close> is opened.\<close>

definition not_opened :: "string set \<Rightarrow> oauth_state list \<Rightarrow> oauth_state list \<Rightarrow> bool" where
  "not_opened H t t' \<longleftrightarrow> (\<forall>s' \<in> set t'. os_consumed s' = None \<and> os_hash s' \<in> H \<longrightarrow> (\<exists>s \<in> set t. os_hash s = os_hash s' \<and> os_consumed s = None))"

definition tables_grow :: "string set \<Rightarrow> auth_db \<Rightarrow> auth_db \<Rightarrow> bool" where
  "tables_grow H d d' \<longleftrightarrow> not_opened H (ad_states d) (ad_states d') \<and> kept us_id (\<lambda>_. False) (ad_users d) (ad_users d') \<and>
     kept (\<lambda>s. (se_id s, se_user s, se_hash s)) (\<lambda>s. se_revoked s \<noteq> None) (ad_sessions d) (ad_sessions d') \<and>
     kept (\<lambda>r. (et_user r, et_hash r)) (\<lambda>r. et_used r \<noteq> None) (ad_verifications d) (ad_verifications d') \<and>
     kept (\<lambda>r. (pr_user r, pr_hash r)) (\<lambda>r. pr_used r \<noteq> None) (ad_resets d) (ad_resets d') \<and>
     kept (\<lambda>r. (ml_user r, ml_hash r)) (\<lambda>r. ml_used r \<noteq> None) (ad_links d) (ad_links d') \<and>
     kept (\<lambda>r. (tc_user r, tc_hash r)) (\<lambda>r. tc_used r \<noteq> None) (ad_challenges d) (ad_challenges d') \<and>
     kept (\<lambda>r. (td_id r, td_user r, td_hash r)) (\<lambda>r. td_revoked r \<noteq> None) (ad_devices d) (ad_devices d')"

definition auth_step :: "string set \<Rightarrow> auth_db \<Rightarrow> auth_db \<Rightarrow> bool" where
  "auth_step H d d' \<longleftrightarrow> auth_ok d' \<and> tables_grow H d d'"

lemma rows_ok_update [simp]:
  "\<forall>r. i (f r) = i r \<and> k (f r) = k r \<and> own (f r) = own r \<Longrightarrow> rows_ok i k own us (update_where P f t) = rows_ok i k own us t"
  by (simp add: rows_ok_def map_update_where image_set flip: set_map)

lemma rows_ok_append [simp]:
  "rows_ok i k own us (t @ [r]) \<longleftrightarrow> rows_ok i k own us t \<and> i r \<notin> i ` set t \<and> k r \<notin> k ` set t \<and> own r \<in> us"
  by (auto simp: rows_ok_def)

lemma rows_ok_delete: "rows_ok i k own us t \<Longrightarrow> rows_ok i k own us (delete_where P t)"
  by (auto simp: rows_ok_def delete_where_def intro: distinct_map_filter)

lemma distinct_map_delete: "distinct (map k t) \<Longrightarrow> distinct (map k (delete_where P t))"
  by (simp add: delete_where_def distinct_map_filter)

lemma rows_ok_more: "rows_ok i k own us t \<Longrightarrow> us \<subseteq> vs \<Longrightarrow> rows_ok i k own vs t"
  by (auto simp: rows_ok_def)

lemma kept_refl [simp]: "kept key spent t t"
  by (auto simp: kept_def)

lemma not_opened_simps [simp]:
  "not_opened H t t" "not_opened H t (delete_where P t)"
  "not_opened H t (t @ [s]) \<longleftrightarrow> os_hash s \<in> H \<and> os_consumed s = None \<longrightarrow> (\<exists>r \<in> set t. os_hash r = os_hash s \<and> os_consumed r = None)"
  "not_opened H t (update_where Q (\<lambda>s. s\<lparr>os_consumed := Some x\<rparr>) t)"
  by (auto simp: not_opened_def delete_where_def update_where_def split: if_splits)

lemma kept_append [simp]: "kept key spent t (t @ u)"
  by (auto simp: kept_def)

lemma kept_update [simp]:
  "\<forall>r. key (f r) = key r \<and> (spent r \<longrightarrow> spent (f r)) \<Longrightarrow> kept key spent t (update_where P f t)"
  unfolding kept_def by (auto simp: update_where_def)

lemma list_all_update [simp]: "\<forall>r. Q (f r) = Q r \<Longrightarrow> list_all Q (update_where P f t) = list_all Q t"
  by (induction t) auto

lemma user_ids_update [simp]: "\<forall>u. us_id (f u) = us_id u \<Longrightarrow> us_id ` set (update_where P f t) = us_id ` set t"
  by (metis (no_types, lifting) list.set_map map_update_where)

lemma user_emails_update [simp]:
  "\<forall>u. us_id (f u) = us_id u \<and> us_email (f u) = us_email u \<Longrightarrow> map us_id (update_where P f t) = map us_id t"
  "\<forall>u. us_id (f u) = us_id u \<and> us_email (f u) = us_email u \<Longrightarrow>
     map (\<lambda>u. to_lower (us_email u)) (update_where P f t) = map (\<lambda>u. to_lower (us_email u)) t"
  by (simp_all add: map_update_where)

lemma auth_step_refl: "auth_ok d \<Longrightarrow> auth_step H d d"
  by (simp add: auth_step_def tables_grow_def)

lemma auth_step_ok: "auth_step H d d' \<Longrightarrow> auth_ok d'"
  by (simp add: auth_step_def)

lemma set_user_step: "auth_ok d \<Longrightarrow> \<forall>u. us_id (f u) = us_id u \<and> us_email (f u) = us_email u \<Longrightarrow> auth_step H d (set_user i f d)"
  by (simp add: auth_step_def tables_grow_def auth_ok_def set_user_def Let_def)

section \<open>The statements of the repository\<close>

abbreviation auth_obeys :: "string set \<Rightarrow> 'r auth \<Rightarrow> bool" where
  "auth_obeys H \<equiv> obeys auth_ok (auth_step H) (\<lambda>_. True)"

lemma statement_step: "(\<And>t d. auth_ok d \<Longrightarrow> auth_step H d (snd (f t d))) \<Longrightarrow> auth_obeys H (statement f)"
  by (rule obeys_statement) (auto dest: sndI)

lemma checked_step: "(\<And>d d'. auth_ok d \<Longrightarrow> f d = Some d' \<Longrightarrow> auth_step H d d') \<Longrightarrow> auth_obeys H (checked f)"
  by (rule obeys_checked) (simp_all add: auth_step_refl)

lemma change_user_step:
  "\<forall>t u. us_id (f t u) = us_id u \<and> us_email (f t u) = us_email u \<Longrightarrow> auth_obeys H (change (\<lambda>t. set_user i (f t)))"
  by (rule statement_step) (simp add: set_user_step)

lemma ask_step [scripts]: "auth_obeys H (ask f)"
  by (rule statement_step) (simp add: auth_step_refl)

lemma revoke_sessions_step: "auth_ok d \<Longrightarrow> auth_step H d (revoke_sessions_where P t d)"
  by (simp add: auth_step_def tables_grow_def auth_ok_def revoke_sessions_where_def Let_def)

lemma revoke_devices_step: "auth_ok d \<Longrightarrow> auth_step H d (revoke_devices_where P t d)"
  by (simp add: auth_step_def tables_grow_def auth_ok_def revoke_devices_where_def Let_def)

lemma set_challenge_step:
  "auth_ok d \<Longrightarrow> \<forall>c. (tc_id (f c), tc_user (f c), tc_hash (f c), tc_method (f c)) = (tc_id c, tc_user c, tc_hash c, tc_method c)
     \<and> (tc_used c \<noteq> None \<longrightarrow> tc_used (f c) \<noteq> None) \<Longrightarrow> auth_step H d (set_challenge h f d)"
  by (simp add: auth_step_def tables_grow_def auth_ok_def set_challenge_def Let_def)

lemmas step_defs = auth_step_def tables_grow_def auth_ok_def Let_def

lemma users_steps [scripts]:
  "auth_obeys H (user_by_email a)" "auth_obeys H (user_by_id b)" "auth_obeys H any_user_exists" "auth_obeys H (lock_state u)"
  "auth_obeys H (record_failed_attempt u n k)" "auth_obeys H (clear_failed_attempts u)" "auth_obeys H (mark_signed_in u)"
  "auth_obeys H (mark_email_verified u)" "auth_obeys H (update_password u h)" "auth_obeys H (update_profile_row u x y)"
  "auth_obeys H (totp_enabled u)" "auth_obeys H (totp_secret u)"
  unfolding user_by_email_def user_by_id_def any_user_exists_def record_failed_attempt_def clear_failed_attempts_def
    mark_signed_in_def mark_email_verified_def update_password_def update_profile_row_def lock_state_def
    totp_enabled_def totp_secret_def Let_def
  by (rule ask_step change_user_step statement_step,
      simp add: failed_once_more_def unlocked_def auth_step_refl set_user_step split: option.split)+

lemma insert_user_step [scripts]: "auth_obeys H (insert_user i n a h)"
  unfolding insert_user_def
proof (rule statement_step)
  fix t d assume d: "auth_ok d"
  show "auth_step H d (snd (if user_exists i a d then (Inl (Err EmailTaken), d)
      else (Inr (), d\<lparr>ad_users := ad_users d @ [new_account i n a (Some h) t]\<rparr>)))"
  proof (cases "user_exists i a d")
    case False
    then have "i \<notin> us_id ` set (ad_users d)" "to_lower a \<notin> (\<lambda>u. to_lower (us_email u)) ` set (ad_users d)"
      by (auto simp: user_exists_def list_ex_iff same_email_def)
    with d False show ?thesis
      by (auto simp: step_defs new_account_def intro: rows_ok_more)
  qed (simp add: auth_step_refl [OF d])
qed

lemma sessions_steps [scripts]:
  "auth_obeys H (insert_session inet i u h agent ip m x)" "auth_obeys H (session_user h)" "auth_obeys H (revoke_session_row h)"
  "auth_obeys H (revoke_session_by_id u i)" "auth_obeys H (revoke_all_sessions u k)" "auth_obeys H (list_sessions_page u h b n)"
  unfolding insert_session_def session_user_def revoke_session_row_def revoke_session_by_id_def revoke_all_sessions_def
    list_sessions_page_def
  by (rule ask_step statement_step, simp add: auth_step_refl revoke_sessions_step split: option.split; (simp add: step_defs)?)+

lemma tokens_steps [scripts]:
  "auth_obeys H (insert_verification_token i u a h x)" "auth_obeys H (insert_reset_token i u h x)"
  "auth_obeys H (insert_magic_link inet i u a h red ip x)" "auth_obeys H (insert_totp_challenge inet i u h agent ip m x)"
  unfolding insert_verification_token_def insert_reset_token_def insert_magic_link_def insert_totp_challenge_def
  by (rule checked_step, clarsimp simp: step_defs split: if_splits)+

lemma tokens_used [scripts]:
  "auth_obeys H (use_verification h)" "auth_obeys H (use_reset h)" "auth_obeys H (use_link h)" "auth_obeys H (find_challenge h)"
  "auth_obeys H (record_totp_attempt h)" "auth_obeys H (consume_totp_challenge h)"
  unfolding use_verification_def use_reset_def use_link_def find_challenge_def record_totp_attempt_def consume_totp_challenge_def
  by (rule ask_step statement_step, simp add: auth_step_refl set_challenge_step split: option.split; (simp add: step_defs)?)+

lemma devices_steps [scripts]:
  "auth_obeys H (insert_trusted_device inet i u h agent ip x)" "auth_obeys H (touch_trusted_device u h)"
  "auth_obeys H (revoke_trusted_device u i)" "auth_obeys H (revoke_all_trusted_devices u)"
  "auth_obeys H (revoke_trusted_device_by_hash u h)" "auth_obeys H (list_trusted_devices u h)"
  "auth_obeys H (list_trusted_devices_page u h b n)"
  unfolding insert_trusted_device_def touch_trusted_device_def revoke_trusted_device_def revoke_all_trusted_devices_def
    revoke_trusted_device_by_hash_def list_trusted_devices_def list_trusted_devices_page_def Let_def
  by (rule ask_step statement_step, simp add: auth_step_refl revoke_devices_step; (simp add: step_defs)?)+

text \<open>Recovery codes: the rows of a user are replaced.\<close>

lemma user_ids_set_user [simp]: "\<forall>u. us_id (f u) = us_id u \<Longrightarrow> us_id ` set (ad_users (set_user i f d)) = us_id ` set (ad_users d)"
  by (simp add: set_user_def)

lemma set_user_frame [simp]: "ad_recovery (set_user i f d) = ad_recovery d"
  by (simp add: set_user_def)

lemma recovery_ok_more:
  assumes "rows_ok rc_id (\<lambda>r. (rc_user r, rc_hash r)) rc_user us rest" "\<forall>r \<in> set rest. rc_user r \<noteq> u"
    and "distinct (map fst codes)" "distinct (map snd codes)" "codes \<noteq> [] \<Longrightarrow> u \<in> us" "\<not> list_ex (\<lambda>c. fst c \<in> rc_id ` set rest) codes"
  shows "rows_ok rc_id (\<lambda>r. (rc_user r, rc_hash r)) rc_user us (rest @ recovery_rows u codes)"
proof -
  have m: "map rc_id (recovery_rows u codes) = map fst codes"
    "map (\<lambda>r. (rc_user r, rc_hash r)) (recovery_rows u codes) = map (\<lambda>c. (u, snd c)) codes"
    "rc_user ` set (recovery_rows u codes) \<subseteq> {u}" "codes = [] \<Longrightarrow> recovery_rows u codes = []"
    by (auto simp: recovery_rows_def split_beta)
  have "distinct (map (\<lambda>c. (u, snd c)) codes)"
    using assms(4) by (auto simp: distinct_map inj_on_def)
  moreover have "rc_id ` set (recovery_rows u codes) = fst ` set codes"
    using m(1) by (metis list.set_map)
  moreover have "(\<lambda>r. (rc_user r, rc_hash r)) ` set (recovery_rows u codes) = (\<lambda>c. (u, snd c)) ` set codes"
    using m(2) by (metis list.set_map)
  moreover have "rc_user ` set (recovery_rows u codes) \<subseteq> us"
    using m(3,4) assms(5) by (cases "codes = []") auto
  moreover have "set (map rc_id rest) \<inter> fst ` set codes = {}"
    using assms(6) by (fastforce simp: list_ex_iff)
  ultimately show ?thesis
    using assms(1-3) unfolding rows_ok_def map_append distinct_append set_append image_Un set_map m(1,2)
    by auto
qed

lemma recovery_step:
  assumes "auth_step H d d1" "ad_recovery d1 = ad_recovery d" "us_id ` set (ad_users d1) = us_id ` set (ad_users d)"
    and "codes \<noteq> [] \<Longrightarrow> u \<in> us_id ` set (ad_users d)" "distinct (map fst codes)" "distinct (map snd codes)"
    and "\<not> list_ex (\<lambda>c. fst c \<in> rc_id ` set (delete_where (\<lambda>r. rc_user r = u) (ad_recovery d1))) codes"
  shows "auth_step H d (d1\<lparr>ad_recovery := delete_where (\<lambda>r. rc_user r = u) (ad_recovery d1) @ recovery_rows u codes\<rparr>)"
proof -
  have "rows_ok rc_id (\<lambda>r. (rc_user r, rc_hash r)) rc_user (us_id ` set (ad_users d1))
      (delete_where (\<lambda>r. rc_user r = u) (ad_recovery d1) @ recovery_rows u codes)"
  proof (rule recovery_ok_more)
    show "rows_ok rc_id (\<lambda>r. (rc_user r, rc_hash r)) rc_user (us_id ` set (ad_users d1)) (delete_where (\<lambda>r. rc_user r = u) (ad_recovery d1))"
      using assms(1) by (intro rows_ok_delete) (simp add: step_defs)
  qed (use assms in \<open>auto simp: delete_where_def\<close>)
  with assms(1) show ?thesis by (simp add: step_defs)
qed

lemma recovery_steps [scripts]:
  "auth_obeys H (enable_totp u secret codes)" "auth_obeys H (disable_totp_rows u)"
  "auth_obeys H (consume_recovery_code u h)" "auth_obeys H (count_unused_recovery_codes u)"
proof -
  show "auth_obeys H (enable_totp u secret codes)"
    unfolding enable_totp_def Let_def
  proof (rule statement_step, unfold if_distrib [of snd] snd_conv, rule if_split [THEN iffD2], intro conjI impI)
    fix t d assume d: "auth_ok d"
    let ?d1 = "set_user u (\<lambda>r. r\<lparr>us_secret := Some secret, us_enabled := Some t, us_updated := t\<rparr>) d"
    assume "\<not> (codes \<noteq> [] \<and> u \<notin> us_id ` set (ad_users d) \<or> \<not> distinct (map fst codes) \<or> \<not> distinct (map snd codes)
      \<or> list_ex (\<lambda>c. fst c \<in> rc_id ` set (delete_where (\<lambda>r. rc_user r = u) (ad_recovery ?d1))) codes)"
    then show "auth_step H d (?d1\<lparr>ad_recovery := delete_where (\<lambda>r. rc_user r = u) (ad_recovery ?d1) @ recovery_rows u codes\<rparr>)"
      by (intro recovery_step set_user_step [OF d]) auto
  qed (rule auth_step_refl)
  show "auth_obeys H (disable_totp_rows u)"
    unfolding disable_totp_rows_def Let_def
  proof (rule statement_step, unfold snd_conv)
    fix t d assume d: "auth_ok d"
    have "auth_step H d (set_user u (\<lambda>r. r\<lparr>us_secret := None, us_enabled := None, us_updated := t\<rparr>) d)"
      by (simp add: set_user_step [OF d])
    from recovery_step [OF this, where codes = "[]" and u = u]
    show "auth_step H d (set_user u (\<lambda>r. r\<lparr>us_secret := None, us_enabled := None, us_updated := t\<rparr>) d
        \<lparr>ad_recovery := delete_where (\<lambda>r. rc_user r = u) (ad_recovery (set_user u (\<lambda>r. r\<lparr>us_secret := None, us_enabled := None, us_updated := t\<rparr>) d))\<rparr>)"
      by (simp add: recovery_rows_def)
  qed
  show "auth_obeys H (consume_recovery_code u h)" "auth_obeys H (count_unused_recovery_codes u)"
    unfolding consume_recovery_code_def count_unused_recovery_codes_def Let_def
    by (rule ask_step statement_step, (simp add: step_defs)?)+
qed

lemma states_steps [scripts]:
  "auth_obeys H delete_old_states" "h \<notin> H \<Longrightarrow> auth_obeys H (insert_state i h p red x)" "auth_obeys H (use_state h p)"
proof -
  show "auth_obeys H delete_old_states"
    unfolding delete_old_states_def by (rule statement_step) (simp add: step_defs distinct_map_delete)
  show "h \<notin> H \<Longrightarrow> auth_obeys H (insert_state i h p red x)"
    unfolding insert_state_def by (rule checked_step) (clarsimp simp: step_defs split: if_splits)
  show "auth_obeys H (use_state h p)"
    unfolding use_state_def
    by (rule statement_step) (simp add: step_defs map_update_where split: option.split)
qed

text \<open>Linking an identity.\<close>

lemma linked_account_in: "linked_account p x d = Some u \<Longrightarrow> u \<in> set (ad_users d)"
  by (auto simp: linked_account_def dest: lookup_key_Some split: option.splits)

lemma link_account_step:
  assumes "auth_step H d d1" "u \<in> set (ad_users d1)" "link_account i p x u d1 = (Inr v, d')"
  shows "auth_step H d d'"
proof (cases "list_ex (\<lambda>a. oa_provider a = p \<and> oa_uid a = x) (ad_oauth d1)")
  case True
  with assms show ?thesis by (auto simp: link_account_def split: option.splits)
next
  case False
  then have n: "(p, x) \<notin> (\<lambda>a. (oa_provider a, oa_uid a)) ` set (ad_oauth d1)" by (auto simp: list_ex_iff)
  from False assms(3) have "i \<notin> oa_id ` set (ad_oauth d1)"
    "d' = d1\<lparr>ad_oauth := ad_oauth d1 @ [\<lparr> oa_id = i, oa_user = us_id u, oa_provider = p, oa_uid = x \<rparr>]\<rparr>"
    by (auto simp: link_account_def split: if_splits)
  with n assms(1,2) show ?thesis by (simp add: step_defs)
qed

lemma new_user_step:
  assumes "auth_ok d" "find (\<lambda>u. same_email (us_email u) a) (ad_users d) = None" "i \<notin> us_id ` set (ad_users d)"
  shows "auth_step H d (d\<lparr>ad_users := ad_users d @ [new_account i n a h t]\<rparr>)"
proof -
  have "to_lower a \<notin> (\<lambda>u. to_lower (us_email u)) ` set (ad_users d)"
    using assms(2) by (auto simp: find_None_iff same_email_def)
  with assms show ?thesis by (auto simp: step_defs new_account_def intro: rows_ok_more)
qed

lemma link_step [scripts]: "auth_obeys H (link_oauth_identity i k p x)"
  unfolding link_oauth_identity_def
proof (rule statement_step)
  fix t d assume d: "auth_ok d"
  have "auth_step H d d'" if l: "link_identity i k p x t d = (Inr v, d')" for v d'
  proof (cases "linked_account p (oi_subject x) d")
    case (Some u)
    with l show ?thesis
      by (auto simp: link_identity_def intro: link_account_step [OF auth_step_refl [OF d]] linked_account_in)
  next
    case None
    show ?thesis
    proof (cases "find (\<lambda>u. same_email (us_email u) (oi_email x)) (ad_users d)")
      case (Some u)
      then have "u \<in> set (ad_users d)" by (auto simp: find_Some_iff)
      with l None Some show ?thesis
        by (auto simp: link_identity_def intro: link_account_step [OF auth_step_refl [OF d]])
    next
      case n: None
      with l None have "i \<notin> us_id ` set (ad_users d)" by (auto simp: link_identity_def split: if_splits)
      moreover from this l None n have "link_account k p (oi_subject x) (new_account i (oi_name x) (oi_email x) None t)
          (d\<lparr>ad_users := ad_users d @ [new_account i (oi_name x) (oi_email x) None t]\<rparr>) = (Inr v, d')"
        by (simp add: link_identity_def Let_def)
      ultimately show ?thesis by (intro link_account_step [OF new_user_step [OF d n]]) simp_all
    qed
  qed
  then show "auth_step H d (snd (case link_identity i k p x t d of (Inl e, _) \<Rightarrow> (Inl e, d) | (Inr u, d') \<Rightarrow> (Inr u, d')))"
    using auth_step_refl [OF d] by (auto split: prod.split sum.split)
qed

section \<open>Requests\<close>

lemma obeys_expired [scripts]: "auth_obeys H k \<Longrightarrow> auth_obeys H (unless_expired x k)"
  by (simp add: unless_expired_def)

lemma obeys_with_hash [scripts]: "(\<And>h. auth_obeys H (k h)) \<Longrightarrow> auth_obeys H (with_hash e s p k)"
  by (simp add: with_hash_def split: option.split)

lemma obeys_known_user [scripts]: "auth_obeys H (known_user a)"
  unfolding known_user_def by (intro scripts) (simp split: sum.split err.split auth_error.split)

lemmas flow_defs = consume_verification_token_def consume_reset_token_def consume_magic_link_def load_totp_challenge_def
  sign_up_def authenticate_def create_session_def user_for_session_def logout_def issue_challenge_def issue_trusted_device_def
  trusted_device_valid_def create_session_result_def finish_user_sign_in_def sign_in_def issue_email_verification_def
  verify_email_def issue_password_reset_def replace_credentials_def reset_password_def reset_password_for_admin_def
  change_password_def issue_magic_link_def redeem_magic_link_def begin_totp_enrolment_def complete_totp_enrolment_def
  disable_totp_def check_code_def verify_totp_challenge_def revoke_all_credentials_def
  update_profile_def consume_state_def

lemma finish_challenge_step [scripts]: "auth_obeys H (finish_challenge e u m agent ip trust dr)"
  unfolding finish_challenge_def create_session_def issue_trusted_device_def
  by (auto intro!: scripts simp del: obeys.simps simp: Let_def split: sum.split option.split)

lemma list_sessions_step [scripts]: "auth_obeys H (list_sessions n u h b out)"
  by (induction n arbitrary: b out) (auto intro!: scripts simp del: obeys.simps simp: Let_def)

lemma oauth_steps [scripts]:
  "av_sha e (snd new) \<notin> H \<Longrightarrow> auth_obeys H (begin_oauth e next_page new)" "auth_obeys H (complete_oauth e st code agent ip trusted dr nu nl)"
  unfolding begin_oauth_def complete_oauth_def flow_defs
  by (auto intro!: scripts simp del: obeys.simps simp: Let_def split: option.split)

text \<open>A request that issues no state with a hash in \<open>H\<close>.\<close>

definition issues_none :: "auth_env \<Rightarrow> string set \<Rightarrow> auth_request \<Rightarrow> bool" where
  "issues_none e H r \<longleftrightarrow> (case r of BeginOAuth _ new \<Rightarrow> av_sha e (snd new) \<notin> H | _ \<Rightarrow> True)"

lemma serve_obeys: "issues_none e H r \<Longrightarrow> auth_obeys H (serve e r)"
  by (cases r) (auto intro!: scripts simp del: obeys.simps simp: reply_def flow_defs Let_def split_beta issues_none_def)

end
