(* ===== verification/AuthFacts.thy ===== *)
theory AuthFacts
  imports AuthSafety
begin

text \<open>
  What the authentication service guarantees to any number of concurrent requests whose
  statements interleave in any order and fail anywhere: consistent tables, credentials that are
  redeemed once, resets that cut off every session and device, and the lockout; and runs that
  show where its promises end.
\<close>

text \<open>Requests running together, and the accounts of the examples.\<close>

definition serving :: "auth_env \<Rightarrow> auth_request list \<Rightarrow> auth_reply auth list" where
  "serving e rs = map (serve e) rs"

definition demo_env :: auth_env where
  "demo_env = \<lparr> av_sha = (\<lambda>s. CHR ''#'' # s), av_bcrypt = (\<lambda>salt pw. Some pw), av_check = (=), av_hmac = demo_hmac, av_inet = (\<lambda>_. True),
     av_exchange = (\<lambda>_. Some (JObj [(''sub'', JStr ''s1''), (''email'', JStr ''o@x''), (''email_verified'', JBool True)])),
     av_lifetime = 1000, av_attempts = 2, av_window = 100,
     av_oauth = Some \<lparr> oo_provider = ''idp'', oo_profile = [], oo_client = ''c'', oo_authorization_url = ''https://idp'',
       oo_redirect_url = ''https://desk'', oo_scopes = [], oo_domains = [] \<rparr> \<rparr>"

definition demo_user :: account where
  "demo_user = \<lparr> us_id = ''u1'', us_name = ''Ada'', us_email = ''a@x'', us_verified = None, us_password = Some ''correct horse'', us_avatar = None,
     us_secret = None, us_enabled = None, us_failed = 0, us_locked = None, us_sign_in = None, us_created = 0, us_updated = 0 \<rparr>"

definition demo_session :: session_row where
  "demo_session = \<lparr> se_id = ''s1'', se_user = ''u1'', se_hash = ''#cookie'', se_agent = [], se_ip = None, se_method = ''password'',
     se_seen = 1, se_expires = 1001, se_revoked = None, se_created = 1 \<rparr>"

definition demo_accounts :: auth_db where
  "demo_accounts = \<lparr> ad_users = [demo_user], ad_sessions = [demo_session], ad_verifications = [],
     ad_resets = [\<lparr> pr_id = ''p1'', pr_user = ''u1'', pr_hash = ''#reset'', pr_expires = 50, pr_used = None \<rparr>],
     ad_links = [], ad_challenges = [], ad_recovery = [], ad_devices = [], ad_oauth = [], ad_states = [] \<rparr>"

definition demo_draws :: draws where
  "demo_draws = \<lparr> dr_session = (''s2'', ''new''), dr_challenge = (''c2'', ''chal''), dr_device = (''d2'', ''dev'') \<rparr>"

lemma demo_accounts_ok: "auth_ok demo_accounts"
  by (simp add: auth_ok_def Let_def demo_accounts_def demo_user_def demo_session_def rows_ok_def auth_methods_def)

lemmas auth_demo_defs = demo_env_def demo_user_def demo_session_def demo_accounts_def demo_draws_def

lemmas run_defs = serving_def pool_run_simps pool_move_def reply_def andthen_def statement_def checked_def

section \<open>Every run\<close>

lemma kept_trans: "kept key spent t u \<Longrightarrow> kept key spent u v \<Longrightarrow> kept key spent t v"
  unfolding kept_def by metis

lemma not_opened_trans: "not_opened H t u \<Longrightarrow> not_opened H u v \<Longrightarrow> not_opened H t v"
  unfolding not_opened_def by metis

lemma tables_grow_refl: "tables_grow H d d"
  by (simp add: tables_grow_def)

lemma tables_grow_trans: "tables_grow H d d' \<Longrightarrow> tables_grow H d' d'' \<Longrightarrow> tables_grow H d d''"
  unfolding tables_grow_def by (elim conjE) (intro conjI; (erule (1) kept_trans | erule (1) not_opened_trans))

lemma auth_steps_grow: "(auth_step H)\<^sup>*\<^sup>* d d' \<Longrightarrow> tables_grow H d d'"
  by (induction rule: rtranclp_induct) (auto simp: auth_step_def intro: tables_grow_refl tables_grow_trans)

lemma serving_ok:
  assumes "\<And>d d'. J d \<Longrightarrow> auth_step H d d' \<Longrightarrow> J d'" "\<And>d. J d \<Longrightarrow> auth_ok d" "J d" "list_all (issues_none e H) rs"
  shows "pool_ok J (auth_step H) (replicate (length (serving e rs)) (\<lambda>_. True)) (serving e rs, d)"
proof (rule pool_ok_all)
  fix s assume "s \<in> set (serving e rs)"
  then obtain r where "r \<in> set rs" "s = serve e r" by (auto simp: serving_def)
  moreover have "auth_obeys H (serve e r)" using calculation(1) assms(4) by (intro serve_obeys) (simp add: list_all_iff)
  ultimately show "obeys J (auth_step H) (\<lambda>_. True) s" using assms(2) by (auto elim: obeys_mono)
qed (use assms in auto)

lemma serving_run:
  assumes "auth_ok d" "list_all (issues_none e H) rs" "pool_run ms (serving e rs, d) = (ss, d')"
  shows "auth_ok d' \<and> tables_grow H d d' \<and> length ss = length rs"
proof -
  have "pool_ok auth_ok (auth_step H) (replicate (length (serving e rs)) (\<lambda>_. True)) (serving e rs, d)"
    by (rule serving_ok) (use assms(1,2) in \<open>auto intro: auth_step_ok\<close>)
  from pool_run_obeys [OF this assms(3)] show ?thesis
    by (auto simp: pool_ok_def serving_def dest: auth_steps_grow list_all2_lengthD)
qed

lemma issues_none_empty: "list_all (issues_none e {}) rs"
  by (simp add: list_all_iff issues_none_def split: auth_request.split)



section \<open>Tickets\<close>

text \<open>The one-time tickets, their requests and the state in which one is used up.\<close>

datatype ticket = VerificationTicket string | ResetTicket string | LinkTicket string | StateTicket string

definition ticket_of :: "auth_env \<Rightarrow> auth_request \<Rightarrow> ticket option" where
  "ticket_of e r = (case r of VerifyEmail tok \<Rightarrow> Some (VerificationTicket (av_sha e tok))
     | ResetPassword tok _ _ \<Rightarrow> Some (ResetTicket (av_sha e tok))
     | RedeemLink tok _ _ _ _ \<Rightarrow> Some (LinkTicket (av_sha e tok))
     | CompleteOAuth st _ _ _ _ _ _ _ \<Rightarrow> Some (StateTicket (av_sha e st)) | _ \<Rightarrow> None)"

fun used_up :: "ticket \<Rightarrow> auth_db \<Rightarrow> bool" where
  "used_up (VerificationTicket h) d = list_ex (\<lambda>r. et_hash r = h \<and> et_used r \<noteq> None) (ad_verifications d)"
| "used_up (ResetTicket h) d = list_ex (\<lambda>r. pr_hash r = h \<and> pr_used r \<noteq> None) (ad_resets d)"
| "used_up (LinkTicket h) d = list_ex (\<lambda>r. ml_hash r = h \<and> ml_used r \<noteq> None) (ad_links d)"
| "used_up (StateTicket h) d = (\<not> list_ex (\<lambda>s. os_hash s = h \<and> os_consumed s = None) (ad_states d))"

fun ticket_hash :: "ticket \<Rightarrow> string" where
  "ticket_hash (VerificationTicket h) = h" | "ticket_hash (ResetTicket h) = h"
| "ticket_hash (LinkTicket h) = h" | "ticket_hash (StateTicket h) = h"

lemma kept_list_ex:
  assumes "kept key spent t t'" "list_ex P t" "\<And>r. P r \<Longrightarrow> spent r" "\<And>r r'. key r' = key r \<Longrightarrow> P r \<Longrightarrow> spent r' \<Longrightarrow> P r'"
  shows "list_ex P t'"
  using assms unfolding kept_def list_ex_iff by metis

lemma used_up_stays:
  assumes "auth_step {ticket_hash k} d d'" "used_up k d"
  shows "used_up k d'"
proof -
  from assms(1) have g: "tables_grow {ticket_hash k} d d'" by (simp add: auth_step_def)
  show ?thesis
  proof (cases k)
    case (StateTicket h)
    with assms(2) g show ?thesis by (auto simp: tables_grow_def not_opened_def list_ex_iff)
  next
    case (VerificationTicket h)
    from g have "kept (\<lambda>r. (et_user r, et_hash r)) (\<lambda>r. et_used r \<noteq> None) (ad_verifications d) (ad_verifications d')" by (simp add: tables_grow_def)
    from kept_list_ex [OF this] assms(2) VerificationTicket show ?thesis by auto
  next
    case (ResetTicket h)
    from g have "kept (\<lambda>r. (pr_user r, pr_hash r)) (\<lambda>r. pr_used r \<noteq> None) (ad_resets d) (ad_resets d')" by (simp add: tables_grow_def)
    from kept_list_ex [OF this] assms(2) ResetTicket show ?thesis by auto
  next
    case (LinkTicket h)
    from g have "kept (\<lambda>r. (ml_user r, ml_hash r)) (\<lambda>r. ml_used r \<noteq> None) (ad_links d) (ad_links d')" by (simp add: tables_grow_def)
    from kept_list_ex [OF this] assms(2) LinkTicket show ?thesis by auto
  qed
qed

lemma ticket_spent:
  assumes "distinct (map key t)" "find (\<lambda>r. key r = h \<and> used r = None) t = Some r" "\<forall>r. key (f r) = key r \<and> used (f r) \<noteq> None"
  shows "\<not> list_ex (\<lambda>r. key r = h \<and> used r \<noteq> None) t
    \<and> list_ex (\<lambda>r. key r = h \<and> used r \<noteq> None) (update_where (\<lambda>r. key r = h \<and> used r = None) f t)"
proof -
  from assms(2) have r: "r \<in> set t" "key r = h" "used r = None" by (auto simp: find_Some_iff)
  then have "f r \<in> set (update_where (\<lambda>r. key r = h \<and> used r = None) f t)" unfolding set_update_where by (intro bexI [of _ r]) simp_all
  then have 1: "list_ex (\<lambda>r. key r = h \<and> used r \<noteq> None) (update_where (\<lambda>r. key r = h \<and> used r = None) f t)"
    unfolding list_ex_iff by (rule bexI [rotated]) (simp add: assms(3) r(2))
  have "used s = None" if "s \<in> set t" "key s = h" for s
    using key_unique [OF assms(1) that(1) r(1)] that(2) r(2,3) by simp
  then have "\<not> list_ex (\<lambda>r. key r = h \<and> used r \<noteq> None) t" by (auto simp: list_ex_iff)
  from conjI [OF this 1] show ?thesis .
qed

lemma tickets_needed:
  "needs auth_ok (\<lambda>d d'. \<not> used_up (VerificationTicket h) d \<and> used_up (VerificationTicket h) d') is_answer (use_verification h)"
  "needs auth_ok (\<lambda>d d'. \<not> used_up (ResetTicket h) d \<and> used_up (ResetTicket h) d') is_answer (use_reset h)"
  "needs auth_ok (\<lambda>d d'. \<not> used_up (LinkTicket h) d \<and> used_up (LinkTicket h) d') is_answer (use_link h)"
  "needs auth_ok (\<lambda>d d'. \<not> used_up (StateTicket h) d \<and> used_up (StateTicket h) d') is_answer (use_state h p)"
proof -
  have u: "auth_ok d \<Longrightarrow> distinct (map et_hash (ad_verifications d)) \<and> distinct (map pr_hash (ad_resets d)) \<and>
      distinct (map ml_hash (ad_links d)) \<and> distinct (map os_hash (ad_states d))" for d
    by (simp add: auth_ok_def Let_def rows_ok_def)
  show "needs auth_ok (\<lambda>d d'. \<not> used_up (VerificationTicket h) d \<and> used_up (VerificationTicket h) d') is_answer (use_verification h)"
    unfolding use_verification_def used_up.simps
    by (rule needs_statement, drule u) (clarsimp split: option.splits simp del: not_None_eq, rule ticket_spent, simp_all)
  show "needs auth_ok (\<lambda>d d'. \<not> used_up (ResetTicket h) d \<and> used_up (ResetTicket h) d') is_answer (use_reset h)"
    unfolding use_reset_def used_up.simps
    by (rule needs_statement, drule u) (clarsimp split: option.splits simp del: not_None_eq, rule ticket_spent, simp_all)
  show "needs auth_ok (\<lambda>d d'. \<not> used_up (LinkTicket h) d \<and> used_up (LinkTicket h) d') is_answer (use_link h)"
    unfolding use_link_def used_up.simps
    by (rule needs_statement, drule u) (clarsimp split: option.splits simp del: not_None_eq, rule ticket_spent, simp_all)
  show "needs auth_ok (\<lambda>d d'. \<not> used_up (StateTicket h) d \<and> used_up (StateTicket h) d') is_answer (use_state h p)"
    unfolding use_state_def
  proof (rule needs_statement)
    fix t d r d'
    assume d: "auth_ok d" and a: "is_answer r"
      and f: "(case find (open_state h p t) (ad_states d) of None \<Rightarrow> (Inl (Err OAuthStateInvalid), d)
        | Some s \<Rightarrow> (Inr (os_redirect s), d\<lparr>ad_states := update_where (open_state h p t) (\<lambda>s. s\<lparr>os_consumed := Some t\<rparr>) (ad_states d)\<rparr>)) = (r, d')"
    from f a obtain s where s: "find (open_state h p t) (ad_states d) = Some s"
      and d': "d' = d\<lparr>ad_states := update_where (open_state h p t) (\<lambda>s. s\<lparr>os_consumed := Some t\<rparr>) (ad_states d)\<rparr>"
      by (auto split: option.splits)
    from s have s: "s \<in> set (ad_states d)" "open_state h p t s" by (auto simp: find_Some_iff)
    have one: "s' = s" if "s' \<in> set (ad_states d)" "os_hash s' = h" for s'
      using that s u [OF d] by (auto simp: open_state_def intro: key_unique)
    have "os_consumed s' \<noteq> None" if "s' \<in> set (update_where (open_state h p t) (\<lambda>s. s\<lparr>os_consumed := Some t\<rparr>) (ad_states d))" "os_hash s' = h" for s'
    proof -
      from that(1) obtain q where q: "q \<in> set (ad_states d)" "s' = (if open_state h p t q then q\<lparr>os_consumed := Some t\<rparr> else q)"
        by (auto simp: set_update_where)
      with that(2) have "q = s" by (intro one) (auto split: if_splits)
      with q s(2) show ?thesis by simp
    qed
    moreover have "\<not> used_up (StateTicket h) d" using s by (auto simp: list_ex_iff open_state_def)
    ultimately show "\<not> used_up (StateTicket h) d \<and> used_up (StateTicket h) d'"
      unfolding d' by (auto simp: list_ex_iff)
  qed
qed

lemma serve_needs_ticket:
  "ticket_of e r = Some k \<Longrightarrow> needs auth_ok (\<lambda>d d'. \<not> used_up k d \<and> used_up k d') is_answer (serve e r)"
  by (cases r)
    (auto simp: ticket_of_def reply_def verify_email_def consume_verification_token_def reset_password_def consume_reset_token_def
      redeem_magic_link_def consume_magic_link_def complete_oauth_def consume_state_def andthen_def [of "refuse x" for x]
      intro!: needs_andthen tickets_needed simp del: used_up.simps split: option.split)

text \<open>
  C8: tickets are redeemed once.  Of the concurrent requests that present the same
  verification token, reset token, sign-in link or OAuth state at most one succeeds, the ticket
  was unused before and is used up afterwards; a ticket found used up is refused.  (An OAuth
  state row may be deleted when it is over, so its token must not be drawn a second time.)
\<close>

theorem tickets_redeemed_once:
  assumes "auth_ok d" and "pool_run ms (serving e rs, d) = (ss, d')" and "list_all (issues_none e {ticket_hash k}) rs"
    and "i < length rs" and "ticket_of e (rs ! i) = Some k" and "reply_of (ss ! i) = Some (Inr a)"
  shows "\<not> used_up k d \<and> used_up k d' \<and>
    (j < length rs \<and> j \<noteq> i \<and> ticket_of e (rs ! j) = Some k \<longrightarrow> (\<forall>b. reply_of (ss ! j) \<noteq> Some (Inr b)))"
proof -
  have ok: "pool_ok auth_ok (auth_step {ticket_hash k}) (replicate (length (serving e rs)) (\<lambda>_. True)) (serving e rs, d)"
    by (rule serving_ok) (use assms(1,3) in \<open>auto intro: auth_step_ok\<close>)
  have n: "needs auth_ok (\<lambda>d d'. \<not> used_up k d \<and> used_up k d') is_answer (serving e rs ! l)"
    if "l < length rs" "ticket_of e (rs ! l) = Some k" for l
    using serve_needs_ticket [OF that(2)] that(1) by (simp add: serving_def)
  have "\<not> used_up k d \<and> used_up k d'"
    by (rule success_spends [OF ok n [OF assms(4,5)] _ assms(2,6)]) (auto intro: used_up_stays)
  moreover have "reply_of (ss ! j) \<noteq> Some (Inr b)" if "j < length rs" "j \<noteq> i" "ticket_of e (rs ! j) = Some k" for b
  proof
    assume "reply_of (ss ! j) = Some (Inr b)"
    from successes_exclude [OF ok that(2) n [OF that(1,3)] n [OF assms(4,5)] _ assms(2) this _ assms(6)]
    show False by (auto intro: used_up_stays)
  qed
  ultimately show ?thesis by blast
qed

text \<open>Two resets with one token; the second is refused, and the session is cut off.\<close>

definition demo_turns :: "turn list" where
  "demo_turns = map (\<lambda>i. (i, Ran, 10)) [0, 1, 0, 1, 0, 0, 0, 0, 0]"

lemma two_resets:
  "\<exists>d'. pool_run demo_turns (serving demo_env [ResetPassword ''reset'' [] ''new password'', ResetPassword ''reset'' [] ''other password''], demo_accounts)
     = ([Done (Inr (Who \<lparr> ui_id = ''u1'', ui_name = ''Ada'', ui_email = ''a@x'', ui_hash = ''new password'', ui_created = 0, ui_method = [] \<rparr>)),
        Done (Inl (Err InvalidToken))], d')"
  by (simp add: demo_turns_def run_defs reset_password_def consume_reset_token_def use_reset_def unless_expired_def with_hash_def
      replace_credentials_def update_password_def revoke_all_sessions_def revoke_sessions_where_def revoke_all_trusted_devices_def
      revoke_devices_where_def clear_failed_attempts_def user_by_id_def scan_user_def set_user_def min_password_length_def auth_demo_defs)

theorem tickets_redeemed_once_witness:
  "(case pool_run demo_turns (serving demo_env [ResetPassword ''reset'' [] ''new password'', ResetPassword ''reset'' [] ''other password''], demo_accounts)
    of (ss, d') \<Rightarrow> used_up (ResetTicket ''#reset'') d' \<and> reply_of (ss ! 1) \<noteq> Some (Inr Empty))"
proof -
  let ?rs = "[ResetPassword ''reset'' [] ''new password'', ResetPassword ''reset'' [] ''other password'']"
  obtain d' where r: "pool_run demo_turns (serving demo_env ?rs, demo_accounts)
     = ([Done (Inr (Who \<lparr> ui_id = ''u1'', ui_name = ''Ada'', ui_email = ''a@x'', ui_hash = ''new password'', ui_created = 0, ui_method = [] \<rparr>)),
        Done (Inl (Err InvalidToken))], d')"
    using two_resets by blast
  from tickets_redeemed_once [OF demo_accounts_ok r, where k = "ResetTicket ''#reset''" and i = 0 and j = 1]
  show ?thesis unfolding r prod.case by (simp add: reply_of_def ticket_of_def demo_env_def issues_none_def)
qed

section \<open>Cutting off an account\<close>

text \<open>Every session and trusted device of \<open>u\<close> that was there in \<open>d0\<close> is revoked in \<open>d\<close>.\<close>

definition sessions_cut :: "string \<Rightarrow> auth_db \<Rightarrow> auth_db \<Rightarrow> bool" where
  "sessions_cut u d0 d \<longleftrightarrow> list_all (\<lambda>s. se_user s = u \<longrightarrow> list_ex (\<lambda>r. se_hash r = se_hash s \<and> se_revoked r \<noteq> None) (ad_sessions d)) (ad_sessions d0)"

definition devices_cut :: "string \<Rightarrow> auth_db \<Rightarrow> auth_db \<Rightarrow> bool" where
  "devices_cut u d0 d \<longleftrightarrow> list_all (\<lambda>s. td_user s = u \<longrightarrow> list_ex (\<lambda>r. td_hash r = td_hash s \<and> td_revoked r \<noteq> None) (ad_devices d)) (ad_devices d0)"

text \<open>The requests that cut off \<open>u\<close>: a reset with a token of \<open>u\<close>, and deprovisioning.\<close>

definition cuts_off :: "auth_env \<Rightarrow> auth_db \<Rightarrow> auth_request \<Rightarrow> string \<Rightarrow> bool" where
  "cuts_off e d r u = (case r of ResetPassword tok _ _ \<Rightarrow> list_ex (\<lambda>p. pr_hash p = av_sha e tok \<and> pr_user p = u) (ad_resets d)
     | RevokeAll v \<Rightarrow> v = u | _ \<Rightarrow> False)"

lemma cut_stays:
  assumes "tables_grow {} d d'"
  shows "sessions_cut u d0 d \<Longrightarrow> sessions_cut u d0 d'" "devices_cut u d0 d \<Longrightarrow> devices_cut u d0 d'"
proof -
  have k: "kept (\<lambda>s. (se_id s, se_user s, se_hash s)) (\<lambda>s. se_revoked s \<noteq> None) (ad_sessions d) (ad_sessions d')"
    "kept (\<lambda>r. (td_id r, td_user r, td_hash r)) (\<lambda>r. td_revoked r \<noteq> None) (ad_devices d) (ad_devices d')"
    using assms by (simp_all add: tables_grow_def)
  show "sessions_cut u d0 d \<Longrightarrow> sessions_cut u d0 d'"
    using kept_list_ex [OF k(1)] by (fastforce simp: sessions_cut_def list_all_iff)
  show "devices_cut u d0 d \<Longrightarrow> devices_cut u d0 d'"
    using kept_list_ex [OF k(2)] by (fastforce simp: devices_cut_def list_all_iff)
qed

text \<open>The databases of a run from \<open>d0\<close>.\<close>

definition grown_from :: "auth_db \<Rightarrow> auth_db \<Rightarrow> bool" where
  "grown_from d0 d \<longleftrightarrow> auth_ok d \<and> tables_grow {} d0 d"

lemma grown_from_step: "grown_from d0 d \<Longrightarrow> auth_step {} d d' \<Longrightarrow> grown_from d0 d'"
  by (auto simp: grown_from_def auth_step_def intro: tables_grow_trans)

lemma obeys_grown: "auth_obeys {} m \<Longrightarrow> obeys (grown_from d0) (auth_step {}) (good (\<lambda>_. True)) m"
  by (rule obeys_weaken [where Q = "\<lambda>_. True"], erule obeys_mono) (auto simp: grown_from_def split: sum.split)

lemma revoked_all:
  "needs (grown_from d0) (\<lambda>_. sessions_cut u d0) is_answer (revoke_all_sessions u None)"
  "needs (grown_from d0) (\<lambda>_. devices_cut u d0) is_answer (revoke_all_trusted_devices u)"
proof -
  have 1: "sessions_cut u d0 (revoke_sessions_where (\<lambda>s. se_user s = u) t d)" if "grown_from d0 d" for t d
  proof -
    from that have k: "kept (\<lambda>s. (se_id s, se_user s, se_hash s)) (\<lambda>s. se_revoked s \<noteq> None) (ad_sessions d0) (ad_sessions d)"
      by (simp add: grown_from_def tables_grow_def)
    show ?thesis
      unfolding sessions_cut_def list_all_iff list_ex_iff
    proof (intro ballI impI)
      fix s assume "s \<in> set (ad_sessions d0)" "se_user s = u"
      with k obtain s' where s': "s' \<in> set (ad_sessions d)" "se_user s' = u" "se_hash s' = se_hash s" unfolding kept_def by auto
      show "\<exists>r \<in> set (ad_sessions (revoke_sessions_where (\<lambda>s. se_user s = u) t d)). se_hash r = se_hash s \<and> se_revoked r \<noteq> None"
        using s' unfolding revoke_sessions_where_def
        by (intro bexI [of _ "if se_revoked s' = None then s'\<lparr>se_revoked := Some t\<rparr> else s'"]) (auto simp: set_update_where intro!: bexI [of _ s'])
    qed
  qed
  show "needs (grown_from d0) (\<lambda>_. sessions_cut u d0) is_answer (revoke_all_sessions u None)"
    unfolding revoke_all_sessions_def by (rule needs_statement) (auto dest!: 1)
  have 2: "devices_cut u d0 (revoke_devices_where (\<lambda>s. td_user s = u) t d)" if "grown_from d0 d" for t d
  proof -
    from that have k: "kept (\<lambda>s. (td_id s, td_user s, td_hash s)) (\<lambda>s. td_revoked s \<noteq> None) (ad_devices d0) (ad_devices d)"
      by (simp add: grown_from_def tables_grow_def)
    show ?thesis
      unfolding devices_cut_def list_all_iff list_ex_iff
    proof (intro ballI impI)
      fix s assume "s \<in> set (ad_devices d0)" "td_user s = u"
      with k obtain s' where s': "s' \<in> set (ad_devices d)" "td_user s' = u" "td_hash s' = td_hash s" unfolding kept_def by auto
      show "\<exists>r \<in> set (ad_devices (revoke_devices_where (\<lambda>s. td_user s = u) t d)). td_hash r = td_hash s \<and> td_revoked r \<noteq> None"
        using s' unfolding revoke_devices_where_def
        by (intro bexI [of _ "if td_revoked s' = None then s'\<lparr>td_revoked := Some t\<rparr> else s'"]) (auto simp: set_update_where intro!: bexI [of _ s'])
    qed
  qed
  show "needs (grown_from d0) (\<lambda>_. devices_cut u d0) is_answer (revoke_all_trusted_devices u)"
    unfolding revoke_all_trusted_devices_def by (rule needs_statement) (auto dest!: 2)
qed

lemma find_in: "find P xs = Some x \<Longrightarrow> x \<in> set xs \<and> P x"
  by (auto simp: find_Some_iff)

text \<open>The owner of a reset token does not change.\<close>

lemma reset_owner:
  assumes "list_ex (\<lambda>p. pr_hash p = h \<and> pr_user p = u) (ad_resets d0)"
  shows "obeys (grown_from d0) (auth_step {}) (good (\<lambda>v. v = u)) (consume_reset_token h)"
  unfolding consume_reset_token_def
proof (rule obeys_andthen [where Q = "\<lambda>x. fst x = u"])
  have "obeys (grown_from d0) (\<lambda>_ _. True) (good (\<lambda>x. fst x = u)) (use_reset h)"
    unfolding use_reset_def
  proof (rule obeys_statement)
    fix t d r d'
    assume d: "grown_from d0 d" and f: "(case find (\<lambda>r. pr_hash r = h \<and> pr_used r = None) (ad_resets d) of None \<Rightarrow> (Inl (Err InvalidToken), d)
      | Some r \<Rightarrow> (Inr (pr_user r, pr_expires r), d\<lparr>ad_resets := update_where (\<lambda>r. pr_hash r = h \<and> pr_used r = None)
          (\<lambda>r. r\<lparr>pr_used := Some t\<rparr>) (ad_resets d)\<rparr>)) = (r, d')"
    from d have k: "kept (\<lambda>r. (pr_user r, pr_hash r)) (\<lambda>r. pr_used r \<noteq> None) (ad_resets d0) (ad_resets d)"
      "distinct (map pr_hash (ad_resets d))"
      by (simp_all add: grown_from_def tables_grow_def auth_ok_def Let_def rows_ok_def)
    from assms k(1) obtain p where p: "p \<in> set (ad_resets d)" "pr_hash p = h" "pr_user p = u" by (auto simp: list_ex_iff kept_def)
    have "q = p" if "q \<in> set (ad_resets d)" "pr_hash q = h" for q
      by (rule key_unique [OF k(2) that(1) p(1)]) (simp add: that(2) p(2))
    with f p(3) show "True \<and> good (\<lambda>x. fst x = u) r" by (auto dest!: find_in split: option.splits)
  qed simp
  from obeys_conj [OF this obeys_grown [OF tokens_used(2), of d0]]
  show "obeys (grown_from d0) (auth_step {}) (good (\<lambda>x. fst x = u)) (use_reset h)"
    by simp
qed (auto simp: unless_expired_def split: prod.split)

lemma cut_needed:
  assumes "cuts_off e d0 r u"
  shows "needs (grown_from d0) (\<lambda>_. sessions_cut u d0) is_answer (serve e r)" "needs (grown_from d0) (\<lambda>_. devices_cut u d0) is_answer (serve e r)"
proof -
  have 1: "needs (grown_from d0) T is_answer (replace_credentials u h)"
    if "needs (grown_from d0) T is_answer (revoke_all_sessions u None) \<or> needs (grown_from d0) T is_answer (revoke_all_trusted_devices u)" for T h
    using that unfolding replace_credentials_def
    by (intro needs_andthen_later [OF obeys_grown [OF users_steps(9)]], elim disjE)
      (blast intro: needs_andthen needs_andthen_later [OF obeys_grown [OF sessions_steps(5)]])+
  have 2: "needs (grown_from d0) T is_answer (serve e r)"
    if "needs (grown_from d0) T is_answer (revoke_all_sessions u None) \<or> needs (grown_from d0) T is_answer (revoke_all_trusted_devices u)" for T
  proof (cases r)
    case (ResetPassword tok salt pw)
    with assms have o: "list_ex (\<lambda>p. pr_hash p = av_sha e tok \<and> pr_user p = u) (ad_resets d0)" by (simp add: cuts_off_def)
    show ?thesis
      unfolding ResetPassword serve.simps reply_def reset_password_def
      by (rule needs_andthen) (auto intro!: needs_andthen_later [OF reset_owner [OF o]] 1 [OF that] simp: with_hash_def split: option.split)
  next
    case (RevokeAll v)
    with assms have "v = u" by (simp add: cuts_off_def)
    have "needs (grown_from d0) T is_answer (andthen (revoke_all_sessions u None) (\<lambda>_. revoke_all_trusted_devices u))"
      using that by (blast intro: needs_andthen needs_andthen_later [OF obeys_grown [OF sessions_steps(5)]])
    with \<open>v = u\<close> show ?thesis
      unfolding RevokeAll serve.simps reply_def revoke_all_credentials_def by (simp add: needs_andthen)
  qed (use assms in \<open>simp_all add: cuts_off_def\<close>)
  show "needs (grown_from d0) (\<lambda>_. sessions_cut u d0) is_answer (serve e r)" "needs (grown_from d0) (\<lambda>_. devices_cut u d0) is_answer (serve e r)"
    by (rule 2, simp add: revoked_all)+
qed

lemma cut_session_refused:
  assumes "sessions_cut u d0 d" "auth_ok d" "s \<in> set (ad_sessions d0)" "se_user s = u"
  shows "fst (alone t (session_user (se_hash s)) d) = Inl (Err UnknownUser)"
proof -
  from assms(1,3,4) obtain r where r: "r \<in> set (ad_sessions d)" "se_hash r = se_hash s" "se_revoked r \<noteq> None"
    unfolding sessions_cut_def list_all_iff list_ex_iff by blast
  from assms(2) have "distinct (map se_hash (ad_sessions d))" by (simp add: auth_ok_def Let_def rows_ok_def)
  from key_unique [OF this _ r(1)] r(2,3)
  have "find (\<lambda>q. se_hash q = se_hash s \<and> live_session t q \<and> se_user q \<in> us_id ` set (ad_users d)) (ad_sessions d) = None"
    by (auto simp: find_None_iff live_session_def)
  then show ?thesis by (simp add: session_user_def alone_simps)
qed

lemma cut_device_refused:
  assumes "devices_cut u d0 d" "auth_ok d" "s \<in> set (ad_devices d0)" "td_user s = u"
  shows "fst (alone t (touch_trusted_device v (td_hash s)) d) = (Inr False :: auth_error err + bool)"
proof -
  from assms(1,3,4) obtain r where r: "r \<in> set (ad_devices d)" "td_hash r = td_hash s" "td_revoked r \<noteq> None"
    unfolding devices_cut_def list_all_iff list_ex_iff by blast
  from assms(2) have "distinct (map td_hash (ad_devices d))" by (simp add: auth_ok_def Let_def rows_ok_def)
  from key_unique [OF this _ r(1)] r(2,3)
  have "\<not> list_ex (\<lambda>q. td_user q = v \<and> td_hash q = td_hash s \<and> live_device t q) (ad_devices d)"
    by (auto simp: list_ex_iff live_device_def)
  then show ?thesis by (simp add: touch_trusted_device_def alone_simps Let_def)
qed

text \<open>
  C9: a reset cuts off every device.  When a password reset (or the deprovisioning of a member)
  has succeeded, then whatever other requests ran meanwhile, every session that existed when it
  was asked for is refused at any later time, and every trusted device of that moment counts
  for nothing.
\<close>

theorem reset_cuts_off:
  assumes "auth_ok d" and "pool_run ms (serving e rs, d) = (ss, d')" and "i < length rs" and "cuts_off e d (rs ! i) u"
    and "reply_of (ss ! i) = Some (Inr a)"
  shows "(s \<in> set (ad_sessions d) \<and> se_user s = u \<longrightarrow> fst (alone t (session_user (se_hash s)) d') = Inl (Err UnknownUser)) \<and>
    (v \<in> set (ad_devices d) \<and> td_user v = u \<longrightarrow> fst (alone t (touch_trusted_device u (td_hash v)) d') = Inr False)"
proof -
  have ok: "pool_ok (grown_from d) (auth_step {}) (replicate (length (serving e rs)) (\<lambda>_. True)) (serving e rs, d)"
    by (rule serving_ok [OF grown_from_step _ _ issues_none_empty]) (use assms(1) in \<open>auto simp: grown_from_def tables_grow_refl\<close>)
  have i: "serving e rs ! i = serve e (rs ! i)" using assms(3) by (simp add: serving_def)
  have st: "tables_grow {} x y" if "auth_step {} x y" for x y using that by (simp add: auth_step_def)
  have "sessions_cut u d d'"
    by (rule needed_happened [where ok = is_answer, OF ok _ cut_stays(1) assms(2,5)]) (use cut_needed [OF assms(4)] i st in auto)
  moreover have "devices_cut u d d'"
    by (rule needed_happened [where ok = is_answer, OF ok _ cut_stays(2) assms(2,5)]) (use cut_needed [OF assms(4)] i st in auto)
  moreover have "auth_ok d'" using serving_run [OF assms(1) issues_none_empty assms(2)] by simp
  ultimately show ?thesis by (auto intro: cut_session_refused cut_device_refused)
qed

theorem reset_cuts_off_witness:
  "fst (alone 20 (session_user ''#cookie'') (snd (pool_run demo_turns
     (serving demo_env [ResetPassword ''reset'' [] ''new password'', ResetPassword ''reset'' [] ''other password''], demo_accounts))))
   = Inl (Err UnknownUser)"
proof -
  let ?rs = "[ResetPassword ''reset'' [] ''new password'', ResetPassword ''reset'' [] ''other password'']"
  obtain d' where r: "pool_run demo_turns (serving demo_env ?rs, demo_accounts)
     = ([Done (Inr (Who \<lparr> ui_id = ''u1'', ui_name = ''Ada'', ui_email = ''a@x'', ui_hash = ''new password'', ui_created = 0, ui_method = [] \<rparr>)),
        Done (Inl (Err InvalidToken))], d')"
    using two_resets by blast
  have "cuts_off demo_env demo_accounts (?rs ! 0) ''u1''" by (simp add: cuts_off_def demo_env_def demo_accounts_def)
  from reset_cuts_off [OF demo_accounts_ok r _ this, where s = demo_session and t = 20]
  show ?thesis unfolding r snd_conv by (simp add: reply_of_def demo_accounts_def demo_session_def)
qed

end
