(* ===== verification/AuthFactor.thy ===== *)
theory AuthFactor
  imports AuthFacts
begin

text \<open>
  The second factor and the lockout.  An attacker who has the password, the mailbox or the
  OAuth identity of an account with two-factor authentication, but no code, recovery code or
  trusted device of it, never gets a session, in any interleaving with any other requests.
\<close>

section \<open>Without the second factor\<close>

text \<open>
  The factor of \<open>u\<close> is the secret \<open>sec\<close>; no recovery code of \<open>u\<close> has a hash in \<open>C\<close>, no trusted
  device one in \<open>D\<close>, and the sessions of \<open>u\<close> are among \<open>S\<close>.
\<close>

definition factor_kept :: "string \<Rightarrow> string \<Rightarrow> string set \<Rightarrow> string set \<Rightarrow> string set \<Rightarrow> auth_db \<Rightarrow> bool" where
  "factor_kept u sec C D S d \<longleftrightarrow> u \<in> us_id ` set (ad_users d) \<and>
     list_all (\<lambda>v. us_id v = u \<longrightarrow> us_secret v = Some sec \<and> us_enabled v \<noteq> None) (ad_users d) \<and>
     list_all (\<lambda>r. rc_user r = u \<longrightarrow> rc_hash r \<notin> C) (ad_recovery d) \<and>
     list_all (\<lambda>r. td_user r = u \<longrightarrow> td_hash r \<notin> D) (ad_devices d) \<and>
     list_all (\<lambda>s. se_user s = u \<longrightarrow> se_id s \<in> S) (ad_sessions d)"

lemma factor_of_user:
  assumes "factor_kept u sec C D S d" "lookup_key us_id u (ad_users d) = Some v"
  shows "us_secret v = Some sec" "has_totp v"
  using assms lookup_key_Some [OF assms(2)] by (auto simp: factor_kept_def list_all_iff has_totp_def)

lemma kept_statement: "(\<And>t d. I d \<Longrightarrow> I (snd (f t d))) \<Longrightarrow> safe I (\<lambda>_. True) (statement f)"
  by (rule obeys_statement) (auto dest: sndI)

lemma kept_ask: "safe I (\<lambda>_. True) (ask f)"
  by (rule kept_statement) simp

lemma kept_checked: "(\<And>d d'. I d \<Longrightarrow> f d = Some d' \<Longrightarrow> I d') \<Longrightarrow> safe I (\<lambda>_. True) (checked f)"
  by (rule obeys_checked) auto

abbreviation keeps_factor :: "string \<Rightarrow> string \<Rightarrow> string set \<Rightarrow> string set \<Rightarrow> string set \<Rightarrow> 'r auth \<Rightarrow> bool" where
  "keeps_factor u sec C D S \<equiv> safe (factor_kept u sec C D S) (\<lambda>_. True)"

named_theorems factors \<open>statements that keep the second factor\<close>

lemma list_all_delete: "list_all Q t \<Longrightarrow> list_all Q (delete_where P t)"
  by (simp add: list_all_iff delete_where_def)

lemma factor_users [factors]:
  "keeps_factor u sec C D S (user_by_email a)" "keeps_factor u sec C D S (user_by_id b)" "keeps_factor u sec C D S any_user_exists"
  "keeps_factor u sec C D S (lock_state v)" "keeps_factor u sec C D S (record_failed_attempt v n k)"
  "keeps_factor u sec C D S (clear_failed_attempts v)" "keeps_factor u sec C D S (mark_signed_in v)"
  "keeps_factor u sec C D S (mark_email_verified v)" "keeps_factor u sec C D S (update_password v h)"
  "keeps_factor u sec C D S (update_profile_row v x y)" "keeps_factor u sec C D S (totp_enabled v)"
  "keeps_factor u sec C D S (totp_secret v)"
  unfolding user_by_email_def user_by_id_def any_user_exists_def record_failed_attempt_def clear_failed_attempts_def
    mark_signed_in_def mark_email_verified_def update_password_def update_profile_row_def lock_state_def
    totp_enabled_def totp_secret_def Let_def
  by (rule kept_ask kept_statement, simp add: factor_kept_def set_user_def failed_once_more_def unlocked_def split: option.split)+

lemma factor_new_users [factors]:
  "keeps_factor u sec C D S (insert_user i n a h)" "keeps_factor u sec C D S (link_oauth_identity i k p x)"
proof -
  have new: "factor_kept u sec C D S (d\<lparr>ad_users := ad_users d @ [new_account i n a h t]\<rparr>)"
    if "factor_kept u sec C D S d" "i \<notin> us_id ` set (ad_users d)" for d n a h t
    using that by (auto simp: factor_kept_def new_account_def)
  show "keeps_factor u sec C D S (insert_user i n a h)"
    unfolding insert_user_def
    by (rule kept_statement) (auto simp: user_exists_def list_ex_iff intro!: new)
  have link: "factor_kept u sec C D S d'" if "link_account k p s v d = (r, d')" "factor_kept u sec C D S d" for s v d r d'
    using that by (auto simp: link_account_def factor_kept_def split: if_splits option.splits)
  have "factor_kept u sec C D S d'" if "link_identity i k p x t d = (r, d')" "factor_kept u sec C D S d" for t d r d'
    using that by (auto simp: link_identity_def Let_def dest: link intro: new split: if_splits option.splits)
  then show "keeps_factor u sec C D S (link_oauth_identity i k p x)"
    unfolding link_oauth_identity_def by (intro kept_statement) (auto split: prod.split sum.split)
qed

lemma factor_sessions [factors]:
  "v \<noteq> u \<Longrightarrow> keeps_factor u sec C D S (insert_session inet i v h agent ip m x)"
  "keeps_factor u sec C D S (session_user h)" "keeps_factor u sec C D S (revoke_session_row h)"
  "keeps_factor u sec C D S (revoke_session_by_id v i)" "keeps_factor u sec C D S (revoke_all_sessions v k)"
  "keeps_factor u sec C D S (list_sessions_page v h b n)"
  unfolding insert_session_def session_user_def revoke_session_row_def revoke_session_by_id_def revoke_all_sessions_def
    list_sessions_page_def revoke_sessions_where_def
  by (rule kept_ask kept_statement, simp add: factor_kept_def split: option.split)+

lemma factor_tokens [factors]:
  "keeps_factor u sec C D S (insert_verification_token i v a h x)" "keeps_factor u sec C D S (insert_reset_token i v h x)"
  "keeps_factor u sec C D S (insert_magic_link inet i v a h red ip x)"
  "keeps_factor u sec C D S (insert_totp_challenge inet i v h agent ip m x)"
  "keeps_factor u sec C D S (insert_state i h p red x)"
  unfolding insert_verification_token_def insert_reset_token_def insert_magic_link_def insert_totp_challenge_def insert_state_def
  by (rule kept_checked, clarsimp simp: factor_kept_def split: if_splits)+

lemma factor_tokens_used [factors]:
  "keeps_factor u sec C D S (use_verification h)" "keeps_factor u sec C D S (use_reset h)" "keeps_factor u sec C D S (use_link h)"
  "keeps_factor u sec C D S (find_challenge h)" "keeps_factor u sec C D S (record_totp_attempt h)"
  "keeps_factor u sec C D S (consume_totp_challenge h)" "keeps_factor u sec C D S delete_old_states"
  "keeps_factor u sec C D S (use_state h p)"
  unfolding use_verification_def use_reset_def use_link_def find_challenge_def record_totp_attempt_def consume_totp_challenge_def
    set_challenge_def delete_old_states_def use_state_def
  by (rule kept_ask kept_statement, simp add: factor_kept_def split: option.split)+

lemma factor_recovery [factors]:
  "v \<noteq> u \<Longrightarrow> keeps_factor u sec C D S (enable_totp v secret codes)" "v \<noteq> u \<Longrightarrow> keeps_factor u sec C D S (disable_totp_rows v)"
  "keeps_factor u sec C D S (consume_recovery_code v h)" "keeps_factor u sec C D S (count_unused_recovery_codes v)"
proof -
  have set: "factor_kept u sec C D S (set_user v f d)" if "v \<noteq> u" "factor_kept u sec C D S d" "\<forall>w. us_id (f w) = us_id w" for f d
    using that by (auto simp: factor_kept_def set_user_def list_all_iff set_update_where)
  have rec: "factor_kept u sec C D S (d\<lparr>ad_recovery := delete_where (\<lambda>r. rc_user r = v) (ad_recovery d) @ recovery_rows v codes\<rparr>)"
    if "v \<noteq> u" "factor_kept u sec C D S d" for d codes
    using that by (auto simp: factor_kept_def list_all_iff delete_where_def recovery_rows_def)
  show "v \<noteq> u \<Longrightarrow> keeps_factor u sec C D S (enable_totp v secret codes)"
    unfolding enable_totp_def Let_def by (rule kept_statement) (simp add: set rec del: set_user_frame)
  show "v \<noteq> u \<Longrightarrow> keeps_factor u sec C D S (disable_totp_rows v)"
    unfolding disable_totp_rows_def Let_def
    by (rule kept_statement, unfold snd_conv) (use rec [where codes = "[]"] set in \<open>simp add: recovery_rows_def del: set_user_frame\<close>)
  show "keeps_factor u sec C D S (consume_recovery_code v h)" "keeps_factor u sec C D S (count_unused_recovery_codes v)"
    unfolding consume_recovery_code_def count_unused_recovery_codes_def Let_def
    by (rule kept_ask kept_statement, simp add: factor_kept_def)+
qed

lemma factor_devices [factors]:
  "v \<noteq> u \<Longrightarrow> keeps_factor u sec C D S (insert_trusted_device inet i v h agent ip x)"
  "keeps_factor u sec C D S (touch_trusted_device v h)"
  "keeps_factor u sec C D S (revoke_trusted_device v i)" "keeps_factor u sec C D S (revoke_all_trusted_devices v)"
  "keeps_factor u sec C D S (revoke_trusted_device_by_hash v h)" "keeps_factor u sec C D S (list_trusted_devices v h)"
  "keeps_factor u sec C D S (list_trusted_devices_page v h b n)"
  unfolding insert_trusted_device_def touch_trusted_device_def revoke_trusted_device_def revoke_all_trusted_devices_def
    revoke_trusted_device_by_hash_def list_trusted_devices_def list_trusted_devices_page_def revoke_devices_where_def Let_def
  by (rule kept_ask kept_statement, simp add: factor_kept_def)+

lemma safe_answers: "safe I (\<lambda>_. True) m \<Longrightarrow> obeys I (\<lambda>_ _. True) Q m \<Longrightarrow> safe I Q m"
  by (drule (1) obeys_conj) simp

text \<open>What the statements answer about \<open>u\<close>.\<close>

lemma factor_answers:
  "safe (factor_kept u sec C D S) (good (\<lambda>b. b)) (totp_enabled u)"
  "safe (factor_kept u sec C D S) (good (\<lambda>s. s = sec)) (totp_secret u)"
  "h \<in> C \<Longrightarrow> safe (factor_kept u sec C D S) (good (\<lambda>b. \<not> b)) (consume_recovery_code u h)"
  "h \<in> D \<Longrightarrow> safe (factor_kept u sec C D S) (good (\<lambda>b. \<not> b)) (touch_trusted_device u h)"
proof -
  show "safe (factor_kept u sec C D S) (good (\<lambda>b. b)) (totp_enabled u)"
    unfolding totp_enabled_def by (rule obeys_statement) (auto split: option.splits dest: factor_of_user)
  show "safe (factor_kept u sec C D S) (good (\<lambda>s. s = sec)) (totp_secret u)"
    unfolding totp_secret_def by (rule obeys_statement) (auto split: option.splits dest: factor_of_user)
  show "h \<in> C \<Longrightarrow> safe (factor_kept u sec C D S) (good (\<lambda>b. \<not> b)) (consume_recovery_code u h)"
  proof (rule safe_answers [OF factor_recovery(3)])
    assume h: "h \<in> C"
    have none: "filter (\<lambda>r. rc_user r = u \<and> rc_hash r = h \<and> rc_used r = None) (ad_recovery d) = []" if "factor_kept u sec C D S d" for d
      using that h by (auto simp: factor_kept_def list_all_iff filter_empty_conv)
    show "obeys (factor_kept u sec C D S) (\<lambda>_ _. True) (good (\<lambda>b. \<not> b)) (consume_recovery_code u h)"
      unfolding consume_recovery_code_def Let_def by (rule obeys_statement) (auto simp: none)
  qed
  show "h \<in> D \<Longrightarrow> safe (factor_kept u sec C D S) (good (\<lambda>b. \<not> b)) (touch_trusted_device u h)"
  proof (rule safe_answers [OF factor_devices(2)])
    assume h: "h \<in> D"
    have none: "\<not> list_ex (\<lambda>r. td_user r = u \<and> td_hash r = h \<and> live_device t r) (ad_devices d)" if "factor_kept u sec C D S d" for t d
      using that h by (auto simp: factor_kept_def list_all_iff list_ex_iff)
    show "obeys (factor_kept u sec C D S) (\<lambda>_ _. True) (good (\<lambda>b. \<not> b)) (touch_trusted_device u h)"
      unfolding touch_trusted_device_def Let_def by (rule obeys_statement) (auto simp: none)
  qed
qed

section \<open>The operations\<close>

lemma factor_expired [factors]: "keeps_factor u sec C D S k \<Longrightarrow> keeps_factor u sec C D S (unless_expired x k)"
  by (simp add: unless_expired_def)

lemma factor_with_hash [factors]: "(\<And>h. keeps_factor u sec C D S (k h)) \<Longrightarrow> keeps_factor u sec C D S (with_hash e s p k)"
  by (simp add: with_hash_def split: option.split)

lemma factor_known_user [factors]: "keeps_factor u sec C D S (known_user a)"
  unfolding known_user_def by (intro scripts factors) (simp split: sum.split err.split auth_error.split)

text \<open>A trusted device token that is none of the account.\<close>

definition no_device :: "auth_env \<Rightarrow> string set \<Rightarrow> string \<Rightarrow> bool" where
  "no_device e D trusted \<longleftrightarrow> trusted = '''' \<or> av_sha e trusted \<in> D"

lemma good_true: "good (\<lambda>_. True) = (\<lambda>_. True)"
  by (rule ext) (simp split: sum.split)

lemma factor_device_valid:
  "no_device e D trusted \<Longrightarrow> safe (factor_kept u sec C D S) (good (\<lambda>b. \<not> b)) (trusted_device_valid e u trusted)"
  by (cases "trusted = []") (simp_all add: no_device_def trusted_device_valid_def factor_answers)

lemma factor_finish [factors]:
  assumes "no_device e D trusted"
  shows "keeps_factor u sec C D S (finish_user_sign_in e user agent ip trusted m dr)"
proof (cases "ui_id user = u")
  case False
  then show ?thesis
    unfolding finish_user_sign_in_def create_session_result_def create_session_def issue_challenge_def trusted_device_valid_def
    by (auto intro!: scripts factors simp del: obeys.simps simp: Let_def)
next
  case True
  have "safe (factor_kept u sec C D S) (good (\<lambda>_. True)) (finish_user_sign_in e user agent ip trusted m dr)"
    unfolding finish_user_sign_in_def True
  proof (rule obeys_andthen [OF factor_answers(1)], simp only: if_True,
      rule obeys_andthen [OF factor_device_valid [OF assms]], simp only: if_False)
    fix b
    show "safe (factor_kept u sec C D S) (good (\<lambda>_. True)) (andthen (issue_challenge e u agent ip m (dr_challenge dr)) (\<lambda>c.
        answer \<lparr>sr_user = user, sr_session = None, sr_challenge = Some c, sr_device = None\<rparr>))"
      unfolding good_true issue_challenge_def by (auto intro!: scripts factors simp del: obeys.simps simp: Let_def)
  qed
  then show ?thesis by (simp add: good_true)
qed

text \<open>A code that is none of the account.\<close>

definition no_code :: "auth_env \<Rightarrow> string \<Rightarrow> string set \<Rightarrow> string \<Rightarrow> bool" where
  "no_code e sec C code \<longleftrightarrow> (\<forall>t. \<not> verify_totp (av_hmac e) sec code t) \<and> av_sha e (normalize_recovery_code code) \<in> C"

lemma factor_code: "no_code e sec C code \<Longrightarrow> safe (factor_kept u sec C D S) (good (\<lambda>b. \<not> b)) (check_code e u sec code)"
  by (simp add: check_code_def no_code_def factor_answers)

lemma factor_finish_challenge [factors]:
  "v \<noteq> u \<Longrightarrow> keeps_factor u sec C D S (finish_challenge e v m agent ip trust dr)"
  unfolding finish_challenge_def create_session_def issue_trusted_device_def
  by (auto intro!: scripts factors simp del: obeys.simps simp: Let_def split: sum.split option.split)

lemma factor_verify [factors]:
  assumes "no_code e sec C code"
  shows "keeps_factor u sec C D S (verify_totp_challenge e tok code agent ip trust dr)"
proof -
  let ?safe = "safe (factor_kept u sec C D S)"
  have other: "keeps_factor u sec C D S (check_code e v secret code)" for v secret
    unfolding check_code_def by (auto intro!: scripts factors simp del: obeys.simps)
  have "?safe (good (\<lambda>_. True)) (andthen (totp_secret v) (\<lambda>secret. andthen (check_code e v secret code) (\<lambda>ok.
      if \<not> ok then andthen (record_totp_attempt h) (\<lambda>_. refuse (Err InvalidTotp))
      else andthen (consume_totp_challenge h) (\<lambda>_. finish_challenge e v m agent ip trust dr))))" for v h m
  proof (cases "v = u")
    case True
    show ?thesis
      unfolding True
    proof (rule obeys_andthen [OF factor_answers(2)], simp only:, rule obeys_andthen [OF factor_code [OF assms]], simp only: if_True not_False_eq_True)
      show "?safe (good (\<lambda>_. True)) (andthen (record_totp_attempt h) (\<lambda>_. refuse (Err InvalidTotp) :: sign_in_result auth))"
        unfolding good_true by (intro scripts factors)
    qed
  next
    case False
    then show ?thesis
      unfolding good_true by (auto intro!: scripts factors other simp del: obeys.simps)
  qed
  note rest = this [unfolded good_true]
  show ?thesis
    unfolding verify_totp_challenge_def load_totp_challenge_def Let_def
  proof (intro obeys_true_andthen)
    fix x :: "string \<times> int \<times> string"
    show "keeps_factor u sec C D S (case x of (v, attempts, m) \<Rightarrow> if attempts \<ge> max_totp_attempts then refuse (Err AccountLocked)
        else andthen (totp_secret v) (\<lambda>secret. andthen (check_code e v secret code) (\<lambda>ok.
          if \<not> ok then andthen (record_totp_attempt (av_sha e tok)) (\<lambda>_. refuse (Err InvalidTotp))
          else andthen (consume_totp_challenge (av_sha e tok)) (\<lambda>_. finish_challenge e v m agent ip trust dr))))"
      using rest by (simp split: prod.split)
  qed (auto intro!: scripts factors simp del: obeys.simps split: prod.split)
qed

lemma factor_list_sessions [factors]: "keeps_factor u sec C D S (list_sessions n v h b out)"
  by (induction n arbitrary: b out) (auto intro!: scripts factors simp del: obeys.simps simp: Let_def)

lemma factor_oauth [factors]:
  "keeps_factor u sec C D S (begin_oauth e next_page new)"
  "no_device e D trusted \<Longrightarrow> keeps_factor u sec C D S (complete_oauth e st code agent ip trusted dr nu nl)"
  unfolding begin_oauth_def complete_oauth_def consume_state_def
  by (auto intro!: scripts factors simp del: obeys.simps simp: Let_def split: option.split)

text \<open>The requests of someone without the second factor of \<open>u\<close>.\<close>

definition without_factor :: "auth_env \<Rightarrow> string \<Rightarrow> string \<Rightarrow> string set \<Rightarrow> string set \<Rightarrow> auth_request \<Rightarrow> bool" where
  "without_factor e u sec C D r \<longleftrightarrow> (case r of
     SignIn _ _ _ _ trusted _ \<Rightarrow> no_device e D trusted
   | RedeemLink _ _ _ trusted _ \<Rightarrow> no_device e D trusted
   | CompleteOAuth _ _ _ _ trusted _ _ _ \<Rightarrow> no_device e D trusted
   | VerifyTotp _ code _ _ _ _ \<Rightarrow> no_code e sec C code
   | CompleteTotp v _ _ _ \<Rightarrow> v \<noteq> u
   | DisableTotp v _ \<Rightarrow> v \<noteq> u
   | _ \<Rightarrow> True)"

lemma serve_without_factor: "without_factor e u sec C D r \<Longrightarrow> keeps_factor u sec C D S (serve e r)"
  by (cases r) (auto intro!: scripts factors simp del: obeys.simps
      simp: without_factor_def reply_def consume_verification_token_def consume_reset_token_def consume_magic_link_def
        sign_up_def authenticate_def user_for_session_def logout_def sign_in_def issue_email_verification_def
        verify_email_def issue_password_reset_def replace_credentials_def reset_password_def reset_password_for_admin_def
        change_password_def issue_magic_link_def redeem_magic_link_def begin_totp_enrolment_def complete_totp_enrolment_def
        disable_totp_def revoke_all_credentials_def update_profile_def Let_def split_beta)


text \<open>The account of the examples with a second factor, and an attacker who knows the password.\<close>

definition demo_factor :: auth_db where
  "demo_factor = demo_accounts\<lparr>ad_users := [demo_user\<lparr>us_secret := Some (new_totp_secret ''key''), us_enabled := Some 1\<rparr>]\<rparr>"

definition demo_attack :: "auth_request list" where
  "demo_attack = [SignIn ''a@x'' ''correct horse'' [] [] ''stolen'' demo_draws, VerifyTotp ''chal'' ''guess'' [] [] True demo_draws]"

definition attack_turns :: "turn list" where
  "attack_turns = map (\<lambda>i. (i, Ran, 10)) [0, 0, 0, 0, 0, 0, 0, 1, 1, 1, 1, 1, 1]"

lemma attack_run:
  "\<exists>a d'. pool_run attack_turns (serving demo_env demo_attack, demo_factor) = ([Done (Inr (SignedIn a)), Done (Inl (Err InvalidTotp))], d') \<and>
     sr_challenge a \<noteq> None"
  by (simp add: attack_turns_def demo_attack_def run_defs sign_in_def known_user_def user_by_email_def normalize_email_def trim_space_def
      is_space_def to_lower_def lower_char_def less_eq_char_def same_email_def scan_user_def lock_state_def clear_failed_attempts_def
      finish_user_sign_in_def totp_enabled_def has_totp_def trusted_device_valid_def touch_trusted_device_def issue_challenge_def
      insert_totp_challenge_def verify_totp_challenge_def load_totp_challenge_def find_challenge_def unless_expired_def
      totp_secret_def check_code_def verify_totp_def totp_digits_def consume_recovery_code_def record_totp_attempt_def
      set_challenge_def inet_ok_def auth_methods_def max_totp_attempts_def challenge_lifetime_def seconds_def
      set_user_def unlocked_def lock_passed_def is_locked_def demo_factor_def auth_demo_defs Let_def)


section \<open>The lockout\<close>

text \<open>Sign-ins with passwords for one address, one after the other, at given times.\<close>

fun guesses :: "auth_env \<Rightarrow> string \<Rightarrow> draws \<Rightarrow> (int \<times> string) list \<Rightarrow> auth_db \<Rightarrow> (auth_error err + sign_in_result) list" where
  "guesses e email dr [] d = []"
| "guesses e email dr ((t, pw) # gs) d = (case alone t (sign_in e email pw [] [] [] dr) d of (r, d') \<Rightarrow> r # guesses e email dr gs d')"

text \<open>The row a sign-in for an address works on.\<close>

definition row_is :: "string \<Rightarrow> auth_db \<Rightarrow> account \<Rightarrow> bool" where
  "row_is email d u \<longleftrightarrow> find (\<lambda>v. same_email (us_email v) (normalize_email email)) (ad_users d) = Some u \<and>
     lookup_key us_id (us_id u) (ad_users d) = Some u"

lemma find_update_where:
  "\<forall>r. P (f r) = P r \<Longrightarrow> find P (update_where Q f t) = map_option (\<lambda>r. if Q r then f r else r) (find P t)"
  by (induction t) auto

lemma row_is_set:
  assumes "row_is email d u" "\<forall>v. us_id (f v) = us_id v \<and> us_email (f v) = us_email v"
  shows "row_is email (set_user (us_id u) f d) (f u)"
  using assms by (simp add: row_is_def set_user_def find_update_where lookup_key_update)

lemma known_row: "row_is email d u \<Longrightarrow> us_password u = Some h \<Longrightarrow> alone t (known_user email) d =
    (Inr \<lparr> ui_id = us_id u, ui_name = us_name u, ui_email = us_email u, ui_hash = h, ui_created = us_created u, ui_method = [] \<rparr>, d)"
  by (simp add: known_user_def alone_bind user_by_email_def alone_simps row_is_def scan_user_def)

lemma locked_row:
  assumes "row_is email d u" "us_locked u = Some l" "t < l" "us_password u = Some h"
  shows "alone t (sign_in e email pw a b c dr) d = (Inl (Err AccountLocked), d') \<Longrightarrow> row_is email d' u"
    and "fst (alone t (sign_in e email pw a b c dr) d) = Inl (Err AccountLocked)"
proof -
  have n: "unlocked t u = u" "is_locked t u" using assms(2,3) by (simp_all add: unlocked_def lock_passed_def is_locked_def)
  have s: "alone t (sign_in e email pw a b c dr) d = (Inl (Err AccountLocked), set_user (us_id u) (unlocked t) d)"
    using assms(1) n by (simp add: sign_in_def alone_simps known_row [OF assms(1,4)] lock_state_def row_is_def)
  have "row_is email (set_user (us_id u) (unlocked t) d) (unlocked t u)"
    by (rule row_is_set [OF assms(1)]) (simp add: unlocked_def)
  with s n show "alone t (sign_in e email pw a b c dr) d = (Inl (Err AccountLocked), d') \<Longrightarrow> row_is email d' u"
    "fst (alone t (sign_in e email pw a b c dr) d) = Inl (Err AccountLocked)" by simp_all
qed

lemma wrong_row:
  assumes "row_is email d u" "us_locked u = None" "us_password u = Some h" "\<not> av_check e h pw" "0 < av_attempts e"
  shows "\<exists>d'. alone t (sign_in e email pw a b c dr) d = (Inl (Err InvalidCredentials), d') \<and>
    row_is email d' (failed_once_more (av_attempts e) (av_window e) t u)"
proof -
  have n: "unlocked t u = u" "\<not> is_locked t u" using assms(2) by (simp_all add: unlocked_def lock_passed_def is_locked_def)
  let ?d = "set_user (us_id u) (failed_once_more (av_attempts e) (av_window e) t) (set_user (us_id u) (unlocked t) d)"
  have s: "alone t (sign_in e email pw a b c dr) d = (Inl (Err InvalidCredentials), ?d)"
    using assms(1,4,5) n
    by (simp add: sign_in_def alone_simps known_row [OF assms(1,3)] lock_state_def record_failed_attempt_def row_is_def)
  have r: "row_is email (set_user (us_id u) (unlocked t) d) u"
    using row_is_set [OF assms(1), of "unlocked t"] n by (simp add: unlocked_def)
  have "row_is email ?d (failed_once_more (av_attempts e) (av_window e) t u)"
    by (rule row_is_set [OF r]) (simp add: failed_once_more_def)
  with s show ?thesis by blast
qed

lemma locked_guesses:
  assumes "row_is email d u" "us_locked u = Some l" "us_password u = Some h" "list_all (\<lambda>g. fst g < l) vs"
  shows "guesses e email dr vs d = replicate (length vs) (Inl (Err AccountLocked))"
  using assms
proof (induction vs arbitrary: d)
  case (Cons g vs)
  obtain t pw where g: "g = (t, pw)" by fastforce
  obtain r d' where a: "alone t (sign_in e email pw [] [] [] dr) d = (r, d')" by fastforce
  from locked_row [OF Cons.prems(1,2) _ Cons.prems(3), of t e pw "[]" "[]" "[]" dr] a Cons.prems(4) g
  have "r = Inl (Err AccountLocked)" "row_is email d' u" by auto
  with Cons.IH [OF _ Cons.prems(2,3)] Cons.prems(4) show ?case by (simp add: g a)
qed simp

lemma wrong_guesses:
  assumes "row_is email d u" "us_locked u = None" "us_password u = Some h" "0 < av_attempts e" "us_failed u \<ge> 0"
    and "int (length ws) = av_attempts e - us_failed u" "0 < length ws" "list_all (\<lambda>g. \<not> av_check e h (snd g)) ws"
    and "list_all (\<lambda>g. start \<le> fst g) ws" "list_all (\<lambda>g. fst g < start + av_window e) vs"
  shows "guesses e email dr (ws @ vs) d = replicate (length ws) (Inl (Err InvalidCredentials)) @ replicate (length vs) (Inl (Err AccountLocked))"
  using assms(1-3,5-9)
proof (induction ws arbitrary: d u)
  case (Cons g ws)
  obtain t pw where g: "g = (t, pw)" by fastforce
  let ?u = "failed_once_more (av_attempts e) (av_window e) t u"
  from Cons.prems(7) g have w: "\<not> av_check e h pw" by simp
  obtain d' where a: "alone t (sign_in e email pw [] [] [] dr) d = (Inl (Err InvalidCredentials), d')" "row_is email d' ?u"
    using wrong_row [OF Cons.prems(1-3) w assms(4)] by blast
  show ?case
  proof (cases ws)
    case Nil
    with Cons.prems(5) have "us_locked ?u = Some (t + av_window e)" "us_password ?u = Some h"
      using Cons.prems(3) by (simp_all add: failed_once_more_def)
    moreover have "list_all (\<lambda>g. fst g < t + av_window e) vs"
      using assms(10) Cons.prems(8) g by (auto simp: list_all_iff)
    ultimately have "guesses e email dr vs d' = replicate (length vs) (Inl (Err AccountLocked))"
      by (rule locked_guesses [OF a(2)])
    then show ?thesis by (simp add: Nil g a(1))
  next
    case (Cons g' ws')
    have "guesses e email dr (ws @ vs) d' = replicate (length ws) (Inl (Err InvalidCredentials)) @ replicate (length vs) (Inl (Err AccountLocked))"
      by (rule Cons.IH [OF a(2)]) (use Cons Cons.prems in \<open>auto simp: failed_once_more_def\<close>)
    then show ?thesis by (simp add: g a(1))
  qed
qed simp

text \<open>
  C11: the lockout.  Of the sign-ins for an account that come one after the other within one
  lockout window, the first LoginAttempts wrong passwords are refused as wrong, and every
  later one is turned away as locked, the right password included.
\<close>

theorem lockout_bounds_guessing:
  assumes "row_is email d u" and "us_password u = Some h" and "us_locked u = None" and "us_failed u = 0"
    and "0 < av_attempts e" and "int (length ws) = av_attempts e" and "list_all (\<lambda>g. \<not> av_check e h (snd g)) ws"
    and "list_all (\<lambda>g. start \<le> fst g) ws" and "list_all (\<lambda>g. fst g < start + av_window e) vs"
  shows "guesses e email dr (ws @ vs) d =
    replicate (length ws) (Inl (Err InvalidCredentials)) @ replicate (length vs) (Inl (Err AccountLocked))"
  by (rule wrong_guesses [OF assms(1,3,2,5)]) (use assms in auto)

theorem lockout_bounds_guessing_witness:
  "guesses demo_env ''a@x'' demo_draws [(10, ''1234''), (11, ''hunter2''), (12, ''correct horse''), (109, ''correct horse'')] demo_accounts =
    [Inl (Err InvalidCredentials), Inl (Err InvalidCredentials), Inl (Err AccountLocked), Inl (Err AccountLocked)]"
proof -
  have "row_is ''a@x'' demo_accounts demo_user"
    by (simp add: row_is_def demo_accounts_def demo_user_def normalize_email_def trim_space_def is_space_def same_email_def
        to_lower_def lower_char_def less_eq_char_def)
  from lockout_bounds_guessing [OF this, where e = demo_env and ws = "[(10, ''1234''), (11, ''hunter2'')]" and start = 10
      and vs = "[(12, ''correct horse''), (109, ''correct horse'')]" and dr = demo_draws]
  show ?thesis by (simp add: demo_user_def demo_env_def)
qed

end
