(* ===== verification/AuthLimits.thy ===== *)
theory AuthLimits
  imports AuthFactor AuditLog
begin

text \<open>
  Where the promises of the authentication service end, as runs of the model: the statements of
  the flows are not one transaction, so a sign-in outlives a reset it overlaps with, a
  challenge is exchanged twice, and parallel guesses pass the limit; accounts without a
  password cannot use a session; and enrolment replaces a second factor without a password.
  The theory ends with the pages of sessions and trusted devices.
\<close>

section \<open>Overlapping requests\<close>

lemmas sign_in_defs = sign_in_def known_user_def user_by_email_def normalize_email_def trim_space_def
  is_space_def to_lower_def lower_char_def less_eq_char_def same_email_def scan_user_def lock_state_def clear_failed_attempts_def
  record_failed_attempt_def failed_once_more_def finish_user_sign_in_def totp_enabled_def has_totp_def trusted_device_valid_def
  create_session_result_def create_session_def insert_session_def known_method_def mark_signed_in_def inet_ok_def auth_methods_def
  set_user_def unlocked_def lock_passed_def is_locked_def Let_def

lemmas reset_defs = reset_password_def consume_reset_token_def use_reset_def unless_expired_def with_hash_def
  replace_credentials_def update_password_def revoke_all_sessions_def revoke_sessions_where_def revoke_all_trusted_devices_def
  revoke_devices_where_def user_by_id_def min_password_length_def

text \<open>
  A sign-in with the old password has checked it when a reset runs from start to end; its
  session is inserted afterwards and is not revoked.
\<close>

lemma sign_in_outlives_reset:
  "\<exists>a b d'. pool_run (map (\<lambda>i. (i, Ran, 10)) [0, 0, 0, 0, 1, 1, 1, 1, 1, 1, 1, 0, 0, 0])
      (serving demo_env [SignIn ''a@x'' ''correct horse'' [] [] [] demo_draws, ResetPassword ''reset'' [] ''new password''], demo_accounts)
      = ([Done (Inr (SignedIn a)), Done (Inr (Who b))], d') \<and>
    is_answer (fst (alone 11 (session_user ''#new'') d'))"
  by (simp add: run_defs sign_in_defs reset_defs auth_demo_defs session_user_def alone_simps live_session_def)

text \<open>Three concurrent guesses are all checked where two attempts are allowed.\<close>

lemma parallel_guesses_pass_limit:
  "\<exists>d'. pool_run (map (\<lambda>i. (i, Ran, 10)) [0, 0, 1, 1, 2, 2, 0, 1, 2])
      (serving demo_env (map (\<lambda>pw. SignIn ''a@x'' pw [] [] [] demo_draws) [''1'', ''2'', ''3'']), demo_accounts)
      = (replicate 3 (Done (Inl (Err InvalidCredentials))), d') \<and> av_attempts demo_env = 2"
  by (simp add: run_defs sign_in_defs auth_demo_defs numeral_3_eq_3)

text \<open>One challenge and one authenticator code, two requests, two sessions.\<close>

definition challenged :: auth_db where
  "challenged = demo_factor\<lparr>ad_challenges := [\<lparr> tc_id = ''c1'', tc_user = ''u1'', tc_hash = ''#chal'', tc_agent = None, tc_ip = None,
     tc_method = ''password'', tc_attempts = 0, tc_expires = 300, tc_used = None \<rparr>]\<rparr>"

definition valid_code :: string where
  "valid_code = generate_code demo_hmac ''key'' (totp_counter 0)"

lemma valid_code_verifies: "verify_totp demo_hmac (new_totp_secret ''key'') valid_code 0"
  unfolding valid_code_def by (rule code_verifies) simp_all

lemma challenge_exchanged_twice:
  "\<exists>a b d'. pool_run (map (\<lambda>i. (i, Ran, 10)) [0, 1, 0, 1, 0, 1, 0, 1, 0, 1, 0, 1, 0, 1, 0, 1, 0, 1])
      (serving demo_env [VerifyTotp ''chal'' valid_code [] [] False demo_draws,
         VerifyTotp ''chal'' valid_code [] [] False (demo_draws\<lparr>dr_session := (''s3'', ''other'')\<rparr>)], challenged)
      = ([Done (Inr (SignedIn a)), Done (Inr (SignedIn b))], d') \<and> map se_id (ad_sessions d') = [''s1'', ''s2'', ''s3'']"
  by (simp add: run_defs verify_totp_challenge_def load_totp_challenge_def find_challenge_def unless_expired_def totp_secret_def
      check_code_def valid_code_verifies consume_totp_challenge_def set_challenge_def finish_challenge_def user_by_id_def scan_user_def
      create_session_def insert_session_def known_method_def mark_signed_in_def inet_ok_def auth_methods_def max_totp_attempts_def
      set_user_def challenged_def demo_factor_def auth_demo_defs Let_def)

section \<open>Accounts without a password\<close>

text \<open>
  The account a first OAuth sign-in creates has no password hash.  Its session is found, and
  refused, because NULL cannot be scanned; neither can a reset be asked for.
\<close>

lemma no_password_no_session:
  assumes "auth_ok d" "s \<in> set (ad_sessions d)" "lookup_key us_id (se_user s) (ad_users d) = Some u" "us_password u = None"
  shows "\<not> is_answer (fst (alone t (session_user (se_hash s)) d))"
proof -
  let ?P = "\<lambda>r. se_hash r = se_hash s \<and> live_session t r \<and> se_user r \<in> us_id ` set (ad_users d)"
  have u: "r = s" if "find ?P (ad_sessions d) = Some r" for r
    using key_unique [of se_hash "ad_sessions d" r s] find_in [OF that] assms(1,2) by (simp add: auth_ok_def Let_def rows_ok_def)
  show ?thesis
  proof (cases "find ?P (ad_sessions d)")
    case (Some r)
    with u [OF Some] assms(3,4) show ?thesis by (simp add: session_user_def alone_simps scan_user_def)
  qed (simp add: session_user_def alone_simps)
qed

lemma no_password_no_reset:
  assumes "row_is email d u" "us_password u = None"
  shows "\<not> is_answer (fst (alone t (issue_password_reset e email new) d))" "\<not> is_answer (fst (alone t (issue_magic_link e email red ip new) d))"
  using assms by (simp_all add: issue_password_reset_def issue_magic_link_def alone_simps user_by_email_def row_is_def scan_user_def)

lemma first_oauth_session_useless:
  "\<exists>a d'. alone 10 (serve demo_env (CompleteOAuth ''st'' ''code'' [] [] [] demo_draws ''u9'' ''l9''))
      (demo_accounts\<lparr>ad_states := [\<lparr> os_id = ''o1'', os_hash = ''#st'', os_provider = ''idp'', os_redirect = ''/'', os_expires = 20, os_consumed = None \<rparr>]\<rparr>)
      = (Inr (OAuthDone a), d') \<and> sr_session (fst a) = Some (''new'', 1010) \<and> \<not> is_answer (fst (alone 11 (session_user ''#new'') d'))"
  by (simp add: reply_def alone_simps complete_oauth_def consume_state_def use_state_def open_state_def identity_def parse_identity_def
      json_field_def looks_like_email_def allowed_domain_def link_oauth_identity_def link_identity_def linked_account_def link_account_def
      new_account_def info_of_def sign_in_defs auth_demo_defs session_user_def live_session_def)

section \<open>Replacing the second factor\<close>

text \<open>CompleteTOTPEnrolment asks neither for a password nor whether a factor is enabled.\<close>

lemma enrolment_replaces_factor:
  assumes "lookup_key us_id u (ad_users d) = Some v" "verify_totp (av_hmac e) secret code (t div 1000000000)"
  shows "\<exists>codes d'. alone t (complete_totp_enrolment e u secret code []) d = (Inr codes, d') \<and>
    (\<exists>w. lookup_key us_id u (ad_users d') = Some w \<and> us_secret w = Some secret)"
  using assms lookup_key_Some [OF assms(1)]
  by (simp add: complete_totp_enrolment_def alone_simps enable_totp_def Let_def set_user_def lookup_key_update)

section \<open>Pages\<close>

text \<open>ListSessionsPage and ListTrustedDevicesPage are pages of the live rows, newest first.\<close>

definition live_sessions :: "string \<Rightarrow> int \<Rightarrow> auth_db \<Rightarrow> session_row list" where
  "live_sessions u t d = rev (sort_key session_key (filter (\<lambda>s. se_user s = u \<and> live_session t s) (ad_sessions d)))"

interpretation session_pages: keyset auth_ok "live_sessions u t" session_key "\<lambda>a b. b < a"
  "\<lambda>d b n. session_page u b (int n) t d" 201 for u t
proof
  fix d :: auth_db and n :: nat and r
  assume v: "auth_ok d"
  then have "inj_on se_id (set (ad_sessions d))" "distinct (ad_sessions d)"
    by (auto simp: auth_ok_def Let_def rows_ok_def distinct_map)
  then have "distinct (map session_key (sort_key session_key (filter (\<lambda>s. se_user s = u \<and> live_session t s) (ad_sessions d))))"
    by (auto simp: distinct_map session_key_def inj_on_def)
  then show "sorted_wrt (\<lambda>a b. session_key b < session_key a) (live_sessions u t d)"
    unfolding live_sessions_def by (intro sorted_rev_strict) simp_all
  assume n: "0 < n" "n \<le> 201"
  then show "session_page u None (int n) t d = take n (live_sessions u t d)"
    by (simp add: session_page_def live_sessions_def page_limit_exact)
  show "session_page u (Some (session_key r)) (int n) t d = take n (filter (\<lambda>q. session_key q < session_key r) (live_sessions u t d))"
    using n by (simp add: session_page_def live_sessions_def page_limit_exact flip: page_of_rest conj_assoc)
qed auto

interpretation device_pages: keyset auth_ok "\<lambda>d. device_list u t d" device_key "\<lambda>a b. b < a"
  "\<lambda>d b n. device_page u b (int n) t d" 201 for u t
proof
  fix d :: auth_db and n :: nat and r
  assume v: "auth_ok d"
  then have "inj_on td_id (set (ad_devices d))" "distinct (ad_devices d)"
    by (auto simp: auth_ok_def Let_def rows_ok_def distinct_map)
  then have "distinct (map device_key (sort_key device_key (filter (\<lambda>s. td_user s = u \<and> live_device t s) (ad_devices d))))"
    by (auto simp: distinct_map device_key_def inj_on_def)
  then show "sorted_wrt (\<lambda>a b. device_key b < device_key a) (device_list u t d)"
    unfolding device_list_def by (intro sorted_rev_strict) simp_all
  assume n: "0 < n" "n \<le> 201"
  then show "device_page u None (int n) t d = take n (device_list u t d)"
    by (simp add: device_page_def device_list_def page_limit_exact)
  show "device_page u (Some (device_key r)) (int n) t d = take n (filter (\<lambda>q. device_key q < device_key r) (device_list u t d))"
    using n by (simp add: device_page_def device_list_def page_limit_exact flip: page_of_rest conj_assoc)
qed auto

lemma session_page_shown: "0 < n \<Longrightarrow> alone t (list_sessions_page u h b n) d = (Inr (map (show_session h) (session_page u b n t d)), d)"
  by (simp add: list_sessions_page_def alone_simps)

text \<open>ListSessions, undisturbed: every live session once, newest first, with a page for every 201 rows and one more.\<close>

lemma sessions_listed:
  assumes "auth_ok d"
  shows "alone t (list_sessions n u h b out) d =
    (Inr (if length (session_pages.read_pages u t n d b 201) < n * 201
       then Some (out @ map (show_session h) (session_pages.read_pages u t n d b 201)) else None), d)"
proof (induction n arbitrary: b out)
  case (Suc n)
  let ?p = "session_page u b 201 t d"
  have l: "length ?p \<le> 201" by (simp add: session_page_def page_limit_def)
  show ?case
  proof (cases "length ?p < 201")
    case True
    then show ?thesis by (simp add: alone_simps session_page_shown Let_def session_pages.read_pages.simps)
  next
    case False
    with l have f: "length ?p = 201" "?p \<noteq> []" by auto
    have k: "(si_seen (last (map (show_session h) ?p)), si_id (last (map (show_session h) ?p))) = session_key (last ?p)"
      using f(2) by (simp add: last_map show_session_def session_key_def)
    show ?thesis
      using f by (simp add: alone_simps session_page_shown Let_def session_pages.read_pages.simps k Suc.IH)
  qed
qed simp

lemma sessions_listed_completely:
  assumes "auth_ok d" "length (live_sessions u t d) < n * 201"
  shows "alone t (list_sessions n u h None []) d = (Inr (Some (map (show_session h) (live_sessions u t d))), d)"
  using sessions_listed [OF assms(1), of t n u h None "[]"] session_pages.read_all [OF assms(1) _ _ assms(2)] assms(2) by simp

end
