(* ===== verification/Transactions.thy ===== *)
theory Transactions
  imports HubPrelude
begin

text \<open>
  Weakest preconditions of programs over a failing database, with respect to the part \<open>v\<close> of the
  database a component owns: \<open>wp v m Q E T\<close> says that from every database whose part is \<open>T\<close>, and
  whichever statements fail, an answer \<open>a\<close> of \<open>m\<close> leaves a part with \<open>Q a\<close> and an error \<open>e\<close> one
  with \<open>E e\<close>.  The rules in \<open>wps\<close> compute the precondition backwards, one program former each; a
  transaction that fails is rolled back, so its body owes nothing on errors.
\<close>

named_theorems wps \<open>rules that compute a weakest precondition\<close>

definition wp :: "('d \<Rightarrow> 't) \<Rightarrow> ('d, 'e, 'a) tx \<Rightarrow> ('a \<Rightarrow> 't \<Rightarrow> bool) \<Rightarrow> ('e err \<Rightarrow> 't \<Rightarrow> bool) \<Rightarrow> 't \<Rightarrow> bool" where
  "wp v m Q E T \<longleftrightarrow> (\<forall>d fs d' fs'. v d = T \<longrightarrow>
     (\<forall>a. m (d, fs) = (Inr a, d', fs') \<longrightarrow> Q a (v d')) \<and> (\<forall>e. m (d, fs) = (Inl e, d', fs') \<longrightarrow> E e (v d')))"

text \<open>A statement that answers or refuses; a program over the part alone.\<close>

definition answered :: "('d \<Rightarrow> ('e err + 'a) \<times> 'd) \<Rightarrow> ('d, 'e, 'a) tx" where
  "answered f = tx_bind (sql f) (\<lambda>r. case r of Inl e \<Rightarrow> tx_fail e | Inr a \<Rightarrow> tx_ret a)"

lemma wpI:
  "(\<And>d fs a d' fs'. v d = T \<Longrightarrow> m (d, fs) = (Inr a, d', fs') \<Longrightarrow> Q a (v d')) \<Longrightarrow>
   (\<And>d fs e d' fs'. v d = T \<Longrightarrow> m (d, fs) = (Inl e, d', fs') \<Longrightarrow> E e (v d')) \<Longrightarrow> wp v m Q E T"
  by (simp add: wp_def)

lemma wpD:
  "wp v m Q E T \<Longrightarrow> v d = T \<Longrightarrow> m (d, fs) = (Inr a, d', fs') \<Longrightarrow> Q a (v d')"
  "wp v m Q E T \<Longrightarrow> v d = T \<Longrightarrow> m (d, fs) = (Inl e, d', fs') \<Longrightarrow> E e (v d')"
  by (simp_all add: wp_def)

lemma wp_result:
  assumes "wp v m (\<lambda>_. I) (\<lambda>_. I) (v d)"
  shows "I (v (fst (snd (m (d, fs)))))"
proof -
  obtain r d' fs' where m: "m (d, fs) = (r, d', fs')" by (cases "m (d, fs)") auto
  with wpD [OF assms refl] show ?thesis by (cases r) auto
qed

lemma wp_keeps: "(\<And>T. I T \<Longrightarrow> wp v m (\<lambda>_. I) (\<lambda>_. I) T) \<Longrightarrow> tx_keeps (\<lambda>d. I (v d)) m"
  by (simp add: tx_keeps_def wp_result)

lemma wp_mono: "wp v m Q E T \<Longrightarrow> (\<And>a T. Q a T \<Longrightarrow> Q' a T) \<Longrightarrow> (\<And>e T. E e T \<Longrightarrow> E' e T) \<Longrightarrow> wp v m Q' E' T"
  by (simp add: wp_def)

lemma wp_ret [wps]: "Q a T \<Longrightarrow> wp v (tx_ret a) Q E T"
  by (rule wpI) (auto simp: tx_inv)

lemma wp_fail [wps]: "E e T \<Longrightarrow> wp v (tx_fail e) Q E T"
  by (rule wpI) (auto simp: tx_inv)

lemma wp_bind [wps]: "wp v m (\<lambda>a. wp v (k a) Q E) E T \<Longrightarrow> wp v (tx_bind m k) Q E T"
  by (rule wpI) (auto simp: tx_bind_Inr tx_bind_Inl dest: wpD)

lemma with_tx_Inl:
  "with_tx m (d, fs) = (Inl e, d', fs') \<Longrightarrow> d' = d \<and> (e = Fault \<or> (\<exists>d1 fs1. m (d, tl fs) = (Inl e, d1, fs1)))"
  by (auto simp: with_tx_def split: prod.splits sum.splits if_splits)

lemma wp_with_tx [wps]: "wp v m Q (\<lambda>e _. E e T) T \<Longrightarrow> E Fault T \<Longrightarrow> wp v (with_tx m) Q E T"
  by (rule wpI) (auto simp: with_tx_Inr dest!: with_tx_Inl dest: wpD)

lemma wp_if [wps]: "(b \<Longrightarrow> wp v m Q E T) \<Longrightarrow> (\<not> b \<Longrightarrow> wp v m' Q E T) \<Longrightarrow> wp v (if b then m else m') Q E T"
  by simp

lemma wp_option [wps]:
  "(x = None \<Longrightarrow> wp v m Q E T) \<Longrightarrow> (\<And>a. x = Some a \<Longrightarrow> wp v (k a) Q E T) \<Longrightarrow> wp v (case x of None \<Rightarrow> m | Some a \<Rightarrow> k a) Q E T"
  by (cases x) auto

lemma wp_sum [wps]:
  "(\<And>e. x = Inl e \<Longrightarrow> wp v (m e) Q E T) \<Longrightarrow> (\<And>a. x = Inr a \<Longrightarrow> wp v (k a) Q E T) \<Longrightarrow> wp v (case x of Inl e \<Rightarrow> m e | Inr a \<Rightarrow> k a) Q E T"
  by (cases x) auto

lemma wp_prod [wps]: "(\<And>a b. x = (a, b) \<Longrightarrow> wp v (k a b) Q E T) \<Longrightarrow> wp v (case x of (a, b) \<Rightarrow> k a b) Q E T"
  by (cases x) auto

lemma wp_let [wps]: "wp v (k x) Q E T \<Longrightarrow> wp v (let y = x in k y) Q E T"
  by simp

text \<open>Statements: on the database, on the part, and beside the part.\<close>

lemma wp_sql: "(\<And>d a d'. v d = T \<Longrightarrow> f d = (a, d') \<Longrightarrow> Q a (v d')) \<Longrightarrow> E Fault T \<Longrightarrow> wp v (sql f) Q E T"
  by (rule wpI) (auto simp: sql_Inr sql_Inl)

lemma wp_sql_checked:
  "(\<And>d a d'. v d = T \<Longrightarrow> f d = Some (a, d') \<Longrightarrow> Q a (v d')) \<Longrightarrow> E Fault T \<Longrightarrow> E Constraint T \<Longrightarrow> wp v (sql_checked f) Q E T"
  by (rule wpI) (auto simp: sql_checked_Inr sql_checked_Inl)

lemma wp_sql_part:
  assumes "\<And>a T'. f T = (a, T') \<Longrightarrow> Q a T'" "E Fault T"
  shows "wp (\<lambda>T. T) (sql f) Q E T"
  unfolding wp_def by (simp add: sql_Inr sql_Inl assms)

lemma wp_read_part [wps]: "Q (f T) T \<Longrightarrow> E Fault T \<Longrightarrow> wp (\<lambda>T. T) (sql_read f) Q E T"
  unfolding wp_def by (simp add: sql_Inr sql_Inl)

lemma wp_exec_part [wps]: "Q () (f T) \<Longrightarrow> E Fault T \<Longrightarrow> wp (\<lambda>T. T) (sql_exec f) Q E T"
  unfolding wp_def by (simp add: sql_Inr sql_Inl)

lemma wp_checked_part [wps]:
  assumes "\<And>a T'. f T = Some (a, T') \<Longrightarrow> Q a T'" "E Fault T" "E Constraint T"
  shows "wp (\<lambda>T. T) (sql_checked f) Q E T"
  unfolding wp_def by (auto simp: sql_checked_Inr sql_checked_Inl assms(2,3) intro: assms(1))

lemma wp_answered [wps]:
  assumes "\<And>e T'. f T = (Inl e, T') \<Longrightarrow> E e T'" "\<And>a T'. f T = (Inr a, T') \<Longrightarrow> Q a T'" "E Fault T"
  shows "wp (\<lambda>T. T) (answered f) Q E T"
  unfolding answered_def
proof (rule wp_bind, rule wp_sql_part)
  fix r T' assume r: "f T = (r, T')"
  show "wp (\<lambda>T. T) (case r of Inl e \<Rightarrow> tx_fail e | Inr a \<Rightarrow> tx_ret a) Q E T'"
    by (rule wp_sum) (use r assms in \<open>auto intro: wp_fail wp_ret\<close>)
qed (rule assms)

lemma wp_on [wps]:
  "wp (\<lambda>T. T) m Q E T \<Longrightarrow> (\<And>d s. v (put s d) = s) \<Longrightarrow> wp v (tx_on v put m) Q E T"
  by (rule wpI) (auto simp: tx_on_def split: prod.splits dest: wpD)

lemma wp_beside:
  assumes "\<And>T. tx_keeps (\<lambda>d. v d = T) m" "\<And>a. Q a T" "\<And>e. E e T"
  shows "wp v m Q E T"
  by (rule wpI) (use assms in \<open>auto dest: tx_keepsD [OF assms(1) refl]\<close>)

text \<open>A row that must be there, and a write that the reported error refuses.\<close>

definition require :: "'e \<Rightarrow> ('d \<Rightarrow> 'r option) \<Rightarrow> ('d, 'e, 'r) tx" where
  "require e f = answered (\<lambda>d. (case f d of None \<Rightarrow> Inl (Err e) | Some r \<Rightarrow> Inr r, d))"

definition write_unless :: "'e err \<Rightarrow> ('d \<Rightarrow> bool) \<Rightarrow> ('d \<Rightarrow> 'd) \<Rightarrow> ('d, 'e, unit) tx" where
  "write_unless e taken f = answered (\<lambda>d. if taken d then (Inl e, d) else (Inr (), f d))"

lemma wp_require [wps]:
  "(f T = None \<Longrightarrow> E (Err e) T) \<Longrightarrow> (\<And>r. f T = Some r \<Longrightarrow> Q r T) \<Longrightarrow> E Fault T \<Longrightarrow> wp (\<lambda>T. T) (require e f) Q E T"
  unfolding require_def by (rule wp_answered) (auto split: option.splits)

lemma wp_write_unless [wps]:
  "(taken T \<Longrightarrow> E e T) \<Longrightarrow> (\<not> taken T \<Longrightarrow> Q () (f T)) \<Longrightarrow> E Fault T \<Longrightarrow> wp (\<lambda>T. T) (write_unless e taken f) Q E T"
  unfolding write_unless_def by (rule wp_answered) (auto split: if_splits)

text \<open>Loops.\<close>

lemma wp_each:
  assumes "\<And>x T. x \<in> set xs \<Longrightarrow> I T \<Longrightarrow> wp v (f x) (\<lambda>_. I) E T" "I T"
  shows "wp v (tx_each f xs) (\<lambda>_. I) E T"
  using assms
proof (induction xs arbitrary: T)
  case (Cons x xs)
  have "wp v (f x) (\<lambda>_. I) E T" using Cons.prems by simp
  then have "wp v (f x) (\<lambda>_. wp v (tx_each f xs) (\<lambda>_. I) E) E T"
    by (rule wp_mono) (use Cons in auto)
  then show ?case by (auto intro: wps)
qed (auto intro: wps)

lemma wp_frame:
  "tx_keeps F m \<Longrightarrow> wp v m Q E (v d) \<Longrightarrow> F d \<Longrightarrow> m (d, fs) = (Inr a, d', fs') \<Longrightarrow> Q a (v d') \<and> F d'"
  by (blast dest: tx_keepsD wpD(1))

end
