(* ===== verification/Workspaces.thy ===== *)
theory Workspaces
  imports Transactions Accounts Conversation
begin

text \<open>
  Workspaces and who belongs to them (src/internal/workspace: repository.go, service.go,
  members.go, roles.go, invites.go, invites_repository.go, scim.go, with the tables of
  src/embedded/migrations/0001, 0002, 0028, 0033, 0034 and 0051).  The tables of the service are one
  field of the database; a statement is a program over that field, \<open>on_tables\<close> runs it.  SHA-256
  and the parser of mail addresses are arguments, as are random tokens and identifiers.
\<close>

section \<open>Tables\<close>

record settings =
  st_branding :: json
  st_security :: json
  st_privacy :: json

record workspace_row =
  ws_id :: string
  ws_name :: string
  ws_slug :: string
  ws_language :: string
  ws_timezone :: string
  ws_prefix :: string
  ws_sequence :: int
  ws_logo :: "string option"
  ws_icon :: "string option"
  ws_settings :: "settings option"
  ws_created :: int
  ws_updated :: int

record member_row =
  wm_id :: string
  wm_workspace :: string
  wm_user :: string
  wm_role :: string
  wm_extra :: "string list"
  wm_accepting :: bool
  wm_presence :: string
  wm_seen :: "int option"
  wm_external :: "string option"
  wm_deactivated :: "int option"
  wm_created :: int

record role_row =
  ro_id :: string
  ro_workspace :: "string option"
  ro_key :: string
  ro_name :: string
  ro_description :: "string option"
  ro_builtin :: bool

record invite =
  iv_id :: string
  iv_workspace :: string
  iv_email :: string
  iv_role :: string
  iv_hash :: string
  iv_by :: "string option"
  iv_expires :: int
  iv_accepted :: "int option"
  iv_created :: int

record team_row =
  te_id :: string
  te_workspace :: string
  te_name :: string
  te_description :: "string option"
  te_lead :: "string option"
  te_strategy :: string
  te_config :: json
  te_created :: int

record inbox_row =
  ix_id :: string
  ix_workspace :: string
  ix_name :: string
  ix_slug :: string
  ix_channels :: "string list"
  ix_default :: bool
  ix_visibility :: string

record tag_row =
  tg_id :: string
  tg_workspace :: string
  tg_name :: string
  tg_color :: int

record hold_row =
  lh_id :: string
  lh_workspace :: string
  lh_category :: string
  lh_reason :: string
  lh_created_by :: "string option"
  lh_released_by :: "string option"
  lh_created :: int
  lh_released :: "int option"

text \<open>\<open>wt_tagged\<close> holds the junction tables of tags by their names: entity and tag.\<close>

record workspace_tables =
  wt_workspaces :: "workspace_row list"
  wt_users :: "account list"
  wt_members :: "member_row list"
  wt_roles :: "role_row list"
  wt_permissions :: "(string \<times> string) list"
  wt_invites :: "invite list"
  wt_teams :: "team_row list"
  wt_team_members :: "(string \<times> string) list"
  wt_inboxes :: "inbox_row list"
  wt_inbox_teams :: "(string \<times> string) list"
  wt_tags :: "tag_row list"
  wt_tagged :: "string \<Rightarrow> (string \<times> string) list"
  wt_holds :: "hold_row list"

record workspace_db = audit_db +
  wd_tables :: workspace_tables

datatype workspace_error = WsNotFound | ErrSlugTaken | ErrInvalidSlug | ErrInvalidName | ErrInvalidRole | ErrLastOwner
  | ErrCannotDemoteOwner | ErrMemberNotFound | ErrSelfRemoval | ErrInvalidPresence | ErrRoleNotFound | ErrRoleInUse
  | ErrRoleBuiltin | ErrRoleKeyInvalid | ErrRoleKeyReserved | ErrRoleNameRequired | ErrInvalidCapability | ErrRoleKeyTaken
  | ErrInviteExists | ErrAlreadyMember | ErrInviteNotFound | ErrInviteExpired | ErrInviteEmailMismatch
  | ErrTeamNotFound | ErrInvalidTeamName | ErrInvalidRoutingStrategy | ErrTeamNameTaken
  | ErrSCIMInvalidUserName | ErrSCIMExternalIDConflict | ErrSCIMUserNotFound | ErrSCIMOwnerDeactivation
  | ErrInvalidTagName | ErrInvalidColor | ErrTagNameTaken | WsTagNotFound | ErrMergeSelf
  | ErrLegalHoldNotFound | ErrInvalidLegalHold | ErrInvalidSettings

type_synonym 'a wstmt = "(workspace_tables, workspace_error, 'a) tx"
type_synonym ('x, 'a) wtx = "('x workspace_db_scheme, workspace_error, 'a) tx"

definition on_tables :: "'a wstmt \<Rightarrow> ('x, 'a) wtx" where
  "on_tables m = tx_on wd_tables (\<lambda>t d. d\<lparr>wd_tables := t\<rparr>) m"

section \<open>The regular expressions and the CHECK constraints\<close>

definition is_lower :: "char \<Rightarrow> bool" where "is_lower c \<longleftrightarrow> CHR ''a'' \<le> c \<and> c \<le> CHR ''z''"
definition is_upper :: "char \<Rightarrow> bool" where "is_upper c \<longleftrightarrow> CHR ''A'' \<le> c \<and> c \<le> CHR ''Z''"
definition is_digit :: "char \<Rightarrow> bool" where "is_digit c \<longleftrightarrow> CHR ''0'' \<le> c \<and> c \<le> CHR ''9''"

definition role_format :: "string \<Rightarrow> bool" where
  "role_format k = (case k of [] \<Rightarrow> False | c # cs \<Rightarrow> is_lower c \<and> 1 \<le> length cs \<and> length cs \<le> 31 \<and>
     list_all (\<lambda>x. is_lower x \<or> is_digit x \<or> x = CHR ''_'') cs)"

definition slug_format :: "string \<Rightarrow> bool" where
  "slug_format s \<longleftrightarrow> 3 \<le> length s \<and> length s \<le> 40 \<and> hd s \<noteq> CHR ''-'' \<and> last s \<noteq> CHR ''-'' \<and>
     list_all (\<lambda>x. is_lower x \<or> is_digit x \<or> x = CHR ''-'') s"

definition builtin_roles :: "string list" where
  "builtin_roles = [''owner'', ''admin'', ''manager'', ''agent'', ''developer'', ''analyst'']"

definition valid_role :: "string \<Rightarrow> bool" where "valid_role r \<longleftrightarrow> r \<in> set builtin_roles"

text \<open>The unique indexes and the CHECK of workspace_members.\<close>

definition members_valid :: "member_row list \<Rightarrow> bool" where
  "members_valid ms \<longleftrightarrow> distinct (map wm_id ms) \<and> distinct (map (\<lambda>m. (wm_workspace m, wm_user m)) ms) \<and>
     distinct (map wm_workspace (filter (\<lambda>m. wm_role m = ''owner'') ms)) \<and>
     distinct (map (\<lambda>m. (wm_workspace m, wm_external m)) (filter (\<lambda>m. wm_external m \<noteq> None) ms)) \<and>
     list_all (\<lambda>m. role_format (wm_role m)) ms"

text \<open>An UPDATE or INSERT of members, refused when a constraint would break.\<close>

definition put_members :: "(workspace_tables \<Rightarrow> member_row list) \<Rightarrow> unit wstmt" where
  "put_members f = sql_checked (\<lambda>T. if members_valid (f T) then Some ((), T\<lparr>wt_members := f T\<rparr>) else None)"

definition insert_member_row :: "member_row \<Rightarrow> unit wstmt" where
  "insert_member_row r = sql_checked (\<lambda>T.
     if wm_workspace r \<notin> ws_id ` set (wt_workspaces T) \<or> wm_user r \<notin> us_id ` set (wt_users T) \<or> \<not> members_valid (wt_members T @ [r]) then None
     else Some ((), T\<lparr>wt_members := wt_members T @ [r]\<rparr>))"

definition new_member :: "int \<Rightarrow> string \<Rightarrow> string \<Rightarrow> string \<Rightarrow> string \<Rightarrow> string \<Rightarrow> member_row" where
  "new_member now i w u role presence = \<lparr> wm_id = i, wm_workspace = w, wm_user = u, wm_role = role, wm_extra = [],
     wm_accepting = True, wm_presence = presence, wm_seen = None, wm_external = None, wm_deactivated = None, wm_created = now \<rparr>"

section \<open>What every operation writes down\<close>

definition member_name :: "string \<Rightarrow> workspace_tables \<Rightarrow> string" where
  "member_name m T = (case lookup_key wm_id m (wt_members T) of None \<Rightarrow> ''''
     | Some r \<Rightarrow> (case lookup_key us_id (wm_user r) (wt_users T) of None \<Rightarrow> '''' | Some u \<Rightarrow> us_name u))"

definition record_ws_audit :: "request \<Rightarrow> nat \<Rightarrow> audit_entry \<Rightarrow> ('x, unit) wtx" where
  "record_ws_audit rq k e =
     (if ae_actor_name e = '''' \<and> ae_actor_type e = ''user'' \<and> ae_actor_id e \<noteq> ''''
      then tx_bind (on_tables (sql_read (member_name (ae_actor_id e)))) (\<lambda>name.
             record_tx (rq_ids rq k) (rq_now rq) (e\<lparr>ae_actor_name := name\<rparr>))
      else record_tx (rq_ids rq k) (rq_now rq) e)"

definition append_ws_event :: "request \<Rightarrow> nat \<Rightarrow> event \<Rightarrow> ('x, unit) wtx" where
  "append_ws_event rq k ev = tx_seq (append_event (rq_ids rq k) (rq_causation rq) (rq_now rq) ev) (tx_ret ())"

definition ws_audit :: "string \<Rightarrow> string \<Rightarrow> string \<Rightarrow> string \<Rightarrow> string \<Rightarrow> json option \<Rightarrow> audit_entry" where
  "ws_audit w act action ty i meta = \<lparr> ae_workspace = w, ae_actor_type = ''user'', ae_actor_id = act, ae_actor_name = '''',
     ae_action = action, ae_entity_type = ty, ae_entity_id = i, ae_request = '''', ae_ip = '''', ae_metadata = meta \<rparr>"

definition ws_event :: "string \<Rightarrow> string \<Rightarrow> string \<Rightarrow> string \<Rightarrow> string \<Rightarrow> json option \<Rightarrow> event" where
  "ws_event w ty kind i act data = \<lparr> ev_workspace = w, ev_type = ty, ev_entity_type = kind, ev_entity_id = i,
     ev_actor_type = ''user'', ev_actor_id = act, ev_data = data, ev_causation = '''', ev_request = '''' \<rparr>"

definition str_list :: "string list \<Rightarrow> json" where "str_list xs = JArr (map JStr xs)"

section \<open>Members\<close>

definition role_visible :: "string \<Rightarrow> role_row \<Rightarrow> bool" where
  "role_visible w r \<longleftrightarrow> ro_workspace r = Some w \<or> (ro_workspace r = None \<and> ro_builtin r)"

definition role_exists :: "string \<Rightarrow> string \<Rightarrow> workspace_tables \<Rightarrow> bool" where
  "role_exists w k T \<longleftrightarrow> list_ex (\<lambda>r. ro_key r = trim_space k \<and> role_visible w r) (wt_roles T)"

definition validate_assignable_role :: "string \<Rightarrow> string \<Rightarrow> unit wstmt" where
  "validate_assignable_role w role =
     (if trim_space role = ''owner'' then tx_fail (Err ErrCannotDemoteOwner)
      else tx_bind (sql_read (role_exists w (trim_space role))) (\<lambda>there.
        if there then tx_ret () else tx_fail (Err ErrInvalidRole)))"

text \<open>The variant for a transaction also locks the row of the role.\<close>

definition validate_assignable_role_tx :: "string \<Rightarrow> string \<Rightarrow> unit wstmt" where
  "validate_assignable_role_tx w role = tx_seq (validate_assignable_role w role) (sql_exec (\<lambda>T. T))"

definition lock_member :: "string \<Rightarrow> string \<Rightarrow> member_row wstmt" where
  "lock_member w m = require ErrMemberNotFound (\<lambda>T. find (\<lambda>r. wm_workspace r = w \<and> wm_id r = m) (wt_members T))"

definition update_member_role :: "string \<Rightarrow> string \<Rightarrow> unit wstmt" where
  "update_member_role m role = put_members (\<lambda>T. update_where (\<lambda>r. wm_id r = m) (\<lambda>r. r\<lparr>wm_role := role\<rparr>) (wt_members T))"

definition update_extra_capabilities :: "string \<Rightarrow> string list \<Rightarrow> unit wstmt" where
  "update_extra_capabilities m caps = put_members (\<lambda>T. update_where (\<lambda>r. wm_id r = m) (\<lambda>r. r\<lparr>wm_extra := caps\<rparr>) (wt_members T))"

text \<open>DELETE of a member with what the foreign keys take along or set to NULL.\<close>

definition clear_if :: "string \<Rightarrow> string option \<Rightarrow> string option" where
  "clear_if m v = (if v = Some m then None else v)"

definition without_member :: "string \<Rightarrow> workspace_tables \<Rightarrow> workspace_tables" where
  "without_member m T = T\<lparr>wt_members := delete_where (\<lambda>r. wm_id r = m) (wt_members T),
     wt_team_members := delete_where (\<lambda>(t, x). x = m) (wt_team_members T),
     wt_teams := map (\<lambda>t. t\<lparr>te_lead := clear_if m (te_lead t)\<rparr>) (wt_teams T),
     wt_invites := map (\<lambda>i. i\<lparr>iv_by := clear_if m (iv_by i)\<rparr>) (wt_invites T),
     wt_holds := map (\<lambda>h. h\<lparr>lh_created_by := clear_if m (lh_created_by h), lh_released_by := clear_if m (lh_released_by h)\<rparr>) (wt_holds T)\<rparr>"

definition delete_member :: "string \<Rightarrow> unit wstmt" where
  "delete_member m = sql_exec (without_member m)"

definition set_member_role :: "request \<Rightarrow> string \<Rightarrow> string \<Rightarrow> string \<Rightarrow> string \<Rightarrow> ('x, unit) wtx" where
  "set_member_role rq w act m role = (let role = trim_space role in with_tx
     (tx_bind (on_tables
        (tx_seq (validate_assignable_role_tx w role)
        (tx_bind (lock_member w m) (\<lambda>target.
           if wm_role target = ''owner'' then tx_fail (Err ErrCannotDemoteOwner)
           else tx_seq (update_member_role m role) (tx_ret target))))) (\<lambda>target.
      tx_seq (record_ws_audit rq 0 (ws_audit w act ''member.role_changed'' ''member'' m
         (Some (JObj [(''from_role'', JStr (wm_role target)), (''to_role'', JStr role)]))))
      (append_ws_event rq 1 (ws_event w ''member.role_changed'' ''member'' m act
         (Some (JObj [(''member_id'', JStr m), (''role'', JStr role)])))))))"

definition set_extra_capabilities :: "request \<Rightarrow> string \<Rightarrow> string \<Rightarrow> string \<Rightarrow> string list \<Rightarrow> ('x, unit) wtx" where
  "set_extra_capabilities rq w act m caps = with_tx
     (tx_bind (on_tables (tx_bind (lock_member w m) (\<lambda>target. tx_seq (update_extra_capabilities m caps) (tx_ret target)))) (\<lambda>target.
      record_ws_audit rq 0 (ws_audit w act ''member.role_changed'' ''member'' m
        (Some (JObj [(''role'', JStr (wm_role target)), (''extra_capabilities'', str_list caps)])))))"

definition remove_member :: "request \<Rightarrow> string \<Rightarrow> string \<Rightarrow> string \<Rightarrow> ('x, unit) wtx" where
  "remove_member rq w act m = (if act = m then tx_fail (Err ErrSelfRemoval) else with_tx
     (tx_bind (on_tables (tx_bind (lock_member w m) (\<lambda>target.
        if wm_role target = ''owner'' then tx_fail (Err ErrLastOwner) else tx_seq (delete_member m) (tx_ret target)))) (\<lambda>target.
      tx_seq (record_ws_audit rq 0 (ws_audit w act ''member.removed'' ''member'' m (Some (JObj [(''role'', JStr (wm_role target))]))))
      (append_ws_event rq 1 (ws_event w ''member.removed'' ''member'' m act (Some (JObj [(''member_id'', JStr m)])))))))"

definition valid_presence :: "string list" where "valid_presence = [''online'', ''away'', ''busy'', ''offline'']"

text \<open>UPDATE of the caller's own membership, found by the user.\<close>

definition update_own :: "string \<Rightarrow> string \<Rightarrow> (member_row \<Rightarrow> member_row) \<Rightarrow> unit wstmt" where
  "update_own w u f = write_unless (Err ErrMemberNotFound)
     (\<lambda>T. \<not> list_ex (\<lambda>r. wm_workspace r = w \<and> wm_user r = u) (wt_members T))
     (\<lambda>T. T\<lparr>wt_members := update_where (\<lambda>r. wm_workspace r = w \<and> wm_user r = u) f (wt_members T)\<rparr>)"

definition set_own_presence :: "request \<Rightarrow> string \<Rightarrow> string \<Rightarrow> string \<Rightarrow> ('x, unit) wtx" where
  "set_own_presence rq w u p = (if p \<notin> set valid_presence then tx_fail (Err ErrInvalidPresence)
     else on_tables (update_own w u (\<lambda>r. r\<lparr>wm_presence := p, wm_seen := Some (rq_now rq)\<rparr>)))"

definition set_own_accepting_conversations :: "string \<Rightarrow> string \<Rightarrow> bool \<Rightarrow> ('x, unit) wtx" where
  "set_own_accepting_conversations w u b = on_tables (update_own w u (\<lambda>r. r\<lparr>wm_accepting := b\<rparr>))"

section \<open>Roles\<close>

record role_definition =
  rd_id :: string
  rd_workspace :: string
  rd_key :: string
  rd_name :: string
  rd_description :: "string option"
  rd_builtin :: bool
  rd_capabilities :: "string list"

definition role_capabilities :: "string \<Rightarrow> workspace_tables \<Rightarrow> string list" where
  "role_capabilities i T = map snd (filter (\<lambda>(r, c). r = i) (wt_permissions T))"

text \<open>A role as the service shows it; the owner's capabilities are not rows.\<close>

definition define_role :: "workspace_tables \<Rightarrow> role_row \<Rightarrow> role_definition" where
  "define_role T r = \<lparr> rd_id = ro_id r, rd_workspace = (case ro_workspace r of None \<Rightarrow> '''' | Some w \<Rightarrow> w), rd_key = ro_key r,
     rd_name = ro_name r, rd_description = ro_description r, rd_builtin = ro_builtin r,
     rd_capabilities = (if ro_key r = ''owner'' then all_capabilities else role_capabilities (ro_id r) T) \<rparr>"

definition role_by_id :: "string \<Rightarrow> string \<Rightarrow> role_definition wstmt" where
  "role_by_id w i = require ErrRoleNotFound (\<lambda>T. map_option (define_role T) (find (\<lambda>r. ro_id r = i \<and> role_visible w r) (wt_roles T)))"

text \<open>normalizeCapabilities: \<open>seen\<close> is the result so far, sorted at the end.\<close>

fun collect_capabilities :: "string list \<Rightarrow> string list \<Rightarrow> workspace_error err + string list" where
  "collect_capabilities seen [] = Inr seen"
| "collect_capabilities seen (c # cs) =
     (if trim_space c \<notin> set all_capabilities then Inl (Err ErrInvalidCapability)
      else if trim_space c \<in> set seen then collect_capabilities seen cs
      else collect_capabilities (seen @ [trim_space c]) cs)"

definition normalize_capabilities :: "string list \<Rightarrow> workspace_error err + string list" where
  "normalize_capabilities cs = (case collect_capabilities [] cs of Inl e \<Rightarrow> Inl e | Inr xs \<Rightarrow> Inr (sort xs))"

definition normalize_role_input :: "string \<Rightarrow> string \<Rightarrow> string list \<Rightarrow> workspace_error err + string \<times> string \<times> string list" where
  "normalize_role_input key name caps = (let k = to_lower (trim_space key); n = trim_space name
     in if \<not> role_format k then Inl (Err ErrRoleKeyInvalid)
        else if valid_role k then Inl (Err ErrRoleKeyReserved)
        else if n = '''' then Inl (Err ErrRoleNameRequired)
        else case normalize_capabilities caps of Inl e \<Rightarrow> Inl e | Inr cs \<Rightarrow> Inr (k, n, cs))"

definition insert_permission :: "string \<Rightarrow> string \<Rightarrow> unit wstmt" where
  "insert_permission i c = sql_checked (\<lambda>T. if (i, c) \<in> set (wt_permissions T) \<or> i \<notin> ro_id ` set (wt_roles T) then None
     else Some ((), T\<lparr>wt_permissions := wt_permissions T @ [(i, c)]\<rparr>))"

definition replace_role_permissions :: "string \<Rightarrow> string list \<Rightarrow> unit wstmt" where
  "replace_role_permissions i caps = tx_seq
     (sql_exec (\<lambda>T. T\<lparr>wt_permissions := delete_where (\<lambda>(r, c). r = i) (wt_permissions T)\<rparr>))
     (tx_each (insert_permission i) caps)"

text \<open>A unique violation is ErrRoleKeyTaken; an unknown workspace breaks the foreign key.\<close>

definition insert_role :: "role_row \<Rightarrow> unit wstmt" where
  "insert_role r = answered (\<lambda>T.
     if list_ex (\<lambda>x. ro_id x = ro_id r \<or> (ro_workspace x = ro_workspace r \<and> ro_workspace r \<noteq> None \<and> ro_key x = ro_key r)) (wt_roles T)
       then (Inl (Err ErrRoleKeyTaken), T)
     else if (case ro_workspace r of None \<Rightarrow> False | Some w \<Rightarrow> w \<notin> ws_id ` set (wt_workspaces T)) then (Inl Constraint, T)
     else (Inr (), T\<lparr>wt_roles := wt_roles T @ [r]\<rparr>))"

definition create_role :: "request \<Rightarrow> string \<Rightarrow> string \<Rightarrow> string \<Rightarrow> string \<Rightarrow> string option \<Rightarrow> string list \<Rightarrow> ('x, role_definition) wtx" where
  "create_role rq w act key name desc caps = (case normalize_role_input key name caps of
     Inl e \<Rightarrow> tx_fail e
   | Inr (k, n, cs) \<Rightarrow> let i = rq_ids rq 0 in tx_seq (with_tx
       (tx_seq (on_tables
          (tx_seq (insert_role \<lparr> ro_id = i, ro_workspace = Some w, ro_key = k, ro_name = n, ro_description = desc, ro_builtin = False \<rparr>)
          (replace_role_permissions i cs)))
       (tx_seq (record_ws_audit rq 1 (ws_audit w act ''role.created'' ''role'' i
          (Some (JObj [(''key'', JStr k), (''capabilities'', str_list cs)]))))
       (append_ws_event rq 2 (ws_event w ''role.created'' ''role'' i act (Some (JObj [(''role_id'', JStr i), (''key'', JStr k)])))))))
     (on_tables (role_by_id w i)))"

text \<open>The role of the workspace itself, locked; built-in roles belong to none.\<close>

definition lock_role :: "string \<Rightarrow> string \<Rightarrow> role_row wstmt" where
  "lock_role w i = tx_bind (require ErrRoleNotFound (\<lambda>T. find (\<lambda>r. ro_workspace r = Some w \<and> ro_id r = i) (wt_roles T))) (\<lambda>r.
     if ro_builtin r then tx_fail (Err ErrRoleBuiltin) else tx_ret r)"

definition rename_role :: "string \<Rightarrow> string \<Rightarrow> string \<Rightarrow> string option \<Rightarrow> unit wstmt" where
  "rename_role w i name desc = sql_exec (\<lambda>T. T\<lparr>wt_roles := update_where (\<lambda>r. ro_workspace r = Some w \<and> ro_id r = i)
     (\<lambda>r. r\<lparr>ro_name := name, ro_description := (case desc of None \<Rightarrow> ro_description r | Some _ \<Rightarrow> desc)\<rparr>) (wt_roles T)\<rparr>)"

text \<open>\<open>caps = None\<close> is a nil slice: the grants stay.\<close>

definition update_role :: "request \<Rightarrow> string \<Rightarrow> string \<Rightarrow> string \<Rightarrow> string \<Rightarrow> string option \<Rightarrow> string list option \<Rightarrow> ('x, role_definition) wtx" where
  "update_role rq w act i name desc caps =
     (if trim_space name = '''' then tx_fail (Err ErrRoleNameRequired)
      else case (case caps of None \<Rightarrow> Inr None | Some cs \<Rightarrow> (case normalize_capabilities cs of Inl e \<Rightarrow> Inl e | Inr xs \<Rightarrow> Inr (Some xs))) of
        Inl e \<Rightarrow> tx_fail e
      | Inr cs \<Rightarrow> tx_seq (with_tx
          (tx_bind (on_tables (tx_bind (lock_role w i) (\<lambda>r.
             tx_seq (rename_role w i (trim_space name) desc)
             (tx_seq (case cs of None \<Rightarrow> tx_ret () | Some xs \<Rightarrow> replace_role_permissions i xs) (tx_ret r))))) (\<lambda>r.
           tx_seq (record_ws_audit rq 0 (ws_audit w act ''role.updated'' ''role'' i
              (Some (JObj [(''key'', JStr (ro_key r)), (''capabilities_changed'', JBool (cs \<noteq> None))]))))
           (append_ws_event rq 1 (ws_event w ''role.updated'' ''role'' i act
              (Some (JObj [(''role_id'', JStr i), (''key'', JStr (ro_key r))])))))))
        (on_tables (role_by_id w i)))"

definition assigned_members :: "string \<Rightarrow> string \<Rightarrow> workspace_tables \<Rightarrow> nat" where
  "assigned_members w k T = length (filter (\<lambda>m. wm_workspace m = w \<and> wm_role m = k) (wt_members T))"

definition pending_invites :: "string \<Rightarrow> string \<Rightarrow> workspace_tables \<Rightarrow> nat" where
  "pending_invites w k T = length (filter (\<lambda>i. iv_workspace i = w \<and> iv_role i = k \<and> iv_accepted i = None) (wt_invites T))"

definition without_role :: "string \<Rightarrow> string \<Rightarrow> workspace_tables \<Rightarrow> workspace_tables" where
  "without_role w i T = (if list_ex (\<lambda>r. ro_workspace r = Some w \<and> ro_id r = i) (wt_roles T)
     then T\<lparr>wt_roles := delete_where (\<lambda>r. ro_workspace r = Some w \<and> ro_id r = i) (wt_roles T),
            wt_permissions := delete_where (\<lambda>(r, c). r = i) (wt_permissions T)\<rparr> else T)"

definition delete_role :: "request \<Rightarrow> string \<Rightarrow> string \<Rightarrow> string \<Rightarrow> ('x, unit) wtx" where
  "delete_role rq w act i = with_tx
     (tx_bind (on_tables (tx_bind (lock_role w i) (\<lambda>r.
        tx_bind (sql_read (assigned_members w (ro_key r))) (\<lambda>n.
        if n > 0 then tx_fail (Err ErrRoleInUse)
        else tx_bind (sql_read (pending_invites w (ro_key r))) (\<lambda>n.
        if n > 0 then tx_fail (Err ErrRoleInUse)
        else tx_seq (sql_exec (without_role w i)) (tx_ret r)))))) (\<lambda>r.
      tx_seq (record_ws_audit rq 0 (ws_audit w act ''role.deleted'' ''role'' i (Some (JObj [(''key'', JStr (ro_key r))]))))
      (append_ws_event rq 1 (ws_event w ''role.deleted'' ''role'' i act (Some (JObj [(''role_id'', JStr i), (''key'', JStr (ro_key r))]))))))"

section \<open>Invitations\<close>

definition invite_token_lifetime :: int where "invite_token_lifetime = 7 * 24 * 3600 * 1000000000"

definition email_is_member :: "string \<Rightarrow> string \<Rightarrow> workspace_tables \<Rightarrow> bool" where
  "email_is_member w email T \<longleftrightarrow> list_ex (\<lambda>m. wm_workspace m = w \<and>
     list_ex (\<lambda>u. us_id u = wm_user m \<and> same_email (us_email u) email) (wt_users T)) (wt_members T)"

definition invite_taken :: "invite \<Rightarrow> workspace_tables \<Rightarrow> bool" where
  "invite_taken v T \<longleftrightarrow> list_ex (\<lambda>i. iv_id i = iv_id v \<or> iv_hash i = iv_hash v \<or>
     (iv_workspace i = iv_workspace v \<and> same_email (iv_email i) (iv_email v))) (wt_invites T)"

definition insert_invite :: "invite \<Rightarrow> unit wstmt" where
  "insert_invite v = answered (\<lambda>T.
     if invite_taken v T then (Inl (Err ErrInviteExists), T)
     else if iv_workspace v \<notin> ws_id ` set (wt_workspaces T) \<or>
       (case iv_by v of None \<Rightarrow> False | Some m \<Rightarrow> m \<notin> wm_id ` set (wt_members T)) then (Inl Constraint, T)
     else (Inr (), T\<lparr>wt_invites := wt_invites T @ [v]\<rparr>))"

definition invite_by_id :: "string \<Rightarrow> string \<Rightarrow> invite wstmt" where
  "invite_by_id w i = require ErrInviteNotFound (\<lambda>T. find (\<lambda>v. iv_workspace v = w \<and> iv_id v = i) (wt_invites T))"

text \<open>IssueInvite; \<open>token\<close> is the random token and \<open>sha\<close> the hash the row keeps of it.\<close>

definition issue_invite :: "(string \<Rightarrow> string) \<Rightarrow> request \<Rightarrow> string \<Rightarrow> string \<Rightarrow> string \<Rightarrow> string \<Rightarrow> string \<Rightarrow> ('x, string \<times> invite) wtx" where
  "issue_invite sha rq w act email role token =
     (let email = to_lower (trim_space email); role = trim_space role; i = rq_ids rq 0;
          row = \<lparr> iv_id = i, iv_workspace = w, iv_email = email, iv_role = role, iv_hash = sha token, iv_by = Some act,
                 iv_expires = rq_now rq + invite_token_lifetime, iv_accepted = None, iv_created = rq_now rq \<rparr>
      in tx_seq (on_tables (tx_seq (validate_assignable_role w role)
           (tx_bind (sql_read (email_is_member w email)) (\<lambda>b. if b then tx_fail (Err ErrAlreadyMember) else tx_ret ()))))
        (tx_seq (with_tx (tx_seq (on_tables (insert_invite row))
           (tx_seq (record_ws_audit rq 1 (ws_audit w act ''member.invited'' ''invite'' i
              (Some (JObj [(''email'', JStr email), (''role'', JStr role)]))))
           (append_ws_event rq 2 (ws_event w ''invite.issued'' ''invite'' i act
              (Some (JObj [(''invite_id'', JStr i), (''email'', JStr email), (''role'', JStr role)])))))))
        (tx_bind (on_tables (invite_by_id w i)) (\<lambda>v. tx_ret (token, v)))))"

definition revoke_invite :: "request \<Rightarrow> string \<Rightarrow> string \<Rightarrow> string \<Rightarrow> ('x, unit) wtx" where
  "revoke_invite rq w act i = with_tx
     (tx_seq (on_tables (sql_exec (\<lambda>T. T\<lparr>wt_invites := delete_where (\<lambda>v. iv_workspace v = w \<and> iv_id v = i) (wt_invites T)\<rparr>)))
     (tx_seq (record_ws_audit rq 0 (ws_audit w act ''member.invited'' ''invite'' i (Some (JObj [(''revoked'', JBool True)]))))
     (append_ws_event rq 1 (ws_event w ''invite.revoked'' ''invite'' i act None))))"

record invite_details =
  id_workspace_name :: string
  id_email :: string
  id_role :: string
  id_expires :: int

definition pending_by_hash :: "string \<Rightarrow> workspace_tables \<Rightarrow> invite option" where
  "pending_by_hash h T = find (\<lambda>v. iv_hash v = h \<and> iv_accepted v = None) (wt_invites T)"

definition lookup_invite :: "(string \<Rightarrow> string) \<Rightarrow> string \<Rightarrow> ('x, invite_details) wtx" where
  "lookup_invite sha token = on_tables (require ErrInviteNotFound (\<lambda>T. case pending_by_hash (sha token) T of
     None \<Rightarrow> None
   | Some v \<Rightarrow> (case lookup_key ws_id (iv_workspace v) (wt_workspaces T) of None \<Rightarrow> None
      | Some w \<Rightarrow> Some \<lparr> id_workspace_name = ws_name w, id_email = iv_email v, id_role = iv_role v, id_expires = iv_expires v \<rparr>)))"

definition workspace_by_id :: "string \<Rightarrow> workspace_row wstmt" where
  "workspace_by_id w = require WsNotFound (\<lambda>T. lookup_key ws_id w (wt_workspaces T))"

text \<open>The statements of RedeemInvite on the tables; identifier 0 is the new member.\<close>

definition accept_invite :: "request \<Rightarrow> string \<Rightarrow> string \<Rightarrow> string \<Rightarrow> invite wstmt" where
  "accept_invite rq h u email = tx_bind (require ErrInviteNotFound (pending_by_hash h)) (\<lambda>v.
     if rq_now rq > iv_expires v then tx_fail (Err ErrInviteExpired)
     else if \<not> same_email (iv_email v) email then tx_fail (Err ErrInviteEmailMismatch)
     else tx_seq (insert_member_row (new_member (rq_now rq) (rq_ids rq 0) (iv_workspace v) u (iv_role v) ''offline''))
         (tx_seq (sql_exec (\<lambda>T. T\<lparr>wt_invites := update_where (\<lambda>i. iv_id i = iv_id v) (\<lambda>i. i\<lparr>iv_accepted := Some (rq_now rq)\<rparr>) (wt_invites T)\<rparr>))
         (tx_ret v)))"

definition redeem_invite :: "(string \<Rightarrow> string) \<Rightarrow> request \<Rightarrow> string \<Rightarrow> string \<Rightarrow> string \<Rightarrow> ('x, workspace_row) wtx" where
  "redeem_invite sha rq token u email = with_tx
     (tx_bind (on_tables (accept_invite rq (sha token) u email)) (\<lambda>v.
      let m = rq_ids rq 0; w = iv_workspace v in
      tx_seq (record_ws_audit rq 1 (ws_audit w u ''member.joined'' ''member'' m
         (Some (JObj [(''role'', JStr (iv_role v)), (''via_invite'', JStr (iv_id v))]))))
     (tx_seq (append_ws_event rq 2 (ws_event w ''invite.accepted'' ''invite'' (iv_id v) u None))
     (tx_seq (append_ws_event rq 3 (ws_event w ''member.joined'' ''member'' m u
         (Some (JObj [(''member_id'', JStr m), (''role'', JStr (iv_role v))]))))
     (on_tables (workspace_by_id w))))))"

definition invite_key :: "invite \<Rightarrow> int \<times> string" where "invite_key v = (iv_created v, iv_id v)"

text \<open>listInvitesPage; \<open>before = None\<close> is the zero time.\<close>

definition list_invites_page :: "string \<Rightarrow> (int \<times> string) option \<Rightarrow> int \<Rightarrow> workspace_tables \<Rightarrow> invite list" where
  "list_invites_page w before limit T = take (page_limit limit) (rev (sort_key invite_key
     (filter (\<lambda>v. iv_workspace v = w \<and> (case before of None \<Rightarrow> True | Some b \<Rightarrow> invite_key v < b)) (wt_invites T))))"

section \<open>The service\<close>

definition insert_workspace :: "int \<Rightarrow> string \<Rightarrow> string \<Rightarrow> string \<Rightarrow> string \<Rightarrow> unit wstmt" where
  "insert_workspace now i name slug prefix = write_unless (Err ErrSlugTaken)
     (\<lambda>T. list_ex (\<lambda>w. ws_id w = i \<or> to_lower (ws_slug w) = to_lower slug) (wt_workspaces T))
     (\<lambda>T. T\<lparr>wt_workspaces := wt_workspaces T @ [\<lparr> ws_id = i, ws_name = name, ws_slug = slug, ws_language = ''en'', ws_timezone = ''UTC'',
        ws_prefix = prefix, ws_sequence = 0, ws_logo = None, ws_icon = None, ws_settings = None, ws_created = now, ws_updated = now \<rparr>]\<rparr>)"

definition insert_default_inbox :: "string \<Rightarrow> string \<Rightarrow> unit wstmt" where
  "insert_default_inbox i w = write_unless Constraint
     (\<lambda>T. w \<notin> ws_id ` set (wt_workspaces T) \<or> list_ex (\<lambda>x. ix_id x = i \<or> (ix_workspace x = w \<and> (to_lower (ix_slug x) = ''support'' \<or> ix_default x))) (wt_inboxes T))
     (\<lambda>T. T\<lparr>wt_inboxes := wt_inboxes T @ [\<lparr> ix_id = i, ix_workspace = w, ix_name = ''Support'', ix_slug = ''support'',
        ix_channels = [''widget'', ''portal'', ''email''], ix_default = True, ix_visibility = ''workspace'' \<rparr>]\<rparr>)"

text \<open>Bootstrap of the service; identifiers: workspace, member, inbox.\<close>

definition bootstrap_workspace :: "request \<Rightarrow> string \<Rightarrow> string \<Rightarrow> string \<Rightarrow> ('x, workspace_row) wtx" where
  "bootstrap_workspace rq u name slug = (let name = trim_space name; slug = to_lower (trim_space slug); w = rq_ids rq 0
     in if name = '''' then tx_fail (Err ErrInvalidName)
        else if \<not> slug_format slug then tx_fail (Err ErrInvalidSlug)
        else tx_seq (with_tx (on_tables
            (tx_seq (insert_workspace (rq_now rq) w name slug ''SUP'')
            (tx_seq (insert_member_row (new_member (rq_now rq) (rq_ids rq 1) w u ''owner'' ''online''))
            (insert_default_inbox (rq_ids rq 2) w)))))
          (on_tables (workspace_by_id w)))"

definition get_workspace :: "string \<Rightarrow> ('x, workspace_row) wtx" where
  "get_workspace w = on_tables (workspace_by_id w)"

text \<open>ticket_sequence is a bigint.\<close>

definition allocate_ticket_number :: "string \<Rightarrow> (string \<times> int) wstmt" where
  "allocate_ticket_number w = answered (\<lambda>T. case lookup_key ws_id w (wt_workspaces T) of
     None \<Rightarrow> (Inl (Err WsNotFound), T)
   | Some r \<Rightarrow> if ws_sequence r + 1 \<ge> 2 ^ 63 then (Inl Constraint, T)
       else (Inr (ws_prefix r, ws_sequence r + 1),
         T\<lparr>wt_workspaces := update_where (\<lambda>x. ws_id x = w) (\<lambda>x. x\<lparr>ws_sequence := ws_sequence x + 1\<rparr>) (wt_workspaces T)\<rparr>))"

text \<open>
  The catalogue of roles in pages: built-in roles first, the owner first among them, then by name
  and key.  A cursor is the position of a role in that order.
\<close>

type_synonym role_cursor = "int \<times> int \<times> string \<times> string"

definition role_cursor_for :: "role_row \<Rightarrow> role_cursor" where
  "role_cursor_for r = (if ro_builtin r then 1 else 0, if ro_key r = ''owner'' then 1 else 0, ro_name r, ro_key r)"

definition role_after :: "role_cursor \<Rightarrow> role_row \<Rightarrow> bool" where
  "role_after c r = (case c of (b, owner, name, key) \<Rightarrow> case role_cursor_for r of (rb, rowner, rname, rkey) \<Rightarrow>
     rb < b \<or> (rb = b \<and> (rowner < owner \<or> (rowner = owner \<and> (name < rname \<or> (rname = name \<and> key < rkey))))))"

definition role_order :: "role_row \<Rightarrow> role_cursor" where
  "role_order r = (case role_cursor_for r of (b, owner, name, key) \<Rightarrow> (- b, - owner, name, key))"

definition list_roles_page :: "string \<Rightarrow> role_cursor option \<Rightarrow> int \<Rightarrow> workspace_tables \<Rightarrow> role_definition list" where
  "list_roles_page w before limit T = map (define_role T) (take (nat (if limit \<le> 0 \<or> limit > 10000 then 50 else limit))
     (sort_key role_order (filter (\<lambda>r. role_visible w r \<and>
        (case before of None \<Rightarrow> True | Some c \<Rightarrow> snd (snd (snd c)) = '''' \<or> role_after c r)) (wt_roles T))))"

definition member_for_user :: "string \<Rightarrow> string \<Rightarrow> member_row wstmt" where
  "member_for_user w u = require WsNotFound
     (\<lambda>T. find (\<lambda>m. wm_workspace m = w \<and> wm_user m = u \<and> wm_deactivated m = None) (wt_members T))"

definition default_workspace_id :: "string \<Rightarrow> ('x, string) wtx" where
  "default_workspace_id u = on_tables (require WsNotFound (\<lambda>T.
     case sort_key wm_created (filter (\<lambda>m. wm_user m = u \<and> wm_deactivated m = None) (wt_members T)) of
       [] \<Rightarrow> None | m # _ \<Rightarrow> Some (wm_workspace m)))"

text \<open>The role of the workspace hides a built-in one of the same key.\<close>

definition role_for :: "string \<Rightarrow> string \<Rightarrow> workspace_tables \<Rightarrow> role_row option" where
  "role_for w k T = (case filter (\<lambda>r. ro_key r = k \<and> ro_workspace r = Some w) (wt_roles T) of
     r # _ \<Rightarrow> Some r
   | [] \<Rightarrow> find (\<lambda>r. ro_key r = k \<and> ro_workspace r = None \<and> ro_builtin r) (wt_roles T))"

definition capabilities_for_role :: "string \<Rightarrow> string \<Rightarrow> string list wstmt" where
  "capabilities_for_role w k = require ErrRoleNotFound (\<lambda>T. map_option (\<lambda>r. role_capabilities (ro_id r) T) (role_for w k T))"

text \<open>The inboxes a member may see, and whether the workspace has a restricted one.\<close>

definition on_team_of :: "string \<Rightarrow> inbox_row \<Rightarrow> workspace_tables \<Rightarrow> bool" where
  "on_team_of m i T \<longleftrightarrow> list_ex (\<lambda>(x, t). x = ix_id i \<and> (t, m) \<in> set (wt_team_members T) \<and>
     list_ex (\<lambda>r. te_id r = t \<and> te_workspace r = ix_workspace i) (wt_teams T)) (wt_inbox_teams T)"

definition has_restricted :: "string \<Rightarrow> workspace_tables \<Rightarrow> bool" where
  "has_restricted w T \<longleftrightarrow> list_ex (\<lambda>i. ix_workspace i = w \<and> ix_visibility i = ''teams'') (wt_inboxes T)"

definition visible_inboxes :: "string \<Rightarrow> string \<Rightarrow> workspace_tables \<Rightarrow> string list" where
  "visible_inboxes w m T = map ix_id (filter (\<lambda>i. ix_workspace i = w \<and> (ix_visibility i = ''workspace'' \<or> on_team_of m i T)) (wt_inboxes T))"

definition allowed_inboxes :: "string \<Rightarrow> string \<Rightarrow> workspace_tables \<Rightarrow> string list option" where
  "allowed_inboxes w m T = (let rows = visible_inboxes w m T
     in if (if rows = [] then True else has_restricted w T) then Some rows else None)"

definition actor_for_user :: "string \<Rightarrow> string \<Rightarrow> ('x, actor) wtx" where
  "actor_for_user w u = on_tables (tx_bind (member_for_user w u) (\<lambda>m.
     tx_bind (capabilities_for_role w (wm_role m)) (\<lambda>caps.
     let a = \<lparr> ac_user = u, ac_member = wm_id m, ac_workspace = w, ac_role = wm_role m, ac_capabilities = caps @ wm_extra m, ac_inboxes = None \<rparr>
     in if can (Some a) ''workspace.manage'' then tx_ret a
        else tx_bind (sql_read (allowed_inboxes w (wm_id m))) (\<lambda>l. tx_ret (a\<lparr>ac_inboxes := l\<rparr>)))))"

section \<open>Provisioning by a directory\<close>

record scim_user =
  sm_id :: string
  sm_user :: string
  sm_external :: string
  sm_user_name :: string
  sm_display_name :: string
  sm_active :: bool
  sm_role :: string
  sm_created :: int

record scim_input =
  sp_external :: string
  sp_user_name :: string
  sp_display_name :: string
  sp_active :: "bool option"
  sp_role :: string

definition user_of :: "member_row \<Rightarrow> workspace_tables \<Rightarrow> account option" where
  "user_of m T = lookup_key us_id (wm_user m) (wt_users T)"

definition show_scim_user :: "workspace_tables \<Rightarrow> member_row \<Rightarrow> scim_user option" where
  "show_scim_user T m = map_option (\<lambda>u. \<lparr> sm_id = wm_id m, sm_user = wm_user m,
     sm_external = (case wm_external m of None \<Rightarrow> '''' | Some x \<Rightarrow> x), sm_user_name = us_email u, sm_display_name = us_name u,
     sm_active = (wm_deactivated m = None), sm_role = wm_role m, sm_created = wm_created m \<rparr>) (user_of m T)"

definition get_scim_user :: "string \<Rightarrow> string \<Rightarrow> scim_user wstmt" where
  "get_scim_user w i = require ErrSCIMUserNotFound (\<lambda>T.
     case find (\<lambda>m. wm_workspace m = w \<and> wm_id m = i) (wt_members T) of None \<Rightarrow> None | Some m \<Rightarrow> show_scim_user T m)"

definition find_scim_user_by_external_id :: "string \<Rightarrow> string \<Rightarrow> scim_user wstmt" where
  "find_scim_user_by_external_id w x = tx_bind (require ErrSCIMUserNotFound
     (\<lambda>T. find (\<lambda>m. wm_workspace m = w \<and> wm_external m = Some x) (wt_members T))) (\<lambda>m. get_scim_user w (wm_id m))"

text \<open>\<open>parse\<close> is mail.ParseAddress: the address, or an error.\<close>

definition normalize_scim_email :: "(string \<Rightarrow> string option) \<Rightarrow> string \<Rightarrow> string" where
  "normalize_scim_email parse v = (case parse (trim_space v) of None \<Rightarrow> ''''
     | Some a \<Rightarrow> if a \<noteq> trim_space v \<or> CHR ''@'' \<notin> set a then '''' else to_lower a)"

definition inactive_at :: "int \<Rightarrow> bool \<Rightarrow> int option" where
  "inactive_at now active = (if active then None else Some now)"

text \<open>The user of an address, made when there is none; identifier 0.\<close>

definition scim_account :: "request \<Rightarrow> string \<Rightarrow> string \<Rightarrow> account wstmt" where
  "scim_account rq email name = tx_bind (sql_read (\<lambda>T. find (\<lambda>u. same_email (us_email u) email) (wt_users T))) (\<lambda>found. case found of
     Some u \<Rightarrow> tx_ret u
   | None \<Rightarrow> let u = new_account (rq_ids rq 0) name email None (rq_now rq) in tx_seq (write_unless Constraint
       (\<lambda>T. list_ex (\<lambda>x. us_id x = us_id u \<or> same_email (us_email x) email) (wt_users T))
       (\<lambda>T. T\<lparr>wt_users := wt_users T @ [u]\<rparr>)) (tx_ret u))"

text \<open>
  The membership to reconcile: the member, the address of its account, and whether it was made
  here (identifier 1), first by the external id, then by the address.
\<close>

definition scim_member :: "request \<Rightarrow> string \<Rightarrow> string \<Rightarrow> string \<Rightarrow> string \<Rightarrow> string \<Rightarrow> bool \<Rightarrow> (member_row \<times> string \<times> bool) wstmt" where
  "scim_member rq w x email name role active =
     tx_bind (sql_read (\<lambda>T. case find (\<lambda>m. wm_workspace m = w \<and> wm_external m = Some x) (wt_members T) of
         None \<Rightarrow> None | Some m \<Rightarrow> map_option (\<lambda>u. (m, us_email u)) (user_of m T))) (\<lambda>known. case known of
       Some (m, e) \<Rightarrow> tx_ret (m, e, False)
     | None \<Rightarrow> tx_bind (scim_account rq email name) (\<lambda>u.
         tx_bind (sql_read (\<lambda>T. find (\<lambda>m. wm_workspace m = w \<and> wm_user m = us_id u) (wt_members T))) (\<lambda>found. case found of
           None \<Rightarrow> let m = (new_member (rq_now rq) (rq_ids rq 1) w (us_id u) role ''offline'')
                        \<lparr>wm_external := Some x, wm_deactivated := inactive_at (rq_now rq) active\<rparr>
                   in tx_seq (insert_member_row m) (tx_ret (m, us_email u, True))
         | Some m \<Rightarrow> if wm_external m \<noteq> None \<and> wm_external m \<noteq> Some x then tx_fail (Err ErrSCIMExternalIDConflict)
                     else tx_ret (m, us_email u, False))))"

text \<open>The UPDATE of an existing membership; the answer is the role it has then.\<close>

definition scim_reconcile :: "request \<Rightarrow> string \<Rightarrow> string \<Rightarrow> string \<Rightarrow> string \<Rightarrow> string \<Rightarrow> bool \<Rightarrow> member_row \<Rightarrow> string wstmt" where
  "scim_reconcile rq w x name role_given role active m =
     (if wm_role m = ''owner'' \<and> \<not> active then tx_fail (Err ErrSCIMOwnerDeactivation)
      else let r = (if role_given \<noteq> '''' then role else wm_role m)
        in tx_seq (sql_exec (\<lambda>T. T\<lparr>wt_users := update_where (\<lambda>u. us_id u = wm_user m)
               (\<lambda>u. u\<lparr>us_name := name, us_updated := rq_now rq\<rparr>) (wt_users T)\<rparr>))
          (tx_seq (put_members (\<lambda>T. update_where (\<lambda>y. wm_workspace y = w \<and> wm_id y = wm_id m)
               (\<lambda>y. y\<lparr>wm_role := r, wm_external := Some x, wm_deactivated := inactive_at (rq_now rq) active\<rparr>) (wt_members T)))
          (tx_ret r)))"

definition scim_body :: "request \<Rightarrow> string \<Rightarrow> string \<Rightarrow> string \<Rightarrow> string \<Rightarrow> string \<Rightarrow> string \<Rightarrow> bool \<Rightarrow> (member_row \<times> bool \<times> string) wstmt" where
  "scim_body rq w x email name role_given role active =
     tx_bind (scim_member rq w x email name role active) (\<lambda>(m, e, created).
     if \<not> same_email e email then tx_fail (Err ErrSCIMExternalIDConflict)
     else if created then tx_ret (m, True, role)
     else tx_bind (scim_reconcile rq w x name role_given role active m) (\<lambda>r. tx_ret (m, False, r)))"

definition scim_action :: "bool \<Rightarrow> member_row \<Rightarrow> bool \<Rightarrow> string" where
  "scim_action active m created = (if \<not> active then ''member.deactivated''
     else if \<not> created \<and> wm_deactivated m \<noteq> None then ''member.reactivated'' else ''member.provisioned'')"

definition provision_scim_user :: "(string \<Rightarrow> string option) \<Rightarrow> request \<Rightarrow> string \<Rightarrow> string \<Rightarrow> scim_input \<Rightarrow> ('x, scim_user \<times> bool) wtx" where
  "provision_scim_user parse rq w act inp =
     (let email = normalize_scim_email parse (sp_user_name inp);
          x = (if trim_space (sp_external inp) = '''' then email else trim_space (sp_external inp));
          name = (if sp_display_name inp = '''' then email else sp_display_name inp);
          role = (if trim_space (sp_role inp) = '''' then ''agent'' else trim_space (sp_role inp));
          active = (case sp_active inp of None \<Rightarrow> True | Some b \<Rightarrow> b)
      in if email = '''' then tx_fail (Err ErrSCIMInvalidUserName)
         else tx_seq (on_tables (if trim_space (sp_role inp) = '''' then tx_ret () else validate_assignable_role w role))
          (tx_bind (with_tx (tx_bind (on_tables (scim_body rq w x email name (sp_role inp) role active)) (\<lambda>(m, created, r).
             tx_seq (record_ws_audit rq 2 ((ws_audit w act (scim_action active m created) ''member'' (wm_id m)
                (Some (JObj [(''external_id'', JStr x), (''active'', JBool active), (''role'', JStr r)])))
                \<lparr>ae_actor_type := ''api_key'', ae_actor_name := ''SCIM provisioning''\<rparr>))
            (tx_seq (append_ws_event rq 3 ((ws_event w (scim_action active m created) ''member'' (wm_id m) act
                (Some (JObj [(''member_id'', JStr (wm_id m)), (''external_id'', JStr x), (''active'', JBool active)])))
                \<lparr>ev_actor_type := ''api_key''\<rparr>))
            (tx_ret created))))) (\<lambda>created.
           tx_bind (on_tables (find_scim_user_by_external_id w x)) (\<lambda>u. tx_ret (u, created)))))"

end
