(* ===== verification/WorkspaceAdmin.thy ===== *)
theory WorkspaceAdmin
  imports Workspaces
begin

text \<open>
  The administration of a workspace (src/internal/workspace: teams.go, tags.go, legal_holds.go,
  settings.go and the directory listings of scim.go and bootstrap.go).  A group of settings is a
  JSON value; decoding the column fills in the defaults of the groups that were never saved.
\<close>

section \<open>Teams\<close>

definition valid_routing_strategies :: "string list" where
  "valid_routing_strategies = [''manual'', ''round_robin'', ''least_active'', ''team_queue'', ''customer_owner'', ''weighted'']"

definition routing_json :: "(string \<times> json) list option \<Rightarrow> json" where
  "routing_json v = (case v of None \<Rightarrow> JObj [] | Some fs \<Rightarrow> JObj fs)"

text \<open>The unique name, the workspace and the lead of a team.\<close>

definition team_name_taken :: "string \<Rightarrow> string \<Rightarrow> string \<Rightarrow> workspace_tables \<Rightarrow> bool" where
  "team_name_taken i w name T \<longleftrightarrow> list_ex (\<lambda>t. te_id t \<noteq> i \<and> te_workspace t = w \<and> te_name t = name) (wt_teams T)"

definition bad_lead :: "string option \<Rightarrow> workspace_tables \<Rightarrow> bool" where
  "bad_lead lead T \<longleftrightarrow> (case lead of None \<Rightarrow> False | Some m \<Rightarrow> m \<notin> wm_id ` set (wt_members T))"

definition insert_team :: "team_row \<Rightarrow> unit wstmt" where
  "insert_team t = answered (\<lambda>T.
     if te_id t \<in> te_id ` set (wt_teams T) \<or> team_name_taken (te_id t) (te_workspace t) (te_name t) T then (Inl (Err ErrTeamNameTaken), T)
     else if te_workspace t \<notin> ws_id ` set (wt_workspaces T) \<or> bad_lead (te_lead t) T then (Inl Constraint, T)
     else (Inr (), T\<lparr>wt_teams := wt_teams T @ [t]\<rparr>))"

text \<open>ON CONFLICT DO NOTHING; unknown teams and members break a foreign key.\<close>

definition insert_team_member :: "string \<Rightarrow> string \<Rightarrow> unit wstmt" where
  "insert_team_member t m = sql_checked (\<lambda>T.
     if (t, m) \<in> set (wt_team_members T) then Some ((), T)
     else if t \<notin> te_id ` set (wt_teams T) \<or> m \<notin> wm_id ` set (wt_members T) then None
     else Some ((), T\<lparr>wt_team_members := wt_team_members T @ [(t, m)]\<rparr>))"

definition team_by_id :: "string \<Rightarrow> string \<Rightarrow> (team_row \<times> string list) wstmt" where
  "team_by_id w i = require ErrTeamNotFound (\<lambda>T. map_option (\<lambda>t. (t, map snd (filter (\<lambda>(x, m). x = i) (wt_team_members T))))
     (find (\<lambda>t. te_workspace t = w \<and> te_id t = i) (wt_teams T)))"

definition create_team_with_routing :: "request \<Rightarrow> string \<Rightarrow> string \<Rightarrow> string \<Rightarrow> string option \<Rightarrow> string option \<Rightarrow> string
    \<Rightarrow> string list \<Rightarrow> (string \<times> json) list option \<Rightarrow> ('x, team_row \<times> string list) wtx" where
  "create_team_with_routing rq w act name desc lead strategy ms config =
     (let name = trim_space name; strategy = (if strategy = '''' then ''manual'' else strategy); i = rq_ids rq 0
      in if name = '''' then tx_fail (Err ErrInvalidTeamName)
         else if strategy \<notin> set valid_routing_strategies then tx_fail (Err ErrInvalidRoutingStrategy)
         else tx_seq (with_tx
             (tx_seq (on_tables (tx_seq (insert_team \<lparr> te_id = i, te_workspace = w, te_name = name, te_description = desc,
                te_lead = lead, te_strategy = strategy, te_config = routing_json config, te_created = rq_now rq \<rparr>)
                (tx_each (insert_team_member i) ms)))
             (tx_seq (record_ws_audit rq 1 (ws_audit w act ''team.created'' ''team'' i (Some (JObj [(''name'', JStr name)]))))
             (append_ws_event rq 2 (ws_event w ''team.created'' ''team'' i act None)))))
           (on_tables (team_by_id w i)))"

definition create_team :: "request \<Rightarrow> string \<Rightarrow> string \<Rightarrow> string \<Rightarrow> string option \<Rightarrow> string option \<Rightarrow> string
    \<Rightarrow> string list \<Rightarrow> ('x, team_row \<times> string list) wtx" where
  "create_team rq w act name desc lead strategy ms = create_team_with_routing rq w act name desc lead strategy ms None"

definition update_team_row :: "string \<Rightarrow> string \<Rightarrow> string \<Rightarrow> string option \<Rightarrow> string option \<Rightarrow> string \<Rightarrow> (string \<times> json) list option \<Rightarrow> unit wstmt" where
  "update_team_row w i name desc lead strategy config = answered (\<lambda>T.
     if \<not> list_ex (\<lambda>t. te_workspace t = w \<and> te_id t = i) (wt_teams T) then (Inl (Err ErrTeamNotFound), T)
     else if team_name_taken i w name T then (Inl (Err ErrTeamNameTaken), T)
     else if bad_lead lead T then (Inl Constraint, T)
     else (Inr (), T\<lparr>wt_teams := update_where (\<lambda>t. te_workspace t = w \<and> te_id t = i)
        (\<lambda>t. t\<lparr>te_name := name, te_description := desc, te_lead := lead, te_strategy := strategy,
            te_config := (case config of None \<Rightarrow> te_config t | Some fs \<Rightarrow> JObj fs)\<rparr>) (wt_teams T)\<rparr>))"

definition update_team_with_routing :: "request \<Rightarrow> string \<Rightarrow> string \<Rightarrow> string \<Rightarrow> string \<Rightarrow> string option \<Rightarrow> string option \<Rightarrow> string
    \<Rightarrow> (string \<times> json) list option \<Rightarrow> ('x, team_row \<times> string list) wtx" where
  "update_team_with_routing rq w act i name desc lead strategy config =
     (let name = trim_space name
      in if name = '''' then tx_fail (Err ErrInvalidTeamName)
         else if strategy \<notin> set valid_routing_strategies then tx_fail (Err ErrInvalidRoutingStrategy)
         else tx_seq (with_tx
             (tx_seq (on_tables (update_team_row w i name desc lead strategy config))
             (tx_seq (record_ws_audit rq 0 (ws_audit w act ''team.updated'' ''team'' i None))
             (append_ws_event rq 1 (ws_event w ''team.updated'' ''team'' i act None)))))
           (on_tables (team_by_id w i)))"

text \<open>DELETE of a team takes its memberships and its inbox links along.\<close>

definition without_team :: "string \<Rightarrow> workspace_tables \<Rightarrow> workspace_tables" where
  "without_team i T = T\<lparr>wt_teams := delete_where (\<lambda>t. te_id t = i) (wt_teams T),
     wt_team_members := delete_where (\<lambda>(t, m). t = i) (wt_team_members T),
     wt_inbox_teams := delete_where (\<lambda>(x, t). t = i) (wt_inbox_teams T)\<rparr>"

definition delete_team :: "request \<Rightarrow> string \<Rightarrow> string \<Rightarrow> string \<Rightarrow> ('x, unit) wtx" where
  "delete_team rq w act i = with_tx
     (tx_seq (on_tables (write_unless (Err ErrTeamNotFound)
        (\<lambda>T. \<not> list_ex (\<lambda>t. te_workspace t = w \<and> te_id t = i) (wt_teams T)) (without_team i)))
     (tx_seq (record_ws_audit rq 0 (ws_audit w act ''team.deleted'' ''team'' i None))
     (append_ws_event rq 1 (ws_event w ''team.deleted'' ''team'' i act None))))"

definition team_exists :: "string \<Rightarrow> string \<Rightarrow> workspace_tables \<Rightarrow> bool" where
  "team_exists w i T \<longleftrightarrow> list_ex (\<lambda>t. te_id t = i \<and> te_workspace t = w) (wt_teams T)"

text \<open>AddTeamMember and RemoveTeamMember: the statement, then a look when no row changed.\<close>

definition add_team_member :: "string \<Rightarrow> string \<Rightarrow> string \<Rightarrow> ('x, unit) wtx" where
  "add_team_member w t m = on_tables (tx_bind (sql_checked (\<lambda>T.
       if \<not> team_exists w t T \<or> (t, m) \<in> set (wt_team_members T) then Some (False, T)
       else if m \<notin> wm_id ` set (wt_members T) then None
       else Some (True, T\<lparr>wt_team_members := wt_team_members T @ [(t, m)]\<rparr>))) (\<lambda>changed.
     if changed then tx_ret () else tx_bind (sql_read (team_exists w t)) (\<lambda>there. if there then tx_ret () else tx_fail (Err ErrTeamNotFound))))"

definition remove_team_member :: "string \<Rightarrow> string \<Rightarrow> string \<Rightarrow> ('x, unit) wtx" where
  "remove_team_member w t m = on_tables (tx_bind (sql (\<lambda>T.
       if team_exists w t T \<and> (t, m) \<in> set (wt_team_members T)
       then (True, T\<lparr>wt_team_members := delete_where (\<lambda>x. x = (t, m)) (wt_team_members T)\<rparr>) else (False, T))) (\<lambda>changed.
     if changed then tx_ret () else tx_bind (sql_read (team_exists w t)) (\<lambda>there. if there then tx_ret () else tx_fail (Err ErrTeamNotFound))))"

definition team_key :: "team_row \<Rightarrow> string \<times> string" where "team_key t = (te_name t, te_id t)"

definition list_teams_page :: "string \<Rightarrow> string \<times> string \<Rightarrow> int \<Rightarrow> workspace_tables \<Rightarrow> team_row list" where
  "list_teams_page w before limit T = take (page_limit limit) (sort_key team_key
     (filter (\<lambda>t. te_workspace t = w \<and> (fst before = '''' \<or> before < team_key t)) (wt_teams T)))"

section \<open>Tags\<close>

definition tag_junction_tables :: "string list" where
  "tag_junction_tables = [''conversation_tags'', ''ticket_tags'', ''customer_tags'', ''company_tags'', ''feedback_tags'', ''article_tags'']"

definition insert_tag :: "tag_row \<Rightarrow> unit wstmt" where
  "insert_tag t = answered (\<lambda>T.
     if list_ex (\<lambda>x. tg_id x = tg_id t \<or> (tg_workspace x = tg_workspace t \<and> to_lower (tg_name x) = to_lower (tg_name t))) (wt_tags T)
       then (Inl (Err ErrTagNameTaken), T)
     else if tg_workspace t \<notin> ws_id ` set (wt_workspaces T) then (Inl Constraint, T)
     else (Inr (), T\<lparr>wt_tags := wt_tags T @ [t]\<rparr>))"

definition create_tag :: "request \<Rightarrow> string \<Rightarrow> string \<Rightarrow> string \<Rightarrow> int \<Rightarrow> ('x, tag_row) wtx" where
  "create_tag rq w act name color = (let name = trim_space name;
       t = \<lparr> tg_id = rq_ids rq 0, tg_workspace = w, tg_name = name, tg_color = color \<rparr>
     in if name = '''' then tx_fail (Err ErrInvalidTagName)
        else if color < 1 \<or> color > 6 then tx_fail (Err ErrInvalidColor)
        else tx_seq (with_tx (tx_seq (on_tables (insert_tag t))
            (record_ws_audit rq 1 (ws_audit w act ''tag.created'' ''tag'' (tg_id t) (Some (JObj [(''name'', JStr name)]))))))
          (tx_ret t))"

definition lock_tag :: "string \<Rightarrow> string \<Rightarrow> tag_row wstmt" where
  "lock_tag w i = require WsTagNotFound (\<lambda>T. find (\<lambda>t. tg_workspace t = w \<and> tg_id t = i) (wt_tags T))"

text \<open>DELETE ... RETURNING; the rows of the junction tables go with the tag.\<close>

definition delete_tag_row :: "string \<Rightarrow> string \<Rightarrow> tag_row wstmt" where
  "delete_tag_row w i = answered (\<lambda>T. case find (\<lambda>t. tg_workspace t = w \<and> tg_id t = i) (wt_tags T) of
     None \<Rightarrow> (Inl (Err WsTagNotFound), T)
   | Some t \<Rightarrow> (Inr t, T\<lparr>wt_tags := delete_where (\<lambda>t. tg_workspace t = w \<and> tg_id t = i) (wt_tags T),
       wt_tagged := (\<lambda>j. delete_where (\<lambda>(e, g). g = i) (wt_tagged T j))\<rparr>))"

definition delete_tag :: "request \<Rightarrow> string \<Rightarrow> string \<Rightarrow> string \<Rightarrow> ('x, unit) wtx" where
  "delete_tag rq w act i = with_tx (tx_bind (on_tables (delete_tag_row w i)) (\<lambda>t.
     record_ws_audit rq 0 (ws_audit w act ''tag.deleted'' ''tag'' i (Some (JObj [(''name'', JStr (tg_name t))])))))"

text \<open>reassignTagUsage: the entities that have both tags lose the source, the others change it.\<close>

definition drop_doubles :: "string \<Rightarrow> string \<Rightarrow> (string \<times> string) list \<Rightarrow> (string \<times> string) list" where
  "drop_doubles source target rows = delete_where (\<lambda>(e, g). g = source \<and> (e, target) \<in> set rows) rows"

definition retag :: "string \<Rightarrow> string \<Rightarrow> (string \<times> string) list \<Rightarrow> (string \<times> string) list" where
  "retag source target rows = update_where (\<lambda>(e, g). g = source) (\<lambda>(e, g). (e, target)) rows"

definition reassign_tag_usage :: "string \<Rightarrow> string \<Rightarrow> string \<Rightarrow> unit wstmt" where
  "reassign_tag_usage source target j = tx_seq
     (sql_exec (\<lambda>T. T\<lparr>wt_tagged := (wt_tagged T)(j := drop_doubles source target (wt_tagged T j))\<rparr>))
     (sql_checked (\<lambda>T. let rows = retag source target (wt_tagged T j)
        in if distinct rows then Some ((), T\<lparr>wt_tagged := (wt_tagged T)(j := rows)\<rparr>) else None))"

definition merge_tags :: "request \<Rightarrow> string \<Rightarrow> string \<Rightarrow> string \<Rightarrow> string \<Rightarrow> ('x, unit) wtx" where
  "merge_tags rq w act source target = (if source = target then tx_fail (Msg ''workspace: cannot merge a tag into itself'')
     else with_tx (tx_bind (on_tables (tx_bind (lock_tag w source) (\<lambda>s.
         tx_seq (lock_tag w target)
        (tx_seq (tx_each (reassign_tag_usage source target) tag_junction_tables)
        (tx_seq (delete_tag_row w source) (tx_ret s)))))) (\<lambda>s.
       record_ws_audit rq 0 (ws_audit w act ''tag.merged'' ''tag'' target
         (Some (JObj [(''merged_name'', JStr (tg_name s)), (''into'', JStr target)]))))))"

definition tag_usage :: "string \<Rightarrow> workspace_tables \<Rightarrow> nat" where
  "tag_usage i T = sum_list (map (\<lambda>j. length (filter (\<lambda>(e, g). g = i) (wt_tagged T j))) tag_junction_tables)"

definition list_tags :: "string \<Rightarrow> workspace_tables \<Rightarrow> (tag_row \<times> nat) list" where
  "list_tags w T = map (\<lambda>t. (t, tag_usage (tg_id t) T)) (sort_key (\<lambda>t. to_lower (tg_name t)) (filter (\<lambda>t. tg_workspace t = w) (wt_tags T)))"

section \<open>Legal holds\<close>

definition hold_categories :: "string list" where
  "hold_categories = [''all'', ''events'', ''sessions'', ''webhooks'', ''surveys'', ''audit'']"

definition validate_legal_hold :: "string \<Rightarrow> string \<Rightarrow> bool" where
  "validate_legal_hold category reason \<longleftrightarrow> category \<in> set hold_categories \<and> trim_space reason \<noteq> '''' \<and> length (trim_space reason) \<le> 500"

definition legal_hold_by_id :: "string \<Rightarrow> string \<Rightarrow> hold_row wstmt" where
  "legal_hold_by_id w i = require ErrLegalHoldNotFound (\<lambda>T. find (\<lambda>h. lh_workspace h = w \<and> lh_id h = i) (wt_holds T))"

definition insert_hold :: "hold_row \<Rightarrow> unit wstmt" where
  "insert_hold h = write_unless Constraint
     (\<lambda>T. lh_id h \<in> lh_id ` set (wt_holds T) \<or> lh_workspace h \<notin> ws_id ` set (wt_workspaces T) \<or> bad_lead (lh_created_by h) T)
     (\<lambda>T. T\<lparr>wt_holds := wt_holds T @ [h]\<rparr>)"

definition create_legal_hold :: "request \<Rightarrow> string \<Rightarrow> string \<Rightarrow> string \<Rightarrow> string \<Rightarrow> ('x, hold_row) wtx" where
  "create_legal_hold rq w act category reason = (let reason = trim_space reason; i = rq_ids rq 0
     in if \<not> validate_legal_hold category reason then tx_fail (Err ErrInvalidLegalHold)
        else tx_seq (with_tx (tx_seq (on_tables (insert_hold \<lparr> lh_id = i, lh_workspace = w, lh_category = category, lh_reason = reason,
              lh_created_by = Some act, lh_released_by = None, lh_created = rq_now rq, lh_released = None \<rparr>))
            (record_ws_audit rq 1 (ws_audit w act ''legal_hold.created'' ''legal_hold'' i (Some (JObj [(''category'', JStr category)]))))))
          (on_tables (legal_hold_by_id w i)))"

definition held_open :: "string \<Rightarrow> string \<Rightarrow> hold_row \<Rightarrow> bool" where
  "held_open w i h \<longleftrightarrow> lh_workspace h = w \<and> lh_id h = i \<and> lh_released h = None"

definition release_legal_hold :: "request \<Rightarrow> string \<Rightarrow> string \<Rightarrow> string \<Rightarrow> ('x, hold_row) wtx" where
  "release_legal_hold rq w act i = tx_seq (with_tx (tx_seq (on_tables (answered (\<lambda>T.
        if \<not> list_ex (held_open w i) (wt_holds T) then (Inl (Err ErrLegalHoldNotFound), T)
        else if bad_lead (Some act) T then (Inl Constraint, T)
        else (Inr (), T\<lparr>wt_holds := update_where (held_open w i) (\<lambda>h. h\<lparr>lh_released_by := Some act, lh_released := Some (rq_now rq)\<rparr>) (wt_holds T)\<rparr>))))
      (record_ws_audit rq 0 (ws_audit w act ''legal_hold.released'' ''legal_hold'' i None))))
    (on_tables (legal_hold_by_id w i))"

definition hold_key :: "hold_row \<Rightarrow> int \<times> string" where "hold_key h = (lh_created h, lh_id h)"

definition list_legal_holds_page :: "string \<Rightarrow> bool \<Rightarrow> (int \<times> string) option \<Rightarrow> int \<Rightarrow> workspace_tables \<Rightarrow> hold_row list" where
  "list_legal_holds_page w all before limit T =
     (let b = (case before of None \<Rightarrow> (far_future, '''') | Some k \<Rightarrow> k)
      in take (nat (if limit \<le> 0 \<or> limit > 201 then 50 else limit)) (rev (sort_key hold_key
        (filter (\<lambda>h. lh_workspace h = w \<and> (all \<or> lh_released h = None) \<and> hold_key h < b) (wt_holds T)))))"

section \<open>Settings\<close>

definition default_settings :: settings where
  "default_settings = \<lparr> st_branding = JObj [],
     st_security = JObj [(''allowed_email_domains'', JArr []), (''ip_allowlist'', JArr [])],
     st_privacy = JObj [(''ip_storage'', JStr ''full''), (''retention_days'', JObj []), (''allowed_local_storage_keys'', JArr []), (''allowed_cookie_keys'', JArr [])] \<rparr>"

definition settings_of :: "workspace_row \<Rightarrow> settings" where
  "settings_of w = (case ws_settings w of None \<Rightarrow> default_settings | Some s \<Rightarrow> s)"

definition get_settings :: "string \<Rightarrow> settings wstmt" where
  "get_settings w = tx_bind (workspace_by_id w) (\<lambda>r. tx_ret (settings_of r))"

definition prefix_format :: "string \<Rightarrow> bool" where
  "prefix_format p \<longleftrightarrow> 2 \<le> length p \<and> length p \<le> 8 \<and> list_all is_upper p"

definition to_upper :: "string \<Rightarrow> string" where
  "to_upper = map (\<lambda>c. if is_lower c then char_of (of_char c - 32 :: nat) else c)"

definition update_workspace :: "string \<Rightarrow> (workspace_row \<Rightarrow> workspace_row) \<Rightarrow> unit wstmt" where
  "update_workspace w f = write_unless (Err WsNotFound) (\<lambda>T. w \<notin> ws_id ` set (wt_workspaces T))
     (\<lambda>T. T\<lparr>wt_workspaces := update_where (\<lambda>r. ws_id r = w) f (wt_workspaces T)\<rparr>)"

definition section_audit :: "string \<Rightarrow> string \<Rightarrow> string \<Rightarrow> audit_entry" where
  "section_audit w act part = ws_audit w act ''workspace.updated'' ''workspace'' w (Some (JObj [(''section'', JStr part)]))"

definition update_general :: "request \<Rightarrow> string \<Rightarrow> string \<Rightarrow> string \<Rightarrow> string \<Rightarrow> string \<Rightarrow> string \<Rightarrow> ('x, workspace_row) wtx" where
  "update_general rq w act name prefix tz language = (let name = trim_space name; prefix = to_upper (trim_space prefix)
     in if name = '''' then tx_fail (Err ErrInvalidName)
        else if \<not> prefix_format prefix then tx_fail (Err ErrInvalidSettings)
        else tx_seq (with_tx (tx_seq (on_tables (update_workspace w (\<lambda>r. r\<lparr>ws_name := name, ws_prefix := prefix, ws_timezone := tz,
              ws_language := language, ws_updated := rq_now rq\<rparr>)))
            (tx_seq (record_ws_audit rq 0 (section_audit w act ''general''))
            (append_ws_event rq 1 (ws_event w ''workspace.updated'' ''workspace'' w act None)))))
          (on_tables (workspace_by_id w)))"

text \<open>mergeSettings: read under the row lock, change one group, write all of them back.\<close>

definition merge_settings :: "int \<Rightarrow> string \<Rightarrow> (settings \<Rightarrow> settings) \<Rightarrow> unit wstmt" where
  "merge_settings now w f = tx_bind (get_settings w) (\<lambda>s.
     sql_exec (\<lambda>T. T\<lparr>wt_workspaces := update_where (\<lambda>r. ws_id r = w) (\<lambda>r. r\<lparr>ws_settings := Some (f s), ws_updated := now\<rparr>) (wt_workspaces T)\<rparr>))"

definition update_branding :: "request \<Rightarrow> string \<Rightarrow> string \<Rightarrow> string option \<Rightarrow> string option \<Rightarrow> json \<Rightarrow> ('x, workspace_row) wtx" where
  "update_branding rq w act logo icon branding = tx_seq (with_tx (tx_seq (on_tables
        (tx_seq (update_workspace w (\<lambda>r. r\<lparr>ws_logo := logo, ws_icon := icon, ws_updated := rq_now rq\<rparr>))
        (merge_settings (rq_now rq) w (\<lambda>s. s\<lparr>st_branding := branding\<rparr>))))
      (record_ws_audit rq 0 (section_audit w act ''branding''))))
    (on_tables (workspace_by_id w))"

definition update_security_settings :: "request \<Rightarrow> string \<Rightarrow> string \<Rightarrow> json \<Rightarrow> ('x, settings) wtx" where
  "update_security_settings rq w act security = tx_seq (with_tx (tx_seq (on_tables (merge_settings (rq_now rq) w (\<lambda>s. s\<lparr>st_security := security\<rparr>)))
      (record_ws_audit rq 0 (ws_audit w act ''workspace.security_settings_changed'' ''workspace'' w None))))
    (on_tables (get_settings w))"

definition valid_ip_storage :: "string list" where "valid_ip_storage = [''full'', ''country_only'', ''none'']"

text \<open>The privacy group: the policy for addresses, the days of retention, and its other fields.\<close>

definition privacy_json :: "string \<Rightarrow> (string \<times> int) list \<Rightarrow> (string \<times> json) list \<Rightarrow> json" where
  "privacy_json ip days others = JObj ([(''ip_storage'', JStr ip), (''retention_days'', JObj (map (\<lambda>(c, n). (c, JInt n)) days))] @ others)"

definition update_privacy_settings :: "request \<Rightarrow> string \<Rightarrow> string \<Rightarrow> string \<Rightarrow> (string \<times> int) list \<Rightarrow> (string \<times> json) list \<Rightarrow> ('x, settings) wtx" where
  "update_privacy_settings rq w act ip days others = (let ip = (if ip = '''' then ''full'' else ip)
     in if ip \<notin> set valid_ip_storage then tx_fail (Err ErrInvalidSettings)
        else if list_ex (\<lambda>(c, n). n < 0) days then tx_fail (Err ErrInvalidSettings)
        else tx_seq (with_tx (tx_seq (on_tables (merge_settings (rq_now rq) w (\<lambda>s. s\<lparr>st_privacy := privacy_json ip days others\<rparr>)))
            (record_ws_audit rq 0 (ws_audit w act ''workspace.privacy_settings_changed'' ''workspace'' w None))))
          (on_tables (get_settings w)))"

section \<open>Directory listings\<close>

definition scim_matches :: "string \<Rightarrow> string \<Rightarrow> string \<Rightarrow> workspace_tables \<Rightarrow> member_row \<Rightarrow> bool" where
  "scim_matches w name x T m \<longleftrightarrow> wm_workspace m = w \<and> (x = '''' \<or> wm_external m = Some x) \<and>
     (case user_of m T of None \<Rightarrow> False | Some u \<Rightarrow> name = '''' \<or> us_email u = name)"

definition list_scim_users :: "string \<Rightarrow> string \<Rightarrow> string \<Rightarrow> int \<Rightarrow> int \<Rightarrow> workspace_tables \<Rightarrow> scim_user list \<times> nat" where
  "list_scim_users w name x start count T =
     (let rows = filter (scim_matches w (to_lower (trim_space name)) (trim_space x) T) (wt_members T);
          first = (if start < 1 then 1 else start); n = (if count \<le> 0 \<or> count > 200 then 100 else count)
      in (map the (filter (\<lambda>u. u \<noteq> None) (map (show_scim_user T)
            (take (nat n) (drop (nat (first - 1)) (sort_key (\<lambda>m. (wm_created m, wm_id m)) rows))))), length rows))"

definition workspace_ids_for_user :: "string \<Rightarrow> workspace_tables \<Rightarrow> string list" where
  "workspace_ids_for_user u T = map wm_workspace (filter (\<lambda>m. wm_user m = u) (wt_members T))"

end
