(* ===== verification/WorkspaceSafety.thy ===== *)
theory WorkspaceSafety
  imports WorkspaceAdmin
begin

text \<open>
  What the workspace service keeps true under every operation and every failure: the constraints
  of its tables, roles that resolve, owners that stay, and invitations that are spent once.  The
  proof computes the weakest precondition of every operation (theory Transactions).  The
  predicates take the tables they look at, so that a write leaves the others alone by rewriting.
\<close>

section \<open>The invariant\<close>

definition accounts_ok :: "account list \<Rightarrow> workspace_row list \<Rightarrow> bool" where
  "accounts_ok us ws \<longleftrightarrow> distinct (map us_id us) \<and> distinct (map (\<lambda>u. to_lower (us_email u)) us) \<and> distinct (map ws_id ws)"

definition members_ok :: "string set \<Rightarrow> string set \<Rightarrow> member_row list \<Rightarrow> bool" where
  "members_ok ws us ms \<longleftrightarrow> members_valid ms \<and> wm_workspace ` set ms \<subseteq> ws \<and> wm_user ` set ms \<subseteq> us"

definition resolves :: "string \<Rightarrow> string \<Rightarrow> role_row list \<Rightarrow> bool" where
  "resolves w k rs \<longleftrightarrow> (\<exists>r \<in> set rs. ro_key r = k \<and> role_visible w r)"

text \<open>The built-in roles are there, in no workspace and under reserved keys.\<close>

definition roles_ok :: "role_row list \<Rightarrow> bool" where
  "roles_ok rs \<longleftrightarrow> distinct (map ro_id rs) \<and>
     distinct (map (\<lambda>r. (ro_workspace r, ro_key r)) (filter (\<lambda>r. ro_workspace r \<noteq> None) rs)) \<and>
     (\<forall>r \<in> set rs. (ro_workspace r = None) = ro_builtin r \<and> valid_role (ro_key r) = ro_builtin r) \<and>
     (\<forall>k \<in> set builtin_roles. \<exists>r \<in> set rs. ro_builtin r \<and> ro_key r = k)"

definition permissions_ok :: "string set \<Rightarrow> (string \<times> string) list \<Rightarrow> bool" where
  "permissions_ok roles ps \<longleftrightarrow> distinct ps \<and> fst ` set ps \<subseteq> roles"

text \<open>Members and open invitations have a role of their workspace; no invitation makes an owner.\<close>

definition members_resolve :: "role_row list \<Rightarrow> member_row list \<Rightarrow> bool" where
  "members_resolve rs ms \<longleftrightarrow> (\<forall>m \<in> set ms. resolves (wm_workspace m) (wm_role m) rs)"

definition invites_resolve :: "role_row list \<Rightarrow> invite list \<Rightarrow> bool" where
  "invites_resolve rs vs \<longleftrightarrow> (\<forall>v \<in> set vs. iv_role v \<noteq> ''owner'' \<and> (iv_accepted v = None \<longrightarrow> resolves (iv_workspace v) (iv_role v) rs))"

definition invites_ok :: "invite list \<Rightarrow> bool" where
  "invites_ok vs \<longleftrightarrow> distinct (map iv_id vs) \<and> distinct (map iv_hash vs) \<and> distinct (map (\<lambda>v. (iv_workspace v, to_lower (iv_email v))) vs)"

definition teams_ok :: "string set \<Rightarrow> team_row list \<Rightarrow> bool" where
  "teams_ok ms ts \<longleftrightarrow> distinct (map te_id ts) \<and> distinct (map (\<lambda>t. (te_workspace t, te_name t)) ts) \<and>
     (\<forall>t \<in> set ts. te_strategy t \<in> set valid_routing_strategies \<and> (\<forall>m. te_lead t = Some m \<longrightarrow> m \<in> ms))"

definition team_members_ok :: "string set \<Rightarrow> string set \<Rightarrow> (string \<times> string) list \<Rightarrow> bool" where
  "team_members_ok ts ms tm \<longleftrightarrow> distinct tm \<and> set tm \<subseteq> ts \<times> ms"

definition inboxes_ok :: "inbox_row list \<Rightarrow> bool" where
  "inboxes_ok xs \<longleftrightarrow> distinct (map ix_id xs) \<and> distinct (map ix_workspace (filter ix_default xs)) \<and>
     (\<forall>i \<in> set xs. ix_visibility i = ''workspace'' \<or> ix_visibility i = ''teams'')"

definition inbox_teams_ok :: "string set \<Rightarrow> (string \<times> string) list \<Rightarrow> bool" where
  "inbox_teams_ok ts xt \<longleftrightarrow> snd ` set xt \<subseteq> ts"

definition tags_ok :: "tag_row list \<Rightarrow> bool" where
  "tags_ok ts \<longleftrightarrow> distinct (map tg_id ts) \<and> distinct (map (\<lambda>t. (tg_workspace t, to_lower (tg_name t))) ts) \<and>
     (\<forall>t \<in> set ts. 1 \<le> tg_color t \<and> tg_color t \<le> 6)"

definition tagged_ok :: "string set \<Rightarrow> (string \<Rightarrow> (string \<times> string) list) \<Rightarrow> bool" where
  "tagged_ok ts u \<longleftrightarrow> (\<forall>j. distinct (u j) \<and> snd ` set (u j) \<subseteq> ts)"

definition holds_ok :: "hold_row list \<Rightarrow> bool" where
  "holds_ok hs \<longleftrightarrow> distinct (map lh_id hs) \<and> (\<forall>h \<in> set hs. lh_category h \<in> set hold_categories \<and>
     lh_reason h \<noteq> '''' \<and> length (lh_reason h) \<le> 500)"

definition ws_inv :: "workspace_tables \<Rightarrow> bool" where
  "ws_inv T \<longleftrightarrow> accounts_ok (wt_users T) (wt_workspaces T) \<and>
     members_ok (ws_id ` set (wt_workspaces T)) (us_id ` set (wt_users T)) (wt_members T) \<and>
     roles_ok (wt_roles T) \<and> permissions_ok (ro_id ` set (wt_roles T)) (wt_permissions T) \<and>
     members_resolve (wt_roles T) (wt_members T) \<and> invites_resolve (wt_roles T) (wt_invites T) \<and> invites_ok (wt_invites T) \<and>
     teams_ok (wm_id ` set (wt_members T)) (wt_teams T) \<and>
     team_members_ok (te_id ` set (wt_teams T)) (wm_id ` set (wt_members T)) (wt_team_members T) \<and>
     inboxes_ok (wt_inboxes T) \<and> inbox_teams_ok (te_id ` set (wt_teams T)) (wt_inbox_teams T) \<and>
     tags_ok (wt_tags T) \<and> tagged_ok (tg_id ` set (wt_tags T)) (wt_tagged T) \<and> holds_ok (wt_holds T)"

text \<open>The active owners, and the tokens nobody can redeem any more.\<close>

definition owners :: "member_row list \<Rightarrow> (string \<times> string) set" where
  "owners ms = (\<lambda>m. (wm_workspace m, wm_id m)) ` {m \<in> set ms. wm_role m = ''owner'' \<and> wm_deactivated m = None}"

definition spent :: "invite list \<Rightarrow> string \<Rightarrow> bool" where
  "spent vs h \<longleftrightarrow> (\<forall>v \<in> set vs. iv_hash v = h \<longrightarrow> iv_accepted v \<noteq> None)"

text \<open>The ticket numbers given out: no counter falls below one it has reached.\<close>

definition counted :: "(string \<times> int) set \<Rightarrow> workspace_row list \<Rightarrow> bool" where
  "counted N ws \<longleftrightarrow> (\<forall>(w, n) \<in> N. \<exists>r \<in> set ws. ws_id r = w \<and> n \<le> ws_sequence r)"

text \<open>
  The invariant the operations keep: with \<open>b\<close> also that the owners of \<open>S\<close> are still there and every
  workspace has one; the marks \<open>H\<close> are hashes that stay spent and numbers that stay given out.
\<close>

type_synonym marks = "string set \<times> (string \<times> int) set"

definition owned :: "bool \<Rightarrow> (string \<times> string) set \<Rightarrow> string set \<Rightarrow> member_row list \<Rightarrow> bool" where
  "owned b S ws ms \<longleftrightarrow> (b \<longrightarrow> S \<subseteq> owners ms \<and> ws \<subseteq> fst ` owners ms)"

definition upheld :: "bool \<Rightarrow> (string \<times> string) set \<Rightarrow> marks \<Rightarrow> workspace_tables \<Rightarrow> bool" where
  "upheld b S H T \<longleftrightarrow> ws_inv T \<and> owned b S (ws_id ` set (wt_workspaces T)) (wt_members T) \<and>
     (\<forall>h \<in> fst H. spent (wt_invites T) h) \<and> counted (snd H) (wt_workspaces T)"

lemmas upheld_defs = upheld_def ws_inv_def

section \<open>What the writes keep\<close>

lemma image_update_where [tbl]: "(\<And>r. key (f r) = key r) \<Longrightarrow> key ` set (update_where P f t) = key ` set t"
  by (metis (no_types, lifting) list.set_map map_update_where)

lemma ball_update_where: "(\<forall>x \<in> set (update_where P f t). Q x) \<longleftrightarrow> (\<forall>r \<in> set t. (P r \<longrightarrow> Q (f r)) \<and> (\<not> P r \<longrightarrow> Q r))"
  by (induction t) auto

lemma delete_where_simps [simp]:
  "distinct t \<Longrightarrow> distinct (delete_where P t)" "distinct (map k t) \<Longrightarrow> distinct (map k (delete_where P t))"
  "set (delete_where P t) = {r \<in> set t. \<not> P r}" "filter Q (delete_where P t) = delete_where P (filter Q t)"
  by (auto simp: delete_where_def distinct_map_filter filter_filter conj_commute)

text \<open>Members.\<close>

lemma owners_update:
  assumes "\<And>r. wm_id (f r) = wm_id r \<and> wm_workspace (f r) = wm_workspace r"
    and "\<And>r. r \<in> set ms \<Longrightarrow> P r \<Longrightarrow> wm_role r = ''owner'' \<Longrightarrow> wm_deactivated r = None \<Longrightarrow> wm_role (f r) = ''owner'' \<and> wm_deactivated (f r) = None"
  shows "owners ms \<subseteq> owners (update_where P f ms)"
proof
  fix x assume "x \<in> owners ms"
  then obtain m where m: "m \<in> set ms" "wm_role m = ''owner''" "wm_deactivated m = None" "x = (wm_workspace m, wm_id m)"
    by (auto simp: owners_def)
  let ?m = "if P m then f m else m"
  have "?m \<in> set (update_where P f ms)" using m(1) by (auto simp: set_update_where)
  moreover have "wm_role ?m = ''owner'' \<and> wm_deactivated ?m = None \<and> x = (wm_workspace ?m, wm_id ?m)"
    using m assms(2) [OF m(1)] assms(1) by auto
  ultimately show "x \<in> owners (update_where P f ms)" unfolding owners_def by blast
qed

lemma owned_mono: "owned b S ws ms \<Longrightarrow> (b \<Longrightarrow> owners ms \<subseteq> owners ms') \<Longrightarrow> owned b S ws ms'"
  unfolding owned_def by (meson image_mono subset_trans)

lemma upheld_members:
  assumes u: "upheld b S H T" and v: "members_valid (update_where P f (wt_members T))"
    and f: "\<And>r. wm_id (f r) = wm_id r \<and> wm_workspace (f r) = wm_workspace r \<and> wm_user (f r) = wm_user r"
    and role: "\<And>r. r \<in> set (wt_members T) \<Longrightarrow> P r \<Longrightarrow> resolves (wm_workspace r) (wm_role (f r)) (wt_roles T)"
    and owner: "\<And>r. b \<Longrightarrow> r \<in> set (wt_members T) \<Longrightarrow> P r \<Longrightarrow> wm_role r = ''owner'' \<Longrightarrow> wm_deactivated r = None
      \<Longrightarrow> wm_role (f r) = ''owner'' \<and> wm_deactivated (f r) = None"
  shows "upheld b S H (T\<lparr>wt_members := update_where P f (wt_members T)\<rparr>)"
proof -
  have "owned b S (ws_id ` set (wt_workspaces T)) (update_where P f (wt_members T))"
    using u f owner by (intro owned_mono [OF _ owners_update]) (auto simp: upheld_def)
  moreover have "members_resolve (wt_roles T) (update_where P f (wt_members T))"
    using u role f by (auto simp: upheld_defs members_resolve_def set_update_where)
  ultimately show ?thesis
    using u v f by (simp add: upheld_defs members_ok_def image_update_where)
qed

lemma resolves_members: "upheld b S H T \<Longrightarrow> m \<in> set (wt_members T) \<Longrightarrow> resolves (wm_workspace m) (wm_role m) (wt_roles T)"
  by (simp add: upheld_defs members_resolve_def)

text \<open>Removal of a member that is no owner.\<close>

lemma teams_ok_cleared:
  "teams_ok ms ts \<Longrightarrow> teams_ok (ms - {m}) (map (\<lambda>t. t\<lparr>te_lead := clear_if m (te_lead t)\<rparr>) ts)"
  by (auto simp: teams_ok_def comp_def clear_if_def)

lemma upheld_without_member:
  assumes u: "upheld b S H T" and r: "r \<in> set (wt_members T)" "wm_role r \<noteq> ''owner''"
  shows "upheld b S H (without_member (wm_id r) T)"
proof -
  have one: "x = r" if "x \<in> set (wt_members T)" "wm_id x = wm_id r" for x
    using u r(1) that by (auto simp: upheld_defs members_ok_def members_valid_def intro: key_unique [of wm_id])
  have o: "owners (wt_members T) \<subseteq> owners (delete_where (\<lambda>x. wm_id x = wm_id r) (wt_members T))"
    using one r(2) by (auto simp: owners_def)
  have i: "wm_id ` {x \<in> set (wt_members T). wm_id x \<noteq> wm_id r} = wm_id ` set (wt_members T) - {wm_id r}" by auto
  have m: "members_ok (ws_id ` set (wt_workspaces T)) (us_id ` set (wt_users T)) (delete_where (\<lambda>x. wm_id x = wm_id r) (wt_members T))"
    using u by (auto simp: upheld_defs members_ok_def members_valid_def list_all_iff)
  have v: "invites_resolve (wt_roles T) (map (\<lambda>i. i\<lparr>iv_by := clear_if (wm_id r) (iv_by i)\<rparr>) (wt_invites T))"
    "invites_ok (map (\<lambda>i. i\<lparr>iv_by := clear_if (wm_id r) (iv_by i)\<rparr>) (wt_invites T))"
    "\<forall>h \<in> fst H. spent (map (\<lambda>i. i\<lparr>iv_by := clear_if (wm_id r) (iv_by i)\<rparr>) (wt_invites T)) h"
    using u by (auto simp: upheld_defs invites_resolve_def invites_ok_def spent_def comp_def)
  have t: "te_id ` set (map (\<lambda>t. t\<lparr>te_lead := clear_if (wm_id r) (te_lead t)\<rparr>) (wt_teams T)) = te_id ` set (wt_teams T)"
    by (auto simp: image_iff)
  have tm: "team_members_ok (te_id ` set (wt_teams T)) (wm_id ` set (wt_members T) - {wm_id r}) (delete_where (\<lambda>(t, x). x = wm_id r) (wt_team_members T))"
    using u by (auto simp: upheld_defs team_members_ok_def)
  have h: "holds_ok (map (\<lambda>h. h\<lparr>lh_created_by := clear_if (wm_id r) (lh_created_by h), lh_released_by := clear_if (wm_id r) (lh_released_by h)\<rparr>) (wt_holds T))"
    using u by (auto simp: upheld_defs holds_ok_def comp_def)
  have "members_resolve (wt_roles T) (delete_where (\<lambda>x. wm_id x = wm_id r) (wt_members T))"
    using u by (auto simp: upheld_defs members_resolve_def)
  moreover have "owned b S (ws_id ` set (wt_workspaces T)) (delete_where (\<lambda>x. wm_id x = wm_id r) (wt_members T))"
    using u o by (auto simp: upheld_def intro: owned_mono)
  ultimately show ?thesis
    using u m v t tm h teams_ok_cleared [of "wm_id ` set (wt_members T)" "wt_teams T" "wm_id r"]
    by (simp add: upheld_defs without_member_def i)
qed

text \<open>A new member, and a new workspace with its owner and its inbox.\<close>

lemma owners_append: "owners (ms @ ms') = owners ms \<union> owners ms'"
  by (auto simp: owners_def)

lemma upheld_new_member:
  assumes u: "upheld b S H T" and v: "members_valid (wt_members T @ [r])"
    and fk: "wm_workspace r \<in> ws_id ` set (wt_workspaces T)" "wm_user r \<in> us_id ` set (wt_users T)"
    and role: "resolves (wm_workspace r) (wm_role r) (wt_roles T)"
  shows "upheld b S H (T\<lparr>wt_members := wt_members T @ [r]\<rparr>)"
proof -
  have "owned b S (ws_id ` set (wt_workspaces T)) (wt_members T @ [r])"
    using u by (auto simp: upheld_def owners_append intro: owned_mono)
  moreover have "teams_ok (insert (wm_id r) (wm_id ` set (wt_members T))) (wt_teams T)"
    using u by (auto simp: upheld_defs teams_ok_def)
  moreover have "team_members_ok (te_id ` set (wt_teams T)) (insert (wm_id r) (wm_id ` set (wt_members T))) (wt_team_members T)"
    using u by (auto simp: upheld_defs team_members_ok_def)
  ultimately show ?thesis
    using u v fk role by (simp add: upheld_defs members_ok_def members_resolve_def)
qed

lemma upheld_new_workspace:
  assumes u: "upheld b S H T" and w: "ws_id w \<notin> ws_id ` set (wt_workspaces T)"
    and m: "wm_workspace m = ws_id w" "wm_user m \<in> us_id ` set (wt_users T)" "wm_role m = ''owner''" "wm_deactivated m = None"
      "members_valid (wt_members T @ [m])"
    and i: "inboxes_ok (wt_inboxes T @ [x])"
  shows "upheld b S H (T\<lparr>wt_workspaces := wt_workspaces T @ [w], wt_members := wt_members T @ [m], wt_inboxes := wt_inboxes T @ [x]\<rparr>)"
proof -
  have o: "owners [m] = {(ws_id w, wm_id m)}" using m(1,3,4) by (auto simp: owners_def)
  have "resolves (ws_id w) ''owner'' (wt_roles T)"
    using u by (auto simp: upheld_defs roles_ok_def builtin_roles_def resolves_def role_visible_def)
  moreover have "owned b S (insert (ws_id w) (ws_id ` set (wt_workspaces T))) (wt_members T @ [m])"
    using u o by (auto simp: upheld_def owned_def owners_append image_Un)
  moreover have "accounts_ok (wt_users T) (wt_workspaces T @ [w])"
    using u w by (auto simp: upheld_defs accounts_ok_def)
  moreover have "counted (snd H) (wt_workspaces T @ [w])"
    using u by (fastforce simp: upheld_def counted_def)
  moreover have "teams_ok (insert (wm_id m) (wm_id ` set (wt_members T))) (wt_teams T)"
    using u by (auto simp: upheld_defs teams_ok_def)
  moreover have "team_members_ok (te_id ` set (wt_teams T)) (insert (wm_id m) (wm_id ` set (wt_members T))) (wt_team_members T)"
    using u by (auto simp: upheld_defs team_members_ok_def)
  moreover have "members_ok (insert (ws_id w) (ws_id ` set (wt_workspaces T))) (us_id ` set (wt_users T)) (wt_members T @ [m])"
    using u m by (auto simp: upheld_defs members_ok_def)
  ultimately show ?thesis
    using u m i by (simp add: upheld_defs members_resolve_def)
qed

lemma upheld_workspace_rows:
  assumes u: "upheld b S H T" and f: "\<And>r. ws_id (f r) = ws_id r \<and> ws_sequence r \<le> ws_sequence (f r)"
  shows "upheld b S H (T\<lparr>wt_workspaces := update_where P f (wt_workspaces T)\<rparr>)"
proof -
  have "counted (snd H) (update_where P f (wt_workspaces T))"
    unfolding counted_def
  proof clarify
    fix w n assume "(w, n) \<in> snd H"
    with u obtain r where r: "r \<in> set (wt_workspaces T)" "ws_id r = w" "n \<le> ws_sequence r" by (auto simp: upheld_def counted_def)
    with f [of r] have "ws_id (if P r then f r else r) = w \<and> n \<le> ws_sequence (if P r then f r else r)" by auto
    moreover have "(if P r then f r else r) \<in> set (update_where P f (wt_workspaces T))" using r(1) by (auto simp: set_update_where)
    ultimately show "\<exists>r \<in> set (update_where P f (wt_workspaces T)). ws_id r = w \<and> n \<le> ws_sequence r" by blast
  qed
  then show ?thesis
    using assms by (simp add: upheld_defs accounts_ok_def image_update_where map_update_where)
qed

text \<open>Accounts.\<close>

lemma upheld_new_user:
  assumes "upheld b S H T" "us_id u \<notin> us_id ` set (wt_users T)" "to_lower (us_email u) \<notin> (\<lambda>x. to_lower (us_email x)) ` set (wt_users T)"
  shows "upheld b S H (T\<lparr>wt_users := wt_users T @ [u]\<rparr>)"
  using assms by (auto simp: upheld_defs accounts_ok_def members_ok_def)

lemma upheld_users:
  assumes "upheld b S H T" "\<And>r. us_id (f r) = us_id r \<and> us_email (f r) = us_email r"
  shows "upheld b S H (T\<lparr>wt_users := update_where P f (wt_users T)\<rparr>)"
  using assms by (simp add: upheld_defs accounts_ok_def image_update_where map_update_where)

text \<open>Roles: a role that goes is the role of nobody.\<close>

lemma resolves_mono: "resolves w k rs \<Longrightarrow> set rs \<subseteq> set rs' \<Longrightarrow> resolves w k rs'"
  by (auto simp: resolves_def)

lemma resolves_image: "resolves w k rs \<longleftrightarrow> (k, True) \<in> (\<lambda>r. (ro_key r, role_visible w r)) ` set rs"
  by (auto simp: resolves_def)

lemma upheld_new_role:
  assumes u: "upheld b S H T" and r: "ro_id r \<notin> ro_id ` set (wt_roles T)" "ro_workspace r = Some w" "\<not> ro_builtin r" "\<not> valid_role (ro_key r)"
    "(Some w, ro_key r) \<notin> (\<lambda>x. (ro_workspace x, ro_key x)) ` set (wt_roles T)"
  shows "upheld b S H (T\<lparr>wt_roles := wt_roles T @ [r]\<rparr>)"
proof -
  have "roles_ok (wt_roles T @ [r])"
    using u r by (auto simp: upheld_defs roles_ok_def)
  moreover have "members_resolve (wt_roles T @ [r]) (wt_members T)" "invites_resolve (wt_roles T @ [r]) (wt_invites T)"
    using u by (auto simp: upheld_defs members_resolve_def invites_resolve_def intro: resolves_mono)
  moreover have "permissions_ok (insert (ro_id r) (ro_id ` set (wt_roles T))) (wt_permissions T)"
    using u by (auto simp: upheld_defs permissions_ok_def)
  ultimately show ?thesis using u by (simp add: upheld_defs)
qed

lemma upheld_roles:
  assumes u: "upheld b S H T"
    and f: "\<And>r. ro_id (f r) = ro_id r \<and> ro_workspace (f r) = ro_workspace r \<and> ro_key (f r) = ro_key r \<and> ro_builtin (f r) = ro_builtin r"
  shows "upheld b S H (T\<lparr>wt_roles := update_where P f (wt_roles T)\<rparr>)"
proof -
  have i: "(\<lambda>r. (ro_key r, role_visible w r)) ` set (update_where P f (wt_roles T)) = (\<lambda>r. (ro_key r, role_visible w r)) ` set (wt_roles T)" for w
    by (rule image_update_where) (simp add: f role_visible_def)
  have r: "resolves w k (update_where P f (wt_roles T)) = resolves w k (wt_roles T)" for w k
    using arg_cong [OF i [of w], of "\<lambda>A. (k, True) \<in> A"] by (simp add: resolves_image)
  have g: "filter (\<lambda>r. ro_workspace r \<noteq> None) (update_where P f rs) = update_where P f (filter (\<lambda>r. ro_workspace r \<noteq> None) rs)" for rs
    by (induction rs) (auto simp: f)
  have k: "(\<lambda>r. (ro_key r, ro_builtin r)) ` set (update_where P f (wt_roles T)) = (\<lambda>r. (ro_key r, ro_builtin r)) ` set (wt_roles T)"
    by (rule image_update_where) (simp add: f)
  have "\<exists>r \<in> set (update_where P f (wt_roles T)). ro_builtin r \<and> ro_key r = key" if "key \<in> set builtin_roles" for key
  proof -
    from u that have "(key, True) \<in> (\<lambda>r. (ro_key r, ro_builtin r)) ` set (wt_roles T)" by (force simp: upheld_defs roles_ok_def)
    then show ?thesis unfolding k [symmetric] by auto
  qed
  moreover have "(ro_workspace r = None) = ro_builtin r \<and> valid_role (ro_key r) = ro_builtin r" if "r \<in> set (update_where P f (wt_roles T))" for r
  proof -
    from that obtain x where x: "x \<in> set (wt_roles T)" "r = (if P x then f x else x)" by (auto simp: set_update_where)
    with u have "(ro_workspace x = None) = ro_builtin x \<and> valid_role (ro_key x) = ro_builtin x" by (auto simp: upheld_defs roles_ok_def)
    with x(2) f show ?thesis by (cases "P x") simp_all
  qed
  ultimately have "roles_ok (update_where P f (wt_roles T))"
    using u unfolding roles_ok_def g by (simp add: upheld_defs roles_ok_def map_update_where f)
  then show ?thesis
    using u f by (simp add: upheld_defs members_resolve_def invites_resolve_def r image_update_where)
qed

lemma upheld_without_role:
  assumes u: "upheld b S H T" and r: "r \<in> set (wt_roles T)" "ro_workspace r = Some w"
    and unused: "assigned_members w (ro_key r) T = 0" "pending_invites w (ro_key r) T = 0"
  shows "upheld b S H (without_role w (ro_id r) T)"
proof -
  let ?rs = "delete_where (\<lambda>x. ro_workspace x = Some w \<and> ro_id x = ro_id r) (wt_roles T)"
  have one: "x = r" if "x \<in> set (wt_roles T)" "ro_id x = ro_id r" for x
    using u r(1) that by (auto simp: upheld_defs roles_ok_def intro: key_unique [of ro_id])
  have nb: "\<not> ro_builtin r" using u r by (auto simp: upheld_defs roles_ok_def)
  have keep: "resolves v k ?rs" if "resolves v k (wt_roles T)" "\<not> (v = w \<and> k = ro_key r)" for v k
    using that one r(2) nb by (auto simp: resolves_def role_visible_def)
  have "\<exists>x \<in> set ?rs. ro_builtin x \<and> ro_key x = k" if "k \<in> set builtin_roles" for k
  proof -
    from u that obtain x where x: "x \<in> set (wt_roles T)" "ro_builtin x" "ro_key x = k" by (auto simp: upheld_defs roles_ok_def)
    with one nb have "ro_id x \<noteq> ro_id r" by auto
    with x show ?thesis by auto
  qed
  then have "roles_ok ?rs" using u by (simp add: upheld_defs roles_ok_def)
  moreover have "members_resolve ?rs (wt_members T)"
    using u unused(1) by (auto simp: upheld_defs members_resolve_def assigned_members_def filter_empty_conv intro!: keep)
  moreover have "invites_resolve ?rs (wt_invites T)"
    using u unused(2) by (auto simp: upheld_defs invites_resolve_def pending_invites_def filter_empty_conv intro!: keep)
  moreover have "permissions_ok (ro_id ` set ?rs) (delete_where (\<lambda>(x, c). x = ro_id r) (wt_permissions T))"
    using u by (fastforce simp: upheld_defs permissions_ok_def subset_iff image_iff)
  ultimately show ?thesis using u r by (auto simp: upheld_defs without_role_def list_ex_iff)
qed

lemma upheld_permissions:
  assumes "upheld b S H T" "permissions_ok (ro_id ` set (wt_roles T)) ps"
  shows "upheld b S H (T\<lparr>wt_permissions := ps\<rparr>)"
  using assms by (simp add: upheld_defs)

text \<open>Invitations: fresh ones are not spent before, accepted ones stay accepted.\<close>

lemma upheld_new_invite:
  assumes u: "upheld b S H T" and v: "\<not> invite_taken v T" "iv_role v \<noteq> ''owner''" "resolves (iv_workspace v) (iv_role v) (wt_roles T)" "iv_hash v \<notin> fst H"
  shows "upheld b S H (T\<lparr>wt_invites := wt_invites T @ [v]\<rparr>)"
proof -
  have "invites_ok (wt_invites T @ [v])"
    using u v(1) by (auto simp: upheld_defs invites_ok_def invite_taken_def list_ex_iff same_email_def)
  moreover have "\<forall>h \<in> fst H. spent (wt_invites T @ [v]) h"
    using u v(4) by (auto simp: upheld_def spent_def)
  ultimately show ?thesis using u v(2,3) by (simp add: upheld_defs invites_resolve_def)
qed

lemma upheld_delete_invite: "upheld b S H T \<Longrightarrow> upheld b S H (T\<lparr>wt_invites := delete_where P (wt_invites T)\<rparr>)"
  by (auto simp: upheld_defs invites_resolve_def invites_ok_def spent_def)

lemma upheld_accept_invite:
  assumes "upheld b S H T"
  shows "upheld b S H (T\<lparr>wt_invites := update_where P (\<lambda>i. i\<lparr>iv_accepted := Some t\<rparr>) (wt_invites T)\<rparr>)"
proof -
  have "invites_resolve (wt_roles T) (update_where P (\<lambda>i. i\<lparr>iv_accepted := Some t\<rparr>) (wt_invites T))"
    using assms by (simp add: upheld_defs invites_resolve_def ball_update_where)
  moreover have "\<forall>h \<in> fst H. spent (update_where P (\<lambda>i. i\<lparr>iv_accepted := Some t\<rparr>) (wt_invites T)) h"
    using assms by (simp add: upheld_def spent_def ball_update_where)
  ultimately show ?thesis using assms by (simp add: upheld_defs invites_ok_def map_update_where)
qed

text \<open>Teams.\<close>

lemma bad_lead_iff: "\<not> bad_lead l T \<longleftrightarrow> (\<forall>m. l = Some m \<longrightarrow> m \<in> wm_id ` set (wt_members T))"
  by (cases l) (auto simp: bad_lead_def)

lemma upheld_new_team:
  assumes u: "upheld b S H T" and t: "te_id t \<notin> te_id ` set (wt_teams T)" "\<not> team_name_taken (te_id t) (te_workspace t) (te_name t) T"
    "\<not> bad_lead (te_lead t) T" "te_strategy t \<in> set valid_routing_strategies"
  shows "upheld b S H (T\<lparr>wt_teams := wt_teams T @ [t]\<rparr>)"
proof -
  have n: "\<not> (te_workspace x = te_workspace t \<and> te_name x = te_name t)" if "x \<in> set (wt_teams T)" for x
    using t(1,2) that unfolding team_name_taken_def list_ex_iff by (metis image_eqI)
  have "teams_ok (wm_id ` set (wt_members T)) (wt_teams T @ [t])"
    using u t(1,3,4) n unfolding teams_ok_def bad_lead_iff by (force simp: upheld_defs teams_ok_def)
  moreover have "team_members_ok (insert (te_id t) (te_id ` set (wt_teams T))) (wm_id ` set (wt_members T)) (wt_team_members T)"
    using u by (auto simp: upheld_defs team_members_ok_def)
  moreover have "inbox_teams_ok (insert (te_id t) (te_id ` set (wt_teams T))) (wt_inbox_teams T)"
    using u by (auto simp: upheld_defs inbox_teams_ok_def)
  ultimately show ?thesis using u by (simp add: upheld_defs)
qed

lemma distinct_update_one:
  assumes "distinct (map k t)" "distinct (map key t)" "\<And>r. key (f r) = key r" "\<And>r. P r \<Longrightarrow> key r = i" "\<And>r. P r \<Longrightarrow> k (f r) = v"
    "\<And>r. r \<in> set t \<Longrightarrow> key r \<noteq> i \<Longrightarrow> k r \<noteq> v"
  shows "distinct (map k (update_where P f t))"
  using assms(1,2,6)
proof (induction t)
  case (Cons r t)
  have IH: "distinct (map k (update_where P f t))" using Cons by simp
  have "k x \<noteq> (if P r then v else k r)" if x: "x \<in> set (update_where P f t)" for x
  proof -
    from x obtain y where y: "y \<in> set t" "x = (if P y then f y else y)" by (auto simp: set_update_where)
    have "key y \<noteq> key r" "k y \<noteq> k r" using y(1) Cons.prems(1,2) by (auto simp: rev_image_eqI)
    with y Cons.prems(3) [of y] Cons.prems(3) [of r] assms(4,5) show ?thesis by (auto split: if_splits)
  qed
  then have "(if P r then v else k r) \<notin> k ` set (update_where P f t)" by (metis imageE)
  then show ?case using IH assms(5) [of r] by (cases "P r") simp_all
qed simp

lemma upheld_update_team:
  assumes u: "upheld b S H T" and t: "\<not> team_name_taken i w (name) T" "\<not> bad_lead lead T"
    and f: "\<And>r. te_id (f r) = te_id r \<and> te_workspace (f r) = te_workspace r \<and> te_name (f r) = name \<and> te_lead (f r) = lead \<and> te_strategy (f r) \<in> set valid_routing_strategies"
  shows "upheld b S H (T\<lparr>wt_teams := update_where (\<lambda>t. te_workspace t = w \<and> te_id t = i) f (wt_teams T)\<rparr>)"
proof -
  let ?ts = "update_where (\<lambda>t. te_workspace t = w \<and> te_id t = i) f (wt_teams T)"
  have "distinct (map (\<lambda>t. (te_workspace t, te_name t)) ?ts)"
    by (rule distinct_update_one [where key = te_id and i = i and v = "(w, name)"])
      (use u t(1) f in \<open>auto simp: upheld_defs teams_ok_def team_name_taken_def list_ex_iff\<close>)
  moreover have "te_strategy r \<in> set valid_routing_strategies \<and> (\<forall>m. te_lead r = Some m \<longrightarrow> m \<in> wm_id ` set (wt_members T))" if "r \<in> set ?ts" for r
    using that u t(2) f unfolding bad_lead_iff by (auto simp: upheld_defs teams_ok_def set_update_where split: if_splits)
  ultimately have "teams_ok (wm_id ` set (wt_members T)) ?ts"
    using u f by (simp add: upheld_defs teams_ok_def map_update_where)
  then show ?thesis using u f by (simp add: upheld_defs image_update_where)
qed

lemma upheld_without_team: "upheld b S H T \<Longrightarrow> upheld b S H (without_team i T)"
  unfolding upheld_defs without_team_def
  by (auto simp: teams_ok_def team_members_ok_def inbox_teams_ok_def)

lemma upheld_team_members:
  assumes "upheld b S H T" "team_members_ok (te_id ` set (wt_teams T)) (wm_id ` set (wt_members T)) tm"
  shows "upheld b S H (T\<lparr>wt_team_members := tm\<rparr>)"
  using assms by (simp add: upheld_defs)

text \<open>Tags.\<close>

lemma upheld_new_tag:
  assumes u: "upheld b S H T" and t: "\<not> list_ex (\<lambda>x. tg_id x = tg_id t \<or> (tg_workspace x = tg_workspace t \<and> to_lower (tg_name x) = to_lower (tg_name t))) (wt_tags T)"
    "1 \<le> tg_color t" "tg_color t \<le> 6"
  shows "upheld b S H (T\<lparr>wt_tags := wt_tags T @ [t]\<rparr>)"
proof -
  have "tags_ok (wt_tags T @ [t])" using u t by (auto simp: upheld_defs tags_ok_def list_ex_iff)
  moreover have "tagged_ok (insert (tg_id t) (tg_id ` set (wt_tags T))) (wt_tagged T)" using u by (auto simp: upheld_defs tagged_ok_def)
  ultimately show ?thesis using u by (simp add: upheld_defs)
qed

lemma upheld_delete_tag:
  assumes u: "upheld b S H T" and t: "t \<in> set (wt_tags T)" "tg_workspace t = w"
  shows "upheld b S H (T\<lparr>wt_tags := delete_where (\<lambda>x. tg_workspace x = w \<and> tg_id x = tg_id t) (wt_tags T),
    wt_tagged := (\<lambda>j. delete_where (\<lambda>(e, g). g = tg_id t) (wt_tagged T j))\<rparr>)"
proof -
  have "tagged_ok (tg_id ` set (delete_where (\<lambda>x. tg_workspace x = w \<and> tg_id x = tg_id t) (wt_tags T)))
      (\<lambda>j. delete_where (\<lambda>(e, g). g = tg_id t) (wt_tagged T j))"
    using u by (fastforce simp: upheld_defs tagged_ok_def subset_iff image_iff)
  moreover have "tags_ok (delete_where (\<lambda>x. tg_workspace x = w \<and> tg_id x = tg_id t) (wt_tags T))"
    using u by (simp add: upheld_defs tags_ok_def)
  ultimately show ?thesis using u by (simp add: upheld_defs)
qed

lemma upheld_tagged:
  assumes "upheld b S H T" "distinct rows" "snd ` set rows \<subseteq> tg_id ` set (wt_tags T)"
  shows "upheld b S H (T\<lparr>wt_tagged := (wt_tagged T)(j := rows)\<rparr>)"
  using assms by (simp add: upheld_defs tagged_ok_def)

text \<open>Legal holds.\<close>

lemma upheld_new_hold:
  assumes "upheld b S H T" "lh_id h \<notin> lh_id ` set (wt_holds T)" "lh_category h \<in> set hold_categories" "lh_reason h \<noteq> ''''" "length (lh_reason h) \<le> 500"
  shows "upheld b S H (T\<lparr>wt_holds := wt_holds T @ [h]\<rparr>)"
  using assms by (auto simp: upheld_defs holds_ok_def)

lemma upheld_holds:
  assumes "upheld b S H T" "\<And>h. lh_id (f h) = lh_id h \<and> lh_category (f h) = lh_category h \<and> lh_reason (f h) = lh_reason h"
  shows "upheld b S H (T\<lparr>wt_holds := update_where P f (wt_holds T)\<rparr>)"
proof -
  have "holds_ok (update_where P f (wt_holds T))"
    using assms by (simp add: upheld_defs holds_ok_def map_update_where ball_update_where)
  then show ?thesis using assms by (simp add: upheld_defs)
qed

section \<open>Every operation\<close>

lemma keeps_ws_audit: "tx_keeps (\<lambda>d. wd_tables d = T) (record_ws_audit rq k e)"
  unfolding record_ws_audit_def record_tx_def Let_def on_tables_def
  by (intro keeps_if keeps_bind keeps_fail keeps_sql_checked; (auto simp: tx_keeps_def tx_on_def sql_def split: if_splits)?)

lemma keeps_ws_event: "tx_keeps (\<lambda>d. wd_tables d = T) (append_ws_event rq k ev)"
  unfolding append_ws_event_def by (intro keeps_bind keeps_ret keeps_append_frame) simp_all

lemma wp_ws_audit [wps]: "Q () T \<Longrightarrow> (\<And>e. E e T) \<Longrightarrow> wp wd_tables (record_ws_audit rq k a) Q E T"
  by (rule wp_beside [OF keeps_ws_audit]) auto

lemma wp_ws_event [wps]: "Q () T \<Longrightarrow> (\<And>e. E e T) \<Longrightarrow> wp wd_tables (append_ws_event rq k ev) Q E T"
  by (rule wp_beside [OF keeps_ws_event]) auto

lemma wp_tables [wps]: "wp (\<lambda>T. T) m Q E T \<Longrightarrow> wp wd_tables (on_tables m) Q E T"
  unfolding on_tables_def by (intro wps) auto

abbreviation safe_op :: "bool \<Rightarrow> (string \<times> string) set \<Rightarrow> marks \<Rightarrow> workspace_tables \<Rightarrow> ('x, 'a) wtx \<Rightarrow> bool" where
  "safe_op b S H T m \<equiv> wp wd_tables m (\<lambda>_. upheld b S H) (\<lambda>_. upheld b S H) T"

lemma trim_space_idem [simp]: "trim_space (trim_space s) = trim_space s"
proof -
  let ?d = "dropWhile is_space"
  have d: "?d (rev (?d (rev xs))) = rev (?d (rev xs))" if "?d xs = xs" for xs
  proof (cases "rev (?d (rev xs))")
    case (Cons y ys)
    have "rev xs = takeWhile is_space (rev xs) @ ?d (rev xs)" by simp
    then have "xs = rev (?d (rev xs)) @ rev (takeWhile is_space (rev xs))" by (metis rev_append rev_rev_ident)
    then have "xs \<noteq> []" "hd xs = y" using Cons by (metis append_Cons list.distinct(1), metis append_Cons list.sel(1))
    then have "\<not> is_space y" using that hd_dropWhile [of is_space xs] by simp
    then show ?thesis using Cons by simp
  qed (simp only: dropWhile.simps)
  have "?d (rev (?d (rev (?d s)))) = rev (?d (rev (?d s)))" by (rule d) simp
  then show ?thesis by (simp add: trim_space_def)
qed

lemma role_exists_resolves: "role_exists w k T \<Longrightarrow> resolves w (trim_space k) (wt_roles T)"
  by (auto simp: role_exists_def resolves_def list_ex_iff)

lemma wp_validate_role [wps]:
  "(\<And>e. E e T) \<Longrightarrow> (trim_space role \<noteq> ''owner'' \<Longrightarrow> resolves w (trim_space role) (wt_roles T) \<Longrightarrow> Q () T)
     \<Longrightarrow> wp (\<lambda>T. T) (validate_assignable_role w role) Q E T"
  unfolding validate_assignable_role_def by (intro wps) (auto dest: role_exists_resolves)

lemma wp_put_members [wps]:
  "(\<And>e. E e T) \<Longrightarrow> (members_valid (f T) \<Longrightarrow> Q () (T\<lparr>wt_members := f T\<rparr>)) \<Longrightarrow> wp (\<lambda>T. T) (put_members f) Q E T"
  unfolding put_members_def by (intro wps) (auto split: if_splits)

lemma wp_insert_member [wps]:
  "(\<And>e. E e T) \<Longrightarrow> (wm_workspace r \<in> ws_id ` set (wt_workspaces T) \<Longrightarrow> wm_user r \<in> us_id ` set (wt_users T) \<Longrightarrow> members_valid (wt_members T @ [r])
     \<Longrightarrow> Q () (T\<lparr>wt_members := wt_members T @ [r]\<rparr>)) \<Longrightarrow> wp (\<lambda>T. T) (insert_member_row r) Q E T"
  unfolding insert_member_row_def by (intro wps) (auto split: if_splits)

lemma wp_lock_member [wps]:
  "(\<And>e. E e T) \<Longrightarrow> (\<And>r. r \<in> set (wt_members T) \<Longrightarrow> wm_workspace r = w \<Longrightarrow> wm_id r = m \<Longrightarrow> Q r T) \<Longrightarrow> wp (\<lambda>T. T) (lock_member w m) Q E T"
  unfolding lock_member_def by (intro wps) (auto simp: find_Some_iff in_set_conv_nth)

lemma one_member:
  "upheld b S H T \<Longrightarrow> r \<in> set (wt_members T) \<Longrightarrow> x \<in> set (wt_members T) \<Longrightarrow> wm_id x = wm_id r \<Longrightarrow> x = r"
  by (auto simp: upheld_defs members_ok_def members_valid_def intro: key_unique [of wm_id])

lemma upheld_one_member:
  assumes u: "upheld b S H T" and r: "r \<in> set (wt_members T)" "wm_id r = m"
    and v: "members_valid (update_where (\<lambda>x. wm_id x = m) f (wt_members T))"
    and f: "\<And>r. wm_id (f r) = wm_id r \<and> wm_workspace (f r) = wm_workspace r \<and> wm_user (f r) = wm_user r"
    and role: "resolves (wm_workspace r) (wm_role (f r)) (wt_roles T)"
    and owner: "wm_role r = ''owner'' \<Longrightarrow> wm_deactivated r = None \<Longrightarrow> wm_role (f r) = ''owner'' \<and> wm_deactivated (f r) = None"
  shows "upheld b S H (T\<lparr>wt_members := update_where (\<lambda>x. wm_id x = m) f (wt_members T)\<rparr>)"
proof (rule upheld_members [OF u v f])
  fix x assume "x \<in> set (wt_members T)" "wm_id x = m"
  then have x: "x = r" using one_member [OF u r(1)] r(2) by simp
  show "resolves (wm_workspace x) (wm_role (f x)) (wt_roles T)" using x role by simp
  assume "wm_role x = ''owner''" "wm_deactivated x = None"
  then show "wm_role (f x) = ''owner'' \<and> wm_deactivated (f x) = None" using x owner by simp
qed

lemma set_member_role_safe:
  assumes u: "upheld b S H T"
  shows "safe_op b S H T (set_member_role rq w act m role)"
  unfolding set_member_role_def validate_assignable_role_tx_def update_member_role_def
  by (intro wps; (rule u)?; (rule upheld_one_member [OF u], assumption, assumption, assumption; simp))

lemma set_extra_capabilities_safe:
  assumes u: "upheld b S H T"
  shows "safe_op b S H T (set_extra_capabilities rq w act m caps)"
  unfolding set_extra_capabilities_def update_extra_capabilities_def
  by (intro wps; (rule u)?; (rule upheld_one_member [OF u], assumption, assumption, assumption; (simp; fail | simp, metis resolves_members [OF u])))

lemma remove_member_safe: "upheld b S H T \<Longrightarrow> safe_op b S H T (remove_member rq w act m)"
  unfolding remove_member_def delete_member_def
  by (intro wps) (auto intro: upheld_without_member)

lemma update_own_safe:
  assumes "upheld b S H T" "\<And>r. wm_id (f r) = wm_id r \<and> wm_workspace (f r) = wm_workspace r \<and> wm_user (f r) = wm_user r \<and> wm_role (f r) = wm_role r \<and>
      wm_external (f r) = wm_external r \<and> wm_deactivated (f r) = wm_deactivated r"
  shows "safe_op b S H T (on_tables (update_own w u f))"
  unfolding update_own_def
proof (intro wps)
  have fl: "filter Q (update_where P f ms) = update_where P f (filter Q ms)" if "\<And>r. Q (f r) = Q r" for Q P ms
    using that by (induction ms) auto
  have "members_valid (update_where P f (wt_members T))" for P
    using assms by (simp add: upheld_defs members_ok_def members_valid_def map_update_where fl list_all_iff ball_update_where)
  then show "upheld b S H (T\<lparr>wt_members := update_where (\<lambda>r. wm_workspace r = w \<and> wm_user r = u) f (wt_members T)\<rparr>)"
    using assms by (intro upheld_members) (auto intro: resolves_members)
qed (use assms(1) in simp_all)

lemma set_own_safe:
  assumes "upheld b S H T"
  shows "safe_op b S H T (set_own_presence rq w u p)" "safe_op b S H T (set_own_accepting_conversations w u c)"
  unfolding set_own_presence_def set_own_accepting_conversations_def
  by (intro wp_if wp_fail update_own_safe assms; simp)+

end
