(* ===== verification/WorkspaceOps.thy ===== *)
theory WorkspaceOps
  imports WorkspaceSafety
begin

text \<open>
  Every operation on roles, invitations, accounts, teams, tags, legal holds and settings keeps the
  invariant of theory WorkspaceSafety.
\<close>

section \<open>Roles\<close>

lemma wp_role_by_id [wps]: "(\<And>e. E e T) \<Longrightarrow> (\<And>r. Q r T) \<Longrightarrow> wp (\<lambda>T. T) (role_by_id w i) Q E T"
  unfolding role_by_id_def by (intro wps)

lemma wp_lock_role [wps]:
  "(\<And>e. E e T) \<Longrightarrow> (\<And>r. r \<in> set (wt_roles T) \<Longrightarrow> ro_workspace r = Some w \<Longrightarrow> ro_id r = i \<Longrightarrow> Q r T) \<Longrightarrow> wp (\<lambda>T. T) (lock_role w i) Q E T"
  unfolding lock_role_def by (intro wps) (auto simp: find_Some_iff in_set_conv_nth)

lemma replace_permissions_keeps:
  assumes "upheld b S H T"
  shows "wp (\<lambda>T. T) (replace_role_permissions i caps) (\<lambda>_. upheld b S H) (\<lambda>_ _. True) T"
  unfolding replace_role_permissions_def insert_permission_def
proof (rule wp_bind, rule wp_exec_part, rule wp_each, rule wp_checked_part)
  show "upheld b S H (T\<lparr>wt_permissions := delete_where (\<lambda>(r, c). r = i) (wt_permissions T)\<rparr>)"
    using assms by (intro upheld_permissions) (auto simp: upheld_defs permissions_ok_def)
  fix c T1 x T2
  assume "upheld b S H T1" and "(if (i, c) \<in> set (wt_permissions T1) \<or> i \<notin> ro_id ` set (wt_roles T1) then None
      else Some ((), T1\<lparr>wt_permissions := wt_permissions T1 @ [(i, c)]\<rparr>)) = Some (x, T2)"
  moreover from this have "permissions_ok (ro_id ` set (wt_roles T1)) (wt_permissions T1 @ [(i, c)])"
    by (simp add: upheld_defs permissions_ok_def split: if_splits)
  ultimately show "upheld b S H T2" by (auto split: if_splits intro: upheld_permissions)
qed simp_all

lemma wp_replace_permissions:
  assumes "upheld b S H T" "\<And>e T'. E e T'" "\<And>T'. upheld b S H T' \<Longrightarrow> Q () T'"
  shows "wp (\<lambda>T. T) (replace_role_permissions i caps) Q E T"
  by (rule wp_mono [OF replace_permissions_keeps [OF assms(1)]]) (use assms(2,3) in auto)

lemma wp_insert_role [wps]:
  assumes "\<And>e. E e T" "ro_id r \<notin> ro_id ` set (wt_roles T) \<Longrightarrow>
     \<not> list_ex (\<lambda>x. ro_workspace x = ro_workspace r \<and> ro_workspace r \<noteq> None \<and> ro_key x = ro_key r) (wt_roles T) \<Longrightarrow>
     Q () (T\<lparr>wt_roles := wt_roles T @ [r]\<rparr>)"
  shows "wp (\<lambda>T. T) (insert_role r) Q E T"
  unfolding insert_role_def by (intro wps) (auto split: if_splits simp: list_ex_iff assms(1) intro!: assms(2))

lemma normalize_role_input_key: "normalize_role_input key name caps = Inr (k, n, cs) \<Longrightarrow> \<not> valid_role k"
  by (auto simp: normalize_role_input_def Let_def split: if_splits sum.splits)

lemma create_role_safe:
  assumes u: "upheld b S H T"
  shows "safe_op b S H T (create_role rq w act key name desc caps)"
  unfolding create_role_def
  by (intro wps wp_replace_permissions [where b = b and S = S and H = H])
    (auto simp: list_ex_iff image_iff dest: normalize_role_input_key intro: u intro!: upheld_new_role [OF u, where w = w])

lemma update_role_safe:
  assumes u: "upheld b S H T"
  shows "safe_op b S H T (update_role rq w act i name desc caps)"
  unfolding update_role_def rename_role_def
  by (intro wps wp_replace_permissions [where b = b and S = S and H = H]) (auto intro: u upheld_roles [OF u])

lemma delete_role_safe:
  assumes u: "upheld b S H T"
  shows "safe_op b S H T (delete_role rq w act i)"
  unfolding delete_role_def
  by (intro wps) (use upheld_without_role [OF u] u in auto)

section \<open>Invitations\<close>

lemma issue_invite_safe:
  assumes u: "upheld b S H T" and h: "sha token \<notin> fst H"
  shows "safe_op b S H T (issue_invite sha rq w act email role token)"
  unfolding issue_invite_def insert_invite_def invite_by_id_def
  by (intro wps) (use h in \<open>auto split: if_splits intro: u upheld_new_invite [OF u]\<close>)

lemma revoke_invite_safe: "upheld b S H T \<Longrightarrow> safe_op b S H T (revoke_invite rq w act i)"
  unfolding revoke_invite_def by (intro wps) (auto intro: upheld_delete_invite)

lemma pending_by_hash_Some:
  "pending_by_hash h T = Some v \<Longrightarrow> v \<in> set (wt_invites T) \<and> iv_hash v = h \<and> iv_accepted v = None"
  by (auto simp: pending_by_hash_def find_Some_iff)

lemma pending_resolves:
  "upheld b S H T \<Longrightarrow> pending_by_hash h T = Some v \<Longrightarrow> resolves (iv_workspace v) (iv_role v) (wt_roles T)"
  by (auto simp: upheld_defs invites_resolve_def dest: pending_by_hash_Some)

lemma new_member_simps [simp]:
  "wm_id (new_member now i w u role p) = i" "wm_workspace (new_member now i w u role p) = w" "wm_user (new_member now i w u role p) = u"
  "wm_role (new_member now i w u role p) = role" "wm_deactivated (new_member now i w u role p) = None"
  by (simp_all add: new_member_def)

lemma upheld_joined:
  assumes u: "upheld b S H T" and v: "pending_by_hash h T = Some v" "members_valid (wt_members T @ [new_member now i (iv_workspace v) m (iv_role v) p])"
    and fk: "iv_workspace v \<in> ws_id ` set (wt_workspaces T)" "m \<in> us_id ` set (wt_users T)"
  shows "upheld b S H (T\<lparr>wt_members := wt_members T @ [new_member now i (iv_workspace v) m (iv_role v) p],
    wt_invites := update_where P (\<lambda>i. i\<lparr>iv_accepted := Some t\<rparr>) (wt_invites T)\<rparr>)"
  using upheld_accept_invite [OF upheld_new_member [OF u v(2)], of P t] fk pending_resolves [OF u v(1)] by simp

lemma accept_invite_keeps:
  assumes u: "upheld b S H T"
  shows "wp (\<lambda>T. T) (accept_invite rq h m email) (\<lambda>_. upheld b S H) (\<lambda>_ _. True) T"
  unfolding accept_invite_def
  by (intro wps) (simp_all add: upheld_joined [OF u] del: image_iff)

lemma wp_accept_invite:
  assumes "upheld b S H T" "\<And>e T'. E e T'" "\<And>v T'. upheld b S H T' \<Longrightarrow> Q v T'"
  shows "wp (\<lambda>T. T) (accept_invite rq h m email) Q E T"
  by (rule wp_mono [OF accept_invite_keeps [OF assms(1)]]) (use assms(2,3) in auto)

lemma redeem_invite_safe:
  assumes u: "upheld b S H T"
  shows "safe_op b S H T (redeem_invite sha rq token m email)"
  unfolding redeem_invite_def workspace_by_id_def
  by (intro wps wp_accept_invite [where b = b and S = S and H = H]) (auto intro: u)

section \<open>The service\<close>

lemma wp_workspace_by_id [wps]: "(\<And>e. E e T) \<Longrightarrow> (\<And>r. Q r T) \<Longrightarrow> wp (\<lambda>T. T) (workspace_by_id w) Q E T"
  unfolding workspace_by_id_def by (intro wps)

lemma inboxes_ok_append:
  "inboxes_ok xs \<Longrightarrow> \<not> list_ex (\<lambda>y. ix_id y = ix_id x \<or> (ix_workspace y = ix_workspace x \<and> (P y \<or> ix_default y))) xs \<Longrightarrow>
     ix_visibility x = ''workspace'' \<Longrightarrow> inboxes_ok (xs @ [x])"
  by (auto simp: inboxes_ok_def list_ex_iff)

lemma bootstrap_workspace_safe:
  assumes u: "upheld b S H T"
  shows "safe_op b S H T (bootstrap_workspace rq m name slug)"
proof -
  have i: "inboxes_ok (wt_inboxes T)" using u by (simp add: upheld_defs)
  show ?thesis
    unfolding bootstrap_workspace_def insert_workspace_def insert_default_inbox_def
    by (intro wps) (use u in \<open>auto simp: list_ex_iff intro!: upheld_new_workspace [OF u] inboxes_ok_append [OF i]\<close>)
qed

lemma allocate_ticket_number_safe:
  assumes "upheld b S H T"
  shows "safe_op b S H T (on_tables (allocate_ticket_number w))"
  unfolding allocate_ticket_number_def
  by (intro wps) (use assms in \<open>auto split: option.splits if_splits intro: upheld_workspace_rows\<close>)

section \<open>Provisioning\<close>

lemma scim_account_keeps:
  assumes u: "upheld b S H T"
  shows "wp (\<lambda>T. T) (scim_account rq email name) (\<lambda>a T'. upheld b S H T' \<and> a \<in> set (wt_users T') \<and> wt_roles T' = wt_roles T) (\<lambda>_ _. True) T"
  unfolding scim_account_def
  by (intro wps) (use u in \<open>auto simp: find_Some_iff list_ex_iff same_email_def new_account_def intro!: upheld_new_user [OF u]\<close>)

lemma wp_scim_account:
  assumes "upheld b S H T" "\<And>e T'. E e T'"
    "\<And>a T'. upheld b S H T' \<Longrightarrow> a \<in> set (wt_users T') \<Longrightarrow> wt_roles T' = wt_roles T \<Longrightarrow> Q a T'"
  shows "wp (\<lambda>T. T) (scim_account rq email name) Q E T"
  by (rule wp_mono [OF scim_account_keeps [OF assms(1)]]) (use assms(2,3) in auto)

lemma upheld_new_scim_member:
  assumes "upheld b S H T" "members_valid (wt_members T @ [m])" "wm_workspace m \<in> ws_id ` set (wt_workspaces T)"
    "wm_user m \<in> us_id ` set (wt_users T)" "resolves (wm_workspace m) (wm_role m) (wt_roles T)"
  shows "upheld b S H (T\<lparr>wt_members := wt_members T @ [m]\<rparr>) \<and> resolves (wm_workspace m) (wm_role m) (wt_roles T)"
  using assms upheld_new_member by blast

lemma scim_member_keeps:
  assumes u: "upheld b S H T" and r: "resolves w role (wt_roles T)"
  shows "wp (\<lambda>T. T) (scim_member rq w x email name role active)
    (\<lambda>(m, e, created) T'. upheld b S H T' \<and> resolves w role (wt_roles T') \<and> m \<in> set (wt_members T') \<and> wm_workspace m = w) (\<lambda>_ _. True) T"
  unfolding scim_member_def
  by (intro wps wp_scim_account [where b = b and S = S and H = H])
    (use u r in \<open>auto simp: find_Some_iff intro!: upheld_new_member split: option.splits\<close>)

lemma scim_reconcile_keeps:
  assumes u: "upheld b S H T" and r: "resolves w role (wt_roles T)" and m: "m \<in> set (wt_members T)" "wm_workspace m = w"
    and given: "b \<Longrightarrow> role_given = ''''"
  shows "wp (\<lambda>T. T) (scim_reconcile rq w x name role_given role active m) (\<lambda>_. upheld b S H) (\<lambda>_ _. True) T"
  unfolding scim_reconcile_def
proof (intro wps TrueI)
  let ?T = "T\<lparr>wt_users := update_where (\<lambda>u. us_id u = wm_user m) (\<lambda>u. u\<lparr>us_name := name, us_updated := rq_now rq\<rparr>) (wt_users T)\<rparr>"
  let ?f = "\<lambda>y. y\<lparr>wm_role := if role_given \<noteq> [] then role else wm_role m, wm_external := Some x, wm_deactivated := inactive_at (rq_now rq) active\<rparr>"
  assume a: "\<not> (wm_role m = ''owner'' \<and> \<not> active)"
    and v: "members_valid (update_where (\<lambda>y. wm_workspace y = w \<and> wm_id y = wm_id m) ?f (wt_members ?T))"
  have u': "upheld b S H ?T" by (rule upheld_users [OF u]) simp
  show "upheld b S H (?T\<lparr>wt_members := update_where (\<lambda>y. wm_workspace y = w \<and> wm_id y = wm_id m) ?f (wt_members ?T)\<rparr>)"
  proof (rule upheld_members [OF u' v])
    fix y assume y: "y \<in> set (wt_members ?T)" "wm_workspace y = w \<and> wm_id y = wm_id m"
    then have y: "y = m" using one_member [OF u m(1)] by simp
    show "resolves (wm_workspace y) (wm_role (?f y)) (wt_roles ?T)" using y r m(2) resolves_members [OF u m(1)] by simp
    assume "b" "wm_role y = ''owner''"
    then show "wm_role (?f y) = ''owner'' \<and> wm_deactivated (?f y) = None" using a given y by (simp add: inactive_at_def)
  qed simp
qed

lemma wp_scim_member:
  assumes "upheld b S H T" "resolves w role (wt_roles T)" "\<And>e T'. E e T'"
    "\<And>m e created T'. upheld b S H T' \<Longrightarrow> resolves w role (wt_roles T') \<Longrightarrow> m \<in> set (wt_members T') \<Longrightarrow> wm_workspace m = w \<Longrightarrow> Q (m, e, created) T'"
  shows "wp (\<lambda>T. T) (scim_member rq w x email name role active) Q E T"
  by (rule wp_mono [OF scim_member_keeps [OF assms(1,2)]]) (use assms(3,4) in auto)

lemma wp_scim_reconcile:
  assumes "upheld b S H T" "resolves w role (wt_roles T)" "m \<in> set (wt_members T)" "wm_workspace m = w" "b \<Longrightarrow> role_given = ''''"
    "\<And>e T'. E e T'" "\<And>a T'. upheld b S H T' \<Longrightarrow> Q a T'"
  shows "wp (\<lambda>T. T) (scim_reconcile rq w x name role_given role active m) Q E T"
  by (rule wp_mono [OF scim_reconcile_keeps [OF assms(1-5)]]) (use assms(6,7) in auto)

lemma agent_resolves: "upheld b S H T \<Longrightarrow> resolves w ''agent'' (wt_roles T)"
  by (auto simp: upheld_defs roles_ok_def builtin_roles_def resolves_def role_visible_def)

lemma provision_scim_user_safe:
  assumes u: "upheld b S H T" and given: "b \<Longrightarrow> sp_role inp = ''''"
  shows "safe_op b S H T (provision_scim_user parse rq w act inp)"
  unfolding provision_scim_user_def scim_body_def find_scim_user_by_external_id_def get_scim_user_def
  by (intro wps wp_scim_member [where b = b and S = S and H = H] wp_scim_reconcile [where b = b and S = S and H = H])
    (use u given in \<open>auto intro: agent_resolves\<close>)

section \<open>Administration\<close>

text \<open>Teams.\<close>

lemma wp_team_by_id [wps]: "(\<And>e. E e T) \<Longrightarrow> (\<And>r. Q r T) \<Longrightarrow> wp (\<lambda>T. T) (team_by_id w i) Q E T"
  unfolding team_by_id_def by (intro wps)

lemma upheld_add_team_member:
  assumes u: "upheld b S H T" and m: "t \<in> te_id ` set (wt_teams T)" "m \<in> wm_id ` set (wt_members T)" "(t, m) \<notin> set (wt_team_members T)"
  shows "upheld b S H (T\<lparr>wt_team_members := wt_team_members T @ [(t, m)]\<rparr>)"
  by (rule upheld_team_members [OF u]) (use u m in \<open>simp add: upheld_defs team_members_ok_def\<close>)

lemma wp_insert_team_members:
  assumes "upheld b S H T" "\<And>e T'. E e T'" "\<And>T'. upheld b S H T' \<Longrightarrow> Q () T'"
  shows "wp (\<lambda>T. T) (tx_each (insert_team_member t) ms) Q E T"
proof (rule wp_mono [OF wp_each [where I = "upheld b S H" and E = "\<lambda>_ _. True"]])
  fix m T' assume "upheld b S H T'"
  then show "wp (\<lambda>T. T) (insert_team_member t m) (\<lambda>_. upheld b S H) (\<lambda>_ _. True) T'"
    unfolding insert_team_member_def
    by (intro wps) (auto split: if_splits simp del: image_iff intro: upheld_add_team_member)
qed (use assms in auto)

lemma wp_insert_team [wps]:
  assumes "\<And>e. E e T" "te_id t \<notin> te_id ` set (wt_teams T) \<Longrightarrow> \<not> team_name_taken (te_id t) (te_workspace t) (te_name t) T \<Longrightarrow>
    \<not> bad_lead (te_lead t) T \<Longrightarrow> Q () (T\<lparr>wt_teams := wt_teams T @ [t]\<rparr>)"
  shows "wp (\<lambda>T. T) (insert_team t) Q E T"
  unfolding insert_team_def by (intro wps) (auto split: if_splits simp del: image_iff simp: assms(1) intro!: assms(2))

lemma create_team_safe:
  assumes u: "upheld b S H T"
  shows "safe_op b S H T (create_team_with_routing rq w act name desc lead strategy ms config)"
    "safe_op b S H T (create_team rq w act name desc lead strategy ms)"
  unfolding create_team_def create_team_with_routing_def
  by (intro wps wp_insert_team_members [where b = b and S = S and H = H]; use u in \<open>auto intro!: upheld_new_team [OF u]\<close>)+

lemma update_team_safe:
  assumes u: "upheld b S H T"
  shows "safe_op b S H T (update_team_with_routing rq w act i name desc lead strategy config)"
  unfolding update_team_with_routing_def update_team_row_def
  by (intro wps) (use u in \<open>auto split: if_splits intro: upheld_update_team [OF u, where name = "trim_space name" and lead = lead]\<close>)

lemma delete_team_safe: "upheld b S H T \<Longrightarrow> safe_op b S H T (delete_team rq w act i)"
  unfolding delete_team_def by (intro wps) (auto intro: upheld_without_team)

lemma team_member_safe:
  assumes u: "upheld b S H T"
  shows "safe_op b S H T (add_team_member w t m)" "safe_op b S H T (remove_team_member w t m)"
proof -
  have t: "t \<in> te_id ` set (wt_teams T)" if "team_exists w t T"
    using that by (auto simp: team_exists_def list_ex_iff)
  have d: "upheld b S H (T\<lparr>wt_team_members := delete_where P (wt_team_members T)\<rparr>)" for P
    by (rule upheld_team_members [OF u]) (use u in \<open>auto simp: upheld_defs team_members_ok_def\<close>)
  show "safe_op b S H T (add_team_member w t m)"
    unfolding add_team_member_def
    by (intro wps) (use u t in \<open>auto split: if_splits simp del: image_iff intro: upheld_add_team_member\<close>)
  show "safe_op b S H T (remove_team_member w t m)"
    unfolding remove_team_member_def
    by (intro wps wp_sql_part) (use u d in \<open>auto split: if_splits\<close>)
qed

text \<open>Tags: after the merge every row of the junctions still names a tag.\<close>

lemma find_tag: "find (\<lambda>t. tg_workspace t = w \<and> tg_id t = i) ts = Some t \<Longrightarrow> t \<in> set ts \<and> tg_workspace t = w \<and> tg_id t = i"
  by (auto simp: find_Some_iff)

lemma wp_lock_tag [wps]:
  "(\<And>e. E e T) \<Longrightarrow> (\<And>t. t \<in> set (wt_tags T) \<Longrightarrow> tg_workspace t = w \<Longrightarrow> tg_id t = i \<Longrightarrow> Q t T) \<Longrightarrow> wp (\<lambda>T. T) (lock_tag w i) Q E T"
  unfolding lock_tag_def by (intro wps) (auto dest: find_tag)

lemma wp_delete_tag_row:
  assumes u: "upheld b S H T" and "\<And>e T'. E e T'" "\<And>t T'. upheld b S H T' \<Longrightarrow> Q t T'"
  shows "wp (\<lambda>T. T) (delete_tag_row w i) Q E T"
  unfolding delete_tag_row_def
proof (intro wps)
  fix t T'
  assume "(case find (\<lambda>t. tg_workspace t = w \<and> tg_id t = i) (wt_tags T) of None \<Rightarrow> (Inl (Err WsTagNotFound), T)
    | Some t \<Rightarrow> (Inr t, T\<lparr>wt_tags := delete_where (\<lambda>t. tg_workspace t = w \<and> tg_id t = i) (wt_tags T),
       wt_tagged := (\<lambda>j. delete_where (\<lambda>(e, g). g = i) (wt_tagged T j))\<rparr>)) = (Inr t, T')"
  then have t: "find (\<lambda>t. tg_workspace t = w \<and> tg_id t = i) (wt_tags T) = Some t"
    and T': "T' = T\<lparr>wt_tags := delete_where (\<lambda>t. tg_workspace t = w \<and> tg_id t = i) (wt_tags T),
       wt_tagged := (\<lambda>j. delete_where (\<lambda>(e, g). g = i) (wt_tagged T j))\<rparr>" by (auto split: option.splits)
  from find_tag [OF t] upheld_delete_tag [OF u, of t w] assms(3) T' show "Q t T'" by simp
qed (rule assms)+

lemma retag_ok:
  assumes "distinct rows" "snd ` set rows \<subseteq> A" "target \<in> A"
  shows "snd ` set (retag source target rows) \<subseteq> A" "snd ` set (drop_doubles source target rows) \<subseteq> A" "distinct (drop_doubles source target rows)"
proof -
  show "snd ` set (retag source target rows) \<subseteq> A"
  proof
    fix y assume "y \<in> snd ` set (retag source target rows)"
    then obtain r where r: "r \<in> set rows" "y = snd (if (case r of (e, g) \<Rightarrow> g = source) then (case r of (e, g) \<Rightarrow> (e, target)) else r)"
      by (auto simp only: retag_def set_update_where)
    have "snd r \<in> A" using r(1) assms(2) by auto
    then show "y \<in> A" using r(2) assms(3) by (cases r) (simp split: if_splits)
  qed
qed (use assms in \<open>auto simp: drop_doubles_def\<close>)

lemma reassign_keeps:
  assumes u: "upheld b S H T" and t: "target \<in> tg_id ` set (wt_tags T)"
  shows "wp (\<lambda>T. T) (reassign_tag_usage source target j)
    (\<lambda>_ T'. upheld b S H T' \<and> target \<in> tg_id ` set (wt_tags T')) (\<lambda>_ _. True) T"
proof -
  have j: "distinct (wt_tagged T j)" "snd ` set (wt_tagged T j) \<subseteq> tg_id ` set (wt_tags T)"
    using u by (auto simp: upheld_defs tagged_ok_def)
  let ?rows = "drop_doubles source target (wt_tagged T j)"
  have d: "upheld b S H (T\<lparr>wt_tagged := (wt_tagged T)(j := ?rows)\<rparr>)"
    by (rule upheld_tagged [OF u]) (use retag_ok [OF j t] in auto)
  have r: "upheld b S H (T\<lparr>wt_tagged := (wt_tagged T)(j := retag source target ?rows)\<rparr>)" if "distinct (retag source target ?rows)"
    by (rule upheld_tagged [OF u that], rule retag_ok(1) [OF _ _ t]; rule retag_ok(2,3) [OF j t])
  show ?thesis
    unfolding reassign_tag_usage_def Let_def by (intro wps) (use d r t in \<open>auto split: if_splits\<close>)
qed

lemma wp_reassign_all:
  assumes "upheld b S H T" "target \<in> tg_id ` set (wt_tags T)" "\<And>e T'. E e T'" "\<And>T'. upheld b S H T' \<Longrightarrow> Q () T'"
  shows "wp (\<lambda>T. T) (tx_each (reassign_tag_usage source target) js) Q E T"
proof (rule wp_mono [OF wp_each [where I = "\<lambda>T. upheld b S H T \<and> target \<in> tg_id ` set (wt_tags T)" and E = "\<lambda>_ _. True"]])
  fix j T' assume "upheld b S H T' \<and> target \<in> tg_id ` set (wt_tags T')"
  then show "wp (\<lambda>T. T) (reassign_tag_usage source target j)
    (\<lambda>_ T'. upheld b S H T' \<and> target \<in> tg_id ` set (wt_tags T')) (\<lambda>_ _. True) T'" by (intro reassign_keeps) auto
qed (use assms in auto)

lemma wp_insert_tag [wps]:
  assumes "\<And>e. E e T" "\<not> list_ex (\<lambda>x. tg_id x = tg_id t \<or> (tg_workspace x = tg_workspace t \<and> to_lower (tg_name x) = to_lower (tg_name t))) (wt_tags T)
    \<Longrightarrow> Q () (T\<lparr>wt_tags := wt_tags T @ [t]\<rparr>)"
  shows "wp (\<lambda>T. T) (insert_tag t) Q E T"
  unfolding insert_tag_def by (intro wps) (auto split: if_splits simp del: image_iff simp: assms(1) intro!: assms(2))

lemma create_tag_safe:
  assumes u: "upheld b S H T"
  shows "safe_op b S H T (create_tag rq w act name color)"
  unfolding create_tag_def Let_def
  by (intro wps) (use u in \<open>auto intro!: upheld_new_tag [OF u] simp: list_ex_iff\<close>)

lemma delete_tag_safe:
  assumes u: "upheld b S H T"
  shows "safe_op b S H T (delete_tag rq w act i)"
  unfolding delete_tag_def
  by (intro wps wp_delete_tag_row [where b = b and S = S and H = H]) (use u in auto)

lemma merge_tags_safe:
  assumes u: "upheld b S H T"
  shows "safe_op b S H T (merge_tags rq w act source target)"
  unfolding merge_tags_def
  by (intro wps wp_reassign_all [where b = b and S = S and H = H] wp_delete_tag_row [where b = b and S = S and H = H])
    (use u in auto)

text \<open>Legal holds.\<close>

lemma wp_legal_hold_by_id [wps]: "(\<And>e. E e T) \<Longrightarrow> (\<And>r. Q r T) \<Longrightarrow> wp (\<lambda>T. T) (legal_hold_by_id w i) Q E T"
  unfolding legal_hold_by_id_def by (intro wps)

lemma create_legal_hold_safe:
  assumes u: "upheld b S H T"
  shows "safe_op b S H T (create_legal_hold rq w act category reason)"
  unfolding create_legal_hold_def insert_hold_def
  by (intro wps) (use u in \<open>auto simp: validate_legal_hold_def simp del: image_iff intro!: upheld_new_hold [OF u]\<close>)

lemma release_legal_hold_safe:
  assumes u: "upheld b S H T"
  shows "safe_op b S H T (release_legal_hold rq w act i)"
  unfolding release_legal_hold_def
  by (intro wps) (use u in \<open>auto split: if_splits intro: upheld_holds [OF u]\<close>)

text \<open>Settings.\<close>

lemma wp_update_workspace:
  assumes "upheld b S H T" "\<And>r. ws_id (f r) = ws_id r \<and> ws_sequence r \<le> ws_sequence (f r)" "\<And>e T'. E e T'" "\<And>T'. upheld b S H T' \<Longrightarrow> Q () T'"
  shows "wp (\<lambda>T. T) (update_workspace w f) Q E T"
  unfolding update_workspace_def by (intro wps) (use assms upheld_workspace_rows in auto)

lemma wp_get_settings [wps]: "(\<And>e. E e T) \<Longrightarrow> (\<And>r. Q r T) \<Longrightarrow> wp (\<lambda>T. T) (get_settings w) Q E T"
  unfolding get_settings_def by (intro wps)

lemma wp_merge_settings:
  assumes "upheld b S H T" "\<And>e T'. E e T'" "\<And>T'. upheld b S H T' \<Longrightarrow> Q () T'"
  shows "wp (\<lambda>T. T) (merge_settings now w f) Q E T"
  unfolding merge_settings_def by (intro wps) (use assms in \<open>auto intro!: assms(3) upheld_workspace_rows\<close>)

lemma settings_safe:
  assumes u: "upheld b S H T"
  shows "safe_op b S H T (update_general rq w act name prefix tz language)"
    "safe_op b S H T (update_branding rq w act logo icon branding)"
    "safe_op b S H T (update_security_settings rq w act security)"
    "safe_op b S H T (update_privacy_settings rq w act ip days others)"
  unfolding update_general_def update_branding_def update_security_settings_def update_privacy_settings_def
  by (intro wps wp_update_workspace [where b = b and S = S and H = H] wp_merge_settings [where b = b and S = S and H = H]; use u in auto)+

end
