(* ===== verification/WorkspaceFacts.thy ===== *)
theory WorkspaceFacts
  imports WorkspaceOps
begin

text \<open>
  Runs of workspace operations, in any order and with any statements failing, and what they keep:
  the constraints of the tables, the owners, the spent invitations and the numbers given out; who
  an actor is and which inboxes it sees; and what a merge of tags does to the tagged entities.
\<close>

section \<open>Runs\<close>

datatype ws_call =
    SetMemberRole request string string string string
  | SetExtraCapabilities request string string string "string list"
  | RemoveMember request string string string
  | SetOwnPresence request string string string
  | SetOwnAcceptingConversations string string bool
  | CreateRole request string string string string "string option" "string list"
  | UpdateRole request string string string string "string option" "string list option"
  | DeleteRole request string string string
  | IssueInvite request string string string string string
  | RevokeInvite request string string string
  | RedeemInvite request string string string
  | BootstrapWorkspace request string string string
  | AllocateTicketNumber string
  | ProvisionSCIMUser request string string scim_input
  | CreateTeam request string string string "string option" "string option" string "string list" "(string \<times> json) list option"
  | UpdateTeam request string string string string "string option" "string option" string "(string \<times> json) list option"
  | DeleteTeam request string string string
  | AddTeamMember string string string
  | RemoveTeamMember string string string
  | CreateTag request string string string int
  | DeleteTag request string string string
  | MergeTags request string string string string
  | CreateLegalHold request string string string string
  | ReleaseLegalHold request string string string
  | UpdateGeneral request string string string string string string
  | UpdateBranding request string string "string option" "string option" json
  | UpdateSecuritySettings request string string json
  | UpdatePrivacySettings request string string string "(string \<times> int) list" "(string \<times> json) list"

fun ws_serve :: "(string \<Rightarrow> string) \<Rightarrow> (string \<Rightarrow> string option) \<Rightarrow> ws_call \<Rightarrow> ('x, unit) wtx" where
  "ws_serve sha parse (SetMemberRole rq w act m role) = set_member_role rq w act m role"
| "ws_serve sha parse (SetExtraCapabilities rq w act m caps) = set_extra_capabilities rq w act m caps"
| "ws_serve sha parse (RemoveMember rq w act m) = remove_member rq w act m"
| "ws_serve sha parse (SetOwnPresence rq w u p) = set_own_presence rq w u p"
| "ws_serve sha parse (SetOwnAcceptingConversations w u b) = set_own_accepting_conversations w u b"
| "ws_serve sha parse (CreateRole rq w act key name desc caps) = tx_seq (create_role rq w act key name desc caps) (tx_ret ())"
| "ws_serve sha parse (UpdateRole rq w act i name desc caps) = tx_seq (update_role rq w act i name desc caps) (tx_ret ())"
| "ws_serve sha parse (DeleteRole rq w act i) = delete_role rq w act i"
| "ws_serve sha parse (IssueInvite rq w act email role token) = tx_seq (issue_invite sha rq w act email role token) (tx_ret ())"
| "ws_serve sha parse (RevokeInvite rq w act i) = revoke_invite rq w act i"
| "ws_serve sha parse (RedeemInvite rq token u email) = tx_seq (redeem_invite sha rq token u email) (tx_ret ())"
| "ws_serve sha parse (BootstrapWorkspace rq u name slug) = tx_seq (bootstrap_workspace rq u name slug) (tx_ret ())"
| "ws_serve sha parse (AllocateTicketNumber w) = tx_seq (on_tables (allocate_ticket_number w)) (tx_ret ())"
| "ws_serve sha parse (ProvisionSCIMUser rq w act inp) = tx_seq (provision_scim_user parse rq w act inp) (tx_ret ())"
| "ws_serve sha parse (CreateTeam rq w act name desc lead s ms cf) = tx_seq (create_team_with_routing rq w act name desc lead s ms cf) (tx_ret ())"
| "ws_serve sha parse (UpdateTeam rq w act i name desc lead s cf) = tx_seq (update_team_with_routing rq w act i name desc lead s cf) (tx_ret ())"
| "ws_serve sha parse (DeleteTeam rq w act i) = delete_team rq w act i"
| "ws_serve sha parse (AddTeamMember w t m) = add_team_member w t m"
| "ws_serve sha parse (RemoveTeamMember w t m) = remove_team_member w t m"
| "ws_serve sha parse (CreateTag rq w act name color) = tx_seq (create_tag rq w act name color) (tx_ret ())"
| "ws_serve sha parse (DeleteTag rq w act i) = delete_tag rq w act i"
| "ws_serve sha parse (MergeTags rq w act source target) = merge_tags rq w act source target"
| "ws_serve sha parse (CreateLegalHold rq w act cat reason) = tx_seq (create_legal_hold rq w act cat reason) (tx_ret ())"
| "ws_serve sha parse (ReleaseLegalHold rq w act i) = tx_seq (release_legal_hold rq w act i) (tx_ret ())"
| "ws_serve sha parse (UpdateGeneral rq w act name prefix tz lang) = tx_seq (update_general rq w act name prefix tz lang) (tx_ret ())"
| "ws_serve sha parse (UpdateBranding rq w act logo icon branding) = tx_seq (update_branding rq w act logo icon branding) (tx_ret ())"
| "ws_serve sha parse (UpdateSecuritySettings rq w act s) = tx_seq (update_security_settings rq w act s) (tx_ret ())"
| "ws_serve sha parse (UpdatePrivacySettings rq w act ip days others) = tx_seq (update_privacy_settings rq w act ip days others) (tx_ret ())"

text \<open>A run: the calls with the faults of their statements.\<close>

fun ws_run :: "(string \<Rightarrow> string) \<Rightarrow> (string \<Rightarrow> string option) \<Rightarrow> (ws_call \<times> bool list) list \<Rightarrow> 'x workspace_db_scheme \<Rightarrow> 'x workspace_db_scheme" where
  "ws_run sha parse [] d = d"
| "ws_run sha parse ((c, fs) # cs) d = ws_run sha parse cs (fst (snd (ws_serve sha parse c (d, fs))))"

text \<open>Calls that give no role through the directory, and calls that issue none of some tokens again.\<close>

fun keeps_roles :: "ws_call \<Rightarrow> bool" where
  "keeps_roles (ProvisionSCIMUser rq w act inp) \<longleftrightarrow> sp_role inp = ''''"
| "keeps_roles _ \<longleftrightarrow> True"

fun issues :: "(string \<Rightarrow> string) \<Rightarrow> ws_call \<Rightarrow> string set" where
  "issues sha (IssueInvite rq w act email role token) = {sha token}"
| "issues sha _ = {}"

definition mild :: "(string \<Rightarrow> string) \<Rightarrow> bool \<Rightarrow> marks \<Rightarrow> ws_call \<Rightarrow> bool" where
  "mild sha b H c \<longleftrightarrow> (b \<longrightarrow> keeps_roles c) \<and> issues sha c \<inter> fst H = {}"

lemmas all_safe = set_member_role_safe set_extra_capabilities_safe remove_member_safe set_own_safe create_role_safe update_role_safe
  delete_role_safe issue_invite_safe revoke_invite_safe redeem_invite_safe bootstrap_workspace_safe allocate_ticket_number_safe
  provision_scim_user_safe create_team_safe update_team_safe delete_team_safe team_member_safe create_tag_safe delete_tag_safe
  merge_tags_safe create_legal_hold_safe release_legal_hold_safe settings_safe

lemma safe_done:
  assumes "safe_op b S H T m"
  shows "safe_op b S H T (tx_seq m (tx_ret ()))"
  by (rule wp_bind, rule wp_mono [OF assms]) (auto intro: wp_ret)

lemma serve_safe: "upheld b S H T \<Longrightarrow> mild sha b H c \<Longrightarrow> safe_op b S H T (ws_serve sha parse c)"
  by (cases c) (simp_all add: mild_def safe_done all_safe)

lemma run_upheld:
  "upheld b S H (wd_tables d) \<Longrightarrow> list_all (\<lambda>(c, fs). mild sha b H c) cs \<Longrightarrow> upheld b S H (wd_tables (ws_run sha parse cs d))"
proof (induction sha parse cs d rule: ws_run.induct)
  case (2 sha parse c fs cs d)
  have "upheld b S H (wd_tables (fst (snd (ws_serve sha parse c (d, fs)))))"
    by (rule wp_result [OF serve_safe]) (use 2 in auto)
  with 2 show ?case by simp
qed simp

lemma upheld_from: "upheld False {} ({}, {}) T = ws_inv T"
  by (simp add: upheld_def owned_def counted_def)

end
