(* ===== verification/WorkspaceAccess.thy ===== *)
theory WorkspaceAccess
  imports WorkspaceFacts
begin

text \<open>
  The properties of the workspace service: its tables stay consistent, owners stay, members always
  have an actor, an actor sees exactly its inboxes, an invitation admits one account, a merge of
  tags loses nothing and no ticket number is given out twice.
\<close>

section \<open>An actor\<close>

lemma find_only:
  assumes "x \<in> set xs" "P x" "\<And>y. y \<in> set xs \<Longrightarrow> P y \<Longrightarrow> y = x"
  shows "find P xs = Some x"
proof (cases "find P xs")
  case None
  then show ?thesis using assms(1,2) by (auto simp: find_None_iff)
next
  case (Some y)
  then have "y \<in> set xs" "P y" by (auto simp: find_Some_iff)
  then show ?thesis using assms(3) Some by blast
qed

lemma role_for_resolves:
  assumes "resolves w k (wt_roles T)"
  shows "\<exists>r. role_for w k T = Some r"
proof (cases "filter (\<lambda>r. ro_key r = k \<and> ro_workspace r = Some w) (wt_roles T)")
  case Nil
  then obtain r where "r \<in> set (wt_roles T)" "ro_key r = k \<and> ro_workspace r = None \<and> ro_builtin r"
    using assms by (auto simp: resolves_def role_visible_def filter_empty_conv)
  then have "find (\<lambda>r. ro_key r = k \<and> ro_workspace r = None \<and> ro_builtin r) (wt_roles T) \<noteq> None"
    by (auto simp: find_None_iff)
  then show ?thesis using Nil by (auto simp: role_for_def)
qed (simp add: role_for_def)

text \<open>The actor of a membership, as the last read of \<open>actor_for_user\<close> finds it.\<close>

definition base_actor :: "string \<Rightarrow> string \<Rightarrow> member_row \<Rightarrow> string list \<Rightarrow> actor" where
  "base_actor w u m caps = \<lparr> ac_user = u, ac_member = wm_id m, ac_workspace = w, ac_role = wm_role m,
     ac_capabilities = caps @ wm_extra m, ac_inboxes = None \<rparr>"

definition actor_of :: "workspace_tables \<Rightarrow> string \<Rightarrow> string \<Rightarrow> member_row \<Rightarrow> string list \<Rightarrow> actor" where
  "actor_of T w u m caps = (if can (Some (base_actor w u m caps)) ''workspace.manage'' then base_actor w u m caps
     else (base_actor w u m caps)\<lparr>ac_inboxes := allowed_inboxes w (wm_id m) T\<rparr>)"

lemma actor_of_simps [simp]:
  "ac_member (actor_of T w u m caps) = wm_id m" "ac_role (actor_of T w u m caps) = wm_role m" "ac_user (actor_of T w u m caps) = u"
  "ac_workspace (actor_of T w u m caps) = w" "ac_capabilities (actor_of T w u m caps) = caps @ wm_extra m"
  "can (Some (actor_of T w u m caps)) c = can (Some (base_actor w u m caps)) c"
  by (simp_all add: actor_of_def base_actor_def can_def)

lemma wp_actor_of:
  assumes "Q (actor_of T w u m caps) T" "E Fault T"
  shows "wp (\<lambda>T. T) (let a = base_actor w u m caps in if can (Some a) ''workspace.manage'' then tx_ret a
    else tx_bind (sql_read (allowed_inboxes w (wm_id m))) (\<lambda>l. tx_ret (a\<lparr>ac_inboxes := l\<rparr>))) Q E T"
  by (intro wps) (use assms in \<open>simp_all add: actor_of_def\<close>)

lemma find_holds: "find P xs = Some x \<Longrightarrow> x \<in> set xs \<and> P x"
  by (auto simp: find_Some_iff)

definition member_actor :: "workspace_tables \<Rightarrow> string \<Rightarrow> string \<Rightarrow> actor \<Rightarrow> bool" where
  "member_actor T w u a \<longleftrightarrow> (\<exists>m r. m \<in> set (wt_members T) \<and> wm_workspace m = w \<and> wm_user m = u \<and> wm_deactivated m = None \<and>
     role_for w (wm_role m) T = Some r \<and> a = actor_of T w u m (role_capabilities (ro_id r) T))"

lemma member_actorI:
  "find (\<lambda>m. wm_workspace m = w \<and> wm_user m = u \<and> wm_deactivated m = None) (wt_members T) = Some m \<Longrightarrow>
   map_option (\<lambda>r. role_capabilities (ro_id r) T) (role_for w (wm_role m) T) = Some caps \<Longrightarrow> member_actor T w u (actor_of T w u m caps)"
  unfolding member_actor_def by (blast dest: find_holds elim: option.map_sel [elim_format])

lemma wp_actor_for_user:
  "wp wd_tables (actor_for_user w u) (\<lambda>a T'. T' = T \<and> member_actor T w u a) (\<lambda>e T'. T' = T) T"
  unfolding actor_for_user_def member_for_user_def capabilities_for_role_def base_actor_def [symmetric]
  by (intro wp_tables wp_bind wp_require wp_actor_of conjI refl member_actorI)

lemma actor_sees:
  assumes T: "ws_inv T" and i: "i \<in> set (wt_inboxes T)" "ix_workspace i = w"
  shows "can_see_inbox (Some (actor_of T w u m caps)) (ix_id i) \<longleftrightarrow>
    can (Some (base_actor w u m caps)) ''workspace.manage'' \<or> ix_visibility i = ''workspace'' \<or> on_team_of (wm_id m) i T"
proof -
  have vis: "ix_visibility i = ''workspace'' \<or> ix_visibility i = ''teams''"
    using T i by (auto simp: ws_inv_def inboxes_ok_def)
  have one: "x = i" if "x \<in> set (wt_inboxes T)" "ix_id x = ix_id i" for x
    using T i(1) that key_unique [of ix_id "wt_inboxes T" x i] by (simp add: ws_inv_def inboxes_ok_def)
  have seen: "ix_id i \<in> set (visible_inboxes w (wm_id m) T) \<longleftrightarrow> ix_visibility i = ''workspace'' \<or> on_team_of (wm_id m) i T"
  proof
    assume "ix_id i \<in> set (visible_inboxes w (wm_id m) T)"
    then obtain x where x: "x \<in> set (wt_inboxes T)" "ix_id x = ix_id i" "ix_visibility x = ''workspace'' \<or> on_team_of (wm_id m) x T"
      unfolding visible_inboxes_def by auto
    show "ix_visibility i = ''workspace'' \<or> on_team_of (wm_id m) i T" using x(3) one [OF x(1,2)] by simp
  next
    assume "ix_visibility i = ''workspace'' \<or> on_team_of (wm_id m) i T"
    then show "ix_id i \<in> set (visible_inboxes w (wm_id m) T)" using i by (simp add: visible_inboxes_def)
  qed
  have r: "has_restricted w T" if "ix_visibility i \<noteq> ''workspace''"
    using that vis i by (auto simp: has_restricted_def list_ex_iff)
  have inboxes: "ac_inboxes (actor_of T w u m caps) = (if can (Some (base_actor w u m caps)) ''workspace.manage'' then None else allowed_inboxes w (wm_id m) T)"
    by (simp add: actor_of_def base_actor_def)
  have empty: "visible_inboxes w (wm_id m) T \<noteq> []" if "ix_visibility i = ''workspace''"
    using seen that by auto
  show ?thesis
  proof (cases "can (Some (base_actor w u m caps)) ''workspace.manage''")
    case False
    show ?thesis
    proof (cases "has_restricted w T")
      case True
      then have "allowed_inboxes w (wm_id m) T = Some (visible_inboxes w (wm_id m) T)" by (simp add: allowed_inboxes_def Let_def)
      then show ?thesis using False seen by (simp add: can_see_inbox_def inboxes)
    next
      case unrestricted: False
      with r have v: "ix_visibility i = ''workspace''" by blast
      with empty unrestricted have "allowed_inboxes w (wm_id m) T = None" by (simp add: allowed_inboxes_def Let_def)
      then show ?thesis using False v by (simp add: can_see_inbox_def inboxes)
    qed
  qed (simp add: can_see_inbox_def inboxes)
qed

lemma actor_total:
  assumes u: "ws_inv T" and m: "m \<in> set (wt_members T)" "wm_deactivated m = None"
  shows "find (\<lambda>x. wm_workspace x = wm_workspace m \<and> wm_user x = wm_user m \<and> wm_deactivated x = None) (wt_members T) = Some m \<and>
    (\<exists>r. role_for (wm_workspace m) (wm_role m) T = Some r)"
proof
  show "find (\<lambda>x. wm_workspace x = wm_workspace m \<and> wm_user x = wm_user m \<and> wm_deactivated x = None) (wt_members T) = Some m"
  proof (rule find_only)
    fix y assume y: "y \<in> set (wt_members T)" "wm_workspace y = wm_workspace m \<and> wm_user y = wm_user m \<and> wm_deactivated y = None"
    have "distinct (map (\<lambda>m. (wm_workspace m, wm_user m)) (wt_members T))"
      using u by (simp add: ws_inv_def members_ok_def members_valid_def)
    from key_unique [OF this y(1) m(1)] y(2) show "y = m" by simp
  qed (use m in auto)
  show "\<exists>r. role_for (wm_workspace m) (wm_role m) T = Some r"
    by (rule role_for_resolves) (use u m in \<open>simp add: ws_inv_def members_resolve_def\<close>)
qed

lemma actor_answers:
  assumes "ws_inv (wd_tables d)" "m \<in> set (wt_members (wd_tables d))" "wm_deactivated m = None"
  shows "\<exists>a. actor_for_user (wm_workspace m) (wm_user m) (d, []) = (Inr a, d, []) \<and> ac_member a = wm_id m \<and> ac_role a = wm_role m"
proof -
  from actor_total [OF assms] obtain r where r: "role_for (wm_workspace m) (wm_role m) (wd_tables d) = Some r"
    "find (\<lambda>x. wm_workspace x = wm_workspace m \<and> wm_user x = wm_user m \<and> wm_deactivated x = None) (wt_members (wd_tables d)) = Some m" by blast
  show ?thesis
    unfolding actor_for_user_def member_for_user_def capabilities_for_role_def require_def answered_def on_tables_def
    by (simp add: tx_on_def tx_bind_no_fault tx_ret_def r Let_def)
qed

section \<open>What an invitation, a counter and a merge do\<close>

definition invite_fits :: "workspace_tables \<Rightarrow> int \<Rightarrow> string \<Rightarrow> string \<Rightarrow> invite \<Rightarrow> bool" where
  "invite_fits T now h email v \<longleftrightarrow> pending_by_hash h T = Some v \<and> now \<le> iv_expires v \<and> same_email (iv_email v) email"

lemma wp_redeem_exact:
  "wp wd_tables (redeem_invite sha rq token u email)
    (\<lambda>_ T'. \<exists>v. invite_fits T (rq_now rq) (sha token) email v \<and>
       T' = T\<lparr>wt_members := wt_members T @ [new_member (rq_now rq) (rq_ids rq 0) (iv_workspace v) u (iv_role v) ''offline''],
         wt_invites := update_where (\<lambda>i. iv_id i = iv_id v) (\<lambda>i. i\<lparr>iv_accepted := Some (rq_now rq)\<rparr>) (wt_invites T)\<rparr>)
    (\<lambda>_ _. True) T"
  unfolding redeem_invite_def accept_invite_def Let_def
  by (intro wps) (auto simp: invite_fits_def simp del: image_iff)

lemma spent_not_pending: "spent (wt_invites T) h \<Longrightarrow> pending_by_hash h T = None"
  by (auto simp: spent_def pending_by_hash_def find_None_iff)

lemma redeem_spends:
  assumes T: "ws_inv T" and v: "pending_by_hash h T = Some v"
  shows "spent (update_where (\<lambda>i. iv_id i = iv_id v) (\<lambda>i. i\<lparr>iv_accepted := Some now\<rparr>) (wt_invites T)) h"
  unfolding spent_def ball_update_where
proof clarify
  fix i assume i: "i \<in> set (wt_invites T)"
  have "iv_id i = iv_id v" if "iv_hash i = h"
  proof -
    have "distinct (map iv_hash (wt_invites T))" using T by (simp add: ws_inv_def invites_ok_def)
    from key_unique [OF this i] pending_by_hash_Some [OF v] that have "i = v" by simp
    then show ?thesis by simp
  qed
  then show "(iv_id i = iv_id v \<longrightarrow> iv_hash (i\<lparr>iv_accepted := Some now\<rparr>) = h \<longrightarrow> iv_accepted (i\<lparr>iv_accepted := Some now\<rparr>) \<noteq> None) \<and>
    (iv_id i \<noteq> iv_id v \<longrightarrow> iv_hash i = h \<longrightarrow> iv_accepted i \<noteq> None)" by auto
qed

lemma spent_refused:
  assumes "spent (wt_invites (wd_tables d)) (sha token)"
  shows "redeem_invite sha rq token u email (d, fs) \<noteq> (Inr x, w)"
proof
  assume r: "redeem_invite sha rq token u email (d, fs) = (Inr x, w)"
  obtain d' fs' where w: "w = (d', fs')" by (cases w)
  from wpD(1) [OF wp_redeem_exact refl r [unfolded w]] spent_not_pending [OF assms] show False by (auto simp: invite_fits_def)
qed

text \<open>Numbers.\<close>

lemma wp_allocate_exact:
  "wp (\<lambda>T. T) (allocate_ticket_number w)
    (\<lambda>(p, n) T'. n < 2 ^ 63 \<and> (\<exists>r. lookup_key ws_id w (wt_workspaces T) = Some r \<and> p = ws_prefix r \<and> n = ws_sequence r + 1) \<and>
       T' = T\<lparr>wt_workspaces := update_where (\<lambda>x. ws_id x = w) (\<lambda>x. x\<lparr>ws_sequence := ws_sequence x + 1\<rparr>) (wt_workspaces T)\<rparr>)
    (\<lambda>_ _. True) T"
  unfolding allocate_ticket_number_def by (intro wps) (auto split: option.splits if_splits)

lemma allocated_counts:
  assumes "ws_inv T" "lookup_key ws_id w (wt_workspaces T) = Some r"
  shows "counted {(w, ws_sequence r + 1)} (update_where (\<lambda>x. ws_id x = w) (\<lambda>x. x\<lparr>ws_sequence := ws_sequence x + 1\<rparr>) (wt_workspaces T))"
proof -
  have r: "r \<in> set (wt_workspaces T)" "ws_id r = w" using lookup_key_Some [OF assms(2)] by auto
  have "r\<lparr>ws_sequence := ws_sequence r + 1\<rparr> \<in> set (update_where (\<lambda>x. ws_id x = w) (\<lambda>x. x\<lparr>ws_sequence := ws_sequence x + 1\<rparr>) (wt_workspaces T))"
    unfolding set_update_where by (intro CollectI bexI [of _ r]) (simp_all add: r)
  then show ?thesis using r(2) by (auto simp: counted_def intro!: bexI [of _ "r\<lparr>ws_sequence := ws_sequence r + 1\<rparr>"])
qed

lemma counted_below:
  assumes "ws_inv T" "counted {(w, n)} (wt_workspaces T)" "lookup_key ws_id w (wt_workspaces T) = Some r"
  shows "n \<le> ws_sequence r"
proof -
  from assms(2) obtain x where x: "x \<in> set (wt_workspaces T)" "ws_id x = w" "n \<le> ws_sequence x" by (auto simp: counted_def)
  have "distinct (map ws_id (wt_workspaces T))" using assms(1) by (simp add: ws_inv_def accounts_ok_def)
  from key_unique [OF this x(1)] lookup_key_Some [OF assms(3)] x(2) have "x = r" by simp
  with x(3) show ?thesis by simp
qed

text \<open>Tags.\<close>

lemma wp_each_exact:
  assumes "\<And>x T. wp v (g x) (\<lambda>_ T'. T' = h x T) (\<lambda>_ _. True) T"
  shows "wp v (tx_each g xs) (\<lambda>_ T'. T' = fold h xs T) (\<lambda>_ _. True) T"
proof (induction xs arbitrary: T)
  case (Cons x xs)
  have "wp v (g x) (\<lambda>_. wp v (tx_each g xs) (\<lambda>_ T'. T' = fold h (x # xs) T) (\<lambda>_ _. True)) (\<lambda>_ _. True) T"
    by (rule wp_mono [OF assms]) (use Cons in auto)
  then show ?case by (auto intro: wps)
qed (auto intro: wps)

definition moved_usage :: "string \<Rightarrow> string \<Rightarrow> string \<Rightarrow> workspace_tables \<Rightarrow> workspace_tables" where
  "moved_usage source target j T = T\<lparr>wt_tagged := (wt_tagged T)(j := retag source target (drop_doubles source target (wt_tagged T j)))\<rparr>"

lemma wp_reassign_exact:
  "wp (\<lambda>T. T) (reassign_tag_usage source target j) (\<lambda>_ T'. T' = moved_usage source target j T) (\<lambda>_ _. True) T"
  unfolding reassign_tag_usage_def Let_def by (intro wps) (auto simp: moved_usage_def split: if_splits)

lemma fold_moved_usage:
  "distinct js \<Longrightarrow> wt_tagged (fold (moved_usage source target) js T) j =
     (if j \<in> set js then retag source target (drop_doubles source target (wt_tagged T j)) else wt_tagged T j)"
  "wt_tags (fold (moved_usage source target) js T) = wt_tags T"
  by (induction js arbitrary: T) (auto simp: moved_usage_def)

lemma retag_mem:
  assumes st: "source \<noteq> target"
  shows "(e, g) \<in> set (retag source target (drop_doubles source target rows)) \<longleftrightarrow>
    (g \<noteq> source \<and> (e, g) \<in> set rows) \<or> (g = target \<and> (e, source) \<in> set rows)"
proof -
  have retag: "x \<in> set (retag source target xs) \<longleftrightarrow> (\<exists>r \<in> set xs. x = (if snd r = source then (fst r, target) else r))" for x xs
    by (simp add: retag_def set_update_where case_prod_beta)
  have kept: "r \<in> set (drop_doubles source target rows) \<longleftrightarrow> r \<in> set rows \<and> \<not> (snd r = source \<and> (fst r, target) \<in> set rows)" for r
    by (auto simp: drop_doubles_def)
  show ?thesis
  proof
    assume "(e, g) \<in> set (retag source target (drop_doubles source target rows))"
    then obtain r where r: "r \<in> set (drop_doubles source target rows)" "(e, g) = (if snd r = source then (fst r, target) else r)"
      unfolding retag by blast
    show "(g \<noteq> source \<and> (e, g) \<in> set rows) \<or> (g = target \<and> (e, source) \<in> set rows)"
      using r unfolding kept by (cases r) (auto split: if_splits)
  next
    assume a: "(g \<noteq> source \<and> (e, g) \<in> set rows) \<or> (g = target \<and> (e, source) \<in> set rows)"
    show "(e, g) \<in> set (retag source target (drop_doubles source target rows))"
    proof (cases "g \<noteq> source \<and> (e, g) \<in> set rows")
      case True
      then show ?thesis unfolding retag kept by (intro bexI [of _ "(e, g)"]) (simp_all add: kept)
    next
      case False
      then show ?thesis using a st unfolding retag by (intro bexI [of _ "(e, source)"]) (auto simp: kept)
    qed
  qed
qed

lemma wp_merge_exact:
  "wp wd_tables (merge_tags rq w act source target)
    (\<lambda>_ T'. source \<noteq> target \<and> wt_tags T' = delete_where (\<lambda>t. tg_workspace t = w \<and> tg_id t = source) (wt_tags T) \<and> wt_tagged T' =
       (\<lambda>j. delete_where (\<lambda>(e, g). g = source) (wt_tagged (fold (moved_usage source target) tag_junction_tables T) j)))
    (\<lambda>_ _. True) T"
  unfolding merge_tags_def delete_tag_row_def
  by (intro wps wp_mono [OF wp_each_exact [OF wp_reassign_exact]]) (auto split: option.splits simp: fold_moved_usage(2))

section \<open>Pages of invitations\<close>

text \<open>ListInvitesPage: pages of the invitations of a workspace, newest first.\<close>

definition invite_list :: "string \<Rightarrow> workspace_tables \<Rightarrow> invite list" where
  "invite_list w T = rev (sort_key invite_key (filter (\<lambda>v. iv_workspace v = w) (wt_invites T)))"

interpretation invite_pages: keyset ws_inv "invite_list w" invite_key "\<lambda>a b. b < a"
  "\<lambda>T b n. list_invites_page w b (int n) T" 201 for w
proof
  fix T :: workspace_tables and n :: nat and r
  assume "ws_inv T"
  then have "inj_on iv_id (set (wt_invites T))" "distinct (wt_invites T)"
    by (auto simp: ws_inv_def invites_ok_def distinct_map)
  then have "distinct (map invite_key (sort_key invite_key (filter (\<lambda>v. iv_workspace v = w) (wt_invites T))))"
    by (auto simp: distinct_map invite_key_def inj_on_def)
  then show "sorted_wrt (\<lambda>a b. invite_key b < invite_key a) (invite_list w T)"
    unfolding invite_list_def by (intro sorted_rev_strict) simp_all
  assume n: "0 < n" "n \<le> 201"
  then show "list_invites_page w None (int n) T = take n (invite_list w T)"
    by (simp add: list_invites_page_def invite_list_def page_limit_exact)
  show "list_invites_page w (Some (invite_key r)) (int n) T = take n (filter (\<lambda>q. invite_key q < invite_key r) (invite_list w T))"
    using n by (simp add: list_invites_page_def invite_list_def page_limit_exact flip: page_of_rest)
qed auto

text \<open>Reading page after page gives every invitation once, after any run.\<close>

lemma invites_read_completely:
  assumes "ws_inv (wd_tables d)" "T = wd_tables (ws_run sha parse cs d)" "length (invite_list w T) < m * n" "0 < n" "n \<le> 201"
  shows "invite_pages.read_pages w m T None n = invite_list w T"
proof -
  have "upheld False {} ({}, {}) T"
    unfolding assms(2) by (rule run_upheld) (use assms(1) in \<open>simp_all add: upheld_from mild_def list_all_iff case_prod_beta\<close>)
  then show ?thesis by (intro invite_pages.read_all) (simp_all add: upheld_from assms(3-5))
qed

section \<open>A workspace\<close>

definition demo_role :: "string \<Rightarrow> role_row" where
  "demo_role k = \<lparr> ro_id = ''rol_'' @ k, ro_workspace = None, ro_key = k, ro_name = k, ro_description = None, ro_builtin = True \<rparr>"

definition demo_request :: "string \<Rightarrow> request" where
  "demo_request s = \<lparr> rq_actor = None, rq_causation = '''', rq_now = 5, rq_ids = (\<lambda>n. s @ replicate n CHR ''.'') \<rparr>"

definition demo_inbox :: "string \<Rightarrow> bool \<Rightarrow> string \<Rightarrow> inbox_row" where
  "demo_inbox i b v = \<lparr> ix_id = i, ix_workspace = ''w'', ix_name = i, ix_slug = i, ix_channels = [], ix_default = b, ix_visibility = v \<rparr>"

definition demo_tables :: workspace_tables where
  "demo_tables = \<lparr> wt_workspaces = [\<lparr> ws_id = ''w'', ws_name = ''W'', ws_slug = ''www'', ws_language = ''en'', ws_timezone = ''UTC'',
       ws_prefix = ''SUP'', ws_sequence = 3, ws_logo = None, ws_icon = None, ws_settings = None, ws_created = 1, ws_updated = 1 \<rparr>],
     wt_users = [new_account ''u'' ''Ann'' ''ann@x'' None 1, new_account ''v'' ''Bob'' ''bob@x'' None 1],
     wt_members = [new_member 1 ''m'' ''w'' ''u'' ''owner'' ''online''], wt_roles = map demo_role builtin_roles,
     wt_permissions = [(''rol_agent'', ''conversation.read'')],
     wt_invites = [\<lparr> iv_id = ''i'', iv_workspace = ''w'', iv_email = ''bob@x'', iv_role = ''agent'', iv_hash = ''#tok'', iv_by = Some ''m'',
       iv_expires = 9, iv_accepted = None, iv_created = 2 \<rparr>],
     wt_teams = [], wt_team_members = [], wt_inboxes = [demo_inbox ''x'' True ''workspace'', demo_inbox ''y'' False ''teams''], wt_inbox_teams = [],
     wt_tags = [\<lparr> tg_id = ''s'', tg_workspace = ''w'', tg_name = ''old'', tg_color = 1 \<rparr>, \<lparr> tg_id = ''t'', tg_workspace = ''w'', tg_name = ''new'', tg_color = 2 \<rparr>],
     wt_tagged = (\<lambda>j. if j = ''conversation_tags'' then [(''c'', ''s''), (''c'', ''t''), (''d'', ''s'')] else []), wt_holds = [] \<rparr>"

definition demo_workspace :: workspace_db where
  "demo_workspace = \<lparr> db_seqs = (\<lambda>_. None), db_events = [], db_notify = [], au_rows = [], wd_tables = demo_tables \<rparr>"

definition demo_sha :: "string \<Rightarrow> string" where "demo_sha s = CHR ''#'' # s"

definition demo_redeem :: ws_call where "demo_redeem = RedeemInvite (demo_request ''n'') ''tok'' ''v'' ''Bob@X''"

definition demo_calls :: "(ws_call \<times> bool list) list" where
  "demo_calls = [(demo_redeem, []), (CreateRole (demo_request ''r'') ''w'' ''m'' ''lead'' ''Lead'' None [''report.read''], []),
     (SetMemberRole (demo_request ''e'') ''w'' ''m'' ''n'' ''lead'', []), (DeleteRole (demo_request ''f'') ''w'' ''m'' ''r'', []),
     (RemoveMember (demo_request ''g'') ''w'' ''n'' ''m'', []), (AllocateTicketNumber ''w'', [])]"

lemma demo_inv: "ws_inv demo_tables"
proof -
  have "tagged_ok (tg_id ` set (wt_tags demo_tables)) (wt_tagged demo_tables)" by (auto simp: tagged_ok_def demo_tables_def)
  moreover have "accounts_ok (wt_users demo_tables) (wt_workspaces demo_tables)" by code_simp
  moreover have "members_ok (ws_id ` set (wt_workspaces demo_tables)) (us_id ` set (wt_users demo_tables)) (wt_members demo_tables)" by code_simp
  moreover have "roles_ok (wt_roles demo_tables)" "permissions_ok (ro_id ` set (wt_roles demo_tables)) (wt_permissions demo_tables)" by code_simp+
  moreover have "members_resolve (wt_roles demo_tables) (wt_members demo_tables)" "invites_resolve (wt_roles demo_tables) (wt_invites demo_tables)"
    by code_simp+
  moreover have "invites_ok (wt_invites demo_tables)" by code_simp
  moreover have "teams_ok (wm_id ` set (wt_members demo_tables)) (wt_teams demo_tables)" by (simp add: teams_ok_def demo_tables_def)
  moreover have "team_members_ok (te_id ` set (wt_teams demo_tables)) (wm_id ` set (wt_members demo_tables)) (wt_team_members demo_tables)" by code_simp
  moreover have "inboxes_ok (wt_inboxes demo_tables)" "inbox_teams_ok (te_id ` set (wt_teams demo_tables)) (wt_inbox_teams demo_tables)" by code_simp+
  moreover have "tags_ok (wt_tags demo_tables)" "holds_ok (wt_holds demo_tables)" by code_simp+
  ultimately show ?thesis by (simp add: ws_inv_def)
qed

lemma demo_sel [simp]: "wd_tables demo_workspace = demo_tables"
  by (simp add: demo_workspace_def)

lemma run_gives: "(case r of (Inr a, d, []) \<Rightarrow> P a d | _ \<Rightarrow> False) \<Longrightarrow> \<exists>a d. r = (Inr a, d, []) \<and> P a d"
  by (cases r rule: prod_cases3) (auto split: sum.splits list.splits)

lemma demo_redeemed: "\<exists>x d'. redeem_invite demo_sha (demo_request ''n'') ''tok'' ''v'' ''Bob@X'' (demo_workspace, []) = (Inr x, d', [])"
proof -
  have "(case redeem_invite demo_sha (demo_request ''n'') ''tok'' ''v'' ''Bob@X'' (demo_workspace, []) of (Inr x, d', []) \<Rightarrow> True | _ \<Rightarrow> False)" by code_simp
  then show ?thesis by (auto split: prod.splits sum.splits list.splits)
qed

definition demo_joined :: workspace_db where
  "demo_joined = ws_run demo_sha Some [(demo_redeem, [])] demo_workspace"

lemma demo_joined_inv: "ws_inv (wd_tables demo_joined)"
  using run_upheld [of False "{}" "({}, {})" demo_workspace demo_sha "[(demo_redeem, [])]" Some] demo_inv
  by (simp add: upheld_from demo_joined_def mild_def)

section \<open>Limits\<close>

text \<open>
  The directory can take the owner's role: ProvisionSCIMUser with a role does not ask whether the
  member it reconciles is the owner, and the workspace is left without one.
\<close>

definition demo_directory :: "string \<Rightarrow> ws_call" where
  "demo_directory role = ProvisionSCIMUser (demo_request ''s'') ''w'' ''k''
     \<lparr> sp_external = ''ext'', sp_user_name = ''ann@x'', sp_display_name = ''Ann'', sp_active = None, sp_role = role \<rparr>"

lemma directory_demotes_owner: "wt_members (wd_tables (ws_run demo_sha Some [(demo_directory ''agent'', [])] demo_workspace)) =
    [(new_member 1 ''m'' ''w'' ''u'' ''agent'' ''online'')\<lparr>wm_external := Some ''ext''\<rparr>]"
  by code_simp

lemma directory_keeps_owner: "wt_members (wd_tables (ws_run demo_sha Some [(demo_directory '''', [])] demo_workspace)) =
    [(new_member 1 ''m'' ''w'' ''u'' ''owner'' ''online'')\<lparr>wm_external := Some ''ext''\<rparr>]"
  by code_simp

text \<open>An invitation that was accepted still takes the place of a new one for a member removed since.\<close>

lemma spent_invite_blocks_next:
  "fst (issue_invite demo_sha (demo_request ''j'') ''w'' ''m'' ''bob@x'' ''agent'' ''fresh''
     (ws_run demo_sha Some [(demo_redeem, []), (RemoveMember (demo_request ''g'') ''w'' ''m'' ''n'', [])] demo_workspace, [])) = Inl (Err ErrInviteExists)"
  by code_simp

section \<open>The properties\<close>



text \<open>
  C13: owners stay.  When every workspace has an active owner and the directory gives no roles, every
  run leaves the owners that were there and an active owner in every workspace, new ones included.
\<close>

theorem owner_stays:
  assumes "ws_inv (wd_tables d)" "ws_id ` set (wt_workspaces (wd_tables d)) \<subseteq> fst ` owners (wt_members (wd_tables d))"
    and "list_all (\<lambda>(c, fs). keeps_roles c) cs"
  shows "owners (wt_members (wd_tables d)) \<subseteq> owners (wt_members (wd_tables (ws_run sha parse cs d))) \<and>
    ws_id ` set (wt_workspaces (wd_tables (ws_run sha parse cs d))) \<subseteq> fst ` owners (wt_members (wd_tables (ws_run sha parse cs d)))"
proof -
  have "upheld True (owners (wt_members (wd_tables d))) ({}, {}) (wd_tables d)"
    using assms(1,2) by (simp add: upheld_def owned_def counted_def)
  then have "upheld True (owners (wt_members (wd_tables d))) ({}, {}) (wd_tables (ws_run sha parse cs d))"
    by (rule run_upheld) (use assms(3) in \<open>simp add: mild_def\<close>)
  then show ?thesis by (simp add: upheld_def owned_def)
qed

theorem owner_stays_witness: "(''w'', ''m'') \<in> owners (wt_members (wd_tables (ws_run demo_sha Some demo_calls demo_workspace)))"
proof -
  have "owners (wt_members demo_tables) = {(''w'', ''m'')}" "ws_id ` set (wt_workspaces demo_tables) = {''w''}"
    by (auto simp: owners_def demo_tables_def)
  then show ?thesis
    using owner_stays [of demo_workspace demo_calls demo_sha Some] demo_inv by (simp add: demo_calls_def demo_redeem_def)
qed



text \<open>
  C15: an actor is an active membership of the caller in the workspace, with the capabilities of the
  role and the extra ones of the member; and of the inboxes of the workspace it sees exactly those
  it may manage the workspace for, those open to the workspace, and those of a team it is on.
\<close>

theorem actor_sees_exactly:
  assumes "ws_inv (wd_tables d)" "actor_for_user w u (d, fs) = (Inr a, d', fs')"
  shows "wd_tables d' = wd_tables d \<and>
    (\<exists>m r. m \<in> set (wt_members (wd_tables d)) \<and> wm_workspace m = w \<and> wm_user m = u \<and> wm_deactivated m = None \<and>
       ac_member a = wm_id m \<and> ac_role a = wm_role m \<and> role_for w (wm_role m) (wd_tables d) = Some r \<and>
       ac_capabilities a = role_capabilities (ro_id r) (wd_tables d) @ wm_extra m) \<and>
    list_all (\<lambda>i. ix_workspace i \<noteq> w \<or> (can_see_inbox (Some a) (ix_id i) \<longleftrightarrow>
       can (Some a) ''workspace.manage'' \<or> ix_visibility i = ''workspace'' \<or> on_team_of (ac_member a) i (wd_tables d))) (wt_inboxes (wd_tables d))"
proof -
  from wpD(1) [OF wp_actor_for_user refl assms(2)]
  obtain m r where m: "wd_tables d' = wd_tables d" "m \<in> set (wt_members (wd_tables d))" "wm_workspace m = w" "wm_user m = u" "wm_deactivated m = None"
    "role_for w (wm_role m) (wd_tables d) = Some r" "a = actor_of (wd_tables d) w u m (role_capabilities (ro_id r) (wd_tables d))"
    unfolding member_actor_def by blast
  then show ?thesis using actor_sees [OF assms(1)] by (auto simp: list_all_iff)
qed

theorem actor_sees_exactly_witness:
  "\<exists>a d'. actor_for_user ''w'' ''v'' (demo_joined, []) = (Inr a, d', []) \<and> ac_role a = ''agent'' \<and> \<not> can_see_inbox (Some a) ''y'' \<and>
     list_all (\<lambda>i. ix_workspace i \<noteq> ''w'' \<or> (can_see_inbox (Some a) (ix_id i) \<longleftrightarrow>
       can (Some a) ''workspace.manage'' \<or> ix_visibility i = ''workspace'' \<or> on_team_of (ac_member a) i (wd_tables demo_joined))) (wt_inboxes (wd_tables demo_joined))"
proof -
  have "(case actor_for_user ''w'' ''v'' (demo_joined, []) of
     (Inr a, d', []) \<Rightarrow> ac_role a = ''agent'' \<and> \<not> can_see_inbox (Some a) ''y'' | _ \<Rightarrow> False)" by code_simp
  from run_gives [OF this] obtain a d' where a: "actor_for_user ''w'' ''v'' (demo_joined, []) = (Inr a, d', [])" "ac_role a = ''agent''" "\<not> can_see_inbox (Some a) ''y''"
    by blast
  from actor_sees_exactly [OF demo_joined_inv a(1)] a show ?thesis by blast
qed

text \<open>
  C14: an invitation admits once.  A redemption that succeeds is the redemption of an open, unexpired
  invitation for the caller's own address; it adds exactly one member, with the invited role and
  never as an owner; and however the service goes on, as long as the random token is not issued
  again no later redemption with that token succeeds.
\<close>

theorem invite_admits_once:
  assumes "ws_inv (wd_tables d)" "redeem_invite sha rq token u email (d, fs) = (Inr x, d', fs')"
    and "list_all (\<lambda>(c, fs). sha token \<notin> issues sha c) cs"
  shows "\<exists>v. v \<in> set (wt_invites (wd_tables d)) \<and> iv_hash v = sha token \<and> iv_accepted v = None \<and> rq_now rq \<le> iv_expires v \<and>
      same_email (iv_email v) email \<and> iv_role v \<noteq> ''owner'' \<and>
      wt_members (wd_tables d') = wt_members (wd_tables d) @ [new_member (rq_now rq) (rq_ids rq 0) (iv_workspace v) u (iv_role v) ''offline''] \<and>
      redeem_invite sha rq2 token u2 email2 (ws_run sha parse cs d', fs2) \<noteq> (Inr y, z)"
proof -
  from wpD(1) [OF wp_redeem_exact refl assms(2)] obtain v where v: "invite_fits (wd_tables d) (rq_now rq) (sha token) email v"
    and d': "wd_tables d' = (wd_tables d)\<lparr>wt_members := wt_members (wd_tables d) @ [new_member (rq_now rq) (rq_ids rq 0) (iv_workspace v) u (iv_role v) ''offline''],
      wt_invites := update_where (\<lambda>i. iv_id i = iv_id v) (\<lambda>i. i\<lparr>iv_accepted := Some (rq_now rq)\<rparr>) (wt_invites (wd_tables d))\<rparr>" by blast
  have h: "pending_by_hash (sha token) (wd_tables d) = Some v" using v by (simp add: invite_fits_def)
  have "ws_inv (wd_tables d')"
    using wpD(1) [OF redeem_invite_safe refl assms(2), of False "{}" "({}, {})"] assms(1) by (simp add: upheld_from)
  then have "upheld False {} ({sha token}, {}) (wd_tables d')"
    using redeem_spends [OF assms(1) h] by (simp add: upheld_def owned_def counted_def d')
  then have "upheld False {} ({sha token}, {}) (wd_tables (ws_run sha parse cs d'))"
    by (rule run_upheld) (use assms(3) in \<open>auto simp: mild_def list_all_iff\<close>)
  then have "redeem_invite sha rq2 token u2 email2 (ws_run sha parse cs d', fs2) \<noteq> (Inr y, z)"
    by (intro spent_refused) (simp add: upheld_def)
  moreover have "iv_role v \<noteq> ''owner''" using assms(1) pending_by_hash_Some [OF h] by (simp add: ws_inv_def invites_resolve_def)
  ultimately show ?thesis using v pending_by_hash_Some [OF h] by (intro exI [of _ v]) (simp add: d' invite_fits_def)
qed

theorem invite_admits_once_witness:
  "\<exists>x d' e z. redeem_invite demo_sha (demo_request ''n'') ''tok'' ''v'' ''Bob@X'' (demo_workspace, []) = (Inr x, d', []) \<and>
     redeem_invite demo_sha (demo_request ''k'') ''tok'' ''v'' ''bob@x'' (ws_run demo_sha Some demo_calls d', []) = (Inl e, z)"
proof -
  from demo_redeemed obtain x d' where r: "redeem_invite demo_sha (demo_request ''n'') ''tok'' ''v'' ''Bob@X'' (demo_workspace, []) = (Inr x, d', [])" by blast
  have c: "list_all (\<lambda>(c, fs). demo_sha ''tok'' \<notin> issues demo_sha c) demo_calls" by (simp add: demo_calls_def demo_redeem_def)
  have "ws_inv (wd_tables demo_workspace)" using demo_inv by simp
  from invite_admits_once [OF this r c]
  have "redeem_invite demo_sha (demo_request ''k'') ''tok'' ''v'' ''bob@x'' (ws_run demo_sha Some demo_calls d', []) \<noteq> (Inr y, z)" for y z by blast
  then obtain e z where "redeem_invite demo_sha (demo_request ''k'') ''tok'' ''v'' ''bob@x'' (ws_run demo_sha Some demo_calls d', []) = (Inl e, z)"
    by (metis sum.exhaust surj_pair)
  with r show ?thesis by blast
qed

text \<open>
  C17: a merge of tags loses nothing.  When it succeeds the source is gone, in every junction table an
  entity has a tag after the merge exactly when it had it before, or had the source and the tag is
  the target.
\<close>

theorem merge_loses_nothing:
  assumes "merge_tags rq w act source target (d, fs) = (Inr (), d', fs')" "j \<in> set tag_junction_tables"
  shows "wt_tags (wd_tables d') = delete_where (\<lambda>t. tg_workspace t = w \<and> tg_id t = source) (wt_tags (wd_tables d)) \<and>
    set (wt_tagged (wd_tables d') j) =
      {(e, g). (g \<noteq> source \<and> (e, g) \<in> set (wt_tagged (wd_tables d) j)) \<or> (g = target \<and> (e, source) \<in> set (wt_tagged (wd_tables d) j))}"
proof -
  have "distinct tag_junction_tables" by code_simp
  with wpD(1) [OF wp_merge_exact refl assms(1)] assms(2) have st: "source \<noteq> target"
    and d': "wt_tags (wd_tables d') = delete_where (\<lambda>t. tg_workspace t = w \<and> tg_id t = source) (wt_tags (wd_tables d))"
      "wt_tagged (wd_tables d') j = delete_where (\<lambda>(e, g). g = source) (retag source target (drop_doubles source target (wt_tagged (wd_tables d) j)))"
    by (simp_all add: fold_moved_usage)
  show ?thesis unfolding d' using st by (auto simp: delete_where_def retag_mem)
qed

theorem merge_loses_nothing_witness:
  "\<exists>d'. merge_tags (demo_request ''z'') ''w'' ''m'' ''s'' ''t'' (demo_workspace, []) = (Inr (), d', []) \<and>
     (''d'', ''t'') \<in> set (wt_tagged (wd_tables d') ''conversation_tags'')"
proof -
  have "(case merge_tags (demo_request ''z'') ''w'' ''m'' ''s'' ''t'' (demo_workspace, []) of (Inr x, d', []) \<Rightarrow> True | _ \<Rightarrow> False)" 
    by (simp add: merge_tags_def reassign_tag_usage_def on_tables_def tx_on_def answered_def require_def lock_tag_def delete_tag_row_def Let_def
      record_ws_audit_def record_tx_def ws_audit_def member_name_def tag_junction_tables_def tx_bind_no_fault tx_ret_def tx_fail_def with_tx_def
      drop_doubles_def retag_def delete_where_def demo_workspace_def demo_tables_def demo_request_def audit_actors_def faulty_def lookup_key_def or_empty_object_def)
  from run_gives [OF this] obtain d' where m: "merge_tags (demo_request ''z'') ''w'' ''m'' ''s'' ''t'' (demo_workspace, []) = (Inr (), d', [])" by auto
  have j: "''conversation_tags'' \<in> set tag_junction_tables" by code_simp
  have "(''d'', ''s'') \<in> set (wt_tagged (wd_tables demo_workspace) ''conversation_tags'')" by (simp add: demo_tables_def)
  with merge_loses_nothing [OF m j] have "(''d'', ''t'') \<in> set (wt_tagged (wd_tables d') ''conversation_tags'')" by blast
  with m show ?thesis by blast
qed

text \<open>
  C18: ticket numbers are unique: of two allocations for a workspace with any run between them the
  later one gets the larger number, and none leaves the range of a bigint.
\<close>

theorem ticket_numbers_increase:
  assumes "ws_inv (wd_tables d)" "on_tables (allocate_ticket_number w) (d, fs) = (Inr (p, n), d1, fs1)"
    and "on_tables (allocate_ticket_number w) (ws_run sha parse cs d1, fs2) = (Inr (q, k), d2, fs3)"
  shows "n < k \<and> k < 2 ^ 63"
proof -
  obtain r where r: "lookup_key ws_id w (wt_workspaces (wd_tables d)) = Some r" "n = ws_sequence r + 1"
    and d1: "wd_tables d1 = (wd_tables d)\<lparr>wt_workspaces := update_where (\<lambda>x. ws_id x = w) (\<lambda>x. x\<lparr>ws_sequence := ws_sequence x + 1\<rparr>) (wt_workspaces (wd_tables d))\<rparr>"
    using wpD(1) [OF wp_tables [OF wp_allocate_exact] refl assms(2)] by auto
  obtain r2 where r2: "lookup_key ws_id w (wt_workspaces (wd_tables (ws_run sha parse cs d1))) = Some r2" "k = ws_sequence r2 + 1" "k < 2 ^ 63"
    using wpD(1) [OF wp_tables [OF wp_allocate_exact] refl assms(3)] by auto
  have "ws_inv (wd_tables d1)"
    using wpD(1) [OF allocate_ticket_number_safe refl assms(2), of False "{}" "({}, {})"] assms(1) by (simp add: upheld_from)
  then have "upheld False {} ({}, {(w, n)}) (wd_tables d1)"
    using allocated_counts [OF assms(1) r(1)] by (simp add: upheld_def owned_def d1 r(2))
  then have "upheld False {} ({}, {(w, n)}) (wd_tables (ws_run sha parse cs d1))"
    by (rule run_upheld) (simp add: mild_def list_all_iff case_prod_beta)
  then have "n \<le> ws_sequence r2" by (intro counted_below [OF _ _ r2(1)]) (simp_all add: upheld_def)
  then show ?thesis using r2 by simp
qed

theorem ticket_numbers_increase_witness:
  "\<exists>p n d1 q k d2. on_tables (allocate_ticket_number ''w'') (demo_workspace, []) = (Inr (p, n), d1, []) \<and>
     on_tables (allocate_ticket_number ''w'') (ws_run demo_sha Some [(demo_redeem, [])] d1, []) = (Inr (q, k), d2, []) \<and> n < k"
proof -
  have "(case on_tables (allocate_ticket_number ''w'') (demo_workspace, []) of (Inr a, d1, []) \<Rightarrow>
     (case on_tables (allocate_ticket_number ''w'') (ws_run demo_sha Some [(demo_redeem, [])] d1, []) of (Inr b, d2, []) \<Rightarrow> True | _ \<Rightarrow> False) | _ \<Rightarrow> False)"
    by code_simp
  from run_gives [OF this] obtain p n d1 where a: "on_tables (allocate_ticket_number ''w'') (demo_workspace, []) = (Inr (p, n), d1, [])"
    "(case on_tables (allocate_ticket_number ''w'') (ws_run demo_sha Some [(demo_redeem, [])] d1, []) of (Inr b, d2, []) \<Rightarrow> True | _ \<Rightarrow> False)" by auto
  from run_gives [OF a(2)] obtain q k d2 where b: "on_tables (allocate_ticket_number ''w'') (ws_run demo_sha Some [(demo_redeem, [])] d1, []) = (Inr (q, k), d2, [])" by auto
  have "ws_inv (wd_tables demo_workspace)" using demo_inv by simp
  from ticket_numbers_increase [OF this a(1) b] a(1) b show ?thesis by blast
qed

end
