(* ===== verification/Spec2Isabelle.thy ===== *)
theory Spec2Isabelle
  imports RealtimeDelivery JobWorkers WebhookSafety SlaSafety InboxRestriction Paging RoutingFacts AutomationSafety IdempotencySafety TransportSafety AuthLimits WorkspaceAccess
begin

text \<open>
  Verification development for hubchat, a multi-tenant support desk written in Go over
  PostgreSQL (src/internal, with the schema in src/embedded/migrations).

  \<^bold>\<open>The program.\<close>  A request reaches a service (internal/auth, internal/conversation, ...), which
  checks the actor and changes the tables in one transaction, together with an entry of the audit
  log and one event of the per-workspace event log.  Everything else hangs on that log: the
  realtime hub pushes its events to browsers, durable consumers with a checkpoint each drive the
  automation rules, the SLA timers and the webhooks, and those use the durable job queue for what
  must happen later.  The model follows this: every table is a list of rows in a record of the
  component, every Go function a definition of the same name, every transaction a program of
  HubPrelude whose statements may fail one by one according to a schedule.

  \<^bold>\<open>Which theory models what.\<close>  Each part has a theory of definitions, translated function by
  function, and one or more theories of properties.

  \<^item> HubPrelude: database.WithTx and fallible statements (\<open>tx_bind\<close>, \<open>sql\<close>, \<open>with_tx\<close>), rows
    with keys (\<open>lookup_key\<close>, \<open>update_where\<close>), ORDER BY.  \<open>tx_keeps\<close> is the shared rule: a
    predicate every statement keeps holds after the program, wherever it stops.  Encodings: hex,
    base32, decimals and the query escape of the Go standard library with their decoders.
  \<^item> Events (internal/events/events.go): sequence allocation, Append, Since.  The locale
    \<open>event_source\<close> is the Go interface EventSource; its interpretation \<open>elog\<close> discharges it for the
    tables.  Concurrent transactions commit in the order of their sequences.
  \<^item> RealtimeClient, RealtimeHub, RealtimeSafety, RealtimeDelivery (internal/realtime/client.go,
    protocol.go, hub.go): one connection and its critical sections in every order; the registries,
    drain, resume, presence; who may receive which event; exact delivery over \<open>event_source\<close>.
    Go pointers to connections are numbers into \<open>h_heap\<close>.
  \<^item> EventConsumer (internal/events/consumer.go): checkpoints and one turn of a consumer, at most
    five pages of 200 events as in the code; the locale \<open>event_handler\<close> is what Consume demands of
    a handler and gives at-least-once handling.
  \<^item> JobQueue, JobWorkers (internal/jobs): enqueue with a deduplication key, claim, finish, retry
    delay, reclaim, retention; the queue with any number of workers as a system of actions; the
    locale \<open>keyed_queue\<close> is the contract of the deduplication key.
  \<^item> Webhook, WebhookSafety, WebhookTransport, TransportSafety (internal/webhook/service.go,
    network.go, signature.go): fan-out (an interpretation of \<open>event_handler\<close>), the delivery state
    machine; the guard against private addresses on machine words, the checked dial, signatures.
  \<^item> SlaCalendar, SlaRuntime, SlaSafety (internal/sla/business_hours.go, runtime.go): working time
    against the specification \<open>worked\<close> (locale \<open>working_days\<close>, interpreted on the code's calendars),
    timers, pausing and evaluation.
  \<^item> AuditLog (internal/audit/audit.go, internal/authorization): actors, capabilities, the audit
    log; the locale \<open>keyset\<close> is the contract of every list read in pages after the key of the last
    row, interpreted for audit entries, followers, messages (Paging), sessions, devices and
    invitations.
  \<^item> Conversation, Routing, ConversationService (internal/conversation): repository, routing and
    every operation of the service.  ConversationSafety: the invariant of the tables and the
    timeline as an abstract log; ConversationFacts: refinement of that log, idempotent posting,
    RoutingFacts: the decisions of the routing; InboxRestriction: members limited to inboxes;
    Bystander: the locale \<open>bystander\<close>, what the service leaves alone in tables beside its own.
  \<^item> Automation, AutomationSafety (internal/automation/service.go): conditions, actions with
    receipts, executions, scheduled actions.  The locales \<open>conversation_keeper\<close>, \<open>rule_runner\<close> and
    \<open>delivery_keeper\<close> state what the engine needs of the services it calls; the sublocale from
    \<open>bystander\<close> discharges it for the conversation service.
  \<^item> Idempotency, IdempotencySafety (internal/api/idempotency.go): requests with an
    Idempotency-Key as moves that interleave; the locale \<open>claim_ledger\<close> is interpreted for both
    ledgers.
  \<^item> Interleaving: concurrent requests as scripts of statements, pools of scripts and schedules
    with failures, and the logic over them (\<open>obeys\<close>, \<open>needs\<close>, at most one success of a redemption).
    Accounts, Authentication (internal/auth/repository.go, flows_repository.go, service.go, flows.go,
    oauth.go, trusted_devices.go) are written as such scripts; AuthSafety has the guarantee of every
    statement, AuthFacts the consistency, single use and cut-off properties, AuthFactor the second
    factor and the lockout, AuthLimits the runs that show where the promises end.  Totp
    (internal/auth/totp.go) holds codes, secrets and recovery codes.
  \<^item> Transactions: weakest preconditions of such programs, computed backwards by the rules \<open>wps\<close>.
    Workspaces, WorkspaceAdmin (internal/workspace): members, roles, invitations, onboarding,
    ticket numbers, directory provisioning, the actor of a user; teams, tags, legal holds,
    settings.  The tables of the service are one field of the database.  WorkspaceSafety: the
    invariant and what each write keeps of it; WorkspaceOps: every operation keeps it;
    WorkspaceFacts: runs of calls; WorkspaceAccess: owners, actors, invitations, merges, numbers,
    and pages of invitations (\<open>keyset\<close>).

  \<^bold>\<open>What is proved.\<close>  Invariants of the tables of events, jobs, webhooks, SLA, conversations,
  accounts and workspaces under every operation and every failure; refinement of the message tables to a timeline;
  equivalences (pages with the whole list, calendar arithmetic with \<open>worked\<close>, the address guard with
  the table of reserved ranges); termination of rule cascades; exactly-once and at-most-once effects
  (posting, idempotent requests, redemption of tickets, executions of rules, deliveries); isolation
  of workspaces, inboxes and visitors; round trips of codes and signatures.  Where the code does
  not do what it promises a closed theorem runs the model on the input that shows it.

  \<^bold>\<open>Bounds and fuel.\<close>  Loops that follow a list are structural.  Pages carry the limits of the code
  (200 events in a drain, five pages in a consumer turn, 201 rows in a page of followers or
  sessions, 100 ids in a bulk action, 100 scheduled actions); the calendar walks at most 36600
  days, as in the source, and the theorems give the inputs for which that is enough; the chain of
  causes ends at ten executions.  Where the code loops until a page is short, the fuel of the model
  is the length of the list plus one, and the theorems show that it suffices.

  \<^bold>\<open>Conventions.\<close>  Strings are byte strings; case mapping and trimming are those of ASCII.  Times
  are integers in nanoseconds (seconds in Totp).  The program clock and the database clock are one
  value per move.  A transaction is atomic: interleavings are those of statements outside
  transactions and of whole transactions, except where a theory looks at the row lock itself.
  Hashing, ciphers, HMAC, randomness, identifiers, the zone database, JSON texts, name resolution
  and HTTP exchanges are arguments; theorems that need a law of one of them say so in a
  hypothesis.

  \<^bold>\<open>Not modelled.\<close>  Read-only queries and reports (conversation search and counts, analytics,
  global search); the HTTP handlers, which decode requests and encode answers around the services;
  start-up, configuration and connection handling (cmd/hubchat, internal/config,
  internal/database, the LISTEN connection, mail, telemetry); the exchanges with SMTP and IMAP
  servers; and the services of the product surface around the core that have the shape of the
  ones modelled here (tickets, customers, knowledge base, portal, feedback,
  surveys, forms, tasks, files, notifications).  The web front end is TypeScript.
\<close>

end
